(* ===== verification/Prelude.thy ===== *)
theory Prelude
  imports Main "HOL-Library.Word" "HOL-Library.List_Lexorder" "HOL-Library.Char_ord"
    "HOL-Library.Sublist" "HOL-Library.Multiset"
begin

text \<open>Shared base of the development.

  A Rust \<^verbatim>\<open>str\<close> is a \<^typ>\<open>string\<close> whose characters are the bytes of its UTF-8
  encoding, so that \<^verbatim>\<open>len()\<close> is \<^const>\<open>length\<close>, the index returned by
  \<^verbatim>\<open>find(':')\<close> is a list index and the derived order of \<^verbatim>\<open>String\<close> is the
  lexicographic order on bytes.  A \<^verbatim>\<open>Result<T, E>\<close> is the datatype \<open>result\<close>, which has a
  third constructor for the panics the code can reach (\<open>unwrap\<close>, \<open>expect\<close>, slice indices).
  A \<^verbatim>\<open>BTreeMap\<close> is an association list with strictly increasing keys; what its clients
  use of it is the locale \<open>ordered_map\<close>, interpreted below on the association lists.\<close>

named_theorems res_simps \<open>case analysis on results\<close>
named_theorems str_simps \<open>searching and slicing strings\<close>
named_theorems map_simps \<open>sorted maps\<close>

section \<open>Results\<close>

datatype ('a, 'e) result = Ok 'a | Err 'e | Panic

fun and_then :: "('a, 'e) result \<Rightarrow> ('a \<Rightarrow> ('b, 'e) result) \<Rightarrow> ('b, 'e) result" where
  "and_then (Ok x) f = f x"
| "and_then (Err e) f = Err e"
| "and_then Panic f = Panic"

lemma and_then_assoc: "and_then (and_then r f) g = and_then r (\<lambda>x. and_then (f x) g)"
  by (cases r) auto

fun map_err :: "('e \<Rightarrow> 'f) \<Rightarrow> ('a, 'e) result \<Rightarrow> ('a, 'f) result" where
  "map_err f (Ok x) = Ok x"
| "map_err f (Err e) = Err (f e)"
| "map_err f Panic = Panic"

fun ok_or :: "'e \<Rightarrow> 'a option \<Rightarrow> ('a, 'e) result" where
  "ok_or e None = Err e"
| "ok_or e (Some x) = Ok x"

fun is_ok :: "('a, 'e) result \<Rightarrow> bool" where
  "is_ok (Ok x) = True"
| "is_ok (Err e) = False"
| "is_ok Panic = False"

fun is_err :: "('a, 'e) result \<Rightarrow> bool" where
  "is_err (Ok x) = False"
| "is_err (Err e) = True"
| "is_err Panic = False"

lemma and_then_cong [fundef_cong]:
  "r = r' \<Longrightarrow> (\<And>x. r' = Ok x \<Longrightarrow> f x = g x) \<Longrightarrow> and_then r f = and_then r' g"
  by (cases r') auto

lemma and_then_eq_Ok [res_simps]: "and_then r f = Ok y \<longleftrightarrow> (\<exists>x. r = Ok x \<and> f x = Ok y)"
  by (cases r) auto

lemma and_then_eq_Err [res_simps]:
  "and_then r f = Err e \<longleftrightarrow> r = Err e \<or> (\<exists>x. r = Ok x \<and> f x = Err e)"
  by (cases r) auto

lemma and_then_eq_Panic [res_simps]:
  "and_then r f = Panic \<longleftrightarrow> r = Panic \<or> (\<exists>x. r = Ok x \<and> f x = Panic)"
  by (cases r) auto

lemma map_err_eq_Ok [res_simps]: "map_err f r = Ok x \<longleftrightarrow> r = Ok x"
  by (cases r) auto

lemma ok_or_eq_Ok [res_simps]: "ok_or e r = Ok x \<longleftrightarrow> r = Some x"
  by (cases r) auto

lemma ok_or_eq_Err [res_simps]: "ok_or e r = Err e' \<longleftrightarrow> r = None \<and> e' = e"
  by (cases r) auto

lemma ok_or_neq_Panic [simp]: "ok_or e r \<noteq> Panic"
  by (cases r) auto

lemma is_ok_iff [res_simps]: "is_ok r \<longleftrightarrow> (\<exists>x. r = Ok x)"
  by (cases r) auto

text \<open>\<open>map_res\<close> is \<open>iter().map(f).collect::<Result<Vec<_>, _>>()\<close>: the first error stops it.\<close>

fun map_res :: "('a \<Rightarrow> ('b, 'e) result) \<Rightarrow> 'a list \<Rightarrow> ('b list, 'e) result" where
  "map_res f [] = Ok []"
| "map_res f (x # xs) = and_then (f x) (\<lambda>y. and_then (map_res f xs) (\<lambda>ys. Ok (y # ys)))"

lemma map_res_cong [fundef_cong]:
  "xs = ys \<Longrightarrow> (\<And>x. x \<in> set ys \<Longrightarrow> f x = g x) \<Longrightarrow> map_res f xs = map_res g ys"
  by (induction xs arbitrary: ys) (auto intro!: and_then_cong)

lemma map_res_Ok_map: "(\<And>x. x \<in> set xs \<Longrightarrow> f x = Ok (g x)) \<Longrightarrow> map_res f xs = Ok (map g xs)"
  by (induction xs) auto

lemma map_res_eq_Ok [res_simps]: "map_res f xs = Ok ys \<longleftrightarrow> list_all2 (\<lambda>x y. f x = Ok y) xs ys"
  by (induction xs arbitrary: ys) (auto simp: res_simps list_all2_Cons1)

lemma map_res_PanicD: "map_res f xs = Panic \<Longrightarrow> \<exists>x\<in>set xs. f x = Panic"
  by (induction xs) (auto simp: res_simps)

section \<open>Bytes and strings\<close>

abbreviation byte :: "char \<Rightarrow> nat" where
  "byte c \<equiv> of_char c"

definition is_digit :: "char \<Rightarrow> bool" where
  "is_digit c \<longleftrightarrow> 48 \<le> byte c \<and> byte c \<le> 57"

definition is_lower :: "char \<Rightarrow> bool" where
  "is_lower c \<longleftrightarrow> 97 \<le> byte c \<and> byte c \<le> 122"

definition is_upper :: "char \<Rightarrow> bool" where
  "is_upper c \<longleftrightarrow> 65 \<le> byte c \<and> byte c \<le> 90"

definition is_ascii_alnum :: "char \<Rightarrow> bool" where
  "is_ascii_alnum c \<longleftrightarrow> is_digit c \<or> is_lower c \<or> is_upper c"

text \<open>\<open>str::find\<close> for a character, and for a string (the byte index of the first occurrence).\<close>

fun str_find :: "char \<Rightarrow> string \<Rightarrow> nat option" where
  "str_find c [] = None"
| "str_find c (x # xs) = (if x = c then Some 0 else map_option Suc (str_find c xs))"

lemma str_find_None [str_simps]: "str_find c s = None \<longleftrightarrow> c \<notin> set s"
  by (induction s) auto

lemma str_find_Some:
  "str_find c s = Some i \<longleftrightarrow> i < length s \<and> s ! i = c \<and> c \<notin> set (take i s)"
proof (induction s arbitrary: i)
  case (Cons x xs)
  then show ?case by (cases i) auto
qed simp

lemma str_find_append [str_simps]: "c \<notin> set s \<Longrightarrow> str_find c (s @ c # t) = Some (length s)"
  by (induction s) auto

lemma str_find_split:
  assumes "str_find c s = Some i"
  shows "s = take i s @ c # drop (Suc i) s" "c \<notin> set (take i s)" "i < length s"
  using assms by (auto simp: str_find_Some id_take_nth_drop)

lemma str_find_less: "str_find c s = Some i \<Longrightarrow> i < length s"
  by (simp add: str_find_Some)

lemma str_find_splitE:
  assumes "str_find c s = Some i"
  obtains a b where "s = a @ c # b" "c \<notin> set a" "i = length a"
proof
  show "s = take i s @ c # drop (Suc i) s" "c \<notin> set (take i s)"
    using str_find_split[OF assms] by auto
  show "i = length (take i s)" using str_find_less[OF assms] by simp
qed

lemma str_find_iff: "str_find c s = Some i \<longleftrightarrow> (\<exists>a b. s = a @ c # b \<and> c \<notin> set a \<and> i = length a)"
  by (auto simp: str_find_append elim!: str_find_splitE)

lemma str_find_drop_iff:
  "str_find c s = Some i \<and> Q (drop (Suc i) s) \<longleftrightarrow>
    (\<exists>a b. s = a @ c # b \<and> c \<notin> set a \<and> i = length a \<and> Q b)"
  (is "?l \<longleftrightarrow> ?r")
proof
  assume ?l
  then obtain a b where "s = a @ c # b" "c \<notin> set a" "i = length a" by (auto elim: str_find_splitE)
  with \<open>?l\<close> show ?r by auto
qed (auto simp: str_find_append)

lemma split_unique: "a @ c # b = a' @ c # b' \<Longrightarrow> c \<notin> set a \<Longrightarrow> c \<notin> set a' \<Longrightarrow> a = a' \<and> b = b'"
  by (induction a arbitrary: a') (auto simp: Cons_eq_append_conv)

text \<open>\<open>str::split\<close> at a character.\<close>

fun str_split :: "char \<Rightarrow> string \<Rightarrow> string list" where
  "str_split c [] = [[]]"
| "str_split c (x # xs) =
     (if x = c then [] # str_split c xs
      else case str_split c xs of s # ss \<Rightarrow> (x # s) # ss | [] \<Rightarrow> [[x]])"

lemma str_split_neq_Nil [simp]: "str_split c s \<noteq> []"
  by (cases s) (auto split: list.splits)

lemma str_split_none: "c \<notin> set s \<Longrightarrow> str_split c s = [s]"
  by (induction s) auto

lemma str_split_append: "c \<notin> set a \<Longrightarrow> str_split c (a @ c # b) = a # str_split c b"
  by (induction a) auto

fun strip_prefix :: "string \<Rightarrow> string \<Rightarrow> string option" where
  "strip_prefix [] s = Some s"
| "strip_prefix (p # ps) [] = None"
| "strip_prefix (p # ps) (x # xs) = (if p = x then strip_prefix ps xs else None)"

lemma str_split_Cons: "c \<noteq> x \<Longrightarrow> str_split c (x # xs) = (x # hd (str_split c xs)) # tl (str_split c xs)"
  by (cases "str_split c xs") auto

lemma str_split_concat: "str_split c (a @ c # b) = str_split c a @ str_split c b"
proof (induction a)
  case (Cons x a)
  then show ?case by (cases "str_split c a") (auto split: list.splits)
qed simp

lemma str_split_parts: "s \<in> set (str_split c a) \<Longrightarrow> set s \<subseteq> set a"
proof (induction a arbitrary: s)
  case (Cons x a)
  obtain t ts where t: "str_split c a = t # ts" by (cases "str_split c a") simp_all
  show ?case using Cons.prems Cons.IH by (fastforce simp: t split: if_splits)
qed simp

lemma str_split_empty_head:
  assumes "str_split c s = [] # xs" "xs \<noteq> []"
  shows "\<exists>t. s = c # t \<and> str_split c t = xs"
proof (cases s)
  case (Cons x t)
  then show ?thesis using assms by (cases "x = c") (auto split: list.splits)
qed (use assms in simp)

lemma str_split_clean: "s \<in> set (str_split c a) \<Longrightarrow> c \<notin> set s"
proof (induction a arbitrary: s)
  case (Cons x a)
  obtain t ts where t: "str_split c a = t # ts" by (cases "str_split c a") simp_all
  show ?case using Cons.prems Cons.IH by (auto simp: t split: if_splits)
qed simp

lemma strip_prefix_Some [str_simps]: "strip_prefix p s = Some t \<longleftrightarrow> s = p @ t"
  by (induction p s rule: strip_prefix.induct) auto

fun starts_with :: "string \<Rightarrow> string \<Rightarrow> bool" where
  "starts_with [] s = True"
| "starts_with (p # ps) [] = False"
| "starts_with (p # ps) (x # xs) = (p = x \<and> starts_with ps xs)"

lemma starts_with_iff [str_simps]: "starts_with p s \<longleftrightarrow> prefix p s"
  by (induction p s rule: starts_with.induct) auto

fun str_find_str :: "string \<Rightarrow> string \<Rightarrow> nat option" where
  "str_find_str p [] = (if p = [] then Some 0 else None)"
| "str_find_str p (x # xs) =
     (if starts_with p (x # xs) then Some 0 else map_option Suc (str_find_str p xs))"

text \<open>\<open>str::chars\<close> decodes the bytes into Unicode scalar values.\<close>

fun chars :: "string \<Rightarrow> nat list" where
  "chars [] = []"
| "chars (a # s) =
    (if byte a < 128 then byte a # chars s
     else if byte a < 224 then
       (case s of b # s' \<Rightarrow> ((byte a mod 32) * 64 + byte b mod 64) # chars s' | [] \<Rightarrow> [])
     else if byte a < 240 then
       (case s of b # c # s' \<Rightarrow>
          ((byte a mod 16) * 4096 + (byte b mod 64) * 64 + byte c mod 64) # chars s'
        | _ \<Rightarrow> [])
     else
       (case s of b # c # d # s' \<Rightarrow>
          ((byte a mod 8) * 262144 + (byte b mod 64) * 4096 + (byte c mod 64) * 64 + byte d mod 64)
            # chars s'
        | _ \<Rightarrow> []))"

definition is_ascii :: "string \<Rightarrow> bool" where
  "is_ascii s \<longleftrightarrow> list_all (\<lambda>c. byte c < 128) s"

lemma chars_ascii: "is_ascii s \<Longrightarrow> chars s = map byte s"
  by (induction s) (auto simp: is_ascii_def)

lemma nat_char_inj [simp]: "byte c = byte d \<longleftrightarrow> c = d"
  by simp

section \<open>Sorted maps\<close>

type_synonym ('k, 'v) btree = "('k \<times> 'v) list"

fun bt_insert :: "'k::linorder \<Rightarrow> 'v \<Rightarrow> ('k, 'v) btree \<Rightarrow> ('k, 'v) btree" where
  "bt_insert k v [] = [(k, v)]"
| "bt_insert k v ((k', v') # m) =
     (if k < k' then (k, v) # (k', v') # m
      else if k = k' then (k, v) # m
      else (k', v') # bt_insert k v m)"

definition bt_remove :: "'k \<Rightarrow> ('k, 'v) btree \<Rightarrow> ('k, 'v) btree" where
  "bt_remove k m = filter (\<lambda>(k', v). k' \<noteq> k) m"

abbreviation bt_get :: "('k, 'v) btree \<Rightarrow> 'k \<Rightarrow> 'v option" where
  "bt_get \<equiv> map_of"

abbreviation bt_keys :: "('k, 'v) btree \<Rightarrow> 'k list" where
  "bt_keys m \<equiv> map fst m"

definition bt_ok :: "('k::linorder, 'v) btree \<Rightarrow> bool" where
  "bt_ok m \<longleftrightarrow> sorted_wrt (<) (map fst m)"

definition bt_has :: "'k \<Rightarrow> ('k, 'v) btree \<Rightarrow> bool" where
  "bt_has k m \<longleftrightarrow> map_of m k \<noteq> None"

text \<open>What the clients of a \<^verbatim>\<open>BTreeMap\<close> rely on: lookups after an update, and that two maps
  with the same lookups are the same value (the order of insertion leaves no trace).\<close>

locale ordered_map =
  fixes empty :: "'m"
    and get :: "'m \<Rightarrow> 'k \<Rightarrow> 'v option"
    and insert :: "'k \<Rightarrow> 'v \<Rightarrow> 'm \<Rightarrow> 'm"
    and remove :: "'k \<Rightarrow> 'm \<Rightarrow> 'm"
    and invar :: "'m \<Rightarrow> bool"
  assumes get_empty: "get empty k = None"
    and get_insert: "invar m \<Longrightarrow> get (insert k v m) k' = (if k' = k then Some v else get m k')"
    and get_remove: "invar m \<Longrightarrow> get (remove k m) k' = (if k' = k then None else get m k')"
    and invar_empty: "invar empty"
    and invar_insert: "invar m \<Longrightarrow> invar (insert k v m)"
    and invar_remove: "invar m \<Longrightarrow> invar (remove k m)"
    and ext: "invar m \<Longrightarrow> invar m' \<Longrightarrow> (\<And>k. get m k = get m' k) \<Longrightarrow> m = m'"
begin

lemma remove_insert: "invar m \<Longrightarrow> remove k (insert k v m) = remove k m"
  by (rule ext) (auto simp: get_insert get_remove invar_insert invar_remove)

lemma insert_remove: "invar m \<Longrightarrow> insert k v (remove k m) = insert k v m"
  by (rule ext) (auto simp: get_insert get_remove invar_insert invar_remove)

lemma insert_twice: "invar m \<Longrightarrow> insert k v (insert k v' m) = insert k v m"
  by (rule ext) (auto simp: get_insert invar_insert)

lemma insert_commute:
  "invar m \<Longrightarrow> k \<noteq> k' \<Longrightarrow> insert k v (insert k' v' m) = insert k' v' (insert k v m)"
  by (rule ext) (auto simp: get_insert invar_insert)

lemma remove_commute: "invar m \<Longrightarrow> remove k (remove k' m) = remove k' (remove k m)"
  by (rule ext) (auto simp: get_remove invar_remove)

lemma remove_insert_other:
  "invar m \<Longrightarrow> k \<noteq> k' \<Longrightarrow> remove k (insert k' v m) = insert k' v (remove k m)"
  by (rule ext) (auto simp: get_insert get_remove invar_insert invar_remove)

lemma insert_same: "invar m \<Longrightarrow> get m k = Some v \<Longrightarrow> insert k v m = m"
  by (rule ext) (auto simp: get_insert invar_insert)

lemma remove_absent: "invar m \<Longrightarrow> get m k = None \<Longrightarrow> remove k m = m"
  by (rule ext) (auto simp: get_remove invar_remove)

lemma insert_removed: "invar m \<Longrightarrow> get m k = Some v \<Longrightarrow> insert k v (remove k m) = m"
  by (simp add: insert_remove insert_same)

lemma fold_insert_invar: "invar m \<Longrightarrow> invar (fold (\<lambda>(k, v). insert k v) xs m)"
  by (induction xs arbitrary: m) (auto simp: invar_insert)

lemma get_fold_insert:
  "invar m \<Longrightarrow> get (fold (\<lambda>(k, v). insert k v) xs m) k =
    (case map_of (rev xs) k of Some v \<Rightarrow> Some v | None \<Rightarrow> get m k)"
  by (induction xs arbitrary: m)
     (auto simp: invar_insert get_insert map_add_def split: option.splits)

end

text \<open>The association lists.\<close>

lemma bt_ok_Nil [simp]: "bt_ok []"
  by (simp add: bt_ok_def)

lemma bt_ok_Cons [simp]: "bt_ok ((k, v) # m) \<longleftrightarrow> (\<forall>k'\<in>fst ` set m. k < k') \<and> bt_ok m"
  by (auto simp: bt_ok_def)

lemma bt_ok_distinct: "bt_ok m \<Longrightarrow> distinct (map fst m)"
  by (simp add: bt_ok_def strict_sorted_iff)

lemma fst_set_bt_insert [simp]: "fst ` set (bt_insert k v m) = insert k (fst ` set m)"
  by (induction k v m rule: bt_insert.induct) auto

lemma bt_ok_insert [simp]: "bt_ok m \<Longrightarrow> bt_ok (bt_insert k v m)"
  by (induction k v m rule: bt_insert.induct) auto

lemma bt_get_insert [simp]: "bt_get (bt_insert k v m) k' = (if k' = k then Some v else bt_get m k')"
  by (induction k v m rule: bt_insert.induct) auto

lemma bt_get_remove [simp]: "bt_get (bt_remove k m) k' = (if k' = k then None else bt_get m k')"
  by (induction m) (auto simp: bt_remove_def)

lemma bt_ok_filter: "bt_ok m \<Longrightarrow> bt_ok (filter P m)"
  by (induction m) auto

lemma bt_ok_remove [simp]: "bt_ok m \<Longrightarrow> bt_ok (bt_remove k m)"
  by (simp add: bt_remove_def bt_ok_filter)

lemma bt_get_less: "bt_ok ((k, v) # m) \<Longrightarrow> k' \<le> k \<Longrightarrow> bt_get m k' = None"
  by (auto simp: map_of_eq_None_iff)

lemma bt_ext:
  assumes "bt_ok m" "bt_ok m'" "\<And>k. bt_get m k = bt_get m' k"
  shows "m = m'"
  using assms
proof (induction m arbitrary: m')
  case Nil
  have "fst ` set m' = {}"
    using Nil(3) by (metis map_of.simps(1) map_of_eq_None_iff equals0I)
  then show ?case by simp
next
  case (Cons kv m)
  obtain k v where kv: "kv = (k, v)" by (cases kv)
  from Cons(4)[of k] obtain k2 v2 m2 where m': "m' = (k2, v2) # m2"
    by (cases m') (auto simp: kv)
  have "k2 = k"
  proof (rule antisym)
    show "k2 \<le> k"
      using Cons(4)[of k] bt_get_less[of k2 v2 m2 k] Cons(3)
      by (metis kv m' linorder_le_cases map_of_Cons_code(2) option.distinct(1) order_refl)
    show "k \<le> k2"
      using Cons(4)[of k2] bt_get_less[of k v m k2] Cons(2)
      by (metis kv m' linorder_le_cases map_of_Cons_code(2) option.distinct(1) order_refl)
  qed
  moreover have "v2 = v" using Cons(4)[of k] calculation by (simp add: kv m')
  moreover have "m = m2"
  proof (rule Cons.IH)
    show "bt_ok m" "bt_ok m2" using Cons(2,3) by (auto simp: kv m')
    fix l show "bt_get m l = bt_get m2 l"
      using Cons(4)[of l] bt_get_less[of k v m k] bt_get_less[of k2 v2 m2 k2] Cons(2,3) calculation
      by (auto simp: kv m' split: if_splits)
  qed
  ultimately show ?case by (simp add: kv m')
qed

interpretation bt: ordered_map "[]" map_of bt_insert bt_remove bt_ok
  by unfold_locales (auto intro: bt_ext)

lemmas bt_laws [map_simps] = bt.remove_insert bt.insert_remove bt.insert_twice
  bt.remove_insert_other bt.insert_same bt.remove_absent

definition bt_of_list :: "('k::linorder \<times> 'v) list \<Rightarrow> ('k, 'v) btree" where
  "bt_of_list xs = fold (\<lambda>(k, v). bt_insert k v) xs []"

lemma bt_ok_of_list [simp]: "bt_ok (bt_of_list xs)"
  unfolding bt_of_list_def by (rule bt.fold_insert_invar) simp

lemma bt_get_of_list: "bt_get (bt_of_list xs) k = map_of (rev xs) k"
  unfolding bt_of_list_def by (subst bt.get_fold_insert) (auto split: option.splits)

lemma map_of_rev_distinct: "distinct (map fst m) \<Longrightarrow> map_of (rev m) = map_of m"
  by (subst map_of_inject_set) (auto simp: rev_map[symmetric])

lemma bt_of_list_ok: "bt_ok m \<Longrightarrow> bt_of_list m = m"
  by (rule bt_ext) (simp_all add: bt_get_of_list map_of_rev_distinct bt_ok_distinct)

lemma set_bt_remove: "set (bt_remove k m) = {kv \<in> set m. fst kv \<noteq> k}"
  by (auto simp: bt_remove_def)

lemma set_bt_insert_subset: "set (bt_insert k v m) \<subseteq> insert (k, v) (set m)"
  by (induction k v m rule: bt_insert.induct) auto

end
