(* ===== verification/Id_Validation.thy ===== *)
theory Id_Validation
  imports Prelude
begin

text \<open>The crate \<^verbatim>\<open>ruma-identifiers-validation\<close>: one \<open>*_validate\<close> function for each file, returning
  the crate's \<open>Error\<close>, with the standard library's \<open>u16\<close> and \<open>Ipv6Addr\<close> parsers they call.
  Default features (no \<^verbatim>\<open>compat\<close>).\<close>

section \<open>Errors\<close>

datatype mxc_uri_error = WrongSchema | MissingSlash | MediaIdMalformed | ServerNameMalformed

datatype id_error =
    EmptyClientSecret | EmptyRoomName | EmptyRoomVersionId | InvalidCharacters
  | InvalidKeyAlgorithm | InvalidKeyVersion | InvalidMxcUri mxc_uri_error | InvalidServerName
  | MaximumLengthExceeded | MissingDelimiter | MissingLeadingSigil

section \<open>Standard library parsers\<close>

text \<open>\<open><u16 as FromStr>::from_str\<close>: an optional plus sign and at least one decimal digit, the
  value checked against the type's bound after every digit.\<close>

fun parse_digits :: "nat \<Rightarrow> nat \<Rightarrow> string \<Rightarrow> nat option" where
  "parse_digits bound acc [] = Some acc"
| "parse_digits bound acc (c # s) =
     (if is_digit c \<and> acc * 10 + (byte c - 48) \<le> bound
      then parse_digits bound (acc * 10 + (byte c - 48)) s else None)"

definition parse_uint :: "nat \<Rightarrow> string \<Rightarrow> nat option" where
  "parse_uint bound s =
     (let t = (case s of c # r \<Rightarrow> if c = CHR ''+'' then r else s | [] \<Rightarrow> s)
      in if t = [] then None else parse_digits bound 0 t)"

definition parse_u16 :: "string \<Rightarrow> nat option" where
  "parse_u16 s = parse_uint 65535 s"

text \<open>The parser of \<open>std::net\<close>: each reader returns what is left of the input, or fails
  without consuming anything.\<close>

definition hex_digit :: "char \<Rightarrow> bool" where
  "hex_digit c \<longleftrightarrow> is_digit c \<or> (65 \<le> byte c \<and> byte c \<le> 70) \<or> (97 \<le> byte c \<and> byte c \<le> 102)"

definition read_group :: "string \<Rightarrow> string option" where
  "read_group s =
     (let d = takeWhile hex_digit s
      in if d = [] \<or> 4 < length d then None else Some (dropWhile hex_digit s))"

definition dec_value :: "string \<Rightarrow> nat" where
  "dec_value d = foldl (\<lambda>a c. a * 10 + (byte c - 48)) 0 d"

definition read_octet :: "string \<Rightarrow> string option" where
  "read_octet s =
     (let d = takeWhile is_digit s
      in if d = [] \<or> 3 < length d \<or> 255 < dec_value d \<or> (1 < length d \<and> hd d = CHR ''0'')
         then None else Some (dropWhile is_digit s))"

fun read_char :: "char \<Rightarrow> string \<Rightarrow> string option" where
  "read_char c (x # s) = (if x = c then Some s else None)"
| "read_char c [] = None"

definition read_separator ::
    "char \<Rightarrow> nat \<Rightarrow> (string \<Rightarrow> string option) \<Rightarrow> string \<Rightarrow> string option" where
  "read_separator c i rd s = (if 0 < i then Option.bind (read_char c s) rd else rd s)"

definition read_ipv4 :: "string \<Rightarrow> string option" where
  "read_ipv4 s =
     fold (\<lambda>i r. Option.bind r (read_separator (CHR ''.'') i read_octet)) [0..<4] (Some s)"

text \<open>\<open>read_groups\<close> on an array of \<open>limit\<close> slots: the number of groups read, whether the last two
  came from an embedded IPv4 address, and the rest.\<close>

function read_groups :: "nat \<Rightarrow> nat \<Rightarrow> string \<Rightarrow> nat \<times> bool \<times> string" where
  "read_groups limit i s =
     (if limit \<le> i then (i, False, s)
      else case (if i < limit - 1 then read_separator (CHR '':'') i read_ipv4 s else None) of
             Some r \<Rightarrow> (i + 2, True, r)
           | None \<Rightarrow>
               (case read_separator (CHR '':'') i read_group s of
                  Some r \<Rightarrow> read_groups limit (i + 1) r
                | None \<Rightarrow> (i, False, s)))"
  by pat_completeness auto
termination by (relation "measure (\<lambda>(limit, i, s). limit - i)") auto

declare read_groups.simps [simp del]

definition parse_ipv6 :: "string \<Rightarrow> bool" where
  "parse_ipv6 s =
     (case read_groups 8 0 s of (head_size, head_ipv4, r) \<Rightarrow>
        if head_size = 8 then r = []
        else if head_ipv4 then False
        else case strip_prefix ''::'' r of
               None \<Rightarrow> False
             | Some r' \<Rightarrow> snd (snd (read_groups (8 - (head_size + 1)) 0 r')) = [])"

section \<open>Server names\<close>

definition host_byte :: "char \<Rightarrow> bool" where
  "host_byte b \<longleftrightarrow> is_ascii_alnum b \<or> b = CHR ''-'' \<or> b = CHR ''.''"

definition end_of_host :: "string \<Rightarrow> (nat, id_error) result" where
  "end_of_host s =
     (if starts_with ''['' s then
        (case str_find (CHR '']'') s of
           None \<Rightarrow> Err InvalidServerName
         | Some idx \<Rightarrow>
             if \<not> parse_ipv6 (take (idx - 1) (drop 1 s)) then Err InvalidServerName
             else Ok (idx + 1))
      else
        (let e = (case str_find (CHR '':'') s of Some i \<Rightarrow> i | None \<Rightarrow> length s)
         in if list_ex (\<lambda>b. \<not> host_byte b) (take e s) then Err InvalidServerName else Ok e))"

definition server_name_validate :: "string \<Rightarrow> (unit, id_error) result" where
  "server_name_validate s =
     (if s = [] then Err InvalidServerName
      else and_then (end_of_host s) (\<lambda>e.
        if length s \<noteq> e \<and> (s ! e \<noteq> CHR '':'' \<or> parse_u16 (drop (e + 1) s) = None)
        then Err InvalidServerName else Ok ()))"

section \<open>Identifiers with a sigil\<close>

definition MAX_BYTES :: nat where "MAX_BYTES = 255"

definition validate_id :: "string \<Rightarrow> char list \<Rightarrow> (unit, id_error) result" where
  "validate_id s sigils =
     (if length s > MAX_BYTES then Err MaximumLengthExceeded
      else if \<not> (case s of c # _ \<Rightarrow> c \<in> set sigils | [] \<Rightarrow> False) then Err MissingLeadingSigil
      else Ok ())"

definition parse_id :: "string \<Rightarrow> char list \<Rightarrow> (nat, id_error) result" where
  "parse_id s sigils =
     and_then (validate_id s sigils) (\<lambda>_.
     and_then (ok_or MissingDelimiter (str_find (CHR '':'') s)) (\<lambda>colon_idx.
     and_then (server_name_validate (drop (colon_idx + 1) s)) (\<lambda>_. Ok colon_idx)))"

definition validate_delimited_id :: "string \<Rightarrow> char list \<Rightarrow> (unit, id_error) result" where
  "validate_delimited_id s sigils = and_then (parse_id s sigils) (\<lambda>_. Ok ())"

definition conforming_byte :: "char \<Rightarrow> bool" where
  "conforming_byte b \<longleftrightarrow> is_digit b \<or> is_lower b \<or> b \<in> set ''-.=_/''"

definition localpart_is_fully_conforming :: "string \<Rightarrow> (bool, id_error) result" where
  "localpart_is_fully_conforming lp =
     (let fully = list_all conforming_byte lp
      in if \<not> fully \<and> list_ex (\<lambda>b. byte b < 33 \<or> b = CHR '':'' \<or> byte b > 126) lp
         then Err InvalidCharacters else Ok fully)"

definition user_id_validate :: "string \<Rightarrow> (unit, id_error) result" where
  "user_id_validate s =
     and_then (parse_id s ''@'') (\<lambda>colon_idx.
     and_then (localpart_is_fully_conforming (take (colon_idx - 1) (drop 1 s))) (\<lambda>_. Ok ()))"

definition event_id_validate :: "string \<Rightarrow> (unit, id_error) result" where
  "event_id_validate s =
     (if CHR '':'' \<in> set s then validate_delimited_id s ''$''
      else if \<not> starts_with ''$'' s then Err MissingLeadingSigil
      else Ok ())"

definition room_id_validate :: "string \<Rightarrow> (unit, id_error) result" where
  "room_id_validate s = validate_delimited_id s ''!''"

definition room_alias_id_validate :: "string \<Rightarrow> (unit, id_error) result" where
  "room_alias_id_validate s = validate_delimited_id s ''#''"

definition room_id_or_alias_id_validate :: "string \<Rightarrow> (unit, id_error) result" where
  "room_id_or_alias_id_validate s = validate_delimited_id s ''#!''"

section \<open>Key ids\<close>

text \<open>\<open>char::is_alphanumeric\<close>: the ASCII part is written out, the Unicode tables are the
  parameter \<open>uni\<close> of the functions that use it.\<close>

definition is_alphanumeric :: "(nat \<Rightarrow> bool) \<Rightarrow> nat \<Rightarrow> bool" where
  "is_alphanumeric uni c \<longleftrightarrow>
     (if c < 128 then (48 \<le> c \<and> c \<le> 57) \<or> (65 \<le> c \<and> c \<le> 90) \<or> (97 \<le> c \<and> c \<le> 122) else uni c)"

definition validate_version :: "(nat \<Rightarrow> bool) \<Rightarrow> string \<Rightarrow> (unit, id_error) result" where
  "validate_version uni v =
     (if v = [] then Err EmptyRoomVersionId
      else if \<not> list_all (\<lambda>c. is_alphanumeric uni c \<or> c = 95) (chars v) then Err InvalidCharacters
      else Ok ())"

text \<open>\<open>&s[i..]\<close>: panics past the end and inside a multi-byte character.\<close>

definition is_char_boundary :: "string \<Rightarrow> nat \<Rightarrow> bool" where
  "is_char_boundary s i \<longleftrightarrow> i = length s \<or> (i < length s \<and> byte (s ! i) div 64 \<noteq> 2)"

definition slice_from :: "string \<Rightarrow> nat \<Rightarrow> (string, 'e) result" where
  "slice_from s i = (if is_char_boundary s i then Ok (drop i s) else Panic)"

definition nonzero_u8 :: "nat \<Rightarrow> 8 word option" where
  "nonzero_u8 n = (let w = (of_nat n :: 8 word) in if w = 0 then None else Some w)"

definition key_id_validate :: "(nat \<Rightarrow> bool) \<Rightarrow> string \<Rightarrow> (8 word, id_error) result" where
  "key_id_validate uni s =
     and_then (ok_or MissingDelimiter (str_find (CHR '':'') s)) (\<lambda>i.
     and_then (ok_or InvalidKeyAlgorithm (nonzero_u8 i)) (\<lambda>colon_idx.
     and_then (slice_from s (unat colon_idx + 1)) (\<lambda>v.
     and_then (validate_version uni v) (\<lambda>_. Ok colon_idx))))"

definition device_key_id_validate :: "string \<Rightarrow> (unit, id_error) result" where
  "device_key_id_validate s =
     and_then (ok_or MissingDelimiter (str_find (CHR '':'') s)) (\<lambda>colon_idx.
       if colon_idx = 0 then Err InvalidKeyAlgorithm else Ok ())"

section \<open>Opaque strings and content URIs\<close>

definition client_secret_validate :: "(nat \<Rightarrow> bool) \<Rightarrow> string \<Rightarrow> (unit, id_error) result" where
  "client_secret_validate uni s =
     (if length s > 255 then Err MaximumLengthExceeded
      else if \<not> list_all (\<lambda>c. is_alphanumeric uni c \<or> c \<in> set (map byte ''.=_-'')) (chars s)
      then Err InvalidCharacters
      else if s = [] then Err EmptyClientSecret
      else Ok ())"

definition session_id_validate :: "(nat \<Rightarrow> bool) \<Rightarrow> string \<Rightarrow> (unit, id_error) result" where
  "session_id_validate uni s =
     (if length s > 255 then Err MaximumLengthExceeded
      else if \<not> list_all (\<lambda>c. is_alphanumeric uni c \<or> c \<in> set (map byte ''.=_-'')) (chars s)
      then Err InvalidCharacters
      else if s = [] then Err EmptyClientSecret
      else Ok ())"

definition room_name_validate :: "string \<Rightarrow> (unit, id_error) result" where
  "room_name_validate s =
     (if length s = 0 then Err EmptyRoomName
      else if length s \<le> 255 then Ok ()
      else Err MaximumLengthExceeded)"

definition MAX_CODE_POINTS :: nat where "MAX_CODE_POINTS = 32"

definition room_version_id_validate :: "string \<Rightarrow> (unit, id_error) result" where
  "room_version_id_validate s =
     (if s = [] then Err EmptyRoomVersionId
      else if length (chars s) > MAX_CODE_POINTS then Err MaximumLengthExceeded
      else Ok ())"

definition media_byte :: "char \<Rightarrow> bool" where
  "media_byte b \<longleftrightarrow> is_ascii_alnum b \<or> b = CHR ''-''"

definition mxc_uri_validate :: "string \<Rightarrow> (8 word, mxc_uri_error) result" where
  "mxc_uri_validate uri =
     (case strip_prefix ''mxc://'' uri of
        None \<Rightarrow> Err WrongSchema
      | Some u \<Rightarrow>
          (case str_find (CHR ''/'') u of
             None \<Rightarrow> Err MissingSlash
           | Some index \<Rightarrow>
               if \<not> list_all media_byte (drop (index + 1) u) then Err MediaIdMalformed
               else if is_err (server_name_validate (take index u)) then Err ServerNameMalformed
               else (case nonzero_u8 (index + 6) of None \<Rightarrow> Panic | Some w \<Rightarrow> Ok w)))"

section \<open>The parsers against their languages\<close>

lemma parse_digits_eq_Some:
  "acc \<le> bound \<Longrightarrow> parse_digits bound acc s = Some v \<longleftrightarrow>
     list_all is_digit s \<and> v = foldl (\<lambda>a c. a * 10 + (byte c - 48)) acc s \<and> v \<le> bound"
proof (induction s arbitrary: acc)
  case (Cons c s)
  have mono: "a \<le> foldl (\<lambda>a c. a * 10 + (byte c - 48)) a s" for a
  proof (induction s arbitrary: a)
    case (Cons d s)
    show ?case using Cons[of "a * 10 + (byte d - 48)"] by simp
  qed simp
  show ?case using Cons mono[of "acc * 10 + (byte c - 48)"] by auto
qed auto

lemma plus_not_digit [simp]: "\<not> is_digit (CHR ''+'')"
  by (simp add: is_digit_def)

lemma colon_not_digit [simp]: "\<not> is_digit (CHR '':'')"
  by (simp add: is_digit_def)

text \<open>\<open>port_ok p\<close>: an optional plus sign, then digits of a value below 65536.\<close>

definition digits_ok :: "string \<Rightarrow> bool" where
  "digits_ok ds \<longleftrightarrow> ds \<noteq> [] \<and> list_all is_digit ds \<and> dec_value ds < 65536"

definition port_ok :: "string \<Rightarrow> bool" where
  "port_ok p \<longleftrightarrow> digits_ok p \<or> (\<exists>ds. p = CHR ''+'' # ds \<and> digits_ok ds)"

lemma parse_digits_neq_None:
  assumes "acc \<le> bound"
  shows "parse_digits bound acc s \<noteq> None \<longleftrightarrow>
    list_all is_digit s \<and> foldl (\<lambda>a c. a * 10 + (byte c - 48)) acc s \<le> bound"
  using assms by (auto simp: parse_digits_eq_Some)

lemma parse_digits_u16: "(if t = [] then None else parse_digits 65535 0 t) \<noteq> None \<longleftrightarrow> digits_ok t"
proof (cases "t = []")
  case False
  have "parse_digits 65535 0 t \<noteq> None \<longleftrightarrow> list_all is_digit t \<and> dec_value t \<le> 65535"
    unfolding dec_value_def by (rule parse_digits_neq_None) simp
  also have "\<dots> \<longleftrightarrow> digits_ok t" using False unfolding digits_ok_def by linarith
  finally show ?thesis using False by simp
qed (simp add: digits_ok_def)

lemma parse_u16_iff: "parse_u16 p \<noteq> None \<longleftrightarrow> port_ok p"
proof (cases p)
  case Nil
  then show ?thesis by (simp add: parse_u16_def parse_uint_def port_ok_def digits_ok_def)
next
  case (Cons c r)
  show ?thesis
  proof (cases "c = CHR ''+''")
    case True
    then have "\<not> digits_ok p" by (simp add: Cons digits_ok_def)
    then show ?thesis using parse_digits_u16[of r] Cons True
      by (simp add: parse_u16_def parse_uint_def port_ok_def)
  next
    case False
    then show ?thesis using parse_digits_u16[of p] Cons
      by (simp add: parse_u16_def parse_uint_def port_ok_def)
  qed
qed

definition host_ok :: "string \<Rightarrow> bool" where
  "host_ok h \<longleftrightarrow> list_all host_byte h \<or>
     (\<exists>a. h = CHR ''['' # a @ '']'' \<and> CHR '']'' \<notin> set a \<and> parse_ipv6 a)"

definition server_name_ok :: "string \<Rightarrow> bool" where
  "server_name_ok s \<longleftrightarrow> s \<noteq> [] \<and>
     (\<exists>h p. s = h @ p \<and> host_ok h \<and> (p = [] \<or> (\<exists>q. p = CHR '':'' # q \<and> port_ok q)))"

lemma host_byte_not [simp]:
  "\<not> host_byte (CHR '':'')" "\<not> host_byte (CHR ''['')" "\<not> host_byte (CHR '']'')"
  by (simp_all add: host_byte_def is_ascii_alnum_def is_digit_def is_lower_def is_upper_def)

lemma end_of_host_bracket:
  "end_of_host (CHR ''['' # t) =
     (case str_find (CHR '']'') t of None \<Rightarrow> Err InvalidServerName
      | Some i \<Rightarrow> if parse_ipv6 (take i t) then Ok (i + 2) else Err InvalidServerName)"
  by (auto simp: end_of_host_def split: option.splits)

lemma end_of_host_plain:
  assumes "\<not> prefix ''['' s"
  shows "end_of_host s = (let e = (case str_find (CHR '':'') s of Some i \<Rightarrow> i | None \<Rightarrow> length s)
     in if list_all host_byte (take e s) then Ok e else Err InvalidServerName)"
  using assms by (auto simp: end_of_host_def starts_with_iff list_ex_iff list_all_iff Let_def)

lemma end_of_host_Ok:
  assumes "end_of_host s = Ok e"
  shows "e \<le> length s \<and> host_ok (take e s)"
proof (cases "prefix ''['' s")
  case True
  then obtain t where s: "s = CHR ''['' # t" by (auto simp: prefix_def)
  with assms obtain i where i: "str_find (CHR '']'') t = Some i" "parse_ipv6 (take i t)" "e = i + 2"
    by (auto simp: end_of_host_bracket split: option.splits if_splits)
  from i(1) obtain a b where t: "t = a @ CHR '']'' # b" "CHR '']'' \<notin> set a" "i = length a"
    by (rule str_find_splitE)
  show ?thesis using i t by (auto simp: s host_ok_def)
next
  case False
  then show ?thesis using assms
    by (auto simp: end_of_host_plain Let_def host_ok_def dest: str_find_less
        split: option.splits if_splits)
qed

lemma end_of_host_host:
  assumes "host_ok h" "p = [] \<or> (\<exists>q. p = CHR '':'' # q)"
  shows "end_of_host (h @ p) = Ok (length h)"
proof (cases "list_all host_byte h")
  case True
  then have "CHR '':'' \<notin> set h" "\<not> prefix ''['' h"
    by (auto simp: list_all_iff prefix_def)
  moreover from this have "str_find (CHR '':'') h = None" by (simp add: str_find_None)
  ultimately show ?thesis using True assms(2)
    by (cases h) (auto simp: end_of_host_plain str_find_append)
next
  case False
  with assms(1) obtain a where "h = CHR ''['' # a @ '']''" "CHR '']'' \<notin> set a" "parse_ipv6 a"
    by (auto simp: host_ok_def)
  then show ?thesis by (simp add: end_of_host_bracket str_find_append)
qed

lemma server_name_validate_neq_Panic [simp]: "server_name_validate s \<noteq> Panic"
  by (auto simp: server_name_validate_def end_of_host_def Let_def res_simps split: option.splits)

lemma server_name_validate_cases:
  "server_name_validate s = Ok () \<or> server_name_validate s = Err InvalidServerName"
  by (auto simp: server_name_validate_def end_of_host_def Let_def split: option.splits)

lemma server_name_validate_ok: "server_name_validate s = Ok () \<longleftrightarrow> server_name_ok s"
proof
  assume *: "server_name_validate s = Ok ()"
  then obtain e where e: "end_of_host s = Ok e" "s \<noteq> []"
    and p: "length s = e \<or> (s ! e = CHR '':'' \<and> parse_u16 (drop (e + 1) s) \<noteq> None)"
    by (auto simp: server_name_validate_def res_simps split: if_splits)
  note h = end_of_host_Ok[OF e(1)]
  show "server_name_ok s"
  proof (cases "length s = e")
    case True
    then show ?thesis using h e(2) by (auto simp: server_name_ok_def)
  next
    case False
    then have "drop e s = CHR '':'' # drop (e + 1) s" "port_ok (drop (e + 1) s)"
      using h p Cons_nth_drop_Suc[of e s] parse_u16_iff by auto
    then show ?thesis unfolding server_name_ok_def
      using h e(2) by (metis append_take_drop_id)
  qed
next
  assume "server_name_ok s"
  then obtain h p where s: "s \<noteq> []" "s = h @ p" "host_ok h"
    and p: "p = [] \<or> (\<exists>q. p = CHR '':'' # q \<and> port_ok q)" by (auto simp: server_name_ok_def)
  then have e: "end_of_host s = Ok (length h)" by (auto intro: end_of_host_host)
  then show "server_name_validate s = Ok ()"
    using s p parse_u16_iff by (auto simp: server_name_validate_def nth_append)
qed

section \<open>Identifiers with a sigil\<close>

lemma validate_id_ok [simp]:
  "validate_id s sigils = Ok () \<longleftrightarrow> length s \<le> 255 \<and> (\<exists>c t. s = c # t \<and> c \<in> set sigils)"
  by (auto simp: validate_id_def MAX_BYTES_def split: list.splits)

lemma validate_id_neq_Panic [simp]: "validate_id s sigils \<noteq> Panic"
  by (simp add: validate_id_def)

lemma parse_id_ok:
  "parse_id s sigils = Ok i \<longleftrightarrow>
     length s \<le> 255 \<and> (\<exists>c t. s = c # t \<and> c \<in> set sigils) \<and>
     (\<exists>a b. s = a @ CHR '':'' # b \<and> CHR '':'' \<notin> set a \<and> i = length a \<and> server_name_ok b)"
  by (auto simp: parse_id_def res_simps server_name_validate_ok simp flip: str_find_drop_iff)

lemma parse_id_neq_Panic [simp]: "parse_id s sigils \<noteq> Panic"
  by (auto simp: parse_id_def res_simps)

lemma validate_delimited_id_ok:
  "validate_delimited_id s sigils = Ok () \<longleftrightarrow> (\<exists>i. parse_id s sigils = Ok i)"
  by (auto simp: validate_delimited_id_def res_simps)

text \<open>The historical grammar of user localparts.\<close>

definition historical_byte :: "char \<Rightarrow> bool" where
  "historical_byte b \<longleftrightarrow> 33 \<le> byte b \<and> byte b \<le> 126 \<and> b \<noteq> CHR '':''"

lemma conforming_historical: "conforming_byte b \<Longrightarrow> historical_byte b"
  by (auto simp: conforming_byte_def historical_byte_def is_digit_def is_lower_def)

lemma localpart_conforming:
  "localpart_is_fully_conforming lp =
     (if list_all historical_byte lp then Ok (list_all conforming_byte lp) else Err InvalidCharacters)"
  using conforming_historical
  by (auto simp: localpart_is_fully_conforming_def Let_def list_all_iff list_ex_iff
      historical_byte_def not_le not_less)

section \<open>Decoding\<close>

text \<open>\<open>utf8 s\<close>: the bytes are those of a Rust \<^verbatim>\<open>str\<close>, a lead byte followed by as many
  continuation bytes as it announces.\<close>

definition cont_byte :: "char \<Rightarrow> bool" where
  "cont_byte b \<longleftrightarrow> byte b div 64 = 2"

fun utf8 :: "string \<Rightarrow> bool" where
  "utf8 [] = True"
| "utf8 (a # s) =
    (if byte a < 128 then utf8 s
     else if byte a < 192 then False
     else if byte a < 224 then (case s of b # s' \<Rightarrow> cont_byte b \<and> utf8 s' | [] \<Rightarrow> False)
     else if byte a < 240 then
       (case s of b # c # s' \<Rightarrow> cont_byte b \<and> cont_byte c \<and> utf8 s' | _ \<Rightarrow> False)
     else (case s of b # c # d # s' \<Rightarrow> cont_byte b \<and> cont_byte c \<and> cont_byte d \<and> utf8 s'
           | _ \<Rightarrow> False))"

lemma is_ascii_utf8: "is_ascii s \<Longrightarrow> utf8 s"
  by (induction s) (auto simp: is_ascii_def)

lemma cont_byte_ge: "cont_byte b \<Longrightarrow> \<not> byte b < 128"
  by (auto simp: cont_byte_def)

text \<open>Induction over the characters of a \<^verbatim>\<open>str\<close>, one case for each length of encoding.\<close>

lemma utf8_chars_induct [consumes 1, case_names Nil One Two Three Four]:
  assumes "utf8 s" and "P []"
    and "\<And>a s. byte a < 128 \<Longrightarrow> utf8 s \<Longrightarrow> P s \<Longrightarrow> P (a # s)"
    and "\<And>a b s. 192 \<le> byte a \<Longrightarrow> byte a < 224 \<Longrightarrow> cont_byte b \<Longrightarrow> utf8 s \<Longrightarrow> P s \<Longrightarrow> P (a # b # s)"
    and "\<And>a b c s. 224 \<le> byte a \<Longrightarrow> byte a < 240 \<Longrightarrow> cont_byte b \<Longrightarrow> cont_byte c \<Longrightarrow> utf8 s \<Longrightarrow> P s
      \<Longrightarrow> P (a # b # c # s)"
    and "\<And>a b c d s. 240 \<le> byte a \<Longrightarrow> cont_byte b \<Longrightarrow> cont_byte c \<Longrightarrow> cont_byte d \<Longrightarrow> utf8 s \<Longrightarrow> P s
      \<Longrightarrow> P (a # b # c # d # s)"
  shows "P s"
  using assms(1)
proof (induction s rule: measure_induct_rule[of length])
  case (less s)
  show ?case
  proof (cases s)
    case (Cons a t)
    consider "byte a < 128" | "192 \<le> byte a" "byte a < 224" | "224 \<le> byte a" "byte a < 240"
      | "240 \<le> byte a"
      using less.prems Cons by (fastforce split: if_splits)
    then show ?thesis
    proof cases
      case 1
      then show ?thesis using less Cons by (auto intro: assms(3))
    next
      case 2
      then obtain b t' where "t = b # t'" "cont_byte b" "utf8 t'"
        using less.prems Cons by (auto split: list.splits)
      then show ?thesis using less.IH[of t'] Cons 2 by (auto intro: assms(4))
    next
      case 3
      then obtain b c t' where "t = b # c # t'" "cont_byte b" "cont_byte c" "utf8 t'"
        using less.prems Cons by (auto split: list.splits)
      then show ?thesis using less.IH[of t'] Cons 3 by (auto intro: assms(5))
    next
      case 4
      then obtain b c d t' where "t = b # c # d # t'" "cont_byte b" "cont_byte c" "cont_byte d" "utf8 t'"
        using less.prems Cons by (auto split: list.splits)
      then show ?thesis using less.IH[of t'] Cons 4 by (auto intro: assms(6))
    qed
  qed (simp add: assms(2))
qed

lemma chars_ascii_mem: "utf8 s \<Longrightarrow> x \<in> set s \<Longrightarrow> byte x < 128 \<Longrightarrow> byte x \<in> set (chars s)"
  by (induction s rule: utf8_chars_induct) (force dest: cont_byte_ge)+

lemma is_char_boundary_Suc: "is_char_boundary (x # t) (Suc k) \<longleftrightarrow> is_char_boundary t k"
  by (auto simp: is_char_boundary_def)

lemma is_char_boundary_cont: "cont_byte b \<Longrightarrow> \<not> is_char_boundary (b # t) 0"
  by (auto simp: is_char_boundary_def cont_byte_def)

lemma utf8_boundary_zero: "utf8 s \<Longrightarrow> is_char_boundary s 0"
  by (cases s) (auto simp: is_char_boundary_def split: if_splits)

lemma utf8_drop: "utf8 s \<Longrightarrow> is_char_boundary s i \<Longrightarrow> utf8 (drop i s)"
proof (induction s arbitrary: i rule: utf8_chars_induct)
  case (One a s)
  then show ?case by (cases i) (auto simp: is_char_boundary_Suc)
next
  case (Two a b s)
  then show ?case
    by (cases i; cases "i - 1") (auto simp: is_char_boundary_Suc is_char_boundary_cont)
next
  case (Three a b c s)
  then show ?case
    by (cases i; cases "i - 1"; cases "i - 2")
       (auto simp: is_char_boundary_Suc is_char_boundary_cont)
next
  case (Four a b c d s)
  then show ?case
    by (cases i; cases "i - 1"; cases "i - 2"; cases "i - 3")
       (auto simp: is_char_boundary_Suc is_char_boundary_cont)
qed simp

lemma colon_chars [simp]: "\<not> is_alphanumeric uni 58"
  by (simp add: is_alphanumeric_def)

lemma validate_version_ok:
  "validate_version uni v = Ok () \<longleftrightarrow>
     v \<noteq> [] \<and> list_all (\<lambda>c. is_alphanumeric uni c \<or> c = 95) (chars v)"
  by (simp add: validate_version_def)

lemma validate_version_no_colon:
  assumes "utf8 v" "validate_version uni v = Ok ()"
  shows "CHR '':'' \<notin> set v"
proof
  assume "CHR '':'' \<in> set v"
  then have "58 \<in> set (chars v)" using chars_ascii_mem[OF assms(1), of "CHR '':''"] by simp
  then show False using assms(2) by (auto simp: validate_version_ok list_all_iff)
qed

lemma slice_from_Ok [res_simps]: "slice_from s i = Ok t \<longleftrightarrow> is_char_boundary s i \<and> t = drop i s"
  by (auto simp: slice_from_def)

lemma nonzero_u8_Some: "nonzero_u8 n = Some w \<longleftrightarrow> n mod 256 \<noteq> 0 \<and> w = of_nat n"
proof -
  have "(of_nat n :: 8 word) = 0 \<longleftrightarrow> n mod 256 = 0"
    by (simp add: word_of_nat_eq_0_iff dvd_eq_mod_eq_0)
  then show ?thesis by (auto simp: nonzero_u8_def Let_def)
qed

lemma nonzero_u8_None: "nonzero_u8 n = None \<longleftrightarrow> n mod 256 = 0"
  using nonzero_u8_Some[of n "of_nat n"] by (cases "nonzero_u8 n") (auto simp: nonzero_u8_Some)

lemma unat_u8: "unat (of_nat n :: 8 word) = n mod 256"
  by (simp add: unat_of_nat)

lemma utf8_boundary_after:
  assumes "utf8 (a @ CHR '':'' # v)"
  shows "is_char_boundary (a @ CHR '':'' # v) (Suc (length a)) \<and> utf8 v"
proof -
  have "is_char_boundary (a @ CHR '':'' # v) (length a)"
    by (simp add: is_char_boundary_def)
  from utf8_drop[OF assms this] have "utf8 (CHR '':'' # v)" by simp
  then have "utf8 v" by simp
  moreover from utf8_boundary_zero[OF this]
  have "is_char_boundary (a @ CHR '':'' # v) (Suc (length a))"
    by (auto simp: is_char_boundary_def nth_append)
  ultimately show ?thesis by simp
qed

lemma user_id_validate_ok:
  "user_id_validate s = Ok () \<longleftrightarrow>
     length s \<le> 255 \<and>
     (\<exists>lp sv. s = CHR ''@'' # lp @ CHR '':'' # sv \<and> list_all historical_byte lp \<and> server_name_ok sv)"
  (is "?l \<longleftrightarrow> ?r")
proof
  assume ?l
  then obtain i where i: "parse_id s ''@'' = Ok i"
    and lp: "list_all historical_byte (take (i - 1) (drop 1 s))"
    by (auto simp: user_id_validate_def res_simps localpart_conforming split: if_splits)
  from i obtain t a b where s: "s = CHR ''@'' # t" "s = a @ CHR '':'' # b" "i = length a"
    "server_name_ok b" "length s \<le> 255" unfolding parse_id_ok by force
  then obtain lp where "a = CHR ''@'' # lp" "t = lp @ CHR '':'' # b"
    by (cases a) auto
  then show ?r using s lp by auto
next
  assume ?r
  then obtain lp sv where s: "s = CHR ''@'' # lp @ CHR '':'' # sv" "list_all historical_byte lp"
    "server_name_ok sv" "length s \<le> 255" by auto
  then have "CHR '':'' \<notin> set (CHR ''@'' # lp)"
    by (auto simp: historical_byte_def list_all_iff)
  then have "parse_id s ''@'' = Ok (length (CHR ''@'' # lp))"
    using s unfolding parse_id_ok by (metis append_Cons list.set_intros(1))
  then show ?l using s by (simp add: user_id_validate_def localpart_conforming)
qed

lemma user_id_validate_neq_Panic [simp]: "user_id_validate s \<noteq> Panic"
  by (auto simp: user_id_validate_def and_then_eq_Panic localpart_conforming split: if_splits)

lemma server_name_validate_if [simp]: "server_name_ok s \<Longrightarrow> server_name_validate s = Ok ()"
  by (simp add: server_name_validate_ok)

lemma server_name_ok_plain: "sv \<noteq> [] \<Longrightarrow> list_all host_byte sv \<Longrightarrow> server_name_ok sv"
  by (auto simp: server_name_ok_def host_ok_def)

section \<open>Properties\<close>

text \<open>C24. A server name is accepted exactly when it is a non-empty host, or a host followed by a
  colon and a port below 65536; the host is a bracketed IPv6 address or a (possibly empty) string of
  ASCII letters, digits, dashes and dots.  No input makes the function panic.\<close>

theorem server_name_validate_language:
  "server_name_validate s = (if server_name_ok s then Ok () else Err InvalidServerName)"
  using server_name_validate_cases[of s] server_name_validate_ok[of s] by auto

text \<open>A user id is accepted exactly when it is at most 255 bytes long and of the form
  \<^verbatim>\<open>@localpart:server_name\<close> with a localpart of printable ASCII characters other than the colon
  and a valid server name.\<close>

lemma user_id_validate_language:
  "user_id_validate s = Ok () \<longleftrightarrow>
     length s \<le> 255 \<and>
     (\<exists>lp sv. s = CHR ''@'' # lp @ CHR '':'' # sv \<and> list_all historical_byte lp \<and> server_name_ok sv)"
  by (rule user_id_validate_ok)

text \<open>A key id (UTF-8, as every string) is accepted exactly when its first colon lies at an index
  from 1 to 255 and what follows it is a non-empty string of alphanumeric characters and
  underscores; the result is that index.  An algorithm of more than 255 bytes is never accepted,
  because the index is cut down to eight bits.\<close>

lemma key_id_validate_language:
  assumes "utf8 s"
  shows "key_id_validate uni s = Ok w \<longleftrightarrow>
    (\<exists>a v. s = a @ CHR '':'' # v \<and> CHR '':'' \<notin> set a \<and> 0 < length a \<and> length a < 256 \<and>
       w = of_nat (length a) \<and> v \<noteq> [] \<and>
       list_all (\<lambda>c. is_alphanumeric uni c \<or> c = 95) (chars v))"
  (is "?l \<longleftrightarrow> ?r")
proof
  assume ?l
  then obtain i where i: "str_find (CHR '':'') s = Some i" "i mod 256 \<noteq> 0" "w = of_nat i"
    and b: "is_char_boundary s (Suc (i mod 256))"
    and v: "validate_version uni (drop (Suc (i mod 256)) s) = Ok ()"
    by (auto simp: key_id_validate_def res_simps nonzero_u8_Some unat_u8)
  from i(1) obtain a v where s: "s = a @ CHR '':'' # v" "CHR '':'' \<notin> set a" "i = length a"
    by (rule str_find_splitE)
  have "i < 256"
  proof (rule ccontr)
    assume "\<not> i < 256"
    then have "i mod 256 < i" by (simp add: mod_less_divisor less_le_trans[of _ 256])
    then have "CHR '':'' \<in> set (drop (Suc (i mod 256)) s)" by (simp add: s)
    moreover have "utf8 (drop (Suc (i mod 256)) s)" using assms b by (rule utf8_drop)
    ultimately show False using validate_version_no_colon v by blast
  qed
  then show ?r using s i v by (auto simp: validate_version_ok)
next
  assume ?r
  then obtain a v where s: "s = a @ CHR '':'' # v" "CHR '':'' \<notin> set a" "0 < length a"
    "length a < 256" "w = of_nat (length a)"
    and v: "validate_version uni v = Ok ()" by (auto simp: validate_version_ok)
  have "is_char_boundary s (Suc (length a))" using utf8_boundary_after assms s(1) by auto
  moreover have "nonzero_u8 (length a) = Some w" using s by (simp add: nonzero_u8_Some)
  moreover have "unat w = length a" using s by (simp add: unat_u8)
  moreover have "str_find (CHR '':'') s = Some (length a)" using s by (simp add: str_find_append)
  ultimately show ?l using s(1) v by (simp add: key_id_validate_def res_simps)
qed

lemma key_id_validate_language_witness:
  "key_id_validate (\<lambda>_. False) ''ed25519:1_A'' = Ok (of_nat 7)"
proof (rule key_id_validate_language[THEN iffD2])
  show "utf8 ''ed25519:1_A''" by (rule is_ascii_utf8) (simp add: is_ascii_def)
  have "chars ''1_A'' = [49, 95, 65]" by (simp add: chars_ascii is_ascii_def)
  then have "list_all (\<lambda>c. is_alphanumeric (\<lambda>_. False) c \<or> c = 95) (chars ''1_A'')"
    by (simp add: is_alphanumeric_def del: chars.simps)
  moreover have "''ed25519:1_A'' = ''ed25519'' @ CHR '':'' # ''1_A''" by simp
  ultimately show "\<exists>a v. ''ed25519:1_A'' = a @ CHR '':'' # v \<and> CHR '':'' \<notin> set a \<and> 0 < length a \<and>
      length a < 256 \<and> word_of_nat 7 = (word_of_nat (length a) :: 8 word) \<and> v \<noteq> [] \<and>
      list_all (\<lambda>c. is_alphanumeric (\<lambda>_. False) c \<or> c = 95) (chars v)"
    by (intro exI[of _ "''ed25519''"] exI[of _ "''1_A''"] conjI) (simp_all del: chars.simps)
qed

text \<open>Validating a content URI: accepted exactly for \<^verbatim>\<open>mxc://server_name/media_id\<close> with a
  media id of ASCII letters, digits and dashes, when the index of the separating slash is not a
  multiple of 256; when it is one (a server name of 250 bytes), \<open>NonZeroU8::new(..).unwrap()\<close>
  panics on an otherwise valid URI.\<close>

lemma mxc_uri_validate_spec:
  assumes "uri = ''mxc://'' @ sv @ CHR ''/'' # media" "CHR ''/'' \<notin> set sv"
    "server_name_ok sv" "list_all media_byte media"
  shows "mxc_uri_validate uri =
    (if (length sv + 6) mod 256 = 0 then Panic else Ok (of_nat (length sv + 6)))"
proof -
  have "server_name_validate sv = Ok ()" using assms(3) by (simp add: server_name_validate_ok)
  then have *: "mxc_uri_validate uri =
      (case nonzero_u8 (length sv + 6) of None \<Rightarrow> Panic | Some w \<Rightarrow> Ok w)"
    using assms by (simp add: mxc_uri_validate_def str_find_append)
  show ?thesis
  proof (cases "(length sv + 6) mod 256 = 0")
    case True
    then have "nonzero_u8 (length sv + 6) = None" by (simp only: nonzero_u8_None)
    then show ?thesis using True by (simp only: * option.case simp_thms if_True)
  next
    case False
    then have "nonzero_u8 (length sv + 6) = Some (of_nat (length sv + 6))"
      using nonzero_u8_Some by blast
    then show ?thesis using False by (simp only: * option.case simp_thms if_False)
  qed
qed

lemma mxc_uri_validate_spec_witness:
  "mxc_uri_validate (''mxc://'' @ replicate 250 (CHR ''a'') @ ''/x'') = Panic"
  by (subst mxc_uri_validate_spec[where sv = "replicate 250 (CHR ''a'')" and media = "''x''"])
     (auto simp: media_byte_def is_ascii_alnum_def is_lower_def host_byte_def list_all_iff
       intro!: server_name_ok_plain)

end
