(* ===== verification/Identifiers.thy ===== *)
theory Identifiers
  imports Id_Validation
begin

text \<open>The crate \<^verbatim>\<open>ruma-identifiers\<close>: identifier types are transparent wrappers of a \<^verbatim>\<open>str\<close>
  (here, the string itself), constructed through \<open>parse\<close> / \<open>try_from\<close>, with accessors that slice the
  string and would panic on a string that was never validated.  The locale \<open>delimited_id\<close> is the
  contract between a validation function and these accessors.\<close>

section \<open>Slices and construction\<close>

text \<open>\<open>&s[i..j]\<close>, and \<open>parse\<close> / \<open>try_from\<close> of \<^verbatim>\<open>opaque_identifier_validated!\<close>.\<close>

definition slice :: "string \<Rightarrow> nat \<Rightarrow> nat \<Rightarrow> (string, 'e) result" where
  "slice s i j =
     (if i \<le> j \<and> is_char_boundary s i \<and> is_char_boundary s j then Ok (take (j - i) (drop i s))
      else Panic)"

fun unwrap :: "'a option \<Rightarrow> ('a, 'e) result" where
  "unwrap (Some x) = Ok x"
| "unwrap None = Panic"

definition parse_validated :: "(string \<Rightarrow> (unit, id_error) result) \<Rightarrow> string \<Rightarrow> (string, id_error) result"
  where "parse_validated validate s = and_then (validate s) (\<lambda>_. Ok s)"

definition colon_idx :: "string \<Rightarrow> (nat, 'e) result" where
  "colon_idx s = unwrap (str_find (CHR '':'') s)"

definition id_localpart :: "string \<Rightarrow> (string, id_error) result" where
  "id_localpart s = and_then (colon_idx s) (\<lambda>i. slice s 1 i)"

definition id_server_name :: "string \<Rightarrow> (string, id_error) result" where
  "id_server_name s = and_then (colon_idx s) (\<lambda>i. slice_from s (i + 1))"

section \<open>User ids\<close>

definition user_id_localpart :: "string \<Rightarrow> (string, id_error) result" where
  "user_id_localpart s = and_then (colon_idx s) (\<lambda>i. slice s 1 i)"

definition user_id_server_name :: "string \<Rightarrow> (string, id_error) result" where
  "user_id_server_name s = and_then (colon_idx s) (\<lambda>i. slice_from s (i + 1))"

definition parse_with_server_name :: "string \<Rightarrow> string \<Rightarrow> (string, id_error) result" where
  "parse_with_server_name id_str server_name =
     (if starts_with ''@'' id_str then parse_validated user_id_validate id_str
      else Ok (''@'' @ id_str @ '':'' @ server_name))"

text \<open>The \<open>unwrap\<close> of \<open>is_historical\<close> turns the error into a panic.\<close>

definition is_historical :: "string \<Rightarrow> (bool, id_error) result" where
  "is_historical s =
     and_then (user_id_localpart s) (\<lambda>lp.
       case localpart_is_fully_conforming lp of
         Ok b \<Rightarrow> Ok (\<not> b) | Err e \<Rightarrow> Panic | Panic \<Rightarrow> Panic)"

section \<open>Room ids, aliases and event ids\<close>

definition room_id_localpart :: "string \<Rightarrow> (string, id_error) result" where
  "room_id_localpart s = and_then (colon_idx s) (\<lambda>i. slice s 1 i)"

definition room_id_server_name :: "string \<Rightarrow> (string, id_error) result" where
  "room_id_server_name s = and_then (colon_idx s) (\<lambda>i. slice_from s (i + 1))"

definition room_alias_id_alias :: "string \<Rightarrow> (string, id_error) result" where
  "room_alias_id_alias s = and_then (colon_idx s) (\<lambda>i. slice s 1 i)"

definition room_alias_id_server_name :: "string \<Rightarrow> (string, id_error) result" where
  "room_alias_id_server_name s = and_then (colon_idx s) (\<lambda>i. slice_from s (i + 1))"

definition event_id_localpart :: "string \<Rightarrow> (string, id_error) result" where
  "event_id_localpart s =
     (let idx = (case str_find (CHR '':'') s of Some i \<Rightarrow> i | None \<Rightarrow> length s) in slice s 1 idx)"

definition event_id_server_name :: "string \<Rightarrow> (string option, id_error) result" where
  "event_id_server_name s =
     (case str_find (CHR '':'') s of
        None \<Rightarrow> Ok None
      | Some idx \<Rightarrow> and_then (slice_from s (idx + 1)) (\<lambda>t. Ok (Some t)))"

datatype id_variant = VRoomId | VRoomAliasId

text \<open>Any other first byte is \<open>unreachable_unchecked\<close>, undefined behaviour: \<open>Panic\<close> here.\<close>

definition variant :: "string \<Rightarrow> (id_variant, 'e) result" where
  "variant s = (case s of
      c # _ \<Rightarrow> if c = CHR ''!'' then Ok VRoomId
               else if c = CHR ''#'' then Ok VRoomAliasId else Panic
    | [] \<Rightarrow> Panic)"

definition room_or_alias_localpart :: "string \<Rightarrow> (string, id_error) result" where
  "room_or_alias_localpart s = and_then (colon_idx s) (\<lambda>i. slice s 1 i)"

definition room_or_alias_server_name :: "string \<Rightarrow> (string, id_error) result" where
  "room_or_alias_server_name s = and_then (colon_idx s) (\<lambda>i. slice_from s (i + 1))"

definition is_room_id :: "string \<Rightarrow> (bool, id_error) result" where
  "is_room_id s = and_then (variant s) (\<lambda>v. Ok (v = VRoomId))"

definition is_room_alias_id :: "string \<Rightarrow> (bool, id_error) result" where
  "is_room_alias_id s = and_then (variant s) (\<lambda>v. Ok (v = VRoomAliasId))"

text \<open>The two \<open>TryFrom<RoomOrAliasId>\<close>: the error carries the identifier of the other kind.\<close>

definition try_into_room_id :: "string \<Rightarrow> (string, string) result" where
  "try_into_room_id s =
     and_then (variant s) (\<lambda>v. case v of VRoomId \<Rightarrow> Ok s | VRoomAliasId \<Rightarrow> Err s)"

definition try_into_room_alias_id :: "string \<Rightarrow> (string, string) result" where
  "try_into_room_alias_id s =
     and_then (variant s) (\<lambda>v. case v of VRoomAliasId \<Rightarrow> Ok s | VRoomId \<Rightarrow> Err s)"

section \<open>Key algorithms and key ids\<close>

datatype device_key_algorithm = DKEd25519 | DKCurve25519 | DKSignedCurve25519 | DKCustom string

fun device_key_algorithm_as_ref :: "device_key_algorithm \<Rightarrow> string" where
  "device_key_algorithm_as_ref DKEd25519 = ''ed25519''"
| "device_key_algorithm_as_ref DKCurve25519 = ''curve25519''"
| "device_key_algorithm_as_ref DKSignedCurve25519 = ''signed_curve25519''"
| "device_key_algorithm_as_ref (DKCustom s) = s"

definition device_key_algorithm_from :: "string \<Rightarrow> device_key_algorithm" where
  "device_key_algorithm_from s =
     (if s = ''ed25519'' then DKEd25519
      else if s = ''curve25519'' then DKCurve25519
      else if s = ''signed_curve25519'' then DKSignedCurve25519
      else DKCustom s)"

datatype signing_key_algorithm = SKEd25519 | SKCustom string

fun signing_key_algorithm_as_ref :: "signing_key_algorithm \<Rightarrow> string" where
  "signing_key_algorithm_as_ref SKEd25519 = ''ed25519''"
| "signing_key_algorithm_as_ref (SKCustom s) = s"

definition signing_key_algorithm_from :: "string \<Rightarrow> signing_key_algorithm" where
  "signing_key_algorithm_from s = (if s = ''ed25519'' then SKEd25519 else SKCustom s)"

datatype event_encryption_algorithm = OlmV1Curve25519AesSha2 | MegolmV1AesSha2 | EACustom string

fun event_encryption_algorithm_as_ref :: "event_encryption_algorithm \<Rightarrow> string" where
  "event_encryption_algorithm_as_ref OlmV1Curve25519AesSha2 = ''m.olm.v1.curve25519-aes-sha2''"
| "event_encryption_algorithm_as_ref MegolmV1AesSha2 = ''m.megolm.v1.aes-sha2''"
| "event_encryption_algorithm_as_ref (EACustom s) = s"

definition event_encryption_algorithm_from :: "string \<Rightarrow> event_encryption_algorithm" where
  "event_encryption_algorithm_from s =
     (if s = ''m.olm.v1.curve25519-aes-sha2'' then OlmV1Curve25519AesSha2
      else if s = ''m.megolm.v1.aes-sha2'' then MegolmV1AesSha2
      else EACustom s)"

definition key_id_from_parts :: "signing_key_algorithm \<Rightarrow> string \<Rightarrow> string" where
  "key_id_from_parts algorithm key_name = signing_key_algorithm_as_ref algorithm @ '':'' @ key_name"

definition key_id_algorithm :: "string \<Rightarrow> (signing_key_algorithm, id_error) result" where
  "key_id_algorithm s =
     and_then (colon_idx s) (\<lambda>i. and_then (slice s 0 i) (\<lambda>a. Ok (signing_key_algorithm_from a)))"

definition key_id_key_name :: "string \<Rightarrow> (string, id_error) result" where
  "key_id_key_name s = and_then (colon_idx s) (\<lambda>i. slice_from s (i + 1))"

definition device_key_id_from_parts :: "device_key_algorithm \<Rightarrow> string \<Rightarrow> string" where
  "device_key_id_from_parts algorithm device_id =
     device_key_algorithm_as_ref algorithm @ '':'' @ device_id"

definition device_key_id_algorithm :: "string \<Rightarrow> (device_key_algorithm, id_error) result" where
  "device_key_id_algorithm s =
     and_then (colon_idx s) (\<lambda>i. and_then (slice s 0 i) (\<lambda>a. Ok (device_key_algorithm_from a)))"

definition device_key_id_device_id :: "string \<Rightarrow> (string, id_error) result" where
  "device_key_id_device_id s = and_then (colon_idx s) (\<lambda>i. slice_from s (i + 1))"

section \<open>Content URIs\<close>

definition mxc_parts :: "string \<Rightarrow> (string \<times> string, mxc_uri_error) result" where
  "mxc_parts s =
     and_then (mxc_uri_validate s) (\<lambda>idx.
     and_then (slice s 6 (unat idx)) (\<lambda>server_name.
     and_then (slice_from s (unat idx + 1)) (\<lambda>media_id. Ok (server_name, media_id))))"

definition mxc_server_name :: "string \<Rightarrow> (string, mxc_uri_error) result" where
  "mxc_server_name s = and_then (mxc_parts s) (\<lambda>p. Ok (fst p))"

definition mxc_media_id :: "string \<Rightarrow> (string, mxc_uri_error) result" where
  "mxc_media_id s = and_then (mxc_parts s) (\<lambda>p. Ok (snd p))"

definition mxc_is_valid :: "string \<Rightarrow> (bool, mxc_uri_error) result" where
  "mxc_is_valid s = (case mxc_uri_validate s of Ok _ \<Rightarrow> Ok True | Err _ \<Rightarrow> Ok False | Panic \<Rightarrow> Panic)"

section \<open>Room versions\<close>

datatype room_version_id = V1 | V2 | V3 | V4 | V5 | V6 | Custom string

fun room_version_as_str :: "room_version_id \<Rightarrow> string" where
  "room_version_as_str V1 = ''1''"
| "room_version_as_str V2 = ''2''"
| "room_version_as_str V3 = ''3''"
| "room_version_as_str V4 = ''4''"
| "room_version_as_str V5 = ''5''"
| "room_version_as_str V6 = ''6''"
| "room_version_as_str (Custom v) = v"

definition room_version_try_from :: "string \<Rightarrow> (room_version_id, id_error) result" where
  "room_version_try_from s =
     (if s = ''1'' then Ok V1 else if s = ''2'' then Ok V2 else if s = ''3'' then Ok V3
      else if s = ''4'' then Ok V4 else if s = ''5'' then Ok V5 else if s = ''6'' then Ok V6
      else and_then (room_version_id_validate s) (\<lambda>_. Ok (Custom s)))"

datatype ordering = Less | Equal | Greater

definition cmp :: "'a::linorder \<Rightarrow> 'a \<Rightarrow> ordering" where
  "cmp a b = (if a < b then Less else if a = b then Equal else Greater)"

definition room_version_cmp :: "room_version_id \<Rightarrow> room_version_id \<Rightarrow> ordering" where
  "room_version_cmp a b = cmp (room_version_as_str a) (room_version_as_str b)"

section \<open>Matrix.to references\<close>

text \<open>\<open>percent_encode(.., TO_ENCODE)\<close> of the crate \<^verbatim>\<open>percent-encoding\<close> is the parameter \<open>pct\<close>.\<close>

record matrix_to_ref =
  mt_id :: string
  mt_event_id :: "string option"
  mt_via :: "string list"

definition matrix_to_new :: "string \<Rightarrow> string list \<Rightarrow> matrix_to_ref" where
  "matrix_to_new ident via = \<lparr> mt_id = ident, mt_event_id = None, mt_via = via \<rparr>"

definition matrix_to_event :: "string \<Rightarrow> string \<Rightarrow> string list \<Rightarrow> matrix_to_ref" where
  "matrix_to_event ident ev via = \<lparr> mt_id = ident, mt_event_id = Some ev, mt_via = via \<rparr>"

fun via_params :: "bool \<Rightarrow> string list \<Rightarrow> string" where
  "via_params first [] = []"
| "via_params first (s # ss) =
     (if first then ''?via='' else ''&via='') @ s @ via_params False ss"

definition matrix_to_display :: "(string \<Rightarrow> string) \<Rightarrow> matrix_to_ref \<Rightarrow> string" where
  "matrix_to_display pct r =
     ''https://matrix.to/#/'' @ pct (mt_id r) @
     (case mt_event_id r of Some ev \<Rightarrow> ''/'' @ pct ev | None \<Rightarrow> []) @
     via_params True (mt_via r)"

section \<open>Signature maps\<close>

type_synonym entity_signatures = "(string, string) btree"
type_synonym signatures = "(string, entity_signatures) btree"

text \<open>\<open>Signatures::insert\<close>: the new map and the value that was there.\<close>

definition signatures_insert ::
    "string \<Rightarrow> string \<Rightarrow> string \<Rightarrow> signatures \<Rightarrow> signatures \<times> string option" where
  "signatures_insert entity key_identifier v m =
     (let es = (case bt_get m entity of Some es \<Rightarrow> es | None \<Rightarrow> [])
      in (bt_insert entity (bt_insert key_identifier v es) m, bt_get es key_identifier))"

definition signatures_get :: "signatures \<Rightarrow> string \<Rightarrow> entity_signatures option" where
  "signatures_get m entity = bt_get m entity"

section \<open>The contract of delimited identifiers\<close>

text \<open>A validation function that only accepts a sigil, a localpart, a colon and a server name keeps
  the accessors from panicking, and they give back the two parts of the string.\<close>

locale delimited_id =
  fixes validate :: "string \<Rightarrow> (unit, id_error) result"
    and sigils :: "char list"
  assumes accepts: "validate s = Ok () \<Longrightarrow>
      \<exists>c lp sv. s = c # lp @ CHR '':'' # sv \<and> c \<in> set sigils \<and> CHR '':'' \<notin> set lp \<and>
        server_name_ok sv \<and> length s \<le> 255"
    and sigils_ascii: "c \<in> set sigils \<Longrightarrow> byte c < 128 \<and> c \<noteq> CHR '':''"
begin

lemma slice_parts:
  assumes "utf8 (c # lp @ CHR '':'' # sv)" "c \<in> set sigils"
  shows "slice (c # lp @ CHR '':'' # sv) 1 (Suc (length lp)) = Ok lp"
proof -
  have "utf8 (lp @ CHR '':'' # sv)" using assms sigils_ascii by auto
  from utf8_boundary_zero[OF this]
  have "is_char_boundary (c # lp @ CHR '':'' # sv) 1" by (simp add: is_char_boundary_Suc)
  moreover have "is_char_boundary (c # lp @ CHR '':'' # sv) (Suc (length lp))"
    by (simp add: is_char_boundary_def)
  ultimately show ?thesis by (simp add: slice_def)
qed

lemma accessors:
  assumes "validate s = Ok ()" "utf8 s"
  obtains c lp sv where "c \<in> set sigils" "s = c # lp @ CHR '':'' # sv" "CHR '':'' \<notin> set lp"
    "id_localpart s = Ok lp" "id_server_name s = Ok sv" "server_name_validate sv = Ok ()"
proof -
  obtain c lp sv where s: "s = c # lp @ CHR '':'' # sv" "c \<in> set sigils" "CHR '':'' \<notin> set lp"
    "server_name_ok sv" using accepts[OF assms(1)] by blast
  have "str_find (CHR '':'') s = Some (Suc (length lp))"
    using s(3) sigils_ascii[OF s(2)] by (simp add: s(1) str_find_append)
  moreover have "is_char_boundary s (Suc (Suc (length lp)))"
    using utf8_boundary_after[of "c # lp" sv] assms(2) s(1) by simp
  ultimately have "id_server_name s = Ok sv" "id_localpart s = Ok lp"
    using slice_parts[of c lp sv] assms(2) s
    by (simp_all add: id_server_name_def id_localpart_def colon_idx_def slice_from_def del: utf8.simps)
  then show ?thesis using s by (intro that[of c lp sv]) (simp_all add: server_name_validate_ok)
qed

lemma recompose:
  assumes "validate s = Ok ()" "utf8 s"
  shows "\<exists>c\<in>set sigils. \<exists>lp sv. id_localpart s = Ok lp \<and> id_server_name s = Ok sv \<and>
    s = [c] @ lp @ '':'' @ sv \<and> server_name_validate sv = Ok ()"
  using accessors[OF assms] by (metis append.left_neutral append_Cons)

end

lemma parse_id_parts:
  assumes "parse_id s sigils = Ok i" "CHR '':'' \<notin> set sigils"
  shows "\<exists>c lp sv. s = c # lp @ CHR '':'' # sv \<and> c \<in> set sigils \<and> CHR '':'' \<notin> set lp \<and>
    server_name_ok sv \<and> length s \<le> 255"
proof -
  from assms(1) obtain c t a b where s: "s = c # t" "c \<in> set sigils" "s = a @ CHR '':'' # b"
    "CHR '':'' \<notin> set a" "server_name_ok b" "length s \<le> 255"
    unfolding parse_id_ok by blast
  with assms(2) obtain lp where "a = c # lp" by (cases a) auto
  then show ?thesis using s by auto
qed

lemma validate_delimited_parts:
  assumes "validate_delimited_id s sigils = Ok ()" "CHR '':'' \<notin> set sigils"
  shows "\<exists>c lp sv. s = c # lp @ CHR '':'' # sv \<and> c \<in> set sigils \<and> CHR '':'' \<notin> set lp \<and>
    server_name_ok sv \<and> length s \<le> 255"
  using assms parse_id_parts by (auto simp: validate_delimited_id_ok)

interpretation user_id: delimited_id user_id_validate "''@''"
proof
  fix s :: string assume "user_id_validate s = Ok ()"
  then obtain i where "parse_id s ''@'' = Ok i" by (auto simp: user_id_validate_def res_simps)
  from parse_id_parts[OF this] show "\<exists>c lp sv. s = c # lp @ CHR '':'' # sv \<and> c \<in> set ''@'' \<and>
    CHR '':'' \<notin> set lp \<and> server_name_ok sv \<and> length s \<le> 255" by simp
qed auto

interpretation room_id: delimited_id room_id_validate "''!''"
  using validate_delimited_parts[of _ "''!''"] by unfold_locales (auto simp: room_id_validate_def)

interpretation room_alias_id: delimited_id room_alias_id_validate "''#''"
  using validate_delimited_parts[of _ "''#''"] by unfold_locales (auto simp: room_alias_id_validate_def)

interpretation room_or_alias_id: delimited_id room_id_or_alias_id_validate "''#!''"
  using validate_delimited_parts[of _ "''#!''"]
  by unfold_locales (auto simp: room_id_or_alias_id_validate_def)

lemmas id_accessor_defs = user_id_localpart_def user_id_server_name_def
  room_id_localpart_def room_id_server_name_def room_alias_id_alias_def
  room_alias_id_server_name_def room_or_alias_localpart_def room_or_alias_server_name_def

lemma user_id_localpart_eq: "user_id_localpart = id_localpart"
  by (simp add: fun_eq_iff id_localpart_def user_id_localpart_def)

lemma user_id_server_name_eq: "user_id_server_name = id_server_name"
  by (simp add: fun_eq_iff id_server_name_def user_id_server_name_def)

section \<open>Properties\<close>

text \<open>On a user id that passed validation no accessor panics: the localpart and the server
  name are the two parts of the string, the server name is valid again, and \<open>is_historical\<close> says
  whether the localpart leaves the current grammar.\<close>

lemma user_id_accessors:
  assumes "user_id_validate s = Ok ()" "utf8 s"
  shows "\<exists>lp sv. user_id_localpart s = Ok lp \<and> user_id_server_name s = Ok sv \<and>
    s = ''@'' @ lp @ '':'' @ sv \<and> server_name_validate sv = Ok () \<and>
    is_historical s = Ok (\<not> list_all conforming_byte lp)"
proof -
  obtain c lp sv where s: "c \<in> set ''@''" "s = c # lp @ CHR '':'' # sv" "CHR '':'' \<notin> set lp"
    and acc: "id_localpart s = Ok lp" "id_server_name s = Ok sv" "server_name_validate sv = Ok ()"
    by (rule user_id.accessors[OF assms])
  from s have s': "s = CHR ''@'' # lp @ CHR '':'' # sv" by simp
  from assms(1) obtain lp' sv' where *: "s = CHR ''@'' # lp' @ CHR '':'' # sv'"
    "list_all historical_byte lp'"
    unfolding user_id_validate_ok by blast
  then have "CHR '':'' \<notin> set lp'" by (auto simp: list_all_iff historical_byte_def)
  then have "lp' = lp" using split_unique[of lp' "CHR '':''" sv' lp sv] * s' s(3) by auto
  then have "localpart_is_fully_conforming lp = Ok (list_all conforming_byte lp)"
    using * by (simp add: localpart_conforming)
  then have "is_historical s = Ok (\<not> list_all conforming_byte lp)"
    unfolding is_historical_def user_id_localpart_eq
    by (simp add: acc)
  then show ?thesis
    using acc s' unfolding user_id_localpart_eq user_id_server_name_eq
    by auto
qed

lemma user_id_accessors_witness:
  "\<exists>lp sv. user_id_localpart ''@a:b'' = Ok lp \<and> ''@a:b'' = ''@'' @ lp @ '':'' @ sv"
proof -
  have "server_name_ok ''b''"
    by (rule server_name_ok_plain) (simp_all add: host_byte_def is_ascii_alnum_def is_lower_def)
  then have "user_id_validate ''@a:b'' = Ok ()"
    by (simp add: user_id_validate_def parse_id_def validate_id_def MAX_BYTES_def
        localpart_conforming historical_byte_def)
  moreover have "utf8 ''@a:b''" by (rule is_ascii_utf8) (simp add: is_ascii_def)
  ultimately show ?thesis using user_id_accessors[of "''@a:b''"] by blast
qed

text \<open>A validated room id or alias converts to exactly one of the two kinds, the conversion
  keeps the string, and the result passes the validation of its kind.\<close>

lemma room_or_alias_conversions:
  assumes "room_id_or_alias_id_validate s = Ok ()"
  shows "if starts_with ''!'' s
    then try_into_room_id s = Ok s \<and> try_into_room_alias_id s = Err s \<and> room_id_validate s = Ok ()
    else try_into_room_id s = Err s \<and> try_into_room_alias_id s = Ok s \<and>
      room_alias_id_validate s = Ok ()"
proof -
  obtain i where i: "parse_id s ''#!'' = Ok i"
    using assms by (auto simp: room_id_or_alias_id_validate_def validate_delimited_id_ok)
  then obtain c t where s: "s = c # t" "c = CHR ''#'' \<or> c = CHR ''!''"
    by (auto simp: parse_id_ok)
  have "parse_id s [c] = Ok i" using i s by (auto simp: parse_id_ok)
  then have "validate_delimited_id s [c] = Ok ()" by (auto simp: validate_delimited_id_ok)
  with s show ?thesis
    by (auto simp: try_into_room_id_def try_into_room_alias_id_def variant_def room_id_validate_def
        room_alias_id_validate_def)
qed

lemma room_or_alias_conversions_witness:
  "try_into_room_id ''!a:b'' = Ok ''!a:b'' \<and> try_into_room_alias_id ''#a:b'' = Ok ''#a:b''"
proof -
  have ok: "server_name_ok ''b''"
    by (rule server_name_ok_plain) (simp_all add: host_byte_def is_ascii_alnum_def is_lower_def)
  have "parse_id ''!a:b'' ''#!'' = Ok 2" "parse_id ''#a:b'' ''#!'' = Ok 2"
    by (simp_all add: parse_id_def MAX_BYTES_def ok
        validate_id_def)
  then have "room_id_or_alias_id_validate ''!a:b'' = Ok ()"
      "room_id_or_alias_id_validate ''#a:b'' = Ok ()"
    by (simp_all add: room_id_or_alias_id_validate_def validate_delimited_id_ok)
  from this[THEN room_or_alias_conversions] show ?thesis
    by (auto simp: try_into_room_id_def try_into_room_alias_id_def variant_def)
qed

lemma known_version_cases:
  "v \<in> {V1, V2, V3, V4, V5, V6} \<or> (\<exists>s. v = Custom s)"
  by (cases v) auto

text \<open>Parsing a room version and printing it are inverse: whatever \<open>try_from\<close> accepts prints
  back as the same string, and the string of an accepted version parses to that version; a string is
  rejected exactly when it is empty or has more than 32 code points.\<close>

lemma room_version_roundtrip:
  "(case room_version_try_from s of
      Ok v \<Rightarrow> room_version_as_str v = s \<and> room_version_try_from (room_version_as_str v) = Ok v
    | Err e \<Rightarrow> (s = [] \<and> e = EmptyRoomVersionId)
        \<or> (32 < length (chars s) \<and> e = MaximumLengthExceeded)
    | Panic \<Rightarrow> False)"
  by (auto simp: room_version_try_from_def room_version_id_validate_def MAX_CODE_POINTS_def
      split: result.splits if_splits)

end
