(* ===== verification/Canonical_Json.thy ===== *)
theory Canonical_Json
  imports Prelude
begin

text \<open>The crate \<^verbatim>\<open>ruma-serde\<close>: canonical JSON values (\<^verbatim>\<open>canonical_json.rs\<close>,
  \<^verbatim>\<open>canonical_json/value.rs\<close>), the conversions from and to \<^verbatim>\<open>serde_json::Value\<close>, and the
  deserialization helpers of \<^verbatim>\<open>strings.rs\<close>.  A \<^verbatim>\<open>serde_json::Value\<close> is the datatype \<open>json\<close>; its
  numbers keep the three representations of \<^verbatim>\<open>serde_json::Number\<close> (unsigned and signed 64-bit
  integers, floats as their bit pattern) and its maps are sorted.  \<^verbatim>\<open>js_int::Int\<close> is an \<^typ>\<open>int\<close>
  between \<open>-(2^53 - 1)\<close> and \<open>2^53 - 1\<close>.\<close>

section \<open>Values\<close>

datatype json_number = PosInt "64 word" | NegInt "64 word" | Float "64 word"

datatype json =
    JNull | JBool bool | JNumber json_number | JString string
  | JArray "json list" | JObject "(string \<times> json) list"

datatype cjson =
    Null | Bool bool | Integer int | String string
  | Array "cjson list" | Object "(string \<times> cjson) list"

type_synonym cobject = "(string, cjson) btree"

datatype cj_error = IntConvert

section \<open>Accessors\<close>

fun as_bool :: "cjson \<Rightarrow> bool option" where
  "as_bool (Bool b) = Some b"
| "as_bool _ = None"

fun as_integer :: "cjson \<Rightarrow> int option" where
  "as_integer (Integer i) = Some i"
| "as_integer _ = None"

fun as_str :: "cjson \<Rightarrow> string option" where
  "as_str (String s) = Some s"
| "as_str _ = None"

fun as_array :: "cjson \<Rightarrow> cjson list option" where
  "as_array (Array a) = Some a"
| "as_array _ = None"

fun as_object :: "cjson \<Rightarrow> cobject option" where
  "as_object (Object m) = Some m"
| "as_object _ = None"

fun is_bool :: "cjson \<Rightarrow> bool" where
  "is_bool (Bool _) = True"
| "is_bool _ = False"

fun is_integer :: "cjson \<Rightarrow> bool" where
  "is_integer (Integer _) = True"
| "is_integer _ = False"

fun is_string :: "cjson \<Rightarrow> bool" where
  "is_string (String _) = True"
| "is_string _ = False"

fun is_array :: "cjson \<Rightarrow> bool" where
  "is_array (Array _) = True"
| "is_array _ = False"

fun is_object :: "cjson \<Rightarrow> bool" where
  "is_object (Object _) = True"
| "is_object _ = False"

section \<open>Conversions\<close>

definition INT_MAX :: int where "INT_MAX = 9007199254740991"

definition int_ok :: "int \<Rightarrow> bool" where
  "int_ok i \<longleftrightarrow> - INT_MAX \<le> i \<and> i \<le> INT_MAX"

definition int_try_from :: "int \<Rightarrow> int option" where
  "int_try_from i = (if int_ok i then Some i else None)"

fun as_i64 :: "json_number \<Rightarrow> int option" where
  "as_i64 (PosInt n) = (if unat n < 2 ^ 63 then Some (uint n) else None)"
| "as_i64 (NegInt n) = Some (sint n)"
| "as_i64 (Float n) = None"

definition number_from_i64 :: "int \<Rightarrow> json_number" where
  "number_from_i64 i = (if i < 0 then NegInt (word_of_int i) else PosInt (word_of_int i))"

definition number_to_int :: "json_number \<Rightarrow> (int, cj_error) result" where
  "number_to_int num =
     and_then (ok_or IntConvert (as_i64 num)) (\<lambda>i. ok_or IntConvert (int_try_from i))"

text \<open>\<open>TryFrom<JsonValue>\<close>; \<open>collect\<close> inserts the converted entries into a \<^verbatim>\<open>BTreeMap\<close>.\<close>

fun cj_try_from :: "json \<Rightarrow> (cjson, cj_error) result" where
  "cj_try_from (JBool b) = Ok (Bool b)"
| "cj_try_from (JNumber num) = and_then (number_to_int num) (\<lambda>i. Ok (Integer i))"
| "cj_try_from (JArray vec) = and_then (map_res cj_try_from vec) (\<lambda>a. Ok (Array a))"
| "cj_try_from (JString s) = Ok (String s)"
| "cj_try_from (JObject obj) =
     and_then (map_res (\<lambda>kv. and_then (cj_try_from (snd kv)) (\<lambda>w. Ok (fst kv, w))) obj)
       (\<lambda>es. Ok (Object (bt_of_list es)))"
| "cj_try_from JNull = Ok Null"

definition try_from_json_map :: "(string \<times> json) list \<Rightarrow> (cobject, cj_error) result" where
  "try_from_json_map obj =
     and_then (map_res (\<lambda>kv. and_then (cj_try_from (snd kv)) (\<lambda>w. Ok (fst kv, w))) obj)
       (\<lambda>es. Ok (bt_of_list es))"

text \<open>\<open>From<CanonicalJsonValue> for JsonValue\<close>.\<close>

fun cj_into :: "cjson \<Rightarrow> json" where
  "cj_into (Bool b) = JBool b"
| "cj_into (Integer i) = JNumber (number_from_i64 i)"
| "cj_into (String s) = JString s"
| "cj_into (Array vec) = JArray (map cj_into vec)"
| "cj_into (Object obj) = JObject (bt_of_list (map (\<lambda>kv. (fst kv, cj_into (snd kv))) obj))"
| "cj_into Null = JNull"

text \<open>\<open>Serialize\<close> is generic in the serializer; its methods are the fields of the record.\<close>

record 'o serializer =
  serialize_unit :: 'o
  serialize_bool :: "bool \<Rightarrow> 'o"
  serialize_int :: "int \<Rightarrow> 'o"
  serialize_str :: "string \<Rightarrow> 'o"
  serialize_seq :: "'o list \<Rightarrow> 'o"
  serialize_map :: "(string \<times> 'o) list \<Rightarrow> 'o"

fun cj_serialize :: "'o serializer \<Rightarrow> cjson \<Rightarrow> 'o" where
  "cj_serialize S Null = serialize_unit S"
| "cj_serialize S (Bool b) = serialize_bool S b"
| "cj_serialize S (Integer n) = serialize_int S n"
| "cj_serialize S (String s) = serialize_str S s"
| "cj_serialize S (Array v) = serialize_seq S (map (cj_serialize S) v)"
| "cj_serialize S (Object m) =
     serialize_map S (map (\<lambda>kv. (fst kv, cj_serialize S (snd kv))) m)"

section \<open>Deserialization helpers\<close>

text \<open>\<open>int_or_string_to_int\<close>; \<open>int_parse\<close> is \<^verbatim>\<open>js_int\<close>'s \<open>FromStr\<close>.\<close>

fun int_or_string_to_int :: "(string \<Rightarrow> int option) \<Rightarrow> json \<Rightarrow> int option" where
  "int_or_string_to_int int_parse (JNumber (PosInt n)) = int_try_from (uint n)"
| "int_or_string_to_int int_parse (JNumber (NegInt n)) = int_try_from (sint n)"
| "int_or_string_to_int int_parse (JString s) = int_parse s"
| "int_or_string_to_int int_parse _ = None"

text \<open>\<open>btreemap_int_or_string_to_int_values\<close>; \<open>key\<close> deserializes the keys.\<close>

fun int_map_entries ::
    "(string \<Rightarrow> int option) \<Rightarrow> (string \<Rightarrow> 'k option) \<Rightarrow> (string \<times> json) list
      \<Rightarrow> ('k::linorder, int) btree \<Rightarrow> ('k, int) btree option" where
  "int_map_entries int_parse key [] res = Some res"
| "int_map_entries int_parse key ((k, v) # es) res =
     (case key k of None \<Rightarrow> None
      | Some k' \<Rightarrow> (case int_or_string_to_int int_parse v of None \<Rightarrow> None
         | Some i \<Rightarrow> int_map_entries int_parse key es (bt_insert k' i res)))"

fun btreemap_int_or_string_to_int_values ::
    "(string \<Rightarrow> int option) \<Rightarrow> (string \<Rightarrow> 'k option) \<Rightarrow> json \<Rightarrow> ('k::linorder, int) btree option"
  where
  "btreemap_int_or_string_to_int_values int_parse key (JObject es) = int_map_entries int_parse key es []"
| "btreemap_int_or_string_to_int_values int_parse key _ = None"

text \<open>\<open>empty_string_as_none\<close> for a type deserialized by \<open>de\<close>: the outer option is the failure.\<close>

definition empty_string_as_none :: "(string \<Rightarrow> 'a option) \<Rightarrow> json \<Rightarrow> 'a option option" where
  "empty_string_as_none de v =
     (case v of
        JNull \<Rightarrow> Some None
      | JString s \<Rightarrow> if s = [] then Some None else map_option Some (de s)
      | _ \<Rightarrow> None)"

definition none_as_empty_string :: "('a \<Rightarrow> json) \<Rightarrow> 'a option \<Rightarrow> json" where
  "none_as_empty_string ser v = (case v of Some x \<Rightarrow> ser x | None \<Rightarrow> JString [])"

section \<open>Well-formed values\<close>

fun number_ok :: "json_number \<Rightarrow> bool" where
  "number_ok (NegInt n) = (sint n < 0)"
| "number_ok _ = True"

text \<open>\<open>json_ok\<close> / \<open>cj_ok\<close>: every map is sorted, numbers are what the types admit.\<close>

fun json_ok :: "json \<Rightarrow> bool" where
  "json_ok (JNumber num) = number_ok num"
| "json_ok (JArray vec) = list_all json_ok vec"
| "json_ok (JObject obj) = (bt_ok obj \<and> list_all (\<lambda>kv. json_ok (snd kv)) obj)"
| "json_ok _ = True"

fun cj_ok :: "cjson \<Rightarrow> bool" where
  "cj_ok (Integer i) = int_ok i"
| "cj_ok (Array vec) = list_all cj_ok vec"
| "cj_ok (Object obj) = (bt_ok obj \<and> list_all (\<lambda>kv. cj_ok (snd kv)) obj)"
| "cj_ok _ = True"

text \<open>\<open>ints_only\<close>: all numbers of the value fit a \<^verbatim>\<open>js_int::Int\<close>.\<close>

definition number_fits :: "json_number \<Rightarrow> bool" where
  "number_fits num = (case num of PosInt n \<Rightarrow> int_ok (uint n) | NegInt n \<Rightarrow> int_ok (sint n)
     | Float _ \<Rightarrow> False)"

fun ints_only :: "json \<Rightarrow> bool" where
  "ints_only (JNumber num) = number_fits num"
| "ints_only (JArray vec) = list_all ints_only vec"
| "ints_only (JObject obj) = list_all (\<lambda>kv. ints_only (snd kv)) obj"
| "ints_only _ = True"

section \<open>Lemmas\<close>

lemma number_to_int_neq_Panic [simp]: "number_to_int num \<noteq> Panic"
  by (auto simp: number_to_int_def res_simps)

lemma number_to_int_cases:
  "number_to_int num = (case num of
      PosInt n \<Rightarrow> if int_ok (uint n) then Ok (uint n) else Err IntConvert
    | NegInt n \<Rightarrow> if int_ok (sint n) then Ok (sint n) else Err IntConvert
    | Float _ \<Rightarrow> Err IntConvert)"
proof (cases num)
  case (PosInt n)
  have "int_ok (uint n) \<Longrightarrow> unat n < 2 ^ 63"
    by (simp add: int_ok_def INT_MAX_def unat_eq_nat_uint nat_less_iff del: nat_uint_eq)
  then show ?thesis using PosInt
    by (cases "unat n < 2 ^ 63") (auto simp: number_to_int_def int_try_from_def)
qed (simp_all add: number_to_int_def int_try_from_def)

lemma number_fits_iff: "number_fits num \<longleftrightarrow> (\<exists>i. number_to_int num = Ok i)"
  by (auto simp: number_to_int_cases number_fits_def split: json_number.splits)

lemma number_from_to: "number_to_int num = Ok i \<Longrightarrow> number_ok num \<Longrightarrow> number_from_i64 i = num"
  by (auto simp: number_to_int_cases number_from_i64_def split: json_number.splits if_splits)

lemma number_to_from: "int_ok i \<Longrightarrow> number_to_int (number_from_i64 i) = Ok i"
proof -
  assume i: "int_ok i"
  then have "signed_take_bit 63 i = i"
    by (intro signed_take_bit_int_eq_self) (auto simp: int_ok_def INT_MAX_def)
  then have "sint (word_of_int i :: 64 word) = i" by (simp add: sint_sbintrunc')
  moreover have "i \<ge> 0 \<Longrightarrow> uint (word_of_int i :: 64 word) = i"
    using i by (simp add: uint_word_of_int int_ok_def INT_MAX_def)
  ultimately show ?thesis using i by (simp add: number_to_int_cases number_from_i64_def)
qed

lemma number_from_ok: "int_ok i \<Longrightarrow> number_ok (number_from_i64 i)"
  using number_to_from[of i] by (auto simp: number_from_i64_def number_to_int_cases split: if_splits)

text \<open>The conversion of the entries of an object.\<close>

lemma pair_entry_Ok:
  "and_then (f (snd kv)) (\<lambda>w. Ok (fst kv, w)) = Ok kw \<longleftrightarrow> fst kw = fst kv \<and> f (snd kv) = Ok (snd kw)"
  by (cases kw) (auto simp: res_simps)

lemma map_res_pairs:
  "map_res (\<lambda>kv. and_then (f (snd kv)) (\<lambda>w. Ok (fst kv, w))) obj = Ok es \<longleftrightarrow>
     list_all2 (\<lambda>kv kw. fst kw = fst kv \<and> f (snd kv) = Ok (snd kw)) obj es"
  by (simp only: map_res_eq_Ok pair_entry_Ok)

lemma list_all2_keys:
  "list_all2 (\<lambda>kv kw. fst kw = fst kv \<and> P kv kw) obj es \<Longrightarrow> map fst es = map fst obj"
  by (induction rule: list_all2_induct) auto

lemma bt_ok_keys: "map fst es = map fst obj \<Longrightarrow> bt_ok es \<longleftrightarrow> bt_ok obj"
  by (simp add: bt_ok_def)

lemma map_res_neq_Panic: "(\<And>x. x \<in> set xs \<Longrightarrow> f x \<noteq> Panic) \<Longrightarrow> map_res f xs \<noteq> Panic"
  by (induction xs) (auto simp: res_simps)

lemma map_res_Err: "map_res f xs = Err e \<Longrightarrow> \<exists>x\<in>set xs. f x = Err e"
  by (induction xs) (auto simp: res_simps)

lemma map_res_is_Ok: "(\<exists>ys. map_res f xs = Ok ys) \<longleftrightarrow> (\<forall>x\<in>set xs. \<exists>y. f x = Ok y)"
  by (induction xs) (auto simp: res_simps list_all2_Cons1)

lemma try_from_is_Ok: "(\<exists>c. cj_try_from v = Ok c) \<longleftrightarrow> ints_only v"
proof (induction v)
  case (JNumber num)
  then show ?case by (auto simp: number_fits_iff res_simps)
next
  case (JArray vec)
  have "(\<exists>c. cj_try_from (JArray vec) = Ok c) \<longleftrightarrow> (\<exists>ys. map_res cj_try_from vec = Ok ys)"
    by (auto simp add: and_then_eq_Ok)
  then show ?case using JArray by (simp add: map_res_is_Ok list_all_iff)
next
  case (JObject obj)
  have "(\<exists>c. cj_try_from (JObject obj) = Ok c) \<longleftrightarrow>
      (\<exists>ys. map_res (\<lambda>kv. and_then (cj_try_from (snd kv)) (\<lambda>w. Ok (fst kv, w))) obj = Ok ys)"
    by (auto simp add: and_then_eq_Ok)
  also have "\<dots> \<longleftrightarrow> (\<forall>kv\<in>set obj. \<exists>c. cj_try_from (snd kv) = Ok c)"
    by (simp add: map_res_is_Ok and_then_eq_Ok)
  also have "\<dots> \<longleftrightarrow> ints_only (JObject obj)"
    using JObject by (auto simp: list_all_iff snds.simps prod_set_simps)
  finally show ?case .
qed auto

lemma try_from_neq_Panic: "cj_try_from v \<noteq> Panic"
proof (induction v)
  case (JArray vec)
  then show ?case by (simp add: and_then_eq_Panic map_res_neq_Panic)
next
  case (JObject obj)
  have "map_res (\<lambda>kv. and_then (cj_try_from (snd kv)) (\<lambda>w. Ok (fst kv, w))) obj \<noteq> Panic"
    by (rule map_res_neq_Panic) (use JObject in \<open>auto simp: and_then_eq_Panic prod_set_simps\<close>)
  then show ?case by (simp add: and_then_eq_Panic)
qed (auto simp: and_then_eq_Panic)

lemma cj_error_eq: "(e :: cj_error) = IntConvert"
  by (cases e) simp

text \<open>\<open>try_from\<close> on a well-formed value keeps the structure; \<open>cj_into\<close> undoes it.\<close>

lemma try_from_ok_into:
  "json_ok v \<Longrightarrow> cj_try_from v = Ok c \<Longrightarrow> cj_ok c \<and> cj_into c = v"
proof (induction v arbitrary: c)
  case (JNumber num)
  then show ?case
    by (auto simp: res_simps number_from_to)
       (auto simp: number_to_int_cases split: json_number.splits if_splits)
next
  case (JArray vec)
  from JArray.prems(2) obtain ys where ys: "c = Array ys" "list_all2 (\<lambda>x y. cj_try_from x = Ok y) vec ys"
    by (auto simp: res_simps)
  have "list_all2 (\<lambda>x y. cj_ok y \<and> cj_into y = x) vec ys"
    using ys(2)
    by (rule list.rel_mono_strong) (use JArray in \<open>auto simp: list_all_iff\<close>)
  then show ?case using ys(1)
    by (auto simp: list_all_iff list_all2_conv_all_nth in_set_conv_nth intro!: nth_equalityI)
next
  case (JObject obj)
  from JObject.prems(2) obtain es where c: "c = Object (bt_of_list es)"
    and es: "list_all2 (\<lambda>kv kw. fst kw = fst kv \<and> cj_try_from (snd kv) = Ok (snd kw)) obj es"
    by (auto simp: and_then_eq_Ok map_res_pairs)
  have obj: "bt_ok obj" "\<And>kv. kv \<in> set obj \<Longrightarrow> json_ok (snd kv)"
    using JObject.prems(1) by (auto simp: list_all_iff)
  then have ok: "bt_ok es" using list_all2_keys[OF es] bt_ok_keys by blast
  have *: "list_all2 (\<lambda>kv kw. cj_ok (snd kw) \<and> (fst kw, cj_into (snd kw)) = kv) obj es"
    using es
    by (rule list.rel_mono_strong) (use JObject.IH obj in \<open>fastforce simp: prod_set_simps\<close>)
  then have "list_all (\<lambda>kw. cj_ok (snd kw)) es"
    by (fastforce simp: list_all_iff list_all2_conv_all_nth in_set_conv_nth)
  moreover from * have "map (\<lambda>kw. (fst kw, cj_into (snd kw))) es = obj"
    by (auto simp: list_all_iff list_all2_conv_all_nth in_set_conv_nth intro!: nth_equalityI)
  ultimately show ?case using ok obj by (simp add: c bt_of_list_ok)
qed (auto)

lemma into_from_ok: "cj_ok c \<Longrightarrow> json_ok (cj_into c) \<and> cj_try_from (cj_into c) = Ok c"
proof (induction c)
  case (Integer i)
  then show ?case by (simp add: number_to_from number_from_ok)
next
  case (Array vec)
  then have "\<And>x. x \<in> set vec \<Longrightarrow> json_ok (cj_into x) \<and> cj_try_from (cj_into x) = Ok x"
    by (auto simp: list_all_iff)
  then show ?case
    by (auto simp: list_all_iff res_simps list_all2_conv_all_nth)
next
  case (Object obj)
  have IH: "json_ok (cj_into (snd kv)) \<and> cj_try_from (cj_into (snd kv)) = Ok (snd kv)"
    if "kv \<in> set obj" for kv
    using Object.IH[OF that, of "snd kv"] Object.prems that
    by (cases kv) (fastforce simp: list_all_iff prod_set_simps)
  let ?es = "map (\<lambda>kv. (fst kv, cj_into (snd kv))) obj"
  have ok: "bt_ok obj" using Object.prems by simp
  then have "bt_ok ?es" by (simp add: bt_ok_def comp_def)
  moreover have "list_all (\<lambda>kv. json_ok (snd kv)) ?es" using IH by (auto simp: list_all_iff)
  moreover have "map_res (\<lambda>kv. and_then (cj_try_from (snd kv)) (\<lambda>w. Ok (fst kv, w))) ?es = Ok obj"
    using IH by (auto simp: map_res_pairs list_all2_conv_all_nth)
  ultimately show ?case using ok by (simp add: bt_of_list_ok del: map_map)
qed auto

section \<open>Properties\<close>

text \<open>C25. Converting a JSON value to canonical JSON and back loses nothing: the conversion succeeds
  exactly when every number is an integer of at most 53 bits (otherwise the error is
  \<open>IntConvert\<close>, and nothing panics); the result has sorted maps and in-range integers, and converting
  it back gives the original value.\<close>

theorem try_from_roundtrip:
  assumes "json_ok v"
  shows "if ints_only v then (\<exists>c. cj_try_from v = Ok c \<and> cj_ok c \<and> cj_into c = v)
    else cj_try_from v = Err IntConvert"
proof (cases "ints_only v")
  case True
  then obtain c where "cj_try_from v = Ok c" using try_from_is_Ok by blast
  then show ?thesis using True try_from_ok_into[OF assms] by auto
next
  case False
  then have "cj_try_from v \<noteq> Ok c" for c using try_from_is_Ok by blast
  then show ?thesis using False try_from_neq_Panic[of v] cj_error_eq
    by (cases "cj_try_from v") auto
qed

lemma try_from_roundtrip_witness:
  "\<exists>c. cj_try_from (JObject [(''a'', JNumber (PosInt 3))]) = Ok c \<and> cj_ok c"
  using try_from_roundtrip[of "JObject [(''a'', JNumber (PosInt 3))]"]
  by (auto simp: number_fits_def int_ok_def INT_MAX_def)

text \<open>Every canonical JSON value (sorted maps, in-range integers) is the image of a JSON value:
  \<open>From\<close> followed by \<open>TryFrom\<close> is the identity, so no two canonical values share a JSON
  representation.\<close>

lemma into_try_from:
  assumes "cj_ok c"
  shows "cj_try_from (cj_into c) = Ok c"
  using into_from_ok[OF assms] by simp

lemma into_try_from_witness: "cj_try_from (cj_into (Integer (- 5))) = Ok (Integer (- 5))"
  by (rule into_try_from) (simp add: int_ok_def INT_MAX_def)

end
