(* ===== verification/Room_Events.thy ===== *)
theory Room_Events
  imports Identifiers Canonical_Json
begin

text \<open>Room event contents (\<^verbatim>\<open>ruma-events/src/room\<close>, \<^verbatim>\<open>ruma-common/src/power_levels.rs\<close>) and their
  derived serde implementations, as far as authorization and state resolution read them.  The content
  of an event is a JSON object, an association list with distinct keys; \<open>from_json_str::<T>\<close> on it is
  a function into \<^typ>\<open>'a option\<close>, \<^const>\<open>None\<close> being the serde error.  An \<open>EventType\<close> is determined by
  its string and is that string.\<close>

type_synonym content = "(string \<times> json) list"
type_synonym event_type = string

section \<open>Derived deserialization\<close>

text \<open>A required field, an \<open>Option\<close> field, a field with \<open>#[serde(default)]\<close>, and an
  \<open>Option<Raw<_>>\<close> field; unknown fields are ignored.\<close>

definition de_req :: "(json \<Rightarrow> 'a option) \<Rightarrow> content \<Rightarrow> string \<Rightarrow> 'a option" where
  "de_req de m k = Option.bind (map_of m k) de"

definition de_opt :: "(json \<Rightarrow> 'a option) \<Rightarrow> content \<Rightarrow> string \<Rightarrow> 'a option option" where
  "de_opt de m k =
     (case map_of m k of None \<Rightarrow> Some None
      | Some v \<Rightarrow> if v = JNull then Some None else map_option Some (de v))"

definition de_default :: "'a \<Rightarrow> (json \<Rightarrow> 'a option) \<Rightarrow> content \<Rightarrow> string \<Rightarrow> 'a option" where
  "de_default d de m k = (case map_of m k of None \<Rightarrow> Some d | Some v \<Rightarrow> de v)"

definition raw_opt :: "content \<Rightarrow> string \<Rightarrow> json option" where
  "raw_opt m k = (case map_of m k of None \<Rightarrow> None | Some v \<Rightarrow> if v = JNull then None else Some v)"

fun de_string :: "json \<Rightarrow> string option" where
  "de_string (JString s) = Some s"
| "de_string _ = None"

fun de_bool :: "json \<Rightarrow> bool option" where
  "de_bool (JBool b) = Some b"
| "de_bool _ = None"

fun de_int :: "json \<Rightarrow> int option" where
  "de_int (JNumber num) = (case number_to_int num of Ok i \<Rightarrow> Some i | _ \<Rightarrow> None)"
| "de_int _ = None"

text \<open>A nested struct is read from an object, or from an array holding its fields in order.\<close>

fun de_struct :: "string list \<Rightarrow> json \<Rightarrow> content option" where
  "de_struct names (JObject m) = Some m"
| "de_struct names (JArray xs) = (if length xs = length names then Some (zip names xs) else None)"
| "de_struct names _ = None"

fun de_seq :: "(json \<Rightarrow> 'a option) \<Rightarrow> json list \<Rightarrow> 'a list option" where
  "de_seq de [] = Some []"
| "de_seq de (x # xs) = Option.bind (de x) (\<lambda>y. map_option (Cons y) (de_seq de xs))"

fun de_vec :: "(json \<Rightarrow> 'a option) \<Rightarrow> json \<Rightarrow> 'a list option" where
  "de_vec de (JArray xs) = de_seq de xs"
| "de_vec de _ = None"

text \<open>\<open>BTreeMap<K, V>\<close> from an object.\<close>

fun de_entries ::
    "(string \<Rightarrow> 'k option) \<Rightarrow> (json \<Rightarrow> 'v option) \<Rightarrow> (string \<times> json) list \<Rightarrow> ('k \<times> 'v) list option" where
  "de_entries dk dv [] = Some []"
| "de_entries dk dv ((k, v) # es) =
     Option.bind (dk k) (\<lambda>k'. Option.bind (dv v) (\<lambda>v'. map_option (Cons (k', v')) (de_entries dk dv es)))"

fun de_btree ::
    "(string \<Rightarrow> 'k::linorder option) \<Rightarrow> (json \<Rightarrow> 'v option) \<Rightarrow> json \<Rightarrow> ('k, 'v) btree option" where
  "de_btree dk dv (JObject es) = map_option bt_of_list (de_entries dk dv es)"
| "de_btree dk dv _ = None"

definition de_id :: "(string \<Rightarrow> (unit, id_error) result) \<Rightarrow> string \<Rightarrow> string option" where
  "de_id validate s = (case parse_validated validate s of Ok t \<Rightarrow> Some t | _ \<Rightarrow> None)"

definition de_user_id :: "string \<Rightarrow> string option" where
  "de_user_id s = de_id user_id_validate s"

definition de_room_version :: "json \<Rightarrow> room_version_id option" where
  "de_room_version v = Option.bind (de_string v) (\<lambda>s.
     case room_version_try_from s of Ok r \<Rightarrow> Some r | _ \<Rightarrow> None)"

section \<open>Memberships\<close>

datatype membership_state = Ban | Invite | Join | Knock | Leave | MCustom string

fun membership_as_ref :: "membership_state \<Rightarrow> string" where
  "membership_as_ref Ban = ''ban''"
| "membership_as_ref Invite = ''invite''"
| "membership_as_ref Join = ''join''"
| "membership_as_ref Knock = ''knock''"
| "membership_as_ref Leave = ''leave''"
| "membership_as_ref (MCustom s) = s"

definition membership_from :: "string \<Rightarrow> membership_state" where
  "membership_from s =
     (if s = ''ban'' then Ban else if s = ''invite'' then Invite else if s = ''join'' then Join
      else if s = ''knock'' then Knock else if s = ''leave'' then Leave else MCustom s)"

definition de_membership :: "json \<Rightarrow> membership_state option" where
  "de_membership v = map_option membership_from (de_string v)"

record signed_content =
  mxid :: string
  sc_signatures :: "(string, (string, string) btree) btree"
  token :: string

record third_party_invite =
  tpi_display_name :: string
  signed :: signed_content

text \<open>\<open>uni\<close> stands for the Unicode tables behind the key names of the signatures.\<close>

definition de_server_name :: "string \<Rightarrow> string option" where
  "de_server_name s = de_id server_name_validate s"

definition de_signing_key_id :: "(nat \<Rightarrow> bool) \<Rightarrow> string \<Rightarrow> string option" where
  "de_signing_key_id uni s = (case key_id_validate uni s of Ok _ \<Rightarrow> Some s | _ \<Rightarrow> None)"

definition de_signed_content :: "(nat \<Rightarrow> bool) \<Rightarrow> json \<Rightarrow> signed_content option" where
  "de_signed_content uni v =
     Option.bind (de_struct [''mxid'', ''signatures'', ''token''] v) (\<lambda>m.
     Option.bind (Option.bind (de_req de_string m ''mxid'') de_user_id) (\<lambda>mx.
     Option.bind (de_req (de_btree de_server_name (de_btree (de_signing_key_id uni) de_string)) m
                    ''signatures'') (\<lambda>sg.
     Option.bind (de_req de_string m ''token'') (\<lambda>tk.
     Some \<lparr> mxid = mx, sc_signatures = sg, token = tk \<rparr>))))"

definition de_third_party_invite :: "(nat \<Rightarrow> bool) \<Rightarrow> json \<Rightarrow> third_party_invite option" where
  "de_third_party_invite uni v =
     Option.bind (de_struct [''display_name'', ''signed''] v) (\<lambda>m.
     Option.bind (de_req de_string m ''display_name'') (\<lambda>dn.
     Option.bind (de_req (de_signed_content uni) m ''signed'') (\<lambda>sc.
     Some \<lparr> tpi_display_name = dn, signed = sc \<rparr>)))"

record member_content =
  avatar_url :: "string option"
  displayname :: "string option"
  is_direct :: "bool option"
  membership :: membership_state
  third_party_invite :: "third_party_invite option"

definition de_member_content :: "(nat \<Rightarrow> bool) \<Rightarrow> content \<Rightarrow> member_content option" where
  "de_member_content uni m =
     Option.bind (de_opt de_string m ''avatar_url'') (\<lambda>av.
     Option.bind (de_opt de_string m ''displayname'') (\<lambda>dn.
     Option.bind (de_opt de_bool m ''is_direct'') (\<lambda>d.
     Option.bind (de_req de_membership m ''membership'') (\<lambda>ms.
     Option.bind (de_opt (de_third_party_invite uni) m ''third_party_invite'') (\<lambda>tpi.
     Some \<lparr> avatar_url = av, displayname = dn, is_direct = d, membership = ms,
            third_party_invite = tpi \<rparr>)))))"

definition member_content_new :: "membership_state \<Rightarrow> member_content" where
  "member_content_new ms =
     \<lparr> avatar_url = None, displayname = None, is_direct = None, membership = ms,
       third_party_invite = None \<rparr>"

text \<open>\<open>RedactContent for RoomMemberEventContent\<close>.\<close>

definition member_redact :: "member_content \<Rightarrow> room_version_id \<Rightarrow> membership_state" where
  "member_redact c version = membership c"

datatype membership_change =
    ChNone | ChError | Joined | Left | Banned | Unbanned | Kicked | Invited | KickedAndBanned
  | InvitationRejected | InvitationRevoked | ProfileChanged bool bool | NotImplemented

definition membership_change ::
    "member_content \<Rightarrow> member_content option \<Rightarrow> string \<Rightarrow> string \<Rightarrow> membership_change" where
  "membership_change content prev_content sender state_key =
     (let prev = (case prev_content of Some p \<Rightarrow> p | None \<Rightarrow> member_content_new Leave)
      in case (membership prev, membership content) of
           (Invite, Invite) \<Rightarrow> ChNone | (Leave, Leave) \<Rightarrow> ChNone | (Ban, Ban) \<Rightarrow> ChNone
         | (Invite, Join) \<Rightarrow> Joined | (Leave, Join) \<Rightarrow> Joined
         | (Invite, Leave) \<Rightarrow> (if sender = state_key then InvitationRevoked else InvitationRejected)
         | (Invite, Ban) \<Rightarrow> Banned | (Leave, Ban) \<Rightarrow> Banned
         | (Join, Invite) \<Rightarrow> ChError | (Ban, Invite) \<Rightarrow> ChError | (Ban, Join) \<Rightarrow> ChError
         | (Join, Join) \<Rightarrow> ProfileChanged (displayname prev \<noteq> displayname content)
                                          (avatar_url prev \<noteq> avatar_url content)
         | (Join, Leave) \<Rightarrow> (if sender = state_key then Left else Kicked)
         | (Join, Ban) \<Rightarrow> KickedAndBanned
         | (Leave, Invite) \<Rightarrow> Invited
         | (Ban, Leave) \<Rightarrow> Unbanned
         | _ \<Rightarrow> NotImplemented)"

section \<open>Join rules\<close>

datatype join_rule = JRInvite | JRKnock | JRPrivate | JRPublic | JRCustom string

fun join_rule_as_str :: "join_rule \<Rightarrow> string" where
  "join_rule_as_str JRInvite = ''invite''"
| "join_rule_as_str JRKnock = ''knock''"
| "join_rule_as_str JRPrivate = ''private''"
| "join_rule_as_str JRPublic = ''public''"
| "join_rule_as_str (JRCustom s) = s"

definition join_rule_from :: "string \<Rightarrow> join_rule" where
  "join_rule_from s =
     (if s = ''invite'' then JRInvite else if s = ''knock'' then JRKnock
      else if s = ''private'' then JRPrivate else if s = ''public'' then JRPublic else JRCustom s)"

definition de_join_rules_content :: "content \<Rightarrow> join_rule option" where
  "de_join_rules_content m =
     Option.bind (de_opt de_string m ''join_rule'') (map_option join_rule_from)"

section \<open>Power levels\<close>

definition default_power_level :: int where "default_power_level = 50"

definition is_default_power_level :: "int \<Rightarrow> bool" where
  "is_default_power_level l \<longleftrightarrow> l = 50"

record power_levels =
  ban :: int
  events :: "(event_type, int) btree"
  events_default :: int
  invite :: int
  kick :: int
  redact_level :: int
  state_default :: int
  users :: "(string, int) btree"
  users_default :: int
  notifications_room :: int

definition power_levels_new :: power_levels where
  "power_levels_new =
     \<lparr> ban = default_power_level, events = [], events_default = 0, invite = default_power_level,
       kick = default_power_level, redact_level = default_power_level,
       state_default = default_power_level, users = [], users_default = 0,
       notifications_room = default_power_level \<rparr>"

definition notification_get :: "int \<Rightarrow> string \<Rightarrow> int option" where
  "notification_get room key = (if key = ''room'' then Some room else None)"

fun de_notifications :: "json \<Rightarrow> int option" where
  "de_notifications (JObject m) = de_default default_power_level de_int m ''room''"
| "de_notifications (JArray []) = Some default_power_level"
| "de_notifications (JArray [v]) = de_int v"
| "de_notifications _ = None"

definition de_power_levels :: "content \<Rightarrow> power_levels option" where
  "de_power_levels m =
     Option.bind (de_default default_power_level de_int m ''ban'') (\<lambda>bn.
     Option.bind (de_default [] (de_btree Some de_int) m ''events'') (\<lambda>ev.
     Option.bind (de_default 0 de_int m ''events_default'') (\<lambda>evd.
     Option.bind (de_default default_power_level de_int m ''invite'') (\<lambda>inv.
     Option.bind (de_default default_power_level de_int m ''kick'') (\<lambda>kk.
     Option.bind (de_default default_power_level de_int m ''redact'') (\<lambda>rd.
     Option.bind (de_default default_power_level de_int m ''state_default'') (\<lambda>sd.
     Option.bind (de_default [] (de_btree de_user_id de_int) m ''users'') (\<lambda>us.
     Option.bind (de_default 0 de_int m ''users_default'') (\<lambda>ud.
     Option.bind (de_default default_power_level de_notifications m ''notifications'') (\<lambda>nt.
     Some \<lparr> ban = bn, events = ev, events_default = evd, invite = inv, kick = kk,
            redact_level = rd, state_default = sd, users = us, users_default = ud,
            notifications_room = nt \<rparr>))))))))))"

definition ser_int :: "int \<Rightarrow> json" where
  "ser_int i = JNumber (number_from_i64 i)"

definition ser_unless :: "bool \<Rightarrow> string \<Rightarrow> json \<Rightarrow> content" where
  "ser_unless skip k v = (if skip then [] else [(k, v)])"

text \<open>\<open>serde_json::to_value\<close>: fields at their default are skipped.\<close>

definition ser_power_levels :: "power_levels \<Rightarrow> content" where
  "ser_power_levels p = bt_of_list
     (ser_unless (is_default_power_level (ban p)) ''ban'' (ser_int (ban p)) @
      ser_unless (events p = []) ''events''
        (JObject (map (\<lambda>(k, v). (k, ser_int v)) (events p))) @
      ser_unless (events_default p = 0) ''events_default'' (ser_int (events_default p)) @
      ser_unless (is_default_power_level (invite p)) ''invite'' (ser_int (invite p)) @
      ser_unless (is_default_power_level (kick p)) ''kick'' (ser_int (kick p)) @
      ser_unless (is_default_power_level (redact_level p)) ''redact'' (ser_int (redact_level p)) @
      ser_unless (is_default_power_level (state_default p)) ''state_default''
        (ser_int (state_default p)) @
      ser_unless (users p = []) ''users'' (JObject (map (\<lambda>(k, v). (k, ser_int v)) (users p))) @
      ser_unless (users_default p = 0) ''users_default'' (ser_int (users_default p)) @
      ser_unless (notifications_room p = default_power_level) ''notifications''
        (JObject [(''room'', ser_int (notifications_room p))]))"

section \<open>Creation and third party invites\<close>

record create_content =
  creator :: string
  federate :: bool
  create_room_version :: room_version_id
  predecessor :: "(string \<times> string) option"

definition de_previous_room :: "json \<Rightarrow> (string \<times> string) option" where
  "de_previous_room v =
     Option.bind (de_struct [''room_id'', ''event_id''] v) (\<lambda>m.
     Option.bind (Option.bind (de_req de_string m ''room_id'') (de_id room_id_validate)) (\<lambda>r.
     Option.bind (Option.bind (de_req de_string m ''event_id'') (de_id event_id_validate)) (\<lambda>e.
     Some (r, e))))"

definition de_create_content :: "content \<Rightarrow> create_content option" where
  "de_create_content m =
     Option.bind (Option.bind (de_req de_string m ''creator'') de_user_id) (\<lambda>cr.
     Option.bind (de_default True de_bool m ''m.federate'') (\<lambda>fd.
     Option.bind (de_default V1 de_room_version m ''room_version'') (\<lambda>rv.
     Option.bind (de_opt de_previous_room m ''predecessor'') (\<lambda>pr.
     Some \<lparr> creator = cr, federate = fd, create_room_version = rv, predecessor = pr \<rparr>))))"

record third_party_invite_content =
  tpc_display_name :: string
  tpc_key_validity_url :: string
  public_key :: string
  public_keys :: "string list option"

definition de_public_key :: "json \<Rightarrow> string option" where
  "de_public_key v =
     Option.bind (de_struct [''key_validity_url'', ''public_key''] v) (\<lambda>m.
     Option.bind (de_opt de_string m ''key_validity_url'') (\<lambda>_.
     de_req de_string m ''public_key''))"

definition de_third_party_invite_content :: "content \<Rightarrow> third_party_invite_content option" where
  "de_third_party_invite_content m =
     Option.bind (de_req de_string m ''display_name'') (\<lambda>dn.
     Option.bind (de_req de_string m ''key_validity_url'') (\<lambda>ku.
     Option.bind (de_req de_string m ''public_key'') (\<lambda>pk.
     Option.bind (de_opt (de_vec de_public_key) m ''public_keys'') (\<lambda>pks.
     Some \<lparr> tpc_display_name = dn, tpc_key_validity_url = ku, public_key = pk, public_keys = pks \<rparr>))))"

end
