(* ===== verification/Event_Auth.thy ===== *)
theory Event_Auth
  imports Room_Events
begin

text \<open>Authorization of events: \<^verbatim>\<open>ruma-state-res\<close>, files \<^verbatim>\<open>room_version.rs\<close>, \<^verbatim>\<open>state_event.rs\<close>,
  \<^verbatim>\<open>error.rs\<close> and \<^verbatim>\<open>event_auth.rs\<close>.  The \<open>Event\<close> trait is a record; \<open>fetch_state\<close> is a function
  from type and state key.  \<open>uni\<close> is the Unicode parameter of the key names in third party invites.\<close>

section \<open>Errors and events\<close>

datatype sr_error = SerdeJson | Unsupported string | NotFound string | InvalidPdu string

record event =
  ev_id :: string
  ev_room :: string
  ev_sender :: string
  ev_ts :: nat
  ev_type :: event_type
  ev_content :: content
  ev_state_key :: "string option"
  ev_prev :: "string list"
  ev_auth :: "string list"
  ev_redacts :: "string option"

text \<open>An accessor that can only panic, at the error type of the crate; \<open>from_json_str(..)?\<close>.\<close>

fun total :: "('a, id_error) result \<Rightarrow> ('a, sr_error) result" where
  "total (Ok x) = Ok x"
| "total (Err e) = Panic"
| "total Panic = Panic"

definition serde :: "'a option \<Rightarrow> ('a, sr_error) result" where
  "serde v = ok_or SerdeJson v"

section \<open>Room versions\<close>

datatype room_disposition = Stable | Unstable
datatype event_format_version = EFV1 | EFV2 | EFV3
datatype state_resolution_version = SRV1 | SRV2

record room_version =
  rv_version :: room_version_id
  disposition :: room_disposition
  event_format :: event_format_version
  state_res :: state_resolution_version
  enforce_key_validity :: bool
  special_case_aliases_auth :: bool
  strict_canonicaljson :: bool
  limit_notifications_power_levels :: bool
  extra_redaction_checks :: bool
  allow_knocking :: bool
  restricted_join_rules :: bool

definition VERSION1 :: room_version where
  "VERSION1 = \<lparr> rv_version = V1, disposition = Stable, event_format = EFV1, state_res = SRV1,
     enforce_key_validity = False, special_case_aliases_auth = True, strict_canonicaljson = False,
     limit_notifications_power_levels = False, extra_redaction_checks = False,
     allow_knocking = False, restricted_join_rules = False \<rparr>"

definition VERSION2 :: room_version where
  "VERSION2 = VERSION1 \<lparr> rv_version := V2, state_res := SRV2 \<rparr>"

definition VERSION3 :: room_version where
  "VERSION3 = VERSION2 \<lparr> rv_version := V3, event_format := EFV2, extra_redaction_checks := True \<rparr>"

definition VERSION4 :: room_version where
  "VERSION4 = VERSION3 \<lparr> rv_version := V4, event_format := EFV3 \<rparr>"

definition VERSION5 :: room_version where
  "VERSION5 = VERSION4 \<lparr> rv_version := V5, enforce_key_validity := True \<rparr>"

definition VERSION6 :: room_version where
  "VERSION6 = VERSION5 \<lparr> rv_version := V5, special_case_aliases_auth := False,
     strict_canonicaljson := True, limit_notifications_power_levels := True \<rparr>"

definition room_version_new :: "room_version_id \<Rightarrow> (room_version, sr_error) result" where
  "room_version_new v =
     (case v of
        V1 \<Rightarrow> Ok VERSION1 | V2 \<Rightarrow> Ok VERSION2 | V3 \<Rightarrow> Ok VERSION3
      | V4 \<Rightarrow> Ok VERSION4 | V5 \<Rightarrow> Ok VERSION5 | V6 \<Rightarrow> Ok VERSION6
      | ver \<Rightarrow> Err (Unsupported (''found version `'' @ room_version_as_str ver @ ''`'')))"

section \<open>Auth types\<close>

definition push_new :: "'a \<Rightarrow> 'a list \<Rightarrow> 'a list" where
  "push_new k ks = (if k \<in> set ks then ks else ks @ [k])"

definition auth_types_for_event ::
    "(nat \<Rightarrow> bool) \<Rightarrow> event_type \<Rightarrow> string \<Rightarrow> string option \<Rightarrow> content \<Rightarrow> (event_type \<times> string) list" where
  "auth_types_for_event uni kind sender state_key content =
     (if kind = ''m.room.create'' then []
      else
        (let auth_types = [(''m.room.power_levels'', []), (''m.room.member'', sender), (''m.room.create'', [])]
         in if kind = ''m.room.member'' then
              (case state_key of
                 None \<Rightarrow> auth_types
               | Some state_key \<Rightarrow>
                   (case Option.bind (raw_opt content ''membership'') de_membership of
                      None \<Rightarrow> auth_types
                    | Some ms \<Rightarrow>
                        (let a1 = (if ms \<in> {Join, Invite}
                                   then push_new (''m.room.join_rules'', []) auth_types else auth_types);
                             a2 = push_new (''m.room.member'', state_key) a1
                         in if ms = Invite then
                              (case Option.bind (raw_opt content ''third_party_invite'')
                                      (de_third_party_invite uni) of
                                 Some t_id \<Rightarrow> push_new (''m.room.third_party_invite'', token (signed t_id)) a2
                               | None \<Rightarrow> a2)
                            else a2)))
            else auth_types))"

section \<open>Membership changes\<close>

definition verify_third_party_invite ::
    "string option \<Rightarrow> string \<Rightarrow> third_party_invite \<Rightarrow> event option \<Rightarrow> bool" where
  "verify_third_party_invite target_user sender tp_id current_third_party_invite =
     (if target_user \<noteq> Some (mxid (signed tp_id)) then False
      else case current_third_party_invite of
             None \<Rightarrow> False
           | Some current_tpid \<Rightarrow>
               if ev_state_key current_tpid \<noteq> Some (token (signed tp_id)) then False
               else if sender \<noteq> ev_sender current_tpid then False
               else case de_third_party_invite_content (ev_content current_tpid) of
                      None \<Rightarrow> False
                    | Some tpid_ev \<Rightarrow>
                        list_ex (\<lambda>key. key = token (signed tp_id))
                          (case public_keys tpid_ev of Some ks \<Rightarrow> ks | None \<Rightarrow> [])
                        \<or> public_key tpid_ev = token (signed tp_id))"

text \<open>\<open>Option<&Int>\<close> is ordered with \<open>None\<close> first.\<close>

fun opt_less :: "int option \<Rightarrow> int option \<Rightarrow> bool" where
  "opt_less None None = False"
| "opt_less None (Some b) = True"
| "opt_less (Some a) None = False"
| "opt_less (Some a) (Some b) = (a < b)"

definition get_membership :: "event option \<Rightarrow> (membership_state, sr_error) result" where
  "get_membership ev =
     (case ev of
        Some pdu \<Rightarrow> serde (de_req de_membership (ev_content pdu) ''membership'')
      | None \<Rightarrow> Ok Leave)"

definition get_power_levels :: "event option \<Rightarrow> (power_levels, sr_error) result" where
  "get_power_levels ev =
     (case ev of Some e \<Rightarrow> serde (de_power_levels (ev_content e)) | None \<Rightarrow> Ok power_levels_new)"

definition get_join_rule :: "event option \<Rightarrow> (join_rule, sr_error) result" where
  "get_join_rule ev =
     (case ev of Some e \<Rightarrow> serde (de_join_rules_content (ev_content e)) | None \<Rightarrow> Ok JRInvite)"

text \<open>The \<open>match target_membership\<close> at the end of \<open>valid_membership_change\<close>.\<close>

definition membership_allowed ::
    "string \<Rightarrow> string \<Rightarrow> membership_state \<Rightarrow> membership_state \<Rightarrow> bool \<Rightarrow> int option \<Rightarrow> int option
      \<Rightarrow> power_levels \<Rightarrow> join_rule \<Rightarrow> third_party_invite option \<Rightarrow> event option \<Rightarrow> bool" where
  "membership_allowed target_user sender target_membership current sender_is_joined sender_power
     target_power power_levels join_rules tpi current_third_party_invite =
     (case target_membership of
        Join \<Rightarrow>
          if sender \<noteq> target_user then False
          else if current = Ban then False
          else join_rules = JRInvite \<and> (current = Join \<or> current = Invite) \<or> join_rules = JRPublic
      | Invite \<Rightarrow>
          (case tpi of
             Some tp_id \<Rightarrow>
               if current = Ban then False
               else verify_third_party_invite (Some target_user) sender tp_id current_third_party_invite
           | None \<Rightarrow>
               if \<not> sender_is_joined \<or> current = Join \<or> current = Ban then False
               else (case sender_power of Some p \<Rightarrow> p \<ge> invite power_levels | None \<Rightarrow> False))
      | Leave \<Rightarrow>
          if sender = target_user then current = Join \<or> current = Invite
          else if \<not> sender_is_joined
            \<or> current = Ban \<and> (case sender_power of Some p \<Rightarrow> p < ban power_levels | None \<Rightarrow> False)
          then False
          else (case sender_power of Some p \<Rightarrow> p \<ge> kick power_levels | None \<Rightarrow> False)
            \<and> opt_less target_power sender_power
      | Ban \<Rightarrow>
          if \<not> sender_is_joined then False
          else (case sender_power of Some p \<Rightarrow> p \<ge> ban power_levels | None \<Rightarrow> False)
            \<and> opt_less target_power sender_power
      | _ \<Rightarrow> False)"

definition valid_membership_change ::
    "(nat \<Rightarrow> bool) \<Rightarrow> string \<Rightarrow> event option \<Rightarrow> string \<Rightarrow> event option \<Rightarrow> content \<Rightarrow> event option
      \<Rightarrow> event option \<Rightarrow> event option \<Rightarrow> event option \<Rightarrow> (bool, sr_error) result" where
  "valid_membership_change uni target_user target_user_membership_event sender sender_membership_event
     content prev_event current_third_party_invite power_levels_event join_rules_event =
     and_then (serde (de_req de_membership content ''membership'')) (\<lambda>target_membership.
     and_then (get_membership sender_membership_event) (\<lambda>sender_membership.
     and_then (get_membership target_user_membership_event) (\<lambda>current.
     and_then (get_power_levels power_levels_event) (\<lambda>pls.
     let sender_is_joined = (sender_membership = Join);
         sender_power = (case bt_get (users pls) sender of
           Some l \<Rightarrow> Some l | None \<Rightarrow> if sender_is_joined then Some (users_default pls) else None);
         target_power = (case bt_get (users pls) target_user of
           Some l \<Rightarrow> Some l
         | None \<Rightarrow> if target_membership = Join then Some (users_default pls) else None)
     in and_then (get_join_rule join_rules_event) (\<lambda>join_rules.
        if (case prev_event of Some prev \<Rightarrow> ev_type prev = ''m.room.create'' \<and> ev_prev prev = []
            | None \<Rightarrow> False)
        then Ok True
        else Ok (membership_allowed target_user sender target_membership current sender_is_joined
               sender_power target_power pls join_rules
               (Option.bind (raw_opt content ''third_party_invite'') (de_third_party_invite uni))
               current_third_party_invite))))))"

section \<open>Power levels and redactions\<close>

definition get_send_level :: "event_type \<Rightarrow> string option \<Rightarrow> event option \<Rightarrow> int" where
  "get_send_level e_type state_key power_lvl =
     (case Option.bind power_lvl (\<lambda>ple. de_power_levels (ev_content ple)) of
        Some pls \<Rightarrow>
          (case bt_get (events pls) e_type of
             Some l \<Rightarrow> l
           | None \<Rightarrow> if state_key \<noteq> None then state_default pls else events_default pls)
      | None \<Rightarrow> if state_key \<noteq> None then 50 else 0)"

definition can_send_event :: "event \<Rightarrow> event option \<Rightarrow> int \<Rightarrow> bool" where
  "can_send_event ev ple user_level =
     (if user_level < get_send_level (ev_type ev) (ev_state_key ev) ple then False
      else if (case ev_state_key ev of Some k \<Rightarrow> starts_with ''@'' k | None \<Rightarrow> False)
        \<and> ev_state_key ev \<noteq> Some (ev_sender ev)
      then False else True)"

fun exceeds :: "int option \<Rightarrow> int \<Rightarrow> bool" where
  "exceeds None user_level = False"
| "exceeds (Some l) user_level = (user_level < l)"

text \<open>The keys of two maps collected in a \<^verbatim>\<open>BTreeSet\<close>.\<close>

definition keys_to_check :: "('k::linorder, 'v) btree \<Rightarrow> ('k, 'v) btree \<Rightarrow> 'k list" where
  "keys_to_check old new = bt_keys (bt_of_list (map (\<lambda>k. (k, ())) (bt_keys old @ bt_keys new)))"

definition unchanged :: "int option \<Rightarrow> int option \<Rightarrow> bool" where
  "unchanged old new \<longleftrightarrow> old \<noteq> None \<and> new \<noteq> None \<and> old = new"

definition user_level_ok :: "string \<Rightarrow> int \<Rightarrow> power_levels \<Rightarrow> power_levels \<Rightarrow> string \<Rightarrow> bool" where
  "user_level_ok sender user_level old_state new_state user =
     (let old_level = bt_get (users old_state) user; new_level = bt_get (users new_state) user
      in if unchanged old_level new_level then True
         else if user \<noteq> sender \<and> old_level = Some user_level then False
         else \<not> (exceeds old_level user_level \<or> exceeds new_level user_level))"

definition event_level_ok :: "int \<Rightarrow> power_levels \<Rightarrow> power_levels \<Rightarrow> event_type \<Rightarrow> bool" where
  "event_level_ok user_level old_state new_state t =
     (let old_level = bt_get (events old_state) t; new_level = bt_get (events new_state) t
      in if unchanged old_level new_level then True
         else \<not> (exceeds old_level user_level \<or> exceeds new_level user_level))"

definition get_deserialize_levels :: "content \<Rightarrow> content \<Rightarrow> string \<Rightarrow> (int \<times> int) option" where
  "get_deserialize_levels old new name =
     Option.bind (Option.bind (map_of old name) de_int) (\<lambda>o'.
     Option.bind (Option.bind (map_of new name) de_int) (\<lambda>n. Some (o', n)))"

definition LEVEL_NAMES :: "string list" where
  "LEVEL_NAMES = [''users_default'', ''events_default'', ''state_default'', ''ban'', ''redact'',
     ''kick'', ''invite'']"

definition named_level_ok :: "int \<Rightarrow> content \<Rightarrow> content \<Rightarrow> string \<Rightarrow> bool" where
  "named_level_ok user_level old new name =
     (case get_deserialize_levels old new name of
        Some (old_lvl, new_lvl) \<Rightarrow> \<not> (old_lvl > user_level \<or> new_lvl > user_level)
      | None \<Rightarrow> True)"

text \<open>\<open>check_power_levels\<close>; the two \<open>unwrap\<close>s of the contents are the \<open>Panic\<close>s.\<close>

definition check_power_levels ::
    "room_version \<Rightarrow> event \<Rightarrow> event option \<Rightarrow> int \<Rightarrow> (bool option, sr_error) result" where
  "check_power_levels rv power_event previous_power_event user_level =
     (case ev_state_key power_event of
        None \<Rightarrow> Ok None
      | Some k \<Rightarrow>
          if k \<noteq> [] then Ok None
          else case previous_power_event of
            None \<Rightarrow> Ok (Some True)
          | Some current_state \<Rightarrow>
              and_then (unwrap (de_power_levels (ev_content power_event))) (\<lambda>new_state.
              and_then (unwrap (de_power_levels (ev_content current_state))) (\<lambda>old_state.
              if \<not> list_all (user_level_ok (ev_sender power_event) user_level old_state new_state)
                     (keys_to_check (users old_state) (users new_state))
              then Ok (Some False)
              else if \<not> list_all (event_level_ok user_level old_state new_state)
                     (keys_to_check (events old_state) (events new_state))
              then Ok (Some False)
              else if limit_notifications_power_levels rv
                \<and> notifications_room old_state \<noteq> notifications_room new_state
                \<and> (notifications_room old_state > user_level \<or> notifications_room new_state > user_level)
              then Ok (Some False)
              else if \<not> list_all (named_level_ok user_level (ser_power_levels old_state)
                                   (ser_power_levels new_state)) LEVEL_NAMES
              then Ok (Some False)
              else Ok (Some True))))"

definition check_redaction :: "room_version \<Rightarrow> event \<Rightarrow> int \<Rightarrow> int \<Rightarrow> (bool, sr_error) result" where
  "check_redaction rv redaction_event user_level redact_lvl =
     (if user_level \<ge> redact_lvl then Ok True
      else and_then (total (event_id_server_name (ev_id redaction_event))) (\<lambda>own.
           and_then (case ev_redacts redaction_event of
                       None \<Rightarrow> Ok None
                     | Some r \<Rightarrow> total (event_id_server_name r)) (\<lambda>other.
           Ok (own = other))))"

section \<open>The authorization check\<close>

definition check_create :: "event \<Rightarrow> (bool, sr_error) result" where
  "check_create incoming =
     (if ev_prev incoming \<noteq> [] then Ok False
      else and_then (total (room_id_server_name (ev_room incoming))) (\<lambda>room_server.
           and_then (total (user_id_server_name (ev_sender incoming))) (\<lambda>sender_server.
           if room_server \<noteq> sender_server then Ok False
           else if (case raw_opt (ev_content incoming) ''room_version'' of
                      Some v \<Rightarrow> de_room_version v = None | None \<Rightarrow> False) then Ok False
           else if raw_opt (ev_content incoming) ''creator'' = None then Ok False
           else Ok True)))"

definition check_aliases :: "event \<Rightarrow> (bool, sr_error) result" where
  "check_aliases incoming =
     and_then (total (user_id_server_name (ev_sender incoming))) (\<lambda>sv.
       Ok (ev_state_key incoming = Some sv))"

definition check_member ::
    "(nat \<Rightarrow> bool) \<Rightarrow> event \<Rightarrow> event option \<Rightarrow> event option
      \<Rightarrow> (event_type \<Rightarrow> string \<Rightarrow> event option) \<Rightarrow> (bool, sr_error) result" where
  "check_member uni incoming prev_event current_third_party_invite fetch_state =
     (case ev_state_key incoming of
        None \<Rightarrow> Ok False
      | Some state_key \<Rightarrow>
          if Option.bind (raw_opt (ev_content incoming) ''membership'') de_membership = None then Ok False
          else and_then (map_err (\<lambda>_. InvalidPdu state_key) (parse_validated user_id_validate state_key))
            (\<lambda>target_user.
             valid_membership_change uni target_user (fetch_state ''m.room.member'' target_user)
               (ev_sender incoming) (fetch_state ''m.room.member'' (ev_sender incoming))
               (ev_content incoming) prev_event current_third_party_invite
               (fetch_state ''m.room.power_levels'' []) (fetch_state ''m.room.join_rules'' [])))"

text \<open>\<open>.expect("we should test before that this field exists").deserialize()?\<close>\<close>

definition sender_membership :: "event \<Rightarrow> (membership_state, sr_error) result" where
  "sender_membership ev =
     and_then (unwrap (raw_opt (ev_content ev) ''membership'')) (\<lambda>m. serde (de_membership m))"

text \<open>\<open>PowerLevelsContentFields\<close> of \<^verbatim>\<open>lib.rs\<close>: the users and their default.\<close>

definition de_power_levels_fields :: "content \<Rightarrow> ((string, int) btree \<times> int) option" where
  "de_power_levels_fields m =
     Option.bind (de_default [] (de_btree de_user_id de_int) m ''users'') (\<lambda>us.
     Option.bind (de_default 0 de_int m ''users_default'') (\<lambda>ud. Some (us, ud)))"

definition sender_power_level :: "event option \<Rightarrow> event option \<Rightarrow> string \<Rightarrow> int" where
  "sender_power_level power_levels_event room_create_event sender =
     (case power_levels_event of
        Some pl \<Rightarrow>
          (case de_power_levels_fields (ev_content pl) of
             Some (us, ud) \<Rightarrow> (case bt_get us sender of Some level \<Rightarrow> level | None \<Rightarrow> ud)
           | None \<Rightarrow> 0)
      | None \<Rightarrow>
          (case Option.bind room_create_event (\<lambda>c. de_create_content (ev_content c)) of
             Some create \<Rightarrow> if creator create = sender then 100 else 0
           | None \<Rightarrow> 0))"

definition invite_level :: "event option \<Rightarrow> (int, sr_error) result" where
  "invite_level power_levels_event =
     (case power_levels_event of
        Some pl \<Rightarrow> serde (de_req de_int (ev_content pl) ''invite'')
      | None \<Rightarrow> Ok 50)"

definition auth_check ::
    "(nat \<Rightarrow> bool) \<Rightarrow> room_version \<Rightarrow> event \<Rightarrow> event option \<Rightarrow> event option
      \<Rightarrow> (event_type \<Rightarrow> string \<Rightarrow> event option) \<Rightarrow> (bool, sr_error) result" where
  "auth_check uni rv incoming prev_event current_third_party_invite fetch_state =
     (let sender = ev_sender incoming in
      if ev_type incoming = ''m.room.create'' then check_create incoming
      else
        (let room_create_event = fetch_state ''m.room.create'' [] in
         if room_create_event = None then Ok False
         else if ev_type incoming = ''m.room.aliases'' \<and> special_case_aliases_auth rv
         then check_aliases incoming
         else
           (let power_levels_event = fetch_state ''m.room.power_levels'' [];
                sender_member_event = fetch_state ''m.room.member'' sender
            in if ev_type incoming = ''m.room.member'' then
                 check_member uni incoming prev_event current_third_party_invite fetch_state
               else
                 (case sender_member_event of
                    None \<Rightarrow> Ok False
                  | Some mem \<Rightarrow>
                      and_then (sender_membership mem) (\<lambda>membership_st.
                      if membership_st \<noteq> Join then Ok False
                      else
                        (let level = sender_power_level power_levels_event room_create_event sender
                         in and_then
                              (if ev_type incoming = ''m.room.third_party_invite''
                               then and_then (invite_level power_levels_event) (\<lambda>l. Ok (level \<ge> l))
                               else Ok True) (\<lambda>may_invite.
                            if \<not> may_invite then Ok False
                            else if \<not> can_send_event incoming power_levels_event level then Ok False
                            else and_then
                              (if ev_type incoming = ''m.room.power_levels''
                               then and_then (check_power_levels rv incoming power_levels_event level)
                                      (\<lambda>r. Ok (r = Some True))
                               else Ok True) (\<lambda>levels_ok.
                            if \<not> levels_ok then Ok False
                            else if extra_redaction_checks rv \<and> ev_type incoming = ''m.room.redaction''
                            then check_redaction rv incoming level
                                   (case Option.bind power_levels_event
                                          (\<lambda>pl. de_req de_int (ev_content pl) ''redact'') of
                                      Some l \<Rightarrow> l | None \<Rightarrow> 50)
                            else Ok True))))))))"

section \<open>The membership rules as a transition relation\<close>

text \<open>The authorization rules of the Matrix specification for membership events, over facts of the room: \<open>may_change\<close> lists
  the transitions of the target's membership that an event of the sender may make.  Every member of the room has a power
  level (\<open>power_of\<close>).  \<open>proof_ok\<close> is the check of a third party invite against the keys of its
  \<^verbatim>\<open>m.room.third_party_invite\<close> event, which the specification does by signatures.  The relation does not mention the
  functions above.\<close>

record room_facts =
  rf_target :: string
  rf_sender :: string
  rf_joined :: bool
  rf_levels :: power_levels
  rf_join_rule :: join_rule
  rf_third_party :: "json option"
  rf_invitation :: "third_party_invite option"
  rf_invite_event :: "event option"

definition power_of :: "power_levels \<Rightarrow> string \<Rightarrow> int" where
  "power_of pls u = (case bt_get (users pls) u of Some l \<Rightarrow> l | None \<Rightarrow> users_default pls)"

abbreviation sender_level :: "room_facts \<Rightarrow> int" where
  "sender_level c \<equiv> power_of (rf_levels c) (rf_sender c)"

abbreviation target_level :: "room_facts \<Rightarrow> int" where
  "target_level c \<equiv> power_of (rf_levels c) (rf_target c)"

inductive may_change ::
    "(third_party_invite \<Rightarrow> third_party_invite_content \<Rightarrow> bool) \<Rightarrow> room_facts \<Rightarrow> membership_state \<Rightarrow> membership_state \<Rightarrow> bool"
  for proof_ok c old where
  join_public: "may_change proof_ok c old Join"
    if "rf_sender c = rf_target c" "rf_join_rule c = JRPublic" "old \<noteq> Ban"
| join_invited: "may_change proof_ok c old Join"
    if "rf_sender c = rf_target c" "rf_join_rule c = JRInvite" "old = Invite \<or> old = Join"
| invite_third_party: "may_change proof_ok c old Invite"
    if "rf_invitation c = Some t" "old \<noteq> Ban" "mxid (signed t) = rf_target c" "rf_invite_event c = Some e"
      "ev_state_key e = Some (token (signed t))" "ev_sender e = rf_sender c"
      "de_third_party_invite_content (ev_content e) = Some keys" "proof_ok t keys"
| invite_member: "may_change proof_ok c old Invite"
    if "rf_third_party c = None" "rf_joined c" "old \<noteq> Join" "old \<noteq> Ban" "invite (rf_levels c) \<le> sender_level c"
| leave_room: "may_change proof_ok c old Leave"
    if "rf_sender c = rf_target c" "old = Join \<or> old = Invite"
| unban_user: "may_change proof_ok c old Leave"
    if "old = Ban" "rf_sender c \<noteq> rf_target c" "rf_joined c" "ban (rf_levels c) \<le> sender_level c"
      "kick (rf_levels c) \<le> sender_level c" "target_level c < sender_level c"
| kick_user: "may_change proof_ok c old Leave"
    if "old \<noteq> Ban" "rf_sender c \<noteq> rf_target c" "rf_joined c" "kick (rf_levels c) \<le> sender_level c"
      "target_level c < sender_level c"
| ban_user: "may_change proof_ok c old Ban"
    if "rf_joined c" "ban (rf_levels c) \<le> sender_level c" "target_level c < sender_level c"

text \<open>What the code accepts beyond the rules: a user that the levels do not list can be kicked and banned by a member whose
  level is no higher than that user's default level, and data for a third party invite that does not decode is ignored.\<close>

inductive overlooked :: "room_facts \<Rightarrow> membership_state \<Rightarrow> membership_state \<Rightarrow> bool" for c old where
  unlisted_kick: "overlooked c old Leave"
    if "bt_get (users (rf_levels c)) (rf_target c) = None" "sender_level c \<le> users_default (rf_levels c)"
      "rf_sender c \<noteq> rf_target c" "rf_joined c" "kick (rf_levels c) \<le> sender_level c"
      "old = Ban \<longrightarrow> ban (rf_levels c) \<le> sender_level c"
| unlisted_ban: "overlooked c old Ban"
    if "bt_get (users (rf_levels c)) (rf_target c) = None" "sender_level c \<le> users_default (rf_levels c)"
      "rf_joined c" "ban (rf_levels c) \<le> sender_level c"
| undecoded_invite: "overlooked c old Invite"
    if "rf_third_party c \<noteq> None" "rf_invitation c = None" "rf_joined c" "old \<noteq> Join" "old \<noteq> Ban"
      "invite (rf_levels c) \<le> sender_level c"

text \<open>The code compares the token itself with the keys, where the specification verifies signatures.\<close>

definition token_is_key :: "third_party_invite \<Rightarrow> third_party_invite_content \<Rightarrow> bool" where
  "token_is_key t keys \<longleftrightarrow> token (signed t) = public_key keys
     \<or> (\<exists>ks. public_keys keys = Some ks \<and> token (signed t) \<in> set ks)"

text \<open>The event follows the first event of the room.\<close>

definition follows_create :: "event option \<Rightarrow> bool" where
  "follows_create prev_event \<longleftrightarrow> (\<exists>prev. prev_event = Some prev \<and> ev_type prev = ''m.room.create'' \<and> ev_prev prev = [])"

inductive_simps may_join_simps: "may_change proof_ok c old Join"
inductive_simps may_invite_simps: "may_change proof_ok c old Invite"
inductive_simps may_leave_simps: "may_change proof_ok c old Leave"
inductive_simps may_ban_simps: "may_change proof_ok c old Ban"
inductive_simps may_other_simps: "may_change proof_ok c old Knock" "may_change proof_ok c old (MCustom x)"
inductive_simps overlooked_simps: "overlooked c old Join" "overlooked c old Invite" "overlooked c old Leave"
  "overlooked c old Ban" "overlooked c old Knock" "overlooked c old (MCustom x)"

lemmas may_change_simps = may_join_simps may_invite_simps may_leave_simps may_ban_simps may_other_simps overlooked_simps

lemma verify_third_party_iff:
  "verify_third_party_invite (Some target) sender t ev \<longleftrightarrow> mxid (signed t) = target \<and>
     (\<exists>e keys. ev = Some e \<and> ev_state_key e = Some (token (signed t)) \<and> ev_sender e = sender \<and>
        de_third_party_invite_content (ev_content e) = Some keys \<and> token_is_key t keys)"
  by (auto simp: verify_third_party_invite_def token_is_key_def list_ex_iff split: option.splits)

text \<open>The levels as the code reads them from \<open>users\<close>.\<close>

definition listed_level :: "power_levels \<Rightarrow> bool \<Rightarrow> string \<Rightarrow> int option" where
  "listed_level pls by_default u =
     (case bt_get (users pls) u of Some l \<Rightarrow> Some l | None \<Rightarrow> if by_default then Some (users_default pls) else None)"

lemma listed_level_default: "listed_level pls True u = Some (power_of pls u)"
  by (simp add: listed_level_def power_of_def split: option.split)

lemma target_below:
  "opt_less (listed_level pls False u) (Some l) \<longleftrightarrow> bt_get (users pls) u = None \<or> power_of pls u < l"
  by (simp add: listed_level_def power_of_def split: option.split)

lemma allowed_iff:
  assumes "rf_invitation c = None \<or> rf_third_party c \<noteq> None"
  shows "membership_allowed (rf_target c) (rf_sender c) new old (rf_joined c)
      (listed_level (rf_levels c) (rf_joined c) (rf_sender c)) (listed_level (rf_levels c) (new = Join) (rf_target c))
      (rf_levels c) (rf_join_rule c) (rf_invitation c) (rf_invite_event c)
    \<longleftrightarrow> may_change token_is_key c old new \<or> overlooked c old new"
proof (cases new)
  case Join
  then show ?thesis by (auto simp: membership_allowed_def may_change_simps)
next
  case Invite
  then show ?thesis using assms
    by (cases "rf_joined c"; cases "rf_invitation c")
       (auto simp: membership_allowed_def may_change_simps listed_level_default verify_third_party_iff)
next
  case Leave
  have "users_default (rf_levels c) = target_level c" if "bt_get (users (rf_levels c)) (rf_target c) = None"
    using that by (simp add: power_of_def)
  then show ?thesis
    by (cases "rf_joined c")
       (auto simp: Leave membership_allowed_def may_change_simps listed_level_default target_below)
next
  case Ban
  have "users_default (rf_levels c) = target_level c" if "bt_get (users (rf_levels c)) (rf_target c) = None"
    using that by (simp add: power_of_def)
  then show ?thesis
    by (cases "rf_joined c")
       (auto simp: Ban membership_allowed_def may_change_simps listed_level_default target_below)
qed (simp_all add: membership_allowed_def may_change_simps)

text \<open>The facts that \<open>valid_membership_change\<close> has from the events of the state and from the content of the event.\<close>

definition facts_of ::
    "(nat \<Rightarrow> bool) \<Rightarrow> string \<Rightarrow> string \<Rightarrow> membership_state \<Rightarrow> power_levels \<Rightarrow> join_rule \<Rightarrow> content \<Rightarrow> event option
      \<Rightarrow> room_facts" where
  "facts_of uni target sender sender_ms pls jr content tpi_event =
     \<lparr> rf_target = target, rf_sender = sender, rf_joined = (sender_ms = Join), rf_levels = pls, rf_join_rule = jr,
       rf_third_party = raw_opt content ''third_party_invite'',
       rf_invitation = Option.bind (raw_opt content ''third_party_invite'') (de_third_party_invite uni),
       rf_invite_event = tpi_event \<rparr>"

lemma valid_membership_change_eq:
  assumes "de_req de_membership content ''membership'' = Some new"
    and "get_membership sender_ev = Ok sender_ms" "get_membership target_ev = Ok old"
    and "get_power_levels pl_ev = Ok pls" "get_join_rule jr_ev = Ok jr"
  shows "valid_membership_change uni target target_ev sender sender_ev content prev_event tpi_ev pl_ev jr_ev
    = Ok (follows_create prev_event \<or>
        membership_allowed target sender new old (sender_ms = Join) (listed_level pls (sender_ms = Join) sender)
          (listed_level pls (new = Join) target) pls jr
          (Option.bind (raw_opt content ''third_party_invite'') (de_third_party_invite uni)) tpi_ev)"
proof -
  have "(case prev_event of Some prev \<Rightarrow> ev_type prev = ''m.room.create'' \<and> ev_prev prev = []
            | None \<Rightarrow> False) = follows_create prev_event"
    by (simp add: follows_create_def split: option.split)
  then show ?thesis
    using assms by (simp add: valid_membership_change_def serde_def listed_level_def)
qed

section \<open>Lemmas on the authorization check\<close>

definition special_type :: "event_type \<Rightarrow> bool" where
  "special_type t \<longleftrightarrow> t \<in> {''m.room.create'', ''m.room.member''}"

lemma auth_check_general:
  assumes "\<not> special_type (ev_type e)" "\<not> (ev_type e = ''m.room.aliases'' \<and> special_case_aliases_auth rv)"
    and "auth_check uni rv e prev tpi fetch = Ok True"
  obtains create mem where "fetch ''m.room.create'' [] = Some create"
    "fetch ''m.room.member'' (ev_sender e) = Some mem" "sender_membership mem = Ok Join"
    "can_send_event e (fetch ''m.room.power_levels'' [])
       (sender_power_level (fetch ''m.room.power_levels'' []) (Some create) (ev_sender e))"
    "ev_type e = ''m.room.power_levels'' \<longrightarrow>
       check_power_levels rv e (fetch ''m.room.power_levels'' [])
         (sender_power_level (fetch ''m.room.power_levels'' []) (Some create) (ev_sender e)) = Ok (Some True)"
proof -
  have ty: "ev_type e \<noteq> ''m.room.create''" "ev_type e \<noteq> ''m.room.member''"
    using assms(1) by (auto simp: special_type_def)
  obtain create where c: "fetch ''m.room.create'' [] = Some create"
    using assms(3) ty by (cases "fetch ''m.room.create'' []") (auto simp: auth_check_def)
  obtain mem where m: "fetch ''m.room.member'' (ev_sender e) = Some mem"
    using assms(2,3) ty c
    by (cases "fetch ''m.room.member'' (ev_sender e)") (auto simp: auth_check_def Let_def)
  note unf = assms(3)[unfolded auth_check_def Let_def]
  have j: "sender_membership mem = Ok Join"
    using unf ty c m assms(2) by (auto simp: and_then_eq_Ok split: if_splits)
  let ?l = "sender_power_level (fetch ''m.room.power_levels'' []) (Some create) (ev_sender e)"
  have cs: "can_send_event e (fetch ''m.room.power_levels'' []) ?l"
    using unf ty c m j assms(2) by (auto simp: and_then_eq_Ok split: if_splits)
  have pl: "ev_type e = ''m.room.power_levels'' \<longrightarrow>
      check_power_levels rv e (fetch ''m.room.power_levels'' []) ?l = Ok (Some True)"
    using unf ty c m j assms(2) by (auto simp: and_then_eq_Ok split: if_splits)
  show ?thesis by (rule that[OF c m j cs pl])
qed

lemma can_send_event_iff:
  "can_send_event e ple l \<longleftrightarrow> get_send_level (ev_type e) (ev_state_key e) ple \<le> l \<and>
     (\<forall>k. ev_state_key e = Some k \<and> prefix ''@'' k \<longrightarrow> k = ev_sender e)"
  by (auto simp: can_send_event_def starts_with_iff not_less split: option.splits)

lemma set_keys_to_check: "set (keys_to_check old new) = set (bt_keys old) \<union> set (bt_keys new)"
proof -
  have "k \<in> set (keys_to_check old new) \<longleftrightarrow> bt_get (bt_of_list (map (\<lambda>k. (k, ())) (bt_keys old @ bt_keys new))) k \<noteq> None"
    for k by (simp add: keys_to_check_def map_of_eq_None_iff)
  then show ?thesis
    by (auto simp: bt_get_of_list map_of_eq_None_iff image_image)
qed

text \<open>\<open>may_set l old new\<close>: a sender of level \<open>l\<close> may replace the level \<open>old\<close> by \<open>new\<close>.\<close>

definition may_set :: "int \<Rightarrow> int option \<Rightarrow> int option \<Rightarrow> bool" where
  "may_set l old new \<longleftrightarrow> old = new \<or> (\<forall>x. old = Some x \<or> new = Some x \<longrightarrow> x \<le> l)"

lemma exceeds_iff: "exceeds o' l \<longleftrightarrow> (\<exists>x. o' = Some x \<and> l < x)"
  by (cases o') auto

lemma event_level_ok_iff:
  "event_level_ok l old new t \<longleftrightarrow> may_set l (bt_get (events old) t) (bt_get (events new) t)"
  by (cases "bt_get (events old) t"; cases "bt_get (events new) t")
     (auto simp: event_level_ok_def may_set_def unchanged_def)

lemma user_level_ok_iff:
  "user_level_ok sender l old new u \<longleftrightarrow>
     may_set l (bt_get (users old) u) (bt_get (users new) u) \<and>
     (u \<noteq> sender \<and> bt_get (users old) u = Some l \<longrightarrow> bt_get (users new) u = Some l)"
  by (cases "bt_get (users old) u"; cases "bt_get (users new) u")
     (auto simp: user_level_ok_def may_set_def unchanged_def Let_def)

lemma levels_absent: "k \<notin> set (keys_to_check a b) \<Longrightarrow> bt_get a k = None \<and> bt_get b k = None"
  by (auto simp: set_keys_to_check map_of_eq_None_iff)

lemma check_power_levels_TrueE:
  assumes "check_power_levels rv e (Some cur) l = Ok (Some True)"
  obtains new old where "de_power_levels (ev_content e) = Some new" "de_power_levels (ev_content cur) = Some old"
    "ev_state_key e = Some []"
    "list_all (user_level_ok (ev_sender e) l old new) (keys_to_check (users old) (users new))"
    "list_all (event_level_ok l old new) (keys_to_check (events old) (events new))"
    "limit_notifications_power_levels rv \<longrightarrow>
       may_set l (Some (notifications_room old)) (Some (notifications_room new))"
    "list_all (named_level_ok l (ser_power_levels old) (ser_power_levels new)) LEVEL_NAMES"
proof -
  have k: "ev_state_key e = Some []"
    using assms by (auto simp: check_power_levels_def split: option.splits if_splits)
  obtain new where n: "de_power_levels (ev_content e) = Some new"
    using assms k by (cases "de_power_levels (ev_content e)") (auto simp: check_power_levels_def)
  obtain old where o': "de_power_levels (ev_content cur) = Some old"
    using assms k n by (cases "de_power_levels (ev_content cur)") (auto simp: check_power_levels_def)
  show ?thesis
    by (rule that[OF n o' k])
       (use assms k n o' in \<open>auto simp: check_power_levels_def may_set_def split: if_splits\<close>)
qed

text \<open>Lookups in the serialized power levels.\<close>

definition level_of :: "power_levels \<Rightarrow> string \<Rightarrow> int" where
  "level_of p name =
     (if name = ''ban'' then ban p else if name = ''kick'' then kick p
      else if name = ''invite'' then invite p else if name = ''redact'' then redact_level p
      else if name = ''state_default'' then state_default p
      else if name = ''events_default'' then events_default p else users_default p)"

definition default_of :: "string \<Rightarrow> int" where
  "default_of name = (if name = ''events_default'' \<or> name = ''users_default'' then 0 else 50)"

lemma map_of_ser_unless: "map_of (ser_unless c k v) n = (if \<not> c \<and> n = k then Some v else None)"
  by (auto simp: ser_unless_def)

lemma rev_ser_unless: "rev (ser_unless c k v) = ser_unless c k v"
  by (auto simp: ser_unless_def)

lemma ser_power_levels_get:
  assumes "name \<in> set LEVEL_NAMES"
  shows "map_of (ser_power_levels p) name =
    (if level_of p name = default_of name then None else Some (ser_int (level_of p name)))"
  using assms unfolding ser_power_levels_def bt_get_of_list rev_append rev_ser_unless map_of_append
  by (auto simp: LEVEL_NAMES_def level_of_def default_of_def map_add_def map_of_ser_unless
      is_default_power_level_def)

lemma de_ser_int: "int_ok i \<Longrightarrow> de_int (ser_int i) = Some i"
  by (simp add: ser_int_def number_to_from)

definition levels_in_range :: "power_levels \<Rightarrow> bool" where
  "levels_in_range p \<longleftrightarrow> (\<forall>name\<in>set LEVEL_NAMES. int_ok (level_of p name))"

lemma named_level_ok_iff:
  assumes "levels_in_range old" "levels_in_range new" "name \<in> set LEVEL_NAMES"
  shows "named_level_ok l (ser_power_levels old) (ser_power_levels new) name \<longleftrightarrow>
    level_of old name = default_of name \<or> level_of new name = default_of name \<or>
    level_of old name \<le> l \<and> level_of new name \<le> l"
  using assms by (auto simp: named_level_ok_def get_deserialize_levels_def ser_power_levels_get
      levels_in_range_def de_ser_int)

text \<open>Decoded levels are in range.\<close>

lemma de_int_ok: "de_int v = Some i \<Longrightarrow> int_ok i"
  by (cases v) (auto simp: number_to_int_def and_then_eq_Ok ok_or_eq_Ok int_try_from_def
      split: result.splits if_splits)

lemma de_default_int_ok: "de_default d de_int m k = Some i \<Longrightarrow> int_ok d \<Longrightarrow> int_ok i"
  by (auto simp: de_default_def de_int_ok split: option.splits)

lemma de_power_levels_in_range:
  assumes "de_power_levels m = Some p"
  shows "levels_in_range p"
proof -
  have d: "int_ok default_power_level" "int_ok 0"
    by (simp_all add: int_ok_def INT_MAX_def default_power_level_def)
  note ok = de_default_int_ok[OF _ d(1)] de_default_int_ok[OF _ d(2)]
  obtain bn ev evd inv kk rd sd us ud nt where f:
    "de_default default_power_level de_int m ''ban'' = Some bn"
    "de_default 0 de_int m ''events_default'' = Some evd"
    "de_default default_power_level de_int m ''invite'' = Some inv"
    "de_default default_power_level de_int m ''kick'' = Some kk"
    "de_default default_power_level de_int m ''redact'' = Some rd"
    "de_default default_power_level de_int m ''state_default'' = Some sd"
    "de_default 0 de_int m ''users_default'' = Some ud"
    and p: "p = \<lparr> ban = bn, events = ev, events_default = evd, invite = inv, kick = kk,
      redact_level = rd, state_default = sd, users = us, users_default = ud, notifications_room = nt \<rparr>"
    using assms unfolding de_power_levels_def Option.bind_eq_Some_conv by blast
  have "int_ok bn" "int_ok evd" "int_ok inv" "int_ok kk" "int_ok rd" "int_ok sd" "int_ok ud"
    using f ok by blast+
  then show ?thesis by (simp add: levels_in_range_def level_of_def p)
qed

text \<open>What the check reads of the state.\<close>

lemma mem_push_new [simp]: "x \<in> set (push_new k ks) \<longleftrightarrow> x = k \<or> x \<in> set ks"
  by (auto simp: push_new_def)

lemma auth_types_base:
  assumes "kind \<noteq> ''m.room.create''"
  shows "(''m.room.power_levels'', []) \<in> set (auth_types_for_event uni kind s k c)"
    "(''m.room.member'', s) \<in> set (auth_types_for_event uni kind s k c)"
    "(''m.room.create'', []) \<in> set (auth_types_for_event uni kind s k c)"
  using assms by (auto simp: auth_types_for_event_def Let_def split: option.split)

lemma auth_types_target:
  "Option.bind (raw_opt c ''membership'') de_membership = Some m \<Longrightarrow>
     (''m.room.member'', t) \<in> set (auth_types_for_event uni ''m.room.member'' s (Some t) c)"
  by (auto simp: auth_types_for_event_def Let_def split: option.split)

lemma auth_types_join_rules:
  "Option.bind (raw_opt c ''membership'') de_membership = Some m \<Longrightarrow> m \<in> {Join, Invite} \<Longrightarrow>
     (''m.room.join_rules'', []) \<in> set (auth_types_for_event uni ''m.room.member'' s (Some t) c)"
  by (auto simp: auth_types_for_event_def Let_def split: option.split)

lemma membership_fields:
  "Option.bind (raw_opt c ''membership'') de_membership = Some m \<longleftrightarrow>
     de_req de_membership c ''membership'' = Some m"
  by (auto simp: raw_opt_def de_req_def de_membership_def split: option.splits)

lemma valid_membership_change_join_rules:
  assumes "get_join_rule a = Ok ja" "get_join_rule b = Ok jb"
    "\<forall>m. de_req de_membership c ''membership'' = Some m \<longrightarrow> m \<notin> {Join, Invite}"
  shows "valid_membership_change uni t te s se c prev tpi pl a = valid_membership_change uni t te s se c prev tpi pl b"
proof (cases "de_req de_membership c ''membership''")
  case (Some m)
  then have "membership_allowed t s m cur j sp tp pls ja x y = membership_allowed t s m cur j sp tp pls jb x y"
    for cur j sp tp pls x y
    using assms(3) by (simp add: membership_allowed_def split: membership_state.split)
  then show ?thesis using assms(1,2) Some
    by (simp add: valid_membership_change_def serde_def Let_def cong: if_cong)
qed (simp add: valid_membership_change_def serde_def)

lemma parse_validated_Ok: "parse_validated v s = Ok t \<Longrightarrow> t = s"
  by (auto simp: parse_validated_def and_then_eq_Ok)

lemma and_then_parse_validated:
  "F t = G t \<Longrightarrow> and_then (map_err h (parse_validated v t)) F = and_then (map_err h (parse_validated v t)) G"
  using parse_validated_Ok[of v t] by (cases "parse_validated v t") auto

text \<open>Where the check can panic.\<close>

lemma serde_neq_Panic [simp]: "serde v \<noteq> Panic"
  by (simp add: serde_def)

lemma user_server_Ok:
  assumes "user_id_validate s = Ok ()" "utf8 s"
  shows "\<exists>sv. total (user_id_server_name s) = Ok sv"
  using user_id.recompose[OF assms] by (auto simp: user_id_server_name_eq)

lemma room_server_Ok:
  assumes "room_id_validate s = Ok ()" "utf8 s"
  shows "\<exists>sv. total (room_id_server_name s) = Ok sv"
proof -
  have "room_id_server_name = id_server_name"
    by (simp add: fun_eq_iff room_id_server_name_def id_server_name_def)
  then show ?thesis using room_id.recompose[OF assms] by auto
qed

lemma event_server_neq_Panic: "utf8 s \<Longrightarrow> total (event_id_server_name s) \<noteq> Panic"
proof -
  assume u: "utf8 s"
  show ?thesis
  proof (cases "str_find (CHR '':'') s")
    case (Some i)
    then obtain a b where "s = a @ CHR '':'' # b" "i = length a" by (rule str_find_splitE)
    then show ?thesis using utf8_boundary_after[of a b] u Some
      by (simp add: event_id_server_name_def slice_from_def del: utf8.simps)
  qed (simp add: event_id_server_name_def)
qed

lemma get_membership_neq_Panic [simp]: "get_membership e \<noteq> Panic"
  by (simp add: get_membership_def split: option.split)

lemma get_power_levels_neq_Panic [simp]: "get_power_levels e \<noteq> Panic"
  by (simp add: get_power_levels_def split: option.split)

lemma get_join_rule_neq_Panic [simp]: "get_join_rule e \<noteq> Panic"
  by (simp add: get_join_rule_def split: option.split)

lemma valid_membership_change_neq_Panic: "valid_membership_change uni t te s se c prev tpi pl jr \<noteq> Panic"
  by (simp add: valid_membership_change_def and_then_eq_Panic Let_def)

lemma check_member_neq_Panic: "check_member uni e prev tpi f \<noteq> Panic"
proof (cases "ev_state_key e")
  case (Some t)
  have "map_err (\<lambda>_. InvalidPdu t) (parse_validated user_id_validate t) \<noteq> Panic"
    using user_id_validate_neq_Panic[of t]
    by (cases "user_id_validate t") (simp_all add: parse_validated_def)
  then show ?thesis using Some
    by (simp add: check_member_def and_then_eq_Panic valid_membership_change_neq_Panic)
qed (simp add: check_member_def)

lemma check_power_levels_neq_Panic:
  "de_power_levels (ev_content e) \<noteq> None \<Longrightarrow> \<forall>c. cur = Some c \<longrightarrow> de_power_levels (ev_content c) \<noteq> None \<Longrightarrow>
     check_power_levels rv e cur l \<noteq> Panic"
  by (auto simp: check_power_levels_def split: option.split if_splits)

text \<open>\<open>event_wf\<close>: the typed fields of the event hold valid identifiers.\<close>

definition event_wf :: "event \<Rightarrow> bool" where
  "event_wf e \<longleftrightarrow> user_id_validate (ev_sender e) = Ok () \<and> utf8 (ev_sender e) \<and>
     room_id_validate (ev_room e) = Ok () \<and> utf8 (ev_room e) \<and> utf8 (ev_id e) \<and>
     (\<forall>r. ev_redacts e = Some r \<longrightarrow> utf8 r)"

lemma check_redaction_neq_Panic:
  assumes "event_wf e"
  shows "check_redaction rv e l r \<noteq> Panic"
proof -
  have "total (event_id_server_name (ev_id e)) \<noteq> Panic"
    using assms event_server_neq_Panic by (simp add: event_wf_def)
  moreover have "(case ev_redacts e of None \<Rightarrow> Ok None | Some r \<Rightarrow> total (event_id_server_name r)) \<noteq> Panic"
    using assms event_server_neq_Panic by (auto simp: event_wf_def split: option.split)
  ultimately show ?thesis by (simp add: check_redaction_def and_then_eq_Panic)
qed

lemma auth_check_no_panic_general:
  assumes "event_wf e"
    and "\<And>mem. fetch ''m.room.member'' (ev_sender e) = Some mem \<Longrightarrow> raw_opt (ev_content mem) ''membership'' \<noteq> None"
    and "ev_type e = ''m.room.power_levels'' \<Longrightarrow> de_power_levels (ev_content e) \<noteq> None"
    and "\<And>pl. ev_type e = ''m.room.power_levels'' \<Longrightarrow> fetch ''m.room.power_levels'' [] = Some pl \<Longrightarrow>
      de_power_levels (ev_content pl) \<noteq> None"
  shows "auth_check uni rv e prev tpi fetch \<noteq> Panic"
proof -
  obtain rs ss where srv: "total (room_id_server_name (ev_room e)) = Ok rs"
    "total (user_id_server_name (ev_sender e)) = Ok ss"
    using assms(1) room_server_Ok user_server_Ok unfolding event_wf_def by blast
  have create: "check_create e \<noteq> Panic" by (simp add: check_create_def srv)
  have aliases: "check_aliases e \<noteq> Panic" by (simp add: check_aliases_def srv)
  have sm: "sender_membership mem \<noteq> Panic" if "fetch ''m.room.member'' (ev_sender e) = Some mem" for mem
    using assms(2)[OF that] by (auto simp: sender_membership_def and_then_eq_Panic)
  have cpl: "check_power_levels rv e (fetch ''m.room.power_levels'' []) l \<noteq> Panic"
    if "ev_type e = ''m.room.power_levels''" for l
    using assms(3,4) that by (intro check_power_levels_neq_Panic) auto
  have inv: "invite_level pl \<noteq> Panic" for pl by (simp add: invite_level_def split: option.split)
  show ?thesis
    unfolding auth_check_def Let_def
    using create aliases check_member_neq_Panic[of uni e prev tpi fetch] sm cpl inv
      check_redaction_neq_Panic[OF assms(1)]
    by (cases "fetch ''m.room.member'' (ev_sender e)") (auto simp: and_then_eq_Panic split: if_splits)
qed

section \<open>Properties\<close>

text \<open>C5. The decision on a membership event, when the state events decode: \<open>valid_membership_change\<close> accepts exactly the
  transitions of the target's membership that the rules of the specification (\<open>may_change\<close>) allow and these more: every
  event that follows the creation of the room, the kick or ban of a user without a listed level by a member who is not
  above the default level, and an ordinary invite with undecodable third party data (\<open>overlooked\<close>).  For third party
  invites the rules are those with the code's comparison of token and keys in place of the signature check.\<close>

theorem membership_change_rules:
  assumes "de_req de_membership content ''membership'' = Some new"
    and "get_membership sender_ev = Ok sender_ms" "get_membership target_ev = Ok old"
    and "get_power_levels pl_ev = Ok pls" "get_join_rule jr_ev = Ok jr"
    and "c = facts_of uni target sender sender_ms pls jr content tpi_ev"
  shows "valid_membership_change uni target target_ev sender sender_ev content prev_event tpi_ev pl_ev jr_ev
    = Ok (follows_create prev_event \<or> may_change token_is_key c old new \<or> overlooked c old new)"
proof -
  have "rf_invitation c = None \<or> rf_third_party c \<noteq> None" by (auto simp: assms(6) facts_of_def)
  from allowed_iff[OF this, of new old] show ?thesis
    by (simp add: valid_membership_change_eq[OF assms(1-5)] assms(6) facts_of_def)
qed

definition sample_event :: "event_type \<Rightarrow> string \<Rightarrow> string option \<Rightarrow> content \<Rightarrow> event" where
  "sample_event t s k c = \<lparr> ev_id = ''$1:b'', ev_room = ''!r:b'', ev_sender = s, ev_ts = 0,
     ev_type = t, ev_content = c, ev_state_key = k, ev_prev = [], ev_auth = [], ev_redacts = None \<rparr>"

definition sample_levels :: content where
  "sample_levels = [(''users_default'', JNumber (PosInt 50))]"

text \<open>In a room whose default level is 50 anybody can ban anybody, which the rules do not allow; a public room can be joined.\<close>

lemma membership_change_rules_witness:
  "valid_membership_change (\<lambda>_. False) ''@a:b'' None ''@a:b'' None [(''membership'', JString ''join'')] None None
     None (Some (sample_event ''m.room.join_rules'' ''@c:b'' (Some []) [(''join_rule'', JString ''public'')]))
   = Ok True
   \<and> (\<exists>c. valid_membership_change (\<lambda>_. False) ''@v:b'' None ''@a:b''
       (Some (sample_event ''m.room.member'' ''@a:b'' (Some ''@a:b'') [(''membership'', JString ''join'')]))
       [(''membership'', JString ''ban'')] None None
       (Some (sample_event ''m.room.power_levels'' ''@c:b'' (Some []) sample_levels)) None
     = Ok (may_change token_is_key c Leave Ban \<or> overlooked c Leave Ban)
     \<and> overlooked c Leave Ban \<and> \<not> may_change token_is_key c Leave Ban)"
proof
  have "valid_membership_change (\<lambda>_. False) ''@a:b'' None ''@a:b'' None [(''membership'', JString ''join'')] None None
     None (Some (sample_event ''m.room.join_rules'' ''@c:b'' (Some []) [(''join_rule'', JString ''public'')]))
     = Ok (follows_create None \<or> may_change token_is_key (facts_of (\<lambda>_. False) ''@a:b'' ''@a:b'' Leave power_levels_new JRPublic
          [(''membership'', JString ''join'')] None) Leave Join
        \<or> overlooked (facts_of (\<lambda>_. False) ''@a:b'' ''@a:b'' Leave power_levels_new JRPublic
          [(''membership'', JString ''join'')] None) Leave Join)"
    by (rule membership_change_rules)
       (simp_all add: de_req_def de_membership_def membership_from_def get_membership_def
         get_power_levels_def get_join_rule_def sample_event_def de_join_rules_content_def de_opt_def
         join_rule_from_def serde_def)
  then show "valid_membership_change (\<lambda>_. False) ''@a:b'' None ''@a:b'' None [(''membership'', JString ''join'')] None None
     None (Some (sample_event ''m.room.join_rules'' ''@c:b'' (Some []) [(''join_rule'', JString ''public'')])) = Ok True"
    by (simp add: may_change_simps facts_of_def)
next
  let ?m = "Some (sample_event ''m.room.member'' ''@a:b'' (Some ''@a:b'') [(''membership'', JString ''join'')])"
  let ?pl = "Some (sample_event ''m.room.power_levels'' ''@c:b'' (Some []) sample_levels)"
  let ?content = "[(''membership'', JString ''ban'')]"
  have pls: "de_power_levels sample_levels = Some (power_levels_new \<lparr> users_default := 50 \<rparr>)"
    by (simp add: sample_levels_def de_power_levels_def de_default_def number_to_int_cases int_ok_def INT_MAX_def
        power_levels_new_def)
  let ?c = "facts_of (\<lambda>_. False) ''@v:b'' ''@a:b'' Join (power_levels_new \<lparr> users_default := 50 \<rparr>) JRInvite ?content None"
  have "valid_membership_change (\<lambda>_. False) ''@v:b'' None ''@a:b'' ?m ?content None None ?pl None
     = Ok (follows_create None \<or> may_change token_is_key ?c Leave Ban \<or> overlooked ?c Leave Ban)"
    by (rule membership_change_rules)
       (simp_all add: de_req_def de_membership_def membership_from_def get_membership_def
         get_power_levels_def get_join_rule_def sample_event_def serde_def pls)
  moreover have "overlooked ?c Leave Ban" "\<not> may_change token_is_key ?c Leave Ban"
    by (simp_all add: may_change_simps facts_of_def power_of_def power_levels_new_def default_power_level_def)
  ultimately show "\<exists>c. valid_membership_change (\<lambda>_. False) ''@v:b'' None ''@a:b'' ?m ?content None None ?pl None
     = Ok (may_change token_is_key c Leave Ban \<or> overlooked c Leave Ban)
     \<and> overlooked c Leave Ban \<and> \<not> may_change token_is_key c Leave Ban"
    by (intro exI[of _ ?c]) (simp add: follows_create_def)
qed

text \<open>C11. Accepted events come from joined members: apart from creation and membership events, and
  the aliases events of old room versions, an event passes only if the room has a create event, the
  sender's membership is join, the sender's level reaches the level required for the event, and a
  state key naming a user names the sender.\<close>

theorem accepted_needs_joined_sender:
  assumes "auth_check uni rv e prev tpi fetch = Ok True"
    and "\<not> special_type (ev_type e)" "\<not> (ev_type e = ''m.room.aliases'' \<and> special_case_aliases_auth rv)"
  shows "\<exists>create mem. fetch ''m.room.create'' [] = Some create \<and>
    fetch ''m.room.member'' (ev_sender e) = Some mem \<and> sender_membership mem = Ok Join \<and>
    get_send_level (ev_type e) (ev_state_key e) (fetch ''m.room.power_levels'' []) \<le>
      sender_power_level (fetch ''m.room.power_levels'' []) (Some create) (ev_sender e) \<and>
    (\<forall>k. ev_state_key e = Some k \<and> prefix ''@'' k \<longrightarrow> k = ev_sender e)"
  using assms(2,3,1)
proof (rule auth_check_general)
  fix create mem
  assume "fetch ''m.room.create'' [] = Some create" "fetch ''m.room.member'' (ev_sender e) = Some mem"
    "sender_membership mem = Ok Join" "can_send_event e (fetch ''m.room.power_levels'' [])
       (sender_power_level (fetch ''m.room.power_levels'' []) (Some create) (ev_sender e))"
  then show ?thesis by (auto simp: can_send_event_iff)
qed

definition sample_state :: "event_type \<Rightarrow> string \<Rightarrow> event option" where
  "sample_state t k =
     (if t = ''m.room.create'' then Some (sample_event t ''@a:b'' (Some []) [(''creator'', JString ''@a:b'')])
      else if t = ''m.room.member'' \<and> k = ''@a:b''
      then Some (sample_event t ''@a:b'' (Some k) [(''membership'', JString ''join'')])
      else None)"

lemma sample_member:
  "sample_state ''m.room.member'' ''@a:b'' =
     Some (sample_event ''m.room.member'' ''@a:b'' (Some ''@a:b'') [(''membership'', JString ''join'')])"
  by (simp add: sample_state_def)

lemma sample_message_passes:
  "auth_check uni VERSION6 (sample_event ''m.room.message'' ''@a:b'' None []) None None sample_state = Ok True"
proof -
  have "sender_membership (sample_event ''m.room.member'' ''@a:b'' (Some ''@a:b'')
      [(''membership'', JString ''join'')]) = Ok Join"
    by (simp add: sender_membership_def raw_opt_def sample_event_def serde_def de_membership_def
        membership_from_def)
  moreover have "can_send_event (sample_event ''m.room.message'' ''@a:b'' None []) None l" if "0 \<le> l" for l
    using that by (simp add: can_send_event_iff get_send_level_def sample_event_def)
  moreover have "0 \<le> sender_power_level None (sample_state ''m.room.create'' []) ''@a:b''"
    by (simp add: sender_power_level_def split: option.split)
  ultimately show ?thesis
    by (simp add: auth_check_def sample_member)
       (simp add: sample_state_def sample_event_def)
qed

lemma accepted_needs_joined_sender_witness:
  "\<exists>create mem. sample_state ''m.room.create'' [] = Some create \<and>
    sample_state ''m.room.member'' ''@a:b'' = Some mem \<and> sender_membership mem = Ok Join"
  using accepted_needs_joined_sender[OF sample_message_passes]
  by (auto simp: special_type_def sample_event_def)

text \<open>C12. No escalation of the levels of users, of event types and of room notifications: when \<open>check_power_levels\<close>
  accepts a change of the power levels by a sender of level \<open>l\<close>, every user, event type and (from room version 6) the
  room notification whose level differs had and gets at most \<open>l\<close>, and nobody else of exactly level \<open>l\<close> loses it.
  The named levels (\<^verbatim>\<open>ban\<close>, \<^verbatim>\<open>kick\<close>, \<^verbatim>\<open>users_default\<close> and the like) are not included: they can be raised
  beyond \<open>l\<close>, as \<open>named_levels_checked\<close> shows.\<close>

theorem power_levels_no_escalation:
  assumes "check_power_levels rv e (Some cur) l = Ok (Some True)"
  shows "\<exists>old new. de_power_levels (ev_content cur) = Some old \<and> de_power_levels (ev_content e) = Some new \<and>
    (\<forall>u. may_set l (bt_get (users old) u) (bt_get (users new) u) \<and>
       (u \<noteq> ev_sender e \<and> bt_get (users old) u = Some l \<longrightarrow> bt_get (users new) u = Some l)) \<and>
    (\<forall>t. may_set l (bt_get (events old) t) (bt_get (events new) t)) \<and>
    (limit_notifications_power_levels rv \<longrightarrow>
       may_set l (Some (notifications_room old)) (Some (notifications_room new)))"
  using assms
proof (rule check_power_levels_TrueE)
  fix new old
  assume *: "de_power_levels (ev_content e) = Some new" "de_power_levels (ev_content cur) = Some old"
    and u: "list_all (user_level_ok (ev_sender e) l old new) (keys_to_check (users old) (users new))"
    and t: "list_all (event_level_ok l old new) (keys_to_check (events old) (events new))"
    and n: "limit_notifications_power_levels rv \<longrightarrow>
       may_set l (Some (notifications_room old)) (Some (notifications_room new))"
  have "user_level_ok (ev_sender e) l old new v" for v
  proof (cases "v \<in> set (keys_to_check (users old) (users new))")
    case False
    then show ?thesis using levels_absent[OF False] by (simp add: user_level_ok_iff may_set_def)
  qed (use u in \<open>simp add: list_all_iff\<close>)
  moreover have "event_level_ok l old new v" for v
  proof (cases "v \<in> set (keys_to_check (events old) (events new))")
    case False
    then show ?thesis using levels_absent[OF False] by (simp add: event_level_ok_iff may_set_def)
  qed (use t in \<open>simp add: list_all_iff\<close>)
  ultimately show ?thesis using * n by (simp add: user_level_ok_iff event_level_ok_iff)
qed

lemma power_levels_no_escalation_witness:
  "\<exists>old new. de_power_levels [] = Some old \<and> de_power_levels [(''kick'', JNumber (PosInt 40))] = Some new \<and>
     may_set 50 (Some (notifications_room old)) (Some (notifications_room new))"
proof -
  let ?e = "sample_event ''m.room.power_levels'' ''@a:b'' (Some []) [(''kick'', JNumber (PosInt 40))]"
  let ?cur = "sample_event ''m.room.power_levels'' ''@a:b'' (Some []) []"
  have new: "de_power_levels [(''kick'', JNumber (PosInt 40))] = Some (power_levels_new \<lparr> kick := 40 \<rparr>)"
    by (simp add: de_power_levels_def de_default_def number_to_int_cases int_ok_def INT_MAX_def
        power_levels_new_def)
  have old: "de_power_levels [] = Some power_levels_new"
    by (simp add: de_power_levels_def de_default_def power_levels_new_def)
  have r: "levels_in_range power_levels_new" "levels_in_range (power_levels_new \<lparr> kick := 40 \<rparr>)"
    by (simp_all add: levels_in_range_def level_of_def LEVEL_NAMES_def power_levels_new_def
        default_power_level_def int_ok_def INT_MAX_def)
  have "named_level_ok 50 (ser_power_levels power_levels_new)
      (ser_power_levels (power_levels_new \<lparr> kick := 40 \<rparr>)) name" if "name \<in> set LEVEL_NAMES" for name
    using named_level_ok_iff[OF r that] that
    by (auto simp: LEVEL_NAMES_def level_of_def default_of_def power_levels_new_def default_power_level_def)
  then have "check_power_levels VERSION6 ?e (Some ?cur) 50 = Ok (Some True)"
    by (simp add: check_power_levels_def sample_event_def old new keys_to_check_def bt_of_list_def
        power_levels_new_def list_all_iff)
  from power_levels_no_escalation[OF this] show ?thesis
    by (auto simp: sample_event_def VERSION6_def)
qed

text \<open>C23. The seven named levels (\<^verbatim>\<open>ban\<close>, \<^verbatim>\<open>kick\<close>, \<^verbatim>\<open>invite\<close>, \<^verbatim>\<open>redact\<close> and the three defaults) are
  compared in serialized form, where a level at its default is left out.  So a power levels event
  that sets no user, event type or notification level passes exactly if every named level is at its
  default in one of the two events, or at most the sender's level in both: raising a level from its
  default to any value passes, and an unchanged level above the sender's rejects the event.\<close>

theorem named_levels_checked:
  assumes "de_power_levels (ev_content cur) = Some old" "de_power_levels (ev_content e) = Some new"
    and "ev_state_key e = Some []"
    and "users old = users new" "events old = events new" "notifications_room old = notifications_room new"
  shows "check_power_levels rv e (Some cur) l = Ok (Some
    (\<forall>name\<in>set LEVEL_NAMES. level_of old name = default_of name \<or> level_of new name = default_of name \<or>
       level_of old name \<le> l \<and> level_of new name \<le> l))"
proof -
  have r: "levels_in_range old" "levels_in_range new" using assms(1,2) de_power_levels_in_range by auto
  have "list_all (named_level_ok l (ser_power_levels old) (ser_power_levels new)) LEVEL_NAMES \<longleftrightarrow>
    (\<forall>name\<in>set LEVEL_NAMES. level_of old name = default_of name \<or> level_of new name = default_of name \<or>
       level_of old name \<le> l \<and> level_of new name \<le> l)"
    using named_level_ok_iff[OF r] by (simp add: list_all_iff)
  moreover have "list_all (event_level_ok l old new) (keys_to_check (events old) (events new))"
    using assms(5) by (simp add: list_all_iff event_level_ok_iff may_set_def)
  moreover have "list_all (user_level_ok (ev_sender e) l old new) (keys_to_check (users old) (users new))"
    using assms(4) by (simp add: list_all_iff user_level_ok_iff may_set_def)
  ultimately show ?thesis using assms by (simp add: check_power_levels_def)
qed

lemma named_levels_checked_witness:
  "check_power_levels VERSION6
     (sample_event ''m.room.power_levels'' ''@a:b'' (Some []) [(''kick'', JNumber (PosInt 100))])
     (Some (sample_event ''m.room.power_levels'' ''@a:b'' (Some []) [])) 50 = Ok (Some True)"
proof -
  have new: "de_power_levels [(''kick'', JNumber (PosInt 100))] = Some (power_levels_new \<lparr> kick := 100 \<rparr>)"
    by (simp add: de_power_levels_def de_default_def number_to_int_cases int_ok_def INT_MAX_def
        power_levels_new_def)
  have old: "de_power_levels [] = Some power_levels_new"
    by (simp add: de_power_levels_def de_default_def power_levels_new_def)
  show ?thesis
    by (subst named_levels_checked[of _ power_levels_new _ "power_levels_new \<lparr> kick := 100 \<rparr>"])
       (simp_all add: sample_event_def old new, simp_all add: LEVEL_NAMES_def level_of_def
         default_of_def power_levels_new_def default_power_level_def)
qed

text \<open>The check reads no more of the state than \<open>auth_types_for_event\<close> announces: on two states
  that agree on those keys it gives the same result, provided the join rules of both decode (they are
  parsed for every membership event, although only joins and invites announce them).\<close>

lemma auth_check_reads_auth_types:
  assumes "\<And>t k. (t, k) \<in> set (auth_types_for_event uni (ev_type e) (ev_sender e) (ev_state_key e) (ev_content e))
      \<Longrightarrow> f t k = g t k"
    and "get_join_rule (f ''m.room.join_rules'' []) = Ok jf" "get_join_rule (g ''m.room.join_rules'' []) = Ok jg"
  shows "auth_check uni rv e prev tpi f = auth_check uni rv e prev tpi g"
proof (cases "ev_type e = ''m.room.create''")
  case False
  have base: "f ''m.room.power_levels'' [] = g ''m.room.power_levels'' []"
    "f ''m.room.member'' (ev_sender e) = g ''m.room.member'' (ev_sender e)"
    "f ''m.room.create'' [] = g ''m.room.create'' []"
    using auth_types_base[OF False] assms(1) by blast+
  have "check_member uni e prev tpi f = check_member uni e prev tpi g" if m: "ev_type e = ''m.room.member''"
  proof (cases "ev_state_key e")
    case (Some t)
    show ?thesis
    proof (cases "Option.bind (raw_opt (ev_content e) ''membership'') de_membership")
      case (Some ms)
      note target = assms(1)[unfolded m \<open>ev_state_key e = Some t\<close>, OF auth_types_target[OF Some]]
      have jr: "valid_membership_change uni t te s se (ev_content e) prev tpi pl (f ''m.room.join_rules'' []) =
          valid_membership_change uni t te s se (ev_content e) prev tpi pl (g ''m.room.join_rules'' [])"
        for te s se pl
      proof (cases "ms \<in> {Join, Invite}")
        case True
        then show ?thesis
          using assms(1)[unfolded m \<open>ev_state_key e = Some t\<close>, OF auth_types_join_rules[OF Some]] by simp
      next
        case False
        then show ?thesis
          using Some[unfolded membership_fields]
          by (intro valid_membership_change_join_rules[OF assms(2,3)]) auto
      qed
      have "check_member uni e prev tpi h = and_then (map_err (\<lambda>_. InvalidPdu t) (parse_validated user_id_validate t))
          (\<lambda>u. valid_membership_change uni u (h ''m.room.member'' u) (ev_sender e)
             (h ''m.room.member'' (ev_sender e)) (ev_content e) prev tpi
             (h ''m.room.power_levels'' []) (h ''m.room.join_rules'' []))" for h
        using \<open>ev_state_key e = Some t\<close> Some by (simp add: check_member_def)
      then show ?thesis by (simp only:) (rule and_then_parse_validated, simp only: target base jr)
    qed (use Some in \<open>simp add: check_member_def\<close>)
  qed (simp add: check_member_def)
  note member = this
  show ?thesis
  proof (cases "ev_type e = ''m.room.member''")
    case True
    show ?thesis unfolding auth_check_def Let_def base member[OF True] ..
  next
    case False
    then show ?thesis unfolding auth_check_def Let_def base by (simp only: if_False simp_thms)
  qed
qed (simp add: auth_check_def)

lemma auth_check_reads_auth_types_witness:
  "auth_check (\<lambda>_. False) VERSION6 (sample_event ''m.room.message'' ''@a:b'' None []) None None sample_state =
   auth_check (\<lambda>_. False) VERSION6 (sample_event ''m.room.message'' ''@a:b'' None []) None None
     (\<lambda>t k. if t = ''m.room.topic'' then None else sample_state t k)"
  by (rule auth_check_reads_auth_types[where jf = JRInvite and jg = JRInvite])
     (auto simp: auth_types_for_event_def sample_event_def get_join_rule_def sample_state_def)

text \<open>A third party invite cannot be authorized against power levels that leave \<^verbatim>\<open>invite\<close> at its
  default: the serialization of the power levels omits the field, the check requires it, and the
  result is an error instead of a comparison with the default 50.\<close>

lemma third_party_invite_level:
  assumes "levels_in_range p" "ev_content pl = ser_power_levels p"
  shows "invite_level (Some pl) = (if invite p = 50 then Err SerdeJson else Ok (invite p))"
proof -
  have "''invite'' \<in> set LEVEL_NAMES" by (simp add: LEVEL_NAMES_def)
  from ser_power_levels_get[OF this] assms(1) this show ?thesis
    by (simp add: invite_level_def assms(2) de_req_def level_of_def default_of_def serde_def
        levels_in_range_def LEVEL_NAMES_def de_ser_int)
qed

lemma third_party_invite_level_witness:
  "invite_level (Some (sample_event ''m.room.power_levels'' ''@a:b'' (Some [])
     (ser_power_levels power_levels_new))) = Err SerdeJson"
  by (subst third_party_invite_level[of power_levels_new])
     (simp_all add: sample_event_def levels_in_range_def level_of_def LEVEL_NAMES_def
       power_levels_new_def default_power_level_def int_ok_def INT_MAX_def)

text \<open>Redactions of hashed event ids: in room versions 3 and later no event id carries a server
  name, so the comparison of the two (absent) server names always succeeds and \<open>check_redaction\<close> allows
  every redaction that names such an event, whatever the sender's level.\<close>

lemma redaction_of_hashed_ids:
  assumes "CHR '':'' \<notin> set (ev_id e)" "\<forall>r. ev_redacts e = Some r \<longrightarrow> CHR '':'' \<notin> set r"
  shows "check_redaction rv e level required = Ok True"
proof -
  have "event_id_server_name i = Ok None" if "CHR '':'' \<notin> set i" for i
    using that by (simp add: event_id_server_name_def str_find_None[THEN iffD2])
  then show ?thesis using assms by (auto simp: check_redaction_def split: option.split)
qed

lemma redaction_of_hashed_ids_witness:
  "check_redaction VERSION3 ((sample_event ''m.room.redaction'' ''@a:b'' None []) \<lparr> ev_id := ''$x'',
     ev_redacts := Some ''$y'' \<rparr>) 0 50 = Ok True"
  by (rule redaction_of_hashed_ids) (simp_all add: sample_event_def)

text \<open>C22. The check does not panic on an event with valid identifiers, if the sender's member event in
  the state has a \<^verbatim>\<open>membership\<close> field and, for a power levels event, the contents of the event and of the
  current power levels decode.  (Both conditions are needed: they are an \<open>expect\<close> and two \<open>unwrap\<close>s.)\<close>

theorem auth_check_no_panic:
  assumes "event_wf e"
    and "\<And>mem. fetch ''m.room.member'' (ev_sender e) = Some mem \<Longrightarrow> raw_opt (ev_content mem) ''membership'' \<noteq> None"
    and "ev_type e = ''m.room.power_levels'' \<Longrightarrow> de_power_levels (ev_content e) \<noteq> None"
    and "\<And>pl. ev_type e = ''m.room.power_levels'' \<Longrightarrow> fetch ''m.room.power_levels'' [] = Some pl \<Longrightarrow>
      de_power_levels (ev_content pl) \<noteq> None"
  shows "auth_check uni rv e prev tpi fetch \<noteq> Panic"
  by (rule auth_check_no_panic_general[OF assms])

lemma auth_check_no_panic_witness:
  "auth_check (\<lambda>_. False) VERSION6 (sample_event ''m.room.message'' ''@a:b'' None []) None None sample_state \<noteq> Panic"
proof (rule auth_check_no_panic)
  have ok: "server_name_ok ''b''"
    by (rule server_name_ok_plain) (simp_all add: host_byte_def is_ascii_alnum_def is_lower_def)
  then have "user_id_validate ''@a:b'' = Ok ()"
    by (simp add: user_id_validate_def parse_id_def validate_id_def MAX_BYTES_def
        localpart_conforming historical_byte_def)
  moreover have "room_id_validate ''!r:b'' = Ok ()"
    using ok by (simp add: room_id_validate_def validate_delimited_id_def parse_id_def validate_id_def
        MAX_BYTES_def)
  ultimately show "event_wf (sample_event ''m.room.message'' ''@a:b'' None [])"
    by (simp add: event_wf_def sample_event_def)
qed (auto simp: sample_event_def sample_state_def raw_opt_def split: if_splits)

end
