(* ===== verification/Topological_Sort.thy ===== *)
theory Topological_Sort
  imports Event_Auth "HOL-Library.Product_Lexorder"
begin

text \<open>\<open>lexicographical_topological_sort\<close> of \<^verbatim>\<open>ruma-state-res/src/lib.rs\<close>: Kahn's algorithm on a
  graph from events to the events they reference, with a binary heap of tie breakers.  A \<^verbatim>\<open>HashMap\<close> or
  \<^verbatim>\<open>HashSet\<close> is a list in its (arbitrary) iteration order; the theorems show that the order does not
  matter.  The heap is used through the locale \<open>min_heap\<close>.\<close>

section \<open>Tie breakers\<close>

datatype 'i tie_breaker = TieBreaker (inv_power_level: int) (age: nat) (tb_event: 'i)

fun tb_tuple :: "'i tie_breaker \<Rightarrow> int \<times> nat \<times> 'i" where
  "tb_tuple (TieBreaker p a i) = (p, a, i)"

lemma tb_tuple_inj: "tb_tuple x = tb_tuple y \<Longrightarrow> x = y"
  by (cases x; cases y) simp

text \<open>The derived \<open>Ord\<close>: fields in order.\<close>

instantiation tie_breaker :: (linorder) linorder
begin

definition less_eq_tie_breaker :: "'a tie_breaker \<Rightarrow> 'a tie_breaker \<Rightarrow> bool" where
  "less_eq_tie_breaker x y \<longleftrightarrow> tb_tuple x \<le> tb_tuple y"

definition less_tie_breaker :: "'a tie_breaker \<Rightarrow> 'a tie_breaker \<Rightarrow> bool" where
  "less_tie_breaker x y \<longleftrightarrow> tb_tuple x < tb_tuple y"

instance
  by standard (auto simp: less_eq_tie_breaker_def less_tie_breaker_def intro: tb_tuple_inj)

end

section \<open>The heap\<close>

locale min_heap =
  fixes empty :: "'h"
    and push :: "'a::linorder \<Rightarrow> 'h \<Rightarrow> 'h"
    and pop :: "'h \<Rightarrow> ('a \<times> 'h) option"
    and elems :: "'h \<Rightarrow> 'a multiset"
    and invar :: "'h \<Rightarrow> bool"
  assumes elems_empty: "elems empty = {#}"
    and elems_push: "invar h \<Longrightarrow> elems (push x h) = add_mset x (elems h)"
    and pop_None: "invar h \<Longrightarrow> pop h = None \<longleftrightarrow> elems h = {#}"
    and pop_Some: "invar h \<Longrightarrow> pop h = Some (x, h') \<Longrightarrow>
      x \<in># elems h \<and> (\<forall>y\<in>#elems h. x \<le> y) \<and> elems h' = elems h - {#x#} \<and> invar h'"
    and invar_empty: "invar empty"
    and invar_push: "invar h \<Longrightarrow> invar (push x h)"
begin

lemma invar_fold_push: "invar h \<Longrightarrow> invar (fold push xs h)"
  by (induction xs arbitrary: h) (auto simp: invar_push)

lemma elems_fold_push: "invar h \<Longrightarrow> elems (fold push xs h) = mset xs + elems h"
  by (induction xs arbitrary: h) (auto simp: elems_push invar_push)

lemma heap_of_list: "elems (fold push xs empty) = mset xs \<and> invar (fold push xs empty)"
  by (simp add: elems_fold_push elems_empty invar_empty invar_fold_push)

lemma pop_smallest:
  assumes "invar h" "pop h = Some (x, h')" "y \<in># elems h"
  shows "x \<le> y"
  using pop_Some[OF assms(1,2)] assms(3) by blast

end

text \<open>\<open>BinaryHeap<Reverse<_>>\<close>, as a sorted list.\<close>

type_synonym 'a heap = "'a list"

definition heap_push :: "'a::linorder \<Rightarrow> 'a heap \<Rightarrow> 'a heap" where
  "heap_push x h = insort x h"

fun heap_pop :: "'a heap \<Rightarrow> ('a \<times> 'a heap) option" where
  "heap_pop [] = None"
| "heap_pop (x # h) = Some (x, h)"

interpretation heap: min_heap "[]" heap_push heap_pop mset sorted
proof
  fix h :: "'a::linorder list" and x h'
  assume "sorted h" "heap_pop h = Some (x, h')"
  then show "x \<in># mset h \<and> (\<forall>y\<in>#mset h. x \<le> y) \<and> mset h' = mset h - {#x#} \<and> sorted h'"
    by (cases h) auto
next
  fix h :: "'a::linorder list" show "heap_pop h = None \<longleftrightarrow> mset h = {#}" by (cases h) auto
qed (auto simp: heap_push_def sorted_insort)

section \<open>The sort\<close>

type_synonym 'i graph = "('i \<times> 'i list) list"
type_synonym 'i key_fn = "'i \<Rightarrow> (int \<times> nat, sr_error) result"

definition tie_of :: "'i key_fn \<Rightarrow> 'i \<Rightarrow> 'i \<Rightarrow> ('i tie_breaker, sr_error) result" where
  "tie_of key_fn keyed event = and_then (key_fn keyed) (\<lambda>(power_level, a). Ok (TieBreaker (- power_level) a event))"

definition zero_outdegree :: "'i key_fn \<Rightarrow> 'i graph \<Rightarrow> ('i tie_breaker list, sr_error) result" where
  "zero_outdegree key_fn graph =
     map_res (\<lambda>(node, edges). tie_of key_fn node node) (filter (\<lambda>(node, edges). edges = []) graph)"

text \<open>\<open>reverse_graph[node]\<close>: the events that reference \<open>node\<close>.\<close>

definition parents :: "'i graph \<Rightarrow> 'i \<Rightarrow> 'i list" where
  "parents graph node = map fst (filter (\<lambda>(n, edges). node \<in> set edges) graph)"

definition map_upd :: "'k \<Rightarrow> 'v \<Rightarrow> ('k \<times> 'v) list \<Rightarrow> ('k \<times> 'v) list" where
  "map_upd k v m = map (\<lambda>(k', v'). if k' = k then (k', v) else (k', v')) m"

text \<open>The inner loop over the parents of the popped node.\<close>

fun relax ::
    "'i::linorder key_fn \<Rightarrow> 'i \<Rightarrow> 'i list \<Rightarrow> 'i graph \<Rightarrow> 'i tie_breaker heap
      \<Rightarrow> ('i graph \<times> 'i tie_breaker heap, sr_error) result" where
  "relax key_fn node [] outdegree h = Ok (outdegree, h)"
| "relax key_fn node (parent # ps) outdegree h =
     (case map_of outdegree parent of
        None \<Rightarrow> Panic
      | Some edges \<Rightarrow>
          (let out = removeAll node edges; outdegree' = map_upd parent out outdegree
           in if out = []
              then and_then (tie_of key_fn node parent) (\<lambda>tb.
                     relax key_fn node ps outdegree' (heap_push tb h))
              else relax key_fn node ps outdegree' h))"

text \<open>The main loop; \<open>None\<close> is running out of fuel.\<close>

fun kahn ::
    "nat \<Rightarrow> 'i::linorder key_fn \<Rightarrow> 'i graph \<Rightarrow> 'i graph \<Rightarrow> 'i tie_breaker heap \<Rightarrow> 'i list
      \<Rightarrow> ('i list, sr_error) result option" where
  "kahn 0 key_fn graph outdegree h sorted_ids = None"
| "kahn (Suc fuel) key_fn graph outdegree h sorted_ids =
     (case heap_pop h of
        None \<Rightarrow> Some (Ok sorted_ids)
      | Some (item, h') \<Rightarrow>
          (let node = tb_event item
           in case relax key_fn node (parents graph node) outdegree h' of
                Ok (outdegree', h'') \<Rightarrow> kahn fuel key_fn graph outdegree' h'' (sorted_ids @ [node])
              | Err e \<Rightarrow> Some (Err e)
              | Panic \<Rightarrow> Some Panic))"

definition lexicographical_topological_sort ::
    "'i::linorder graph \<Rightarrow> 'i key_fn \<Rightarrow> ('i list, sr_error) result option" where
  "lexicographical_topological_sort graph key_fn =
     (case zero_outdegree key_fn graph of
        Ok zs \<Rightarrow> kahn (length graph + 1) key_fn graph graph (fold heap_push zs []) []
      | Err e \<Rightarrow> Some (Err e)
      | Panic \<Rightarrow> Some Panic)"

section \<open>The specification\<close>

definition nodes :: "'i graph \<Rightarrow> 'i set" where
  "nodes g = fst ` set g"

definition edges_of :: "'i graph \<Rightarrow> 'i \<Rightarrow> 'i set" where
  "edges_of g n = (case map_of g n of Some es \<Rightarrow> set es | None \<Rightarrow> {})"

definition graph_ok :: "'i graph \<Rightarrow> bool" where
  "graph_ok g \<longleftrightarrow> distinct (map fst g) \<and> (\<forall>n. edges_of g n \<subseteq> nodes g)"

definition ready :: "'i graph \<Rightarrow> 'i list \<Rightarrow> 'i \<Rightarrow> bool" where
  "ready g xs n \<longleftrightarrow> n \<in> nodes g \<and> n \<notin> set xs \<and> edges_of g n \<subseteq> set xs"

text \<open>The event whose key an event is queued with: itself if it references nothing, otherwise the
  last of its references that was emitted.\<close>

definition keyed_by :: "'i graph \<Rightarrow> 'i list \<Rightarrow> 'i \<Rightarrow> 'i" where
  "keyed_by g xs n = (if edges_of g n = {} then n else last (filter (\<lambda>x. x \<in> edges_of g n) xs))"

definition rank :: "('i \<Rightarrow> int \<times> nat) \<Rightarrow> 'i graph \<Rightarrow> 'i list \<Rightarrow> 'i \<Rightarrow> 'i tie_breaker" where
  "rank kf g xs n = (case kf (keyed_by g xs n) of (p, a) \<Rightarrow> TieBreaker (- p) a n)"

text \<open>\<open>emits kf g xs\<close>: from the empty list, \<open>xs\<close> is reached by always emitting the ready event of
  least rank.\<close>

inductive emits :: "('i::linorder \<Rightarrow> int \<times> nat) \<Rightarrow> 'i graph \<Rightarrow> 'i list \<Rightarrow> bool"
  for kf g where
  start: "emits kf g []"
| emit: "emits kf g xs \<Longrightarrow> ready g xs n \<Longrightarrow> (\<And>m. ready g xs m \<Longrightarrow> rank kf g xs n \<le> rank kf g xs m)
    \<Longrightarrow> emits kf g (xs @ [n])"

inductive_cases emits_snocE: "emits kf g (xs @ [n])"

section \<open>Correctness of the loop\<close>

lemma map_fst_map_upd [simp]: "map fst (map_upd k v m) = map fst m"
  by (induction m) (auto simp: map_upd_def)

lemma map_of_map_upd:
  "map_of (map_upd k v m) k' = (if k' = k then map_option (\<lambda>_. v) (map_of m k) else map_of m k')"
proof (induction m)
  case (Cons x m)
  then show ?case by (cases x; cases "k' = k") (simp_all add: map_upd_def)
qed (simp add: map_upd_def)

lemma nodes_map_of: "n \<in> nodes g \<longleftrightarrow> (\<exists>es. map_of g n = Some es)"
proof -
  have "n \<in> nodes g \<longleftrightarrow> map_of g n \<noteq> None" by (simp add: nodes_def map_of_eq_None_iff)
  then show ?thesis by (cases "map_of g n") simp_all
qed

lemma edges_of_map_upd:
  "k \<in> nodes g \<Longrightarrow> edges_of (map_upd k v g) m = (if m = k then set v else edges_of g m)"
  by (auto simp: edges_of_def map_of_map_upd nodes_map_of)

lemma edges_of_Some: "map_of g n = Some es \<Longrightarrow> edges_of g n = set es"
  by (simp add: edges_of_def)

lemma edges_of_nodes: "m \<in> edges_of g n \<Longrightarrow> n \<in> nodes g"
  by (auto simp: edges_of_def nodes_map_of split: option.splits)

lemma parents_props:
  assumes "graph_ok g"
  shows "set (parents g n) = {m. n \<in> edges_of g m}" "distinct (parents g n)"
    "set (parents g n) \<subseteq> nodes g"
proof -
  have d: "distinct (map fst g)" using assms by (simp add: graph_ok_def)
  show *: "set (parents g n) = {m. n \<in> edges_of g m}"
  proof (rule set_eqI)
    fix m
    have "m \<in> set (parents g n) \<longleftrightarrow> (\<exists>es. (m, es) \<in> set g \<and> n \<in> set es)"
      by (auto simp: parents_def image_iff intro: bexI[rotated])
    also have "\<dots> \<longleftrightarrow> (\<exists>es. map_of g m = Some es \<and> n \<in> set es)"
      by (simp add: map_of_eq_Some_iff[OF d])
    also have "\<dots> \<longleftrightarrow> n \<in> edges_of g m" by (simp add: edges_of_def split: option.split)
    finally show "m \<in> set (parents g n) \<longleftrightarrow> m \<in> {m. n \<in> edges_of g m}" by simp
  qed
  show "distinct (parents g n)" unfolding parents_def by (rule distinct_map_filter[OF d])
  show "set (parents g n) \<subseteq> nodes g"
  proof
    fix m assume "m \<in> set (parents g n)"
    then show "m \<in> nodes g" using * by (simp add: edges_of_nodes)
  qed
qed

text \<open>What the inner loop does: it removes the popped node from the out-edges of its parents and queues
  the parents that have none left.\<close>

lemma relax_spec:
  assumes "key_fn n = Ok (p, a)" "set ps \<subseteq> nodes od" "distinct ps" "sorted h"
  shows "\<exists>od' h'. relax key_fn n ps od h = Ok (od', h') \<and> map fst od' = map fst od
    \<and> (\<forall>m. edges_of od' m = (if m \<in> set ps then edges_of od m - {n} else edges_of od m)) \<and> sorted h'
    \<and> mset h' = image_mset (TieBreaker (- p) a) (mset (filter (\<lambda>m. edges_of od m \<subseteq> {n}) ps)) + mset h"
  using assms(2-)
proof (induction ps arbitrary: od h)
  case (Cons q ps)
  obtain es where es: "map_of od q = Some es" using Cons.prems(1) by (auto simp: nodes_map_of)
  define od1 where "od1 = map_upd q (removeAll n es) od"
  have n1: "nodes od1 = nodes od" by (metis map_fst_map_upd nodes_def list.set_map od1_def)
  have e1: "edges_of od1 m = (if m = q then edges_of od q - {n} else edges_of od m)" for m
    using Cons.prems(1) by (simp add: od1_def edges_of_map_upd edges_of_Some[OF es])
  define h1 where "h1 = (if removeAll n es = [] then heap_push (TieBreaker (- p) a q) h else h)"
  have s1: "sorted h1" using Cons.prems(3) by (simp add: h1_def heap.invar_push)
  have m1: "mset h1 = (if edges_of od q \<subseteq> {n} then {#TieBreaker (- p) a q#} else {#}) + mset h"
    by (auto simp: h1_def heap_push_def edges_of_Some[OF es] removeAll_filter_not_eq filter_empty_conv)
  have r: "relax key_fn n (q # ps) od h = relax key_fn n ps od1 h1"
    by (simp add: es Let_def od1_def h1_def tie_of_def assms(1))
  have f: "filter (\<lambda>m. edges_of od1 m \<subseteq> {n}) ps = filter (\<lambda>m. edges_of od m \<subseteq> {n}) ps"
    by (rule filter_cong) (auto simp: e1)
  obtain od' h' where ih: "relax key_fn n ps od1 h1 = Ok (od', h')" "map fst od' = map fst od1"
      "\<forall>m. edges_of od' m = (if m \<in> set ps then edges_of od1 m - {n} else edges_of od1 m)" "sorted h'"
      "mset h' = image_mset (TieBreaker (- p) a) (mset (filter (\<lambda>m. edges_of od m \<subseteq> {n}) ps)) + mset h1"
    using Cons.IH[of od1 h1] Cons.prems n1 s1 f by auto
  have "edges_of od' m = (if m \<in> set (q # ps) then edges_of od m - {n} else edges_of od m)" for m
    using ih(3) Cons.prems(2) by (auto simp: e1)
  moreover have "map fst od' = map fst od" using ih(2) by (simp add: od1_def)
  moreover have "mset h' = image_mset (TieBreaker (- p) a)
      (mset (filter (\<lambda>m. edges_of od m \<subseteq> {n}) (q # ps))) + mset h"
    using ih(5) m1 by simp
  ultimately show ?case using ih(1,4) r by auto
qed simp

lemma rank_stable:
  assumes "edges_of g m \<subseteq> set xs" "n \<notin> set xs"
  shows "rank kf g (xs @ [n]) m = rank kf g xs m"
proof -
  have "n \<notin> edges_of g m" using assms by blast
  then show ?thesis by (simp add: rank_def keyed_by_def)
qed

lemma rank_parent: "n \<in> edges_of g m \<Longrightarrow> rank kf g (xs @ [n]) m = (case kf n of (p, a) \<Rightarrow> TieBreaker (- p) a m)"
  by (auto simp: rank_def keyed_by_def)

lemma rank_event [simp]: "tb_event (rank kf g xs n) = n"
  by (simp add: rank_def split: prod.split)

text \<open>The loop invariant.\<close>

definition kahn_inv ::
    "('i::linorder \<Rightarrow> int \<times> nat) \<Rightarrow> 'i graph \<Rightarrow> 'i graph \<Rightarrow> 'i tie_breaker heap \<Rightarrow> 'i list \<Rightarrow> bool" where
  "kahn_inv kf g od h xs \<longleftrightarrow>
     map fst od = map fst g \<and> (\<forall>m. m \<notin> set xs \<longrightarrow> edges_of od m = edges_of g m - set xs)
   \<and> distinct xs \<and> set xs \<subseteq> nodes g \<and> (\<forall>x\<in>set xs. edges_of g x \<subseteq> set xs)
   \<and> sorted h \<and> mset h = image_mset (rank kf g xs) (mset_set {n. ready g xs n})
   \<and> emits kf g xs"

lemma finite_ready [simp]: "finite {n. ready g xs n}"
  by (rule finite_subset[of _ "nodes g"]) (auto simp: ready_def nodes_def)

lemma kahn_inv_pop:
  assumes "kahn_inv kf g od (item # h) xs"
  shows "ready g xs (tb_event item)" "emits kf g (xs @ [tb_event item])"
    "mset h = image_mset (rank kf g xs) (mset_set ({n. ready g xs n} - {tb_event item}))"
proof -
  let ?n = "tb_event item"
  have m: "mset (item # h) = image_mset (rank kf g xs) (mset_set {n. ready g xs n})"
    and s: "sorted (item # h)" and e: "emits kf g xs"
    using assms by (auto simp: kahn_inv_def)
  have set_eq: "set (item # h) = rank kf g xs ` {n. ready g xs n}"
    using m by (metis finite_ready finite_set_mset_mset_set set_image_mset set_mset_mset)
  then obtain k where k: "ready g xs k" "item = rank kf g xs k" by (metis imageE list.set_intros(1) mem_Collect_eq)
  then have n: "?n = k" by simp
  show r: "ready g xs ?n" using k n by simp
  have "rank kf g xs ?n \<le> rank kf g xs j" if "ready g xs j" for j
  proof -
    have "rank kf g xs j \<in> set (item # h)" using set_eq that by blast
    then show ?thesis using s k(2) n by auto
  qed
  then show "emits kf g (xs @ [?n])" using emits.emit[OF e r] by blast
  have "mset_set {n. ready g xs n} = add_mset ?n (mset_set ({n. ready g xs n} - {?n}))"
    using r by (metis finite_ready mem_Collect_eq mset_set.remove)
  then show "mset h = image_mset (rank kf g xs) (mset_set ({n. ready g xs n} - {?n}))"
    using m k(2) n by simp
qed

lemma ready_snoc:
  assumes "graph_ok g" "ready g xs n" "\<forall>x\<in>set xs. edges_of g x \<subseteq> set xs"
  shows "{m. ready g (xs @ [n]) m} = ({m. ready g xs m} - {n}) \<union> {m. n \<in> edges_of g m \<and> edges_of g m - set xs \<subseteq> {n}}"
    "({m. ready g xs m} - {n}) \<inter> {m. n \<in> edges_of g m \<and> edges_of g m - set xs \<subseteq> {n}} = {}"
    "n \<in> edges_of g m \<Longrightarrow> m \<notin> set xs"
proof -
  have n: "n \<notin> set xs" "n \<notin> edges_of g n" using assms(2) by (auto simp: ready_def)
  show p: "n \<in> edges_of g m \<Longrightarrow> m \<notin> set xs" for m using assms(3) n(1) by blast
  show "({m. ready g xs m} - {n}) \<inter> {m. n \<in> edges_of g m \<and> edges_of g m - set xs \<subseteq> {n}} = {}"
    using n(1) by (auto simp: ready_def)
  show "{m. ready g (xs @ [n]) m} = ({m. ready g xs m} - {n}) \<union> {m. n \<in> edges_of g m \<and> edges_of g m - set xs \<subseteq> {n}}"
  proof (intro equalityI subsetI; (elim UnE)?)
    fix m
    assume "m \<in> {m. ready g (xs @ [n]) m}"
    then show "m \<in> ({m. ready g xs m} - {n}) \<union> {m. n \<in> edges_of g m \<and> edges_of g m - set xs \<subseteq> {n}}"
      by (auto simp: ready_def)
  next
    fix m assume "m \<in> {m. ready g xs m} - {n}"
    then show "m \<in> {m. ready g (xs @ [n]) m}" by (auto simp: ready_def)
  next
    fix m assume "m \<in> {m. n \<in> edges_of g m \<and> edges_of g m - set xs \<subseteq> {n}}"
    then have "m \<notin> set xs" "m \<noteq> n" "m \<in> nodes g" "edges_of g m \<subseteq> set (xs @ [n])"
      using p n(2) edges_of_nodes[of n g m] by auto
    then show "m \<in> {m. ready g (xs @ [n]) m}" by (simp add: ready_def)
  qed
qed

lemma kahn_inv_step:
  assumes g: "graph_ok g" and kf: "\<forall>n\<in>nodes g. key_fn n = Ok (kf n)"
    and inv: "kahn_inv kf g od (item # h) xs"
  shows "\<exists>od' h'. relax key_fn (tb_event item) (parents g (tb_event item)) od h = Ok (od', h')
    \<and> kahn_inv kf g od' h' (xs @ [tb_event item])"
proof -
  define n where "n = tb_event item"
  obtain p a where pa: "kf n = (p, a)" by fastforce
  note pop = kahn_inv_pop[OF inv, folded n_def]
  have I: "map fst od = map fst g" "\<And>m. m \<notin> set xs \<Longrightarrow> edges_of od m = edges_of g m - set xs" "distinct xs"
    "set xs \<subseteq> nodes g" "\<forall>x\<in>set xs. edges_of g x \<subseteq> set xs" "sorted h"
    using inv by (auto simp: kahn_inv_def)
  have n: "n \<in> nodes g" "n \<notin> set xs" "edges_of g n \<subseteq> set xs" using pop(1) by (auto simp: ready_def)
  have nod: "nodes od = nodes g" using I(1) by (metis nodes_def list.set_map)
  note par = parents_props[OF g, of n]
  note snoc = ready_snoc[OF g pop(1) I(5)]
  obtain od' h' where r: "relax key_fn n (parents g n) od h = Ok (od', h')" "map fst od' = map fst od"
      "\<And>m. edges_of od' m = (if m \<in> set (parents g n) then edges_of od m - {n} else edges_of od m)" "sorted h'"
      "mset h' = image_mset (TieBreaker (- p) a) (mset (filter (\<lambda>m. edges_of od m \<subseteq> {n}) (parents g n))) + mset h"
    using relax_spec[of key_fn n p a "parents g n" od h] kf n(1) pa par I(6) nod by auto
  let ?A = "{m. ready g xs m} - {n}" and ?B = "{m. n \<in> edges_of g m \<and> edges_of g m - set xs \<subseteq> {n}}"
  have "set (filter (\<lambda>m. edges_of od m \<subseteq> {n}) (parents g n)) = ?B"
    using par(1) snoc(3) I(2) by auto
  then have B: "mset (filter (\<lambda>m. edges_of od m \<subseteq> {n}) (parents g n)) = mset_set ?B"
    using par(2) by (metis distinct_filter mset_set_set)
  have fin: "finite ?B"
    by (rule finite_subset[of _ "nodes g"]) (auto dest: edges_of_nodes simp: nodes_def)
  have rA: "image_mset (rank kf g xs) (mset_set ?A) = image_mset (rank kf g (xs @ [n])) (mset_set ?A)"
  proof (rule image_mset_cong)
    fix m assume "m \<in># mset_set ?A"
    then have "ready g xs m" by (metis Diff_iff elem_mset_set finite_Diff finite_ready mem_Collect_eq)
    then show "rank kf g xs m = rank kf g (xs @ [n]) m" using n(2) by (simp add: rank_stable ready_def)
  qed
  have rB: "image_mset (TieBreaker (- p) a) (mset_set ?B) = image_mset (rank kf g (xs @ [n])) (mset_set ?B)"
    by (rule image_mset_cong) (use fin in \<open>simp add: rank_parent pa\<close>)
  have "mset h' = image_mset (rank kf g (xs @ [n])) (mset_set ?A) + image_mset (rank kf g (xs @ [n])) (mset_set ?B)"
    using r(5) B pop(3) rA rB by simp
  also have "\<dots> = image_mset (rank kf g (xs @ [n])) (mset_set (?A \<union> ?B))"
    using mset_set_Union[OF _ fin snoc(2)] by simp
  finally have "mset h' = image_mset (rank kf g (xs @ [n])) (mset_set {m. ready g (xs @ [n]) m})"
    using snoc(1) by simp
  moreover have "edges_of od' m = edges_of g m - set (xs @ [n])" if "m \<notin> set (xs @ [n])" for m
    using that I(2)[of m] r(3)[of m] par(1) by auto
  ultimately have "kahn_inv kf g od' h' (xs @ [n])"
    using I n pop(2) r(2,4) by (auto simp: kahn_inv_def)
  then show ?thesis using r(1) unfolding n_def by blast
qed

definition stuck :: "'i graph \<Rightarrow> 'i list \<Rightarrow> bool" where
  "stuck g xs \<longleftrightarrow> (\<forall>n. \<not> ready g xs n)"

lemma kahn_inv_length: "kahn_inv kf g od h xs \<Longrightarrow> length xs \<le> length g"
proof -
  assume "kahn_inv kf g od h xs"
  then have "length xs = card (set xs)" "set xs \<subseteq> fst ` set g"
    by (auto simp: kahn_inv_def distinct_card nodes_def)
  then show ?thesis by (metis card_length card_mono finite_imageI finite_set le_trans length_map list.set_map)
qed

lemma kahn_runs:
  assumes g: "graph_ok g" and kf: "\<forall>n\<in>nodes g. key_fn n = Ok (kf n)"
    and inv: "kahn_inv kf g od h xs" and fuel: "length g < fuel + length xs"
  shows "\<exists>ys. kahn fuel key_fn g od h xs = Some (Ok ys) \<and> stuck g ys \<and> (\<exists>od. kahn_inv kf g od [] ys)"
  using inv fuel
proof (induction fuel arbitrary: od h xs)
  case 0
  then show ?case using kahn_inv_length by fastforce
next
  case (Suc fuel)
  show ?case
  proof (cases h)
    case Nil
    have "mset_set {n. ready g xs n} = {#}"
      using Suc.prems(1) Nil by (simp add: kahn_inv_def)
    then have "stuck g xs" using finite_ready[of g xs] by (auto simp: stuck_def mset_set_empty_iff)
    then show ?thesis using Suc.prems(1) Nil by auto
  next
    case (Cons item h1)
    obtain od' h' where s: "relax key_fn (tb_event item) (parents g (tb_event item)) od h1 = Ok (od', h')"
        "kahn_inv kf g od' h' (xs @ [tb_event item])"
      using kahn_inv_step[OF g kf] Suc.prems(1) Cons by blast
    have "kahn (Suc fuel) key_fn g od h xs = kahn fuel key_fn g od' h' (xs @ [tb_event item])"
      by (simp add: Cons s(1))
    then show ?thesis using Suc.IH[OF s(2)] Suc.prems(2) by simp
  qed
qed

lemma zero_outdegree_spec:
  assumes g: "graph_ok g" and kf: "\<forall>n\<in>nodes g. key_fn n = Ok (kf n)"
  shows "\<exists>zs. zero_outdegree key_fn g = Ok zs \<and> mset zs = image_mset (rank kf g []) (mset_set {n. ready g [] n})"
proof -
  define roots where "roots = map fst (filter (\<lambda>(n, es). es = []) g)"
  have d: "distinct (map fst g)" using g by (simp add: graph_ok_def)
  have "(n, []) \<in> set g \<longleftrightarrow> ready g [] n" for n
  proof -
    have "(n, []) \<in> set g \<longleftrightarrow> map_of g n = Some []" by (simp add: map_of_eq_Some_iff[OF d])
    also have "\<dots> \<longleftrightarrow> ready g [] n"
      by (auto simp: ready_def nodes_map_of edges_of_def)
    finally show ?thesis .
  qed
  then have "set roots = {n. ready g [] n}" by (force simp: roots_def)
  moreover have "distinct roots" unfolding roots_def by (rule distinct_map_filter[OF d])
  ultimately have m: "mset roots = mset_set {n. ready g [] n}" by (metis mset_set_set)
  have "map_res (\<lambda>(n, es). tie_of key_fn n n) (filter (\<lambda>(n, es). es = []) xs)
      = Ok (map (rank kf g []) (map fst (filter (\<lambda>(n, es). es = []) xs)))" if "set xs \<subseteq> set g" for xs
    using that
  proof (induction xs)
    case (Cons x xs)
    obtain n es where x: "x = (n, es)" by fastforce
    have "n \<in> nodes g" using Cons.prems x by (force simp: nodes_def)
    moreover have "edges_of g n = {}" if "es = []"
      using Cons.prems x that by (simp add: edges_of_def map_of_eq_Some_iff[OF d] split: option.split)
        (metis d map_of_is_SomeI option.sel list.set(1) option.simps(3))
    ultimately show ?case using Cons kf
      by (auto simp: x tie_of_def rank_def keyed_by_def split: prod.splits)
  qed simp
  from this[of g] have "zero_outdegree key_fn g = Ok (map (rank kf g []) roots)"
    by (simp add: zero_outdegree_def roots_def)
  then show ?thesis using m by simp
qed

lemma sort_runs:
  assumes g: "graph_ok g" and kf: "\<forall>n\<in>nodes g. key_fn n = Ok (kf n)"
  shows "\<exists>ys od. lexicographical_topological_sort g key_fn = Some (Ok ys) \<and> stuck g ys \<and> kahn_inv kf g od [] ys"
proof -
  obtain zs where z: "zero_outdegree key_fn g = Ok zs"
      "mset zs = image_mset (rank kf g []) (mset_set {n. ready g [] n})"
    using zero_outdegree_spec[OF assms] by blast
  have "kahn_inv kf g g (fold heap_push zs []) []"
    using heap.heap_of_list[of zs] z(2) by (simp add: kahn_inv_def emits.start)
  then obtain ys od where "kahn (length g + 1) key_fn g g (fold heap_push zs []) [] = Some (Ok ys)" "stuck g ys"
      "kahn_inv kf g od [] ys"
    using kahn_runs[OF assms, of g "fold heap_push zs []" "[]" "length g + 1"] by (auto simp del: kahn.simps)
  then show ?thesis using z(1) by (auto simp: lexicographical_topological_sort_def)
qed

section \<open>The specification determines the result\<close>

lemma emits_length_unique:
  assumes "emits kf g xs" "emits kf g ys" "length xs = length ys"
  shows "xs = ys"
  using assms
proof (induction xs arbitrary: ys rule: rev_induct)
  case (snoc n xs)
  obtain ys' m where y: "ys = ys' @ [m]" using snoc.prems(3) by (cases ys rule: rev_cases) auto
  have e: "emits kf g xs" "ready g xs n" "\<And>j. ready g xs j \<Longrightarrow> rank kf g xs n \<le> rank kf g xs j"
    using snoc.prems(1) by (auto elim: emits_snocE)
  have f: "emits kf g ys'" "ready g ys' m" "\<And>j. ready g ys' j \<Longrightarrow> rank kf g ys' m \<le> rank kf g ys' j"
    using snoc.prems(2) by (auto simp: y elim: emits_snocE)
  have eq: "xs = ys'" using snoc.IH[OF e(1) f(1)] snoc.prems(3) y by simp
  have "rank kf g xs n = rank kf g xs m" using e(2,3) f(2,3) eq by (intro antisym) auto
  then have "n = m" by (metis rank_event)
  then show ?case using eq y by simp
qed simp

lemma emits_prefix: "emits kf g ys \<Longrightarrow> k \<le> length ys \<Longrightarrow> emits kf g (take k ys)"
proof (induction arbitrary: k rule: emits.induct)
  case (emit xs n)
  then show ?case
    by (cases "k = Suc (length xs)") (auto intro: emits.emit)
qed (simp add: emits.start)

lemma emits_stuck_unique:
  assumes "emits kf g xs" "stuck g xs" "emits kf g ys" "stuck g ys"
  shows "xs = ys"
proof -
  have le: "length ys \<le> length xs" if x: "emits kf g xs" "stuck g xs" and y: "emits kf g ys" for xs ys
  proof (rule ccontr)
    assume "\<not> length ys \<le> length xs"
    then have l: "length xs < length ys" by simp
    have "xs = take (length xs) ys"
      using emits_length_unique[OF x(1) emits_prefix[OF y, of "length xs"]] l by simp
    moreover have "emits kf g (take (Suc (length xs)) ys)" using emits_prefix[OF y] l by simp
    then have "emits kf g (take (length xs) ys @ [ys ! length xs])" using l by (simp add: take_Suc_conv_app_nth)
    ultimately have "ready g xs (ys ! length xs)" by (auto elim: emits_snocE)
    then show False using x(2) by (simp add: stuck_def)
  qed
  show ?thesis using emits_length_unique[OF assms(1,3)] le[OF assms(1,2,3)] le[OF assms(3,4,1)] by simp
qed

text \<open>Two iteration orders of the same graph.\<close>

definition same_graph :: "'i graph \<Rightarrow> 'i graph \<Rightarrow> bool" where
  "same_graph g g' \<longleftrightarrow> nodes g = nodes g' \<and> (\<forall>n. edges_of g n = edges_of g' n)"

lemma emits_same_graph:
  assumes "same_graph g g'" "emits kf g xs"
  shows "emits kf g' xs"
  using assms(2)
proof (induction rule: emits.induct)
  case (emit xs n)
  have "ready g = ready g'" "rank kf g = rank kf g'"
    using assms(1) by (auto simp: same_graph_def ready_def rank_def keyed_by_def fun_eq_iff)
  then show ?case using emit by (auto intro: emits.emit)
qed (rule emits.start)

section \<open>Properties\<close>

lemma emits_at:
  assumes "emits kf g xs" "xs = us @ n # vs"
  shows "ready g us n" "ready g us m \<Longrightarrow> rank kf g us n \<le> rank kf g us m"
proof -
  have "emits kf g (us @ [n])" using emits_prefix[OF assms(1), of "Suc (length us)"] assms(2) by simp
  then show "ready g us n" "ready g us m \<Longrightarrow> rank kf g us n \<le> rank kf g us m" by (auto elim: emits_snocE)
qed

lemma sorted_before_aux: "emits kf g xs \<Longrightarrow> xs = us @ n # vs \<Longrightarrow> edges_of g n \<subseteq> set us"
  using emits_at(1) by (fastforce simp: ready_def)

text \<open>C6.  The sort always returns: it never runs out of the fuel \<open>length graph + 1\<close>, no \<open>expect\<close> fires, and the
  only errors are those of the key function.  Its result has no duplicates, contains only events of the
  graph, puts every event after all the events it references, and leaves out an event only if the event
  references an event that is also left out (so an acyclic graph is sorted completely).\<close>

theorem topological_sort_correct:
  assumes "graph_ok graph" "\<forall>n\<in>nodes graph. key_fn n = Ok (kf n)"
  shows "\<exists>xs. lexicographical_topological_sort graph key_fn = Some (Ok xs) \<and> distinct xs \<and> set xs \<subseteq> nodes graph
    \<and> (\<forall>us n vs. xs = us @ n # vs \<longrightarrow> edges_of graph n \<subseteq> set us)
    \<and> (\<forall>n\<in>nodes graph - set xs. \<exists>m\<in>edges_of graph n. m \<in> nodes graph - set xs)"
proof -
  obtain xs od where xs: "lexicographical_topological_sort graph key_fn = Some (Ok xs)" "stuck graph xs"
      "kahn_inv kf graph od [] xs"
    using sort_runs[OF assms] by blast
  have "\<forall>n\<in>nodes graph - set xs. \<exists>m\<in>edges_of graph n. m \<in> nodes graph - set xs"
    using xs(2) assms(1) unfolding stuck_def ready_def graph_ok_def by blast
  moreover have "\<forall>us n vs. xs = us @ n # vs \<longrightarrow> edges_of graph n \<subseteq> set us"
    using sorted_before_aux xs(3) by (metis kahn_inv_def)
  ultimately show ?thesis using xs(1,3) by (auto simp: kahn_inv_def)
qed

definition demo_graph :: "nat graph" where
  "demo_graph = [(4, [1, 3]), (3, [2]), (1, []), (2, [1])]"

definition demo_key :: "nat \<Rightarrow> int \<times> nat" where
  "demo_key n = (0, 10 - n)"

lemma demo_graph_ok: "graph_ok demo_graph"
  by (auto simp: graph_ok_def demo_graph_def edges_of_def nodes_def)

lemma topological_sort_correct_witness:
  "\<exists>xs. lexicographical_topological_sort demo_graph (\<lambda>n. Ok (demo_key n)) = Some (Ok xs) \<and> distinct xs
    \<and> set xs \<subseteq> nodes demo_graph"
  using topological_sort_correct[OF demo_graph_ok, of "\<lambda>n. Ok (demo_key n)" demo_key] by auto

text \<open>C15.  The sort implements its specification: the result is the maximal run that starts from the empty list
  and always emits, among the events whose references are all emitted, the one of least (negated power
  level, timestamp, event id), where an event with references is ranked with the level and timestamp of
  the last emitted event it references.  The specification has exactly one such run.\<close>

theorem topological_sort_refines:
  assumes "graph_ok graph" "\<forall>n\<in>nodes graph. key_fn n = Ok (kf n)"
  shows "lexicographical_topological_sort graph key_fn = Some (Ok xs) \<longleftrightarrow> emits kf graph xs \<and> stuck graph xs"
proof -
  obtain ys od where ys: "lexicographical_topological_sort graph key_fn = Some (Ok ys)" "stuck graph ys"
      "kahn_inv kf graph od [] ys"
    using sort_runs[OF assms] by blast
  then have "emits kf graph ys" by (simp add: kahn_inv_def)
  then show ?thesis using ys(1,2) emits_stuck_unique[of kf graph xs ys] by auto
qed

lemma topological_sort_refines_witness:
  "emits demo_key demo_graph [1, 2, 3, 4] \<and> stuck demo_graph [1, 2, 3, 4]"
proof -
  have "lexicographical_topological_sort demo_graph (\<lambda>n. Ok (demo_key n)) = Some (Ok [1, 2, 3, 4])"
    by code_simp
  then show ?thesis
    using topological_sort_refines[OF demo_graph_ok, of "\<lambda>n. Ok (demo_key n)" demo_key "[1, 2, 3, 4]"] by simp
qed

text \<open>The result does not depend on the iteration order of the hash map and the hash sets: two graphs with
  the same events and references, whatever the order of their entries, are sorted alike.\<close>

lemma topological_sort_order_independent:
  assumes "graph_ok g" "graph_ok g'" "same_graph g g'" "\<forall>n\<in>nodes g. key_fn n = Ok (kf n)"
  shows "lexicographical_topological_sort g key_fn = lexicographical_topological_sort g' key_fn"
proof -
  have n: "nodes g' = nodes g" using assms(3) by (simp add: same_graph_def)
  obtain xs od where xs: "lexicographical_topological_sort g key_fn = Some (Ok xs)" "stuck g xs"
      "kahn_inv kf g od [] xs"
    using sort_runs[OF assms(1,4)] by blast
  obtain ys od' where ys: "lexicographical_topological_sort g' key_fn = Some (Ok ys)" "stuck g' ys"
      "kahn_inv kf g' od' [] ys"
    using sort_runs[OF assms(2), of key_fn kf] assms(4) n by auto
  have "emits kf g' xs" using emits_same_graph[OF assms(3)] xs(3) by (simp add: kahn_inv_def)
  moreover have "stuck g' xs" using xs(2) assms(3) by (simp add: stuck_def ready_def same_graph_def)
  ultimately have "xs = ys" using emits_stuck_unique[of kf g' xs ys] ys(2,3) by (simp add: kahn_inv_def)
  then show ?thesis using xs(1) ys(1) by simp
qed

text \<open>C16.  An event that references others is queued with the level and the timestamp of the last of them, not
  with its own (the code calls \<open>key_fn(node)\<close> where it queues \<open>parent\<close>).  So two events that reference the
  same events are ordered by their event ids alone: neither the power level of their senders nor their age
  is looked at.\<close>

theorem siblings_ordered_by_id:
  assumes "graph_ok graph" "\<forall>n\<in>nodes graph. key_fn n = Ok (kf n)"
    and "lexicographical_topological_sort graph key_fn = Some (Ok (us @ m # vs))"
    and "edges_of graph n = edges_of graph m" "edges_of graph m \<noteq> {}" "n < m"
  shows "n \<in> set us"
proof (rule ccontr)
  assume n: "n \<notin> set us"
  obtain ys od where ys: "lexicographical_topological_sort graph key_fn = Some (Ok ys)"
      "kahn_inv kf graph od [] ys"
    using sort_runs[OF assms(1,2)] by blast
  then have e: "emits kf graph (us @ m # vs)" using assms(3) by (simp add: kahn_inv_def)
  have m: "ready graph us m" using emits_at(1)[OF e refl] .
  obtain j where "j \<in> edges_of graph n" using assms(4,5) by blast
  then have "ready graph us n" using m n assms(4) edges_of_nodes[of j graph n] by (simp add: ready_def)
  then have "rank kf graph us m \<le> rank kf graph us n" using emits_at(2)[OF e refl] by blast
  moreover have "keyed_by graph us n = keyed_by graph us m" using assms(4,5) by (simp add: keyed_by_def)
  ultimately show False using assms(6)
    by (auto simp: rank_def less_eq_tie_breaker_def split: prod.splits)
qed

definition sibling_graph :: "nat graph" where
  "sibling_graph = [(1, []), (2, [1]), (3, [1])]"

definition sibling_key :: "nat \<Rightarrow> int \<times> nat" where
  "sibling_key n = (if n = 3 then (100, 0) else (0, 5))"

lemma siblings_ordered_by_id_witness:
  "lexicographical_topological_sort sibling_graph (\<lambda>n. Ok (sibling_key n)) = Some (Ok [1, 2, 3])
    \<and> 2 \<in> set [1, 2 :: nat]"
proof -
  have r: "lexicographical_topological_sort sibling_graph (\<lambda>n. Ok (sibling_key n)) = Some (Ok ([1, 2] @ 3 # []))"
    by code_simp
  have "graph_ok sibling_graph" by (auto simp: graph_ok_def sibling_graph_def edges_of_def nodes_def)
  then have "2 \<in> set [1, 2 :: nat]"
    by (rule siblings_ordered_by_id[OF _ _ r]) (auto simp: sibling_graph_def edges_of_def)
  then show ?thesis using r by simp
qed

end
