(* ===== verification/Power_Order.thy ===== *)
theory Power_Order
  imports Topological_Sort
begin

text \<open>The order of the power events in \<^verbatim>\<open>ruma-state-res/src/lib.rs\<close>: \<open>is_power_event\<close>,
  \<open>add_event_and_auth_chain_to_graph\<close>, \<open>get_power_level_for_sender\<close> and
  \<open>reverse_topological_power_sort\<close>.  Event ids are strings; \<open>fetch_event\<close> is a function; a hash map is an
  association list with distinct keys and a hash set a list without duplicates, in iteration order.\<close>

section \<open>Hash maps\<close>

definition hm_insert :: "'k \<Rightarrow> 'v \<Rightarrow> ('k \<times> 'v) list \<Rightarrow> ('k \<times> 'v) list" where
  "hm_insert k v m = (if k \<in> fst ` set m then map_upd k v m else m @ [(k, v)])"

text \<open>\<open>map.entry(k).or_default()\<close>\<close>

definition hm_default :: "'k \<Rightarrow> 'v \<Rightarrow> ('k \<times> 'v) list \<Rightarrow> ('k \<times> 'v) list" where
  "hm_default k v m = (if k \<in> fst ` set m then m else m @ [(k, v)])"

lemma map_of_hm_insert [simp]: "map_of (hm_insert k v m) = (map_of m)(k \<mapsto> v)"
proof
  fix x
  show "map_of (hm_insert k v m) x = ((map_of m)(k \<mapsto> v)) x"
  proof (cases "map_of m k")
    case None
    then have "k \<notin> fst ` set m" by (simp add: map_of_eq_None_iff)
    then show ?thesis using None by (cases "x = k") (simp_all add: hm_insert_def map_add_def split: option.split)
  next
    case (Some w)
    then have "k \<in> fst ` set m" by (metis map_of_eq_None_iff option.simps(3))
    then show ?thesis using Some by (cases "x = k") (simp_all add: hm_insert_def map_of_map_upd)
  qed
qed

lemma distinct_hm_insert [simp]: "distinct (map fst m) \<Longrightarrow> distinct (map fst (hm_insert k v m))"
  by (simp add: hm_insert_def)

lemma keys_hm_insert [simp]: "fst ` set (hm_insert k v m) = insert k (fst ` set m)"
proof (rule set_eqI)
  fix x
  have "x \<in> fst ` set n \<longleftrightarrow> map_of n x \<noteq> None" for n :: "('a \<times> 'b) list"
    by (simp add: map_of_eq_None_iff)
  then show "x \<in> fst ` set (hm_insert k v m) \<longleftrightarrow> x \<in> insert k (fst ` set m)" by simp
qed

lemma keys_hm_default [simp]: "fst ` set (hm_default k v m) = insert k (fst ` set m)"
  by (auto simp: hm_default_def)

type_synonym fetch = "string \<Rightarrow> event option"

section \<open>Power events\<close>

definition is_type_and_key :: "event \<Rightarrow> event_type \<Rightarrow> string \<Rightarrow> bool" where
  "is_type_and_key ev t key \<longleftrightarrow> ev_type ev = t \<and> ev_state_key ev = Some key"

definition is_power_event :: "(nat \<Rightarrow> bool) \<Rightarrow> event \<Rightarrow> bool" where
  "is_power_event uni ev =
     (if ev_type ev \<in> {''m.room.power_levels'', ''m.room.join_rules'', ''m.room.create''}
      then ev_state_key ev = Some []
      else if ev_type ev = ''m.room.member'' then
        (case de_member_content uni (ev_content ev) of
           Some content \<Rightarrow>
             if membership content \<in> {Leave, Ban} then Some (ev_sender ev) \<noteq> ev_state_key ev else False
         | None \<Rightarrow> False)
      else False)"

definition is_power_event_id :: "(nat \<Rightarrow> bool) \<Rightarrow> string \<Rightarrow> fetch \<Rightarrow> bool" where
  "is_power_event_id uni event_id fetch_event =
     (case fetch_event event_id of Some state \<Rightarrow> is_power_event uni state | None \<Rightarrow> False)"

section \<open>The graph of auth events\<close>

text \<open>\<open>fetch_event(eid).as_ref().map(|ev| ev.auth_events()).into_iter().flatten()\<close>\<close>

definition auth_of :: "fetch \<Rightarrow> string \<Rightarrow> string list" where
  "auth_of fetch_event eid = (case fetch_event eid of Some ev \<Rightarrow> ev_auth ev | None \<Rightarrow> [])"

definition graph_edges :: "string graph \<Rightarrow> string \<Rightarrow> string list" where
  "graph_edges graph eid = (case map_of graph eid of Some es \<Rightarrow> es | None \<Rightarrow> [])"

text \<open>\<open>graph_loop\<close> is the \<open>while let\<close> of \<open>add_event_and_auth_chain_to_graph\<close>; the head of the list is
  the top of the stack.  Each round either enters a new event into the graph or, when the popped event is
  already there, shortens the run of known events on top of the stack.\<close>

function graph_loop :: "fetch \<Rightarrow> string list \<Rightarrow> string graph \<Rightarrow> string list \<Rightarrow> string graph" where
  "graph_loop fetch_event auth_diff graph [] = graph"
| "graph_loop fetch_event auth_diff graph (eid # state) =
     (let graph' = hm_default eid [] graph;
          aids = filter (\<lambda>aid. aid \<in> set auth_diff) (auth_of fetch_event eid);
          new = filter (\<lambda>aid. aid \<notin> fst ` set graph') aids
      in graph_loop fetch_event auth_diff
           (hm_insert eid (fold push_new aids (graph_edges graph' eid)) graph') (rev new @ state))"
  by pat_completeness auto

termination
proof (relation "(\<lambda>(f, ad, g, st). card ((set ad \<union> set st) - fst ` set g)) <*mlex*>
    measure (\<lambda>(f, ad, g, st). length (takeWhile (\<lambda>i. i \<in> fst ` set g) st))", goal_cases)
  case 1
  then show ?case by (auto intro: wf_mlex)
next
  case (2 f ad g eid st g' aids new)
  note d = 2
  let ?g2 = "hm_insert eid (fold push_new aids (graph_edges g' eid)) g'"
  have k: "fst ` set ?g2 = insert eid (fst ` set g)" using d(1) by simp
  have new: "set new \<subseteq> set ad" "\<And>i. i \<in> set new \<Longrightarrow> i \<notin> insert eid (fst ` set g)"
    using d by auto
  have sub: "(set ad \<union> set (rev new @ st)) - fst ` set ?g2 \<subseteq> (set ad \<union> set (eid # st)) - fst ` set g - {eid}"
    using new k by auto
  show ?case
  proof (cases "eid \<in> fst ` set g")
    case False
    then have "card ((set ad \<union> set (rev new @ st)) - fst ` set ?g2) < card ((set ad \<union> set (eid # st)) - fst ` set g)"
      by (intro psubset_card_mono) (use sub in auto)
    then show ?thesis by (auto intro: mlex_less)
  next
    case True
    have le: "card ((set ad \<union> set (rev new @ st)) - fst ` set ?g2) \<le> card ((set ad \<union> set (eid # st)) - fst ` set g)"
      by (rule card_mono) (use sub in auto)
    have "length (takeWhile (\<lambda>i. i \<in> fst ` set ?g2) (rev new @ st))
        < length (takeWhile (\<lambda>i. i \<in> fst ` set g) (eid # st))"
    proof (cases new rule: rev_cases)
      case Nil
      then show ?thesis using True k by (simp add: insert_absorb)
    next
      case (snoc ns n)
      then have "n \<notin> fst ` set ?g2" using new(2)[of n] k by auto
      then show ?thesis using True snoc by simp
    qed
    then show ?thesis using le by (auto intro!: mlex_leq)
  qed
qed

definition add_event_and_auth_chain_to_graph :: "fetch \<Rightarrow> string list \<Rightarrow> string graph \<Rightarrow> string \<Rightarrow> string graph" where
  "add_event_and_auth_chain_to_graph fetch_event auth_diff graph event_id =
     graph_loop fetch_event auth_diff graph [event_id]"

section \<open>The sort\<close>

text \<open>The sender's level by the first power levels event among the auth events of the event.\<close>

definition get_power_level_for_sender :: "string \<Rightarrow> fetch \<Rightarrow> (int, sr_error) result" where
  "get_power_level_for_sender event_id fetch_event =
     (let event = fetch_event event_id;
          aevs = List.map_filter fetch_event (case event of Some pdu \<Rightarrow> ev_auth pdu | None \<Rightarrow> [])
      in case find (\<lambda>aev. is_type_and_key aev ''m.room.power_levels'' []) aevs of
           None \<Rightarrow> Ok 0
         | Some ev \<Rightarrow>
             and_then (serde (de_power_levels_fields (ev_content ev))) (\<lambda>(us, ud).
             Ok (case Option.bind event (\<lambda>ev. bt_get us (ev_sender ev)) of Some level \<Rightarrow> level | None \<Rightarrow> ud)))"

definition power_key :: "fetch \<Rightarrow> (string \<times> int) list \<Rightarrow> string key_fn" where
  "power_key fetch_event event_to_pl event_id =
     and_then (ok_or (NotFound []) (fetch_event event_id)) (\<lambda>ev.
     and_then (ok_or (NotFound []) (map_of event_to_pl event_id)) (\<lambda>pl. Ok (pl, ev_ts ev)))"

definition reverse_topological_power_sort ::
    "string list \<Rightarrow> string list \<Rightarrow> fetch \<Rightarrow> (string list, sr_error) result option" where
  "reverse_topological_power_sort events_to_sort auth_diff fetch_event =
     (let graph = foldl (add_event_and_auth_chain_to_graph fetch_event auth_diff) [] events_to_sort
      in case map_res (\<lambda>i. and_then (get_power_level_for_sender i fetch_event) (\<lambda>pl. Ok (i, pl))) (map fst graph) of
           Ok event_to_pl \<Rightarrow> lexicographical_topological_sort graph (power_key fetch_event event_to_pl)
         | Err e \<Rightarrow> Some (Err e)
         | Panic \<Rightarrow> Some Panic)"

section \<open>The graph built\<close>

text \<open>The auth events of an event that belong to the conflicted set, and the events reached by them.\<close>

definition auth_in :: "fetch \<Rightarrow> string list \<Rightarrow> string \<Rightarrow> string set" where
  "auth_in fetch_event auth_diff n = set (auth_of fetch_event n) \<inter> set auth_diff"

inductive_set auth_closure :: "fetch \<Rightarrow> string list \<Rightarrow> string set \<Rightarrow> string set"
  for fetch_event auth_diff roots where
  root: "r \<in> roots \<Longrightarrow> r \<in> auth_closure fetch_event auth_diff roots"
| step: "n \<in> auth_closure fetch_event auth_diff roots \<Longrightarrow> a \<in> auth_in fetch_event auth_diff n
    \<Longrightarrow> a \<in> auth_closure fetch_event auth_diff roots"

lemma auth_closure_mono:
  assumes "roots \<subseteq> roots'" "set ad \<subseteq> set ad'"
  shows "auth_closure f ad roots \<subseteq> auth_closure f ad' roots'"
proof
  fix x assume "x \<in> auth_closure f ad roots"
  then show "x \<in> auth_closure f ad' roots'"
  proof induction
    case (root r)
    then show ?case using assms(1) by (blast intro: auth_closure.root)
  next
    case (step n a)
    then have "a \<in> auth_in f ad' n" using assms(2) by (auto simp: auth_in_def)
    with step.IH show ?case by (rule auth_closure.step)
  qed
qed

lemma map_of_pairs: "i \<in> set is \<Longrightarrow> map_of (map (\<lambda>i. (i, h i)) is) i = Some (h i)"
  by (simp add: map_of_map_restrict)

definition graph_inv :: "fetch \<Rightarrow> string list \<Rightarrow> string set \<Rightarrow> string graph \<Rightarrow> string list \<Rightarrow> bool" where
  "graph_inv f ad roots g st \<longleftrightarrow> distinct (map fst g)
    \<and> (\<forall>n\<in>nodes g. edges_of g n = auth_in f ad n \<and> auth_in f ad n \<subseteq> nodes g \<union> set st)
    \<and> roots \<subseteq> nodes g \<union> set st \<and> nodes g \<union> set st \<subseteq> auth_closure f ad roots"

lemma set_push_new [simp]: "set (push_new x xs) = insert x (set xs)"
  by (auto simp: push_new_def)

lemma set_fold_push_new [simp]: "set (fold push_new xs ys) = set xs \<union> set ys"
  by (induction xs arbitrary: ys) auto

lemma nodes_hm_insert [simp]: "nodes (hm_insert k v g) = insert k (nodes g)"
  by (simp add: nodes_def)

lemma nodes_hm_default [simp]: "nodes (hm_default k v g) = insert k (nodes g)"
  by (simp add: nodes_def)

lemma edges_of_hm_insert [simp]: "edges_of (hm_insert k v g) n = (if n = k then set v else edges_of g n)"
  by (simp add: edges_of_def)

lemma graph_edges_set: "set (graph_edges g n) = edges_of g n"
  by (simp add: graph_edges_def edges_of_def split: option.split)

lemma edges_of_hm_default [simp]: "edges_of (hm_default k [] g) n = edges_of g n"
proof (cases "k \<in> fst ` set g")
  case False
  then have "map_of g k = None" by (simp add: map_of_eq_None_iff)
  then show ?thesis using False by (cases "n = k") (simp_all add: edges_of_def hm_default_def map_add_def split: option.split)
qed (simp add: hm_default_def)

lemma distinct_hm_default [simp]: "distinct (map fst m) \<Longrightarrow> distinct (map fst (hm_default k v m))"
  by (simp add: hm_default_def)

lemma graph_loop_inv:
  assumes "graph_inv f ad roots g st"
  shows "graph_inv f ad roots (graph_loop f ad g st) []"
  using assms
proof (induction f ad g st rule: graph_loop.induct)
  case (2 f ad g eid st)
  define g' where "g' = hm_default eid [] g"
  define aids where "aids = filter (\<lambda>aid. aid \<in> set ad) (auth_of f eid)"
  define new where "new = filter (\<lambda>aid. aid \<notin> fst ` set g') aids"
  define g2 where "g2 = hm_insert eid (fold push_new aids (graph_edges g' eid)) g'"
  have I: "distinct (map fst g)" "\<And>n. n \<in> nodes g \<Longrightarrow> edges_of g n = auth_in f ad n"
    "\<And>n. n \<in> nodes g \<Longrightarrow> auth_in f ad n \<subseteq> nodes g \<union> set (eid # st)" "roots \<subseteq> nodes g \<union> set (eid # st)"
    "nodes g \<union> set (eid # st) \<subseteq> auth_closure f ad roots"
    using "2.prems" by (auto simp: graph_inv_def)
  have aids: "set aids = auth_in f ad eid" by (auto simp: aids_def auth_in_def)
  have new: "set new = auth_in f ad eid - insert eid (nodes g)" by (auto simp: new_def aids g'_def nodes_def[symmetric])
  have ed: "edges_of g eid \<subseteq> auth_in f ad eid"
    using I(2)[of eid] edges_of_nodes[of _ g eid] by blast
  have nod: "nodes g2 = insert eid (nodes g)" by (simp add: g2_def g'_def)
  have "edges_of g2 n = auth_in f ad n" if "n \<in> nodes g2" for n
    using that I(2)[of n] ed by (auto simp: g2_def g'_def graph_edges_set aids nodes_def[symmetric])
  moreover have "auth_in f ad n \<subseteq> nodes g2 \<union> set (rev new @ st)" if "n \<in> nodes g2" for n
    using that I(3)[of n] by (cases "n = eid") (auto simp: nod new)
  moreover have "auth_in f ad eid \<subseteq> auth_closure f ad roots" using I(5) by (auto intro: auth_closure.step)
  ultimately have "graph_inv f ad roots g2 (rev new @ st)"
    using I(1,4,5) by (auto simp: graph_inv_def nod new) (simp add: g2_def g'_def)
  then have "graph_inv f ad roots (graph_loop f ad g2 (rev new @ st)) []"
    using "2.IH"[OF g'_def aids_def new_def] by (simp add: g2_def)
  then show ?case by (simp add: Let_def g'_def[symmetric] aids_def[symmetric] new_def[symmetric] g2_def[symmetric])
qed simp

lemma graph_built:
  "graph_inv f ad (set es) (foldl (add_event_and_auth_chain_to_graph f ad) [] es) []"
proof (induction es rule: rev_induct)
  case Nil
  then show ?case by (simp add: graph_inv_def nodes_def)
next
  case (snoc e es)
  let ?g = "foldl (add_event_and_auth_chain_to_graph f ad) [] es"
  have "auth_closure f ad (set es) \<subseteq> auth_closure f ad (set (es @ [e]))"
    by (rule auth_closure_mono) auto
  moreover have "e \<in> auth_closure f ad (set (es @ [e]))" by (rule auth_closure.root) simp
  ultimately have "graph_inv f ad (set (es @ [e])) ?g [e]"
    using snoc unfolding graph_inv_def by auto
  then have "graph_inv f ad (set (es @ [e])) (graph_loop f ad ?g [e]) []" by (rule graph_loop_inv)
  moreover have "foldl (add_event_and_auth_chain_to_graph f ad) [] (es @ [e]) = graph_loop f ad ?g [e]"
    by (simp only: foldl_append foldl.simps) (simp only: add_event_and_auth_chain_to_graph_def)
  ultimately show ?case by (simp only:)
qed

lemma graph_inv_done:
  assumes "graph_inv f ad roots g []"
  shows "graph_ok g" "nodes g = auth_closure f ad roots"
    "edges_of g n = (if n \<in> auth_closure f ad roots then auth_in f ad n else {})"
proof -
  have I: "distinct (map fst g)" "\<And>n. n \<in> nodes g \<Longrightarrow> edges_of g n = auth_in f ad n"
    "\<And>n. n \<in> nodes g \<Longrightarrow> auth_in f ad n \<subseteq> nodes g" "roots \<subseteq> nodes g" "nodes g \<subseteq> auth_closure f ad roots"
    using assms by (auto simp: graph_inv_def)
  show n: "nodes g = auth_closure f ad roots"
  proof
    show "auth_closure f ad roots \<subseteq> nodes g"
    proof
      fix x assume "x \<in> auth_closure f ad roots"
      then show "x \<in> nodes g" by induction (use I(3,4) in auto)
    qed
  qed (rule I(5))
  show e: "edges_of g n = (if n \<in> auth_closure f ad roots then auth_in f ad n else {})"
    using I(2) n edges_of_nodes[of _ g n] by auto
  have "edges_of g m \<subseteq> nodes g" for m
    using I(2,3)[of m] edges_of_nodes[of _ g m] by (cases "m \<in> nodes g") auto
  then show "graph_ok g" using I(1) by (simp add: graph_ok_def)
qed

definition power_sort_graph :: "fetch \<Rightarrow> string list \<Rightarrow> string list \<Rightarrow> string graph" where
  "power_sort_graph f ad es = foldl (add_event_and_auth_chain_to_graph f ad) [] es"

lemmas power_sort_graph_facts = graph_inv_done[OF graph_built, folded power_sort_graph_def]

text \<open>The key of an event: its sender's level and its timestamp.\<close>

definition level_and_ts :: "fetch \<Rightarrow> string \<Rightarrow> int \<times> nat" where
  "level_and_ts f i = (case get_power_level_for_sender i f of Ok pl \<Rightarrow> pl | _ \<Rightarrow> 0, ev_ts (the (f i)))"

definition levels_known :: "fetch \<Rightarrow> string \<Rightarrow> bool" where
  "levels_known f i \<longleftrightarrow> f i \<noteq> None \<and> is_ok (get_power_level_for_sender i f)"

lemma power_levels_collected:
  "\<forall>i\<in>set is. levels_known f i \<Longrightarrow>
    map_res (\<lambda>i. and_then (get_power_level_for_sender i f) (\<lambda>pl. Ok (i, pl))) is
      = Ok (map (\<lambda>i. (i, fst (level_and_ts f i))) is)"
  by (induction "is") (auto simp: levels_known_def level_and_ts_def is_ok_iff)

lemma power_sort_as_sort:
  assumes "\<forall>i\<in>auth_closure f ad (set es). levels_known f i"
  shows "\<exists>key. reverse_topological_power_sort es ad f = lexicographical_topological_sort (power_sort_graph f ad es) key
    \<and> (\<forall>n\<in>nodes (power_sort_graph f ad es). key n = Ok (level_and_ts f n))"
proof -
  let ?g = "power_sort_graph f ad es"
  have n: "set (map fst ?g) = auth_closure f ad (set es)"
    using power_sort_graph_facts(2)[of f ad es] by (simp add: nodes_def)
  let ?pl = "map (\<lambda>i. (i, fst (level_and_ts f i))) (map fst ?g)"
  have c: "map_res (\<lambda>i. and_then (get_power_level_for_sender i f) (\<lambda>pl. Ok (i, pl))) (map fst ?g) = Ok ?pl"
    by (rule power_levels_collected) (use assms n in simp)
  have "power_key f ?pl i = Ok (level_and_ts f i)" if i: "i \<in> set (map fst ?g)" for i
  proof -
    have "map_of ?pl i = Some (fst (level_and_ts f i))" using i by (rule map_of_pairs)
    moreover obtain ev where "f i = Some ev" using assms i unfolding n levels_known_def by blast
    ultimately show ?thesis by (simp add: power_key_def level_and_ts_def)
  qed
  then show ?thesis
    using c by (intro exI[of _ "power_key f ?pl"])
      (simp add: reverse_topological_power_sort_def power_sort_graph_def[symmetric] Let_def nodes_def)
qed

lemma level_error: "get_power_level_for_sender i f = Err e \<Longrightarrow> e = SerdeJson"
  "get_power_level_for_sender i f \<noteq> Panic"
  by (auto simp: get_power_level_for_sender_def serde_def Let_def res_simps split: option.splits prod.splits)

lemma power_levels_fail:
  "\<exists>i\<in>set is. \<not> is_ok (get_power_level_for_sender i f) \<Longrightarrow>
    map_res (\<lambda>i. and_then (get_power_level_for_sender i f) (\<lambda>pl. Ok (i, pl))) is = Err SerdeJson"
proof (induction "is")
  case (Cons i "is")
  show ?case
  proof (cases "get_power_level_for_sender i f")
    case (Ok pl)
    then show ?thesis using Cons by auto
  qed (use level_error[of i f] in auto)
qed simp

lemma power_sort_level_error:
  assumes "\<exists>i\<in>auth_closure f ad (set es). \<not> is_ok (get_power_level_for_sender i f)"
  shows "reverse_topological_power_sort es ad f = Some (Err SerdeJson)"
proof -
  let ?g = "power_sort_graph f ad es"
  have "set (map fst ?g) = auth_closure f ad (set es)"
    using power_sort_graph_facts(2)[of f ad es] by (simp add: nodes_def)
  then have "map_res (\<lambda>i. and_then (get_power_level_for_sender i f) (\<lambda>pl. Ok (i, pl))) (map fst ?g) = Err SerdeJson"
    by (intro power_levels_fail) (use assms in simp)
  then show ?thesis by (simp add: reverse_topological_power_sort_def power_sort_graph_def[symmetric])
qed

section \<open>Properties\<close>

definition acyclic_auth :: "fetch \<Rightarrow> bool" where
  "acyclic_auth f \<longleftrightarrow> (\<exists>d :: string \<Rightarrow> nat. \<forall>i. \<forall>a\<in>set (auth_of f i). d a < d i)"

text \<open> \<open>add_event_and_auth_chain_to_graph\<close>, folded over the events to sort, builds the auth graph of the
  conflicted set: its nodes are exactly the events reachable from them through auth events inside the auth
  difference, and the references of each node are exactly its auth events in the auth difference.  (The
  loop terminates even on cyclic auth events.)\<close>

lemma auth_graph_exact:
  "nodes (foldl (add_event_and_auth_chain_to_graph f ad) [] es) = auth_closure f ad (set es)
   \<and> (\<forall>n\<in>auth_closure f ad (set es).
        edges_of (foldl (add_event_and_auth_chain_to_graph f ad) [] es) n = set (auth_of f n) \<inter> set ad)
   \<and> distinct (map fst (foldl (add_event_and_auth_chain_to_graph f ad) [] es))"
proof -
  have "distinct (map fst (foldl (add_event_and_auth_chain_to_graph f ad) [] es))"
    using graph_built[of f ad es] by (simp only: graph_inv_def)
  moreover have "edges_of (foldl (add_event_and_auth_chain_to_graph f ad) [] es) n = set (auth_of f n) \<inter> set ad"
    if "n \<in> auth_closure f ad (set es)" for n
    using graph_inv_done(3)[OF graph_built[of f ad es], of n] that by (simp only: auth_in_def if_True)
  ultimately show ?thesis using graph_inv_done(2)[OF graph_built[of f ad es]] by blast
qed

text \<open>C17.  The power events are sorted with their auth chain: if auth events are acyclic and every event of the
  chain can be fetched and has a power level, \<open>reverse_topological_power_sort\<close> returns a list without
  duplicates of exactly the events of the chain inside the auth difference, and each event comes after all
  of its auth events in the difference.\<close>

theorem power_sort_correct:
  assumes "\<forall>i\<in>auth_closure f ad (set es). levels_known f i" "acyclic_auth f"
  shows "\<exists>xs. reverse_topological_power_sort es ad f = Some (Ok xs) \<and> distinct xs
    \<and> set xs = auth_closure f ad (set es)
    \<and> (\<forall>us n vs. xs = us @ n # vs \<longrightarrow> set (auth_of f n) \<inter> set ad \<subseteq> set us)"
proof -
  let ?g = "power_sort_graph f ad es"
  obtain key where key: "reverse_topological_power_sort es ad f = lexicographical_topological_sort ?g key"
      "\<forall>n\<in>nodes ?g. key n = Ok (level_and_ts f n)"
    using power_sort_as_sort[OF assms(1)] by blast
  obtain xs od where xs: "lexicographical_topological_sort ?g key = Some (Ok xs)" "stuck ?g xs"
      "kahn_inv (level_and_ts f) ?g od [] xs"
    using sort_runs[OF power_sort_graph_facts(1) key(2)] by blast
  have sub: "set xs \<subseteq> nodes ?g" "distinct xs" and em: "emits (level_and_ts f) ?g xs"
    using xs(3) by (simp_all add: kahn_inv_def)
  obtain d :: "string \<Rightarrow> nat" where d: "\<And>i a. a \<in> set (auth_of f i) \<Longrightarrow> d a < d i"
    using assms(2) unfolding acyclic_auth_def by blast
  have e: "edges_of ?g n = set (auth_of f n) \<inter> set ad" if "n \<in> nodes ?g" for n
    using that power_sort_graph_facts(2,3) by (simp add: auth_in_def)
  have "n \<in> nodes ?g \<Longrightarrow> n \<in> set xs" for n
  proof (induction "d n" arbitrary: n rule: less_induct)
    case less
    have "edges_of ?g n \<subseteq> set xs"
    proof
      fix a assume a: "a \<in> edges_of ?g n"
      then have "d a < d n" using d e[OF less.prems] by blast
      moreover have "a \<in> nodes ?g" using a power_sort_graph_facts(1) unfolding graph_ok_def by blast
      ultimately show "a \<in> set xs" using less.hyps by blast
    qed
    then show ?case using xs(2) less.prems by (auto simp: stuck_def ready_def)
  qed
  then have all: "set xs = nodes ?g" using sub(1) by blast
  have "set (auth_of f n) \<inter> set ad \<subseteq> set us" if s: "xs = us @ n # vs" for us n vs
  proof -
    have "n \<in> nodes ?g" using s all by auto
    then show ?thesis using sorted_before_aux[OF em s] e by simp
  qed
  then show ?thesis using key(1) xs(1) sub(2) all power_sort_graph_facts(2) by metis
qed

definition chain_event :: "string \<Rightarrow> event_type \<Rightarrow> string list \<Rightarrow> event" where
  "chain_event i t auth = \<lparr> ev_id = i, ev_room = ''!r:b'', ev_sender = ''@a:b'', ev_ts = 0, ev_type = t,
     ev_content = [], ev_state_key = Some [], ev_prev = [], ev_auth = auth, ev_redacts = None \<rparr>"

definition chain_fetch :: fetch where
  "chain_fetch i =
     (if i = ''c'' then Some (chain_event i ''m.room.create'' [])
      else if i = ''p'' then Some (chain_event i ''m.room.power_levels'' [''c''])
      else if i = ''q'' then Some (chain_event i ''m.room.power_levels'' [''p'', ''c''])
      else None)"

lemma chain_acyclic: "acyclic_auth chain_fetch"
proof -
  let ?d = "\<lambda>i. if i = ''q'' then 2 else if i = ''p'' then 1 else (0 :: nat)"
  have "?d a < ?d i" if "a \<in> set (auth_of chain_fetch i)" for i a
    using that by (auto simp: auth_of_def chain_fetch_def chain_event_def split: if_splits)
  then show ?thesis unfolding acyclic_auth_def by (intro exI[of _ ?d]) blast
qed

lemma chain_closure: "auth_closure chain_fetch [''c'', ''p'', ''q''] {''q''} \<subseteq> {''c'', ''p'', ''q''}"
proof
  fix x assume "x \<in> auth_closure chain_fetch [''c'', ''p'', ''q''] {''q''}"
  then show "x \<in> {''c'', ''p'', ''q''}" by induction (auto simp: auth_in_def)
qed

lemma chain_levels: "i \<in> {''c'', ''p'', ''q''} \<Longrightarrow> levels_known chain_fetch i"
  by (auto simp: levels_known_def get_power_level_for_sender_def chain_fetch_def chain_event_def map_filter_def
      is_type_and_key_def serde_def de_power_levels_fields_def de_default_def)

lemma chain_levels_closure:
  "\<forall>i\<in>auth_closure chain_fetch [''c'', ''p'', ''q''] (set [''q'']). levels_known chain_fetch i"
  using chain_closure chain_levels by auto

lemma auth_graph_exact_witness:
  "edges_of (foldl (add_event_and_auth_chain_to_graph chain_fetch [''c'', ''p'', ''q'']) [] [''q'']) ''q'' = {''p'', ''c''}"
proof -
  have "''q'' \<in> auth_closure chain_fetch [''c'', ''p'', ''q''] (set [''q''])" by (rule auth_closure.root) simp
  then show ?thesis
    using auth_graph_exact[of chain_fetch "[''c'', ''p'', ''q'']" "[''q'']"]
    by (auto simp: auth_of_def chain_fetch_def chain_event_def)
qed

lemma power_sort_correct_witness:
  "\<exists>xs. reverse_topological_power_sort [''q''] [''c'', ''p'', ''q''] chain_fetch = Some (Ok xs) \<and> distinct xs
    \<and> ''q'' \<in> set xs"
proof -
  obtain xs where "reverse_topological_power_sort [''q''] [''c'', ''p'', ''q''] chain_fetch = Some (Ok xs)"
      "distinct xs" "set xs = auth_closure chain_fetch [''c'', ''p'', ''q''] (set [''q''])"
    using power_sort_correct[OF chain_levels_closure chain_acyclic] by blast
  moreover have "''q'' \<in> auth_closure chain_fetch [''c'', ''p'', ''q''] (set [''q''])"
    by (rule auth_closure.root) simp
  ultimately show ?thesis by blast
qed

lemma power_sort_order_aux:
  assumes "\<forall>i\<in>auth_closure f ad (set es). levels_known f i" "set es = set es'" "set ad = set ad'"
  shows "reverse_topological_power_sort es ad f = reverse_topological_power_sort es' ad' f"
proof -
  let ?g = "power_sort_graph f ad es" and ?g' = "power_sort_graph f ad' es'"
  have in_eq: "auth_in f ad' = auth_in f ad" using assms(3) by (simp add: auth_in_def fun_eq_iff)
  have c: "auth_closure f ad' (set es') = auth_closure f ad (set es)"
    using assms(2,3) by (intro equalityI auth_closure_mono) auto
  have sg: "same_graph ?g ?g'" using power_sort_graph_facts(2,3) c in_eq by (simp add: same_graph_def)
  obtain key where key: "reverse_topological_power_sort es ad f = lexicographical_topological_sort ?g key"
      "\<forall>n\<in>nodes ?g. key n = Ok (level_and_ts f n)"
    using power_sort_as_sort[OF assms(1)] by blast
  obtain key' where key': "reverse_topological_power_sort es' ad' f = lexicographical_topological_sort ?g' key'"
      "\<forall>n\<in>nodes ?g'. key' n = Ok (level_and_ts f n)"
    using power_sort_as_sort[of f ad' es'] assms(1) c by auto
  obtain xs od where xs: "lexicographical_topological_sort ?g key = Some (Ok xs)" "stuck ?g xs"
      "kahn_inv (level_and_ts f) ?g od [] xs"
    using sort_runs[OF power_sort_graph_facts(1) key(2)] by blast
  obtain ys od' where ys: "lexicographical_topological_sort ?g' key' = Some (Ok ys)" "stuck ?g' ys"
      "kahn_inv (level_and_ts f) ?g' od' [] ys"
    using sort_runs[OF power_sort_graph_facts(1) key'(2)] by blast
  have "emits (level_and_ts f) ?g' xs" using emits_same_graph[OF sg] xs(3) by (simp add: kahn_inv_def)
  moreover have "stuck ?g' xs" using xs(2) sg by (simp add: stuck_def ready_def same_graph_def)
  ultimately have "xs = ys" using emits_stuck_unique ys(2,3) by (metis kahn_inv_def)
  then show ?thesis using key(1) key'(1) xs(1) ys(1) by simp
qed

lemma power_sort_order:
  assumes "\<forall>i\<in>auth_closure f ad (set es). f i \<noteq> None" "set es = set es'" "set ad = set ad'"
  shows "reverse_topological_power_sort es ad f = reverse_topological_power_sort es' ad' f"
proof (cases "\<forall>i\<in>auth_closure f ad (set es). is_ok (get_power_level_for_sender i f)")
  case True
  then show ?thesis using assms by (intro power_sort_order_aux) (auto simp: levels_known_def)
next
  case False
  have "auth_closure f ad' (set es') = auth_closure f ad (set es)"
    using assms(2,3) by (intro equalityI auth_closure_mono) auto
  then show ?thesis
    using False power_sort_level_error[of f ad es] power_sort_level_error[of f ad' es'] by auto
qed

end
