(* ===== verification/Mainline.thy ===== *)
theory Mainline
  imports Power_Order "HOL-Library.Option_ord"
begin

text \<open>The mainline sort of \<^verbatim>\<open>ruma-state-res/src/lib.rs\<close>: \<open>mainline_sort\<close> and \<open>get_mainline_depth\<close>.
  Both follow power levels events backwards through auth events in a \<open>while let\<close> that runs forever on a
  cycle, so they are \<open>option\<close> valued: \<open>None\<close> is not returning.\<close>

section \<open>Walking back\<close>

text \<open>The inner \<open>for\<close>: the first auth event that is the power levels event; a missing event before it is an error.\<close>

fun find_power_event :: "fetch \<Rightarrow> string list \<Rightarrow> (event option, sr_error) result" where
  "find_power_event fetch_event [] = Ok None"
| "find_power_event fetch_event (aid # aids) =
     (case fetch_event aid of
        None \<Rightarrow> Err (NotFound (''Failed to find '' @ aid))
      | Some ev \<Rightarrow>
          if is_type_and_key ev ''m.room.power_levels'' [] then Ok (Some ev)
          else find_power_event fetch_event aids)"

text \<open>The same loop where it keeps the id of the auth event.\<close>

fun find_power_id :: "fetch \<Rightarrow> string list \<Rightarrow> (string option, sr_error) result" where
  "find_power_id fetch_event [] = Ok None"
| "find_power_id fetch_event (aid # aids) =
     (case fetch_event aid of
        None \<Rightarrow> Err (NotFound (''Failed to find '' @ aid))
      | Some ev \<Rightarrow>
          if is_type_and_key ev ''m.room.power_levels'' [] then Ok (Some aid)
          else find_power_id fetch_event aids)"

partial_function (option) mainline_of ::
    "fetch \<Rightarrow> string option \<Rightarrow> string list \<Rightarrow> (string list, sr_error) result option" where
  "mainline_of fetch_event pl mainline =
     (case pl of
        None \<Rightarrow> Some (Ok mainline)
      | Some p \<Rightarrow>
          (case fetch_event p of
             None \<Rightarrow> Some (Err (NotFound (''Failed to find '' @ p)))
           | Some event \<Rightarrow>
               (case find_power_id fetch_event (ev_auth event) of
                  Ok pl' \<Rightarrow> mainline_of fetch_event pl' (mainline @ [p])
                | Err e \<Rightarrow> Some (Err e)
                | Panic \<Rightarrow> Some Panic)))"

text \<open>\<open>mainline.iter().rev().enumerate()\<close> collected in a hash map: the oldest event has index 0.\<close>

definition mainline_map :: "string list \<Rightarrow> (string \<times> nat) list" where
  "mainline_map mainline =
     fold (\<lambda>(eid, idx) m. hm_insert eid idx m) (zip (rev mainline) [0..<length mainline]) []"

partial_function (option) get_mainline_depth ::
    "event option \<Rightarrow> (string \<times> nat) list \<Rightarrow> fetch \<Rightarrow> (nat, sr_error) result option" where
  "get_mainline_depth event m fetch_event =
     (case event of
        None \<Rightarrow> Some (Ok 0)
      | Some sort_ev \<Rightarrow>
          (case map_of m (ev_id sort_ev) of
             Some depth \<Rightarrow> Some (Ok depth)
           | None \<Rightarrow>
               (case find_power_event fetch_event (ev_auth sort_ev) of
                  Ok event' \<Rightarrow> get_mainline_depth event' m fetch_event
                | Err e \<Rightarrow> Some (Err e)
                | Panic \<Rightarrow> Some Panic)))"

declare mainline_of.simps [code] get_mainline_depth.simps [code]

section \<open>The sort\<close>

type_synonym order_key = "nat \<times> nat option \<times> string"

text \<open>The loop that fills \<open>order_map\<close>: events that cannot be fetched or whose depth is an error are dropped.\<close>

fun order_map ::
    "string list \<Rightarrow> (string \<times> nat) list \<Rightarrow> fetch \<Rightarrow> (string \<times> order_key) list \<Rightarrow> (string \<times> order_key) list option" where
  "order_map [] m fetch_event om = Some om"
| "order_map (i # is) m fetch_event om =
     (case fetch_event i of
        None \<Rightarrow> order_map is m fetch_event om
      | Some event \<Rightarrow>
          (case get_mainline_depth (Some event) m fetch_event of
             None \<Rightarrow> None
           | Some (Ok depth) \<Rightarrow>
               order_map is m fetch_event (hm_insert i (depth, map_option ev_ts (fetch_event i), i) om)
           | Some _ \<Rightarrow> order_map is m fetch_event om))"

definition mainline_sort ::
    "string list \<Rightarrow> string option \<Rightarrow> fetch \<Rightarrow> (string list, sr_error) result option" where
  "mainline_sort to_sort resolved_power_level fetch_event =
     (if to_sort = [] then Some (Ok [])
      else case mainline_of fetch_event resolved_power_level [] of
             None \<Rightarrow> None
           | Some (Err e) \<Rightarrow> Some (Err e)
           | Some Panic \<Rightarrow> Some Panic
           | Some (Ok mainline) \<Rightarrow>
               (case order_map to_sort (mainline_map mainline) fetch_event [] of
                  None \<Rightarrow> None
                | Some om \<Rightarrow> Some (Ok (sort_key (\<lambda>sort_id. the (map_of om sort_id)) (map fst om)))))"

section \<open>Termination\<close>

lemma find_power_id_mem: "find_power_id f aids = Ok (Some p) \<Longrightarrow> p \<in> set aids"
  by (induction aids) (auto split: option.splits if_splits)

lemma find_power_event_mem: "find_power_event f aids = Ok (Some ev) \<Longrightarrow> \<exists>a\<in>set aids. f a = Some ev"
  by (induction aids) (auto split: option.splits if_splits)

lemma find_power_no_panic [simp]: "find_power_id f aids \<noteq> Panic" "find_power_event f aids \<noteq> Panic"
  by (induction aids) (auto split: option.splits)

text \<open>A fetched event carries the id it was fetched by.\<close>

definition ids_match :: "fetch \<Rightarrow> bool" where
  "ids_match f \<longleftrightarrow> (\<forall>i ev. f i = Some ev \<longrightarrow> ev_id ev = i)"

lemma auth_of_Some: "f i = Some ev \<Longrightarrow> auth_of f i = ev_auth ev"
  by (simp add: auth_of_def)

lemma mainline_returns:
  assumes "acyclic_auth f"
  shows "mainline_of f pl acc \<noteq> None"
proof -
  obtain d :: "string \<Rightarrow> nat" where d: "\<And>i a. a \<in> set (auth_of f i) \<Longrightarrow> d a < d i"
    using assms unfolding acyclic_auth_def by blast
  have "mainline_of f (Some p) acc \<noteq> None" for p acc
  proof (induction "d p" arbitrary: p acc rule: less_induct)
    case less
    have "mainline_of f pl' (acc @ [p]) \<noteq> None"
      if "f p = Some ev" "find_power_id f (ev_auth ev) = Ok pl'" for ev pl'
    proof (cases pl')
      case None
      then show ?thesis by (simp add: mainline_of.simps)
    next
      case (Some q)
      then have "d q < d p" using d[of q p] find_power_id_mem[of f "ev_auth ev" q] that by (simp add: auth_of_Some)
      then show ?thesis using less Some by blast
    qed
    then show ?case
      by (subst mainline_of.simps) (simp split: option.split result.split)
  qed
  then show ?thesis by (cases pl) (simp add: mainline_of.simps, blast)
qed

lemma mainline_no_panic:
  "mainline_of f pl acc = Some r \<Longrightarrow> r \<noteq> Panic"
proof (erule mainline_of.raw_induct[rotated], intro notI)
  fix F f pl acc r
  assume ih: "\<And>f pl acc r. F f pl acc = Some r \<Longrightarrow> r \<noteq> Panic"
    and body: "(case pl of None \<Rightarrow> Some (Ok acc)
      | Some p \<Rightarrow> (case f p of None \<Rightarrow> Some (Err (NotFound (''Failed to find '' @ p)))
        | Some event \<Rightarrow> (case find_power_id f (ev_auth event) of Ok pl' \<Rightarrow> F f pl' (acc @ [p])
            | Err e \<Rightarrow> Some (Err e) | Panic \<Rightarrow> Some Panic))) = Some r"
    and r: "r = Panic"
  show False using body r ih by (auto split: option.splits result.splits)
qed

lemma mainline_sort_no_panic: "mainline_sort es pl f \<noteq> Some Panic"
  using mainline_no_panic[of f pl "[]"] by (auto simp: mainline_sort_def split: option.splits result.splits)

lemma depth_returns:
  assumes "acyclic_auth f" "f i = Some ev"
  shows "get_mainline_depth (Some ev) m f \<noteq> None"
proof -
  obtain d :: "string \<Rightarrow> nat" where d: "\<And>i a. a \<in> set (auth_of f i) \<Longrightarrow> d a < d i"
    using assms unfolding acyclic_auth_def by blast
  show ?thesis using assms(2)
  proof (induction "d i" arbitrary: i ev rule: less_induct)
    case less
    have "get_mainline_depth ev' m f \<noteq> None" if e: "find_power_event f (ev_auth ev) = Ok ev'" for ev'
    proof (cases ev')
      case None
      then show ?thesis by (simp add: get_mainline_depth.simps)
    next
      case (Some e')
      then obtain a where a: "a \<in> set (ev_auth ev)" "f a = Some e'" using find_power_event_mem e by blast
      then have "d a < d i" using d[of a i] less.prems by (simp add: auth_of_Some)
      then show ?thesis using less.hyps a(2) Some by blast
    qed
    then show ?case
      by (subst get_mainline_depth.simps) (simp split: option.split result.split)
  qed
qed

lemma order_map_returns: "acyclic_auth f \<Longrightarrow> order_map is m f om \<noteq> None"
proof (induction "is" arbitrary: om)
  case (Cons i "is")
  then show ?case using depth_returns[OF Cons.prems, of i _ m]
    by (auto split: option.splits result.splits)
qed simp

section \<open>The keys of the sort\<close>

definition sort_entry :: "fetch \<Rightarrow> (string \<times> nat) list \<Rightarrow> string \<Rightarrow> order_key option" where
  "sort_entry f m i =
     (case f i of
        None \<Rightarrow> None
      | Some ev \<Rightarrow>
          (case get_mainline_depth (Some ev) m f of
             Some (Ok depth) \<Rightarrow> Some (depth, Some (ev_ts ev), i) | _ \<Rightarrow> None))"

lemma sort_entry_id: "sort_entry f m i = Some k \<Longrightarrow> snd (snd k) = i"
  by (auto simp: sort_entry_def split: option.splits result.splits)

lemma sort_entry_inj:
  assumes "sort_entry f m i \<noteq> None" "sort_entry f m j \<noteq> None" "the (sort_entry f m i) = the (sort_entry f m j)"
  shows "i = j"
proof -
  obtain a where a: "sort_entry f m i = Some a" using assms(1) by auto
  obtain b where b: "sort_entry f m j = Some b" using assms(2) by auto
  have "a = b" using assms(3) a b by simp
  then show ?thesis using sort_entry_id[OF a] sort_entry_id[OF b] by simp
qed

lemma order_map_spec:
  assumes "order_map is m f om = Some om'" "distinct (map fst om)" "\<And>i k. map_of om i = Some k \<Longrightarrow> sort_entry f m i = Some k"
  shows "distinct (map fst om')" "map_of om' = (\<lambda>i. if i \<in> set is then sort_entry f m i else map_of om i)"
proof -
  have "distinct (map fst om') \<and> map_of om' = (\<lambda>i. if i \<in> set is then sort_entry f m i else map_of om i)"
    using assms
  proof (induction "is" arbitrary: om)
    case (Cons i "is")
    show ?case
    proof (cases "sort_entry f m i")
      case None
      have r: "order_map is m f om = Some om'"
        using Cons.prems(1) None by (auto simp: sort_entry_def split: option.splits result.splits)
      have "map_of om i = None" using Cons.prems(3)[of i] None by (cases "map_of om i") auto
      then show ?thesis using Cons.IH[OF r Cons.prems(2,3)] None by (auto simp: fun_eq_iff)
    next
      case (Some k)
      have r: "order_map is m f (hm_insert i k om) = Some om'"
        using Cons.prems(1) Some by (auto simp: sort_entry_def split: option.splits result.splits)
      have "sort_entry f m j = Some k'" if "map_of (hm_insert i k om) j = Some k'" for j k'
        using that Some Cons.prems(3)[of j] by (auto split: if_splits)
      then show ?thesis using Cons.IH[OF r] Cons.prems(2) Some by (auto simp: fun_eq_iff)
    qed
  qed simp
  then show "distinct (map fst om')" "map_of om' = (\<lambda>i. if i \<in> set is then sort_entry f m i else map_of om i)"
    by auto
qed

text \<open>Sorting by the entries.\<close>

definition sorted_by_entries :: "fetch \<Rightarrow> (string \<times> nat) list \<Rightarrow> string list \<Rightarrow> string list \<Rightarrow> bool" where
  "sorted_by_entries f m is xs \<longleftrightarrow> distinct xs \<and> set xs = {i \<in> set is. sort_entry f m i \<noteq> None}
     \<and> sorted_wrt (<) (map (\<lambda>i. the (sort_entry f m i)) xs)"

lemma sorted_by_entries_unique:
  assumes "sorted_by_entries f m is xs" "sorted_by_entries f m is' ys" "set is = set is'"
  shows "xs = ys"
proof -
  let ?k = "\<lambda>i. the (sort_entry f m i)"
  have "set xs = set ys" using assms by (simp add: sorted_by_entries_def)
  moreover have "sorted_wrt (<) (map ?k xs)" "sorted_wrt (<) (map ?k ys)"
    using assms(1,2) by (simp_all add: sorted_by_entries_def)
  ultimately have "map ?k xs = map ?k ys"
    by (intro sorted_distinct_set_unique) (auto simp: strict_sorted_iff)
  moreover have "inj_on ?k (set xs \<union> set ys)"
  proof (rule inj_onI)
    fix i j assume *: "i \<in> set xs \<union> set ys" "j \<in> set xs \<union> set ys" "?k i = ?k j"
    have "sort_entry f m i \<noteq> None" "sort_entry f m j \<noteq> None"
      using *(1,2) assms(1,2) unfolding sorted_by_entries_def by blast+
    then show "i = j" using *(3) by (rule sort_entry_inj)
  qed
  ultimately show ?thesis by (metis map_inj_on)
qed

lemma mainline_sort_sorted:
  assumes "mainline_of f pl [] = Some (Ok ml)" "acyclic_auth f"
  shows "\<exists>xs. mainline_sort is pl f = Some (Ok xs) \<and> sorted_by_entries f (mainline_map ml) is xs"
proof (cases "is = []")
  case True
  then show ?thesis by (simp add: mainline_sort_def sorted_by_entries_def)
next
  case False
  let ?m = "mainline_map ml"
  obtain om where om: "order_map is ?m f [] = Some om" using order_map_returns[OF assms(2)] by blast
  note spec = order_map_spec[OF om]
  have mo: "map_of om i = (if i \<in> set is then sort_entry f ?m i else None)" for i using spec(2) by simp
  have dom: "set (map fst om) = {i \<in> set is. sort_entry f ?m i \<noteq> None}"
  proof (rule set_eqI)
    fix i
    have "i \<in> set (map fst om) \<longleftrightarrow> map_of om i \<noteq> None" by (simp add: map_of_eq_None_iff)
    then show "i \<in> set (map fst om) \<longleftrightarrow> i \<in> {i \<in> set is. sort_entry f ?m i \<noteq> None}" by (simp add: mo)
  qed
  let ?xs = "sort_key (\<lambda>i. the (map_of om i)) (map fst om)"
  have x: "set ?xs = {i \<in> set is. sort_entry f ?m i \<noteq> None}" "distinct ?xs"
    using dom spec(1) by simp_all
  have eq: "map (\<lambda>i. the (map_of om i)) ?xs = map (\<lambda>i. the (sort_entry f ?m i)) ?xs"
    by (rule map_cong[OF refl]) (use x(1) mo in auto)
  have "inj_on (\<lambda>i. the (sort_entry f ?m i)) (set ?xs)"
  proof (rule inj_onI)
    fix i j assume *: "i \<in> set ?xs" "j \<in> set ?xs" "the (sort_entry f ?m i) = the (sort_entry f ?m j)"
    have "sort_entry f ?m i \<noteq> None" "sort_entry f ?m j \<noteq> None" using *(1,2) unfolding x(1) by blast+
    then show "i = j" using *(3) by (rule sort_entry_inj)
  qed
  then have "distinct (map (\<lambda>i. the (sort_entry f ?m i)) ?xs)" using x(2) by (simp only: distinct_map)
  moreover have "sorted (map (\<lambda>i. the (sort_entry f ?m i)) ?xs)" using eq sorted_sort_key by metis
  ultimately have "sorted_wrt (<) (map (\<lambda>i. the (sort_entry f ?m i)) ?xs)" by (simp only: strict_sorted_iff)
  then have "sorted_by_entries f ?m is ?xs" using x by (simp only: sorted_by_entries_def)
  then show ?thesis using assms(1) om False by (simp add: mainline_sort_def)
qed

section \<open>The chain of power levels events\<close>

text \<open>\<open>power_chain f pl ps\<close>: from \<open>pl\<close>, the events met by going from an event to its first power levels auth
  event are \<open>ps\<close>, newest first, and the walk ends.\<close>

inductive power_chain :: "fetch \<Rightarrow> string option \<Rightarrow> string list \<Rightarrow> bool" for f where
  oldest: "power_chain f None []"
| older: "f p = Some ev \<Longrightarrow> find_power_id f (ev_auth ev) = Ok pl \<Longrightarrow> power_chain f pl ps
    \<Longrightarrow> power_chain f (Some p) (p # ps)"

inductive_cases power_chain_SomeE: "power_chain f (Some p) ps"
inductive_cases power_chain_NoneE: "power_chain f None ps"

inductive_simps power_chain_simps [simp]:
  "power_chain f None ps"
  "power_chain f pl []"
  "power_chain f pl (p # ps)"

lemma chain_mainline: "power_chain f pl ps \<Longrightarrow> mainline_of f pl acc = Some (Ok (acc @ ps))"
proof (induction arbitrary: acc rule: power_chain.induct)
  case oldest
  then show ?case by (simp add: mainline_of.simps)
next
  case (older p ev pl ps)
  then show ?case by (subst mainline_of.simps) simp
qed

lemma mainline_chain_aux:
  "mainline_of f pl acc = Some r \<Longrightarrow> (\<forall>ml. r = Ok ml \<longrightarrow> (\<exists>ps. power_chain f pl ps \<and> ml = acc @ ps))"
proof (erule mainline_of.raw_induct[rotated], intro allI impI)
  fix F f pl acc r ml
  assume ih: "\<And>f pl acc r. F f pl acc = Some r \<Longrightarrow> \<forall>ml. r = Ok ml \<longrightarrow> (\<exists>ps. power_chain f pl ps \<and> ml = acc @ ps)"
    and body: "(case pl of None \<Rightarrow> Some (Ok acc)
      | Some p \<Rightarrow> (case f p of None \<Rightarrow> Some (Err (NotFound (''Failed to find '' @ p)))
        | Some event \<Rightarrow> (case find_power_id f (ev_auth event) of Ok pl' \<Rightarrow> F f pl' (acc @ [p])
            | Err e \<Rightarrow> Some (Err e) | Panic \<Rightarrow> Some Panic))) = Some r"
    and r: "r = Ok ml"
  show "\<exists>ps. power_chain f pl ps \<and> ml = acc @ ps"
  proof (cases pl)
    case None
    then show ?thesis using body r by simp
  next
    case (Some p)
    obtain ev where ev: "f p = Some ev" using body r Some by (auto split: option.splits)
    obtain pl' where pl: "find_power_id f (ev_auth ev) = Ok pl'"
      using body r Some ev by (auto split: result.splits)
    then have "F f pl' (acc @ [p]) = Some r" using body Some ev by simp
    from ih[OF this] r obtain ps where "power_chain f pl' ps" "ml = (acc @ [p]) @ ps" by blast
    then show ?thesis using Some ev pl by (intro exI[of _ "p # ps"]) simp
  qed
qed

lemma mainline_chain: "mainline_of f pl acc = Some (Ok ml) \<Longrightarrow> \<exists>ps. power_chain f pl ps \<and> ml = acc @ ps"
  using mainline_chain_aux by blast

lemma power_chain_fun: "power_chain f pl ps \<Longrightarrow> power_chain f pl qs \<Longrightarrow> ps = qs"
proof (induction arbitrary: qs rule: power_chain.induct)
  case (older p ev pl ps)
  from older.prems obtain qs' where "qs = p # qs'" "power_chain f pl qs'"
    using older.hyps(1,2) by (auto elim: power_chain_SomeE)
  then show ?case using older.IH by blast
qed simp

lemma power_chain_suffix: "power_chain f pl (us @ q # vs) \<Longrightarrow> power_chain f (Some q) (q # vs)"
  by (induction us arbitrary: pl) auto

lemma power_chain_distinct: "power_chain f pl ps \<Longrightarrow> distinct ps"
proof (induction rule: power_chain.induct)
  case (older p ev pl ps)
  have "p \<notin> set ps"
  proof
    assume "p \<in> set ps"
    then obtain us vs where "ps = us @ p # vs" by (meson split_list)
    then have "power_chain f (Some p) (p # vs)" using older.hyps(3) power_chain_suffix by blast
    moreover have "power_chain f (Some p) (p # ps)" using older.hyps by auto
    ultimately have "p # vs = p # ps" by (rule power_chain_fun)
    then show False using \<open>ps = us @ p # vs\<close> by auto
  qed
  then show ?case using older.IH by simp
qed simp

lemma map_of_fold_hm_insert:
  "map_of (fold (\<lambda>(e, i) m. hm_insert e i m) zs m) = map_of m ++ map_of (rev zs)"
proof (induction zs arbitrary: m)
  case (Cons z zs)
  obtain e i where z: "z = (e, i)" by fastforce
  show ?case by (simp add: z Cons fun_eq_iff map_add_def split: option.split)
qed simp

lemma mainline_map_at:
  assumes "distinct (us @ q # vs)"
  shows "map_of (mainline_map (us @ q # vs)) q = Some (length vs)"
proof -
  let ?ml = "us @ q # vs"
  let ?z = "zip (rev ?ml) [0..<length ?ml]"
  have "(q, length vs) \<in> set ?z"
    unfolding in_set_zip by (rule exI[of _ "length vs"]) (simp add: nth_append)
  moreover have "map fst ?z = rev ?ml" by simp
  then have "distinct (map fst (rev ?z))" using assms by (simp only: rev_map[symmetric] distinct_rev)
  ultimately have "map_of (rev ?z) q = Some (length vs)" by (intro map_of_is_SomeI) auto
  then show ?thesis unfolding mainline_map_def map_of_fold_hm_insert by simp
qed

lemma mainline_map_none: "q \<notin> set ml \<Longrightarrow> map_of (mainline_map ml) q = None"
proof -
  assume "q \<notin> set ml"
  then have "map_of (rev (zip (rev ml) [0..<length ml])) q = None"
    by (auto simp: map_of_eq_None_iff dest: set_zip_leftD)
  then show ?thesis unfolding mainline_map_def map_of_fold_hm_insert by simp
qed

lemma find_power_event_of_id:
  "find_power_id f aids = Ok pl \<Longrightarrow> find_power_event f aids = Ok (Option.bind pl f) \<and> (pl \<noteq> None \<longrightarrow> Option.bind pl f \<noteq> None)"
  by (induction aids) (auto split: option.splits if_splits)

lemma depth_on_chain:
  assumes "power_chain f pl ps" "ids_match f"
  shows "get_mainline_depth (Option.bind pl f) m f =
    Some (Ok (case find (\<lambda>q. map_of m q \<noteq> None) ps of Some q \<Rightarrow> the (map_of m q) | None \<Rightarrow> 0))"
  using assms(1)
proof (induction rule: power_chain.induct)
  case oldest
  then show ?case by (simp add: get_mainline_depth.simps)
next
  case (older p ev pl ps)
  have "ev_id ev = p" using assms(2) older.hyps(1) by (simp add: ids_match_def)
  moreover have "find_power_event f (ev_auth ev) = Ok (Option.bind pl f)"
    using find_power_event_of_id[OF older.hyps(2)] by blast
  ultimately show ?case using older.IH older.hyps(1)
    by (subst get_mainline_depth.simps) (auto split: option.splits)
qed

lemma mainline_sort_order:
  assumes "set to_sort = set to_sort'" "acyclic_auth f"
  shows "mainline_sort to_sort pl f = mainline_sort to_sort' pl f"
proof (cases "to_sort = []")
  case True
  then show ?thesis using assms(1) by simp
next
  case False
  then have ne: "to_sort' \<noteq> []" using assms(1) by auto
  obtain r where r: "mainline_of f pl [] = Some r" using mainline_returns[OF assms(2)] by blast
  show ?thesis
  proof (cases r)
    case (Ok ml)
    then obtain xs ys where "mainline_sort to_sort pl f = Some (Ok xs)" "sorted_by_entries f (mainline_map ml) to_sort xs"
      "mainline_sort to_sort' pl f = Some (Ok ys)" "sorted_by_entries f (mainline_map ml) to_sort' ys"
      using mainline_sort_sorted[OF _ assms(2)] r by metis
    then show ?thesis using sorted_by_entries_unique assms(1) by metis
  qed (use r False ne in \<open>simp_all add: mainline_sort_def\<close>)
qed

section \<open>Properties\<close>

text \<open> The mainline loop computes the chain of power levels events: it returns a list exactly when the walk
  through the first power levels event among the auth events of each event ends, and the list is that walk,
  newest first.  (On a cycle it does not return.)\<close>

lemma mainline_is_power_chain:
  "mainline_of f pl [] = Some (Ok ml) \<longleftrightarrow> power_chain f pl ml"
  using mainline_chain[of f pl "[]" ml] chain_mainline[of f pl ml "[]"] by auto

text \<open> The depth of an event is taken from its closest mainline ancestor: on the event's own chain of power
  levels events (the event first), the first one on the mainline gives the depth, which is the number of
  mainline events older than it; the oldest has depth 0, and an event whose chain misses the mainline also
  gets 0.  (The comment on \<open>mainline_sort\<close> says that the most recent have depth 0.)\<close>

lemma mainline_depth_counts_older:
  assumes "power_chain f pl ml" "power_chain f (Some i) ps" "ids_match f"
  shows "get_mainline_depth (f i) (mainline_map ml) f =
    Some (Ok (case find (\<lambda>q. q \<in> set ml) ps of
      Some q \<Rightarrow> length (tl (dropWhile (\<lambda>x. x \<noteq> q) ml)) | None \<Rightarrow> 0))"
proof -
  have d: "distinct ml" using power_chain_distinct[OF assms(1)] .
  have at: "map_of (mainline_map ml) q = (if q \<in> set ml then Some (length (tl (dropWhile (\<lambda>x. x \<noteq> q) ml))) else None)" for q
  proof (cases "q \<in> set ml")
    case True
    then obtain us vs where ml: "ml = us @ q # vs" "q \<notin> set us" by (meson split_list_first)
    then have "dropWhile (\<lambda>x. x \<noteq> q) ml = q # vs" by (auto simp: dropWhile_append)
    then show ?thesis using mainline_map_at[of us q vs] d ml(1) by simp
  qed (simp add: mainline_map_none)
  have eq: "find (\<lambda>q. map_of (mainline_map ml) q \<noteq> None) ps = find (\<lambda>q. q \<in> set ml) ps"
    by (rule find_cong) (auto simp: at)
  have g: "get_mainline_depth (f i) (mainline_map ml) f =
      Some (Ok (case find (\<lambda>q. q \<in> set ml) ps of Some q \<Rightarrow> the (map_of (mainline_map ml) q) | None \<Rightarrow> 0))"
    using depth_on_chain[OF assms(2,3), of "mainline_map ml"] by (simp only: eq bind.simps)
  show ?thesis
  proof (cases "find (\<lambda>q. q \<in> set ml) ps")
    case None
    then show ?thesis using g by (simp only: option.case)
  next
    case (Some q)
    then have "q \<in> set ml" by (auto simp: find_Some_iff)
    then show ?thesis using g Some by (simp only: option.case at if_True option.sel)
  qed
qed

text \<open>C18.  If auth events are acyclic the mainline sort returns, and the result is a list without duplicates of the
  events whose depth can be computed, strictly increasing by depth, then timestamp, then event id.\<close>

theorem mainline_sort_correct:
  assumes "mainline_of f pl [] = Some (Ok ml)" "acyclic_auth f"
  shows "\<exists>xs. mainline_sort to_sort pl f = Some (Ok xs) \<and> distinct xs
    \<and> set xs = {i \<in> set to_sort. sort_entry f (mainline_map ml) i \<noteq> None}
    \<and> sorted_wrt (<) (map (\<lambda>i. the (sort_entry f (mainline_map ml) i)) xs)"
  using mainline_sort_sorted[OF assms] by (simp only: sorted_by_entries_def)

lemma chain_walk: "power_chain chain_fetch (Some ''q'') [''q'', ''p'']"
  by (simp add: chain_fetch_def chain_event_def is_type_and_key_def)

lemma chain_ids: "ids_match chain_fetch"
  by (auto simp: ids_match_def chain_fetch_def chain_event_def split: if_splits)

lemma mainline_depth_counts_older_witness:
  "get_mainline_depth (chain_fetch ''q'') (mainline_map [''q'', ''p'']) chain_fetch = Some (Ok 1)"
  using mainline_depth_counts_older[OF chain_walk chain_walk chain_ids] by simp

lemma mainline_sort_correct_witness:
  "\<exists>xs. mainline_sort [''c'', ''q''] (Some ''q'') chain_fetch = Some (Ok xs) \<and> distinct xs"
  using mainline_sort_correct[OF chain_mainline[OF chain_walk] chain_acyclic, of "[''c'', ''q'']"] by auto

end
