(* ===== verification/State_Resolution.thy ===== *)
theory State_Resolution
  imports Mainline
begin

text \<open>State resolution, \<open>resolve\<close> of \<^verbatim>\<open>ruma-state-res/src/lib.rs\<close> with \<open>separate\<close>, \<open>get_auth_chain_diff\<close> and
  \<open>iterative_auth_check\<close>.  A \<open>StateMap\<close> is an association list with distinct keys.  The one place where the
  iteration order of a hash map can reach the result, the search for a third party invite among the auth
  events, goes through the parameter \<open>hash_iter\<close>, the order in which the map is walked.  \<open>None\<close> is not
  returning (see \<open>Mainline\<close>).\<close>

section \<open>Conflicting state\<close>

type_synonym state_key = "event_type \<times> string"
type_synonym 'a state_map = "(state_key \<times> 'a) list"

fun all_equal :: "'a list \<Rightarrow> bool" where
  "all_equal [] = True"
| "all_equal (x # xs) = list_all (\<lambda>y. y = x) xs"

text \<open>The body of the loop of \<open>separate\<close>; the \<open>unwrap\<close> and the \<open>expect\<close> are the two \<open>Panic\<close>s.\<close>

fun separate_key ::
    "'i state_map list \<Rightarrow> state_key \<Rightarrow> 'i state_map \<times> 'i list state_map
      \<Rightarrow> ('i state_map \<times> 'i list state_map, sr_error) result" where
  "separate_key state_sets key (unconflicted, conflicted) =
     (let event_ids = map (\<lambda>state_set. map_of state_set key) state_sets in
      if all_equal event_ids then
        (if event_ids = [] then Panic
         else case last event_ids of
                None \<Rightarrow> Panic
              | Some i \<Rightarrow> Ok (hm_insert key i unconflicted, conflicted))
      else Ok (unconflicted, hm_insert key (List.map_filter (\<lambda>o'. o') event_ids) conflicted))"

fun fold_res :: "('k \<Rightarrow> 's \<Rightarrow> ('s, 'e) result) \<Rightarrow> 'k list \<Rightarrow> 's \<Rightarrow> ('s, 'e) result" where
  "fold_res step [] s = Ok s"
| "fold_res step (k # ks) s = and_then (step k s) (fold_res step ks)"

definition unique :: "'a list \<Rightarrow> 'a list" where
  "unique xs = fold push_new xs []"

definition separate :: "'i state_map list \<Rightarrow> ('i state_map \<times> 'i list state_map, sr_error) result" where
  "separate state_sets =
     fold_res (separate_key state_sets) (unique (concat (map (map fst) state_sets))) ([], [])"

text \<open>\<open>*id_counts.entry(id).or_default() += 1\<close>\<close>

definition count_id :: "'i \<Rightarrow> ('i \<times> nat) list \<Rightarrow> ('i \<times> nat) list" where
  "count_id i counts = hm_insert i ((case map_of counts i of Some c \<Rightarrow> c | None \<Rightarrow> 0) + 1) counts"

definition get_auth_chain_diff :: "'i list list \<Rightarrow> 'i list" where
  "get_auth_chain_diff auth_chain_sets =
     (let num_sets = length auth_chain_sets;
          id_counts = fold count_id (concat auth_chain_sets) []
      in map fst (filter (\<lambda>(i, c). c < num_sets) id_counts))"

section \<open>The iterative auth check\<close>

fun collect_auth_events ::
    "fetch \<Rightarrow> string list \<Rightarrow> event state_map \<Rightarrow> (event state_map, sr_error) result" where
  "collect_auth_events fetch_event [] auth_events = Ok auth_events"
| "collect_auth_events fetch_event (aid # aids) auth_events =
     (case fetch_event aid of
        Some ev \<Rightarrow>
          and_then (ok_or (InvalidPdu ''State event had no state key'') (ev_state_key ev)) (\<lambda>k.
            collect_auth_events fetch_event aids (hm_insert (ev_type ev, k) ev auth_events))
      | None \<Rightarrow> collect_auth_events fetch_event aids auth_events)"

text \<open>The state resolved so far overrides the event's own auth events.\<close>

definition add_resolved ::
    "fetch \<Rightarrow> string state_map \<Rightarrow> state_key list \<Rightarrow> event state_map \<Rightarrow> event state_map" where
  "add_resolved fetch_event resolved_state auth_types auth_events =
     fold (\<lambda>key m. case Option.bind (map_of resolved_state key) fetch_event of
                     Some event \<Rightarrow> hm_insert key event m | None \<Rightarrow> m) auth_types auth_events"

definition most_recent_prev_event :: "fetch \<Rightarrow> event \<Rightarrow> event option" where
  "most_recent_prev_event fetch_event event =
     (let evs = List.map_filter fetch_event (ev_prev event) in if evs = [] then None else Some (last evs))"

definition current_third_party :: "(event state_map \<Rightarrow> event state_map) \<Rightarrow> event state_map \<Rightarrow> event option" where
  "current_third_party hash_iter auth_events =
     map_option snd (find (\<lambda>(k, pdu). ev_type pdu = ''m.room.third_party_invite'') (hash_iter auth_events))"

fun check_event ::
    "(nat \<Rightarrow> bool) \<Rightarrow> (event state_map \<Rightarrow> event state_map) \<Rightarrow> room_version \<Rightarrow> fetch \<Rightarrow> string
      \<Rightarrow> string state_map \<Rightarrow> (string state_map, sr_error) result" where
  "check_event uni hash_iter rv fetch_event event_id resolved_state =
     and_then (ok_or (NotFound (''Failed to find '' @ event_id)) (fetch_event event_id)) (\<lambda>event.
     and_then (ok_or (InvalidPdu ''State event had no state key'') (ev_state_key event)) (\<lambda>state_key.
     and_then (collect_auth_events fetch_event (ev_auth event) []) (\<lambda>own.
     let auth_events = add_resolved fetch_event resolved_state
           (auth_types_for_event uni (ev_type event) (ev_sender event) (Some state_key) (ev_content event)) own
     in and_then (auth_check uni rv event (most_recent_prev_event fetch_event event)
            (current_third_party hash_iter auth_events) (\<lambda>ty key. map_of auth_events (ty, key))) (\<lambda>passed.
        Ok (if passed then hm_insert (ev_type event, state_key) event_id resolved_state
            else resolved_state)))))"

definition iterative_auth_check ::
    "(nat \<Rightarrow> bool) \<Rightarrow> (event state_map \<Rightarrow> event state_map) \<Rightarrow> room_version \<Rightarrow> string list
      \<Rightarrow> string state_map \<Rightarrow> fetch \<Rightarrow> (string state_map, sr_error) result" where
  "iterative_auth_check uni hash_iter rv events_to_check unconflicted_state fetch_event =
     fold_res (check_event uni hash_iter rv fetch_event) events_to_check unconflicted_state"

section \<open>Resolution\<close>

fun then_opt :: "('a, 'e) result option \<Rightarrow> ('a \<Rightarrow> ('b, 'e) result option) \<Rightarrow> ('b, 'e) result option" where
  "then_opt None f = None"
| "then_opt (Some (Ok x)) f = f x"
| "then_opt (Some (Err e)) f = Some (Err e)"
| "then_opt (Some Panic) f = Some Panic"

definition extend :: "('k \<times> 'v) list \<Rightarrow> ('k \<times> 'v) list \<Rightarrow> ('k \<times> 'v) list" where
  "extend m entries = fold (\<lambda>(k, v) m. hm_insert k v m) entries m"

text \<open>The full conflicted set.\<close>

definition all_conflicted :: "fetch \<Rightarrow> string list list \<Rightarrow> string list state_map \<Rightarrow> string list" where
  "all_conflicted fetch_event auth_chain_sets conflicting =
     unique (filter (\<lambda>i. fetch_event i \<noteq> None)
       (get_auth_chain_diff auth_chain_sets @ concat (map snd conflicting)))"

definition resolve ::
    "(nat \<Rightarrow> bool) \<Rightarrow> (event state_map \<Rightarrow> event state_map) \<Rightarrow> room_version_id \<Rightarrow> string state_map list
      \<Rightarrow> string list list \<Rightarrow> fetch \<Rightarrow> (string state_map, sr_error) result option" where
  "resolve uni hash_iter room_version state_sets auth_chain_sets fetch_event =
     then_opt (Some (separate state_sets)) (\<lambda>(clean, conflicting).
     if conflicting = [] then Some (Ok clean)
     else
       (let conflicted = all_conflicted fetch_event auth_chain_sets conflicting;
            control_events = filter (\<lambda>i. is_power_event_id uni i fetch_event) conflicted
        in then_opt (reverse_topological_power_sort control_events conflicted fetch_event)
             (\<lambda>sorted_control_levels.
           then_opt (Some (room_version_new room_version)) (\<lambda>rv.
           then_opt (Some (iterative_auth_check uni hash_iter rv sorted_control_levels clean fetch_event))
             (\<lambda>resolved_control.
           let events_to_resolve = filter (\<lambda>i. i \<notin> set sorted_control_levels) conflicted;
               power_event = map_of resolved_control (''m.room.power_levels'', [])
           in then_opt (mainline_sort events_to_resolve power_event fetch_event) (\<lambda>sorted_left_events.
              then_opt (Some (iterative_auth_check uni hash_iter rv sorted_left_events resolved_control fetch_event))
                (\<lambda>resolved_state. Some (Ok (extend resolved_state clean)))))))))"

section \<open>Lemmas\<close>

lemma all_equal_iff: "all_equal xs \<longleftrightarrow> (\<forall>x\<in>set xs. \<forall>y\<in>set xs. x = y)"
proof (cases xs)
  case (Cons x ys)
  have "(\<forall>y\<in>set ys. y = x) \<longleftrightarrow> (\<forall>a\<in>insert x (set ys). \<forall>b\<in>insert x (set ys). a = b)" by (metis insert_iff)
  then show ?thesis using Cons by (simp only: all_equal.simps list_all_iff list.set)
qed simp

lemma set_unique [simp]: "set (unique xs) = set xs"
  by (simp add: unique_def)

lemma fold_res_append: "fold_res step (xs @ ys) s = and_then (fold_res step xs s) (fold_res step ys)"
proof (induction xs arbitrary: s)
  case (Cons x xs)
  then show ?case by (cases "step x s") simp_all
qed simp

text \<open>An invariant of the steps is an invariant of the fold.\<close>

lemma fold_res_invariant:
  assumes "fold_res step xs s = Ok s'" "I s" "\<And>x s s'. x \<in> set xs \<Longrightarrow> I s \<Longrightarrow> step x s = Ok s' \<Longrightarrow> I s'"
  shows "I s'"
  using assms
proof (induction xs arbitrary: s)
  case (Cons x xs)
  from Cons.prems(1) obtain t where t: "step x s = Ok t" "fold_res step xs t = Ok s'"
    by (auto simp: and_then_eq_Ok)
  have "I t" using Cons.prems(3)[of x s t] Cons.prems(2) t(1) by simp
  then show ?case by (rule Cons.IH[OF t(2)]) (metis Cons.prems(3) list.set_intros(2))
qed simp

subsection \<open>Separation\<close>

definition agree :: "'i state_map list \<Rightarrow> state_key \<Rightarrow> bool" where
  "agree ss k \<longleftrightarrow> (\<forall>s\<in>set ss. \<forall>s'\<in>set ss. map_of s k = map_of s' k)"

lemma separate_key_eq:
  assumes "s \<in> set ss" "map_of s k \<noteq> None"
  shows "separate_key ss k (u, c) = Ok (if agree ss k then (hm_insert k (the (map_of s k)) u, c)
    else (u, hm_insert k (List.map_filter (\<lambda>s. map_of s k) ss) c))"
proof -
  let ?es = "map (\<lambda>s. map_of s k) ss"
  have a: "all_equal ?es \<longleftrightarrow> agree ss k" unfolding all_equal_iff agree_def by simp
  have ne: "?es \<noteq> []" using assms(1) by auto
  have l: "last ?es = map_of s k" if g: "agree ss k"
  proof -
    have "last ?es \<in> set ?es" using ne by (rule last_in_set)
    then obtain s' where s': "s' \<in> set ss" "last ?es = map_of s' k" unfolding set_map by (rule imageE)
    have "map_of s' k = map_of s k" using g s'(1) assms(1) unfolding agree_def by blast
    then show ?thesis using s'(2) by (rule trans[rotated])
  qed
  obtain i where i: "map_of s k = Some i" using assms(2) by auto
  have m: "List.map_filter (\<lambda>o'. o') ?es = List.map_filter (\<lambda>s. map_of s k) ss"
    by (simp add: map_filter_def filter_map o_def)
  show ?thesis
  proof (cases "agree ss k")
    case True
    then show ?thesis using a ne l i by (simp add: Let_def)
  next
    case False
    then show ?thesis using a m by (simp add: Let_def)
  qed
qed

definition separated :: "'i state_map list \<Rightarrow> state_key set \<Rightarrow> 'i state_map \<times> 'i list state_map \<Rightarrow> bool" where
  "separated ss ks r \<longleftrightarrow> (case r of (u, c) \<Rightarrow> distinct (map fst u) \<and> distinct (map fst c)
    \<and> (\<forall>k i. map_of u k = Some i \<longleftrightarrow> k \<in> ks \<and> agree ss k \<and> (\<exists>s\<in>set ss. map_of s k = Some i))
    \<and> (\<forall>k ids. map_of c k = Some ids \<longleftrightarrow> k \<in> ks \<and> \<not> agree ss k \<and> ids = List.map_filter (\<lambda>s. map_of s k) ss))"

lemma separate_fold:
  assumes "\<forall>k\<in>set ks. \<exists>s\<in>set ss. map_of s k \<noteq> None" "separated ss ks0 r"
  shows "\<exists>r'. fold_res (separate_key ss) ks r = Ok r' \<and> separated ss (ks0 \<union> set ks) r'"
  using assms
proof (induction ks arbitrary: ks0 r)
  case (Cons k ks)
  obtain u c where r: "r = (u, c)" by fastforce
  obtain s where s: "s \<in> set ss" "map_of s k \<noteq> None" using Cons.prems(1) by (meson list.set_intros(1))
  then obtain i where i: "map_of s k = Some i" by auto
  let ?r = "if agree ss k then (hm_insert k i u, c) else (u, hm_insert k (List.map_filter (\<lambda>s. map_of s k) ss) c)"
  have step: "separate_key ss k r = Ok ?r" using separate_key_eq[OF s, of u c] i r by simp
  have I: "distinct (map fst u)" "distinct (map fst c)"
    "\<And>k i. map_of u k = Some i \<longleftrightarrow> k \<in> ks0 \<and> agree ss k \<and> (\<exists>s\<in>set ss. map_of s k = Some i)"
    "\<And>k ids. map_of c k = Some ids \<longleftrightarrow> k \<in> ks0 \<and> \<not> agree ss k \<and> ids = List.map_filter (\<lambda>s. map_of s k) ss"
    using Cons.prems(2) unfolding separated_def r by blast+
  have one: "(\<exists>s\<in>set ss. map_of s k = Some j) \<longleftrightarrow> j = i" if "agree ss k" for j
    using that s(1) i unfolding agree_def by (metis option.inject)
  have sep: "separated ss (insert k ks0) ?r"
  proof (cases "agree ss k")
    case True
    have "map_of (hm_insert k i u) k' = Some j \<longleftrightarrow> k' \<in> insert k ks0 \<and> agree ss k' \<and> (\<exists>s\<in>set ss. map_of s k' = Some j)"
      for k' j using one[OF True, of j] True I(3)[of k' j] by (cases "k' = k") auto
    moreover have "map_of c k' = Some ids \<longleftrightarrow> k' \<in> insert k ks0 \<and> \<not> agree ss k' \<and> ids = List.map_filter (\<lambda>s. map_of s k') ss"
      for k' ids using True I(4)[of k' ids] by (cases "k' = k") simp_all
    ultimately show ?thesis unfolding separated_def using I(1,2) True by simp
  next
    case False
    have "map_of (hm_insert k (List.map_filter (\<lambda>s. map_of s k) ss) c) k' = Some ids
        \<longleftrightarrow> k' \<in> insert k ks0 \<and> \<not> agree ss k' \<and> ids = List.map_filter (\<lambda>s. map_of s k') ss"
      for k' ids using False I(4)[of k' ids] by (cases "k' = k") auto
    moreover have "map_of u k' = Some j \<longleftrightarrow> k' \<in> insert k ks0 \<and> agree ss k' \<and> (\<exists>s\<in>set ss. map_of s k' = Some j)"
      for k' j using False I(3)[of k' j] by (cases "k' = k") simp_all
    ultimately show ?thesis unfolding separated_def using I(1,2) False by simp
  qed
  have rest: "\<forall>k\<in>set ks. \<exists>s\<in>set ss. map_of s k \<noteq> None" using Cons.prems(1) by (metis list.set_intros(2))
  then obtain r' where "fold_res (separate_key ss) ks ?r = Ok r'" "separated ss (insert k ks0 \<union> set ks) r'"
    using Cons.IH[OF rest sep] by blast
  then show ?case using step by simp
qed simp

lemma separate_separated:
  "\<exists>r. separate ss = Ok r \<and> separated ss (\<Union>s\<in>set ss. fst ` set s) r"
proof -
  let ?ks = "unique (concat (map (map fst) ss))"
  have ks: "set ?ks = (\<Union>s\<in>set ss. fst ` set s)" by auto
  have "\<forall>k\<in>set ?ks. \<exists>s\<in>set ss. map_of s k \<noteq> None" unfolding ks by (auto simp: map_of_eq_None_iff)
  moreover have "separated ss {} ([], [])" by (simp add: separated_def)
  ultimately show ?thesis using separate_fold[of ?ks ss "{}" "([], [])"] ks by (simp add: separate_def)
qed

lemma separate_cases:
  obtains u c where "separate ss = Ok (u, c)" "distinct (map fst u)" "distinct (map fst c)"
    "\<And>k i. map_of u k = Some i \<longleftrightarrow> ss \<noteq> [] \<and> (\<forall>s\<in>set ss. map_of s k = Some i)"
    "\<And>k ids. map_of c k = Some ids \<longleftrightarrow> \<not> agree ss k \<and> ids = List.map_filter (\<lambda>s. map_of s k) ss"
proof -
  obtain u c where r: "separate ss = Ok (u, c)" "separated ss (\<Union>s\<in>set ss. fst ` set s) (u, c)"
    using separate_separated[of ss] by auto
  have key: "k \<in> (\<Union>s\<in>set ss. fst ` set s) \<longleftrightarrow> (\<exists>s\<in>set ss. map_of s k \<noteq> None)" for k
    by (auto simp: map_of_eq_None_iff)
  have sep: "distinct (map fst u)" "distinct (map fst c)"
    "\<And>k i. map_of u k = Some i \<longleftrightarrow> (\<exists>s\<in>set ss. map_of s k \<noteq> None) \<and> agree ss k \<and> (\<exists>s\<in>set ss. map_of s k = Some i)"
    "\<And>k ids. map_of c k = Some ids \<longleftrightarrow> (\<exists>s\<in>set ss. map_of s k \<noteq> None) \<and> \<not> agree ss k
       \<and> ids = List.map_filter (\<lambda>s. map_of s k) ss"
    using r(2) unfolding separated_def key prod.case by blast+
  have u: "map_of u k = Some i \<longleftrightarrow> ss \<noteq> [] \<and> (\<forall>s\<in>set ss. map_of s k = Some i)" for k i
    unfolding sep(3) agree_def by (cases ss) auto
  have c: "map_of c k = Some ids \<longleftrightarrow> \<not> agree ss k \<and> ids = List.map_filter (\<lambda>s. map_of s k) ss" for k ids
    unfolding sep(4) by (metis agree_def)
  show ?thesis by (rule that[OF r(1) sep(1,2) u c])
qed

definition split_ok :: "'i state_map list \<Rightarrow> 'i state_map \<Rightarrow> 'i list state_map \<Rightarrow> bool" where
  "split_ok ss u c \<longleftrightarrow> distinct (map fst u) \<and> distinct (map fst c)
    \<and> (\<forall>k i. map_of u k = Some i \<longleftrightarrow> ss \<noteq> [] \<and> (\<forall>s\<in>set ss. map_of s k = Some i))
    \<and> (\<forall>k ids. map_of c k = Some ids \<longleftrightarrow> \<not> agree ss k \<and> ids = List.map_filter (\<lambda>s. map_of s k) ss)"

lemma separate_split: "\<exists>u c. separate ss = Ok (u, c) \<and> split_ok ss u c"
  unfolding split_ok_def by (rule separate_cases[of ss]) blast

lemma split_okD:
  assumes "split_ok ss u c"
  shows "distinct (map fst u)" "distinct (map fst c)"
    "map_of u k = Some i \<longleftrightarrow> ss \<noteq> [] \<and> (\<forall>s\<in>set ss. map_of s k = Some i)"
    "map_of c k = Some ids \<longleftrightarrow> \<not> agree ss k \<and> ids = List.map_filter (\<lambda>s. map_of s k) ss"
  using assms unfolding split_ok_def by blast+

lemma split_ok_clean:
  assumes "split_ok ss u c"
  shows "c = [] \<longleftrightarrow> (\<forall>k. agree ss k)"
proof -
  have "map_of c k = None \<longleftrightarrow> agree ss k" for k
    using split_okD(4)[OF assms, of k] by (cases "map_of c k") auto
  then have "map_of c = (\<lambda>k. None) \<longleftrightarrow> (\<forall>k. agree ss k)" unfolding fun_eq_iff by (simp only:)
  then show ?thesis by (simp only: map_of_eq_empty_iff)
qed

subsection \<open>Auth chain difference\<close>

lemma map_of_count:
  "map_of (fold count_id xs m) i =
    (if i \<in> set xs then Some (count_list xs i + (case map_of m i of Some c \<Rightarrow> c | None \<Rightarrow> 0)) else map_of m i)"
proof (induction xs arbitrary: m)
  case (Cons x xs)
  have c: "map_of (count_id x m) i =
      (if i = x then Some (Suc (case map_of m x of Some c \<Rightarrow> c | None \<Rightarrow> 0)) else map_of m i)"
    by (simp add: count_id_def)
  have "fold count_id (x # xs) m = fold count_id xs (count_id x m)" by simp
  moreover have "x \<notin> set xs \<Longrightarrow> count_list xs x = 0" by (simp add: count_list_0_iff)
  ultimately show ?case using Cons.IH[of "count_id x m"] c
    by (cases "i = x"; cases "x \<in> set xs") (simp_all del: fold_simps)
qed simp

lemma distinct_count: "distinct (map fst m) \<Longrightarrow> distinct (map fst (fold count_id xs m))"
  by (induction xs arbitrary: m) (simp_all add: count_id_def)

lemma count_distinct: "distinct c \<Longrightarrow> count_list c i = (if i \<in> set c then 1 else 0)"
  by (induction c) auto

lemma count_chains:
  "\<forall>c\<in>set cs. distinct c \<Longrightarrow> count_list (concat cs) i = length (filter (\<lambda>c. i \<in> set c) cs)"
  by (induction cs) (simp_all add: count_distinct)

lemma auth_chain_diff_set:
  assumes "\<forall>c\<in>set cs. distinct c"
  shows "set (get_auth_chain_diff cs) = \<Union>(set ` set cs) - \<Inter>(set ` set cs)" "distinct (get_auth_chain_diff cs)"
proof -
  let ?m = "fold count_id (concat cs) []"
  have d: "distinct (map fst ?m)" by (rule distinct_count) simp
  show "distinct (get_auth_chain_diff cs)"
    unfolding get_auth_chain_diff_def Let_def by (rule distinct_map_filter[OF d])
  have "i \<in> set (get_auth_chain_diff cs) \<longleftrightarrow> i \<in> \<Union>(set ` set cs) - \<Inter>(set ` set cs)" for i
  proof -
    have "i \<in> set (get_auth_chain_diff cs) \<longleftrightarrow> (\<exists>n. (i, n) \<in> set ?m \<and> n < length cs)"
      unfolding get_auth_chain_diff_def Let_def by force
    also have "\<dots> \<longleftrightarrow> (\<exists>n. map_of ?m i = Some n \<and> n < length cs)" by (simp only: map_of_eq_Some_iff[OF d])
    also have "\<dots> \<longleftrightarrow> i \<in> set (concat cs) \<and> length (filter (\<lambda>c. i \<in> set c) cs) < length cs"
      unfolding map_of_count count_chains[OF assms] by simp
    also have "\<dots> \<longleftrightarrow> i \<in> \<Union>(set ` set cs) \<and> (\<exists>c\<in>set cs. i \<notin> set c)"
    proof -
      have "length (filter (\<lambda>c. i \<in> set c) cs) < length cs" if "c \<in> set cs" "i \<notin> set c" for c
        using that by (intro length_filter_less)
      moreover have "\<exists>c\<in>set cs. i \<notin> set c" if "length (filter (\<lambda>c. i \<in> set c) cs) < length cs"
        using that by (metis filter_True less_irrefl)
      ultimately show ?thesis by auto
    qed
    finally show ?thesis by auto
  qed
  then show "set (get_auth_chain_diff cs) = \<Union>(set ` set cs) - \<Inter>(set ` set cs)" by blast
qed

subsection \<open>The iterative check sees the state as a map\<close>

lemma fold_res_cong:
  assumes "\<And>x s s'. h s = h s' \<Longrightarrow> map_result h (\<lambda>e. e) (step x s) = map_result h (\<lambda>e. e) (step x s')"
    and "h s = h s'"
  shows "map_result h (\<lambda>e. e) (fold_res step xs s) = map_result h (\<lambda>e. e) (fold_res step xs s')"
  using assms(2)
proof (induction xs arbitrary: s s')
  case (Cons x xs)
  note step = assms(1)[OF Cons.prems, of x]
  show ?case
  proof (cases "step x s")
    case (Ok t)
    then obtain t' where t': "step x s' = Ok t'" "h t = h t'" using step by (cases "step x s'") simp_all
    show ?thesis using Cons.IH[OF t'(2)] Ok t'(1) by (simp only: fold_res.simps and_then.simps)
  qed (use step in \<open>(cases "step x s'"; simp)+\<close>)
qed simp

lemma add_resolved_cong: "map_of st = map_of st' \<Longrightarrow> add_resolved f st = add_resolved f st'"
  by (intro ext) (simp only: add_resolved_def)

lemma check_event_cong:
  assumes "map_of st = map_of st'"
  shows "map_result map_of (\<lambda>e. e) (check_event uni hi rv f i st) = map_result map_of (\<lambda>e. e) (check_event uni hi rv f i st')"
proof -
  have m: "map_result map_of (\<lambda>e. e) (and_then r g) = map_result map_of (\<lambda>e. e) (and_then r g')"
    if "\<And>x. map_result map_of (\<lambda>e. e) (g x) = map_result map_of (\<lambda>e. e) (g' x)"
    for r :: "('a, sr_error) result" and g g' :: "'a \<Rightarrow> (string state_map, sr_error) result"
    using that by (cases r) simp_all
  have m2: "map_result map_of (\<lambda>e. e) (and_then r g) = map_result map_of (\<lambda>e. e) (and_then r g')"
    if "\<And>x. map_result map_of (\<lambda>e. e) (g x) = map_result map_of (\<lambda>e. e) (g' x)"
    for r :: "(bool, sr_error) result" and g g' :: "bool \<Rightarrow> (string state_map, sr_error) result"
    using that by (cases r) simp_all
  show ?thesis unfolding check_event.simps Let_def add_resolved_cong[OF assms]
    by (intro m m2) (simp add: assms)
qed

lemma iterative_auth_check_cong:
  "map_of st = map_of st' \<Longrightarrow> map_result map_of (\<lambda>e. e) (iterative_auth_check uni hi rv xs st f)
    = map_result map_of (\<lambda>e. e) (iterative_auth_check uni hi rv xs st' f)"
  unfolding iterative_auth_check_def by (rule fold_res_cong[OF check_event_cong])

lemma map_of_extend: "map_of (extend m es) = map_of m ++ map_of (rev es)"
proof (induction es arbitrary: m)
  case (Cons e es)
  obtain k v where "e = (k, v)" by fastforce
  then show ?case using Cons.IH[of "hm_insert k v m"]
    by (simp add: extend_def fun_eq_iff map_add_def split: option.split)
qed (simp add: extend_def)

subsection \<open>Resolution\<close>

lemma then_opt_Some: "then_opt (Some r) g = Some (Ok y) \<longleftrightarrow> (\<exists>x. r = Ok x \<and> g x = Some (Ok y))"
  by (cases r) auto

lemma then_opt_Ok: "then_opt r g = Some (Ok y) \<longleftrightarrow> (\<exists>x. r = Some (Ok x) \<and> g x = Some (Ok y))"
  by (cases r; cases "the r") auto

lemma then_opt_returns: "r \<noteq> None \<Longrightarrow> (\<And>x. r = Some (Ok x) \<Longrightarrow> g x \<noteq> None) \<Longrightarrow> then_opt r g \<noteq> None"
  by (cases r; cases "the r") auto

text \<open>What \<open>resolve\<close> goes through when there is a conflict.\<close>

lemma resolve_Ok:
  assumes "resolve uni hi v ss cs f = Some (Ok st)"
  obtains u where "separate ss = Ok (u, [])" "st = u"
  | u c rv xs ctl ys res where "separate ss = Ok (u, c)" "c \<noteq> []"
      "reverse_topological_power_sort (filter (\<lambda>i. is_power_event_id uni i f) (all_conflicted f cs c))
         (all_conflicted f cs c) f = Some (Ok xs)"
      "room_version_new v = Ok rv" "iterative_auth_check uni hi rv xs u f = Ok ctl"
      "mainline_sort (filter (\<lambda>i. i \<notin> set xs) (all_conflicted f cs c))
         (map_of ctl (''m.room.power_levels'', [])) f = Some (Ok ys)"
      "iterative_auth_check uni hi rv ys ctl f = Ok res" "st = extend res u"
proof -
  obtain u c where s: "separate ss = Ok (u, c)" by (rule separate_cases[of ss])
  show ?thesis
  proof (cases "c = []")
    case True
    have "st = u" using assms s True by (simp add: resolve_def)
    then show ?thesis using that(1) s True by blast
  next
    case False
    let ?all = "all_conflicted f cs c"
    let ?r = "reverse_topological_power_sort (filter (\<lambda>i. is_power_event_id uni i f) ?all) ?all f"
    have eq: "resolve uni hi v ss cs f = then_opt ?r (\<lambda>xs. then_opt (Some (room_version_new v)) (\<lambda>rv.
        then_opt (Some (iterative_auth_check uni hi rv xs u f)) (\<lambda>ctl.
        then_opt (mainline_sort (filter (\<lambda>i. i \<notin> set xs) ?all) (map_of ctl (''m.room.power_levels'', [])) f) (\<lambda>ys.
        then_opt (Some (iterative_auth_check uni hi rv ys ctl f)) (\<lambda>res. Some (Ok (extend res u)))))))"
      using False by (simp only: resolve_def s then_opt.simps prod.case if_False Let_def)
    from assms obtain xs where xs: "?r = Some (Ok xs)"
      and 1: "then_opt (Some (room_version_new v)) (\<lambda>rv.
        then_opt (Some (iterative_auth_check uni hi rv xs u f)) (\<lambda>ctl.
        then_opt (mainline_sort (filter (\<lambda>i. i \<notin> set xs) ?all) (map_of ctl (''m.room.power_levels'', [])) f) (\<lambda>ys.
        then_opt (Some (iterative_auth_check uni hi rv ys ctl f)) (\<lambda>res. Some (Ok (extend res u)))))) = Some (Ok st)"
      unfolding eq then_opt_Ok[of ?r] by (elim exE conjE)
    from 1 obtain rv where rv: "room_version_new v = Ok rv"
      and 2: "then_opt (Some (iterative_auth_check uni hi rv xs u f)) (\<lambda>ctl.
        then_opt (mainline_sort (filter (\<lambda>i. i \<notin> set xs) ?all) (map_of ctl (''m.room.power_levels'', [])) f) (\<lambda>ys.
        then_opt (Some (iterative_auth_check uni hi rv ys ctl f)) (\<lambda>res. Some (Ok (extend res u))))) = Some (Ok st)"
      unfolding then_opt_Some[of "room_version_new v"] by (elim exE conjE)
    from 2 obtain ctl where ctl: "iterative_auth_check uni hi rv xs u f = Ok ctl"
      and 3: "then_opt (mainline_sort (filter (\<lambda>i. i \<notin> set xs) ?all) (map_of ctl (''m.room.power_levels'', [])) f) (\<lambda>ys.
        then_opt (Some (iterative_auth_check uni hi rv ys ctl f)) (\<lambda>res. Some (Ok (extend res u)))) = Some (Ok st)"
      unfolding then_opt_Some[of "iterative_auth_check uni hi rv xs u f"] by (elim exE conjE)
    from 3 obtain ys where ys: "mainline_sort (filter (\<lambda>i. i \<notin> set xs) ?all) (map_of ctl (''m.room.power_levels'', [])) f = Some (Ok ys)"
      and 4: "then_opt (Some (iterative_auth_check uni hi rv ys ctl f)) (\<lambda>res. Some (Ok (extend res u))) = Some (Ok st)"
      unfolding then_opt_Ok[of "mainline_sort _ _ _"] by (elim exE conjE)
    from 4 obtain res where "iterative_auth_check uni hi rv ys ctl f = Ok res" "st = extend res u"
      unfolding then_opt_Some by auto
    then show ?thesis using that(2)[OF s False xs rv ctl ys] by blast
  qed
qed

definition entry_ok ::
    "(nat \<Rightarrow> bool) \<Rightarrow> (event state_map \<Rightarrow> event state_map) \<Rightarrow> room_version \<Rightarrow> fetch \<Rightarrow> state_key \<Rightarrow> string \<Rightarrow> bool" where
  "entry_ok uni hi rv f k i \<longleftrightarrow> (\<exists>ev own st. f i = Some ev \<and> ev_type ev = fst k \<and> ev_state_key ev = Some (snd k)
     \<and> collect_auth_events f (ev_auth ev) [] = Ok own
     \<and> (let auth_events = add_resolved f st (auth_types_for_event uni (fst k) (ev_sender ev) (Some (snd k)) (ev_content ev)) own
        in auth_check uni rv ev (most_recent_prev_event f ev) (current_third_party hi auth_events)
             (\<lambda>ty key. map_of auth_events (ty, key)) = Ok True))"

lemma check_event_entry:
  assumes "check_event uni hi rv f i st = Ok st'"
  shows "st' = st \<or> (\<exists>k. st' = hm_insert k i st \<and> entry_ok uni hi rv f k i)"
proof -
  obtain ev k own passed where c: "f i = Some ev" "ev_state_key ev = Some k"
      "collect_auth_events f (ev_auth ev) [] = Ok own"
      "auth_check uni rv ev (most_recent_prev_event f ev)
         (current_third_party hi (add_resolved f st (auth_types_for_event uni (ev_type ev) (ev_sender ev) (Some k) (ev_content ev)) own))
         (\<lambda>ty key. map_of (add_resolved f st (auth_types_for_event uni (ev_type ev) (ev_sender ev) (Some k) (ev_content ev)) own) (ty, key))
       = Ok passed"
      "st' = (if passed then hm_insert (ev_type ev, k) i st else st)"
    using assms by (auto simp: and_then_eq_Ok ok_or_eq_Ok Let_def)
  show ?thesis
  proof (cases passed)
    case True
    then have "entry_ok uni hi rv f (ev_type ev, k) i"
      unfolding entry_ok_def Let_def using c(1-4) by (intro exI[of _ ev] exI[of _ own] exI[of _ st]) simp
    then show ?thesis using c(5) True by auto
  qed (use c(5) in simp)
qed

lemma iterative_entries:
  assumes "iterative_auth_check uni hi rv xs st f = Ok st'" "map_of st' k = Some i"
  shows "map_of st k = Some i \<or> i \<in> set xs \<and> entry_ok uni hi rv f k i"
proof -
  let ?I = "\<lambda>st'. \<forall>k i. map_of st' k = Some i \<longrightarrow> map_of st k = Some i \<or> i \<in> set xs \<and> entry_ok uni hi rv f k i"
  have "?I st'"
  proof (rule fold_res_invariant[of "check_event uni hi rv f" xs st st' ?I])
    show "fold_res (check_event uni hi rv f) xs st = Ok st'" using assms(1) by (simp add: iterative_auth_check_def)
  next
    fix x s s' assume x: "x \<in> set xs" "?I s" "check_event uni hi rv f x s = Ok s'"
    show "?I s'" using check_event_entry[OF x(3)]
    proof
      assume "\<exists>k. s' = hm_insert k x s \<and> entry_ok uni hi rv f k x"
      then obtain k where "s' = hm_insert k x s" "entry_ok uni hi rv f k x" by blast
      then show ?thesis using x(1,2) by simp
    qed (use x(2) in simp)
  qed simp
  then show ?thesis using assms(2) by blast
qed

text \<open>The conflicted events, and what they depend on.\<close>

definition conflicted_set :: "fetch \<Rightarrow> string list list \<Rightarrow> string state_map list \<Rightarrow> string set" where
  "conflicted_set f cs ss = {i. f i \<noteq> None \<and> (i \<in> \<Union>(set ` set cs) - \<Inter>(set ` set cs)
     \<or> (\<exists>k. \<not> agree ss k \<and> (\<exists>s\<in>set ss. map_of s k = Some i)))}"

lemma set_map_filter_lookup: "set (List.map_filter (\<lambda>s. map_of s k) ss) = {i. \<exists>s\<in>set ss. map_of s k = Some i}"
  by (induction ss) (auto simp: map_filter_simps split: option.splits)

lemma in_values: "i \<in> set (concat (map snd c)) \<longleftrightarrow> (\<exists>k ids. (k, ids) \<in> set c \<and> i \<in> set ids)"
  by force

lemma all_conflicted_set:
  assumes "\<forall>c\<in>set cs. distinct c" "distinct (map fst c)"
    "\<And>k ids. map_of c k = Some ids \<longleftrightarrow> \<not> agree ss k \<and> ids = List.map_filter (\<lambda>s. map_of s k) ss"
  shows "set (all_conflicted f cs c) = conflicted_set f cs ss"
proof -
  have "i \<in> set (concat (map snd c)) \<longleftrightarrow> (\<exists>k. \<not> agree ss k \<and> (\<exists>s\<in>set ss. map_of s k = Some i))" for i
  proof -
    have "i \<in> set (concat (map snd c)) \<longleftrightarrow> (\<exists>k ids. (k, ids) \<in> set c \<and> i \<in> set ids)" by (rule in_values)
    also have "\<dots> \<longleftrightarrow> (\<exists>k ids. map_of c k = Some ids \<and> i \<in> set ids)" by (simp only: map_of_eq_Some_iff[OF assms(2)])
    also have "\<dots> \<longleftrightarrow> (\<exists>k. \<not> agree ss k \<and> i \<in> set (List.map_filter (\<lambda>s. map_of s k) ss))"
      unfolding assms(3) by blast
    finally show ?thesis by (simp only: set_map_filter_lookup mem_Collect_eq)
  qed
  then show ?thesis
    unfolding all_conflicted_def set_unique set_filter set_append conflicted_set_def auth_chain_diff_set(1)[OF assms(1)]
    by blast
qed

lemma all_conflicted_fetched: "i \<in> set (all_conflicted f cs c) \<Longrightarrow> f i \<noteq> None"
  by (auto simp: all_conflicted_def)

lemma closure_within: "i \<in> auth_closure f ad roots \<Longrightarrow> roots \<subseteq> set ad \<Longrightarrow> i \<in> set ad"
  by (induction rule: auth_closure.induct) (auto simp: auth_in_def)

lemma control_fetched:
  "\<forall>i\<in>auth_closure f (all_conflicted f cs c) (set (filter p (all_conflicted f cs c))). f i \<noteq> None"
  using closure_within[of _ f "all_conflicted f cs c" "set (filter p (all_conflicted f cs c))"] all_conflicted_fetched
  by (metis filter_is_subset)

lemma power_sort_returns:
  assumes "\<forall>i\<in>auth_closure f ad (set es). f i \<noteq> None"
  shows "reverse_topological_power_sort es ad f \<noteq> None"
proof (cases "\<forall>i\<in>auth_closure f ad (set es). is_ok (get_power_level_for_sender i f)")
  case True
  then have "\<forall>i\<in>auth_closure f ad (set es). levels_known f i" using assms by (simp add: levels_known_def)
  then show ?thesis using power_sort_as_sort sort_runs[OF power_sort_graph_facts(1)] by (metis option.simps(3))
next
  case False
  then show ?thesis using power_sort_level_error[of f ad es] by auto
qed

lemma power_sort_within:
  assumes "reverse_topological_power_sort es ad f = Some (Ok xs)" "set es \<subseteq> set ad" "\<forall>i\<in>set ad. f i \<noteq> None"
  shows "set xs \<subseteq> set ad"
proof -
  have sub: "auth_closure f ad (set es) \<subseteq> set ad" using closure_within[OF _ assms(2)] by blast
  have "\<forall>i\<in>auth_closure f ad (set es). is_ok (get_power_level_for_sender i f)"
    using power_sort_level_error[of f ad es] assms(1) by auto
  then have lk: "\<forall>i\<in>auth_closure f ad (set es). levels_known f i" using sub assms(3) by (auto simp: levels_known_def)
  obtain key where "reverse_topological_power_sort es ad f = lexicographical_topological_sort (power_sort_graph f ad es) key"
      "\<forall>n\<in>nodes (power_sort_graph f ad es). key n = Ok (level_and_ts f n)"
    using power_sort_as_sort[OF lk] by blast
  then obtain ys od where "lexicographical_topological_sort (power_sort_graph f ad es) key = Some (Ok ys)"
      "kahn_inv (level_and_ts f) (power_sort_graph f ad es) od [] ys" "ys = xs"
    using sort_runs[OF power_sort_graph_facts(1)] assms(1) by (metis option.inject result.inject(1))
  then have "set xs \<subseteq> nodes (power_sort_graph f ad es)" by (simp add: kahn_inv_def)
  then show ?thesis using sub power_sort_graph_facts(2) by simp
qed

lemma mainline_sort_within:
  assumes "mainline_sort es pl f = Some (Ok ys)"
  shows "set ys \<subseteq> set es"
proof (cases "es = []")
  case False
  then obtain ml om where om: "order_map es (mainline_map ml) f [] = Some om" "set ys = set (map fst om)"
    using assms by (auto simp: mainline_sort_def split: option.splits result.splits)
  show ?thesis
  proof
    fix i assume "i \<in> set ys"
    then have "map_of om i \<noteq> None" using om(2) by (simp add: map_of_eq_None_iff)
    then show "i \<in> set es" using order_map_spec(2)[OF om(1)] by (auto split: if_splits)
  qed
qed (use assms in \<open>simp add: mainline_sort_def\<close>)

lemma agree_cong: "map_of ` set ss = map_of ` set ss' \<Longrightarrow> agree ss = agree ss'"
proof
  fix k assume a: "map_of ` set ss = map_of ` set ss'"
  have "agree ss k \<longleftrightarrow> (\<forall>g\<in>map_of ` set ss. \<forall>h\<in>map_of ` set ss. g k = h k)" for ss :: "'a state_map list"
    by (simp add: agree_def)
  then show "agree ss k = agree ss' k" using a by (simp only:)
qed

lemma exists_lookup_cong:
  "map_of ` set ss = map_of ` set ss' \<Longrightarrow> (\<exists>s\<in>set ss. map_of s k = Some i) \<longleftrightarrow> (\<exists>s\<in>set ss'. map_of s k = Some i)"
proof -
  assume a: "map_of ` set ss = map_of ` set ss'"
  have "(\<exists>s\<in>set ss. map_of s k = Some i) \<longleftrightarrow> (\<exists>g\<in>map_of ` set ss. g k = Some i)" for ss :: "('a \<times> 'b) list list"
    by simp
  then show ?thesis using a by (simp only:)
qed

lemma forall_lookup_cong:
  "map_of ` set ss = map_of ` set ss' \<Longrightarrow> (\<forall>s\<in>set ss. map_of s k = Some i) \<longleftrightarrow> (\<forall>s\<in>set ss'. map_of s k = Some i)"
proof -
  assume a: "map_of ` set ss = map_of ` set ss'"
  have "(\<forall>s\<in>set ss. map_of s k = Some i) \<longleftrightarrow> (\<forall>g\<in>map_of ` set ss. g k = Some i)" for ss :: "('a \<times> 'b) list list"
    by simp
  then show ?thesis using a by (simp only:)
qed

lemma conflicted_set_cong:
  assumes "map_of ` set ss = map_of ` set ss'" "set ` set cs = set ` set cs'"
  shows "conflicted_set f cs ss = conflicted_set f cs' ss'"
  unfolding conflicted_set_def agree_cong[OF assms(1)] exists_lookup_cong[OF assms(1)] assms(2) ..

text \<open>The result with the state map read as a function.\<close>

definition outcome :: "(string state_map, sr_error) result option \<Rightarrow> (state_key \<Rightarrow> string option, sr_error) result option" where
  "outcome r = map_option (map_result map_of (\<lambda>e. e)) r"

lemma outcome_then_opt:
  assumes "\<And>x. r = Some (Ok x) \<Longrightarrow> outcome (g x) = outcome (g' x)"
  shows "outcome (then_opt r g) = outcome (then_opt r g')"
proof (cases r)
  case (Some q)
  then show ?thesis using assms by (cases q) simp_all
qed simp

lemma outcome_then_state:
  assumes "map_result map_of (\<lambda>e. e) q = map_result map_of (\<lambda>e. e) q'"
    "\<And>x x'. map_of x = map_of x' \<Longrightarrow> outcome (g x) = outcome (g' x')"
  shows "outcome (then_opt (Some q) g) = outcome (then_opt (Some q') g')"
  using assms by (cases q; cases q') (auto simp: outcome_def)

lemma outcome_extend:
  assumes "map_of x = map_of x'" "map_of u = map_of u'" "distinct (map fst u)" "distinct (map fst u')"
  shows "outcome (Some (Ok (extend x u))) = outcome (Some (Ok (extend x' u')))"
  by (simp only: outcome_def map_of_extend option.map result.map map_of_rev_distinct[OF assms(3)]
      map_of_rev_distinct[OF assms(4)] assms(1,2))

lemma resolve_cong:
  assumes ss: "map_of ` set ss = map_of ` set ss'" and cs: "set ` set cs = set ` set cs'"
    and d: "\<forall>c\<in>set cs. distinct c" "\<forall>c\<in>set cs'. distinct c" and ac: "acyclic_auth f"
  shows "outcome (resolve uni hi v ss cs f) = outcome (resolve uni hi v ss' cs' f)"
proof -
  obtain u c where s1: "separate ss = Ok (u, c)" "split_ok ss u c" using separate_split[of ss] by blast
  obtain u' c' where s1': "separate ss' = Ok (u', c')" "split_ok ss' u' c'" using separate_split[of ss'] by blast
  note s = s1(1) split_okD[OF s1(2)]
  note s' = s1'(1) split_okD[OF s1'(2)]
  have "ss = [] \<longleftrightarrow> ss' = []" using ss by (metis image_is_empty set_empty)
  then have uk: "map_of u k = Some i \<longleftrightarrow> map_of u' k = Some i" for k i
    unfolding s(4) s'(4) forall_lookup_cong[OF ss] by (simp only:)
  have u: "map_of u = map_of u'"
  proof
    fix k show "map_of u k = map_of u' k" by (metis uk not_None_eq)
  qed
  note c = split_ok_clean[OF s1(2)] split_ok_clean[OF s1'(2)]
  show ?thesis
  proof (cases "c = []")
    case True
    then have "c' = []" using c agree_cong[OF ss] by simp
    then show ?thesis using True s(1) s'(1) u by (simp add: resolve_def outcome_def)
  next
    case False
    then have ne: "c' \<noteq> []" using c agree_cong[OF ss] by simp
    let ?a = "all_conflicted f cs c" and ?a' = "all_conflicted f cs' c'"
    have a: "set ?a = set ?a'"
      using all_conflicted_set[OF d(1) s(3,5), of f] all_conflicted_set[OF d(2) s'(3,5), of f]
        conflicted_set_cong[OF ss cs, of f] by simp
    have r: "reverse_topological_power_sort (filter (\<lambda>i. is_power_event_id uni i f) ?a') ?a' f
        = reverse_topological_power_sort (filter (\<lambda>i. is_power_event_id uni i f) ?a) ?a f"
      by (rule power_sort_order[OF control_fetched, symmetric]) (use a in auto)
    have m: "mainline_sort (filter (\<lambda>i. i \<notin> set xs) ?a') p f = mainline_sort (filter (\<lambda>i. i \<notin> set xs) ?a) p f" for xs p
      by (rule mainline_sort_order[OF _ ac]) (use a in auto)
    show ?thesis
      unfolding resolve_def s(1) s'(1) then_opt.simps prod.case Let_def r m if_not_P[OF False] if_not_P[OF ne]
    proof (intro outcome_then_opt outcome_then_state[OF iterative_auth_check_cong[OF u]])
      fix xs rv and ctl ctl' :: "string state_map"
      assume ctl: "map_of ctl = map_of ctl'"
      show "outcome (then_opt (mainline_sort (filter (\<lambda>i. i \<notin> set xs) ?a) (map_of ctl (''m.room.power_levels'', [])) f)
          (\<lambda>ys. then_opt (Some (iterative_auth_check uni hi rv ys ctl f)) (\<lambda>st. Some (Ok (extend st u)))))
        = outcome (then_opt (mainline_sort (filter (\<lambda>i. i \<notin> set xs) ?a) (map_of ctl' (''m.room.power_levels'', [])) f)
          (\<lambda>ys. then_opt (Some (iterative_auth_check uni hi rv ys ctl' f)) (\<lambda>st. Some (Ok (extend st u')))))"
        unfolding ctl
        by (intro outcome_then_opt outcome_then_state[OF iterative_auth_check_cong[OF ctl]]
            outcome_extend[OF _ u s(2) s'(2)])
    qed
  qed
qed

subsection \<open>No panics\<close>

text \<open>Every event that can be fetched has valid identifiers and the content that an event of its type needs; the keys of a
  state are under the types of their events.\<close>

definition readable_events :: "fetch \<Rightarrow> bool" where
  "readable_events f \<longleftrightarrow> (\<forall>i ev. f i = Some ev \<longrightarrow> event_wf ev \<and>
     (ev_type ev = ''m.room.member'' \<longrightarrow> raw_opt (ev_content ev) ''membership'' \<noteq> None) \<and>
     (ev_type ev = ''m.room.power_levels'' \<longrightarrow> de_power_levels (ev_content ev) \<noteq> None))"

definition filed :: "fetch \<Rightarrow> string state_map \<Rightarrow> bool" where
  "filed f m \<longleftrightarrow> (\<forall>k i ev. map_of m k = Some i \<longrightarrow> f i = Some ev \<longrightarrow> ev_type ev = fst k)"

definition events_filed :: "fetch \<Rightarrow> event state_map \<Rightarrow> bool" where
  "events_filed f m \<longleftrightarrow> (\<forall>k ev. map_of m k = Some ev \<longrightarrow> (\<exists>i. f i = Some ev) \<and> ev_type ev = fst k)"

lemma collect_no_panic [simp]: "collect_auth_events f aids m \<noteq> Panic"
  by (induction aids arbitrary: m) (auto simp: and_then_eq_Panic split: option.splits)

lemma collect_filed:
  "collect_auth_events f aids m = Ok m' \<Longrightarrow> events_filed f m \<Longrightarrow> events_filed f m'"
proof (induction aids arbitrary: m)
  case (Cons aid aids)
  show ?case
  proof (cases "f aid")
    case (Some ev)
    then obtain k where "ev_state_key ev = Some k" "collect_auth_events f aids (hm_insert (ev_type ev, k) ev m) = Ok m'"
      using Cons.prems(1) by (auto simp: and_then_eq_Ok ok_or_eq_Ok)
    moreover have "events_filed f (hm_insert (ev_type ev, k) ev m)"
      using Cons.prems(2) Some by (auto simp: events_filed_def)
    ultimately show ?thesis by (metis Cons.IH)
  qed (use Cons in simp)
qed simp

lemma add_resolved_filed:
  assumes "filed f st" "events_filed f m"
  shows "events_filed f (add_resolved f st keys m)"
  unfolding add_resolved_def using assms(2)
proof (induction keys arbitrary: m)
  case (Cons key keys)
  have "events_filed f (case Option.bind (map_of st key) f of Some event \<Rightarrow> hm_insert key event m | None \<Rightarrow> m)"
    using Cons.prems assms(1)
    by (cases "map_of st key"; cases "f (the (map_of st key))") (auto simp: events_filed_def filed_def)
  from Cons.IH[OF this] show ?case by simp
qed simp

lemma filed_auth_check_no_panic:
  assumes "readable_events f" "f i = Some ev" "events_filed f m"
  shows "auth_check uni rv ev prev tpi (\<lambda>ty key. map_of m (ty, key)) \<noteq> Panic"
proof (rule auth_check_no_panic_general)
  have m: "(\<exists>j. f j = Some e) \<and> ev_type e = t" if "map_of m (t, k) = Some e" for t k e
    using assms(3) that by (auto simp: events_filed_def)
  have f: "event_wf e" "ev_type e = ''m.room.member'' \<Longrightarrow> raw_opt (ev_content e) ''membership'' \<noteq> None"
      "ev_type e = ''m.room.power_levels'' \<Longrightarrow> de_power_levels (ev_content e) \<noteq> None" if "f j = Some e" for j e
    using assms(1) that by (simp_all add: readable_events_def)
  show "event_wf ev" by (rule f(1)[OF assms(2)])
  show "de_power_levels (ev_content ev) \<noteq> None" if "ev_type ev = ''m.room.power_levels''" by (rule f(3)[OF assms(2) that])
  show "raw_opt (ev_content mem) ''membership'' \<noteq> None" if "map_of m (''m.room.member'', ev_sender ev) = Some mem" for mem
    using m[OF that] f(2) by blast
  show "de_power_levels (ev_content pl) \<noteq> None" if "map_of m (''m.room.power_levels'', []) = Some pl" for pl
    using m[OF that] f(3) by blast
qed

lemma check_event_no_panic:
  assumes "readable_events f" "filed f st"
  shows "check_event uni hi rv f i st \<noteq> Panic"
proof
  assume "check_event uni hi rv f i st = Panic"
  then obtain ev k own where c: "f i = Some ev" "collect_auth_events f (ev_auth ev) [] = Ok own"
      "auth_check uni rv ev (most_recent_prev_event f ev)
         (current_third_party hi (add_resolved f st (auth_types_for_event uni (ev_type ev) (ev_sender ev) (Some k) (ev_content ev)) own))
         (\<lambda>ty key. map_of (add_resolved f st (auth_types_for_event uni (ev_type ev) (ev_sender ev) (Some k) (ev_content ev)) own) (ty, key))
       = Panic"
    by (auto simp: and_then_eq_Panic ok_or_eq_Ok Let_def)
  have "events_filed f own" using collect_filed[OF c(2)] by (simp add: events_filed_def)
  then show False using c(3) filed_auth_check_no_panic[OF assms(1) c(1) add_resolved_filed[OF assms(2)]] by blast
qed

lemma check_event_filed: "check_event uni hi rv f i st = Ok st' \<Longrightarrow> filed f st \<Longrightarrow> filed f st'"
  by (drule check_event_entry) (fastforce simp: filed_def entry_ok_def split: if_splits)

lemma iterative_no_panic:
  assumes "readable_events f" "filed f st"
  shows "iterative_auth_check uni hi rv xs st f \<noteq> Panic"
    and "iterative_auth_check uni hi rv xs st f = Ok st' \<Longrightarrow> filed f st'"
proof -
  have "fold_res (check_event uni hi rv f) xs st \<noteq> Panic \<and>
      (\<forall>st'. fold_res (check_event uni hi rv f) xs st = Ok st' \<longrightarrow> filed f st')"
    using assms(2)
  proof (induction xs arbitrary: st)
    case (Cons x xs)
    then show ?case using check_event_no_panic[OF assms(1) Cons.prems] check_event_filed[OF _ Cons.prems]
      unfolding fold_res.simps and_then_eq_Panic and_then_eq_Ok by meson
  qed simp
  then show "iterative_auth_check uni hi rv xs st f \<noteq> Panic"
    "iterative_auth_check uni hi rv xs st f = Ok st' \<Longrightarrow> filed f st'" by (simp_all add: iterative_auth_check_def)
qed

lemma power_sort_no_panic:
  assumes "\<forall>i\<in>auth_closure f ad (set es). f i \<noteq> None"
  shows "reverse_topological_power_sort es ad f \<noteq> Some Panic"
proof (cases "\<forall>i\<in>auth_closure f ad (set es). is_ok (get_power_level_for_sender i f)")
  case True
  then have "\<forall>i\<in>auth_closure f ad (set es). levels_known f i" using assms by (simp add: levels_known_def)
  then show ?thesis using power_sort_as_sort sort_runs[OF power_sort_graph_facts(1)]
    by (metis option.inject result.distinct(3))
next
  case False
  then show ?thesis using power_sort_level_error[of f ad es] by auto
qed

lemma then_opt_no_panic:
  "r \<noteq> Some Panic \<Longrightarrow> (\<And>x. r = Some (Ok x) \<Longrightarrow> g x \<noteq> Some Panic) \<Longrightarrow> then_opt r g \<noteq> Some Panic"
  by (cases "(r, g)" rule: then_opt.cases) auto

lemma resolve_no_panic:
  assumes "readable_events f" "\<forall>s\<in>set ss. filed f s"
  shows "resolve uni hi v ss cs f \<noteq> Some Panic"
proof -
  obtain u c where s: "separate ss = Ok (u, c)" "split_ok ss u c" using separate_split[of ss] by blast
  have u: "filed f u" unfolding filed_def
  proof (intro allI impI)
    fix k i ev assume "map_of u k = Some i" "f i = Some ev"
    moreover have "\<exists>t\<in>set ss. map_of t k = Some i"
      using split_okD(3)[OF s(2), of k i] \<open>map_of u k = Some i\<close> by (cases ss) auto
    ultimately show "ev_type ev = fst k" using assms(2) unfolding filed_def by blast
  qed
  have rv: "room_version_new v \<noteq> Panic" by (simp add: room_version_new_def split: room_version_id.split)
  show ?thesis
    unfolding resolve_def s(1) then_opt.simps prod.case Let_def
    by (cases "c = []")
       (simp, simp only: if_False, intro then_opt_no_panic power_sort_no_panic control_fetched,
        use rv iterative_no_panic[OF assms(1)] u mainline_sort_no_panic in \<open>auto\<close>)
qed

section \<open>Properties\<close>

definition fork_event :: "string \<Rightarrow> nat \<Rightarrow> event_type \<Rightarrow> string \<Rightarrow> content \<Rightarrow> string list \<Rightarrow> event" where
  "fork_event i ts t k c auth = \<lparr> ev_id = i, ev_room = ''!r:b'', ev_sender = ''@a:b'', ev_ts = ts, ev_type = t,
     ev_content = c, ev_state_key = Some k, ev_prev = [], ev_auth = auth, ev_redacts = None \<rparr>"

definition fork_fetch :: fetch where
  "fork_fetch i =
     (if i = ''c'' then Some (fork_event i 0 ''m.room.create'' [] [(''creator'', JString ''@a:b'')] [])
      else if i = ''m'' then Some (fork_event i 1 ''m.room.member'' ''@a:b'' [(''membership'', JString ''join'')] [''c''])
      else if i = ''t'' then Some (fork_event i 2 ''m.room.topic'' [] [] [''c'', ''m''])
      else if i = ''u'' then Some (fork_event i 3 ''m.room.topic'' [] [] [''c'', ''m''])
      else None)"

definition fork_state :: "string \<Rightarrow> string state_map" where
  "fork_state topic = [((''m.room.create'', []), ''c''), ((''m.room.member'', ''@a:b''), ''m''), ((''m.room.topic'', []), topic)]"
abbreviation fork_resolve :: "(string state_map, sr_error) result option" where
  "fork_resolve \<equiv> resolve (\<lambda>_. False) (\<lambda>m. m) V6 [fork_state ''u'', fork_state ''t''] [[''c'', ''m''], [''m'', ''c'']] fork_fetch"

lemma fork_resolved:
  "fork_resolve = Some (Ok [((''m.room.create'', []), ''c''), ((''m.room.member'', ''@a:b''), ''m''),
     ((''m.room.topic'', []), ''u'')])"
  by code_simp

text \<open> \<open>separate\<close> never panics and splits the keys of the state sets into disjoint parts: a key is unconflicted,
  with value \<open>i\<close>, exactly when every state set maps it to \<open>i\<close>; it is conflicted exactly when two sets differ
  on it (a missing entry differs from a present one), and then all the values of the sets are collected in
  order.\<close>

lemma separate_spec:
  "\<exists>clean conflicting. separate state_sets = Ok (clean, conflicting)
    \<and> distinct (map fst clean) \<and> distinct (map fst conflicting)
    \<and> (\<forall>k i. map_of clean k = Some i \<longleftrightarrow> state_sets \<noteq> [] \<and> list_all (\<lambda>s. map_of s k = Some i) state_sets)
    \<and> (\<forall>k ids. map_of conflicting k = Some ids \<longleftrightarrow>
         (\<exists>s\<in>set state_sets. \<exists>s'\<in>set state_sets. map_of s k \<noteq> map_of s' k)
         \<and> ids = List.map_filter (\<lambda>s. map_of s k) state_sets)"
proof -
  obtain u c where s: "separate state_sets = Ok (u, c)" "split_ok state_sets u c"
    using separate_split[of state_sets] by blast
  note d = split_okD[OF s(2), unfolded agree_def]
  show ?thesis unfolding list_all_iff
    by (rule exI[of _ u], rule exI[of _ c]) (intro conjI allI s(1) d(1,2) d(3), simp only: d(4), blast)
qed

text \<open> The auth chain difference is the union of the auth chains less their intersection, without
  duplicates.\<close>

lemma auth_chain_diff_spec:
  assumes "\<forall>c\<in>set auth_chains. distinct c"
  shows "set (get_auth_chain_diff auth_chains) = \<Union>(set ` set auth_chains) - \<Inter>(set ` set auth_chains)
    \<and> distinct (get_auth_chain_diff auth_chains)"
  using auth_chain_diff_set[OF assms] by simp_all

lemma auth_chain_diff_spec_witness:
  "set (get_auth_chain_diff [[1 :: nat], []]) = {1}"
proof -
  have "\<forall>c\<in>set [[1 :: nat], []]. distinct c" by simp
  from auth_chain_diff_spec[OF this] show ?thesis by simp
qed

text \<open> Without a conflict the resolved state is the common state: if all state sets are equal as maps,
  \<open>resolve\<close> returns that map and checks nothing.\<close>

lemma resolve_without_conflict:
  assumes "\<forall>s\<in>set state_sets. map_of s = g" "state_sets \<noteq> []"
  shows "outcome (resolve uni hash_iter v state_sets auth_chains f) = Some (Ok g)"
proof -
  obtain u c where s: "separate state_sets = Ok (u, c)" "split_ok state_sets u c"
    using separate_split[of state_sets] by blast
  have "agree state_sets k" for k unfolding agree_def using assms(1) by metis
  then have c: "c = []" using split_ok_clean[OF s(2)] by blast
  have "map_of u k = g k" for k
  proof -
    have "map_of u k = Some i \<longleftrightarrow> g k = Some i" for i
      unfolding split_okD(3)[OF s(2)] using assms by (metis last_in_set)
    then show ?thesis by (metis not_None_eq)
  qed
  then have "map_of u = g" by (rule ext)
  then show ?thesis using s(1) c by (simp add: resolve_def outcome_def)
qed

lemma resolve_without_conflict_witness:
  "outcome (resolve (\<lambda>_. False) (\<lambda>m. m) V6 [fork_state ''t'', fork_state ''t''] [] fork_fetch) = Some (Ok (map_of (fork_state ''t'')))"
  by (rule resolve_without_conflict) auto

text \<open>C3.  Unconflicted state is kept: whatever is resolved, a key that every state set maps to \<open>i\<close> is mapped to \<open>i\<close>
  in the result.\<close>

theorem resolve_keeps_unconflicted:
  assumes "resolve uni hash_iter v state_sets auth_chains f = Some (Ok st)"
    and "state_sets \<noteq> []" "\<forall>s\<in>set state_sets. map_of s k = Some i"
  shows "map_of st k = Some i"
proof -
  have clean: "map_of u k = Some i" "distinct (map fst u)" if "separate state_sets = Ok (u, c)" for u c
  proof -
    have "split_ok state_sets u c" using separate_split[of state_sets] that by auto
    then show "map_of u k = Some i" "distinct (map fst u)" using split_okD assms(2,3) by metis+
  qed
  show ?thesis using assms(1)
  proof (cases rule: resolve_Ok)
    case (1 u)
    then show ?thesis using clean by blast
  next
    case (2 u c rv xs ctl ys res)
    then show ?thesis using clean[OF 2(1)] by (simp add: map_of_extend map_of_rev_distinct)
  qed
qed

lemma resolve_keeps_unconflicted_witness:
  "map_of [((''m.room.create'', []), ''c''), ((''m.room.member'', ''@a:b''), ''m''), ((''m.room.topic'', []), ''u'')]
     (''m.room.create'', []) = Some ''c''"
  by (rule resolve_keeps_unconflicted[OF fork_resolved]) (auto simp: fork_state_def)

text \<open>C1.  Only authorized events get in: an entry of the resolved state is either common to all state sets, or the
  id of a conflicted event that can be fetched, whose type and state key are the key, and that passed
  \<open>auth_check\<close> against its own auth events overlaid with the state resolved so far.\<close>

theorem resolve_sound:
  assumes "resolve uni hash_iter v state_sets auth_chains f = Some (Ok st)" "map_of st k = Some i"
    and "\<forall>c\<in>set auth_chains. distinct c"
  shows "list_all (\<lambda>s. map_of s k = Some i) state_sets \<or>
    i \<in> conflicted_set f auth_chains state_sets \<and> (\<exists>rv. room_version_new v = Ok rv \<and> entry_ok uni hash_iter rv f k i)"
proof -
  have sp: "split_ok state_sets u c" if "separate state_sets = Ok (u, c)" for u c
    using separate_split[of state_sets] that by auto
  have clean: "list_all (\<lambda>s. map_of s k = Some i) state_sets" if "separate state_sets = Ok (u, c)" "map_of u k = Some i" for u c
    using split_okD(3)[OF sp[OF that(1)]] that(2) by (simp add: list_all_iff)
  show ?thesis using assms(1)
  proof (cases rule: resolve_Ok)
    case (1 u)
    then show ?thesis using clean assms(2) by blast
  next
    case (2 u c rv xs ctl ys res)
    note d = split_okD[OF sp[OF 2(1)]]
    have set_all: "set (all_conflicted f auth_chains c) = conflicted_set f auth_chains state_sets"
      by (rule all_conflicted_set[OF assms(3) d(2,4)])
    have "map_of u k = Some i \<or> map_of res k = Some i"
      using assms(2) 2(8) d(1) by (auto simp: map_of_extend map_of_rev_distinct map_add_Some_iff)
    then show ?thesis
    proof
      assume "map_of u k = Some i"
      then show ?thesis using clean 2(1) by blast
    next
      assume "map_of res k = Some i"
      then have "map_of u k = Some i \<or> (i \<in> set xs \<or> i \<in> set ys) \<and> entry_ok uni hash_iter rv f k i"
        using iterative_entries[OF 2(7)] iterative_entries[OF 2(5)] by blast
      moreover have "set xs \<subseteq> set (all_conflicted f auth_chains c)" 
        by (rule power_sort_within[OF 2(3)]) (use all_conflicted_fetched in auto)
      moreover have "set ys \<subseteq> set (all_conflicted f auth_chains c)" using mainline_sort_within[OF 2(6)] by auto
      ultimately show ?thesis using clean[OF 2(1)] 2(4) set_all by blast
    qed
  qed
qed

lemma resolve_sound_witness:
  "\<exists>rv. room_version_new V6 = Ok rv \<and> entry_ok (\<lambda>_. False) (\<lambda>m. m) rv fork_fetch (''m.room.topic'', []) ''u''"
  using resolve_sound[OF fork_resolved, of "(''m.room.topic'', [])" "''u''"] by (simp add: fork_state_def)

text \<open>C9.  State resolution returns when auth events are acyclic: neither the graph construction nor the two mainline
  loops run forever, whatever can or cannot be fetched.  If moreover every event has valid identifiers and the content of
  its type, and the state sets file events under their own types, what it returns is a state or an error: it does not
  panic.\<close>

theorem resolve_returns:
  assumes "acyclic_auth f"
  shows "resolve uni hash_iter v state_sets auth_chains f \<noteq> None
    \<and> (readable_events f \<and> (\<forall>s\<in>set state_sets. filed f s)
        \<longrightarrow> (\<exists>r. resolve uni hash_iter v state_sets auth_chains f = Some r \<and> r \<noteq> Panic))"
proof -
  obtain u c where s: "separate state_sets = Ok (u, c)" using separate_split[of state_sets] by blast
  have m: "mainline_sort es p f \<noteq> None" for es p
    using mainline_returns[OF assms, of p "[]"] mainline_sort_sorted[OF _ assms, of p _ es]
    by (cases "the (mainline_of f p [])") (auto simp: mainline_sort_def)
  have "resolve uni hash_iter v state_sets auth_chains f \<noteq> None"
    unfolding resolve_def s then_opt.simps prod.case Let_def
    by (cases "c = []") (simp, simp only: if_False, intro then_opt_returns power_sort_returns control_fetched m, simp_all)
  then show ?thesis using resolve_no_panic[of f state_sets uni hash_iter v auth_chains] by auto
qed

text \<open>C2.  State resolution is deterministic: its result, as a map, does not depend on the order in which the state
  sets, the auth chains or their entries are given or iterated, nor on repeated state sets or chains.\<close>

theorem resolve_deterministic:
  assumes "map_of ` set state_sets = map_of ` set state_sets'" "set ` set auth_chains = set ` set auth_chains'"
    and "\<forall>c\<in>set auth_chains. distinct c" "\<forall>c\<in>set auth_chains'. distinct c" "acyclic_auth f"
  shows "outcome (resolve uni hash_iter v state_sets auth_chains f) = outcome (resolve uni hash_iter v state_sets' auth_chains' f)"
  using assms by (rule resolve_cong)

lemma fork_acyclic: "acyclic_auth fork_fetch"
proof -
  let ?d = "\<lambda>i. if i = ''c'' then 0 else if i = ''m'' then 1 else (2 :: nat)"
  have "?d a < ?d i" if "a \<in> set (auth_of fork_fetch i)" for i a
    using that by (auto simp: auth_of_def fork_fetch_def fork_event_def split: if_splits)
  then show ?thesis unfolding acyclic_auth_def by (intro exI[of _ ?d]) blast
qed

lemma fork_readable: "readable_events fork_fetch" "filed fork_fetch (fork_state t)" if "t = ''t'' \<or> t = ''u''" for t
proof -
  have ok: "server_name_ok ''b''"
    by (rule server_name_ok_plain) (simp_all add: host_byte_def is_ascii_alnum_def is_lower_def)
  then have "user_id_validate ''@a:b'' = Ok ()"
    by (simp add: user_id_validate_def parse_id_def validate_id_def MAX_BYTES_def localpart_conforming historical_byte_def)
  moreover have "room_id_validate ''!r:b'' = Ok ()"
    using ok by (simp add: room_id_validate_def validate_delimited_id_def parse_id_def validate_id_def MAX_BYTES_def)
  ultimately show "readable_events fork_fetch"
    by (auto simp: readable_events_def event_wf_def fork_fetch_def fork_event_def raw_opt_def split: if_splits)
  show "filed fork_fetch (fork_state t)"
    using that by (auto simp: filed_def fork_fetch_def fork_event_def fork_state_def split: if_splits)
qed

lemma resolve_returns_witness: "\<exists>r. fork_resolve = Some r \<and> r \<noteq> Panic"
proof -
  have "\<forall>s\<in>set [fork_state ''u'', fork_state ''t'']. filed fork_fetch s" using fork_readable(2) by simp
  then show ?thesis using resolve_returns[OF fork_acyclic] fork_readable(1)[of "''t''"] by blast
qed

lemma resolve_deterministic_witness:
  "outcome fork_resolve =
   outcome (resolve (\<lambda>_. False) (\<lambda>m. m) V6 [fork_state ''t'', fork_state ''u'', fork_state ''t''] [[''m'', ''c'']] fork_fetch)"
  by (rule resolve_deterministic[OF _ _ _ _ fork_acyclic]) auto

end
