(* ===== verification/Signatures.thy ===== *)
theory Signatures
  imports Identifiers Canonical_Json
begin

text \<open>The crate \<^verbatim>\<open>ruma-signatures\<close>: signing and verifying JSON objects and events, content and
  reference hashes, redaction.  Objects are canonical JSON maps; a function that takes
  \<^verbatim>\<open>&mut CanonicalJsonObject\<close> returns the object it leaves behind together with its result, also when
  that result is an error.  The crates \<^verbatim>\<open>serde_json\<close>, \<^verbatim>\<open>base64\<close>, \<^verbatim>\<open>sha2\<close> and \<^verbatim>\<open>ed25519_dalek\<close> are the
  fields of the records \<open>codecs\<close> and \<open>ed25519\<close>; what the theorems rely on of them is stated in
  \<open>codecs_ok\<close> and \<open>key_verifies\<close>.\<close>

type_synonym bytes = string

section \<open>Errors\<close>

datatype json_type = JTObject | JTString | JTInteger | JTArray | JTBoolean | JTNull

datatype json_error =
    NotOfType string json_type
  | NotMultiplesOfType string json_type
  | JsonFieldMissingFromObject string
  | JsonKeyMissing string string string
  | Serde

datatype verification_error =
    SignatureNotFound string | PublicKeyNotFound string | UnknownPublicKeysForSignature
  | SignatureMismatch

datatype parse_error =
    PUserId id_error | PEventId id_error
  | ServerNameFromEventIdByRoomVersion string room_version_id
  | DerivedPublicKeyDoesNotMatchParsedKey bytes bytes
  | Oid "nat list" "nat list"
  | PSecretKey | PPublicKey | PSignature
  | Base64 string string

datatype split_error = InvalidLength nat | InvalidVersion string | UnsupportedAlgorithm string

datatype sig_error =
    EJson json_error | EVerification verification_error | EParse parse_error | EDerParse
  | ESplit split_error | PduSize

abbreviation not_of_type :: "string \<Rightarrow> json_type \<Rightarrow> sig_error" where
  "not_of_type target ty \<equiv> EJson (NotOfType target ty)"

abbreviation not_multiples_of_type :: "string \<Rightarrow> json_type \<Rightarrow> sig_error" where
  "not_multiples_of_type target ty \<equiv> EJson (NotMultiplesOfType target ty)"

abbreviation field_missing_from_object :: "string \<Rightarrow> sig_error" where
  "field_missing_from_object target \<equiv> EJson (JsonFieldMissingFromObject target)"

abbreviation key_missing :: "string \<Rightarrow> string \<Rightarrow> string \<Rightarrow> sig_error" where
  "key_missing for_target type_of with_key \<equiv> EJson (JsonKeyMissing for_target type_of with_key)"

section \<open>The crates the code calls\<close>

datatype b64_config = STANDARD_NO_PAD | URL_SAFE_NO_PAD

record codecs =
  to_json_string :: "cobject \<Rightarrow> string option"
  from_json_str :: "string \<Rightarrow> cobject option"
  sha256 :: "bytes \<Rightarrow> bytes"
  encode_config :: "bytes \<Rightarrow> b64_config \<Rightarrow> string"
  decode_config :: "string \<Rightarrow> b64_config \<Rightarrow> bytes option"

record ed25519 =
  secret_from_bytes :: "bytes \<Rightarrow> bytes option"
  public_of_secret :: "bytes \<Rightarrow> bytes"
  expand_secret :: "bytes \<Rightarrow> bytes"
  expanded_sign :: "bytes \<Rightarrow> bytes \<Rightarrow> bytes \<Rightarrow> bytes"
  public_from_bytes :: "bytes \<Rightarrow> bytes option"
  signature_from_bytes :: "bytes \<Rightarrow> bytes option"
  public_verify :: "bytes \<Rightarrow> bytes \<Rightarrow> bytes \<Rightarrow> bool"

section \<open>Signature ids and signatures\<close>

datatype algorithm = Ed25519

fun algorithm_display :: "algorithm \<Rightarrow> string" where
  "algorithm_display Ed25519 = ''ed25519''"

definition split_id :: "string \<Rightarrow> (algorithm \<times> string, split_error) result" where
  "split_id s =
     (let signature_id = str_split (CHR '':'') s
      in if length signature_id \<noteq> 2 then Err (InvalidLength (length signature_id))
         else
           (let version = signature_id ! 1
            in if \<not> list_all (\<lambda>ch. is_ascii_alnum ch \<or> ch = CHR ''_'') version
               then Err (InvalidVersion version)
               else if signature_id ! 0 = ''ed25519'' then Ok (Ed25519, version)
               else Err (UnsupportedAlgorithm (signature_id ! 0))))"

record signature =
  sig_algorithm :: algorithm
  sig_bytes :: bytes
  sig_version :: string

definition signature_new :: "string \<Rightarrow> bytes \<Rightarrow> (signature, sig_error) result" where
  "signature_new s b =
     and_then (map_err ESplit (split_id s)) (\<lambda>(alg, version).
       Ok \<lparr> sig_algorithm = alg, sig_bytes = b, sig_version = version \<rparr>)"

definition signature_base64 :: "codecs \<Rightarrow> signature \<Rightarrow> string" where
  "signature_base64 C s = encode_config C (sig_bytes s) STANDARD_NO_PAD"

definition signature_id :: "signature \<Rightarrow> string" where
  "signature_id s = algorithm_display (sig_algorithm s) @ '':'' @ sig_version s"

section \<open>Key pairs\<close>

definition ED25519_OID :: "nat list" where "ED25519_OID = [1, 3, 101, 112]"

record key_pair =
  extended_privkey :: bytes
  pubkey :: bytes
  kp_version :: string

definition correct_privkey_from_octolet :: "bytes \<Rightarrow> bytes" where
  "correct_privkey_from_octolet key =
     (if length key = 34 \<and> map byte (take 2 key) = [4, 32] then drop 2 key else key)"

definition key_pair_new ::
    "ed25519 \<Rightarrow> nat list \<Rightarrow> bytes \<Rightarrow> bytes option \<Rightarrow> string \<Rightarrow> (key_pair, sig_error) result" where
  "key_pair_new E oid privkey pubk version =
     (if oid \<noteq> ED25519_OID then Err (EParse (Oid ED25519_OID oid))
      else and_then (ok_or (EParse PSecretKey)
                      (secret_from_bytes E (correct_privkey_from_octolet privkey))) (\<lambda>secret.
        let derived = public_of_secret E secret;
            kp = \<lparr> extended_privkey = expand_secret E secret, pubkey = derived, kp_version = version \<rparr>
        in case pubk of
             Some oak \<Rightarrow>
               if oak \<noteq> derived then Err (EParse (DerivedPublicKeyDoesNotMatchParsedKey oak derived))
               else Ok kp
           | None \<Rightarrow> Ok kp))"

definition key_pair_sign :: "ed25519 \<Rightarrow> key_pair \<Rightarrow> bytes \<Rightarrow> signature" where
  "key_pair_sign E kp message =
     \<lparr> sig_algorithm = Ed25519,
       sig_bytes = expanded_sign E (extended_privkey kp) message (pubkey kp),
       sig_version = kp_version kp \<rparr>"

definition ed25519_verify :: "ed25519 \<Rightarrow> bytes \<Rightarrow> bytes \<Rightarrow> bytes \<Rightarrow> (unit, sig_error) result" where
  "ed25519_verify E public_key sigb message =
     and_then (ok_or (EParse PPublicKey) (public_from_bytes E public_key)) (\<lambda>pk.
     and_then (ok_or (EParse PSignature) (signature_from_bytes E sigb)) (\<lambda>sg.
       if public_verify E pk message sg then Ok () else Err (EVerification SignatureMismatch)))"

type_synonym public_key_set = "(string, string) btree"
type_synonym public_key_map = "(string, public_key_set) btree"

section \<open>Canonical JSON strings and hashes\<close>

definition MAX_PDU_BYTES :: nat where "MAX_PDU_BYTES = 65535"

definition CANONICAL_JSON_FIELDS_TO_REMOVE :: "string list" where
  "CANONICAL_JSON_FIELDS_TO_REMOVE = [''signatures'', ''unsigned'']"

definition CONTENT_HASH_FIELDS_TO_REMOVE :: "string list" where
  "CONTENT_HASH_FIELDS_TO_REMOVE = [''hashes'', ''signatures'', ''unsigned'']"

definition REFERENCE_HASH_FIELDS_TO_REMOVE :: "string list" where
  "REFERENCE_HASH_FIELDS_TO_REMOVE = [''age_ts'', ''signatures'', ''unsigned'']"

definition canonical_json_with_fields_to_remove ::
    "codecs \<Rightarrow> cobject \<Rightarrow> string list \<Rightarrow> (string, sig_error) result" where
  "canonical_json_with_fields_to_remove C object field_names =
     ok_or (EJson Serde) (to_json_string C (fold bt_remove field_names object))"

definition canonical_json :: "codecs \<Rightarrow> cobject \<Rightarrow> (string, sig_error) result" where
  "canonical_json C object =
     canonical_json_with_fields_to_remove C object CANONICAL_JSON_FIELDS_TO_REMOVE"

definition content_hash :: "codecs \<Rightarrow> cobject \<Rightarrow> (string, sig_error) result" where
  "content_hash C object =
     and_then (canonical_json_with_fields_to_remove C object CONTENT_HASH_FIELDS_TO_REMOVE) (\<lambda>json.
       if length json > MAX_PDU_BYTES then Err PduSize
       else Ok (encode_config C (sha256 C json) STANDARD_NO_PAD))"

section \<open>Redaction\<close>

definition ALLOWED_KEYS :: "string list" where
  "ALLOWED_KEYS = [''event_id'', ''type'', ''room_id'', ''sender'', ''state_key'', ''content'',
     ''hashes'', ''signatures'', ''depth'', ''prev_events'', ''prev_state'', ''auth_events'',
     ''origin'', ''origin_server_ts'', ''membership'']"

definition allowed_content_keys_for :: "string \<Rightarrow> room_version_id \<Rightarrow> string list" where
  "allowed_content_keys_for event_type version =
     (if event_type = ''m.room.member'' then [''membership'']
      else if event_type = ''m.room.create'' then [''creator'']
      else if event_type = ''m.room.join_rules'' then [''join_rule'']
      else if event_type = ''m.room.power_levels'' then
        [''ban'', ''events'', ''events_default'', ''kick'', ''redact'', ''state_default'', ''users'',
         ''users_default'']
      else if event_type = ''m.room.aliases'' then
        (if version \<in> {V1, V2, V3, V4, V5} then [''aliases''] else [])
      else if event_type = ''m.room.history_visibility'' then [''history_visibility'']
      else [])"

text \<open>The two loops of \<open>redact\<close> that move the allowed entries from the old map into a new one.\<close>

fun move_keys :: "string list \<Rightarrow> cobject \<Rightarrow> cobject \<Rightarrow> cobject" where
  "move_keys [] old new = new"
| "move_keys (key # keys) old new =
     (case bt_get old key of
        Some v \<Rightarrow> move_keys keys (bt_remove key old) (bt_insert key v new)
      | None \<Rightarrow> move_keys keys old new)"

definition redact :: "cobject \<Rightarrow> room_version_id \<Rightarrow> (cobject, sig_error) result" where
  "redact object version =
     (case bt_get object ''type'' of
        None \<Rightarrow> Err (field_missing_from_object ''type'')
      | Some (String event_type) \<Rightarrow>
          (case bt_get object ''content'' of
             Some (Object old_content) \<Rightarrow>
               Ok (move_keys ALLOWED_KEYS
                 (bt_insert ''content''
                    (Object (move_keys (allowed_content_keys_for event_type version) old_content []))
                    object) [])
           | Some _ \<Rightarrow> Err (not_of_type ''content'' JTObject)
           | None \<Rightarrow> Ok (move_keys ALLOWED_KEYS object []))
      | Some _ \<Rightarrow> Err (not_of_type ''type'' JTString))"

definition reference_hash :: "codecs \<Rightarrow> cobject \<Rightarrow> room_version_id \<Rightarrow> (string, sig_error) result" where
  "reference_hash C object version =
     and_then (redact object version) (\<lambda>redacted.
     and_then (canonical_json_with_fields_to_remove C redacted REFERENCE_HASH_FIELDS_TO_REMOVE) (\<lambda>json.
       if length json > MAX_PDU_BYTES then Err PduSize
       else Ok (encode_config C (sha256 C json)
              (if version \<in> {V1, V2, V3} then STANDARD_NO_PAD else URL_SAFE_NO_PAD))))"

section \<open>Signing\<close>

text \<open>\<open>sign_json\<close>; \<open>sign\<close> is the \<open>KeyPair\<close>.  An early return leaves the object without the
  entries already taken out of it.\<close>

definition sign_json ::
    "codecs \<Rightarrow> string \<Rightarrow> (bytes \<Rightarrow> signature) \<Rightarrow> cobject \<Rightarrow> cobject \<times> (unit, sig_error) result" where
  "sign_json C entity_id sign object =
     (let o1 = bt_remove ''signatures'' object;
          maybe_unsigned = bt_get o1 ''unsigned'';
          o2 = bt_remove ''unsigned'' o1;
          continue = (\<lambda>signature_map.
            case to_json_string C o2 of
              None \<Rightarrow> (o2, Err (EJson Serde))
            | Some json \<Rightarrow>
                (let sgnt = sign json;
                     signature_set = (case bt_get signature_map entity_id of
                       Some v \<Rightarrow> v | None \<Rightarrow> Object [])
                 in case signature_set of
                      Object obj \<Rightarrow>
                        (let obj' = bt_insert (signature_id sgnt) (String (signature_base64 C sgnt)) obj;
                             o3 = bt_insert ''signatures''
                                    (Object (bt_insert entity_id (Object obj') signature_map)) o2
                         in (case maybe_unsigned of
                               Some v \<Rightarrow> bt_insert ''unsigned'' v o3 | None \<Rightarrow> o3, Ok ()))
                    | _ \<Rightarrow> (o2, Err (not_multiples_of_type ''signatures'' JTObject))))
      in case bt_get object ''signatures'' of
           Some (Object signatures) \<Rightarrow> continue signatures
         | Some _ \<Rightarrow> (o1, Err (not_of_type ''signatures'' JTObject))
         | None \<Rightarrow> continue [])"

text \<open>\<open>hash_and_sign_event\<close>.  The \<open>unwrap\<close> of \<open>redacted.get_mut("signatures")\<close> is the \<open>Panic\<close>.\<close>

definition hash_and_sign_event ::
    "codecs \<Rightarrow> string \<Rightarrow> (bytes \<Rightarrow> signature) \<Rightarrow> cobject \<Rightarrow> room_version_id
      \<Rightarrow> cobject \<times> (unit, sig_error) result" where
  "hash_and_sign_event C entity_id sign object version =
     (case content_hash C object of
        Err e \<Rightarrow> (object, Err e)
      | Panic \<Rightarrow> (object, Panic)
      | Ok hash \<Rightarrow>
          (case (case bt_get object ''hashes'' of Some v \<Rightarrow> v | None \<Rightarrow> Object []) of
             Object hashes \<Rightarrow>
               (let o1 = bt_insert ''hashes'' (Object (bt_insert ''sha256'' (String hash) hashes)) object
                in case redact o1 version of
                     Err e \<Rightarrow> (o1, Err e)
                   | Panic \<Rightarrow> (o1, Panic)
                   | Ok redacted \<Rightarrow>
                       (case sign_json C entity_id sign redacted of
                          (redacted', Ok _) \<Rightarrow>
                            (case bt_get redacted' ''signatures'' of
                               Some v \<Rightarrow> (bt_insert ''signatures'' v o1, Ok ())
                             | None \<Rightarrow> (o1, Panic))
                        | (_, Err e) \<Rightarrow> (o1, Err e)
                        | (_, Panic) \<Rightarrow> (o1, Panic)))
           | _ \<Rightarrow> (object, Err (not_of_type ''hashes'' JTObject))))"

section \<open>Verification\<close>

definition verify_json_with ::
    "codecs \<Rightarrow> ed25519 \<Rightarrow> bytes \<Rightarrow> bytes \<Rightarrow> cobject \<Rightarrow> (unit, sig_error) result" where
  "verify_json_with C E public_key sigb object =
     and_then (canonical_json C object) (\<lambda>json. ed25519_verify E public_key sigb json)"

text \<open>The closure \<open>verify\<close> of \<open>verify_json\<close> and \<open>verify_event\<close>.\<close>

definition verify_signature ::
    "codecs \<Rightarrow> ed25519 \<Rightarrow> string \<Rightarrow> string \<Rightarrow> cobject \<Rightarrow> (unit, sig_error) result" where
  "verify_signature C E public_key sigs object =
     and_then (ok_or (EParse (Base64 ''signature'' sigs)) (decode_config C sigs STANDARD_NO_PAD)) (\<lambda>sb.
     and_then (ok_or (EParse (Base64 ''public key'' public_key))
                 (decode_config C public_key STANDARD_NO_PAD)) (\<lambda>pb.
     verify_json_with C E pb sb object))"

fun verify_entity ::
    "codecs \<Rightarrow> ed25519 \<Rightarrow> string \<Rightarrow> public_key_set \<Rightarrow> cobject \<Rightarrow> (string \<times> cjson) list
      \<Rightarrow> (unit, sig_error) result" where
  "verify_entity C E entity_id public_keys object [] = Ok ()"
| "verify_entity C E entity_id public_keys object ((key_id, v) # rest) =
     (case v of
        String sigs \<Rightarrow>
          and_then (ok_or (key_missing (''public_keys of '' @ entity_id) ''signature'' key_id)
                      (bt_get public_keys key_id)) (\<lambda>public_key.
          and_then (verify_signature C E public_key sigs object) (\<lambda>_.
          verify_entity C E entity_id public_keys object rest))
      | _ \<Rightarrow> Err (not_of_type ''signature'' JTString))"

fun verify_signature_map ::
    "codecs \<Rightarrow> ed25519 \<Rightarrow> public_key_map \<Rightarrow> cobject \<Rightarrow> (string \<times> cjson) list
      \<Rightarrow> (unit, sig_error) result" where
  "verify_signature_map C E pkm object [] = Ok ()"
| "verify_signature_map C E pkm object ((entity_id, v) # rest) =
     (case v of
        Object signature_set \<Rightarrow>
          and_then (ok_or (key_missing ''public_key_map'' ''public_keys'' entity_id)
                      (bt_get pkm entity_id)) (\<lambda>public_keys.
          and_then (verify_entity C E entity_id public_keys object signature_set) (\<lambda>_.
          verify_signature_map C E pkm object rest))
      | _ \<Rightarrow> Err (not_multiples_of_type ''signature sets'' JTObject))"

definition verify_json ::
    "codecs \<Rightarrow> ed25519 \<Rightarrow> public_key_map \<Rightarrow> cobject \<Rightarrow> (unit, sig_error) result" where
  "verify_json C E pkm object =
     (case bt_get object ''signatures'' of
        Some (Object signature_map) \<Rightarrow> verify_signature_map C E pkm object signature_map
      | Some _ \<Rightarrow> Err (not_of_type ''signatures'' JTObject)
      | None \<Rightarrow> Err (field_missing_from_object ''signatures''))"

definition is_third_party_invite :: "cobject \<Rightarrow> (bool, sig_error) result" where
  "is_third_party_invite object =
     (case bt_get object ''type'' of
        Some (String raw_type) \<Rightarrow> Ok (raw_type = ''m.room.third_party_invite'')
      | _ \<Rightarrow> Err (not_of_type ''type'' JTString))"

text \<open>A \<^verbatim>\<open>BTreeSet\<close> is the sorted list of its elements.\<close>

definition servers_to_check_signatures ::
    "cobject \<Rightarrow> room_version_id \<Rightarrow> (string list, sig_error) result" where
  "servers_to_check_signatures object version =
     and_then (is_third_party_invite object) (\<lambda>tpi.
     and_then
       (if tpi then Ok []
        else (case bt_get object ''sender'' of
                Some (String raw_sender) \<Rightarrow>
                  and_then (map_err (\<lambda>e. EParse (PUserId e)) (parse_validated user_id_validate raw_sender))
                    (\<lambda>user_id.
                  and_then (map_err (\<lambda>e. EParse (PUserId e)) (user_id_server_name user_id)) (\<lambda>sv.
                  Ok (insort_insert sv [])))
              | _ \<Rightarrow> Err (not_of_type ''sender'' JTString))) (\<lambda>servers.
     if version \<in> {V1, V2} then
       (case bt_get object ''event_id'' of
          Some (String raw_event_id) \<Rightarrow>
            and_then (map_err (\<lambda>e. EParse (PEventId e)) (parse_validated event_id_validate raw_event_id))
              (\<lambda>event_id.
            and_then (map_err (\<lambda>e. EParse (PEventId e)) (event_id_server_name event_id)) (\<lambda>sv_opt.
            case sv_opt of
              None \<Rightarrow> Err (EParse (ServerNameFromEventIdByRoomVersion event_id version))
            | Some sv \<Rightarrow> Ok (insort_insert sv servers)))
        | _ \<Rightarrow> Err (field_missing_from_object ''event_id''))
     else Ok servers))"

text \<open>The inner loop of \<open>verify_event\<close>: the first known key that signed; a key id that does not
  split ends the search.\<close>

fun find_signature ::
    "(string \<times> cjson) list \<Rightarrow> (string \<times> string) list \<Rightarrow> (cjson \<times> string) option" where
  "find_signature signature_set [] = None"
| "find_signature signature_set ((key_id, public_key) # rest) =
     (if is_err (split_id key_id) then None
      else case bt_get signature_set key_id of
             Some sigv \<Rightarrow> Some (sigv, public_key)
           | None \<Rightarrow> find_signature signature_set rest)"

fun verify_servers ::
    "codecs \<Rightarrow> ed25519 \<Rightarrow> public_key_map \<Rightarrow> cobject \<Rightarrow> cobject \<Rightarrow> string list
      \<Rightarrow> (unit, sig_error) result" where
  "verify_servers C E pkm signature_map canonical [] = Ok ()"
| "verify_servers C E pkm signature_map canonical (entity_id # rest) =
     (case bt_get signature_map entity_id of
        Some (Object signature_set) \<Rightarrow>
          and_then (ok_or (EVerification (PublicKeyNotFound entity_id)) (bt_get pkm entity_id))
            (\<lambda>public_keys.
              case find_signature signature_set public_keys of
                None \<Rightarrow> Err (EVerification UnknownPublicKeysForSignature)
              | Some (String sigs, public_key) \<Rightarrow>
                  and_then (verify_signature C E public_key sigs canonical) (\<lambda>_.
                  verify_servers C E pkm signature_map canonical rest)
              | Some _ \<Rightarrow> Err (not_of_type ''signature'' JTString))
      | Some _ \<Rightarrow> Err (not_multiples_of_type ''signature sets'' JTObject)
      | None \<Rightarrow> Err (EVerification (SignatureNotFound entity_id)))"

datatype verified = VAll | VSignatures

definition event_hash :: "cobject \<Rightarrow> (string, sig_error) result" where
  "event_hash object =
     (case bt_get object ''hashes'' of
        Some (Object hashes) \<Rightarrow>
          (case bt_get hashes ''sha256'' of
             Some (String hash) \<Rightarrow> Ok hash
           | Some _ \<Rightarrow> Err (not_of_type ''sha256 hash'' JTString)
           | None \<Rightarrow> Err (not_of_type ''hashes'' JTObject))
      | Some _ \<Rightarrow> Err (field_missing_from_object ''sha256'')
      | None \<Rightarrow> Err (field_missing_from_object ''hashes''))"

definition event_signature_map :: "cobject \<Rightarrow> (cobject, sig_error) result" where
  "event_signature_map object =
     (case bt_get object ''signatures'' of
        Some (Object signatures) \<Rightarrow> Ok signatures
      | Some _ \<Rightarrow> Err (not_of_type ''signatures'' JTObject)
      | None \<Rightarrow> Err (field_missing_from_object ''signatures''))"

definition verify_event ::
    "codecs \<Rightarrow> ed25519 \<Rightarrow> public_key_map \<Rightarrow> cobject \<Rightarrow> room_version_id
      \<Rightarrow> (verified, sig_error) result" where
  "verify_event C E pkm object version =
     and_then (redact object version) (\<lambda>redacted.
     and_then (event_hash object) (\<lambda>hash.
     and_then (event_signature_map object) (\<lambda>signature_map.
     and_then (servers_to_check_signatures object version) (\<lambda>servers.
     and_then (canonical_json C redacted) (\<lambda>json.
     and_then (ok_or (EJson Serde) (from_json_str C json)) (\<lambda>canonical.
     and_then (verify_servers C E pkm signature_map canonical servers) (\<lambda>_.
     and_then (content_hash C object) (\<lambda>calculated_hash.
     Ok (if hash = calculated_hash then VAll else VSignatures)))))))))"

section \<open>Lemmas on redaction\<close>

lemma bt_ok_fold_remove [simp]: "bt_ok m \<Longrightarrow> bt_ok (fold bt_remove ks m)"
  by (induction ks arbitrary: m) auto

lemma bt_get_fold_remove [simp]:
  "bt_get (fold bt_remove ks m) k = (if k \<in> set ks then None else bt_get m k)"
  by (induction ks arbitrary: m) auto

lemma bt_ok_move_keys [simp]: "bt_ok new \<Longrightarrow> bt_ok (move_keys ks old new)"
  by (induction ks arbitrary: old new) (auto split: option.splits)

lemma bt_get_move_keys [simp]:
  "bt_get (move_keys ks old new) k =
     (if k \<in> set ks \<and> bt_get old k \<noteq> None then bt_get old k else bt_get new k)"
  by (induction ks arbitrary: old new) (auto split: option.splits)

text \<open>The content an event keeps, and the object \<open>redact\<close> returns, by lookups.\<close>

definition redacted_content :: "string \<Rightarrow> room_version_id \<Rightarrow> cobject \<Rightarrow> cobject" where
  "redacted_content event_type version content =
     move_keys (allowed_content_keys_for event_type version) content []"

lemma redact_cases:
  assumes "redact object version = Ok r"
  obtains (plain) ty where "bt_get object ''type'' = Some (String ty)" "bt_get object ''content'' = None"
      "r = move_keys ALLOWED_KEYS object []"
    | (content) ty c where "bt_get object ''type'' = Some (String ty)"
      "bt_get object ''content'' = Some (Object c)"
      "r = move_keys ALLOWED_KEYS (bt_insert ''content'' (Object (redacted_content ty version c)) object) []"
proof (cases "bt_get object ''type''")
  case (Some t)
  then obtain ty where t: "t = String ty" using assms by (cases t) (auto simp: redact_def)
  show ?thesis
  proof (cases "bt_get object ''content''")
    case None
    then show ?thesis using assms plain Some t by (simp add: redact_def)
  next
    case (Some v)
    then obtain c where "v = Object c"
      using assms \<open>bt_get object ''type'' = Some t\<close> t by (cases v) (auto simp: redact_def)
    then show ?thesis using assms content Some \<open>bt_get object ''type'' = Some t\<close> t
      by (simp add: redact_def redacted_content_def)
  qed
qed (use assms in \<open>simp add: redact_def\<close>)

lemma redact_plainI:
  "bt_get object ''type'' = Some (String ty) \<Longrightarrow> bt_get object ''content'' = None \<Longrightarrow>
     redact object version = Ok (move_keys ALLOWED_KEYS object [])"
  by (simp add: redact_def)

lemma redact_contentI:
  "bt_get object ''type'' = Some (String ty) \<Longrightarrow> bt_get object ''content'' = Some (Object c) \<Longrightarrow>
     redact object version = Ok (move_keys ALLOWED_KEYS
       (bt_insert ''content'' (Object (redacted_content ty version c)) object) [])"
  by (simp add: redact_def redacted_content_def)

lemma ALLOWED_KEYS_mem [simp]:
  "''type'' \<in> set ALLOWED_KEYS" "''content'' \<in> set ALLOWED_KEYS"
  "''signatures'' \<in> set ALLOWED_KEYS" "''hashes'' \<in> set ALLOWED_KEYS"
  "''sender'' \<in> set ALLOWED_KEYS" "''event_id'' \<in> set ALLOWED_KEYS"
  "''unsigned'' \<notin> set ALLOWED_KEYS" "''age_ts'' \<notin> set ALLOWED_KEYS"
  by (simp_all add: ALLOWED_KEYS_def)

lemma redact_ok: "redact object version = Ok r \<Longrightarrow> bt_ok r"
  by (erule redact_cases) simp_all

lemma redact_get_other:
  "redact object version = Ok r \<Longrightarrow> k \<noteq> ''content'' \<Longrightarrow>
     bt_get r k = (if k \<in> set ALLOWED_KEYS then bt_get object k else None)"
  by (erule redact_cases) simp_all

lemma redact_get_content:
  assumes "redact object version = Ok r" "bt_get object ''type'' = Some (String ty)"
  shows "bt_get r ''content'' =
    (case bt_get object ''content'' of Some (Object c) \<Rightarrow> Some (Object (redacted_content ty version c))
     | _ \<Rightarrow> None)"
  using assms(1) by (rule redact_cases) (use assms(2) in simp_all)

lemma redacted_content_get [simp]:
  "bt_get (redacted_content ty version c) k =
     (if k \<in> set (allowed_content_keys_for ty version) then bt_get c k else None)"
  by (auto simp: redacted_content_def)

lemma redacted_content_ok [simp]: "bt_ok (redacted_content ty version c)"
  by (simp add: redacted_content_def)

lemma redacted_content_idem [simp]:
  "redacted_content ty version (redacted_content ty version c) = redacted_content ty version c"
  by (rule bt_ext) auto

lemma redact_cong:
  assumes "\<And>k. k \<in> set ALLOWED_KEYS \<Longrightarrow> bt_get a k = bt_get b k"
  shows "redact a version = redact b version"
proof -
  have *: "move_keys ALLOWED_KEYS a [] = move_keys ALLOWED_KEYS b []"
    by (rule bt_ext) (auto simp: assms)
  have **: "move_keys ALLOWED_KEYS (bt_insert ''content'' c a) [] =
      move_keys ALLOWED_KEYS (bt_insert ''content'' c b) []" for c
    by (rule bt_ext) (auto simp: assms)
  show ?thesis unfolding redact_def using * ** assms[of "''type''"] assms[of "''content''"]
    by (simp only: ALLOWED_KEYS_mem)
qed

lemma redact_idem:
  assumes "redact object version = Ok r"
  shows "redact r version = Ok r"
proof -
  note get = redact_get_other[OF assms]
  have ok: "bt_ok r" using assms by (rule redact_ok)
  have same: "move_keys ALLOWED_KEYS r [] = r"
  proof (rule bt_ext)
    fix k show "bt_get (move_keys ALLOWED_KEYS r []) k = bt_get r k"
      using get[of k] by (cases "k = ''content''") auto
  qed (simp_all add: ok)
  from assms show ?thesis
  proof (cases rule: redact_cases)
    case (plain ty)
    then have "bt_get r ''content'' = None" by simp
    then show ?thesis using plain same get by (simp add: redact_plainI)
  next
    case (content ty c)
    then have c: "bt_get r ''content'' = Some (Object (redacted_content ty version c))" by simp
    then have "bt_insert ''content'' (Object (redacted_content ty version c)) r = r"
      using ok by (simp add: map_simps)
    then show ?thesis using content(1) same c get by (simp add: redact_contentI)
  qed
qed

section \<open>Lemmas on signing\<close>

text \<open>What is signed: the object without its signatures and unsigned data.\<close>

definition signable :: "cobject \<Rightarrow> cobject" where
  "signable object = bt_remove ''unsigned'' (bt_remove ''signatures'' object)"

definition signature_of :: "cobject \<Rightarrow> string \<Rightarrow> string \<Rightarrow> cjson option" where
  "signature_of object entity_id key_id =
     (case bt_get object ''signatures'' of
        Some (Object m) \<Rightarrow>
          (case bt_get m entity_id of Some (Object s) \<Rightarrow> bt_get s key_id | _ \<Rightarrow> None)
      | _ \<Rightarrow> None)"

lemma canonical_json_signable: "canonical_json C object = ok_or (EJson Serde) (to_json_string C (signable object))"
  by (simp add: canonical_json_def canonical_json_with_fields_to_remove_def signable_def
      CANONICAL_JSON_FIELDS_TO_REMOVE_def)

lemma bt_ok_signable [simp]: "bt_ok object \<Longrightarrow> bt_ok (signable object)"
  by (simp add: signable_def)

lemma signable_get [simp]:
  "bt_get (signable object) k = (if k \<in> {''signatures'', ''unsigned''} then None else bt_get object k)"
  by (simp add: signable_def)

lemma signable_insert_signatures [simp]:
  "bt_ok object \<Longrightarrow> signable (bt_insert ''signatures'' v object) = signable object"
  by (rule bt_ext) auto

lemma signable_signable [simp]: "bt_ok object \<Longrightarrow> signable (signable object) = signable object"
  by (rule bt_ext) auto

text \<open>\<open>sign_json\<close> as one insertion.\<close>

lemma sign_json_insert:
  assumes "bt_ok object"
  shows "sign_json C e sign object =
    (case (case bt_get object ''signatures'' of None \<Rightarrow> Object [] | Some v \<Rightarrow> v) of
       Object sigs \<Rightarrow>
         (case to_json_string C (signable object) of
            None \<Rightarrow> (signable object, Err (EJson Serde))
          | Some json \<Rightarrow>
              (case (case bt_get sigs e of Some v \<Rightarrow> v | None \<Rightarrow> Object []) of
                 Object es \<Rightarrow>
                   (bt_insert ''signatures'' (Object (bt_insert e (Object
                      (bt_insert (signature_id (sign json)) (String (signature_base64 C (sign json))) es))
                      sigs)) object, Ok ())
               | _ \<Rightarrow> (signable object, Err (not_multiples_of_type ''signatures'' JTObject))))
     | _ \<Rightarrow> (bt_remove ''signatures'' object, Err (not_of_type ''signatures'' JTObject)))"
proof -
  have *: "(case bt_get (bt_remove ''signatures'' object) ''unsigned'' of
      None \<Rightarrow> bt_insert ''signatures'' v (signable object)
    | Some u \<Rightarrow> bt_insert ''unsigned'' u (bt_insert ''signatures'' v (signable object)))
    = bt_insert ''signatures'' v object" for v
    by (rule bt_ext) (use assms in \<open>auto split: option.splits\<close>)
  have fold: "bt_remove ''unsigned'' (bt_remove ''signatures'' object) = signable object"
    by (simp add: signable_def)
  show ?thesis unfolding sign_json_def Let_def fold *
    by (simp split: option.split cjson.split)
qed

lemma sign_json_OkE:
  assumes "bt_ok object" "sign_json C e sign object = (object', Ok ())"
  obtains sigs es json where
    "bt_get object ''signatures'' = Some (Object sigs) \<or> (bt_get object ''signatures'' = None \<and> sigs = [])"
    "bt_get sigs e = Some (Object es) \<or> (bt_get sigs e = None \<and> es = [])"
    "to_json_string C (signable object) = Some json"
    "object' = bt_insert ''signatures'' (Object (bt_insert e (Object
       (bt_insert (signature_id (sign json)) (String (signature_base64 C (sign json))) es)) sigs)) object"
  using assms
  by (auto simp: sign_json_insert split: option.splits cjson.splits)

text \<open>Verification reads the object only through its canonical form.\<close>

lemma canonical_json_cong: "signable a = signable b \<Longrightarrow> canonical_json C a = canonical_json C b"
  by (simp add: canonical_json_signable)

lemma verify_signature_cong:
  "signable a = signable b \<Longrightarrow> verify_signature C E pk s a = verify_signature C E pk s b"
  by (simp add: verify_signature_def verify_json_with_def canonical_json_cong[of a b])

definition entity_verifies ::
    "codecs \<Rightarrow> ed25519 \<Rightarrow> public_key_map \<Rightarrow> cobject \<Rightarrow> string \<times> cjson \<Rightarrow> bool" where
  "entity_verifies C E pkm object ev \<longleftrightarrow>
     (\<exists>es keys. snd ev = Object es \<and> bt_get pkm (fst ev) = Some keys \<and>
        (\<forall>kv\<in>set es. \<exists>s pk. snd kv = String s \<and> bt_get keys (fst kv) = Some pk \<and>
           verify_signature C E pk s object = Ok ()))"

lemma verify_entity_ok:
  "verify_entity C E e keys object es = Ok () \<longleftrightarrow>
     (\<forall>kv\<in>set es. \<exists>s pk. snd kv = String s \<and> bt_get keys (fst kv) = Some pk \<and>
        verify_signature C E pk s object = Ok ())"
proof (induction es)
  case (Cons kv es)
  obtain k v where kv: "kv = (k, v)" by (cases kv)
  show ?case
  proof (cases v)
    case (String s)
    then show ?thesis using Cons by (auto simp: kv res_simps)
  qed (simp_all add: kv)
qed simp

lemma verify_signature_map_ok:
  "verify_signature_map C E pkm object m = Ok () \<longleftrightarrow> (\<forall>ev\<in>set m. entity_verifies C E pkm object ev)"
proof (induction m)
  case (Cons ev m)
  obtain e v where ev: "ev = (e, v)" by (cases ev)
  show ?case
  proof (cases v)
    case (Object s)
    then show ?thesis using Cons
      by (auto simp: ev res_simps verify_entity_ok entity_verifies_def)
  qed (simp_all add: ev entity_verifies_def)
qed simp

lemma verify_json_ok:
  "verify_json C E pkm object = Ok () \<longleftrightarrow>
     (\<exists>m. bt_get object ''signatures'' = Some (Object m) \<and> (\<forall>ev\<in>set m. entity_verifies C E pkm object ev))"
  by (auto simp: verify_json_def verify_signature_map_ok split: option.splits cjson.splits)

lemma entity_verifies_cong:
  "signable a = signable b \<Longrightarrow> entity_verifies C E pkm a ev = entity_verifies C E pkm b ev"
  by (simp add: entity_verifies_def verify_signature_cong[of a b])

lemma key_pair_sign_id: "signature_id (key_pair_sign E kp m) = ''ed25519:'' @ kp_version kp"
  by (simp add: signature_id_def key_pair_sign_def)

text \<open>What is relied on of the crates: base64 decodes what it encoded, and the public key of the
  pair accepts the pair's signatures.\<close>

definition codecs_ok :: "codecs \<Rightarrow> bool" where
  "codecs_ok C \<longleftrightarrow> (\<forall>b cfg. decode_config C (encode_config C b cfg) cfg = Some b)"

definition key_verifies :: "ed25519 \<Rightarrow> key_pair \<Rightarrow> bool" where
  "key_verifies E kp \<longleftrightarrow> public_from_bytes E (pubkey kp) = Some (pubkey kp) \<and>
     (\<forall>m. \<exists>sg. signature_from_bytes E (expanded_sign E (extended_privkey kp) m (pubkey kp)) = Some sg \<and>
        public_verify E (pubkey kp) m sg)"

lemma verify_own_signature:
  assumes "codecs_ok C" "key_verifies E kp" "to_json_string C (signable object) = Some json"
  shows "verify_signature C E (encode_config C (pubkey kp) STANDARD_NO_PAD)
    (signature_base64 C (key_pair_sign E kp json)) object = Ok ()"
proof -
  obtain sg where "signature_from_bytes E (expanded_sign E (extended_privkey kp) json (pubkey kp)) = Some sg"
    "public_verify E (pubkey kp) json sg" "public_from_bytes E (pubkey kp) = Some (pubkey kp)"
    using assms(2) by (auto simp: key_verifies_def)
  then show ?thesis using assms(1,3)
    by (simp add: verify_signature_def signature_base64_def key_pair_sign_def codecs_ok_def
        verify_json_with_def canonical_json_signable ed25519_verify_def)
qed

section \<open>Lemmas on events\<close>

lemma content_hash_cong:
  assumes "\<And>k. k \<notin> {''hashes'', ''signatures'', ''unsigned''} \<Longrightarrow> bt_get a k = bt_get b k" "bt_ok a" "bt_ok b"
  shows "content_hash C a = content_hash C b"
proof -
  have "fold bt_remove CONTENT_HASH_FIELDS_TO_REMOVE a = fold bt_remove CONTENT_HASH_FIELDS_TO_REMOVE b"
    by (rule bt_ext) (use assms in \<open>auto simp: CONTENT_HASH_FIELDS_TO_REMOVE_def\<close>)
  then show ?thesis by (simp add: content_hash_def canonical_json_with_fields_to_remove_def)
qed

lemma servers_to_check_cong:
  assumes "\<And>k. k \<in> {''type'', ''sender'', ''event_id''} \<Longrightarrow> bt_get a k = bt_get b k"
  shows "servers_to_check_signatures a v = servers_to_check_signatures b v"
proof -
  have e: "bt_get a ''type'' = bt_get b ''type''" "bt_get a ''sender'' = bt_get b ''sender''"
    "bt_get a ''event_id'' = bt_get b ''event_id''" by (simp_all add: assms)
  show ?thesis unfolding servers_to_check_signatures_def is_third_party_invite_def e ..
qed

lemma redact_insert_signatures:
  assumes "redact object v = Ok r"
  shows "redact (bt_insert ''signatures'' s object) v = Ok (bt_insert ''signatures'' s r)"
proof -
  have ne: "''signatures'' \<noteq> ''content''" "''signatures'' \<noteq> ''type''" by simp_all
  have ok: "bt_ok r" using assms by (rule redact_ok)
  from assms show ?thesis
  proof (cases rule: redact_cases)
    case (plain ty)
    have "redact (bt_insert ''signatures'' s object) v =
        Ok (move_keys ALLOWED_KEYS (bt_insert ''signatures'' s object) [])"
      using plain by (intro redact_plainI) simp_all
    also have "move_keys ALLOWED_KEYS (bt_insert ''signatures'' s object) [] = bt_insert ''signatures'' s r"
      by (rule bt_ext) (use ok plain in auto)
    finally show ?thesis .
  next
    case (content ty c)
    let ?c = "Object (redacted_content ty v c)"
    have "redact (bt_insert ''signatures'' s object) v =
        Ok (move_keys ALLOWED_KEYS (bt_insert ''content'' ?c (bt_insert ''signatures'' s object)) [])"
      using content by (intro redact_contentI) simp_all
    also have "move_keys ALLOWED_KEYS (bt_insert ''content'' ?c (bt_insert ''signatures'' s object)) [] =
        bt_insert ''signatures'' s r"
      by (rule bt_ext) (use ok content in auto)
    finally show ?thesis .
  qed
qed

lemma hash_and_sign_OkE:
  assumes "hash_and_sign_event C e sign object v = (object', Ok ())"
  obtains hash hashes o1 redacted redacted' sv where
    "content_hash C object = Ok hash"
    "o1 = bt_insert ''hashes'' (Object (bt_insert ''sha256'' (String hash) hashes)) object"
    "redact o1 v = Ok redacted" "sign_json C e sign redacted = (redacted', Ok ())"
    "bt_get redacted' ''signatures'' = Some sv" "object' = bt_insert ''signatures'' sv o1"
proof -
  obtain hash where h: "content_hash C object = Ok hash"
    using assms by (auto simp: hash_and_sign_event_def split: result.splits)
  let ?hv = "case bt_get object ''hashes'' of Some v \<Rightarrow> v | None \<Rightarrow> Object []"
  obtain hashes where hs: "?hv = Object hashes"
    using assms h by (cases ?hv) (auto simp: hash_and_sign_event_def)
  let ?o1 = "bt_insert ''hashes'' (Object (bt_insert ''sha256'' (String hash) hashes)) object"
  obtain redacted where r: "redact ?o1 v = Ok redacted"
    using assms h hs by (cases "redact ?o1 v") (auto simp: hash_and_sign_event_def Let_def)
  obtain redacted' res where s: "sign_json C e sign redacted = (redacted', res)"
    by (cases "sign_json C e sign redacted")
  have "res = Ok ()"
    using assms h hs r s by (cases res) (auto simp: hash_and_sign_event_def Let_def)
  moreover obtain sv where "bt_get redacted' ''signatures'' = Some sv"
    using assms h hs r s calculation
    by (cases "bt_get redacted' ''signatures''") (auto simp: hash_and_sign_event_def Let_def)
  moreover have "object' = bt_insert ''signatures'' sv ?o1"
    using assms h hs r s calculation by (simp add: hash_and_sign_event_def Let_def)
  ultimately show ?thesis using that h r s by blast
qed

lemma verify_servers_ok:
  "verify_servers C E pkm m canonical servers = Ok () \<longleftrightarrow>
     (\<forall>e\<in>set servers. \<exists>es keys s pk. bt_get m e = Some (Object es) \<and> bt_get pkm e = Some keys \<and>
        find_signature es keys = Some (String s, pk) \<and> verify_signature C E pk s canonical = Ok ())"
proof (induction servers)
  case (Cons e servers)
  show ?case
  proof (cases "bt_get m e")
    case (Some v)
    show ?thesis
    proof (cases v)
      case (Object es)
      show ?thesis
      proof (cases "bt_get pkm e")
        case (Some keys)
        note known = Cons \<open>bt_get m e = Some v\<close> Object Some
        show ?thesis
        proof (cases "find_signature es keys")
          case None
          then show ?thesis using known by simp
        next
          case (Some vp)
          obtain w pk where vp: "vp = (w, pk)" by (cases vp)
          show ?thesis using known Some vp by (cases w) (auto simp: res_simps)
        qed
      qed (use \<open>bt_get m e = Some v\<close> Object in simp)
    qed (use \<open>bt_get m e = Some v\<close> in simp_all)
  qed simp
qed simp

lemma find_signature_Some:
  "find_signature es keys = Some (v, pk) \<Longrightarrow>
     \<exists>k. (k, pk) \<in> set keys \<and> bt_get es k = Some v \<and> is_ok (split_id k)"
proof (induction keys)
  case (Cons kp keys)
  obtain k p where kp: "kp = (k, p)" by (cases kp)
  have np: "split_id k \<noteq> Panic" by (simp add: split_id_def Let_def)
  show ?case
  proof (cases "bt_get es k")
    case None
    then show ?thesis using Cons kp by (auto split: if_splits)
  next
    case (Some w)
    then show ?thesis using Cons.prems kp np by (cases "split_id k") (auto split: if_splits)
  qed
qed simp

definition version_ok :: "string \<Rightarrow> bool" where
  "version_ok v \<longleftrightarrow> list_all (\<lambda>ch. is_ascii_alnum ch \<or> ch = CHR ''_'') v"

lemma version_ok_no_colon: "version_ok v \<Longrightarrow> CHR '':'' \<notin> set v"
  by (auto simp: version_ok_def list_all_iff is_ascii_alnum_def is_digit_def is_lower_def is_upper_def)

lemma split_id_ed25519: "version_ok v \<Longrightarrow> split_id (''ed25519:'' @ v) = Ok (Ed25519, v)"
  using str_split_append[of "CHR '':''" "''ed25519''" v] version_ok_no_colon[of v]
  by (simp add: split_id_def str_split_none version_ok_def)

lemma str_split_two:
  "str_split c s = [a, b] \<Longrightarrow> s = a @ c # b \<and> c \<notin> set a \<and> c \<notin> set b"
proof (induction s arbitrary: a)
  case (Cons x s)
  show ?case
  proof (cases "x = c")
    case True
    then have "str_split c s = [b]" "a = []" using Cons.prems by auto
    moreover have "str_split c s = [b] \<Longrightarrow> s = b \<and> c \<notin> set b" for b
      by (induction s arbitrary: b) (auto split: if_splits list.splits)
    ultimately show ?thesis using True by auto
  next
    case False
    then obtain a' where "str_split c s = [a', b]" "a = x # a'"
      using Cons.prems by (auto split: list.splits)
    then show ?thesis using Cons.IH False by auto
  qed
qed simp

lemma split_id_Ok:
  "split_id s = Ok (alg, v) \<longleftrightarrow> alg = Ed25519 \<and> s = ''ed25519:'' @ v \<and> version_ok v"
proof
  assume *: "split_id s = Ok (alg, v)"
  then have two: "length (str_split (CHR '':'') s) = 2" by (auto simp: split_id_def Let_def split: if_splits)
  then obtain a b where ab: "str_split (CHR '':'') s = [a, b]"
    by (metis One_nat_def Suc_1 length_0_conv length_Suc_conv)
  with * have "a = ''ed25519''" "b = v" "alg = Ed25519" "version_ok v"
    by (auto simp: split_id_def Let_def version_ok_def split: if_splits)
  then show "alg = Ed25519 \<and> s = ''ed25519:'' @ v \<and> version_ok v"
    using str_split_two[OF ab] by simp
qed (use split_id_ed25519 in auto)

lemma verify_own_event:
  assumes "bt_ok object" "hash_and_sign_event C entity (key_pair_sign E kp) object version = (object', Ok ())"
    and "servers_to_check_signatures object version = Ok [entity]"
    and "bt_get pkm entity =
      Some [(''ed25519:'' @ kp_version kp, encode_config C (pubkey kp) STANDARD_NO_PAD)]"
    and "version_ok (kp_version kp)" "codecs_ok C" "key_verifies E kp"
    and parse: "\<And>r json. redact object' version = Ok r \<Longrightarrow> to_json_string C (signable r) = Some json \<Longrightarrow>
      from_json_str C json = Some (signable r)"
  shows "verify_event C E pkm object' version = Ok VAll"
  using assms(2)
proof (rule hash_and_sign_OkE)
  fix hash hashes o1 redacted redacted' sv
  assume h: "content_hash C object = Ok hash"
    and o1: "o1 = bt_insert ''hashes'' (Object (bt_insert ''sha256'' (String hash) hashes)) object"
    and r: "redact o1 version = Ok redacted"
    and sign: "sign_json C entity (key_pair_sign E kp) redacted = (redacted', Ok ())"
    and sv: "bt_get redacted' ''signatures'' = Some sv"
    and o': "object' = bt_insert ''signatures'' sv o1"
  have okr: "bt_ok redacted" using r by (rule redact_ok)
  obtain sigs es json where json: "to_json_string C (signable redacted) = Some json"
    and red: "redacted' = bt_insert ''signatures'' (Object (bt_insert entity (Object
       (bt_insert (signature_id (key_pair_sign E kp json))
         (String (signature_base64 C (key_pair_sign E kp json))) es)) sigs)) redacted"
    by (rule sign_json_OkE[OF okr sign]) (rule that; assumption)
  have sigs: "sv = Object (bt_insert entity (Object
       (bt_insert (''ed25519:'' @ kp_version kp) (String (signature_base64 C (key_pair_sign E kp json))) es)) sigs)"
    using sv by (simp add: red key_pair_sign_id)
  have red': "redact object' version = Ok (bt_insert ''signatures'' sv redacted)"
    unfolding o' using r by (rule redact_insert_signatures)
  have sg: "signable (bt_insert ''signatures'' sv redacted) = signable redacted" using okr by simp
  have cj: "canonical_json C (bt_insert ''signatures'' sv redacted) = Ok json"
    using json by (simp add: canonical_json_signable sg)
  have pj: "from_json_str C json = Some (signable redacted)" using parse[OF red'] json sg by simp
  have ch: "content_hash C object' = Ok hash"
    using h content_hash_cong[of object' object C] assms(1) by (simp add: o' o1)
  have eh: "event_hash object' = Ok hash" by (simp add: event_hash_def o' o1)
  have sm: "event_signature_map object' = Ok (bt_insert entity (Object
       (bt_insert (''ed25519:'' @ kp_version kp) (String (signature_base64 C (key_pair_sign E kp json))) es)) sigs)"
    by (simp add: event_signature_map_def o' sigs)
  have servers: "servers_to_check_signatures object' version = Ok [entity]"
    unfolding assms(3)[symmetric] by (rule servers_to_check_cong) (auto simp: o' o1)
  have own: "verify_signature C E (encode_config C (pubkey kp) STANDARD_NO_PAD)
      (signature_base64 C (key_pair_sign E kp json)) (signable redacted) = Ok ()"
    using assms(6,7) by (rule verify_own_signature) (simp add: json okr)
  show ?thesis
    using assms(4) split_id_ed25519[OF assms(5)] own
    by (simp add: verify_event_def red' eh sm servers cj pj ch verify_servers.simps)
qed

section \<open>Properties\<close>

text \<open>Redaction keeps exactly what the specification allows: a field of the result is the
  field of the event if its name is an allowed key and absent otherwise; the content keeps exactly
  the keys its event type allows in the room version.\<close>

lemma redact_fields:
  assumes "redact object version = Ok r" "bt_get object ''type'' = Some (String ty)"
  shows "bt_ok r \<and>
    (\<forall>k. k \<noteq> ''content'' \<longrightarrow> bt_get r k = (if k \<in> set ALLOWED_KEYS then bt_get object k else None)) \<and>
    (case bt_get object ''content'' of
       None \<Rightarrow> bt_get r ''content'' = None
     | Some (Object c) \<Rightarrow> (\<exists>c'. bt_get r ''content'' = Some (Object c') \<and> bt_ok c' \<and>
         (\<forall>k. bt_get c' k = (if k \<in> set (allowed_content_keys_for ty version) then bt_get c k else None)))
     | Some _ \<Rightarrow> False)"
  using assms(1)
proof (cases rule: redact_cases)
  case (plain ty')
  then show ?thesis using assms redact_ok redact_get_other by auto
next
  case (content ty' c)
  then show ?thesis using assms redact_ok redact_get_other by auto
qed

definition member_event :: cobject where
  "member_event = [(''content'', Object [(''displayname'', String ''A''), (''membership'', String ''join'')]),
     (''sender'', String ''@a:b''), (''type'', String ''m.room.member''), (''unsigned'', Object [])]"

lemma member_event_ok: "bt_ok member_event"
  by (simp add: member_event_def)

lemma member_event_redact:
  "redact member_event V6 = Ok [(''content'', Object [(''membership'', String ''join'')]),
     (''sender'', String ''@a:b''), (''type'', String ''m.room.member'')]"
  by (simp add: redact_def member_event_def allowed_content_keys_for_def ALLOWED_KEYS_def bt_remove_def)

lemma redact_fields_witness:
  "bt_ok [(''content'', Object [(''membership'', String ''join'')]),
     (''sender'', String ''@a:b''), (''type'', String ''m.room.member'')]"
  using redact_fields[OF member_event_redact, of "''m.room.member''"] by (simp add: member_event_def)

text \<open>Redaction is idempotent: redacting a redacted event changes nothing.\<close>

lemma redact_idempotent:
  assumes "redact object version = Ok r"
  shows "redact r version = Ok r"
  using assms by (rule redact_idem)

lemma redact_idempotent_witness:
  "redact [(''content'', Object [(''membership'', String ''join'')]),
     (''sender'', String ''@a:b''), (''type'', String ''m.room.member'')] V6 =
   Ok [(''content'', Object [(''membership'', String ''join'')]),
     (''sender'', String ''@a:b''), (''type'', String ''m.room.member'')]"
  by (rule redact_idempotent[OF member_event_redact])

text \<open>C21. The reference hash identifies an event across redaction and signing: the redacted event,
  the event with other signatures and the event with other fields outside the allowed keys (its
  unsigned data, for one) all have the reference hash of the event.\<close>

theorem reference_hash_stable:
  assumes "redact object version = Ok r"
  shows "reference_hash C r version = reference_hash C object version \<and>
    reference_hash C (bt_insert ''signatures'' s object) version = reference_hash C object version \<and>
    (\<forall>k v. k \<notin> set ALLOWED_KEYS \<longrightarrow>
       reference_hash C (bt_insert k v object) version = reference_hash C object version)"
proof (intro conjI allI impI)
  show "reference_hash C r version = reference_hash C object version"
    using assms redact_idem[OF assms] by (simp add: reference_hash_def)
  have "fold bt_remove REFERENCE_HASH_FIELDS_TO_REMOVE (bt_insert ''signatures'' s r) =
      fold bt_remove REFERENCE_HASH_FIELDS_TO_REMOVE r"
    by (rule bt_ext) (use redact_ok[OF assms] in \<open>auto simp: REFERENCE_HASH_FIELDS_TO_REMOVE_def\<close>)
  then show "reference_hash C (bt_insert ''signatures'' s object) version = reference_hash C object version"
    using assms redact_insert_signatures[OF assms]
    by (simp add: reference_hash_def canonical_json_with_fields_to_remove_def)
  fix k v assume "k \<notin> set ALLOWED_KEYS"
  then have "redact (bt_insert k v object) version = redact object version"
    by (intro redact_cong) auto
  then show "reference_hash C (bt_insert k v object) version = reference_hash C object version"
    by (simp add: reference_hash_def)
qed

text \<open>A successful \<open>sign_json\<close> adds one signature and changes nothing else: every other field
  is as before, every other signature is kept, the new one is the key pair's signature of the
  canonical JSON of the object, and the content hash stays the same.\<close>

lemma sign_json_adds_signature:
  assumes "bt_ok object" "sign_json C entity sign object = (object', Ok ())"
  shows "\<exists>json. canonical_json C object = Ok json \<and> bt_ok object' \<and>
    (\<forall>k. k \<noteq> ''signatures'' \<longrightarrow> bt_get object' k = bt_get object k) \<and>
    (\<forall>e k. signature_of object' e k =
       (if e = entity \<and> k = signature_id (sign json) then Some (String (signature_base64 C (sign json)))
        else signature_of object e k)) \<and>
    content_hash C object' = content_hash C object"
  using assms
proof (rule sign_json_OkE)
  fix sigs es json
  assume sigs: "bt_get object ''signatures'' = Some (Object sigs) \<or> (bt_get object ''signatures'' = None \<and> sigs = [])"
    and es: "bt_get sigs entity = Some (Object es) \<or> (bt_get sigs entity = None \<and> es = [])"
    and json: "to_json_string C (signable object) = Some json"
    and o': "object' = bt_insert ''signatures'' (Object (bt_insert entity (Object
       (bt_insert (signature_id (sign json)) (String (signature_base64 C (sign json))) es)) sigs)) object"
  have "content_hash C object' = content_hash C object"
    by (rule content_hash_cong) (use assms(1) in \<open>auto simp: o'\<close>)
  moreover have "signature_of object' e k =
       (if e = entity \<and> k = signature_id (sign json) then Some (String (signature_base64 C (sign json)))
        else signature_of object e k)" for e k
    using sigs es by (auto simp: signature_of_def o')
  ultimately show ?thesis using assms(1) json by (auto simp: canonical_json_signable o')
qed

text \<open>A concrete instance of the crates for the witnesses: base64 and SHA-256 are the identity, a
  signature is the message itself, and every object prints as \<^verbatim>\<open>{}\<close>.\<close>

definition toy_codecs :: "cobject \<Rightarrow> codecs" where
  "toy_codecs canonical = \<lparr> to_json_string = (\<lambda>_. Some ''{}''), from_json_str = (\<lambda>_. Some canonical),
     sha256 = (\<lambda>b. b), encode_config = (\<lambda>b _. b), decode_config = (\<lambda>s _. Some s) \<rparr>"

lemma reference_hash_stable_witness:
  "reference_hash (toy_codecs []) (bt_insert ''unsigned'' Null member_event) V6 = reference_hash (toy_codecs []) member_event V6"
  using reference_hash_stable[OF member_event_redact, of "toy_codecs []"] by simp

definition toy_ed25519 :: ed25519 where
  "toy_ed25519 = \<lparr> secret_from_bytes = Some, public_of_secret = (\<lambda>b. b), expand_secret = (\<lambda>b. b),
     expanded_sign = (\<lambda>_ m _. m), public_from_bytes = Some, signature_from_bytes = Some,
     public_verify = (\<lambda>_ m s. m = s) \<rparr>"

definition toy_key :: key_pair where
  "toy_key = \<lparr> extended_privkey = ''k'', pubkey = ''k'', kp_version = ''1'' \<rparr>"

lemma toy_ok: "codecs_ok (toy_codecs c)" "key_verifies toy_ed25519 toy_key"
  by (simp_all add: codecs_ok_def key_verifies_def toy_codecs_def toy_ed25519_def toy_key_def)

lemma toy_sign:
  "sign_json (toy_codecs c) ''b'' (key_pair_sign toy_ed25519 toy_key) member_event =
     (bt_insert ''signatures'' (Object [(''b'', Object [(''ed25519:1'', String ''{}'')])]) member_event, Ok ())"
  by (subst sign_json_insert)
     (simp_all add: member_event_def key_pair_sign_def toy_codecs_def toy_ed25519_def toy_key_def
       signature_id_def signature_base64_def)

lemma toy_signature [simp]:
  "signature_base64 (toy_codecs c) (key_pair_sign toy_ed25519 toy_key m) = m"
  "signature_id (key_pair_sign toy_ed25519 toy_key m) = ''ed25519:1''"
  "to_json_string (toy_codecs c) x = Some ''{}''" "from_json_str (toy_codecs c) j = Some c"
  "encode_config (toy_codecs c) b cfg = b" "decode_config (toy_codecs c) b cfg = Some b"
  by (simp_all add: toy_codecs_def toy_ed25519_def toy_key_def signature_base64_def signature_id_def
      key_pair_sign_def)

lemma sign_json_adds_signature_witness:
  "signature_of (bt_insert ''signatures'' (Object [(''b'', Object [(''ed25519:1'', String ''{}'')])])
     member_event) ''b'' ''ed25519:1'' = Some (String ''{}'')"
  using sign_json_adds_signature[OF member_event_ok toy_sign[of "[]"]]
  by (auto simp: canonical_json_signable)

text \<open>Signing keeps an object verifiable: if the object carried no signatures, or all of them
  verified, then after a successful \<open>sign_json\<close> with a key pair whose public key is in the map under
  the signing entity, \<open>verify_json\<close> accepts the object.\<close>

lemma verify_json_after_sign:
  assumes "bt_ok object" "sign_json C entity (key_pair_sign E kp) object = (object', Ok ())"
    and "bt_get object ''signatures'' = None \<or> verify_json C E pkm object = Ok ()"
    and "bt_get pkm entity = Some keys"
    and "bt_get keys (''ed25519:'' @ kp_version kp) = Some (encode_config C (pubkey kp) STANDARD_NO_PAD)"
    and "codecs_ok C" "key_verifies E kp"
  shows "verify_json C E pkm object' = Ok ()"
  using assms(1,2)
proof (rule sign_json_OkE)
  fix sigs es json
  let ?sig = "key_pair_sign E kp json"
  let ?es = "bt_insert (signature_id ?sig) (String (signature_base64 C ?sig)) es"
  assume sigs: "bt_get object ''signatures'' = Some (Object sigs) \<or> (bt_get object ''signatures'' = None \<and> sigs = [])"
    and es: "bt_get sigs entity = Some (Object es) \<or> (bt_get sigs entity = None \<and> es = [])"
    and json: "to_json_string C (signable object) = Some json"
    and o': "object' = bt_insert ''signatures'' (Object (bt_insert entity (Object ?es) sigs)) object"
  have signable': "signable object' = signable object" using assms(1) by (simp add: o')
  have old: "entity_verifies C E pkm object ev" if "ev \<in> set sigs" for ev
    using assms(3) sigs that by (auto simp: verify_json_ok)
  have new: "verify_signature C E (encode_config C (pubkey kp) STANDARD_NO_PAD)
      (signature_base64 C ?sig) object = Ok ()"
    using assms(6,7) json by (rule verify_own_signature)
  note id = key_pair_sign_id[of E kp json]
  have olds: "\<exists>s pk. snd kv = String s \<and> bt_get keys (fst kv) = Some pk \<and>
      verify_signature C E pk s object = Ok ()" if "kv \<in> set es" for kv
    using old[of "(entity, Object es)"] es that assms(4)
    by (auto simp: entity_verifies_def dest: map_of_SomeD)
  have "entity_verifies C E pkm object (entity, Object ?es)"
    using assms(4,5) new olds set_bt_insert_subset[of "signature_id ?sig" _ es]
    by (fastforce simp: entity_verifies_def id)
  then have "entity_verifies C E pkm object ev" if "ev \<in> set (bt_insert entity (Object ?es) sigs)" for ev
    using old that set_bt_insert_subset[of entity "Object ?es" sigs] by blast
  then show ?thesis
    by (auto simp: verify_json_ok o' entity_verifies_cong[OF signable', unfolded o'])
qed

lemma verify_json_after_sign_witness:
  "verify_json (toy_codecs []) toy_ed25519 [(''b'', [(''ed25519:1'', ''k'')])]
     (bt_insert ''signatures'' (Object [(''b'', Object [(''ed25519:1'', String ''{}'')])]) member_event)
   = Ok ()"
  by (rule verify_json_after_sign[OF member_event_ok toy_sign])
     (simp_all add: toy_ok member_event_def, simp_all add: toy_key_def)

text \<open>C19. An event that was hashed and signed verifies completely: after \<open>hash_and_sign_event\<close> by the
  only server whose signature the event needs, \<open>verify_event\<close> returns \<open>Verified::All\<close>, when parsing
  the canonical JSON gives back the object it was printed from and the server publishes one key.\<close>

theorem verify_event_after_hash_and_sign:
  assumes "bt_ok object" "hash_and_sign_event C entity (key_pair_sign E kp) object version = (object', Ok ())"
    and "servers_to_check_signatures object version = Ok [entity]"
    and "bt_get pkm entity =
      Some [(''ed25519:'' @ kp_version kp, encode_config C (pubkey kp) STANDARD_NO_PAD)]"
    and "version_ok (kp_version kp)" "codecs_ok C" "key_verifies E kp"
    and parse: "\<And>r json. redact object' version = Ok r \<Longrightarrow> to_json_string C (signable r) = Some json \<Longrightarrow>
      from_json_str C json = Some (signable r)"
  shows "verify_event C E pkm object' version = Ok VAll"
  using assms by (rule verify_own_event)

lemma toy_signed_event:
  "hash_and_sign_event (toy_codecs c) ''b'' (key_pair_sign toy_ed25519 toy_key) member_event V6 =
     (bt_insert ''signatures'' (Object [(''b'', Object [(''ed25519:1'', String ''{}'')])])
        (bt_insert ''hashes'' (Object [(''sha256'', String ''{}'')]) member_event), Ok ())"
proof -
  have h: "content_hash (toy_codecs c) member_event = Ok ''{}''"
    by (simp add: content_hash_def canonical_json_with_fields_to_remove_def MAX_PDU_BYTES_def)
       (simp add: toy_codecs_def)
  let ?o1 = "bt_insert ''hashes'' (Object [(''sha256'', String ''{}'')]) member_event"
  obtain r where r: "redact ?o1 V6 = Ok r" by (simp add: redact_def member_event_def)
  then have "bt_get r ''signatures'' = None" "bt_ok r"
    using redact_get_other[OF r, of "''signatures''"] redact_ok by (auto simp: member_event_def)
  then have "sign_json (toy_codecs c) ''b'' (key_pair_sign toy_ed25519 toy_key) r =
      (bt_insert ''signatures'' (Object [(''b'', Object [(''ed25519:1'', String ''{}'')])]) r, Ok ())"
    by (simp add: sign_json_insert)
  then show ?thesis using h r by (simp add: hash_and_sign_event_def member_event_def)
qed

lemma member_event_servers: "servers_to_check_signatures member_event V6 = Ok [''b'']"
proof -
  have "server_name_ok ''b''"
    by (rule server_name_ok_plain) (simp_all add: host_byte_def is_ascii_alnum_def is_lower_def)
  then have "user_id_validate ''@a:b'' = Ok ()"
    by (simp add: user_id_validate_def parse_id_def validate_id_def MAX_BYTES_def
        localpart_conforming historical_byte_def)
  then show ?thesis
    by (simp add: servers_to_check_signatures_def is_third_party_invite_def member_event_def
        parse_validated_def user_id_server_name_def colon_idx_def slice_from_def is_char_boundary_def
        insort_insert_key_def)
qed

abbreviation toy_event :: cobject where
  "toy_event \<equiv> bt_insert ''signatures'' (Object [(''b'', Object [(''ed25519:1'', String ''{}'')])])
     (bt_insert ''hashes'' (Object [(''sha256'', String ''{}'')]) member_event)"

abbreviation toy_pkm :: public_key_map where
  "toy_pkm \<equiv> [(''b'', [(''ed25519:1'', ''k'')])]"

lemma toy_version: "version_ok (kp_version toy_key)"
  by (simp add: toy_key_def version_ok_def is_ascii_alnum_def is_digit_def)

lemma toy_key_entry:
  "bt_get toy_pkm ''b'' = Some [(''ed25519:'' @ kp_version toy_key,
     encode_config (toy_codecs c) (pubkey toy_key) STANDARD_NO_PAD)]"
  by (simp add: toy_key_def)

lemma toy_redacts: "\<exists>r. redact toy_event V6 = Ok r"
  by (simp add: redact_def member_event_def)

lemma toy_parse: "redact toy_event V6 = Ok r \<Longrightarrow> redact toy_event V6 = Ok r' \<Longrightarrow>
    from_json_str (toy_codecs (signable r)) j = Some (signable r')"
  by simp

lemma verify_event_after_hash_and_sign_witness:
  "\<exists>c. verify_event (toy_codecs c) toy_ed25519 toy_pkm toy_event V6 = Ok VAll"
proof -
  obtain r where r: "redact toy_event V6 = Ok r" using toy_redacts by blast
  have "verify_event (toy_codecs (signable r)) toy_ed25519 toy_pkm toy_event V6 = Ok VAll"
    by (rule verify_event_after_hash_and_sign[where object = member_event and entity = "''b''" and kp = toy_key])
       (rule member_event_ok, rule toy_signed_event, rule member_event_servers, rule toy_key_entry,
        rule toy_version, rule toy_ok, rule toy_ok, erule toy_parse[OF r])
  then show ?thesis by (rule exI[of _ "signable r"])
qed

lemma toy_verified:
  "\<exists>c. verify_event (toy_codecs c) toy_ed25519 toy_pkm toy_event V6 = Ok VAll"
proof -
  obtain r where r: "redact toy_event V6 = Ok r" using toy_redacts by blast
  have "verify_event (toy_codecs (signable r)) toy_ed25519 toy_pkm toy_event V6 = Ok VAll"
    by (rule verify_own_event[where object = member_event and entity = "''b''" and kp = toy_key])
       (rule member_event_ok, rule toy_signed_event, rule member_event_servers, rule toy_key_entry,
        rule toy_version, rule toy_ok, rule toy_ok, erule toy_parse[OF r])
  then show ?thesis by (rule exI[of _ "signable r"])
qed

text \<open>C8. What \<open>Verified::All\<close> means: the recorded content hash is the one of the event, and every
  server that had to sign has a signature, under a key id of the form \<^verbatim>\<open>ed25519:version\<close> published for
  that server, which verifies over the canonical JSON of the redacted event.\<close>

theorem verify_event_sound:
  assumes "verify_event C E pkm object version = Ok VAll"
  shows "\<exists>r json canonical servers. redact object version = Ok r \<and> canonical_json C r = Ok json \<and>
    from_json_str C json = Some canonical \<and> servers_to_check_signatures object version = Ok servers \<and>
    event_hash object = content_hash C object \<and>
    (\<forall>e\<in>set servers. \<exists>keys k pk s. bt_get pkm e = Some keys \<and> (''ed25519:'' @ k, pk) \<in> set keys \<and>
       signature_of object e (''ed25519:'' @ k) = Some (String s) \<and>
       verify_signature C E pk s canonical = Ok ())"
proof -
  from assms obtain r hash m servers json canonical where *:
    "redact object version = Ok r" "event_hash object = Ok hash" "event_signature_map object = Ok m"
    "servers_to_check_signatures object version = Ok servers" "canonical_json C r = Ok json"
    "from_json_str C json = Some canonical" "verify_servers C E pkm m canonical servers = Ok ()"
    "content_hash C object = Ok hash"
    by (auto simp: verify_event_def and_then_eq_Ok ok_or_eq_Ok split: if_splits)
  have m: "bt_get object ''signatures'' = Some (Object m)"
    using *(3) by (auto simp: event_signature_map_def split: option.splits cjson.splits)
  have "\<exists>keys k pk s. bt_get pkm e = Some keys \<and> (''ed25519:'' @ k, pk) \<in> set keys \<and>
      signature_of object e (''ed25519:'' @ k) = Some (String s) \<and>
      verify_signature C E pk s canonical = Ok ()" if e_in: "e \<in> set servers" for e
  proof -
    obtain es keys s pk where e: "bt_get m e = Some (Object es)" "bt_get pkm e = Some keys"
      "find_signature es keys = Some (String s, pk)" "verify_signature C E pk s canonical = Ok ()"
      using *(7) e_in unfolding verify_servers_ok by blast
    from find_signature_Some[OF e(3)] obtain k where k: "(k, pk) \<in> set keys"
      "bt_get es k = Some (String s)" "is_ok (split_id k)" by blast
    then obtain v where "k = ''ed25519:'' @ v" by (auto simp: is_ok_iff split_id_Ok)
    then show ?thesis using e k m by (auto simp: signature_of_def)
  qed
  then show ?thesis using * by auto
qed

lemma verify_event_sound_witness:
  "\<exists>c. event_hash toy_event = content_hash (toy_codecs c) toy_event"
proof -
  obtain c where v: "verify_event (toy_codecs c) toy_ed25519 toy_pkm toy_event V6 = Ok VAll"
    using toy_verified by blast
  from verify_event_sound[OF v] show ?thesis by blast
qed

text \<open>C20. An error of \<open>sign_json\<close> is not free of effects: the object it leaves behind has lost its
  \<^verbatim>\<open>signatures\<close>.  It has also lost its \<^verbatim>\<open>unsigned\<close> data, except when the error says that
  \<^verbatim>\<open>signatures\<close> is not an object: then \<^verbatim>\<open>unsigned\<close> is as before.  All other fields are kept.\<close>

theorem sign_json_error_loses_fields:
  assumes "bt_ok object" "sign_json C entity sign object = (object', Err e)"
  shows "bt_get object' ''signatures'' = None \<and>
    bt_get object' ''unsigned'' =
      (if e = not_of_type ''signatures'' JTObject then bt_get object ''unsigned'' else None) \<and>
    (\<forall>k. k \<notin> {''signatures'', ''unsigned''} \<longrightarrow> bt_get object' k = bt_get object k)"
  using assms(2) unfolding sign_json_insert[OF assms(1)]
  by (auto split: option.splits cjson.splits)

lemma sign_json_error_loses_fields_witness:
  "bt_get (fst (sign_json (toy_codecs []) ''b'' (key_pair_sign toy_ed25519 toy_key)
     (bt_insert ''signatures'' (Object [(''b'', Null)]) member_event))) ''unsigned'' = None"
proof -
  let ?o = "bt_insert ''signatures'' (Object [(''b'', Null)]) member_event"
  have "sign_json (toy_codecs []) ''b'' (key_pair_sign toy_ed25519 toy_key) ?o =
      (signable ?o, Err (not_multiples_of_type ''signatures'' JTObject))"
    using member_event_ok by (simp add: sign_json_insert)
  note err = this
  have "bt_ok ?o" using member_event_ok by simp
  from sign_json_error_loses_fields[OF this err] show ?thesis by (simp add: err)
qed

end
