(* ===== verification/Word_Match.thy ===== *)
theory Word_Match
  imports Identifiers
begin

text \<open>The string matching of push conditions, \<^verbatim>\<open>CharExt\<close> and \<^verbatim>\<open>StrExt\<close> of
  \<^verbatim>\<open>ruma-common/src/push/condition.rs\<close>.  The functions index a \<^verbatim>\<open>str\<close> by bytes; every slice and every
  conversion that can panic is a \<open>Panic\<close> of the model.  \<open>uni\<close> is the Unicode part of \<open>is_alphanumeric\<close>.\<close>

section \<open>Characters\<close>

definition is_word_char :: "(nat \<Rightarrow> bool) \<Rightarrow> nat \<Rightarrow> bool" where
  "is_word_char uni c \<longleftrightarrow> is_alphanumeric uni c \<or> c = 95"

text \<open>\<open>to_ascii_lowercase\<close> and \<open>to_ascii_uppercase\<close> of a byte.\<close>

definition ascii_lower :: "char \<Rightarrow> char" where
  "ascii_lower c = (if is_upper c then char_of (byte c + 32) else c)"

definition ascii_upper :: "char \<Rightarrow> char" where
  "ascii_upper c = (if is_lower c then char_of (byte c - 32) else c)"

lemma map_ascii_lower: "is_ascii s \<Longrightarrow> is_ascii (map ascii_lower s)"
  by (induction s) (auto simp: is_ascii_def ascii_lower_def is_upper_def)

text \<open>The width of the first character by its lead byte, and its code.\<close>

fun char_width :: "string \<Rightarrow> nat" where
  "char_width [] = 0"
| "char_width (a # s) = (if byte a < 128 then 1 else if byte a < 224 then 2 else if byte a < 240 then 3 else 4)"

definition first_char :: "string \<Rightarrow> nat" where
  "first_char s = (case chars s of c # _ \<Rightarrow> c | [] \<Rightarrow> 0)"

text \<open>\<open>str::find\<close> with a predicate on characters.\<close>

function find_char :: "(nat \<Rightarrow> bool) \<Rightarrow> string \<Rightarrow> nat option" where
  "find_char P s =
     (if s = [] then None
      else if P (first_char s) then Some 0
      else map_option ((+) (char_width s)) (find_char P (drop (char_width s) s)))"
  by auto
termination
proof (relation "measure (\<lambda>(P, s). length s)", goal_cases)
  case (2 P s)
  then show ?case by (cases s) auto
qed simp

declare find_char.simps [simp del]

text \<open>\<open>char_len\<close>: the loop to the next character boundary; past the end there is none and the index overflows.\<close>

definition char_len :: "string \<Rightarrow> nat \<Rightarrow> (nat, unit) result" where
  "char_len s index =
     (case find (\<lambda>len. is_char_boundary s (index + len)) [1..<Suc (length s - index)] of
        Some len \<Rightarrow> Ok len | None \<Rightarrow> Panic)"

definition char_at :: "string \<Rightarrow> nat \<Rightarrow> (nat, unit) result" where
  "char_at s index =
     and_then (char_len s index) (\<lambda>len.
     and_then (slice s index (index + len)) (\<lambda>char_str.
     case chars char_str of [c] \<Rightarrow> Ok c | _ \<Rightarrow> Panic))"

definition find_prev_char :: "string \<Rightarrow> nat \<Rightarrow> (nat option, unit) result" where
  "find_prev_char s index =
     (if index = 0 then Ok None
      else case find (is_char_boundary s) (rev [0..<index]) of
             Some pos \<Rightarrow> and_then (char_at s pos) (\<lambda>c. Ok (Some c))
           | None \<Rightarrow> Panic)"

section \<open>Matching words\<close>

text \<open>The two boundary tests of \<open>matches_word\<close>, with their short circuits.\<close>

definition word_boundary_start :: "(nat \<Rightarrow> bool) \<Rightarrow> string \<Rightarrow> nat \<Rightarrow> (bool, unit) result" where
  "word_boundary_start uni s start =
     and_then (char_at s start) (\<lambda>c.
     if \<not> is_word_char uni c then Ok True
     else and_then (find_prev_char s start) (\<lambda>p.
       Ok (case p of None \<Rightarrow> True | Some c \<Rightarrow> \<not> is_word_char uni c)))"

definition word_boundary_end :: "(nat \<Rightarrow> bool) \<Rightarrow> string \<Rightarrow> nat \<Rightarrow> (bool, unit) result" where
  "word_boundary_end uni s end_idx =
     (if end_idx = length s then Ok True
      else and_then (find_prev_char s end_idx) (\<lambda>p.
        case p of
          None \<Rightarrow> Panic
        | Some c \<Rightarrow> if \<not> is_word_char uni c then Ok True
                  else and_then (char_at s end_idx) (\<lambda>c. Ok (\<not> is_word_char uni c))))"

lemma find_char_Some:
  "find_char P s = Some n \<Longrightarrow> n \<le> length s \<and> drop n s \<noteq> [] \<and> P (first_char (drop n s))"
proof (induction P s arbitrary: n rule: find_char.induct)
  case (1 P s)
  have f: "s \<noteq> []" using "1.prems" by (cases s) (simp_all add: find_char.simps[of P "[]"])
  show ?case
  proof (cases "P (first_char s)")
    case True
    then have "n = 0" using "1.prems" f by (simp add: find_char.simps[of P s])
    then show ?thesis using f True by simp
  next
    case False
    then obtain m where m: "find_char P (drop (char_width s) s) = Some m" "n = char_width s + m"
      using "1.prems" f by (simp add: find_char.simps[of P s]) blast
    have "drop n s = drop m (drop (char_width s) s)" using m(2) by (simp add: add.commute)
    then show ?thesis using "1.IH"[OF f False m(1)] m(2) by (metis drop_all linorder_le_cases)
  qed
qed

lemma find_char_pos: "find_char P s = Some n \<Longrightarrow> \<not> P (first_char s) \<Longrightarrow> 0 < n"
  using find_char_Some[of P s n] by (cases n) auto

text \<open>The match at \<open>start\<close> is separated from other words.\<close>

definition word_at :: "(nat \<Rightarrow> bool) \<Rightarrow> string \<Rightarrow> string \<Rightarrow> nat \<Rightarrow> (bool, unit) result" where
  "word_at uni s pat start =
     and_then (word_boundary_start uni s start) (\<lambda>bs.
     if bs then word_boundary_end uni s (start + length pat) else Ok False)"

text \<open>\<open>Find next word\<close>: from \<open>start\<close> to the next non-word character and from there to the next word character.\<close>

definition next_word :: "(nat \<Rightarrow> bool) \<Rightarrow> string \<Rightarrow> nat \<Rightarrow> (string option, unit) result" where
  "next_word uni s start =
     and_then (slice_from s start) (\<lambda>non_word_str.
     case find_char (\<lambda>c. \<not> is_word_char uni c) non_word_str of
       None \<Rightarrow> Ok None
     | Some non_word \<Rightarrow>
         and_then (slice_from non_word_str non_word) (\<lambda>word_str.
         case find_char (is_word_char uni) word_str of
           None \<Rightarrow> Ok None
         | Some word \<Rightarrow> and_then (slice_from word_str word) (\<lambda>rest. Ok (Some rest))))"

lemma next_word_shorter:
  assumes "next_word uni s start = Ok (Some rest)"
  shows "length rest < length s"
proof -
  obtain n m where n: "find_char (\<lambda>c. \<not> is_word_char uni c) (drop start s) = Some n"
      and m: "find_char (is_word_char uni) (drop n (drop start s)) = Some m"
      and rest: "rest = drop m (drop n (drop start s))"
    using assms by (auto simp: next_word_def res_simps split: option.splits)
  note a = find_char_Some[OF n]
  have "0 < m" using find_char_pos[OF m] a by blast
  moreover have "drop n (drop start s) \<noteq> []" using a by blast
  then have "length (drop m (drop n (drop start s))) < length (drop n (drop start s))" using \<open>0 < m\<close> by simp
  ultimately show ?thesis unfolding rest by (metis length_drop diff_le_self le_trans less_le_trans)
qed

function matches_word :: "(nat \<Rightarrow> bool) \<Rightarrow> string \<Rightarrow> string \<Rightarrow> (bool, unit) result" where
  "matches_word uni s pat =
     (if s = pat then Ok True
      else if pat = [] then Ok False
      else case str_find_str pat s of
        None \<Rightarrow> Ok False
      | Some start \<Rightarrow>
          (case word_at uni s pat start of
             Ok found \<Rightarrow>
               if found then Ok True
               else (case next_word uni s start of
                       Ok None \<Rightarrow> Ok False
                     | Ok (Some rest) \<Rightarrow> matches_word uni rest pat
                     | Err e \<Rightarrow> Err e
                     | Panic \<Rightarrow> Panic)
           | Err e \<Rightarrow> Err e
           | Panic \<Rightarrow> Panic))"
  by auto
termination
  by (relation "measure (\<lambda>(uni, s, pat). length s)") (auto dest: next_word_shorter)

declare matches_word.simps [simp del]

section \<open>Separated occurrences in a list\<close>

text \<open>\<open>sep W us vs\<close>: between \<open>us\<close> and \<open>vs\<close> no two \<open>W\<close> elements meet; \<open>occurs W ps cs\<close>: \<open>ps\<close> is a
  factor of \<open>cs\<close>, separated on both sides.\<close>

definition sep :: "('c \<Rightarrow> bool) \<Rightarrow> 'c list \<Rightarrow> 'c list \<Rightarrow> bool" where
  "sep W us vs \<longleftrightarrow> us = [] \<or> vs = [] \<or> \<not> (W (last us) \<and> W (hd vs))"

definition occurs :: "('c \<Rightarrow> bool) \<Rightarrow> 'c list \<Rightarrow> 'c list \<Rightarrow> bool" where
  "occurs W ps cs \<longleftrightarrow> (\<exists>us vs. cs = us @ ps @ vs \<and> sep W us ps \<and> sep W ps vs)"

definition skip_word :: "('c \<Rightarrow> bool) \<Rightarrow> 'c list \<Rightarrow> 'c list" where
  "skip_word W cs = dropWhile (\<lambda>c. \<not> W c) (dropWhile W cs)"

lemma sep_append: "sep W (us @ xs) ps \<Longrightarrow> xs \<noteq> [] \<Longrightarrow> sep W xs ps"
  by (auto simp: sep_def)

lemma occurs_skipped:
  assumes "occurs W ps (skip_word W (ps @ vs))" "ps \<noteq> []"
  shows "occurs W ps (us @ ps @ vs)"
proof -
  let ?r = "ps @ vs"
  define A where "A = takeWhile W ?r"
  define r1 where "r1 = dropWhile W ?r"
  define B where "B = takeWhile (\<lambda>c. \<not> W c) r1"
  obtain us2 vs2 where t: "dropWhile (\<lambda>c. \<not> W c) r1 = us2 @ ps @ vs2" "sep W us2 ps" "sep W ps vs2"
    using assms(1) by (auto simp: occurs_def skip_word_def r1_def)
  have r: "?r = A @ B @ us2 @ ps @ vs2" using t(1) by (simp add: A_def B_def r1_def flip: t(1))
  have "sep W (us @ A @ B @ us2) ps"
  proof (cases "us2 = []")
    case False
    then show ?thesis using t(2) by (simp add: sep_def)
  next
    case True
    then have "r1 \<noteq> []" using t(1) assms(2) by auto
    then have "\<not> W (hd r1)" unfolding r1_def by (rule hd_dropWhile)
    then have "B \<noteq> []" using \<open>r1 \<noteq> []\<close> by (cases r1) (simp_all add: B_def)
    then have "\<not> W (last B)" using set_takeWhileD[of "last B" "\<lambda>c. \<not> W c" r1] by (simp add: B_def)
    then show ?thesis using True \<open>B \<noteq> []\<close> by (simp add: sep_def)
  qed
  then show ?thesis unfolding occurs_def using r t(3)
    by (intro exI[of _ "us @ A @ B @ us2"] exI[of _ vs2]) simp
qed

lemma later_occurrence_skipped:
  assumes occ: "x @ ps @ vs' = ps @ vs" "x \<noteq> []" "ps \<noteq> []" "sep W x ps" "sep W ps vs'"
    and bad: "\<not> (sep W us ps \<and> sep W ps vs)"
  shows "occurs W ps (skip_word W (ps @ vs))"
proof -
  let ?r = "ps @ vs"
  define A where "A = takeWhile W ?r"
  define r1 where "r1 = dropWhile W ?r"
  define B where "B = takeWhile (\<lambda>c. \<not> W c) r1"
  define t where "t = dropWhile (\<lambda>c. \<not> W c) r1"
  have r: "?r = A @ B @ t" by (simp add: A_def B_def r1_def t_def)
  have A: "\<And>c. c \<in> set A \<Longrightarrow> W c" by (auto simp: A_def dest: set_takeWhileD)
  have B: "\<And>c. c \<in> set B \<Longrightarrow> \<not> W c" by (auto simp: B_def dest: set_takeWhileD)
  have x: "?r ! length x = hd ps" "length x < length ?r"
    using occ(1,3) by (metis append_is_Nil_conv hd_append2 hd_conv_nth nth_append_length_plus add.right_neutral) 
      (metis occ(1,3) append.assoc length_append length_greater_0_conv less_add_same_cancel1 trans_less_add1)
  have far: "length (A @ B) \<le> length x"
  proof (rule ccontr)
    assume "\<not> length (A @ B) \<le> length x"
    then have l: "length x < length A + length B" by simp
    show False
    proof (cases "W (hd ps)")
      case True
      have "length x < length A"
      proof (rule ccontr)
        assume "\<not> length x < length A"
        then have i: "length x - length A < length B" using l by arith
        then have "?r ! length x = B ! (length x - length A)"
          using \<open>\<not> length x < length A\<close> unfolding r by (simp add: nth_append)
        then have "?r ! length x \<in> set B" using i by simp
        then show False using B x(1) True by simp
      qed
      then have "x = take (length x) A" using occ(1) r by (metis append_eq_append_conv_if less_imp_le_nat)
      then have "W (last x)" using A occ(2) by (metis in_set_takeD last_in_set)
      then show False using occ(2,3,4) True by (simp add: sep_def)
    next
      case False
      have A0: "A = []" using False occ(3) by (cases ps) (simp_all add: A_def)
      then have r1: "r1 = ?r" using r by (metis A_def append_Nil dropWhile_eq_self_iff r1_def takeWhile_eq_Nil_iff)
      have bad': "vs \<noteq> []" "W (last ps)" using bad False by (auto simp: sep_def)
      then have w: "\<exists>c\<in>set ps. W c" using occ(3) last_in_set by blast
      have Bp: "B = takeWhile (\<lambda>c. \<not> W c) ps" using w by (auto simp: B_def r1 takeWhile_append1)
      have lB: "length B < length ps"
        unfolding Bp using w by (metis length_takeWhile_le le_neq_implies_less takeWhile_eq_all_conv takeWhile_eq_take take_all_iff order_refl)
      have WB: "W (ps ! length B)" using nth_length_takeWhile[of "\<lambda>c. \<not> W c" ps] lB Bp by simp
      let ?j = "length B - length x"
      have j: "?j < length B" using l A0 occ(2) by (cases x) auto
      have "?r ! length B = ps ! ?j"
      proof -
        have "(x @ ps @ vs') ! length B = ps ! ?j" using l A0 j lB by (simp add: nth_append)
        then show ?thesis using occ(1) by simp
      qed
      moreover have "?r ! length B = ps ! length B" using lB by (simp add: nth_append)
      moreover have "ps ! ?j = B ! ?j" unfolding Bp using j by (simp add: takeWhile_nth Bp)
      ultimately show False using WB B j by (metis nth_mem)
    qed
  qed
  then obtain us2 where us2: "x = A @ B @ us2"
    using occ(1) r by (metis append.assoc append_eq_append_conv_if append_take_drop_id)
  then have "t = us2 @ ps @ vs'" using occ(1) r by simp
  moreover have "sep W us2 ps" using occ(4) us2 sep_append[of W "A @ B" us2 ps] by (cases "us2 = []") (auto simp: sep_def)
  ultimately show ?thesis unfolding occurs_def skip_word_def using occ(5)
    by (intro exI[of _ us2] exI[of _ vs']) (simp add: t_def r1_def)
qed

text \<open>One round of the search: if the first occurrence is not separated, the others are in the rest.\<close>

lemma occurs_step:
  assumes "ps \<noteq> []" "\<And>us' vs'. us @ ps @ vs = us' @ ps @ vs' \<Longrightarrow> length us \<le> length us'"
    and "\<not> (sep W us ps \<and> sep W ps vs)"
  shows "occurs W ps (us @ ps @ vs) \<longleftrightarrow> occurs W ps (skip_word W (ps @ vs))"
proof
  assume "occurs W ps (us @ ps @ vs)"
  then obtain us' vs' where o': "us @ ps @ vs = us' @ ps @ vs'" "sep W us' ps" "sep W ps vs'"
    by (auto simp: occurs_def)
  have "length us \<le> length us'" using assms(2) o'(1) .
  then obtain x where x: "us' = us @ x" using o'(1) by (metis append_eq_append_conv_if append_take_drop_id)
  have "x \<noteq> []" using o' assms(3) x by auto
  moreover have "x @ ps @ vs' = ps @ vs" using o'(1) x by simp
  moreover have "sep W x ps" using o'(2) x sep_append calculation(1) by metis
  ultimately show "occurs W ps (skip_word W (ps @ vs))"
    using later_occurrence_skipped assms(1,3) o'(3) by metis
qed (rule occurs_skipped[OF _ assms(1)])

section \<open>Characters of a string\<close>

text \<open>One encoded character, and the list of the encoded characters of a string.\<close>

definition uchar :: "string \<Rightarrow> bool" where
  "uchar c \<longleftrightarrow> c \<noteq> [] \<and> utf8 c \<and> length c = char_width c"

function chunks :: "string \<Rightarrow> string list" where
  "chunks s = (if s = [] then [] else take (char_width s) s # chunks (drop (char_width s) s))"
  by auto
termination
proof (relation "measure length", goal_cases)
  case (2 s)
  then show ?case by (cases s) auto
qed simp

declare chunks.simps [simp del]

lemma chunks_Nil [simp]: "chunks [] = []"
  by (simp add: chunks.simps)

lemma concat_chunks [simp]: "concat (chunks s) = s"
  by (induction s rule: chunks.induct) (subst chunks.simps, simp)

lemma utf8_uchar_induct [consumes 1, case_names Nil Char]:
  assumes "utf8 s" "P []" "\<And>c s. uchar c \<Longrightarrow> utf8 s \<Longrightarrow> P s \<Longrightarrow> P (c @ s)"
  shows "P s"
  using assms(1)
proof (induction s rule: utf8_chars_induct)
  case (One a s)
  then show ?case using assms(3)[of "[a]" s] by (simp add: uchar_def)
next
  case (Two a b s)
  then show ?case using assms(3)[of "[a, b]" s] by (simp add: uchar_def)
next
  case (Three a b c s)
  then show ?case using assms(3)[of "[a, b, c]" s] by (simp add: uchar_def)
next
  case (Four a b c d s)
  then show ?case using assms(3)[of "[a, b, c, d]" s] by (simp add: uchar_def)
qed (rule assms(2))

lemma utf8_first: "utf8 y \<Longrightarrow> y \<noteq> [] \<Longrightarrow> \<exists>c z. y = c @ z \<and> uchar c \<and> utf8 z"
  by (induction y rule: utf8_uchar_induct) auto

text \<open>The four forms of an encoded character.\<close>

lemma uchar_cases:
  assumes "uchar c"
  obtains a where "c = [a]" "byte a < 128"
  | a b where "c = [a, b]" "192 \<le> byte a" "byte a < 224" "cont_byte b"
  | a b d where "c = [a, b, d]" "224 \<le> byte a" "byte a < 240" "cont_byte b" "cont_byte d"
  | a b d e where "c = [a, b, d, e]" "240 \<le> byte a" "cont_byte b" "cont_byte d" "cont_byte e"
proof -
  obtain a s where c: "c = a # s" using assms by (cases c) (auto simp: uchar_def)
  have u: "utf8 (a # s)" "length (a # s) = char_width (a # s)" using assms unfolding c uchar_def by blast+
  have "byte a < 128 \<or> 192 \<le> byte a"
  proof (rule ccontr)
    assume "\<not> (byte a < 128 \<or> 192 \<le> byte a)"
    then show False using u(1) by simp
  qed
  then consider "byte a < 128" | "192 \<le> byte a" "byte a < 224" | "224 \<le> byte a" "byte a < 240" | "240 \<le> byte a"
    by linarith
  then show ?thesis
    by cases (use u c that in \<open>auto split: list.splits if_splits simp: length_Suc_conv numeral_2_eq_2 numeral_3_eq_3\<close>)
qed

lemma uchar_append:
  assumes "uchar c"
  shows "char_width (c @ s) = length c" "chars (c @ s) = first_char c # chars s" "utf8 (c @ s) = utf8 s"
    "first_char (c @ s) = first_char c" "chars c = [first_char c]" "c \<noteq> []"
  using assms by (cases rule: uchar_cases; simp add: first_char_def)+

lemma uchar_boundary:
  assumes "uchar c"
  shows "is_char_boundary (c @ s) i \<longleftrightarrow> i = 0 \<or> length c \<le> i \<and> is_char_boundary s (i - length c)"
  using assms
proof (cases rule: uchar_cases)
  case (1 a)
  then show ?thesis by (cases i) (auto simp: is_char_boundary_Suc, auto simp: is_char_boundary_def)
next
  case (2 a b)
  then show ?thesis
    by (cases i; cases "i - 1") (auto simp: is_char_boundary_Suc is_char_boundary_cont, auto simp: is_char_boundary_def)
next
  case (3 a b d)
  then show ?thesis
    by (cases i; cases "i - 1"; cases "i - 2")
       (auto simp: is_char_boundary_Suc is_char_boundary_cont, auto simp: is_char_boundary_def)
next
  case (4 a b d e)
  then show ?thesis
    by (cases i; cases "i - 1"; cases "i - 2"; cases "i - 3")
       (auto simp: is_char_boundary_Suc is_char_boundary_cont, auto simp: is_char_boundary_def)
qed

lemma chunks_uchar: "uchar c \<Longrightarrow> chunks (c @ s) = c # chunks s"
  by (subst chunks.simps) (simp add: uchar_append)

lemma chunks_append: "utf8 x \<Longrightarrow> chunks (x @ y) = chunks x @ chunks y"
  by (induction x rule: utf8_uchar_induct) (simp_all add: chunks_uchar)

lemma chars_append: "utf8 x \<Longrightarrow> chars (x @ y) = chars x @ chars y"
  by (induction x rule: utf8_uchar_induct) (simp_all add: uchar_append)

lemma utf8_append: "utf8 x \<Longrightarrow> utf8 (x @ y) \<longleftrightarrow> utf8 y"
  by (induction x rule: utf8_uchar_induct) (simp_all add: uchar_append)

lemma chars_chunks: "utf8 s \<Longrightarrow> chars s = map first_char (chunks s)"
  by (induction s rule: utf8_uchar_induct) (simp_all add: uchar_append chunks_uchar)

lemma chunks_Nil_iff [simp]: "chunks s = [] \<longleftrightarrow> s = []"
  by (subst chunks.simps) simp

lemma chunks_uchars: "utf8 s \<Longrightarrow> c \<in> set (chunks s) \<Longrightarrow> uchar c"
  by (induction s rule: utf8_uchar_induct) (auto simp: chunks_uchar)

lemma utf8_concat: "\<forall>c\<in>set cs. uchar c \<Longrightarrow> utf8 (concat cs) \<and> chunks (concat cs) = cs"
  by (induction cs) (simp_all add: uchar_append chunks_uchar)

text \<open>A string cut at a boundary.\<close>

lemma utf8_cut:
  assumes "utf8 s" "is_char_boundary s i"
  shows "utf8 (take i s) \<and> utf8 (drop i s)"
  using assms
proof (induction s arbitrary: i rule: utf8_uchar_induct)
  case (Char c s)
  show ?case
  proof (cases "i = 0")
    case False
    then have "length c \<le> i" "is_char_boundary s (i - length c)" using Char uchar_boundary by auto
    then show ?thesis using Char by (simp add: uchar_append)
  qed (use Char in \<open>simp add: uchar_append\<close>)
qed simp

lemma boundary_at: "utf8 y \<Longrightarrow> is_char_boundary (x @ y) (length x)"
  using utf8_boundary_zero[of y] by (auto simp: is_char_boundary_def nth_append)

section \<open>The byte functions by characters\<close>

lemma is_char_boundary_drop:
  "is_char_boundary s i \<Longrightarrow> is_char_boundary (drop i s) k \<longleftrightarrow> is_char_boundary s (i + k)"
  by (auto simp: is_char_boundary_def)

lemma find_first:
  assumes "P k" "a \<le> k" "k < b" "\<And>j. a \<le> j \<Longrightarrow> j < k \<Longrightarrow> \<not> P j"
  shows "find P [a..<b] = Some k"
  unfolding find_Some_iff using assms by (intro exI[of _ "k - a"]) auto

lemma find_last:
  assumes "P k" "k < b" "\<And>j. k < j \<Longrightarrow> j < b \<Longrightarrow> \<not> P j"
  shows "find P (rev [0..<b]) = Some k"
  unfolding find_Some_iff using assms by (intro exI[of _ "b - Suc k"]) (auto simp: rev_nth)

lemma char_len_at:
  assumes "utf8 y" "y \<noteq> []"
  shows "char_len (x @ y) (length x) = Ok (char_width y)"
proof -
  obtain c z where c: "y = c @ z" "uchar c" "utf8 z" using utf8_first[OF assms] by blast
  have b: "is_char_boundary (x @ y) (length x + k) \<longleftrightarrow> is_char_boundary y k" for k
    using is_char_boundary_drop[OF boundary_at[OF assms(1)], of x k] by simp
  have "find (is_char_boundary y) [1..<Suc (length y)] = Some (length c)"
    unfolding c(1) using c(2,3) uchar_boundary[OF c(2), of z] utf8_boundary_zero[OF c(3)] uchar_append(6)[OF c(2)]
    by (intro find_first) (auto simp: Suc_le_eq)
  moreover have "char_width y = length c" using c by (simp add: uchar_append)
  ultimately show ?thesis by (simp add: char_len_def b)
qed

lemma char_at_at:
  assumes "utf8 y" "y \<noteq> []"
  shows "char_at (x @ y) (length x) = Ok (first_char y)"
proof -
  obtain c z where c: "y = c @ z" "uchar c" "utf8 z" using utf8_first[OF assms] by blast
  have "is_char_boundary (x @ y) (length x)" "is_char_boundary (x @ y) (length x + length c)"
    using boundary_at[OF assms(1), of x] boundary_at[OF c(3), of "x @ c"] c(1) by simp_all
  then have s: "slice (x @ y) (length x) (length x + length c) = (Ok c :: (string, unit) result)"
    using c(1) by (simp add: slice_def)
  have "char_width y = length c" "first_char y = first_char c" "chars c = [first_char c]"
    using c by (simp_all add: uchar_append)
  then show ?thesis by (simp add: char_at_def char_len_at[OF assms] s)
qed

lemma utf8_snoc:
  assumes "utf8 x" "x \<noteq> []"
  obtains x' c where "x = x' @ c" "utf8 x'" "uchar c" "last (chars x) = first_char c"
proof -
  have "chunks x \<noteq> []" using assms(2) by simp
  then obtain cs c where cs: "chunks x = cs @ [c]" by (metis append_butlast_last_id)
  then have "\<forall>d\<in>set (cs @ [c]). uchar d" using chunks_uchars[OF assms(1)] by simp
  moreover have "x = concat cs @ c" using concat_chunks[of x] cs by simp
  moreover have "last (chars x) = first_char c" using chars_chunks[OF assms(1)] cs by simp
  ultimately show ?thesis using that utf8_concat[of cs] by simp
qed

lemma find_prev_char_at:
  assumes "utf8 x" "utf8 y"
  shows "find_prev_char (x @ y) (length x) = Ok (if x = [] then None else Some (last (chars x)))"
proof (cases "x = []")
  case False
  obtain x' c where x: "x = x' @ c" "utf8 x'" "uchar c" "last (chars x) = first_char c"
    using utf8_snoc[OF assms(1) False] .
  have u: "utf8 (c @ y)" using x(3) assms(2) by (simp add: uchar_append)
  have b: "is_char_boundary (x @ y) (length x' + k) \<longleftrightarrow> is_char_boundary (c @ y) k" for k
    using is_char_boundary_drop[OF boundary_at[OF u], of x' k] x(1) by simp
  have "\<not> is_char_boundary (x @ y) j" if "length x' < j" "j < length x" for j
    using b[of "j - length x'"] uchar_boundary[OF x(3), of y "j - length x'"] that x(1) by auto
  moreover have "is_char_boundary (x @ y) (length x')" using b[of 0] utf8_boundary_zero[OF u] by simp
  ultimately have "find (is_char_boundary (x @ y)) (rev [0..<length x]) = Some (length x')"
    using x(1) uchar_append(6)[OF x(3)] by (intro find_last) auto
  moreover have "char_at (x @ y) (length x') = Ok (first_char c)"
    using char_at_at[OF u, of x'] x(1,3) by (simp add: uchar_append)
  ultimately show ?thesis using False x(1,4) by (simp add: find_prev_char_def)
qed (simp add: find_prev_char_def)

lemma find_char_spec:
  assumes "utf8 s"
  shows "case find_char P s of
      None \<Rightarrow> dropWhile (\<lambda>c. \<not> P (first_char c)) (chunks s) = []
    | Some n \<Rightarrow> is_char_boundary s n \<and> chunks (drop n s) = dropWhile (\<lambda>c. \<not> P (first_char c)) (chunks s)"
  using assms
proof (induction s rule: utf8_uchar_induct)
  case Nil
  then show ?case by (simp add: find_char.simps[of P "[]"])
next
  case (Char c s)
  have f: "find_char P (c @ s) = (if P (first_char c) then Some 0 else map_option ((+) (length c)) (find_char P s))"
    using Char(1) by (subst find_char.simps) (simp add: uchar_append)
  show ?case
  proof (cases "P (first_char c)")
    case True
    then show ?thesis using Char(1,2) f
      by (simp add: chunks_uchar utf8_boundary_zero uchar_append)
  next
    case False
    then show ?thesis using Char f
      by (auto simp: chunks_uchar uchar_boundary split: option.splits)
  qed
qed

lemma find_char_end:
  "find_char P s = None \<Longrightarrow> utf8 s \<Longrightarrow> dropWhile (\<lambda>c. \<not> P (first_char c)) (chunks s) = []"
  using find_char_spec[of s P] by (simp only: option.case)

lemma find_char_found:
  assumes "find_char P s = Some n" "utf8 s"
  shows "is_char_boundary s n" "chunks (drop n s) = dropWhile (\<lambda>c. \<not> P (first_char c)) (chunks s)"
  using find_char_spec[OF assms(2), of P] unfolding assms(1) option.case by blast+

section \<open>Words in a string\<close>

text \<open>\<open>word_sep uni x y\<close>: no word goes on from \<open>x\<close> to \<open>y\<close>.  \<open>word_occurs uni pat s\<close>: \<open>pat\<close> occurs in \<open>s\<close>,
  separated on both sides.\<close>

definition word_sep :: "(nat \<Rightarrow> bool) \<Rightarrow> string \<Rightarrow> string \<Rightarrow> bool" where
  "word_sep uni x y \<longleftrightarrow> x = [] \<or> y = []
     \<or> \<not> (is_word_char uni (last (chars x)) \<and> is_word_char uni (hd (chars y)))"

definition word_occurs :: "(nat \<Rightarrow> bool) \<Rightarrow> string \<Rightarrow> string \<Rightarrow> bool" where
  "word_occurs uni pat s \<longleftrightarrow> (\<exists>u v. s = u @ pat @ v \<and> word_sep uni u pat \<and> word_sep uni pat v)"

abbreviation word_chunk :: "(nat \<Rightarrow> bool) \<Rightarrow> string \<Rightarrow> bool" where
  "word_chunk uni c \<equiv> is_word_char uni (first_char c)"

lemma chars_last_hd:
  assumes "utf8 x" "x \<noteq> []"
  shows "last (chars x) = first_char (last (chunks x))" "hd (chars x) = first_char (hd (chunks x))"
proof -
  have "chunks x \<noteq> []" using assms(2) by simp
  then show "last (chars x) = first_char (last (chunks x))" "hd (chars x) = first_char (hd (chunks x))"
    unfolding chars_chunks[OF assms(1)] by (rule last_map, rule hd_map)
qed

lemma word_sep_chunks:
  assumes "utf8 x" "utf8 y"
  shows "word_sep uni x y \<longleftrightarrow> sep (word_chunk uni) (chunks x) (chunks y)"
proof (cases "x = [] \<or> y = []")
  case False
  then show ?thesis using chars_last_hd(1)[OF assms(1)] chars_last_hd(2)[OF assms(2)]
    by (simp add: word_sep_def sep_def)
qed (auto simp: word_sep_def sep_def)

lemma occurrence_utf8:
  assumes "utf8 (u @ p @ v)" "utf8 p" "p \<noteq> []"
  shows "utf8 u" "utf8 v"
proof -
  have "is_char_boundary p 0" using assms(2) by (rule utf8_boundary_zero)
  then have "is_char_boundary (u @ p @ v) (length u)"
    using assms(3) by (auto simp: is_char_boundary_def nth_append)
  from utf8_cut[OF assms(1) this] show "utf8 u" "utf8 v" using utf8_append[OF assms(2)] by simp_all
qed

lemma word_occurs_chunks:
  assumes "utf8 s" "utf8 p" "p \<noteq> []"
  shows "word_occurs uni p s \<longleftrightarrow> occurs (word_chunk uni) (chunks p) (chunks s)"
proof
  assume "word_occurs uni p s"
  then obtain u v where s: "s = u @ p @ v" "word_sep uni u p" "word_sep uni p v"
    unfolding word_occurs_def by blast
  have uv: "utf8 u" "utf8 v" using occurrence_utf8 assms unfolding s(1) by blast+
  have "chunks s = chunks u @ chunks p @ chunks v"
    unfolding s(1) chunks_append[OF uv(1)] chunks_append[OF assms(2)] ..
  moreover have "sep (word_chunk uni) (chunks u) (chunks p)" "sep (word_chunk uni) (chunks p) (chunks v)"
    using s(2,3) word_sep_chunks uv assms(2) by blast+
  ultimately show "occurs (word_chunk uni) (chunks p) (chunks s)" unfolding occurs_def by blast
next
  assume "occurs (word_chunk uni) (chunks p) (chunks s)"
  then obtain us vs where o': "chunks s = us @ chunks p @ vs"
      "sep (word_chunk uni) us (chunks p)" "sep (word_chunk uni) (chunks p) vs"
    unfolding occurs_def by blast
  have "\<forall>c\<in>set us. uchar c" "\<forall>c\<in>set vs. uchar c" using chunks_uchars[OF assms(1)] o'(1) by auto
  then have c: "utf8 (concat us)" "chunks (concat us) = us" "utf8 (concat vs)" "chunks (concat vs) = vs"
    using utf8_concat by blast+
  have "s = concat us @ p @ concat vs" using concat_chunks[of s] o'(1) by simp
  moreover have "word_sep uni (concat us) p" "word_sep uni p (concat vs)"
    unfolding word_sep_chunks[OF c(1) assms(2)] word_sep_chunks[OF assms(2) c(3)] c(2,4) using o'(2,3) by blast+
  ultimately show "word_occurs uni p s" unfolding word_occurs_def by blast
qed

lemma str_find_str_Some:
  "str_find_str p s = Some i \<Longrightarrow> \<exists>u v. s = u @ p @ v \<and> length u = i"
proof (induction p s arbitrary: i rule: str_find_str.induct)
  case (1 p)
  then show ?case by (auto split: if_splits)
next
  case (2 p x xs)
  show ?case
  proof (cases "starts_with p (x # xs)")
    case True
    then show ?thesis using "2.prems" by (auto simp: starts_with_iff prefix_def intro!: exI[of _ "[]"])
  next
    case False
    then obtain j where "str_find_str p xs = Some j" "i = Suc j" using "2.prems" by auto
    then obtain u v where "xs = u @ p @ v" "length u = j" using "2.IH"[OF False] by blast
    then show ?thesis using \<open>i = Suc j\<close> by (intro exI[of _ "x # u"] exI[of _ v]) simp
  qed
qed

lemma str_find_str_least:
  "case str_find_str p (u @ p @ v) of Some i \<Rightarrow> i \<le> length u | None \<Rightarrow> False"
proof (induction u)
  case Nil
  have "starts_with p (p @ v)" by (simp add: starts_with_iff)
  then show ?case by (cases "p @ v") auto
next
  case (Cons x u)
  then show ?case by (auto split: option.splits)
qed

lemma word_at_spec:
  assumes "utf8 u" "utf8 p" "utf8 v" "p \<noteq> []"
  shows "word_at uni (u @ p @ v) p (length u) = Ok (word_sep uni u p \<and> word_sep uni p v)"
proof -
  have pv: "utf8 (p @ v)" "utf8 (u @ p)" using assms utf8_append by auto
  have hdp: "first_char (p @ v) = hd (chars p)"
    using utf8_first[OF assms(2,4)] by (auto simp: uchar_append)
  have start: "word_boundary_start uni (u @ p @ v) (length u) = Ok (word_sep uni u p)"
    using char_at_at[OF pv(1), of u] find_prev_char_at[OF assms(1) pv(1)] assms(4)
    by (auto simp: word_boundary_start_def hdp word_sep_def)
  have lastp: "last (chars (u @ p)) = last (chars p)"
    using utf8_first[OF assms(2,4)] by (auto simp: chars_append[OF assms(1)] uchar_append)
  have prev: "find_prev_char (u @ p @ v) (length u + length p) = Ok (Some (last (chars p)))"
    using find_prev_char_at[OF pv(2) assms(3)] assms(4) lastp by simp
  have "word_boundary_end uni (u @ p @ v) (length u + length p) = Ok (word_sep uni p v)"
  proof (cases "v = []")
    case False
    have "first_char v = hd (chars v)" using utf8_first[OF assms(3) False] by (auto simp: uchar_append)
    moreover have "char_at (u @ p @ v) (length u + length p) = Ok (first_char v)"
      using char_at_at[OF assms(3) False, of "u @ p"] by simp
    ultimately show ?thesis using False prev assms(4) by (simp add: word_boundary_end_def word_sep_def)
  qed (simp add: word_boundary_end_def word_sep_def)
  then show ?thesis using start by (simp add: word_at_def)
qed

lemma next_word_spec:
  assumes "utf8 y"
  shows "\<exists>r. next_word uni (x @ y) (length x) = Ok r \<and>
    (case r of None \<Rightarrow> skip_word (word_chunk uni) (chunks y) = []
     | Some rest \<Rightarrow> utf8 rest \<and> chunks rest = skip_word (word_chunk uni) (chunks y))"
proof -
  have sl: "slice_from (x @ y) (length x) = (Ok y :: (string, unit) result)"
    using boundary_at[OF assms, of x] by (simp add: slice_from_def)
  show ?thesis
  proof (cases "find_char (\<lambda>c. \<not> is_word_char uni c) y")
    case None
    have d: "dropWhile (word_chunk uni) (chunks y) = []"
      using find_char_end[OF None assms] unfolding not_not .
    show ?thesis unfolding skip_word_def d using None
      by (intro exI[of _ None]) (simp add: next_word_def sl)
  next
    case (Some n)
    note n = find_char_found[OF Some assms, unfolded not_not]
    then have u: "utf8 (drop n y)" using utf8_cut[OF assms] by blast
    have sn: "slice_from y n = (Ok (drop n y) :: (string, unit) result)" using n(1) by (simp add: slice_from_def)
    show ?thesis
    proof (cases "find_char (is_word_char uni) (drop n y)")
      case None
      have d: "skip_word (word_chunk uni) (chunks y) = []"
        using find_char_end[OF None u] unfolding skip_word_def n(2) .
      show ?thesis unfolding d using None \<open>find_char _ y = Some n\<close>
        by (intro exI[of _ None]) (simp add: next_word_def sl sn)
    next
      case (Some m)
      note m = find_char_found[OF Some u]
      have sm: "slice_from (drop n y) m = (Ok (drop m (drop n y)) :: (string, unit) result)"
        using m(1) by (simp add: slice_from_def)
      have "next_word uni (x @ y) (length x) = Ok (Some (drop m (drop n y)))"
        using \<open>find_char _ y = Some n\<close> Some sl sn sm by (simp add: next_word_def)
      moreover have "utf8 (drop m (drop n y))" using utf8_cut[OF u m(1)] by blast
      ultimately show ?thesis using m(2) n(2)
        by (intro exI[of _ "Some (drop m (drop n y))"]) (simp only: skip_word_def option.case simp_thms)
    qed
  qed
qed

lemma matches_word_occurs:
  assumes "utf8 s" "utf8 p" "p \<noteq> []"
  shows "matches_word uni s p = Ok (word_occurs uni p s)"
  using assms(1)
proof (induction "length s" arbitrary: s rule: less_induct)
  case less
  show ?case
  proof (cases "s = p")
    case True
    then have "word_occurs uni p s"
      unfolding word_occurs_def by (intro exI[of _ "[]"]) (simp add: word_sep_def)
    then show ?thesis using True by (subst matches_word.simps) simp
  next
    case False
    show ?thesis
    proof (cases "str_find_str p s")
      case None
      then have "s \<noteq> u @ p @ v" for u v using str_find_str_least[of u p v] by auto
      then have "\<not> word_occurs uni p s" unfolding word_occurs_def by blast
      then show ?thesis using None False assms(3) by (subst matches_word.simps) simp
    next
      case (Some i)
      then obtain u v where s: "s = u @ p @ v" "length u = i" using str_find_str_Some by blast
      have uv: "utf8 u" "utf8 v" using occurrence_utf8[OF less.prems[unfolded s(1)] assms(2,3)] .
      have pv: "utf8 (p @ v)" unfolding utf8_append[OF assms(2)] by (rule uv(2))
      have at: "word_at uni s p i = Ok (word_sep uni u p \<and> word_sep uni p v)"
        using word_at_spec[OF uv(1) assms(2) uv(2) assms(3)] s by simp
      show ?thesis
      proof (cases "word_sep uni u p \<and> word_sep uni p v")
        case True
        then have "word_occurs uni p s" using s(1) by (auto simp: word_occurs_def)
        then show ?thesis using Some at True False assms(3) by (subst matches_word.simps) simp
      next
        case bad: False
        let ?W = "word_chunk uni"
        have ch: "chunks s = chunks u @ chunks p @ chunks v" 
          unfolding s(1) chunks_append[OF uv(1)] chunks_append[OF assms(2)] ..
        have pv_ch: "chunks (p @ v) = chunks p @ chunks v" using assms(2) by (rule chunks_append)
        have first: "length (chunks u) \<le> length us'" if e: "chunks u @ chunks p @ chunks v = us' @ chunks p @ vs'" for us' vs'
        proof (rule ccontr)
          assume "\<not> length (chunks u) \<le> length us'"
          then obtain d where d: "chunks u = us' @ d" "d \<noteq> []"
            using e by (metis append_eq_append_conv2 append_Nil2 le_refl length_append nat_le_linear trans_le_add1)
          have "s = concat us' @ p @ concat vs'" using concat_chunks[of s] ch e by simp
          then have "i \<le> length (concat us')" using str_find_str_least[of "concat us'" p "concat vs'"] Some by simp
          moreover have "length (concat us') < length u"
          proof -
            have "concat d \<noteq> []" using d chunks_uchars[OF uv(1)] by (cases d) (auto simp: uchar_def)
            then show ?thesis using concat_chunks[of u] d(1) by (metis concat_append length_append length_greater_0_conv less_add_same_cancel1)
          qed
          ultimately show False using s(2) by simp
        qed
        have "chunks p \<noteq> []" using assms(3) by simp
        moreover have "\<not> (sep ?W (chunks u) (chunks p) \<and> sep ?W (chunks p) (chunks v))"
          using bad word_sep_chunks uv assms(2) by simp
        ultimately have step: "occurs ?W (chunks p) (chunks s) \<longleftrightarrow> occurs ?W (chunks p) (skip_word ?W (chunks (p @ v)))"
          unfolding ch pv_ch using first by (intro occurs_step) auto
        obtain r where r: "next_word uni s i = Ok r"
            "case r of None \<Rightarrow> skip_word ?W (chunks (p @ v)) = []
             | Some rest \<Rightarrow> utf8 rest \<and> chunks rest = skip_word ?W (chunks (p @ v))"
          using next_word_spec[OF pv, of uni u] s by auto
        have m: "matches_word uni s p = (case r of None \<Rightarrow> Ok False | Some rest \<Rightarrow> matches_word uni rest p)"
          using Some at bad False assms(3) r(1) by (subst matches_word.simps) (auto split: option.split)
        show ?thesis
        proof (cases r)
          case None
          then have "\<not> occurs ?W (chunks p) (skip_word ?W (chunks (p @ v)))"
            using r(2) assms(3) by (simp add: occurs_def)
          then show ?thesis using m None step word_occurs_chunks[OF less.prems assms(2,3)] by simp
        next
          case (Some rest)
          then have "length rest < length s" "utf8 rest" using next_word_shorter r by auto
          then have "matches_word uni rest p = Ok (word_occurs uni p rest)" by (rule less.hyps)
          moreover have "word_occurs uni p rest \<longleftrightarrow> word_occurs uni p s"
            using word_occurs_chunks[OF _ assms(2,3)] less.prems \<open>utf8 rest\<close> step r(2) Some by simp
          ultimately show ?thesis using m Some by simp
        qed
      qed
    qed
  qed
qed

lemma matches_word_total:
  assumes "utf8 s" "utf8 p"
  shows "matches_word uni s p = Ok (s = p \<or> p \<noteq> [] \<and> word_occurs uni p s)"
proof (cases "p = []")
  case True
  then show ?thesis by (subst matches_word.simps) simp
next
  case False
  have "s = p \<Longrightarrow> word_occurs uni p s"
    unfolding word_occurs_def by (intro exI[of _ "[]"]) (simp add: word_sep_def)
  then show ?thesis using matches_word_occurs[OF assms False] False by auto
qed

text \<open>The word search of push conditions, which jumps from word to word on byte indices, never panics on valid
  strings and finds the pattern exactly when it is the whole text, or occurs in it with no word running across either
  end of the occurrence; an empty pattern only matches an empty text.\<close>

lemma matches_word_spec:
  assumes "utf8 s" "utf8 p"
  shows "matches_word uni s p = Ok (s = p \<or> p \<noteq> [] \<and> word_occurs uni p s)"
  by (rule matches_word_total[OF assms])

lemma matches_word_spec_witness:
  "matches_word (\<lambda>_. False) ''foobar @room'' ''@room'' =
     Ok (''foobar @room'' = ''@room'' \<or> ''@room'' \<noteq> [] \<and> word_occurs (\<lambda>_. False) ''@room'' ''foobar @room'')"
  by (rule matches_word_spec) code_simp+

end
