(* ===== verification/Push_Conditions.thy ===== *)
theory Push_Conditions
  imports Word_Match Room_Events
begin

text \<open>The conditions of push rules: \<^verbatim>\<open>ruma-common/src/push/condition.rs\<close> (without the word search, which is
  \<^verbatim>\<open>Word_Match\<close>) and \<^verbatim>\<open>push/condition/room_member_count_is.rs\<close>.  The glob matcher of the crate \<^verbatim>\<open>wildmatch\<close>,
  the numbers of \<^verbatim>\<open>js_int\<close>, the printed form of \<^verbatim>\<open>serde_json\<close> numbers and the Unicode part of \<open>to_lowercase\<close> and
  \<open>is_alphanumeric\<close> are parameters.  A condition may panic, by the \<open>Panic\<close> of the string functions; that it does
  not is a theorem.\<close>

section \<open>Text matching\<close>

record text_env =
  env_alphanumeric :: "nat \<Rightarrow> bool"
  env_lowercase :: "string \<Rightarrow> string"
  env_wild_match :: "string \<Rightarrow> string \<Rightarrow> bool"

definition to_lowercase :: "text_env \<Rightarrow> string \<Rightarrow> string" where
  "to_lowercase E s = (if is_ascii s then map ascii_lower s else env_lowercase E s)"

definition matches_pattern :: "text_env \<Rightarrow> string \<Rightarrow> string \<Rightarrow> bool \<Rightarrow> (bool, unit) result" where
  "matches_pattern E s pat match_words =
     (let value = to_lowercase E s; pat' = to_lowercase E pat in
      if match_words then matches_word (env_alphanumeric E) value pat'
      else Ok (env_wild_match E pat' value))"

section \<open>Flattened events\<close>

type_synonym flattened = "(string, string) btree"

definition sub_path :: "string \<Rightarrow> string \<Rightarrow> string" where
  "sub_path path key = (if path = [] then key else path @ ''.'' @ key)"

fun flatten_value :: "(json_number \<Rightarrow> string) \<Rightarrow> json \<Rightarrow> string \<Rightarrow> flattened \<Rightarrow> flattened" where
  "flatten_value shown (JObject entries) path m =
     fold (\<lambda>kv m. flatten_value shown (snd kv) (sub_path path (fst kv)) m) entries m"
| "flatten_value shown (JString s) path m = bt_insert path s m"
| "flatten_value shown (JNumber n) path m = bt_insert path (shown n) m"
| "flatten_value shown (JBool b) path m = bt_insert path (if b then ''true'' else ''false'') m"
| "flatten_value shown (JArray xs) path m = m"
| "flatten_value shown JNull path m = m"

text \<open>\<open>from_raw\<close>: \<open>to_value\<close> parses the text kept by \<^verbatim>\<open>Raw\<close>, and its error is unwrapped.\<close>

definition flattened_from_raw ::
    "(json_number \<Rightarrow> string) \<Rightarrow> (string \<Rightarrow> json option) \<Rightarrow> string \<Rightarrow> (flattened, unit) result" where
  "flattened_from_raw shown to_value raw = and_then (unwrap (to_value raw)) (\<lambda>v. Ok (flatten_value shown v [] []))"

definition flattened_get :: "flattened \<Rightarrow> string \<Rightarrow> string option" where
  "flattened_get m path = bt_get m path"

section \<open>Member counts\<close>

datatype comparison_operator = OpEq | OpLt | OpGt | OpGe | OpLe

definition comparison_operator_default :: comparison_operator where
  "comparison_operator_default = OpEq"

record room_member_count_is =
  mc_prefix :: comparison_operator
  mc_count :: nat

definition member_count_gt :: "nat \<Rightarrow> room_member_count_is" where
  "member_count_gt n = \<lparr>mc_prefix = OpGt, mc_count = n\<rparr>"

definition member_count_from :: "nat \<Rightarrow> room_member_count_is" where
  "member_count_from n = \<lparr>mc_prefix = OpEq, mc_count = n\<rparr>"

text \<open>The conversions from \<open>x..\<close>, \<open>..x\<close> and \<open>..=x\<close>.\<close>

definition member_count_range_from :: "nat \<Rightarrow> room_member_count_is" where
  "member_count_range_from n = \<lparr>mc_prefix = OpGe, mc_count = n\<rparr>"

definition member_count_range_to :: "nat \<Rightarrow> room_member_count_is" where
  "member_count_range_to n = \<lparr>mc_prefix = OpLt, mc_count = n\<rparr>"

definition member_count_range_to_inclusive :: "nat \<Rightarrow> room_member_count_is" where
  "member_count_range_to_inclusive n = \<lparr>mc_prefix = OpLe, mc_count = n\<rparr>"

fun op_prefix :: "comparison_operator \<Rightarrow> string" where
  "op_prefix OpEq = ''''"
| "op_prefix OpLt = ''<''"
| "op_prefix OpGt = ''>''"
| "op_prefix OpGe = ''>=''"
| "op_prefix OpLe = ''<=''"

definition member_count_display :: "(nat \<Rightarrow> string) \<Rightarrow> room_member_count_is \<Rightarrow> string" where
  "member_count_display uint_shown c = op_prefix (mc_prefix c) @ uint_shown (mc_count c)"

definition member_count_from_str ::
    "(string \<Rightarrow> (nat, 'e) result) \<Rightarrow> string \<Rightarrow> (room_member_count_is, 'e) result" where
  "member_count_from_str uint_from_str s =
     and_then (if starts_with ''<='' s then and_then (slice_from s 2) (\<lambda>t. Ok (OpLe, t))
               else if starts_with ''<'' s then and_then (slice_from s 1) (\<lambda>t. Ok (OpLt, t))
               else if starts_with ''>='' s then and_then (slice_from s 2) (\<lambda>t. Ok (OpGe, t))
               else if starts_with ''>'' s then and_then (slice_from s 1) (\<lambda>t. Ok (OpGt, t))
               else if starts_with ''=='' s then and_then (slice_from s 2) (\<lambda>t. Ok (OpEq, t))
               else Ok (OpEq, s)) (\<lambda>(op, count_str).
     and_then (uint_from_str count_str) (\<lambda>n. Ok \<lparr>mc_prefix = op, mc_count = n\<rparr>))"

datatype bound = Included nat | Excluded nat | Unbounded

definition start_bound :: "room_member_count_is \<Rightarrow> bound" where
  "start_bound c = (case mc_prefix c of
     OpEq \<Rightarrow> Included (mc_count c)
   | OpLt \<Rightarrow> Unbounded
   | OpLe \<Rightarrow> Unbounded
   | OpGt \<Rightarrow> Excluded (mc_count c)
   | OpGe \<Rightarrow> Included (mc_count c))"

definition end_bound :: "room_member_count_is \<Rightarrow> bound" where
  "end_bound c = (case mc_prefix c of
     OpEq \<Rightarrow> Included (mc_count c)
   | OpGt \<Rightarrow> Unbounded
   | OpGe \<Rightarrow> Unbounded
   | OpLt \<Rightarrow> Excluded (mc_count c)
   | OpLe \<Rightarrow> Included (mc_count c))"

text \<open>\<open>RangeBounds::contains\<close> of the standard library.\<close>

definition range_contains :: "bound \<Rightarrow> bound \<Rightarrow> nat \<Rightarrow> bool" where
  "range_contains lo hi x \<longleftrightarrow>
     (case lo of Included a \<Rightarrow> a \<le> x | Excluded a \<Rightarrow> a < x | Unbounded \<Rightarrow> True)
     \<and> (case hi of Included b \<Rightarrow> x \<le> b | Excluded b \<Rightarrow> x < b | Unbounded \<Rightarrow> True)"

definition member_count_contains :: "room_member_count_is \<Rightarrow> nat \<Rightarrow> bool" where
  "member_count_contains c x = range_contains (start_bound c) (end_bound c) x"

section \<open>Conditions\<close>

datatype push_condition =
    EventMatch string string
  | ContainsDisplayName
  | RoomMemberCount room_member_count_is
  | SenderNotificationPermission string

record push_ctx =
  ctx_room_id :: string
  ctx_member_count :: nat
  ctx_display_name :: string
  ctx_users_levels :: "(string, int) btree"
  ctx_default_level :: int
  ctx_notification_levels :: int

definition check_event_match ::
    "text_env \<Rightarrow> flattened \<Rightarrow> string \<Rightarrow> string \<Rightarrow> push_ctx \<Rightarrow> (bool, unit) result" where
  "check_event_match E event key pat ctx =
     (case (if key = ''room_id'' then Some (ctx_room_id ctx) else flattened_get event key) of
        None \<Rightarrow> Ok False
      | Some value \<Rightarrow> matches_pattern E value pat (key = ''content.body''))"

fun condition_applies :: "text_env \<Rightarrow> flattened \<Rightarrow> push_ctx \<Rightarrow> push_condition \<Rightarrow> (bool, unit) result" where
  "condition_applies E event ctx (EventMatch key pat) = check_event_match E event key pat ctx"
| "condition_applies E event ctx ContainsDisplayName =
     (case flattened_get event ''content.body'' of
        None \<Rightarrow> Ok False
      | Some value \<Rightarrow> matches_pattern E value (ctx_display_name ctx) True)"
| "condition_applies E event ctx (RoomMemberCount c) = Ok (member_count_contains c (ctx_member_count ctx))"
| "condition_applies E event ctx (SenderNotificationPermission key) =
     (case flattened_get event ''sender'' of
        None \<Rightarrow> Ok False
      | Some v \<Rightarrow>
          (case parse_validated user_id_validate v of
             Err e \<Rightarrow> Ok False
           | Panic \<Rightarrow> Panic
           | Ok sender_id \<Rightarrow>
               (let sender_level = (case bt_get (ctx_users_levels ctx) sender_id of
                      Some l \<Rightarrow> l | None \<Rightarrow> ctx_default_level ctx) in
                case notification_get (ctx_notification_levels ctx) key of
                  Some l \<Rightarrow> Ok (l \<le> sender_level)
                | None \<Rightarrow> Ok False)))"

text \<open>\<open>iter().all\<close> stops at the first condition that fails.\<close>

fun all_apply :: "text_env \<Rightarrow> flattened \<Rightarrow> push_ctx \<Rightarrow> push_condition list \<Rightarrow> (bool, unit) result" where
  "all_apply E event ctx [] = Ok True"
| "all_apply E event ctx (c # cs) =
     and_then (condition_applies E event ctx c) (\<lambda>b. if b then all_apply E event ctx cs else Ok False)"

section \<open>Conditions as JSON\<close>

text \<open>The derived implementations for \<open>#[serde(tag = "kind", rename_all = "snake_case")]\<close>, on objects.\<close>

definition condition_to_json :: "(nat \<Rightarrow> string) \<Rightarrow> push_condition \<Rightarrow> json" where
  "condition_to_json uint_shown c = JObject (bt_of_list (case c of
     EventMatch key pat \<Rightarrow>
       [(''kind'', JString ''event_match''), (''key'', JString key), (''pattern'', JString pat)]
   | ContainsDisplayName \<Rightarrow> [(''kind'', JString ''contains_display_name'')]
   | RoomMemberCount mc \<Rightarrow>
       [(''kind'', JString ''room_member_count''), (''is'', JString (member_count_display uint_shown mc))]
   | SenderNotificationPermission key \<Rightarrow>
       [(''kind'', JString ''sender_notification_permission''), (''key'', JString key)]))"

definition de_member_count ::
    "(string \<Rightarrow> (nat, 'e) result) \<Rightarrow> json \<Rightarrow> room_member_count_is option" where
  "de_member_count uint_from_str v = Option.bind (de_string v) (\<lambda>s.
     case member_count_from_str uint_from_str s of Ok c \<Rightarrow> Some c | _ \<Rightarrow> None)"

definition de_condition :: "(string \<Rightarrow> (nat, 'e) result) \<Rightarrow> content \<Rightarrow> push_condition option" where
  "de_condition uint_from_str m = Option.bind (de_req de_string m ''kind'') (\<lambda>kind.
     if kind = ''event_match'' then
       Option.bind (de_req de_string m ''key'') (\<lambda>key.
       Option.bind (de_req de_string m ''pattern'') (\<lambda>pat. Some (EventMatch key pat)))
     else if kind = ''contains_display_name'' then Some ContainsDisplayName
     else if kind = ''room_member_count'' then
       Option.bind (de_req (de_member_count uint_from_str) m ''is'') (\<lambda>c. Some (RoomMemberCount c))
     else if kind = ''sender_notification_permission'' then
       Option.bind (de_req de_string m ''key'') (\<lambda>key. Some (SenderNotificationPermission key))
     else None)"

section \<open>Paths of a JSON value\<close>

text \<open>The texts at the leaves of a value with the keys that lead to them; arrays and nulls have none.\<close>

fun leaf_text :: "(json_number \<Rightarrow> string) \<Rightarrow> json \<Rightarrow> string option" where
  "leaf_text shown (JString s) = Some s"
| "leaf_text shown (JNumber n) = Some (shown n)"
| "leaf_text shown (JBool b) = Some (if b then ''true'' else ''false'')"
| "leaf_text shown _ = None"

fun leaves :: "(json_number \<Rightarrow> string) \<Rightarrow> json \<Rightarrow> (string list \<times> string) list" where
  "leaves shown (JObject entries) =
     concat (map (\<lambda>kv. map (\<lambda>kl. (fst kv # fst kl, snd kl)) (leaves shown (snd kv))) entries)"
| "leaves shown v = (case leaf_text shown v of Some s \<Rightarrow> [([], s)] | None \<Rightarrow> [])"

fun json_at :: "string list \<Rightarrow> json \<Rightarrow> json option" where
  "json_at [] v = Some v"
| "json_at (k # ks) (JObject entries) = Option.bind (map_of entries k) (json_at ks)"
| "json_at (k # ks) _ = None"

definition join_path :: "string \<Rightarrow> string list \<Rightarrow> string" where
  "join_path path ks = fold (\<lambda>k p. sub_path p k) ks path"

definition plain_key :: "string \<Rightarrow> bool" where
  "plain_key k \<longleftrightarrow> k \<noteq> [] \<and> CHR ''.'' \<notin> set k"

fun plain_json :: "json \<Rightarrow> bool" where
  "plain_json (JObject entries) \<longleftrightarrow>
     distinct (map fst entries) \<and> list_all (\<lambda>kv. plain_key (fst kv) \<and> plain_json (snd kv)) entries"
| "plain_json _ = True"

lemma join_path_Cons [simp]: "join_path path (k # ks) = join_path (sub_path path k) ks"
  and join_path_Nil [simp]: "join_path path [] = path"
  by (simp_all add: join_path_def)

lemma flatten_value_leaves:
  "flatten_value shown v path m =
     fold (\<lambda>(k, x). bt_insert k x) (map (\<lambda>kl. (join_path path (fst kl), snd kl)) (leaves shown v)) m"
proof (induction shown v path m rule: flatten_value.induct)
  case (1 shown entries path m)
  have step: "flatten_value shown (snd kv) (sub_path path (fst kv)) m' =
      fold (\<lambda>(k, x). bt_insert k x)
        (map (\<lambda>kl. (join_path path (fst kl), snd kl))
          (map (\<lambda>kl. (fst kv # fst kl, snd kl)) (leaves shown (snd kv)))) m'"
    if kv: "kv \<in> set entries" for kv m'
    using "1.IH"[OF kv] by (simp add: comp_def)
  have "fold (\<lambda>kv m. flatten_value shown (snd kv) (sub_path path (fst kv)) m) es m' =
      fold (\<lambda>(k, x). bt_insert k x) (map (\<lambda>kl. (join_path path (fst kl), snd kl)) (leaves shown (JObject es))) m'"
    if "set es \<subseteq> set entries" for es m'
    using that
  proof (induction es arbitrary: m')
    case (Cons kv es)
    then show ?case using step[of kv] by simp
  qed simp
  then show ?case by simp
qed simp_all

lemma flattened_get_leaves:
  "flattened_get (flatten_value shown v [] []) path =
     map_of (rev (map (\<lambda>kl. (join_path [] (fst kl), snd kl)) (leaves shown v))) path"
  unfolding flattened_get_def flatten_value_leaves using bt_get_of_list by (simp add: bt_of_list_def)

text \<open>Paths made of keys without dots are read back in one way.\<close>

lemma join_path_prefix: "p \<noteq> [] \<Longrightarrow> join_path p ks = p @ concat (map (Cons (CHR ''.'')) ks)"
  by (induction ks arbitrary: p) (simp_all add: sub_path_def)

lemma dotted_inj:
  assumes "list_all plain_key ks" "list_all plain_key ls"
    and "concat (map (Cons (CHR ''.'')) ks) = concat (map (Cons (CHR ''.'')) ls)"
  shows "ks = ls"
  using assms
proof (induction ks arbitrary: ls)
  case Nil
  then show ?case by (cases ls) auto
next
  case (Cons k ks)
  then obtain l ls' where l: "ls = l # ls'" by (cases ls) auto
  let ?c = "\<lambda>xs. concat (map (Cons (CHR ''.'')) xs)"
  have d: "?c xs = [] \<or> (\<exists>t. ?c xs = CHR ''.'' # t)" for xs by (cases xs) auto
  have e: "k @ ?c ks = l @ ?c ls'" using Cons.prems(3) l by simp
  have n: "CHR ''.'' \<notin> set k" "CHR ''.'' \<notin> set l" using Cons.prems(1,2) l by (auto simp: plain_key_def)
  have "takeWhile (\<lambda>c. c \<noteq> CHR ''.'') (k @ ?c ks) = k" "takeWhile (\<lambda>c. c \<noteq> CHR ''.'') (l @ ?c ls') = l"
    using d[of ks] d[of ls'] n by (auto simp: takeWhile_tail)
  then have "k = l" using e by metis
  then show ?case using Cons.IH[of ls'] Cons.prems(1,2) e l by simp
qed

lemma join_path_inj:
  assumes "list_all plain_key ks" "list_all plain_key ls" "join_path [] ks = join_path [] ls"
  shows "ks = ls"
proof (cases "ks = [] \<or> ls = []")
  case True
  have "join_path [] (x # xs) \<noteq> []" if "plain_key x" for x xs
    using that by (simp add: sub_path_def plain_key_def join_path_prefix)
  then show ?thesis using True assms by (cases ks; cases ls) (auto, metis+)
next
  case False
  then obtain k ks' l ls' where kl: "ks = k # ks'" "ls = l # ls'" by (cases ks; cases ls) auto
  have "CHR ''.'' # join_path [] ks = concat (map (Cons (CHR ''.'')) ks)"
       "CHR ''.'' # join_path [] ls = concat (map (Cons (CHR ''.'')) ls)"
    using assms(1,2) by (simp_all add: kl sub_path_def plain_key_def join_path_prefix)
  then show ?thesis using dotted_inj[OF assms(1,2)] assms(3) by simp
qed

lemma leaves_plain: "plain_json v \<Longrightarrow> kl \<in> set (leaves shown v) \<Longrightarrow> list_all plain_key (fst kl)"
  by (induction shown v arbitrary: kl rule: leaves.induct) (force simp: list_all_iff split: if_splits)+

lemma leaves_at:
  "plain_json v \<Longrightarrow> (ks, x) \<in> set (leaves shown v) \<longleftrightarrow> Option.bind (json_at ks v) (leaf_text shown) = Some x"
proof (induction shown v arbitrary: ks x rule: leaves.induct)
  case (1 shown entries)
  have d: "distinct (map fst entries)" and p: "\<And>kv. kv \<in> set entries \<Longrightarrow> plain_json (snd kv)"
    using "1.prems" by (auto simp: list_all_iff)
  show ?case
  proof (cases ks)
    case (Cons k ks')
    have "(ks, x) \<in> set (leaves shown (JObject entries)) \<longleftrightarrow>
        (\<exists>v. (k, v) \<in> set entries \<and> (ks', x) \<in> set (leaves shown v))"
      using Cons by force
    also have "\<dots> \<longleftrightarrow> (\<exists>v. (k, v) \<in> set entries \<and> Option.bind (json_at ks' v) (leaf_text shown) = Some x)"
      using "1.IH" p by (metis snd_conv)
    also have "\<dots> \<longleftrightarrow> Option.bind (json_at ks (JObject entries)) (leaf_text shown) = Some x"
      using Cons unfolding map_of_eq_Some_iff[OF d, symmetric] by (cases "map_of entries k") simp_all
    finally show ?thesis .
  qed auto
qed (case_tac ks; auto)+

lemma map_of_functional:
  assumes "\<And>x y. (k, x) \<in> set xs \<Longrightarrow> (k, y) \<in> set xs \<Longrightarrow> x = y"
  shows "map_of xs k = Some x \<longleftrightarrow> (k, x) \<in> set xs"
  using assms by (metis map_of_SomeD weak_map_of_SomeI option.inject)

text \<open>In an event whose object keys are all distinct, non-empty and free of dots, the flattened map gives at a
  dotted path exactly the string, number or boolean found by following the keys of the path through the objects, and
  nothing for objects, arrays, nulls and absent keys.\<close>

lemma flattened_lookup:
  assumes "plain_json v" "list_all plain_key ks"
  shows "flattened_get (flatten_value shown v [] []) (join_path [] ks) =
    Option.bind (json_at ks v) (leaf_text shown)"
proof -
  let ?xs = "rev (map (\<lambda>kl. (join_path [] (fst kl), snd kl)) (leaves shown v))"
  have mem: "(join_path [] ks, x) \<in> set ?xs \<longleftrightarrow> Option.bind (json_at ks v) (leaf_text shown) = Some x" for x
  proof -
    have "(join_path [] ks, x) \<in> set ?xs \<longleftrightarrow> (\<exists>ls. (ls, x) \<in> set (leaves shown v) \<and> join_path [] ks = join_path [] ls)"
      by force
    also have "\<dots> \<longleftrightarrow> (ks, x) \<in> set (leaves shown v)"
      using join_path_inj[OF assms(2)] leaves_plain[OF assms(1)] by (metis fst_conv)
    finally show ?thesis using leaves_at[OF assms(1)] by simp
  qed
  have "map_of ?xs (join_path [] ks) = Some x \<longleftrightarrow> Option.bind (json_at ks v) (leaf_text shown) = Some x" for x
    using mem by (subst map_of_functional) auto
  then show ?thesis unfolding flattened_get_leaves by (metis option.exhaust)
qed

lemma flattened_lookup_witness:
  "flattened_get (flatten_value (\<lambda>_. ''7'')
       (JObject [(''content'', JObject [(''body'', JString ''hi''), (''n'', JNumber (PosInt 7))]), (''type'', JNull)]) [] [])
     (join_path [] [''content'', ''body'']) =
   Option.bind (json_at [''content'', ''body'']
       (JObject [(''content'', JObject [(''body'', JString ''hi''), (''n'', JNumber (PosInt 7))]), (''type'', JNull)]))
     (leaf_text (\<lambda>_. ''7''))"
  by (rule flattened_lookup) (simp_all add: plain_key_def)

section \<open>Member counts and their text\<close>

lemma member_count_contains_iff:
  "member_count_contains c x \<longleftrightarrow>
     (case mc_prefix c of
        OpEq \<Rightarrow> x = mc_count c | OpLt \<Rightarrow> x < mc_count c | OpGt \<Rightarrow> mc_count c < x
      | OpGe \<Rightarrow> mc_count c \<le> x | OpLe \<Rightarrow> x \<le> mc_count c)"
  by (auto simp: member_count_contains_def range_contains_def start_bound_def end_bound_def
      split: comparison_operator.splits)

lemma digits_prefix:
  assumes "list_all is_digit t"
  shows "\<not> starts_with (CHR ''<'' # p) t" "\<not> starts_with (CHR ''>'' # p) t" "\<not> starts_with (CHR ''='' # p) t"
    "is_char_boundary (u @ t) (length u)"
proof -
  have "is_char_boundary (u @ t) (length u)"
  proof (rule boundary_at, rule is_ascii_utf8)
    show "is_ascii t" using assms by (auto simp: is_ascii_def is_digit_def list_all_iff)
  qed
  then show "is_char_boundary (u @ t) (length u)" .
qed (use assms in \<open>cases t; auto simp: is_digit_def\<close>)+

lemma member_count_roundtrip:
  assumes "list_all is_digit (uint_shown (mc_count c))" "uint_from_str (uint_shown (mc_count c)) = Ok (mc_count c)"
  shows "member_count_from_str uint_from_str (member_count_display uint_shown c) = Ok c"
proof -
  note d = digits_prefix[OF assms(1)]
  have b: "is_char_boundary (x # uint_shown (mc_count c)) (Suc 0)"
      "is_char_boundary (x # y # uint_shown (mc_count c)) (Suc (Suc 0))" for x y
    using d(4)[of "[x]"] d(4)[of "[x, y]"] by simp_all
  show ?thesis
    by (cases c; cases "mc_prefix c")
       (use assms(2) d b in \<open>auto simp: member_count_from_str_def member_count_display_def slice_from_def numeral_2_eq_2\<close>)
qed

text \<open>Reading back the JSON of a push condition gives the condition, for every kind, when the printed member
  counts are decimal digits that are parsed back.\<close>

lemma condition_json_roundtrip:
  assumes "\<And>mc. c = RoomMemberCount mc \<Longrightarrow> list_all is_digit (uint_shown (mc_count mc))
      \<and> uint_from_str (uint_shown (mc_count mc)) = Ok (mc_count mc)"
  shows "\<exists>m. condition_to_json uint_shown c = JObject m \<and> de_condition uint_from_str m = Some c"
proof (cases c)
  case (RoomMemberCount mc)
  then have "member_count_from_str uint_from_str (member_count_display uint_shown mc) = Ok mc"
    using assms member_count_roundtrip by blast
  then show ?thesis using RoomMemberCount
    by (simp add: condition_to_json_def de_condition_def de_req_def de_member_count_def bt_get_of_list)
qed (simp_all add: condition_to_json_def de_condition_def de_req_def bt_get_of_list)

lemma condition_json_roundtrip_witness:
  "\<exists>m. condition_to_json (\<lambda>n. if n = 2 then ''2'' else ''10'') (RoomMemberCount (member_count_gt 2)) = JObject m
     \<and> de_condition (\<lambda>s. if s = ''2'' then Ok 2 else Err ()) m = Some (RoomMemberCount (member_count_gt 2))"
  by (rule condition_json_roundtrip) (auto simp: member_count_gt_def is_digit_def)

section \<open>What the conditions mean\<close>

definition env_ok :: "text_env \<Rightarrow> bool" where
  "env_ok E \<longleftrightarrow> (\<forall>s. utf8 s \<longrightarrow> utf8 (env_lowercase E s))"

definition flattened_ok :: "flattened \<Rightarrow> bool" where
  "flattened_ok m \<longleftrightarrow> list_all (\<lambda>kv. utf8 (snd kv)) m"

definition ctx_ok :: "push_ctx \<Rightarrow> bool" where
  "ctx_ok ctx \<longleftrightarrow> utf8 (ctx_room_id ctx) \<and> utf8 (ctx_display_name ctx)"

fun condition_ok :: "push_condition \<Rightarrow> bool" where
  "condition_ok (EventMatch key pat) = utf8 pat"
| "condition_ok _ = True"

text \<open>Whether a text matches, and whether a condition holds, without the byte indices and early returns.\<close>

definition text_matches :: "text_env \<Rightarrow> bool \<Rightarrow> string \<Rightarrow> string \<Rightarrow> bool" where
  "text_matches E match_words pat s \<longleftrightarrow>
     (let p = to_lowercase E pat; t = to_lowercase E s in
      if match_words then t = p \<or> p \<noteq> [] \<and> word_occurs (env_alphanumeric E) p t else env_wild_match E p t)"

definition event_value :: "flattened \<Rightarrow> push_ctx \<Rightarrow> string \<Rightarrow> string option" where
  "event_value event ctx key = (if key = ''room_id'' then Some (ctx_room_id ctx) else flattened_get event key)"

definition event_matches :: "text_env \<Rightarrow> flattened \<Rightarrow> push_ctx \<Rightarrow> string \<Rightarrow> string \<Rightarrow> bool" where
  "event_matches E event ctx key pat \<longleftrightarrow>
     (\<exists>v. event_value event ctx key = Some v \<and> text_matches E (key = ''content.body'') pat v)"

definition user_level :: "push_ctx \<Rightarrow> string \<Rightarrow> int" where
  "user_level ctx u = (case bt_get (ctx_users_levels ctx) u of Some l \<Rightarrow> l | None \<Rightarrow> ctx_default_level ctx)"

fun condition_holds :: "text_env \<Rightarrow> flattened \<Rightarrow> push_ctx \<Rightarrow> push_condition \<Rightarrow> bool" where
  "condition_holds E event ctx (EventMatch key pat) = event_matches E event ctx key pat"
| "condition_holds E event ctx ContainsDisplayName \<longleftrightarrow>
     (\<exists>v. flattened_get event ''content.body'' = Some v \<and> text_matches E True (ctx_display_name ctx) v)"
| "condition_holds E event ctx (RoomMemberCount c) \<longleftrightarrow>
     (case mc_prefix c of
        OpEq \<Rightarrow> ctx_member_count ctx = mc_count c | OpLt \<Rightarrow> ctx_member_count ctx < mc_count c
      | OpGt \<Rightarrow> mc_count c < ctx_member_count ctx
      | OpGe \<Rightarrow> mc_count c \<le> ctx_member_count ctx | OpLe \<Rightarrow> ctx_member_count ctx \<le> mc_count c)"
| "condition_holds E event ctx (SenderNotificationPermission key) \<longleftrightarrow>
     (\<exists>u. flattened_get event ''sender'' = Some u \<and> user_id_validate u = Ok ()) \<and> key = ''room''
     \<and> ctx_notification_levels ctx \<le> user_level ctx (the (flattened_get event ''sender''))"

lemma to_lowercase_utf8: "env_ok E \<Longrightarrow> utf8 s \<Longrightarrow> utf8 (to_lowercase E s)"
  using map_ascii_lower by (auto simp: to_lowercase_def env_ok_def intro!: is_ascii_utf8)

lemma matches_pattern_spec:
  "env_ok E \<Longrightarrow> utf8 s \<Longrightarrow> utf8 pat \<Longrightarrow> matches_pattern E s pat w = Ok (text_matches E w pat s)"
proof -
  assume a: "env_ok E" "utf8 s" "utf8 pat"
  let ?t = "to_lowercase E s" and ?p = "to_lowercase E pat"
  have u: "utf8 ?t" "utf8 ?p" using to_lowercase_utf8 a by blast+
  have "matches_word (env_alphanumeric E) ?t ?p = Ok (?t = ?p \<or> ?p \<noteq> [] \<and> word_occurs (env_alphanumeric E) ?p ?t)"
    using matches_word_total[OF u] .
  then show ?thesis by (simp add: matches_pattern_def text_matches_def Let_def)
qed

lemma flattened_get_utf8: "flattened_ok m \<Longrightarrow> flattened_get m path = Some v \<Longrightarrow> utf8 v"
  unfolding flattened_ok_def flattened_get_def list_all_iff by (metis map_of_SomeD snd_conv)

lemma check_event_match_spec:
  assumes "env_ok E" "flattened_ok event" "ctx_ok ctx" "utf8 pat"
  shows "check_event_match E event key pat ctx = Ok (event_matches E event ctx key pat)"
proof (cases "event_value event ctx key")
  case (Some v)
  then have "utf8 v" using assms(2,3) flattened_get_utf8
    unfolding event_value_def ctx_ok_def by (metis option.inject)
  then show ?thesis using Some matches_pattern_spec[OF assms(1) _ assms(4)]
    by (simp add: check_event_match_def event_matches_def event_value_def[symmetric])
qed (simp add: check_event_match_def event_matches_def event_value_def[symmetric])

lemma condition_applies_spec:
  assumes "env_ok E" "flattened_ok event" "ctx_ok ctx" "condition_ok c"
  shows "condition_applies E event ctx c = Ok (condition_holds E event ctx c)"
proof (cases c)
  case (EventMatch key pat)
  then show ?thesis using check_event_match_spec assms by simp
next
  case ContainsDisplayName
  then show ?thesis using assms matches_pattern_spec flattened_get_utf8
    by (auto simp: ctx_ok_def split: option.splits)
next
  case (RoomMemberCount mc)
  then show ?thesis by (simp add: member_count_contains_iff)
next
  case (SenderNotificationPermission key)
  show ?thesis
  proof (cases "flattened_get event ''sender''")
    case (Some v)
    then show ?thesis using SenderNotificationPermission
      by (cases "user_id_validate v")
         (auto simp: parse_validated_def user_level_def notification_get_def Let_def split: option.splits)
  qed (use SenderNotificationPermission in simp)
qed

lemma all_apply_total:
  assumes "env_ok E" "flattened_ok event" "ctx_ok ctx" "list_all condition_ok cs"
  shows "all_apply E event ctx cs = Ok (list_all (condition_holds E event ctx) cs)"
  using assms(4) by (induction cs) (simp_all add: condition_applies_spec[OF assms(1-3)])

text \<open>What is relied on of \<^verbatim>\<open>wildmatch\<close>: without \<^verbatim>\<open>*\<close> and \<^verbatim>\<open>?\<close> a pattern matches itself only.\<close>

definition literal_globs :: "text_env \<Rightarrow> bool" where
  "literal_globs E \<longleftrightarrow> (\<forall>p s. CHR ''*'' \<notin> set p \<longrightarrow> CHR ''?'' \<notin> set p \<longrightarrow> env_wild_match E p s = (s = p))"

definition plain_pattern :: "text_env \<Rightarrow> string \<Rightarrow> bool" where
  "plain_pattern E pat \<longleftrightarrow> CHR ''*'' \<notin> set (to_lowercase E pat) \<and> CHR ''?'' \<notin> set (to_lowercase E pat)"

lemma plain_event_match:
  assumes "literal_globs E" "plain_pattern E pat" "key \<noteq> ''content.body''"
  shows "condition_holds E event ctx (EventMatch key pat) \<longleftrightarrow>
    (\<exists>v. event_value event ctx key = Some v \<and> to_lowercase E v = to_lowercase E pat)"
  using assms by (auto simp: event_matches_def text_matches_def literal_globs_def plain_pattern_def Let_def split: option.splits)

text \<open>C28. On valid strings the conditions of a rule are evaluated without a panic, and they apply exactly when each of
  them holds: a pattern matches the field (words in \<open>content.body\<close>, the glob elsewhere, the room id taken from the
  context), the display name occurs in the body, the member count compares, and the sender is a valid user id whose
  level reaches the level of \<^verbatim>\<open>notifications.room\<close>, the only key with a level.  Outside the body a pattern without
  glob characters has to equal the whole value up to case.  The documentation of \<open>EventMatch\<close> says otherwise, that such a
  pattern is tested with an asterisk before and after it; the code does not do this.\<close>

theorem all_apply_spec:
  assumes "env_ok E" "flattened_ok event" "ctx_ok ctx" "list_all condition_ok cs"
  shows "all_apply E event ctx cs = Ok (list_all (condition_holds E event ctx) cs)
    \<and> (\<forall>key pat. literal_globs E \<and> plain_pattern E pat \<and> utf8 pat \<and> key \<noteq> ''content.body'' \<longrightarrow>
        condition_applies E event ctx (EventMatch key pat)
          = Ok (\<exists>v. event_value event ctx key = Some v \<and> to_lowercase E v = to_lowercase E pat))"
proof (intro conjI allI impI)
  fix key pat assume p: "literal_globs E \<and> plain_pattern E pat \<and> utf8 pat \<and> key \<noteq> ''content.body''"
  then have "condition_ok (EventMatch key pat)" by simp
  from condition_applies_spec[OF assms(1-3) this]
  show "condition_applies E event ctx (EventMatch key pat)
      = Ok (\<exists>v. event_value event ctx key = Some v \<and> to_lowercase E v = to_lowercase E pat)"
    using p plain_event_match by simp
qed (rule all_apply_total[OF assms])

definition pc_env :: text_env where
  "pc_env = \<lparr>env_alphanumeric = \<lambda>_. False, env_lowercase = \<lambda>s. s, env_wild_match = (=)\<rparr>"

definition pc_event :: flattened where
  "pc_event = [(''content.body'', ''hi @room''), (''sender'', ''@a:b.c''), (''type'', ''m.room.message'')]"

definition pc_ctx :: push_ctx where
  "pc_ctx = \<lparr>ctx_room_id = ''!r:b.c'', ctx_member_count = 3, ctx_display_name = ''Ann'',
     ctx_users_levels = [(''@a:b.c'', 50)], ctx_default_level = 0, ctx_notification_levels = 50\<rparr>"

text \<open>The pattern \<^verbatim>\<open>m.room\<close> does not match the type \<^verbatim>\<open>m.room.message\<close>, although \<^verbatim>\<open>*m.room*\<close> would.\<close>

lemma all_apply_spec_witness:
  "all_apply pc_env pc_event pc_ctx [EventMatch ''content.body'' ''@room'', SenderNotificationPermission ''room''] =
      Ok (list_all (condition_holds pc_env pc_event pc_ctx) [EventMatch ''content.body'' ''@room'', SenderNotificationPermission ''room''])
    \<and> condition_applies pc_env pc_event pc_ctx (EventMatch ''type'' ''m.room'') = Ok False"
proof -
  have "env_ok pc_env" by (simp add: env_ok_def pc_env_def)
  moreover have "flattened_ok pc_event" "ctx_ok pc_ctx" unfolding pc_event_def pc_ctx_def by code_simp+
  moreover have "list_all condition_ok [EventMatch ''content.body'' ''@room'', SenderNotificationPermission ''room'']" by code_simp
  ultimately have *: "all_apply pc_env pc_event pc_ctx [EventMatch ''content.body'' ''@room'', SenderNotificationPermission ''room''] =
      Ok (list_all (condition_holds pc_env pc_event pc_ctx) [EventMatch ''content.body'' ''@room'', SenderNotificationPermission ''room''])
    \<and> (\<forall>key pat. literal_globs pc_env \<and> plain_pattern pc_env pat \<and> utf8 pat \<and> key \<noteq> ''content.body'' \<longrightarrow>
        condition_applies pc_env pc_event pc_ctx (EventMatch key pat)
          = Ok (\<exists>v. event_value pc_event pc_ctx key = Some v \<and> to_lowercase pc_env v = to_lowercase pc_env pat))"
    by (rule all_apply_spec)
  have "literal_globs pc_env" by (auto simp: literal_globs_def pc_env_def)
  moreover have "plain_pattern pc_env ''m.room'' \<and> utf8 ''m.room''
      \<and> event_value pc_event pc_ctx ''type'' = Some ''m.room.message'' \<and> to_lowercase pc_env ''m.room.message'' \<noteq> to_lowercase pc_env ''m.room''"
    unfolding pc_env_def pc_event_def pc_ctx_def by code_simp
  ultimately show ?thesis using * by auto
qed

end
