(* ===== verification/Push_Rules.thy ===== *)
theory Push_Rules
  imports Push_Conditions
begin

text \<open>Push rules: \<^verbatim>\<open>ruma-common/src/push.rs\<close>, \<^verbatim>\<open>push/iter.rs\<close>, \<^verbatim>\<open>push/predefined.rs\<close> and the actions of
  \<^verbatim>\<open>push/action.rs\<close>.  An \<^verbatim>\<open>IndexSet\<close> of the crate \<^verbatim>\<open>indexmap\<close> is seen as the list of its items in iteration order;
  its \<open>insert\<close> is a parameter, and what the rules rely on is the locale \<open>index_set\<close>.  The Rust types compare rules by
  \<open>rule_id\<close> alone (\<open>PartialEq\<close>, \<open>Hash\<close>), which is the key of the locale.\<close>

section \<open>Actions\<close>

datatype tweak = Sound string | Highlight bool | CustomTweak string json

datatype push_action = Notify | DontNotify | Coalesce | SetTweak tweak

text \<open>Serialization, through \<open>tweak_serde\<close>.\<close>

fun tweak_to_json :: "tweak \<Rightarrow> json" where
  "tweak_to_json (Sound v) = JObject [(''set_tweak'', JString ''sound''), (''value'', JString v)]"
| "tweak_to_json (Highlight v) =
     JObject ((''set_tweak'', JString ''highlight'') # (if v then [] else [(''value'', JBool v)]))"
| "tweak_to_json (CustomTweak name v) = JObject [(''set_tweak'', JString name), (''value'', v)]"

fun action_to_json :: "push_action \<Rightarrow> json" where
  "action_to_json Notify = JString ''notify''"
| "action_to_json DontNotify = JString ''dont_notify''"
| "action_to_json Coalesce = JString ''coalesce''"
| "action_to_json (SetTweak t) = tweak_to_json t"

section \<open>Rules\<close>

record simple_push_rule =
  actions :: "push_action list"
  default :: bool
  enabled :: bool
  rule_id :: string

record conditional_push_rule = simple_push_rule +
  conditions :: "push_condition list"

record patterned_push_rule = simple_push_rule +
  pattern :: string

record simple_push_rule_init =
  init_actions :: "push_action list"
  init_default :: bool
  init_enabled :: bool
  init_rule_id :: string

record conditional_push_rule_init = simple_push_rule_init +
  init_conditions :: "push_condition list"

record patterned_push_rule_init = simple_push_rule_init +
  init_pattern :: string

definition simple_from_init :: "simple_push_rule_init \<Rightarrow> simple_push_rule" where
  "simple_from_init i =
     \<lparr>actions = init_actions i, default = init_default i, enabled = init_enabled i, rule_id = init_rule_id i\<rparr>"

definition conditional_from_init :: "conditional_push_rule_init \<Rightarrow> conditional_push_rule" where
  "conditional_from_init i =
     \<lparr>actions = init_actions i, default = init_default i, enabled = init_enabled i, rule_id = init_rule_id i,
      conditions = init_conditions i\<rparr>"

definition patterned_from_init :: "patterned_push_rule_init \<Rightarrow> patterned_push_rule" where
  "patterned_from_init i =
     \<lparr>actions = init_actions i, default = init_default i, enabled = init_enabled i, rule_id = init_rule_id i,
      pattern = init_pattern i\<rparr>"

text \<open>Equality of rules.\<close>

definition rule_eq :: "('a simple_push_rule_scheme) \<Rightarrow> 'a simple_push_rule_scheme \<Rightarrow> bool" where
  "rule_eq r r' \<longleftrightarrow> rule_id r = rule_id r'"

text \<open>\<open>&&\<close> evaluates its second operand only if the first holds.\<close>

definition conditional_applies ::
    "text_env \<Rightarrow> conditional_push_rule \<Rightarrow> flattened \<Rightarrow> push_ctx \<Rightarrow> (bool, unit) result" where
  "conditional_applies E rule event ctx =
     (if enabled rule then all_apply E event ctx (conditions rule) else Ok False)"

definition patterned_applies_to ::
    "text_env \<Rightarrow> patterned_push_rule \<Rightarrow> string \<Rightarrow> flattened \<Rightarrow> push_ctx \<Rightarrow> (bool, unit) result" where
  "patterned_applies_to E rule key event ctx =
     (if enabled rule then check_event_match E event key (pattern rule) ctx else Ok False)"

section \<open>Any rule\<close>

datatype any_push_rule =
    Override conditional_push_rule
  | Content patterned_push_rule
  | Room simple_push_rule
  | Sender simple_push_rule
  | Underride conditional_push_rule

datatype any_push_rule_ref =
    RefOverride conditional_push_rule
  | RefContent patterned_push_rule
  | RefRoom simple_push_rule
  | RefSender simple_push_rule
  | RefUnderride conditional_push_rule

fun as_ref :: "any_push_rule \<Rightarrow> any_push_rule_ref" where
  "as_ref (Override r) = RefOverride r"
| "as_ref (Content r) = RefContent r"
| "as_ref (Room r) = RefRoom r"
| "as_ref (Sender r) = RefSender r"
| "as_ref (Underride r) = RefUnderride r"

fun to_owned :: "any_push_rule_ref \<Rightarrow> any_push_rule" where
  "to_owned (RefOverride r) = Override r"
| "to_owned (RefContent r) = Content r"
| "to_owned (RefRoom r) = Room r"
| "to_owned (RefSender r) = Sender r"
| "to_owned (RefUnderride r) = Underride r"

fun ref_enabled :: "any_push_rule_ref \<Rightarrow> bool" where
  "ref_enabled (RefOverride r) = enabled r"
| "ref_enabled (RefUnderride r) = enabled r"
| "ref_enabled (RefContent r) = enabled r"
| "ref_enabled (RefRoom r) = enabled r"
| "ref_enabled (RefSender r) = enabled r"

fun ref_actions :: "any_push_rule_ref \<Rightarrow> push_action list" where
  "ref_actions (RefOverride r) = actions r"
| "ref_actions (RefUnderride r) = actions r"
| "ref_actions (RefContent r) = actions r"
| "ref_actions (RefRoom r) = actions r"
| "ref_actions (RefSender r) = actions r"

fun ref_rule_id :: "any_push_rule_ref \<Rightarrow> string" where
  "ref_rule_id (RefOverride r) = rule_id r"
| "ref_rule_id (RefUnderride r) = rule_id r"
| "ref_rule_id (RefContent r) = rule_id r"
| "ref_rule_id (RefRoom r) = rule_id r"
| "ref_rule_id (RefSender r) = rule_id r"

fun ref_applies :: "text_env \<Rightarrow> any_push_rule_ref \<Rightarrow> flattened \<Rightarrow> push_ctx \<Rightarrow> (bool, unit) result" where
  "ref_applies E (RefOverride r) event ctx = conditional_applies E r event ctx"
| "ref_applies E (RefUnderride r) event ctx = conditional_applies E r event ctx"
| "ref_applies E (RefContent r) event ctx = patterned_applies_to E r ''content.body'' event ctx"
| "ref_applies E (RefRoom r) event ctx =
     (if enabled r then check_event_match E event ''room_id'' (rule_id r) ctx else Ok False)"
| "ref_applies E (RefSender r) event ctx =
     (if enabled r then check_event_match E event ''sender'' (rule_id r) ctx else Ok False)"

definition any_enabled :: "any_push_rule \<Rightarrow> bool" where
  "any_enabled r = ref_enabled (as_ref r)"

definition any_actions :: "any_push_rule \<Rightarrow> push_action list" where
  "any_actions r = ref_actions (as_ref r)"

definition any_rule_id :: "any_push_rule \<Rightarrow> string" where
  "any_rule_id r = ref_rule_id (as_ref r)"

definition any_applies :: "text_env \<Rightarrow> any_push_rule \<Rightarrow> flattened \<Rightarrow> push_ctx \<Rightarrow> (bool, unit) result" where
  "any_applies E r event ctx = ref_applies E (as_ref r) event ctx"

section \<open>Rulesets\<close>

record ruleset =
  content_rules :: "patterned_push_rule list"
  override_rules :: "conditional_push_rule list"
  room_rules :: "simple_push_rule list"
  sender_rules :: "simple_push_rule list"
  underride_rules :: "conditional_push_rule list"

text \<open>\<open>IndexSet::insert\<close> at the three types of rules: whether the item is new, and the set after.\<close>

record index_env =
  insert_simple :: "simple_push_rule \<Rightarrow> simple_push_rule list \<Rightarrow> bool \<times> simple_push_rule list"
  insert_conditional :: "conditional_push_rule \<Rightarrow> conditional_push_rule list \<Rightarrow> bool \<times> conditional_push_rule list"
  insert_patterned :: "patterned_push_rule \<Rightarrow> patterned_push_rule list \<Rightarrow> bool \<times> patterned_push_rule list"

definition ruleset_new :: ruleset where
  "ruleset_new = \<lparr>content_rules = [], override_rules = [], room_rules = [], sender_rules = [], underride_rules = []\<rparr>"

fun ruleset_add :: "index_env \<Rightarrow> any_push_rule \<Rightarrow> ruleset \<Rightarrow> bool \<times> ruleset" where
  "ruleset_add I (Override r) rs =
     (let (b, s) = insert_conditional I r (override_rules rs) in (b, rs\<lparr>override_rules := s\<rparr>))"
| "ruleset_add I (Underride r) rs =
     (let (b, s) = insert_conditional I r (underride_rules rs) in (b, rs\<lparr>underride_rules := s\<rparr>))"
| "ruleset_add I (Content r) rs =
     (let (b, s) = insert_patterned I r (content_rules rs) in (b, rs\<lparr>content_rules := s\<rparr>))"
| "ruleset_add I (Room r) rs =
     (let (b, s) = insert_simple I r (room_rules rs) in (b, rs\<lparr>room_rules := s\<rparr>))"
| "ruleset_add I (Sender r) rs =
     (let (b, s) = insert_simple I r (sender_rules rs) in (b, rs\<lparr>sender_rules := s\<rparr>))"

fun ruleset_extend :: "index_env \<Rightarrow> any_push_rule list \<Rightarrow> ruleset \<Rightarrow> ruleset" where
  "ruleset_extend I [] rs = rs"
| "ruleset_extend I (r # rules) rs = ruleset_extend I rules (snd (ruleset_add I r rs))"

section \<open>Iterators\<close>

text \<open>The iterators hold what is left of each set; \<open>next\<close> of a set's iterator takes its first item.\<close>

record ruleset_iter =
  it_content :: "patterned_push_rule list"
  it_override :: "conditional_push_rule list"
  it_room :: "simple_push_rule list"
  it_sender :: "simple_push_rule list"
  it_underride :: "conditional_push_rule list"

definition ruleset_into_iter :: "ruleset \<Rightarrow> ruleset_iter" where
  "ruleset_into_iter rs =
     \<lparr>it_content = content_rules rs, it_override = override_rules rs, it_room = room_rules rs,
      it_sender = sender_rules rs, it_underride = underride_rules rs\<rparr>"

fun ruleset_iter_next :: "ruleset_iter \<Rightarrow> any_push_rule_ref option \<times> ruleset_iter" where
  "ruleset_iter_next it =
     (case it_override it of r # rest' \<Rightarrow> (Some (RefOverride r), it\<lparr>it_override := rest'\<rparr>)
      | [] \<Rightarrow> (case it_content it of r # rest' \<Rightarrow> (Some (RefContent r), it\<lparr>it_content := rest'\<rparr>)
      | [] \<Rightarrow> (case it_room it of r # rest' \<Rightarrow> (Some (RefRoom r), it\<lparr>it_room := rest'\<rparr>)
      | [] \<Rightarrow> (case it_sender it of r # rest' \<Rightarrow> (Some (RefSender r), it\<lparr>it_sender := rest'\<rparr>)
      | [] \<Rightarrow> (case it_underride it of r # rest' \<Rightarrow> (Some (RefUnderride r), it\<lparr>it_underride := rest'\<rparr>)
      | [] \<Rightarrow> (None, it))))))"

text \<open>The owning iterator.\<close>

fun ruleset_into_iter_next :: "ruleset_iter \<Rightarrow> any_push_rule option \<times> ruleset_iter" where
  "ruleset_into_iter_next it =
     (case it_override it of r # rest' \<Rightarrow> (Some (Override r), it\<lparr>it_override := rest'\<rparr>)
      | [] \<Rightarrow> (case it_content it of r # rest' \<Rightarrow> (Some (Content r), it\<lparr>it_content := rest'\<rparr>)
      | [] \<Rightarrow> (case it_room it of r # rest' \<Rightarrow> (Some (Room r), it\<lparr>it_room := rest'\<rparr>)
      | [] \<Rightarrow> (case it_sender it of r # rest' \<Rightarrow> (Some (Sender r), it\<lparr>it_sender := rest'\<rparr>)
      | [] \<Rightarrow> (case it_underride it of r # rest' \<Rightarrow> (Some (Underride r), it\<lparr>it_underride := rest'\<rparr>)
      | [] \<Rightarrow> (None, it))))))"

declare ruleset_iter_next.simps [simp del] ruleset_into_iter_next.simps [simp del]

definition iter_left :: "ruleset_iter \<Rightarrow> nat" where
  "iter_left it = length (it_override it) + length (it_content it) + length (it_room it)
     + length (it_sender it) + length (it_underride it)"

lemma iter_next_less: "ruleset_iter_next it = (Some r, it') \<Longrightarrow> iter_left it' < iter_left it"
  by (auto simp: ruleset_iter_next.simps iter_left_def split: list.splits)

lemma into_iter_next_less: "ruleset_into_iter_next it = (Some r, it') \<Longrightarrow> iter_left it' < iter_left it"
  by (auto simp: ruleset_into_iter_next.simps iter_left_def split: list.splits)

text \<open>\<open>Iterator::collect\<close> and \<open>Iterator::find\<close> call \<open>next\<close> until it returns \<open>None\<close>, or the predicate holds.\<close>

function iter_collect :: "ruleset_iter \<Rightarrow> any_push_rule list" where
  "iter_collect it =
     (case ruleset_into_iter_next it of (Some r, it') \<Rightarrow> r # iter_collect it' | (None, _) \<Rightarrow> [])"
  by auto
termination
  by (relation "measure iter_left") (auto dest: into_iter_next_less[OF sym])

function iter_find ::
    "(any_push_rule_ref \<Rightarrow> (bool, unit) result) \<Rightarrow> ruleset_iter \<Rightarrow> (any_push_rule_ref option, unit) result" where
  "iter_find P it =
     (case ruleset_iter_next it of
        (Some r, it') \<Rightarrow>
          (case P r of Ok b \<Rightarrow> if b then Ok (Some r) else iter_find P it' | Err e \<Rightarrow> Err e | Panic \<Rightarrow> Panic)
      | (None, _) \<Rightarrow> Ok None)"
  by auto
termination
  by (relation "measure (\<lambda>(P, it). iter_left it)") (auto dest: iter_next_less[OF sym])

declare iter_collect.simps [simp del] iter_find.simps [simp del]

definition get_match ::
    "text_env \<Rightarrow> (json_number \<Rightarrow> string) \<Rightarrow> (string \<Rightarrow> json option) \<Rightarrow> ruleset \<Rightarrow> string \<Rightarrow> push_ctx
      \<Rightarrow> (any_push_rule_ref option, unit) result" where
  "get_match E shown to_value rs raw ctx =
     and_then (flattened_from_raw shown to_value raw) (\<lambda>event.
     iter_find (\<lambda>rule. ref_applies E rule event ctx) (ruleset_into_iter rs))"

definition get_actions ::
    "text_env \<Rightarrow> (json_number \<Rightarrow> string) \<Rightarrow> (string \<Rightarrow> json option) \<Rightarrow> ruleset \<Rightarrow> string \<Rightarrow> push_ctx
      \<Rightarrow> (push_action list, unit) result" where
  "get_actions E shown to_value rs raw ctx =
     and_then (get_match E shown to_value rs raw ctx) (\<lambda>found.
     Ok (case found of Some rule \<Rightarrow> ref_actions rule | None \<Rightarrow> []))"

section \<open>Pushers\<close>

datatype push_format = EventIdOnly | PFCustom string

fun push_format_as_ref :: "push_format \<Rightarrow> string" where
  "push_format_as_ref EventIdOnly = ''event_id_only''"
| "push_format_as_ref (PFCustom s) = s"

definition push_format_from :: "string \<Rightarrow> push_format" where
  "push_format_from s = (if s = ''event_id_only'' then EventIdOnly else PFCustom s)"

record pusher_data =
  pd_url :: "string option"
  pd_format :: "push_format option"
  pd_default_payload :: "json option"

definition pusher_data_new :: pusher_data where
  "pusher_data_new = \<lparr>pd_url = None, pd_format = None, pd_default_payload = None\<rparr>"

text \<open>\<open>default_payload\<close> exists with the feature \<^verbatim>\<open>unstable-pre-spec\<close> only.\<close>

definition pusher_data_is_empty :: "bool \<Rightarrow> pusher_data \<Rightarrow> bool" where
  "pusher_data_is_empty pre_spec d \<longleftrightarrow>
     pd_url d = None \<and> pd_format d = None \<and> (pre_spec \<longrightarrow> pd_default_payload d = None)"

lemma find_append:
  "find P (xs @ ys) = (case find P xs of Some x \<Rightarrow> Some x | None \<Rightarrow> find P ys)"
  by (induction xs) auto

lemma find_none: "find P xs = None \<longleftrightarrow> (\<forall>x\<in>set xs. \<not> P x)"
  by (auto simp: find_None_iff)

section \<open>What the rulesets use of an index set\<close>

text \<open>\<open>insert\<close> appends an item whose key is new, and leaves the set as it is if an item has the key already.\<close>

locale index_set =
  fixes key :: "'a \<Rightarrow> 'k"
    and ins :: "'a \<Rightarrow> 'a list \<Rightarrow> bool \<times> 'a list"
  assumes insert_new: "key x \<notin> key ` set xs \<Longrightarrow> ins x xs = (True, xs @ [x])"
    and insert_known: "key x \<in> key ` set xs \<Longrightarrow> ins x xs = (False, xs)"
begin

lemma insert_cases: "ins x xs = (if key x \<in> key ` set xs then (False, xs) else (True, xs @ [x]))"
  by (simp add: insert_new insert_known)

lemma distinct_insert: "ins x xs = (b, ys) \<Longrightarrow> distinct (map key xs) \<Longrightarrow> distinct (map key ys)"
  by (auto simp: insert_cases split: if_splits)

lemma insert_reports: "ins x xs = (b, ys) \<Longrightarrow> b \<longleftrightarrow> key x \<notin> key ` set xs"
  by (auto simp: insert_cases split: if_splits)

end

definition list_insert :: "'a simple_push_rule_scheme \<Rightarrow> 'a simple_push_rule_scheme list
    \<Rightarrow> bool \<times> 'a simple_push_rule_scheme list" where
  "list_insert x xs = (if list_ex (rule_eq x) xs then (False, xs) else (True, xs @ [x]))"

interpretation list_set: index_set rule_id list_insert
  by unfold_locales (auto simp: list_insert_def rule_eq_def list_ex_iff)

definition index_env_ok :: "index_env \<Rightarrow> bool" where
  "index_env_ok I \<longleftrightarrow> index_set rule_id (insert_simple I) \<and> index_set rule_id (insert_conditional I)
     \<and> index_set rule_id (insert_patterned I)"

definition list_env :: index_env where
  "list_env = \<lparr>insert_simple = list_insert, insert_conditional = list_insert, insert_patterned = list_insert\<rparr>"

lemma list_env_ok: "index_env_ok list_env"
  by (simp add: index_env_ok_def list_env_def list_set.index_set_axioms)

section \<open>The rules of a ruleset\<close>

text \<open>All rules, the kinds by decreasing priority, and the key of a rule: its kind and its id.\<close>

definition ruleset_rules :: "ruleset \<Rightarrow> any_push_rule list" where
  "ruleset_rules rs = map Override (override_rules rs) @ map Content (content_rules rs) @ map Room (room_rules rs)
     @ map Sender (sender_rules rs) @ map Underride (underride_rules rs)"

fun rule_kind :: "any_push_rule \<Rightarrow> string" where
  "rule_kind (Override r) = ''override''"
| "rule_kind (Content r) = ''content''"
| "rule_kind (Room r) = ''room''"
| "rule_kind (Sender r) = ''sender''"
| "rule_kind (Underride r) = ''underride''"

definition rule_key :: "any_push_rule \<Rightarrow> string \<times> string" where
  "rule_key r = (rule_kind r, any_rule_id r)"

definition ruleset_ok :: "ruleset \<Rightarrow> bool" where
  "ruleset_ok rs \<longleftrightarrow> distinct (map rule_key (ruleset_rules rs))"

definition find_rule :: "ruleset \<Rightarrow> string \<times> string \<Rightarrow> any_push_rule option" where
  "find_rule rs k = find (\<lambda>r. rule_key r = k) (ruleset_rules rs)"

lemma rule_key_simps [simp]:
  "rule_key (Override c) = (''override'', rule_id c)" "rule_key (Content p) = (''content'', rule_id p)"
  "rule_key (Room s) = (''room'', rule_id s)" "rule_key (Sender s) = (''sender'', rule_id s)"
  "rule_key (Underride c) = (''underride'', rule_id c)"
  by (simp_all add: rule_key_def any_rule_id_def)

lemma ruleset_ok_kinds:
  "ruleset_ok rs \<longleftrightarrow> distinct (map rule_id (override_rules rs)) \<and> distinct (map rule_id (content_rules rs))
     \<and> distinct (map rule_id (room_rules rs)) \<and> distinct (map rule_id (sender_rules rs))
     \<and> distinct (map rule_id (underride_rules rs))"
  by (auto simp: ruleset_ok_def ruleset_rules_def distinct_map inj_on_def comp_def image_iff)

lemma add_unfold:
  assumes "index_env_ok I"
  shows "ruleset_add I r rs = (rule_key r \<notin> rule_key ` set (ruleset_rules rs),
    if rule_key r \<in> rule_key ` set (ruleset_rules rs) then rs
    else (case r of
        Override c \<Rightarrow> rs\<lparr>override_rules := override_rules rs @ [c]\<rparr>
      | Content p \<Rightarrow> rs\<lparr>content_rules := content_rules rs @ [p]\<rparr>
      | Room s \<Rightarrow> rs\<lparr>room_rules := room_rules rs @ [s]\<rparr>
      | Sender s \<Rightarrow> rs\<lparr>sender_rules := sender_rules rs @ [s]\<rparr>
      | Underride c \<Rightarrow> rs\<lparr>underride_rules := underride_rules rs @ [c]\<rparr>))"
proof -
  have s: "index_set rule_id (insert_simple I)" and c: "index_set rule_id (insert_conditional I)"
    and p: "index_set rule_id (insert_patterned I)" using assms by (simp_all add: index_env_ok_def)
  show ?thesis
    by (cases r; simp add: index_set.insert_cases[OF s] index_set.insert_cases[OF c] index_set.insert_cases[OF p]
        ruleset_rules_def image_Un image_image)
       (auto simp: image_iff)
qed

lemma add_keys:
  assumes "index_env_ok I"
  shows "set (ruleset_rules (snd (ruleset_add I r rs))) =
    (if rule_key r \<in> rule_key ` set (ruleset_rules rs) then set (ruleset_rules rs)
     else insert r (set (ruleset_rules rs)))"
  unfolding add_unfold[OF assms] by (cases r) (auto simp: ruleset_rules_def)

lemma add_ok:
  assumes "index_env_ok I" "ruleset_ok rs"
  shows "ruleset_ok (snd (ruleset_add I r rs))"
proof -
  have s: "index_set rule_id (insert_simple I)" and c: "index_set rule_id (insert_conditional I)"
    and p: "index_set rule_id (insert_patterned I)" using assms(1) by (simp_all add: index_env_ok_def)
  show ?thesis using assms(2)
    by (cases r) (auto simp: ruleset_ok_kinds split: prod.splits
        dest: index_set.distinct_insert[OF s] index_set.distinct_insert[OF c] index_set.distinct_insert[OF p])
qed

lemma add_splits:
  assumes "index_env_ok I" "rule_key r \<notin> rule_key ` set (ruleset_rules rs)"
  shows "\<exists>xs ys. ruleset_rules rs = xs @ ys \<and> ruleset_rules (snd (ruleset_add I r rs)) = xs @ r # ys"
proof -
  let ?o = "map Override (override_rules rs)" and ?c = "map Content (content_rules rs)"
    and ?r = "map Room (room_rules rs)" and ?s = "map Sender (sender_rules rs)"
    and ?u = "map Underride (underride_rules rs)"
  define n where "n = (case r of Override x \<Rightarrow> length ?o | Content x \<Rightarrow> length (?o @ ?c)
    | Room x \<Rightarrow> length (?o @ ?c @ ?r) | Sender x \<Rightarrow> length (?o @ ?c @ ?r @ ?s) | Underride x \<Rightarrow> length (ruleset_rules rs))"
  have "ruleset_rules (snd (ruleset_add I r rs)) = take n (ruleset_rules rs) @ r # drop n (ruleset_rules rs)"
    unfolding add_unfold[OF assms(1)] if_not_P[OF assms(2)] snd_conv
    by (cases r) (simp_all add: n_def ruleset_rules_def)
  then show ?thesis by (metis append_take_drop_id)
qed

lemma find_rule_add:
  assumes "index_env_ok I"
  shows "find_rule (snd (ruleset_add I r rs)) k =
    (case find_rule rs k of Some r' \<Rightarrow> Some r' | None \<Rightarrow> if rule_key r = k then Some r else None)"
proof (cases "rule_key r \<in> rule_key ` set (ruleset_rules rs)")
  case True
  then have "find_rule rs k = None \<Longrightarrow> rule_key r \<noteq> k" by (auto simp: find_rule_def find_none)
  then show ?thesis using True by (auto simp: add_unfold[OF assms] split: option.splits)
next
  case False
  obtain xs ys where x: "ruleset_rules rs = xs @ ys" "ruleset_rules (snd (ruleset_add I r rs)) = xs @ r # ys"
    using add_splits[OF assms False] by blast
  have "rule_key r = k \<Longrightarrow> find (\<lambda>r. rule_key r = k) (xs @ ys) = None"
    using False x(1) by (auto simp: find_none) (metis UnCI imageI)+
  then show ?thesis unfolding find_rule_def x by (auto simp: find_append split: option.splits)
qed

section \<open>The iterators\<close>

definition iter_rules :: "ruleset_iter \<Rightarrow> any_push_rule list" where
  "iter_rules it = map Override (it_override it) @ map Content (it_content it) @ map Room (it_room it)
     @ map Sender (it_sender it) @ map Underride (it_underride it)"

lemma iter_rules_into_iter [simp]: "iter_rules (ruleset_into_iter rs) = ruleset_rules rs"
  by (simp add: iter_rules_def ruleset_into_iter_def ruleset_rules_def)

lemma iter_next_rules:
  "case ruleset_iter_next it of
     (Some r, it') \<Rightarrow> iter_rules it = to_owned r # iter_rules it' \<and> as_ref (to_owned r) = r
   | (None, it') \<Rightarrow> iter_rules it = []"
  by (auto simp: ruleset_iter_next.simps iter_rules_def split: list.splits)

lemma into_iter_next_rules:
  "case ruleset_into_iter_next it of
     (Some r, it') \<Rightarrow> iter_rules it = r # iter_rules it' | (None, it') \<Rightarrow> iter_rules it = []"
  by (auto simp: ruleset_into_iter_next.simps iter_rules_def split: list.splits)

lemma iter_collect_rules: "iter_collect it = iter_rules it"
proof (induction it rule: iter_collect.induct)
  case (1 it)
  then show ?case using into_iter_next_rules[of it] by (subst iter_collect.simps) (auto split: prod.splits option.splits)
qed

lemma iter_find_rules:
  assumes "\<And>r. r \<in> set (iter_rules it) \<Longrightarrow> P (as_ref r) = Ok (Q r)"
  shows "iter_find P it = Ok (map_option as_ref (find Q (iter_rules it)))"
  using assms
proof (induction P it rule: iter_find.induct)
  case (1 P it)
  show ?case
  proof (cases "ruleset_iter_next it")
    case (Pair x it')
    show ?thesis
    proof (cases x)
      case None
      then show ?thesis using iter_next_rules[of it] Pair by (subst iter_find.simps) simp
    next
      case (Some r)
      then have r: "iter_rules it = to_owned r # iter_rules it'" "as_ref (to_owned r) = r"
        using iter_next_rules[of it] Pair by auto
      have p: "P r = Ok (Q (to_owned r))" using "1.prems"[of "to_owned r"] r by simp
      show ?thesis
      proof (cases "Q (to_owned r)")
        case True
        then show ?thesis using Pair Some p r by (subst iter_find.simps) simp
      next
        case False
        then have "iter_find P it' = Ok (map_option as_ref (find Q (iter_rules it')))"
          using "1.IH"[OF Pair[symmetric] Some p] "1.prems" r by simp
        then show ?thesis using False Pair Some p r by (subst iter_find.simps) simp
      qed
    qed
  qed
qed

section \<open>Matching\<close>

fun rule_holds :: "text_env \<Rightarrow> flattened \<Rightarrow> push_ctx \<Rightarrow> any_push_rule \<Rightarrow> bool" where
  "rule_holds E event ctx (Override r) \<longleftrightarrow> enabled r \<and> list_all (condition_holds E event ctx) (conditions r)"
| "rule_holds E event ctx (Content r) \<longleftrightarrow> enabled r \<and> event_matches E event ctx ''content.body'' (pattern r)"
| "rule_holds E event ctx (Room r) \<longleftrightarrow> enabled r \<and> text_matches E False (rule_id r) (ctx_room_id ctx)"
| "rule_holds E event ctx (Sender r) \<longleftrightarrow> enabled r \<and> event_matches E event ctx ''sender'' (rule_id r)"
| "rule_holds E event ctx (Underride r) \<longleftrightarrow> enabled r \<and> list_all (condition_holds E event ctx) (conditions r)"

fun rule_text_ok :: "any_push_rule \<Rightarrow> bool" where
  "rule_text_ok (Override r) = list_all condition_ok (conditions r)"
| "rule_text_ok (Content r) = utf8 (pattern r)"
| "rule_text_ok (Room r) = utf8 (rule_id r)"
| "rule_text_ok (Sender r) = utf8 (rule_id r)"
| "rule_text_ok (Underride r) = list_all condition_ok (conditions r)"

lemma any_applies_spec:
  assumes "env_ok E" "flattened_ok event" "ctx_ok ctx" "rule_text_ok r"
  shows "ref_applies E (as_ref r) event ctx = Ok (rule_holds E event ctx r)"
  using assms(4) all_apply_total[OF assms(1-3)] check_event_match_spec[OF assms(1-3)]
  by (cases r) (auto simp: conditional_applies_def patterned_applies_to_def event_matches_def event_value_def)

definition ruleset_text_ok :: "ruleset \<Rightarrow> bool" where
  "ruleset_text_ok rs \<longleftrightarrow> list_all rule_text_ok (ruleset_rules rs)"

lemma get_match_find:
  assumes "to_value raw = Some v" "flattened_ok (flatten_value shown v [] [])" "env_ok E" "ctx_ok ctx" "ruleset_text_ok rs"
  shows "get_match E shown to_value rs raw ctx =
    Ok (map_option as_ref (find (rule_holds E (flatten_value shown v [] []) ctx) (ruleset_rules rs)))"
proof -
  let ?e = "flatten_value shown v [] []"
  have "iter_find (\<lambda>rule. ref_applies E rule ?e ctx) (ruleset_into_iter rs) =
      Ok (map_option as_ref (find (rule_holds E ?e ctx) (iter_rules (ruleset_into_iter rs))))"
    using assms(5) by (intro iter_find_rules any_applies_spec[OF assms(3,2,4)])
      (simp add: ruleset_text_ok_def list_all_iff)
  then show ?thesis using assms(1) by (simp add: get_match_def flattened_from_raw_def)
qed

lemma get_actions_find:
  assumes "to_value raw = Some v" "flattened_ok (flatten_value shown v [] [])" "env_ok E" "ctx_ok ctx" "ruleset_text_ok rs"
  shows "get_actions E shown to_value rs raw ctx =
    Ok (case find (rule_holds E (flatten_value shown v [] []) ctx) (ruleset_rules rs) of
      Some r \<Rightarrow> any_actions r | None \<Rightarrow> [])"
  by (simp add: get_actions_def get_match_find[where to_value = to_value and raw = raw and shown = shown, OF assms] any_actions_def split: option.splits)

text \<open>The first rule of a list with a property: all rules before it lack it.\<close>

definition first_that :: "('a \<Rightarrow> bool) \<Rightarrow> 'a list \<Rightarrow> 'a \<Rightarrow> bool" where
  "first_that P xs x \<longleftrightarrow> (\<exists>us vs. xs = us @ x # vs \<and> P x \<and> list_all (\<lambda>u. \<not> P u) us)"

lemma find_first_that: "find P xs = Some x \<longleftrightarrow> first_that P xs x"
proof (induction xs)
  case (Cons y ys)
  show ?case
  proof (cases "P y")
    case True
    then have "first_that P (y # ys) x \<longleftrightarrow> x = y"
      by (auto simp: first_that_def Cons_eq_append_conv)
    then show ?thesis using True by auto
  next
    case False
    have "first_that P (y # ys) x \<longleftrightarrow> first_that P ys x"
      using False by (auto simp: first_that_def Cons_eq_append_conv) (metis append_Cons list.pred_inject(2))
    then show ?thesis using False Cons by simp
  qed
qed (simp add: first_that_def)

text \<open>C26. Matching an event whose texts are valid never panics, and returns the first rule, in the order override,
  content, room, sender, underride and then by position in the set, that is enabled and whose conditions hold; it
  returns nothing exactly when no enabled rule holds.\<close>

theorem get_match_first_rule:
  assumes "to_value raw = Some v" "flattened_ok (flatten_value shown v [] [])" "env_ok E" "ctx_ok ctx" "ruleset_text_ok rs"
  shows "\<exists>m. get_match E shown to_value rs raw ctx = Ok m \<and>
    (case m of
       Some ref \<Rightarrow> \<exists>r. ref = as_ref r
         \<and> first_that (rule_holds E (flatten_value shown v [] []) ctx) (ruleset_rules rs) r
     | None \<Rightarrow> \<not> list_ex (rule_holds E (flatten_value shown v [] []) ctx) (ruleset_rules rs))"
proof (cases "find (rule_holds E (flatten_value shown v [] []) ctx) (ruleset_rules rs)")
  case None
  then have "\<not> list_ex (rule_holds E (flatten_value shown v [] []) ctx) (ruleset_rules rs)"
    by (auto simp: find_none list_ex_iff)
  then show ?thesis using get_match_find[where to_value = to_value and raw = raw and shown = shown, OF assms] None
    by simp
next
  case (Some r)
  then show ?thesis using get_match_find[where to_value = to_value and raw = raw and shown = shown, OF assms] Some[unfolded find_first_that] by auto
qed

text \<open>Iterating over a ruleset by value gives each of its rules once, in the order of priority of the kinds, and
  then ends; the borrowing iterator gives the same rules by reference.\<close>

lemma ruleset_iteration:
  "iter_collect (ruleset_into_iter rs) = ruleset_rules rs
   \<and> (case ruleset_iter_next it of
        (Some r, it') \<Rightarrow> ruleset_into_iter_next it = (Some (to_owned r), it')
      | (None, it') \<Rightarrow> ruleset_into_iter_next it = (None, it'))"
proof
  show "iter_collect (ruleset_into_iter rs) = ruleset_rules rs"
    by (simp add: iter_collect_rules)
  show "case ruleset_iter_next it of
        (Some r, it') \<Rightarrow> ruleset_into_iter_next it = (Some (to_owned r), it')
      | (None, it') \<Rightarrow> ruleset_into_iter_next it = (None, it')"
    by (simp add: ruleset_iter_next.simps ruleset_into_iter_next.simps split: list.split)
qed

text \<open>C27. No two rules of a kind ever share a rule id: extending a ruleset keeps that, and for each kind and id the rule
  found afterwards is the one that was there, or else the first one of the added rules; a rule is reported as added
  exactly when its kind had no rule of that id.\<close>

theorem ruleset_extend_spec:
  assumes "index_env_ok I" "ruleset_ok rs"
  shows "ruleset_ok (ruleset_extend I rules rs)
    \<and> find_rule (ruleset_extend I rules rs) k = find (\<lambda>r. rule_key r = k) (ruleset_rules rs @ rules)
    \<and> fst (ruleset_add I r rs) = (find_rule rs (rule_key r) = None)"
proof (intro conjI)
  show "ruleset_ok (ruleset_extend I rules rs)"
    using assms(2) by (induction rules arbitrary: rs) (simp_all add: add_ok[OF assms(1)])
  show "find_rule (ruleset_extend I rules rs) k = find (\<lambda>r. rule_key r = k) (ruleset_rules rs @ rules)"
  proof (induction rules arbitrary: rs)
    case (Cons x rules)
    then show ?case
      using find_rule_add[OF assms(1), of x rs k] by (auto simp: find_rule_def find_append split: option.splits)
  qed (simp add: find_rule_def)
  show "fst (ruleset_add I r rs) = (find_rule rs (rule_key r) = None)"
    unfolding add_unfold[OF assms(1)] find_rule_def find_none fst_conv image_iff by metis
qed

lemma ruleset_extend_spec_witness:
  "ruleset_ok (ruleset_extend list_env [Room \<lparr>actions = [], default = False, enabled = True, rule_id = ''a''\<rparr>] ruleset_new)
   \<and> find_rule (ruleset_extend list_env [Room \<lparr>actions = [], default = False, enabled = True, rule_id = ''a''\<rparr>] ruleset_new)
       (''room'', ''a'') =
     find (\<lambda>r. rule_key r = (''room'', ''a''))
       (ruleset_rules ruleset_new @ [Room \<lparr>actions = [], default = False, enabled = True, rule_id = ''a''\<rparr>])
   \<and> fst (ruleset_add list_env (Room \<lparr>actions = [], default = False, enabled = True, rule_id = ''a''\<rparr>) ruleset_new) =
     (find_rule ruleset_new (rule_key (Room \<lparr>actions = [], default = False, enabled = True, rule_id = ''a''\<rparr>)) = None)"
  by (rule ruleset_extend_spec[OF list_env_ok]) (simp add: ruleset_ok_def ruleset_rules_def ruleset_new_def)

text \<open>A small setting for concrete evaluations: literal globs, no Unicode letters, one way to parse a raw event.\<close>

definition sample_env :: text_env where
  "sample_env = \<lparr>env_alphanumeric = \<lambda>_. False, env_lowercase = \<lambda>s. s, env_wild_match = (=)\<rparr>"

definition sample_ctx :: push_ctx where
  "sample_ctx = \<lparr>ctx_room_id = ''!r:b.c'', ctx_member_count = 2, ctx_display_name = ''Ann'',
     ctx_users_levels = [(''@a:b.c'', 50)], ctx_default_level = 0, ctx_notification_levels = 50\<rparr>"

lemma sample_ok: "env_ok sample_env" "ctx_ok sample_ctx"
proof -
  show "env_ok sample_env" by (simp add: env_ok_def sample_env_def)
  show "ctx_ok sample_ctx" by code_simp
qed

lemma get_match_first_rule_witness:
  "\<exists>m. get_match sample_env (\<lambda>_. ''1'') (\<lambda>s. Some (JObject [(''sender'', JString s)]))
       (ruleset_new\<lparr>sender_rules := [\<lparr>actions = [], default = False, enabled = True, rule_id = ''@a:b.c''\<rparr>]\<rparr>)
       ''@a:b.c'' sample_ctx = Ok m \<and>
    (case m of
       Some ref \<Rightarrow> \<exists>r. ref = as_ref r
         \<and> first_that (rule_holds sample_env (flatten_value (\<lambda>_. ''1'') (JObject [(''sender'', JString ''@a:b.c'')]) [] [])
             sample_ctx)
           (ruleset_rules (ruleset_new\<lparr>sender_rules :=
             [\<lparr>actions = [], default = False, enabled = True, rule_id = ''@a:b.c''\<rparr>]\<rparr>)) r
     | None \<Rightarrow> \<not> list_ex (rule_holds sample_env
           (flatten_value (\<lambda>_. ''1'') (JObject [(''sender'', JString ''@a:b.c'')]) [] []) sample_ctx)
         (ruleset_rules (ruleset_new\<lparr>sender_rules :=
             [\<lparr>actions = [], default = False, enabled = True, rule_id = ''@a:b.c''\<rparr>]\<rparr>)))"
  by (rule get_match_first_rule[OF _ _ sample_ok]) code_simp+

end
