(* ===== verification/Push_Defaults.thy ===== *)
theory Push_Defaults
  imports Push_Rules
begin

text \<open>The predefined push rules, \<^verbatim>\<open>ruma-common/src/push/predefined.rs\<close>.  The feature \<^verbatim>\<open>unstable-pre-spec\<close>, which adds
  the rule for reactions, is the parameter \<open>pre_spec\<close>.\<close>

section \<open>The rules\<close>

definition rule_master :: conditional_push_rule where
  "rule_master = \<lparr>actions = [DontNotify], default = True, enabled = False, rule_id = ''.m.rule.master'', conditions = []\<rparr>"

definition rule_suppress_notices :: conditional_push_rule where
  "rule_suppress_notices =
     \<lparr>actions = [DontNotify], default = True, enabled = True, rule_id = ''.m.rule.suppress_notices'',
      conditions = [EventMatch ''content.msgtype'' ''m.notice'']\<rparr>"

definition rule_invite_for_me :: "string \<Rightarrow> conditional_push_rule" where
  "rule_invite_for_me user_id =
     \<lparr>actions = [Notify, SetTweak (Sound ''default''), SetTweak (Highlight False)], default = True, enabled = True,
      rule_id = ''.m.rule.invite_for_me'',
      conditions = [EventMatch ''type'' ''m.room.member'', EventMatch ''content.membership'' ''invite'',
        EventMatch ''state_key'' user_id]\<rparr>"

definition rule_member_event :: conditional_push_rule where
  "rule_member_event =
     \<lparr>actions = [DontNotify], default = True, enabled = True, rule_id = ''.m.rule.member_event'',
      conditions = [EventMatch ''type'' ''m.room.member'']\<rparr>"

definition rule_contains_display_name :: conditional_push_rule where
  "rule_contains_display_name =
     \<lparr>actions = [Notify, SetTweak (Sound ''default''), SetTweak (Highlight True)], default = True, enabled = True,
      rule_id = ''.m.rule.contains_display_name'', conditions = [ContainsDisplayName]\<rparr>"

definition rule_tombstone :: conditional_push_rule where
  "rule_tombstone =
     \<lparr>actions = [Notify, SetTweak (Highlight True)], default = True, enabled = False,
      rule_id = ''.m.rule.tombstone'',
      conditions = [EventMatch ''type'' ''m.room.tombstone'', EventMatch ''state_key'' '''']\<rparr>"

definition rule_roomnotif :: conditional_push_rule where
  "rule_roomnotif =
     \<lparr>actions = [Notify, SetTweak (Highlight True)], default = True, enabled = True,
      rule_id = ''.m.rule.roomnotif'',
      conditions = [EventMatch ''content.body'' ''@room'', SenderNotificationPermission ''room'']\<rparr>"

definition rule_reaction :: conditional_push_rule where
  "rule_reaction =
     \<lparr>actions = [DontNotify], default = True, enabled = True, rule_id = ''.m.rule.reaction'',
      conditions = [EventMatch ''type'' ''m.reaction'']\<rparr>"

definition rule_contains_user_name :: "string \<Rightarrow> (patterned_push_rule, id_error) result" where
  "rule_contains_user_name user_id = and_then (user_id_localpart user_id) (\<lambda>localpart.
     Ok \<lparr>actions = [Notify, SetTweak (Sound ''default''), SetTweak (Highlight True)], default = True, enabled = True,
         rule_id = ''.m.rules.contains_user_name'', pattern = localpart\<rparr>)"

definition rule_call :: conditional_push_rule where
  "rule_call =
     \<lparr>actions = [Notify, SetTweak (Sound ''ring''), SetTweak (Highlight False)], default = True, enabled = True,
      rule_id = ''.m.rules.call'', conditions = [EventMatch ''type'' ''m.call.invite'']\<rparr>"

definition rule_encrypted_room_one_to_one :: conditional_push_rule where
  "rule_encrypted_room_one_to_one =
     \<lparr>actions = [Notify, SetTweak (Sound ''default''), SetTweak (Highlight False)], default = True, enabled = True,
      rule_id = ''.m.rules.encrypted_room_one_to_one'',
      conditions = [RoomMemberCount (member_count_from 2), EventMatch ''type'' ''m.room.encrypted'']\<rparr>"

definition rule_room_one_to_one :: conditional_push_rule where
  "rule_room_one_to_one =
     \<lparr>actions = [Notify, SetTweak (Sound ''default''), SetTweak (Highlight False)], default = True, enabled = True,
      rule_id = ''.m.rules.room_one_to_one'',
      conditions = [RoomMemberCount (member_count_from 2), EventMatch ''type'' ''m.room.message'']\<rparr>"

definition rule_message :: conditional_push_rule where
  "rule_message =
     \<lparr>actions = [Notify, SetTweak (Highlight False)], default = True, enabled = True, rule_id = ''.m.rules.message'',
      conditions = [EventMatch ''type'' ''m.room.message'']\<rparr>"

definition rule_encrypted :: conditional_push_rule where
  "rule_encrypted =
     \<lparr>actions = [Notify, SetTweak (Highlight False)], default = True, enabled = True, rule_id = ''.m.rules.encrypted'',
      conditions = [EventMatch ''type'' ''m.room.encrypted'']\<rparr>"

text \<open>\<open>indexset!\<close> inserts its arguments in order.\<close>

definition index_set_of :: "('a \<Rightarrow> 'a list \<Rightarrow> bool \<times> 'a list) \<Rightarrow> 'a list \<Rightarrow> 'a list" where
  "index_set_of ins xs = fold (\<lambda>x s. snd (ins x s)) xs []"

definition server_default :: "bool \<Rightarrow> index_env \<Rightarrow> string \<Rightarrow> (ruleset, id_error) result" where
  "server_default pre_spec I user_id = and_then (rule_contains_user_name user_id) (\<lambda>contains_user_name.
     Ok (ruleset_new
       \<lparr>content_rules := index_set_of (insert_patterned I) [contains_user_name],
        override_rules := index_set_of (insert_conditional I)
          ([rule_master, rule_suppress_notices, rule_invite_for_me user_id, rule_member_event,
            rule_contains_display_name, rule_tombstone, rule_roomnotif] @ (if pre_spec then [rule_reaction] else [])),
        underride_rules := index_set_of (insert_conditional I)
          [rule_call, rule_encrypted_room_one_to_one, rule_room_one_to_one, rule_message, rule_encrypted]\<rparr>))"

lemmas rule_defs = rule_master_def rule_suppress_notices_def rule_invite_for_me_def rule_member_event_def
  rule_contains_display_name_def rule_tombstone_def rule_roomnotif_def rule_reaction_def rule_call_def
  rule_encrypted_room_one_to_one_def rule_room_one_to_one_def rule_message_def rule_encrypted_def

section \<open>The default ruleset\<close>

context index_set
begin

lemma index_set_of_append:
  "distinct (map key (ys @ xs)) \<Longrightarrow> fold (\<lambda>x s. snd (ins x s)) xs ys = ys @ xs"
proof (induction xs arbitrary: ys)
  case (Cons x xs)
  then have "key x \<notin> key ` set ys" by auto
  then show ?case using Cons.IH[of "ys @ [x]"] Cons.prems by (simp add: insert_new)
qed simp

lemma index_set_of_distinct: "distinct (map key xs) \<Longrightarrow> index_set_of ins xs = xs"
  using index_set_of_append[of "[]" xs] by (simp add: index_set_of_def)

end

definition default_overrides :: "bool \<Rightarrow> string \<Rightarrow> conditional_push_rule list" where
  "default_overrides pre_spec u = [rule_suppress_notices, rule_invite_for_me u, rule_member_event,
     rule_contains_display_name, rule_tombstone, rule_roomnotif] @ (if pre_spec then [rule_reaction] else [])"

definition default_underrides :: "conditional_push_rule list" where
  "default_underrides = [rule_call, rule_encrypted_room_one_to_one, rule_room_one_to_one, rule_message, rule_encrypted]"

lemma default_ids:
  "distinct (map rule_id (rule_master # default_overrides pre_spec u))" "distinct (map rule_id default_underrides)"
  by (simp_all add: default_overrides_def default_underrides_def rule_defs)

lemma server_default_rules:
  assumes "index_env_ok I" "rule_contains_user_name u = Ok c"
  shows "server_default pre_spec I u = Ok \<lparr>content_rules = [c], override_rules = rule_master # default_overrides pre_spec u,
    room_rules = [], sender_rules = [], underride_rules = default_underrides\<rparr>"
proof -
  have c: "index_set rule_id (insert_conditional I)" and p: "index_set rule_id (insert_patterned I)"
    using assms(1) by (simp_all add: index_env_ok_def)
  have "index_set_of (insert_patterned I) [c] = [c]"
    by (rule index_set.index_set_of_distinct[OF p]) simp
  then show ?thesis
    using index_set.index_set_of_distinct[OF c default_ids(1)] index_set.index_set_of_distinct[OF c default_ids(2)]
    by (simp add: server_default_def assms(2) ruleset_new_def default_overrides_def default_underrides_def)
qed

lemma user_localpart:
  assumes "user_id_validate u = Ok ()" "utf8 u"
  obtains lp where "user_id_localpart u = Ok lp" "utf8 lp" "utf8 u"
proof -
  obtain c lp sv where s: "c \<in> set ''@''" "u = c # lp @ CHR '':'' # sv" "CHR '':'' \<notin> set lp"
    and acc: "id_localpart u = Ok lp" "id_server_name u = Ok sv" "server_name_validate sv = Ok ()"
    by (rule user_id.accessors[OF assms])
  obtain lp' sv' where u: "u = CHR ''@'' # lp' @ CHR '':'' # sv'" "list_all historical_byte lp'"
    using assms(1) unfolding user_id_validate_ok by blast
  have "CHR '':'' \<notin> set lp'" using u(2) by (auto simp: historical_byte_def list_all_iff)
  then have "lp = lp'" using split_unique[of lp "CHR '':''" sv lp' sv'] s u(1) by simp
  then have "list_all historical_byte lp" using u(2) by simp
  then have "is_ascii lp" unfolding is_ascii_def by (rule list.pred_mono_strong) (simp add: historical_byte_def)
  then show ?thesis using that acc(1) is_ascii_utf8 assms(2) unfolding user_id_localpart_eq by blast
qed

text \<open>Without the special characters of globs, the glob matcher compares.\<close>

lemma literal_match:
  assumes "literal_globs E" "is_ascii p" "map ascii_lower p = p" "CHR ''*'' \<notin> set p" "CHR ''?'' \<notin> set p"
  shows "text_matches E False p s \<longleftrightarrow> to_lowercase E s = p"
  using assms by (simp add: text_matches_def literal_globs_def to_lowercase_def Let_def)

text \<open>Matching the type of a message event.\<close>

lemma type_literals:
  assumes "literal_globs E" "flattened_get e ''type'' = Some ''m.room.message''"
  shows "event_matches E e ctx ''type'' ''m.room.message''" "\<not> event_matches E e ctx ''type'' ''m.room.member''"
    "\<not> event_matches E e ctx ''type'' ''m.room.tombstone''" "\<not> event_matches E e ctx ''type'' ''m.reaction''"
    "\<not> event_matches E e ctx ''type'' ''m.call.invite''" "\<not> event_matches E e ctx ''type'' ''m.room.encrypted''"
proof -
  have l: "to_lowercase E ''m.room.message'' = ''m.room.message''" by (simp add: to_lowercase_def is_ascii_def ascii_lower_def is_upper_def)
  have m: "event_matches E e ctx ''type'' p \<longleftrightarrow> p = ''m.room.message''"
    if "is_ascii p" "map ascii_lower p = p" "CHR ''*'' \<notin> set p" "CHR ''?'' \<notin> set p" for p
    using literal_match[OF assms(1) that] assms(2) l by (auto simp: event_matches_def event_value_def)
  show "event_matches E e ctx ''type'' ''m.room.message''" "\<not> event_matches E e ctx ''type'' ''m.room.member''"
    "\<not> event_matches E e ctx ''type'' ''m.room.tombstone''" "\<not> event_matches E e ctx ''type'' ''m.reaction''"
    "\<not> event_matches E e ctx ''type'' ''m.call.invite''" "\<not> event_matches E e ctx ''type'' ''m.room.encrypted''"
    by (subst m; simp add: is_ascii_def ascii_lower_def is_upper_def)+
qed

definition is_notice :: "text_env \<Rightarrow> flattened \<Rightarrow> bool" where
  "is_notice E e \<longleftrightarrow> (\<exists>t. flattened_get e ''content.msgtype'' = Some t \<and> to_lowercase E t = ''m.notice'')"

lemma notice_literal:
  assumes "literal_globs E"
  shows "event_matches E e ctx ''content.msgtype'' ''m.notice'' \<longleftrightarrow> is_notice E e"
proof -
  have "text_matches E False ''m.notice'' t \<longleftrightarrow> to_lowercase E t = ''m.notice''" for t
    by (rule literal_match[OF assms]) (simp_all add: is_ascii_def ascii_lower_def is_upper_def)
  then show ?thesis by (simp add: event_matches_def event_value_def is_notice_def)
qed

text \<open>What the rules look for in the body of a message.\<close>

definition body_mentions :: "text_env \<Rightarrow> flattened \<Rightarrow> string \<Rightarrow> bool" where
  "body_mentions E e p \<longleftrightarrow> (\<exists>b. flattened_get e ''content.body'' = Some b \<and> text_matches E True p b)"

lemma body_match: "event_matches E e ctx ''content.body'' p \<longleftrightarrow> body_mentions E e p"
  by (simp add: event_matches_def event_value_def body_mentions_def)

definition message_actions ::
    "text_env \<Rightarrow> flattened \<Rightarrow> push_ctx \<Rightarrow> string \<Rightarrow> push_action list" where
  "message_actions E e ctx localpart =
     (if is_notice E e then [DontNotify]
      else if body_mentions E e (ctx_display_name ctx) then
        [Notify, SetTweak (Sound ''default''), SetTweak (Highlight True)]
      else if body_mentions E e ''@room'' \<and> condition_holds E e ctx (SenderNotificationPermission ''room'') then
        [Notify, SetTweak (Highlight True)]
      else if body_mentions E e localpart then [Notify, SetTweak (Sound ''default''), SetTweak (Highlight True)]
      else if ctx_member_count ctx = 2 then [Notify, SetTweak (Sound ''default''), SetTweak (Highlight False)]
      else [Notify, SetTweak (Highlight False)])"

lemma find_message_rule:
  assumes "literal_globs E" "flattened_get e ''type'' = Some ''m.room.message''"
    "rule_contains_user_name u = Ok c" "user_id_localpart u = Ok lp"
    and rs: "rs = \<lparr>content_rules = [c], override_rules = rule_master # default_overrides pre_spec u,
      room_rules = [], sender_rules = [], underride_rules = default_underrides\<rparr>"
  shows "(case find (rule_holds E e ctx) (ruleset_rules rs) of Some r \<Rightarrow> any_actions r | None \<Rightarrow> []) =
    message_actions E e ctx lp"
proof -
  note t = type_literals[OF assms(1,2), of ctx]
  have c: "c = \<lparr>actions = [Notify, SetTweak (Sound ''default''), SetTweak (Highlight True)], default = True, enabled = True,
       rule_id = ''.m.rules.contains_user_name'', pattern = lp\<rparr>"
    using assms(3,4) by (simp add: rule_contains_user_name_def)
  let ?P = "rule_holds E e ctx"
  have h: "\<not> ?P (Override rule_master)" "?P (Override rule_suppress_notices) \<longleftrightarrow> is_notice E e"
      "\<not> ?P (Override (rule_invite_for_me u))" "\<not> ?P (Override rule_member_event)"
      "?P (Override rule_contains_display_name) \<longleftrightarrow> body_mentions E e (ctx_display_name ctx)"
      "\<not> ?P (Override rule_tombstone)" "\<not> ?P (Override rule_reaction)"
      "?P (Override rule_roomnotif) \<longleftrightarrow>
        body_mentions E e ''@room'' \<and> condition_holds E e ctx (SenderNotificationPermission ''room'')"
      "?P (Content c) \<longleftrightarrow> body_mentions E e lp"
      "\<not> ?P (Underride rule_call)" "\<not> ?P (Underride rule_encrypted_room_one_to_one)"
      "?P (Underride rule_room_one_to_one) \<longleftrightarrow> ctx_member_count ctx = 2" "?P (Underride rule_message)"
    using t notice_literal[OF assms(1), of e ctx]
    by (simp_all add: rule_defs c body_match member_count_from_def del: condition_holds.simps(4))
       (simp_all add: body_mentions_def)
  let ?S = "condition_holds E e ctx (SenderNotificationPermission ''room'')"
  have "find ?P (ruleset_rules rs) = Some (
      if is_notice E e then Override rule_suppress_notices
      else if body_mentions E e (ctx_display_name ctx) then Override rule_contains_display_name
      else if body_mentions E e ''@room'' \<and> ?S then Override rule_roomnotif
      else if body_mentions E e lp then Content c
      else if ctx_member_count ctx = 2 then Underride rule_room_one_to_one else Underride rule_message)"
    unfolding rs ruleset_rules_def default_overrides_def default_underrides_def
    by (cases pre_spec) (simp_all add: h del: rule_holds.simps condition_holds.simps)
  then show ?thesis
    by (simp add: message_actions_def any_actions_def rule_defs c del: condition_holds.simps)
qed

lemma default_text_ok:
  assumes "utf8 u" "utf8 lp" "c = \<lparr>actions = as, default = d, enabled = b, rule_id = i, pattern = lp\<rparr>"
  shows "ruleset_text_ok \<lparr>content_rules = [c], override_rules = rule_master # default_overrides pre_spec u,
      room_rules = [], sender_rules = [], underride_rules = default_underrides\<rparr>"
proof -
  have "utf8 x" if "x \<in> {''m.notice'', ''m.room.member'', ''invite'', ''m.room.tombstone'', '''', ''@room'', ''m.reaction'',
      ''m.call.invite'', ''m.room.encrypted'', ''m.room.message''}" for x
    using that by (auto intro!: is_ascii_utf8 simp: is_ascii_def simp del: utf8.simps)
  then show ?thesis using assms
    by (simp add: ruleset_text_ok_def ruleset_rules_def default_overrides_def default_underrides_def rule_defs
        del: utf8.simps)
qed

text \<open>With the default rules of a valid user, where the master rule is disabled, the actions for a message are
  decided in this order: notices never notify; the display name in the body notifies with a sound and a highlight; an
  allowed \<^verbatim>\<open>@room\<close> with a highlight; the localpart of the user id with a sound and a highlight; any other message with
  a sound in a room of two members and silently in other rooms.  The ids of the default rules are distinct.\<close>

lemma default_message_actions:
  assumes "index_env_ok I" "user_id_validate u = Ok ()" "utf8 u" "literal_globs E" "env_ok E" "ctx_ok ctx"
    and "to_value raw = Some v" "flattened_ok (flatten_value shown v [] [])"
    and "flattened_get (flatten_value shown v [] []) ''type'' = Some ''m.room.message''"
  shows "\<exists>lp rs. user_id_localpart u = Ok lp \<and> server_default pre_spec I u = Ok rs \<and> ruleset_ok rs
    \<and> get_actions E shown to_value rs raw ctx = Ok (message_actions E (flatten_value shown v [] []) ctx lp)"
proof -
  obtain lp where lp: "user_id_localpart u = Ok lp" "utf8 lp" using user_localpart[OF assms(2,3)] .
  then obtain c where c: "rule_contains_user_name u = Ok c"
      "c = \<lparr>actions = [Notify, SetTweak (Sound ''default''), SetTweak (Highlight True)], default = True, enabled = True,
         rule_id = ''.m.rules.contains_user_name'', pattern = lp\<rparr>"
    by (simp add: rule_contains_user_name_def)
  let ?rs = "\<lparr>content_rules = [c], override_rules = rule_master # default_overrides pre_spec u,
      room_rules = [], sender_rules = [], underride_rules = default_underrides\<rparr>"
  have "ruleset_ok ?rs" using default_ids by (simp add: ruleset_ok_kinds)
  moreover have "get_actions E shown to_value ?rs raw ctx = Ok (message_actions E (flatten_value shown v [] []) ctx lp)"
    using get_actions_find[where to_value = to_value and raw = raw and shown = shown,
        OF assms(7,8,5,6) default_text_ok[OF assms(3) lp(2) c(2)]]
      find_message_rule[OF assms(4,9) c(1) lp(1) refl] by simp
  ultimately show ?thesis using lp(1) server_default_rules[OF assms(1) c(1)] by blast
qed

lemma default_message_actions_witness:
  "\<exists>lp rs. user_id_localpart ''@a:b.c'' = Ok lp \<and> server_default True list_env ''@a:b.c'' = Ok rs \<and> ruleset_ok rs
    \<and> get_actions sample_env (\<lambda>_. ''1'') (\<lambda>_. Some (JObject [(''type'', JString ''m.room.message'')])) rs ''{}'' sample_ctx
      = Ok (message_actions sample_env
          (flatten_value (\<lambda>_. ''1'') (JObject [(''type'', JString ''m.room.message'')]) [] []) sample_ctx lp)"
proof (rule default_message_actions[OF list_env_ok _ _ _ sample_ok])
  show "literal_globs sample_env" by (auto simp: literal_globs_def sample_env_def)
qed (rule refl | code_simp)+

text \<open>The master rule switched on.\<close>

definition enable_master :: "ruleset \<Rightarrow> ruleset" where
  "enable_master rs = rs\<lparr>override_rules :=
     map (\<lambda>r. if rule_id r = ''.m.rule.master'' then r\<lparr>enabled := True\<rparr> else r) (override_rules rs)\<rparr>"

lemma extend_hd_override:
  assumes "index_env_ok I" "override_rules rs = r # ms"
  shows "\<exists>ms'. override_rules (ruleset_extend I rules rs) = r # ms'"
  using assms(2)
proof (induction rules arbitrary: rs ms)
  case (Cons x rules)
  have "\<exists>m. override_rules (snd (ruleset_add I x rs)) = r # m"
    unfolding add_unfold[OF assms(1)] using Cons.prems by (cases x) auto
  then show ?case using Cons.IH by auto
qed simp

text \<open>Once the master rule of the default ruleset is enabled, no event notifies, whatever rules the user adds
  afterwards: \<open>add\<close> appends, so the override rules of the user come after the master rule and are never reached.\<close>

lemma master_silences_all_rules:
  assumes "index_env_ok I" "server_default pre_spec I u = Ok rs" "to_value raw = Some v"
  shows "get_actions E shown to_value (ruleset_extend I rules (enable_master rs)) raw ctx = Ok [DontNotify]"
proof -
  obtain c where "rule_contains_user_name u = Ok c" using assms(2) by (auto simp: server_default_def res_simps)
  then have "override_rules rs = rule_master # default_overrides pre_spec u"
    using server_default_rules[OF assms(1)] assms(2) by auto
  then obtain m where "override_rules (enable_master rs) = rule_master\<lparr>enabled := True\<rparr> # m"
    by (simp add: enable_master_def rule_master_def)
  then obtain m' where o': "override_rules (ruleset_extend I rules (enable_master rs)) = rule_master\<lparr>enabled := True\<rparr> # m'"
    using extend_hd_override[OF assms(1)] by blast
  have "ruleset_iter_next (ruleset_into_iter (ruleset_extend I rules (enable_master rs))) =
      (Some (RefOverride (rule_master\<lparr>enabled := True\<rparr>)),
       (ruleset_into_iter (ruleset_extend I rules (enable_master rs)))\<lparr>it_override := m'\<rparr>)"
    by (simp add: ruleset_iter_next.simps ruleset_into_iter_def o')
  then show ?thesis using assms(3)
    by (simp add: get_actions_def get_match_def flattened_from_raw_def iter_find.simps conditional_applies_def rule_master_def)
qed

lemma master_silences_all_rules_witness:
  "\<exists>rs. server_default False list_env ''@a:b.c'' = Ok rs
    \<and> get_actions sample_env (\<lambda>_. ''1'') (\<lambda>_. Some (JObject []))
        (ruleset_extend list_env [Override (rule_master\<lparr>enabled := True, rule_id := ''mine'', actions := [Notify]\<rparr>)]
          (enable_master rs)) ''{}'' sample_ctx = Ok [DontNotify]"
proof -
  have "user_id_localpart ''@a:b.c'' = Ok ''a''" by code_simp
  then obtain c where c: "rule_contains_user_name ''@a:b.c'' = Ok c" by (simp add: rule_contains_user_name_def)
  from server_default_rules[OF list_env_ok c, of False] show ?thesis
    by (intro exI conjI, assumption) (rule master_silences_all_rules[OF list_env_ok _ refl], assumption)
qed

end
