(* ===== verification/String_Enums.thy ===== *)
theory String_Enums
  imports Word_Match
begin

text \<open>The derive macros for enums that are strings on the wire, \<^verbatim>\<open>ruma-serde-macros/src\<close>: \<^verbatim>\<open>case.rs\<close>,
  \<^verbatim>\<open>attr.rs\<close>, \<^verbatim>\<open>util.rs\<close>, \<^verbatim>\<open>enum_as_ref_str.rs\<close>, \<^verbatim>\<open>enum_from_string.rs\<close> and the other implementations that
  \<open>StringEnum\<close> generates.  An enum declaration is a record of what the macros read of it; expanding it gives the
  two \<open>match\<close>es of the generated code as tables, with the compile errors of the macros, and running the tables
  gives the generated functions.\<close>

section \<open>Renaming\<close>

datatype rename_rule =
    NoRule | LowerCase | Uppercase | PascalCase | CamelCase | SnakeCase | ScreamingSnakeCase | KebabCase
  | ScreamingKebabCase | MatrixErrorCase | MatrixSnakeCase | MatrixDottedCase

definition rename_rule_from_str :: "string \<Rightarrow> (rename_rule, unit) result" where
  "rename_rule_from_str s =
     (if s = ''lowercase'' then Ok LowerCase
      else if s = ''UPPERCASE'' then Ok Uppercase
      else if s = ''PascalCase'' then Ok PascalCase
      else if s = ''camelCase'' then Ok CamelCase
      else if s = ''snake_case'' then Ok SnakeCase
      else if s = ''SCREAMING_SNAKE_CASE'' then Ok ScreamingSnakeCase
      else if s = ''kebab-case'' then Ok KebabCase
      else if s = ''SCREAMING-KEBAB-CASE'' then Ok ScreamingKebabCase
      else if s = ''M_MATRIX_ERROR_CASE'' then Ok MatrixErrorCase
      else if s = ''m.snake_case'' then Ok MatrixSnakeCase
      else if s = ''m.dotted.case'' then Ok MatrixDottedCase
      else Err ())"

text \<open>\<open>char::is_uppercase\<close> and \<open>str::replace\<close> of a character; \<open>upper\<close> is the Unicode part of the first.\<close>

definition is_uppercase :: "(nat \<Rightarrow> bool) \<Rightarrow> nat \<Rightarrow> bool" where
  "is_uppercase upper c \<longleftrightarrow> (if c < 128 then 65 \<le> c \<and> c \<le> 90 else upper c)"

definition replace_char :: "char \<Rightarrow> char \<Rightarrow> string \<Rightarrow> string" where
  "replace_char a b s = map (\<lambda>c. if c = a then b else c) s"

text \<open>The loop over \<open>char_indices\<close>: \<open>initial\<close> is \<open>i = 0\<close>, and the characters come with their encoding.\<close>

fun snake_loop :: "(nat \<Rightarrow> bool) \<Rightarrow> bool \<Rightarrow> string list \<Rightarrow> string" where
  "snake_loop upper initial [] = []"
| "snake_loop upper initial (ch # chs) =
     (if \<not> initial \<and> is_uppercase upper (first_char ch) then ''_'' else []) @ map ascii_lower ch
     @ snake_loop upper False chs"

definition snake_case :: "(nat \<Rightarrow> bool) \<Rightarrow> string \<Rightarrow> string" where
  "snake_case upper v = snake_loop upper True (chunks v)"

definition screaming_snake_case :: "(nat \<Rightarrow> bool) \<Rightarrow> string \<Rightarrow> string" where
  "screaming_snake_case upper v = map ascii_upper (snake_case upper v)"

fun apply_to_variant :: "(nat \<Rightarrow> bool) \<Rightarrow> rename_rule \<Rightarrow> string \<Rightarrow> (string, 'e) result" where
  "apply_to_variant upper NoRule v = Ok v"
| "apply_to_variant upper PascalCase v = Ok v"
| "apply_to_variant upper LowerCase v = Ok (map ascii_lower v)"
| "apply_to_variant upper Uppercase v = Ok (map ascii_upper v)"
| "apply_to_variant upper CamelCase v =
     and_then (slice v 0 1) (\<lambda>a. and_then (slice_from v 1) (\<lambda>b. Ok (map ascii_lower a @ b)))"
| "apply_to_variant upper SnakeCase v = Ok (snake_case upper v)"
| "apply_to_variant upper ScreamingSnakeCase v = Ok (screaming_snake_case upper v)"
| "apply_to_variant upper KebabCase v = Ok (replace_char (CHR ''_'') (CHR ''-'') (snake_case upper v))"
| "apply_to_variant upper ScreamingKebabCase v =
     Ok (replace_char (CHR ''_'') (CHR ''-'') (screaming_snake_case upper v))"
| "apply_to_variant upper MatrixErrorCase v = Ok (''M_'' @ screaming_snake_case upper v)"
| "apply_to_variant upper MatrixSnakeCase v = Ok (''m.'' @ snake_case upper v)"
| "apply_to_variant upper MatrixDottedCase v = Ok (''m.'' @ replace_char (CHR ''_'') (CHR ''.'') (snake_case upper v))"

text \<open>Struct fields.  \<open>_\<close> is one byte, so the loop over the characters is a loop over the bytes: the bytes of other
  characters keep their value, except an ASCII letter that is capitalized.\<close>

fun pascal_loop :: "bool \<Rightarrow> string \<Rightarrow> string" where
  "pascal_loop capitalize [] = []"
| "pascal_loop capitalize (ch # chs) =
     (if ch = CHR ''_'' then pascal_loop True chs
      else if capitalize then ascii_upper ch # pascal_loop False chs
      else ch # pascal_loop False chs)"

fun apply_to_field :: "rename_rule \<Rightarrow> string \<Rightarrow> (string, 'e) result" where
  "apply_to_field NoRule f = Ok f"
| "apply_to_field LowerCase f = Ok f"
| "apply_to_field SnakeCase f = Ok f"
| "apply_to_field Uppercase f = Ok (map ascii_upper f)"
| "apply_to_field PascalCase f = Ok (pascal_loop True f)"
| "apply_to_field CamelCase f =
     (let pascal = pascal_loop True f in
      and_then (slice pascal 0 1) (\<lambda>a. and_then (slice_from pascal 1) (\<lambda>b. Ok (map ascii_lower a @ b))))"
| "apply_to_field ScreamingSnakeCase f = Ok (map ascii_upper f)"
| "apply_to_field KebabCase f = Ok (replace_char (CHR ''_'') (CHR ''-'') f)"
| "apply_to_field ScreamingKebabCase f = Ok (replace_char (CHR ''_'') (CHR ''-'') (map ascii_upper f))"
| "apply_to_field MatrixErrorCase f = Ok (''M_'' @ map ascii_upper f)"
| "apply_to_field MatrixSnakeCase f = Ok (''m.'' @ f)"
| "apply_to_field MatrixDottedCase f = Ok (''m.'' @ replace_char (CHR ''_'') (CHR ''.'') f)"

section \<open>Enum declarations\<close>

datatype variant_fields = UnitFields | DataFields nat

text \<open>A variant with the values of its \<open>#[ruma_enum(rename = ...)]\<close> attributes and the feature of its \<open>#[cfg]\<close>, and
  an enum with the values of its \<open>#[ruma_enum(rename_all = ...)]\<close> attributes.\<close>

record enum_variant =
  v_name :: string
  v_renames :: "string list"
  v_fields :: variant_fields
  v_feature :: "string option"

record item_enum =
  e_ident :: string
  e_rename_all :: "string list"
  e_variants :: "enum_variant list"

datatype syn_error =
    MultipleRenameAll | InvalidRenameAll | MultipleRename | MultipleDataFields | MultipleDataVariants
  | RenameOnData | NoFallbackVariant

text \<open>The compiler removes the variants of disabled features before the macros run.\<close>

definition cfg_strip :: "string list \<Rightarrow> item_enum \<Rightarrow> item_enum" where
  "cfg_strip features item =
     item\<lparr>e_variants := filter (\<lambda>v. case v_feature v of None \<Rightarrow> True | Some f \<Rightarrow> f \<in> set features) (e_variants item)\<rparr>"

definition parse_rename_all :: "string \<Rightarrow> (rename_rule, syn_error) result" where
  "parse_rename_all s = map_err (\<lambda>_. InvalidRenameAll) (rename_rule_from_str s)"

definition get_rename_rule :: "item_enum \<Rightarrow> (rename_rule, syn_error) result" where
  "get_rename_rule item = and_then (map_res parse_rename_all (e_rename_all item)) (\<lambda>rules.
     case rules of [] \<Rightarrow> Ok NoRule | [r] \<Rightarrow> Ok r | _ \<Rightarrow> Err MultipleRenameAll)"

definition get_rename :: "enum_variant \<Rightarrow> (string option, syn_error) result" where
  "get_rename v = (case v_renames v of [] \<Rightarrow> Ok None | [s] \<Rightarrow> Ok (Some s) | _ \<Rightarrow> Err MultipleRename)"

section \<open>The generated functions\<close>

datatype match_arm = ArmStr string | ArmInner

text \<open>\<open>expand_enum_as_ref_str\<close>: an arm for each variant, its string or the inner value.\<close>

definition as_ref_arm :: "(nat \<Rightarrow> bool) \<Rightarrow> rename_rule \<Rightarrow> enum_variant \<Rightarrow> (string \<times> match_arm, syn_error) result" where
  "as_ref_arm upper rule v = and_then (get_rename v) (\<lambda>rename.
     case (rename, v_fields v) of
       (None, UnitFields) \<Rightarrow> and_then (apply_to_variant upper rule (v_name v)) (\<lambda>s. Ok (v_name v, ArmStr s))
     | (Some s, UnitFields) \<Rightarrow> Ok (v_name v, ArmStr s)
     | (None, DataFields n) \<Rightarrow> if n \<noteq> 1 then Err MultipleDataFields else Ok (v_name v, ArmInner)
     | (Some s, DataFields n) \<Rightarrow> Err RenameOnData)"

definition expand_enum_as_ref_str ::
    "(nat \<Rightarrow> bool) \<Rightarrow> item_enum \<Rightarrow> ((string \<times> match_arm) list, syn_error) result" where
  "expand_enum_as_ref_str upper item =
     and_then (get_rename_rule item) (\<lambda>rule. map_res (as_ref_arm upper rule) (e_variants item))"

text \<open>\<open>expand_enum_from_string\<close>: a branch for each unit variant, and the variant with data as fallback.\<close>

fun from_branches ::
    "(nat \<Rightarrow> bool) \<Rightarrow> rename_rule \<Rightarrow> enum_variant list \<Rightarrow> string option
      \<Rightarrow> ((string \<times> string) list \<times> string option, syn_error) result" where
  "from_branches upper rule [] fallback = Ok ([], fallback)"
| "from_branches upper rule (v # vs) fallback = and_then (get_rename v) (\<lambda>rename.
     case (rename, v_fields v) of
       (None, UnitFields) \<Rightarrow>
         and_then (apply_to_variant upper rule (v_name v)) (\<lambda>s.
         and_then (from_branches upper rule vs fallback) (\<lambda>(bs, fb). Ok ((s, v_name v) # bs, fb)))
     | (Some s, UnitFields) \<Rightarrow>
         and_then (from_branches upper rule vs fallback) (\<lambda>(bs, fb). Ok ((s, v_name v) # bs, fb))
     | (None, DataFields n) \<Rightarrow>
         if n \<noteq> 1 then Err MultipleDataFields
         else if fallback \<noteq> None then Err MultipleDataVariants
         else from_branches upper rule vs (Some (v_name v))
     | (Some s, DataFields n) \<Rightarrow> Err RenameOnData)"

definition expand_enum_from_string ::
    "(nat \<Rightarrow> bool) \<Rightarrow> item_enum \<Rightarrow> ((string \<times> string) list \<times> string, syn_error) result" where
  "expand_enum_from_string upper item = and_then (get_rename_rule item) (\<lambda>rule.
     and_then (from_branches upper rule (e_variants item) None) (\<lambda>(branches, fallback).
     and_then (ok_or NoFallbackVariant fallback) (\<lambda>fb. Ok (branches, fb))))"

text \<open>\<open>StringEnum\<close>.\<close>

record string_enum =
  se_as_ref :: "(string \<times> match_arm) list"
  se_branches :: "(string \<times> string) list"
  se_fallback :: string

definition expand_string_enum :: "(nat \<Rightarrow> bool) \<Rightarrow> item_enum \<Rightarrow> (string_enum, syn_error) result" where
  "expand_string_enum upper item = and_then (expand_enum_as_ref_str upper item) (\<lambda>arms.
     and_then (expand_enum_from_string upper item) (\<lambda>(branches, fallback).
     Ok \<lparr>se_as_ref = arms, se_branches = branches, se_fallback = fallback\<rparr>))"

text \<open>A value of the enum: a variant, or the variant with data and its string.\<close>

datatype enum_value = UnitValue string | DataValue string string

definition enum_from :: "string_enum \<Rightarrow> string \<Rightarrow> enum_value" where
  "enum_from e s = (case map_of (se_branches e) s of Some v \<Rightarrow> UnitValue v | None \<Rightarrow> DataValue (se_fallback e) s)"

fun enum_as_ref :: "string_enum \<Rightarrow> enum_value \<Rightarrow> string option" where
  "enum_as_ref e (UnitValue v) = (case map_of (se_as_ref e) v of Some (ArmStr s) \<Rightarrow> Some s | _ \<Rightarrow> None)"
| "enum_as_ref e (DataValue v s) = (case map_of (se_as_ref e) v of Some ArmInner \<Rightarrow> Some s | _ \<Rightarrow> None)"

text \<open>\<open>PartialEqAsRefStr\<close> and \<open>OrdAsRefStr\<close> compare the strings.\<close>

definition enum_eq_as_ref :: "string_enum \<Rightarrow> enum_value \<Rightarrow> enum_value \<Rightarrow> bool" where
  "enum_eq_as_ref e x y \<longleftrightarrow> enum_as_ref e x = enum_as_ref e y"

definition enum_cmp_as_ref :: "string_enum \<Rightarrow> enum_value \<Rightarrow> enum_value \<Rightarrow> ordering option" where
  "enum_cmp_as_ref e x y =
     (case (enum_as_ref e x, enum_as_ref e y) of (Some a, Some b) \<Rightarrow> Some (cmp a b) | _ \<Rightarrow> None)"

section \<open>The macros meet\<close>

lemma as_ref_arm_name: "as_ref_arm upper rule v = Ok (n, arm) \<Longrightarrow> n = v_name v"
  by (auto simp: as_ref_arm_def res_simps split: option.splits variant_fields.splits if_splits)

lemma from_branches_arms:
  "from_branches upper rule vs fallback = Ok (bs, fb) \<Longrightarrow>
     (\<forall>s n. (s, n) \<in> set bs \<longrightarrow> (\<exists>v\<in>set vs. v_name v = n \<and> as_ref_arm upper rule v = Ok (n, ArmStr s)))
     \<and> (fb = fallback \<or> (\<exists>v\<in>set vs. fb = Some (v_name v) \<and> as_ref_arm upper rule v = Ok (v_name v, ArmInner)))"
proof (induction vs arbitrary: fallback bs fb)
  case (Cons v vs)
  obtain rename where r: "get_rename v = Ok rename" using Cons.prems by (auto simp: res_simps)
  show ?case
  proof (cases "v_fields v")
    case UnitFields
    then obtain s bs' where s: "as_ref_arm upper rule v = Ok (v_name v, ArmStr s)" "bs = (s, v_name v) # bs'"
        "from_branches upper rule vs fallback = Ok (bs', fb)"
      using Cons.prems r by (cases rename) (auto simp: as_ref_arm_def res_simps)
    show ?thesis using Cons.IH[OF s(3)] s(1,2) by auto
  next
    case (DataFields n)
    then have "rename = None" "n = 1" and f: "from_branches upper rule vs (Some (v_name v)) = Ok (bs, fb)"
      using Cons.prems r by (auto split: option.splits if_splits)
    then have "as_ref_arm upper rule v = Ok (v_name v, ArmInner)" using DataFields r by (simp add: as_ref_arm_def)
    then show ?thesis using Cons.IH[OF f] by auto
  qed
qed simp

text \<open>What expanding an enum gives, by its variants.\<close>

lemma expand_cases:
  assumes "expand_string_enum upper item = Ok e" "distinct (map v_name (e_variants item))"
  shows "(s, n) \<in> set (se_branches e) \<Longrightarrow> map_of (se_as_ref e) n = Some (ArmStr s)"
    and "map_of (se_as_ref e) (se_fallback e) = Some ArmInner"
proof -
  obtain rule bs fb where r: "get_rename_rule item = Ok rule"
      and as: "map_res (as_ref_arm upper rule) (e_variants item) = Ok (se_as_ref e)"
      and bs: "from_branches upper rule (e_variants item) None = Ok (bs, Some fb)"
      and e: "se_branches e = bs" "se_fallback e = fb"
    using assms(1)
    by (auto simp: expand_string_enum_def expand_enum_as_ref_str_def expand_enum_from_string_def res_simps simp del: from_branches.simps)
  have l: "list_all2 (\<lambda>v a. as_ref_arm upper rule v = Ok a) (e_variants item) (se_as_ref e)"
    using as by (simp add: map_res_eq_Ok)
  then have names: "map fst (se_as_ref e) = map v_name (e_variants item)"
    by (induction rule: list_all2_induct) (auto dest: as_ref_arm_name)
  have arm: "map_of (se_as_ref e) (v_name v) = Some a"
    if "v \<in> set (e_variants item)" "as_ref_arm upper rule v = Ok (v_name v, a)" for v a
  proof -
    have "(v_name v, a) \<in> set (se_as_ref e)"
      using l that by (auto simp: list_all2_conv_all_nth in_set_conv_nth)
    then show ?thesis using names assms(2) by (metis map_of_is_SomeI)
  qed
  note b = from_branches_arms[OF bs]
  show "(s, n) \<in> set (se_branches e) \<Longrightarrow> map_of (se_as_ref e) n = Some (ArmStr s)"
    using b arm unfolding e by metis
  show "map_of (se_as_ref e) (se_fallback e) = Some ArmInner"
    using b arm unfolding e by (metis option.distinct(1) option.inject)
qed

text \<open>C29. For every enum that \<open>StringEnum\<close> accepts, reading any string and printing the value gives the string back,
  whatever the renaming rules and attributes; and if the strings of its variants are distinct, printing a variant and
  reading it gives the variant.\<close>

theorem string_enum_roundtrip:
  assumes "expand_string_enum upper item = Ok e" "distinct (map v_name (e_variants item))"
  shows "enum_as_ref e (enum_from e s) = Some s
    \<and> (distinct (map fst (se_branches e)) \<longrightarrow> v \<in> snd ` set (se_branches e) \<longrightarrow>
        (\<exists>t. enum_as_ref e (UnitValue v) = Some t \<and> enum_from e t = UnitValue v))"
proof (intro conjI impI)
  show "enum_as_ref e (enum_from e s) = Some s"
  proof (cases "map_of (se_branches e) s")
    case (Some n)
    then show ?thesis using expand_cases(1)[OF assms map_of_SomeD[OF Some]] by (simp add: enum_from_def)
  qed (simp add: enum_from_def expand_cases(2)[OF assms])
next
  assume d: "distinct (map fst (se_branches e))" and "v \<in> snd ` set (se_branches e)"
  then obtain t where t: "(t, v) \<in> set (se_branches e)" by auto
  then have "enum_as_ref e (UnitValue v) = Some t" using expand_cases(1)[OF assms] by simp
  moreover have "enum_from e t = UnitValue v" using t d by (simp add: enum_from_def)
  ultimately show "\<exists>t. enum_as_ref e (UnitValue v) = Some t \<and> enum_from e t = UnitValue v" by blast
qed

text \<open>Names of variants in ASCII.\<close>

definition pascal_name :: "string \<Rightarrow> bool" where
  "pascal_name v \<longleftrightarrow> (case v of [] \<Rightarrow> False | c # cs \<Rightarrow> is_upper c \<and> list_all is_ascii_alnum cs)"

lemma ascii_char:
  assumes "is_ascii_alnum c"
  shows "byte c < 128" "c \<noteq> CHR ''_''" "first_char [c] = byte c" "is_uppercase upper (byte c) = is_upper c"
    "ascii_lower c \<noteq> CHR ''_''" "is_upper c \<Longrightarrow> ascii_upper (ascii_lower c) = c" "\<not> is_upper c \<Longrightarrow> ascii_lower c = c"
proof -
  show b: "byte c < 128" using assms by (auto simp: is_ascii_alnum_def is_digit_def is_lower_def is_upper_def)
  show "c \<noteq> CHR ''_''" using assms by (auto simp: is_ascii_alnum_def is_digit_def is_lower_def is_upper_def)
  show "first_char [c] = byte c" using b by (simp add: first_char_def)
  show "is_uppercase upper (byte c) = is_upper c" using b by (simp add: is_uppercase_def is_upper_def)
  have l: "of_char (char_of (byte c + 32) :: char) = byte c + 32" if "is_upper c"
    using that by (simp add: is_upper_def of_char_of)
  show "ascii_lower c \<noteq> CHR ''_''"
  proof
    assume a: "ascii_lower c = CHR ''_''"
    then have "byte (ascii_lower c) = 95" by simp
    then show False using assms l by (auto simp: ascii_lower_def is_ascii_alnum_def is_digit_def is_lower_def is_upper_def split: if_splits)
  qed
  show "is_upper c \<Longrightarrow> ascii_upper (ascii_lower c) = c"
    using l by (simp add: ascii_lower_def ascii_upper_def is_lower_def) (simp add: is_upper_def)
  show "\<not> is_upper c \<Longrightarrow> ascii_lower c = c" by (simp add: ascii_lower_def)
qed

lemma chunks_alnum: "list_all is_ascii_alnum s \<Longrightarrow> chunks s = map (\<lambda>c. [c]) s"
proof (induction s)
  case (Cons c s)
  then show ?case using ascii_char(1)[of c] by (subst chunks.simps) simp
qed simp

lemma pascal_snake_loop:
  "list_all is_ascii_alnum s \<Longrightarrow> pascal_loop False (snake_loop upper False (map (\<lambda>c. [c]) s)) = s"
proof (induction s)
  case (Cons c s)
  then show ?case using ascii_char[of c] by (cases "is_upper c") simp_all
qed simp

lemma rename_snake:
  assumes "pascal_name v"
  shows "pascal_loop True (snake_case upper v) = v"
proof -
  obtain c cs where v: "v = c # cs" "is_upper c" "list_all is_ascii_alnum cs"
    using assms by (auto simp: pascal_name_def split: list.splits)
  then have "is_ascii_alnum c" by (simp add: is_ascii_alnum_def)
  note a = ascii_char[OF this]
  have "chunks v = [c] # map (\<lambda>c. [c]) cs" using chunks_alnum[of v] v \<open>is_ascii_alnum c\<close> by simp
  then show ?thesis using a v(1,2) pascal_snake_loop[OF v(3)] by (simp add: snake_case_def)
qed

text \<open>The snake case name of a variant determines it: converting the name back with the pascal case rule for fields
  gives the identifier of the variant, for ASCII identifiers that start with a capital and have no underscores, so
  no two such variants of an enum share a name.\<close>

lemma rename_roundtrip:
  assumes "pascal_name v"
  shows "and_then (apply_to_variant upper SnakeCase v) (apply_to_field PascalCase) = (Ok v :: (string, 'e) result)"
  by (simp add: rename_snake[OF assms])

lemma rename_roundtrip_witness:
  "and_then (apply_to_variant (\<lambda>_. False) SnakeCase ''SignedCurve25519'') (apply_to_field PascalCase) =
     (Ok ''SignedCurve25519'' :: (string, unit) result)"
  by (rule rename_roundtrip) code_simp

text \<open>Variants of the declarations.\<close>

definition unit_variant :: "string \<Rightarrow> enum_variant" where
  "unit_variant n = \<lparr>v_name = n, v_renames = [], v_fields = UnitFields, v_feature = None\<rparr>"

definition renamed_variant :: "string \<Rightarrow> string \<Rightarrow> enum_variant" where
  "renamed_variant n s = \<lparr>v_name = n, v_renames = [s], v_fields = UnitFields, v_feature = None\<rparr>"

definition custom_variant :: enum_variant where
  "custom_variant = \<lparr>v_name = ''_Custom'', v_renames = [], v_fields = DataFields 1, v_feature = None\<rparr>"

definition with_feature :: "string \<Rightarrow> enum_variant \<Rightarrow> enum_variant" where
  "with_feature f v = v\<lparr>v_feature := Some f\<rparr>"

lemma string_enum_roundtrip_witness:
  "let item = \<lparr>e_ident = ''PushFormat'', e_rename_all = [''snake_case''],
         e_variants = [unit_variant ''EventIdOnly'', custom_variant]\<rparr>;
       e = \<lparr>se_as_ref = [(''EventIdOnly'', ArmStr ''event_id_only''), (''_Custom'', ArmInner)],
         se_branches = [(''event_id_only'', ''EventIdOnly'')], se_fallback = ''_Custom''\<rparr>
   in expand_string_enum (\<lambda>_. False) item = Ok e \<and> enum_as_ref e (enum_from e ''x'') = Some ''x''
     \<and> (distinct (map fst (se_branches e)) \<longrightarrow> ''EventIdOnly'' \<in> snd ` set (se_branches e) \<longrightarrow>
        (\<exists>t. enum_as_ref e (UnitValue ''EventIdOnly'') = Some t \<and> enum_from e t = UnitValue ''EventIdOnly''))"
proof -
  let ?item = "\<lparr>e_ident = ''PushFormat'', e_rename_all = [''snake_case''],
         e_variants = [unit_variant ''EventIdOnly'', custom_variant]\<rparr>"
  let ?e = "\<lparr>se_as_ref = [(''EventIdOnly'', ArmStr ''event_id_only''), (''_Custom'', ArmInner)],
         se_branches = [(''event_id_only'', ''EventIdOnly'')], se_fallback = ''_Custom''\<rparr>"
  have "expand_string_enum (\<lambda>_. False) ?item = Ok ?e" by code_simp
  moreover have "distinct (map v_name (e_variants ?item))" by code_simp
  ultimately show ?thesis using string_enum_roundtrip[of "\<lambda>_. False" ?item ?e "''x''" "''EventIdOnly''"] unfolding Let_def by blast
qed

text \<open>The common shape: plain variants, one renaming rule and the fallback.\<close>

lemma map_res_append:
  "map_res f (xs @ ys) = and_then (map_res f xs) (\<lambda>as. and_then (map_res f ys) (\<lambda>bs. Ok (as @ bs)))"
proof (induction xs)
  case Nil
  then show ?case by (cases "map_res f ys") simp_all
next
  case (Cons x xs)
  then show ?case by (cases "f x"; cases "map_res f xs"; cases "map_res f ys") simp_all
qed

lemma expand_plain:
  assumes "e_rename_all item = [r]" "rename_rule_from_str r = Ok rule"
    and "e_variants item = map unit_variant names @ [custom_variant]"
    and f: "\<And>n. n \<in> set names \<Longrightarrow> apply_to_variant upper rule n = (Ok (f n) :: (string, syn_error) result)"
  shows "expand_string_enum upper item =
    Ok \<lparr>se_as_ref = map (\<lambda>n. (n, ArmStr (f n))) names @ [(''_Custom'', ArmInner)],
        se_branches = map (\<lambda>n. (f n, n)) names, se_fallback = ''_Custom''\<rparr>"
proof -
  have r: "get_rename_rule item = Ok rule"
    using assms(1,2) by (simp add: get_rename_rule_def parse_rename_all_def)
  have a: "map_res (as_ref_arm upper rule) (map unit_variant names) = Ok (map (\<lambda>n. (n, ArmStr (f n))) names)"
    using f by (induction names) (simp_all add: as_ref_arm_def get_rename_def unit_variant_def)
  have b: "from_branches upper rule (map unit_variant names @ [custom_variant]) None =
      Ok (map (\<lambda>n. (f n, n)) names, Some ''_Custom'')"
    using f by (induction names) (simp_all add: get_rename_def unit_variant_def custom_variant_def)
  show ?thesis
    by (simp add: expand_string_enum_def expand_enum_as_ref_str_def expand_enum_from_string_def r assms(3)
        map_res_append a b)
       (simp add: as_ref_arm_def get_rename_def custom_variant_def)
qed

text \<open>Distinct names have distinct screaming names.\<close>

lemma lower_upper_snake:
  assumes "list_all is_ascii_alnum s"
  shows "map ascii_lower (map ascii_upper (snake_loop upper b (map (\<lambda>c. [c]) s))) = snake_loop upper b (map (\<lambda>c. [c]) s)"
proof -
  have l: "ascii_lower (ascii_upper (ascii_lower c)) = ascii_lower c" if "is_ascii_alnum c" for c
  proof (cases "is_upper c")
    case True
    then show ?thesis using ascii_char(6)[OF that True] by simp
  next
    case False
    then have "ascii_lower c = c" by (simp add: ascii_lower_def)
    moreover have "ascii_lower (ascii_upper c) = c"
    proof (cases "is_lower c")
      case True
      then have "of_char (char_of (byte c - 32) :: char) = byte c - 32"
        unfolding of_char_of is_lower_def by (intro mod_less) linarith
      moreover from True have "65 \<le> byte c - 32 \<and> byte c - 32 \<le> 90" unfolding is_lower_def by linarith
      ultimately show ?thesis using True by (simp add: ascii_lower_def ascii_upper_def is_upper_def) (simp add: is_lower_def)
    qed (use False in \<open>simp add: ascii_lower_def ascii_upper_def\<close>)
    ultimately show ?thesis by simp
  qed
  have u: "ascii_lower (ascii_upper (CHR ''_'')) = CHR ''_''" by code_simp
  show ?thesis using assms by (induction s arbitrary: b) (simp_all add: l u)
qed

lemma screaming_inj:
  assumes "pascal_name v" "pascal_name w" "screaming_snake_case upper v = screaming_snake_case upper w"
  shows "v = w"
proof -
  have c: "list_all is_ascii_alnum v" if "pascal_name v" for v
    using that by (auto simp: pascal_name_def is_ascii_alnum_def split: list.splits)
  have "snake_case upper v = map ascii_lower (screaming_snake_case upper v)" if "pascal_name v" for v
    unfolding screaming_snake_case_def snake_case_def chunks_alnum[OF c[OF that]]
    by (rule lower_upper_snake[OF c[OF that], symmetric])
  note e = this[OF assms(1)] this[OF assms(2)]
  have "snake_case upper v = snake_case upper w" unfolding e assms(3) ..
  then show ?thesis using rename_snake[OF assms(1)] rename_snake[OF assms(2)] by metis
qed

end
