(* ===== verification/Enum_Tables.thy ===== *)
theory Enum_Tables
  imports String_Enums
begin

text \<open>The declarations of the repository that derive \<open>StringEnum\<close> (or \<open>FromString\<close> with \<open>AsRefStr\<close>, or with
  \<open>DeserializeFromCowStr\<close> for the error codes), one definition per enum, as the macros of \<^verbatim>\<open>String_Enums\<close> see them,
  and that all of them expand to enums whose variants have distinct strings.\<close>

section \<open>Crate ruma-client-api\<close>

definition enum_err_code :: item_enum where
  "enum_err_code =
     \<lparr>e_ident = ''ErrCode'', e_rename_all = [''M_MATRIX_ERROR_CASE''],
      e_variants =
       [unit_variant ''Forbidden'', unit_variant ''UnknownToken'', unit_variant ''MissingToken'',
        unit_variant ''BadJson'', unit_variant ''NotJson'', unit_variant ''NotFound'',
        unit_variant ''LimitExceeded'', unit_variant ''Unknown'', unit_variant ''Unrecognized'',
        unit_variant ''Unauthorized'', unit_variant ''UserDeactivated'', unit_variant ''UserInUse'',
        unit_variant ''InvalidUsername'', unit_variant ''RoomInUse'', unit_variant ''InvalidRoomState'',
        unit_variant ''ThreepidInUse'', unit_variant ''ThreepidNotFound'',
        unit_variant ''ThreepidAuthFailed'', unit_variant ''ThreepidDenied'',
        unit_variant ''ServerNotTrusted'', unit_variant ''UnsupportedRoomVersion'',
        unit_variant ''IncompatibleRoomVersion'', unit_variant ''BadState'',
        unit_variant ''GuestAccessForbidden'', unit_variant ''CaptchaNeeded'',
        unit_variant ''CaptchaInvalid'', unit_variant ''MissingParam'', unit_variant ''InvalidParam'',
        unit_variant ''TooLarge'', unit_variant ''Exclusive'', unit_variant ''ResourceLimitExceeded'',
        unit_variant ''CannotLeaveServerNoticeRoom'', custom_variant]\<rparr>"

definition enum_third_party_id_removal_status :: item_enum where
  "enum_third_party_id_removal_status =
     \<lparr>e_ident = ''ThirdPartyIdRemovalStatus'', e_rename_all = [''kebab-case''],
      e_variants =
       [unit_variant ''NoSupport'', unit_variant ''Success'', custom_variant]\<rparr>"

definition enum_room_version_stability :: item_enum where
  "enum_room_version_stability =
     \<lparr>e_ident = ''RoomVersionStability'', e_rename_all = [''lowercase''],
      e_variants =
       [unit_variant ''Stable'', unit_variant ''Unstable'', custom_variant]\<rparr>"

definition enum_event_format :: item_enum where
  "enum_event_format =
     \<lparr>e_ident = ''EventFormat'', e_rename_all = [''snake_case''],
      e_variants =
       [unit_variant ''Client'', unit_variant ''Federation'', custom_variant]\<rparr>"

definition enum_rule_kind :: item_enum where
  "enum_rule_kind =
     \<lparr>e_ident = ''RuleKind'', e_rename_all = [''snake_case''],
      e_variants =
       [unit_variant ''Override'', unit_variant ''Underride'', unit_variant ''Sender'',
        unit_variant ''Room'', unit_variant ''Content'', custom_variant]\<rparr>"

definition enum_pusher_kind :: item_enum where
  "enum_pusher_kind =
     \<lparr>e_ident = ''PusherKind'', e_rename_all = [''snake_case''],
      e_variants =
       [unit_variant ''Http'', unit_variant ''Email'', custom_variant]\<rparr>"

definition enum_visibility :: item_enum where
  "enum_visibility =
     \<lparr>e_ident = ''Visibility'', e_rename_all = [''snake_case''],
      e_variants =
       [unit_variant ''Public'', unit_variant ''Private'', custom_variant]\<rparr>"

definition enum_auth_type :: item_enum where
  "enum_auth_type =
     \<lparr>e_ident = ''AuthType'', e_rename_all = [],
      e_variants =
       [renamed_variant ''Password'' ''m.login.password'',
        renamed_variant ''ReCaptcha'' ''m.login.recaptcha'', renamed_variant ''Token'' ''m.login.token'',
        renamed_variant ''OAuth2'' ''m.login.oauth2'',
        renamed_variant ''EmailIdentity'' ''m.login.email.identity'',
        renamed_variant ''Msisdn'' ''m.login.msisdn'', renamed_variant ''Sso'' ''m.login.sso'',
        renamed_variant ''Dummy'' ''m.login.dummy'',
        with_feature ''unstable-pre-spec'' (renamed_variant ''RegistrationToken'' ''org.matrix.msc3231.login.registration_token''),
        custom_variant]\<rparr>"

definition enum_room_preset :: item_enum where
  "enum_room_preset =
     \<lparr>e_ident = ''RoomPreset'', e_rename_all = [''snake_case''],
      e_variants =
       [unit_variant ''PrivateChat'', unit_variant ''PublicChat'', unit_variant ''TrustedPrivateChat'',
        custom_variant]\<rparr>"

definition enum_membership_event_filter :: item_enum where
  "enum_membership_event_filter =
     \<lparr>e_ident = ''MembershipEventFilter'', e_rename_all = [''lowercase''],
      e_variants =
       [unit_variant ''Join'', unit_variant ''Invite'', unit_variant ''Leave'', unit_variant ''Ban'',
        custom_variant]\<rparr>"

definition enum_grouping_key :: item_enum where
  "enum_grouping_key =
     \<lparr>e_ident = ''GroupingKey'', e_rename_all = [''snake_case''],
      e_variants =
       [unit_variant ''RoomId'', unit_variant ''Sender'', custom_variant]\<rparr>"

definition enum_search_keys :: item_enum where
  "enum_search_keys =
     \<lparr>e_ident = ''SearchKeys'', e_rename_all = [],
      e_variants =
       [renamed_variant ''ContentBody'' ''content.body'', renamed_variant ''ContentName'' ''content.name'',
        renamed_variant ''ContentTopic'' ''content.topic'', custom_variant]\<rparr>"

definition enum_order_by :: item_enum where
  "enum_order_by =
     \<lparr>e_ident = ''OrderBy'', e_rename_all = [''snake_case''],
      e_variants =
       [unit_variant ''Recent'', unit_variant ''Rank'', custom_variant]\<rparr>"

definition enum_thumbnail_method :: item_enum where
  "enum_thumbnail_method =
     \<lparr>e_ident = ''Method'', e_rename_all = [''snake_case''],
      e_variants =
       [unit_variant ''Crop'', unit_variant ''Scale'', custom_variant]\<rparr>"

definition enum_identity_provider_brand :: item_enum where
  "enum_identity_provider_brand =
     \<lparr>e_ident = ''IdentityProviderBrand'', e_rename_all = [],
      e_variants =
       [renamed_variant ''Apple'' ''org.matrix.apple'',
        renamed_variant ''Facebook'' ''org.matrix.facebook'',
        renamed_variant ''GitHub'' ''org.matrix.github'', renamed_variant ''GitLab'' ''org.matrix.gitlab'',
        renamed_variant ''Google'' ''org.matrix.google'',
        renamed_variant ''Twitter'' ''org.matrix.twitter'', custom_variant]\<rparr>"

section \<open>Crate ruma-common\<close>

definition enum_token_type :: item_enum where
  "enum_token_type =
     \<lparr>e_ident = ''TokenType'', e_rename_all = [],
      e_variants =
       [unit_variant ''Bearer'', custom_variant]\<rparr>"

definition enum_presence_state :: item_enum where
  "enum_presence_state =
     \<lparr>e_ident = ''PresenceState'', e_rename_all = [''snake_case''],
      e_variants =
       [unit_variant ''Offline'', unit_variant ''Online'', unit_variant ''Unavailable'', custom_variant]\<rparr>"

definition enum_push_format :: item_enum where
  "enum_push_format =
     \<lparr>e_ident = ''PushFormat'', e_rename_all = [''snake_case''],
      e_variants =
       [unit_variant ''EventIdOnly'', custom_variant]\<rparr>"

definition enum_receipt_type :: item_enum where
  "enum_receipt_type =
     \<lparr>e_ident = ''ReceiptType'', e_rename_all = [],
      e_variants =
       [renamed_variant ''Read'' ''m.read'', custom_variant]\<rparr>"

definition enum_medium :: item_enum where
  "enum_medium =
     \<lparr>e_ident = ''Medium'', e_rename_all = [''lowercase''],
      e_variants =
       [unit_variant ''Email'', unit_variant ''Msisdn'', custom_variant]\<rparr>"

section \<open>Crate ruma-events\<close>

definition enum_session_description_type :: item_enum where
  "enum_session_description_type =
     \<lparr>e_ident = ''SessionDescriptionType'', e_rename_all = [''snake_case''],
      e_variants =
       [unit_variant ''Answer'', unit_variant ''Offer'', custom_variant]\<rparr>"

definition enum_key_request_action :: item_enum where
  "enum_key_request_action =
     \<lparr>e_ident = ''Action'', e_rename_all = [''snake_case''],
      e_variants =
       [unit_variant ''Request'', renamed_variant ''CancelRequest'' ''request_cancellation'', custom_variant]\<rparr>"

definition enum_room_type :: item_enum where
  "enum_room_type =
     \<lparr>e_ident = ''RoomType'', e_rename_all = [],
      e_variants =
       [renamed_variant ''Space'' ''m.space'', custom_variant]\<rparr>"

definition enum_guest_access :: item_enum where
  "enum_guest_access =
     \<lparr>e_ident = ''GuestAccess'', e_rename_all = [''snake_case''],
      e_variants =
       [unit_variant ''CanJoin'', unit_variant ''Forbidden'', custom_variant]\<rparr>"

definition enum_history_visibility :: item_enum where
  "enum_history_visibility =
     \<lparr>e_ident = ''HistoryVisibility'', e_rename_all = [''snake_case''],
      e_variants =
       [unit_variant ''Invited'', unit_variant ''Joined'', unit_variant ''Shared'',
        unit_variant ''WorldReadable'', custom_variant]\<rparr>"

definition enum_membership_state :: item_enum where
  "enum_membership_state =
     \<lparr>e_ident = ''MembershipState'', e_rename_all = [''lowercase''],
      e_variants =
       [unit_variant ''Ban'', unit_variant ''Invite'', unit_variant ''Join'', unit_variant ''Knock'',
        unit_variant ''Leave'', custom_variant]\<rparr>"

definition enum_server_notice_type :: item_enum where
  "enum_server_notice_type =
     \<lparr>e_ident = ''ServerNoticeType'', e_rename_all = [],
      e_variants =
       [renamed_variant ''UsageLimitReached'' ''m.server_notice.usage_limit_reached'', custom_variant]\<rparr>"

definition enum_limit_type :: item_enum where
  "enum_limit_type =
     \<lparr>e_ident = ''LimitType'', e_rename_all = [''snake_case''],
      e_variants =
       [unit_variant ''MonthlyActiveUser'', custom_variant]\<rparr>"

definition enum_message_format :: item_enum where
  "enum_message_format =
     \<lparr>e_ident = ''MessageFormat'', e_rename_all = [],
      e_variants =
       [renamed_variant ''Html'' ''org.matrix.custom.html'', custom_variant]\<rparr>"

definition enum_feedback_type :: item_enum where
  "enum_feedback_type =
     \<lparr>e_ident = ''FeedbackType'', e_rename_all = [''snake_case''],
      e_variants =
       [unit_variant ''Delivered'', unit_variant ''Read'', custom_variant]\<rparr>"

definition enum_hash_algorithm :: item_enum where
  "enum_hash_algorithm =
     \<lparr>e_ident = ''HashAlgorithm'', e_rename_all = [''snake_case''],
      e_variants =
       [unit_variant ''Sha256'', custom_variant]\<rparr>"

definition enum_key_agreement_protocol :: item_enum where
  "enum_key_agreement_protocol =
     \<lparr>e_ident = ''KeyAgreementProtocol'', e_rename_all = [''kebab-case''],
      e_variants =
       [unit_variant ''Curve25519'', unit_variant ''Curve25519HkdfSha256'', custom_variant]\<rparr>"

definition enum_message_authentication_code :: item_enum where
  "enum_message_authentication_code =
     \<lparr>e_ident = ''MessageAuthenticationCode'', e_rename_all = [''kebab-case''],
      e_variants =
       [unit_variant ''HkdfHmacSha256'', unit_variant ''HmacSha256'', custom_variant]\<rparr>"

definition enum_short_authentication_string :: item_enum where
  "enum_short_authentication_string =
     \<lparr>e_ident = ''ShortAuthenticationString'', e_rename_all = [''snake_case''],
      e_variants =
       [unit_variant ''Decimal'', unit_variant ''Emoji'', custom_variant]\<rparr>"

definition enum_verification_method :: item_enum where
  "enum_verification_method =
     \<lparr>e_ident = ''VerificationMethod'', e_rename_all = [],
      e_variants =
       [renamed_variant ''SasV1'' ''m.sas.v1'',
        with_feature ''unstable-pre-spec'' (renamed_variant ''QrCodeScanV1'' ''m.qr_code.scan.v1''),
        with_feature ''unstable-pre-spec'' (renamed_variant ''QrCodeShowV1'' ''m.qr_code.show.v1''),
        with_feature ''unstable-pre-spec'' (renamed_variant ''ReciprocateV1'' ''m.reciprocate.v1''),
        custom_variant]\<rparr>"

definition enum_cancel_code :: item_enum where
  "enum_cancel_code =
     \<lparr>e_ident = ''CancelCode'', e_rename_all = [],
      e_variants =
       [renamed_variant ''User'' ''m.user'', renamed_variant ''Timeout'' ''m.timeout'',
        renamed_variant ''UnknownTransaction'' ''m.unknown_transaction'',
        renamed_variant ''UnknownMethod'' ''m.unknown_method'',
        renamed_variant ''UnexpectedMessage'' ''m.unexpected_message'',
        renamed_variant ''KeyMismatch'' ''m.key_mismatch'',
        renamed_variant ''UserMismatch'' ''m.user_mismatch'',
        renamed_variant ''InvalidMessage'' ''m.invalid_message'',
        renamed_variant ''Accepted'' ''m.accepted'', custom_variant]\<rparr>"

definition enum_recommendation :: item_enum where
  "enum_recommendation =
     \<lparr>e_ident = ''Recommendation'', e_rename_all = [],
      e_variants =
       [renamed_variant ''Ban'' ''m.ban'', custom_variant]\<rparr>"

definition enum_secret_name :: item_enum where
  "enum_secret_name =
     \<lparr>e_ident = ''SecretName'', e_rename_all = [],
      e_variants =
       [renamed_variant ''CrossSigningMasterKey'' ''m.cross_signing.master'',
        renamed_variant ''CrossSigningUserSigningKey'' ''m.cross_signing.user_signing'',
        renamed_variant ''CrossSigningSelfSigningKey'' ''m.cross_signing.self_signing'',
        renamed_variant ''RecoveryKey'' ''m.megolm_backup.v1'', custom_variant]\<rparr>"

definition enum_hangup_reason :: item_enum where
  "enum_hangup_reason =
     \<lparr>e_ident = ''Reason'', e_rename_all = [''snake_case''],
      e_variants =
       [unit_variant ''IceFailed'', unit_variant ''InviteTimeout'', custom_variant]\<rparr>"

section \<open>Crate ruma-federation-api\<close>

definition enum_profile_field :: item_enum where
  "enum_profile_field =
     \<lparr>e_ident = ''ProfileField'', e_rename_all = [],
      e_variants =
       [renamed_variant ''DisplayName'' ''displayname'', renamed_variant ''AvatarUrl'' ''avatar_url'',
        custom_variant]\<rparr>"

section \<open>Crate ruma-identifiers\<close>

definition enum_device_key_algorithm :: item_enum where
  "enum_device_key_algorithm =
     \<lparr>e_ident = ''DeviceKeyAlgorithm'', e_rename_all = [''snake_case''],
      e_variants =
       [unit_variant ''Ed25519'', unit_variant ''Curve25519'', unit_variant ''SignedCurve25519'',
        custom_variant]\<rparr>"

definition enum_signing_key_algorithm :: item_enum where
  "enum_signing_key_algorithm =
     \<lparr>e_ident = ''SigningKeyAlgorithm'', e_rename_all = [''snake_case''],
      e_variants =
       [unit_variant ''Ed25519'', custom_variant]\<rparr>"

definition enum_event_encryption_algorithm :: item_enum where
  "enum_event_encryption_algorithm =
     \<lparr>e_ident = ''EventEncryptionAlgorithm'', e_rename_all = [],
      e_variants =
       [renamed_variant ''OlmV1Curve25519AesSha2'' ''m.olm.v1.curve25519-aes-sha2'',
        renamed_variant ''MegolmV1AesSha2'' ''m.megolm.v1.aes-sha2'', custom_variant]\<rparr>"

section \<open>Crate ruma-identity-service-api\<close>

definition enum_identifier_hashing_algorithm :: item_enum where
  "enum_identifier_hashing_algorithm =
     \<lparr>e_ident = ''IdentifierHashingAlgorithm'', e_rename_all = [''snake_case''],
      e_variants =
       [unit_variant ''Sha256'', unit_variant ''None'', custom_variant]\<rparr>"

section \<open>Crate ruma-push-gateway-api\<close>

definition enum_notification_priority :: item_enum where
  "enum_notification_priority =
     \<lparr>e_ident = ''NotificationPriority'', e_rename_all = [''snake_case''],
      e_variants =
       [unit_variant ''High'', unit_variant ''Low'', custom_variant]\<rparr>"

section \<open>All of them\<close>

definition client_enums :: "item_enum list" where
  "client_enums =
     [enum_third_party_id_removal_status, enum_room_version_stability, enum_event_format, enum_rule_kind,
      enum_pusher_kind, enum_visibility, enum_room_preset, enum_membership_event_filter,
      enum_grouping_key, enum_search_keys, enum_order_by, enum_thumbnail_method,
      enum_identity_provider_brand]"

definition feature_enums :: "item_enum list" where
  "feature_enums =
     [enum_auth_type, enum_verification_method]"

definition other_enums :: "item_enum list" where
  "other_enums =
     [enum_token_type, enum_presence_state, enum_push_format, enum_receipt_type, enum_medium,
      enum_profile_field, enum_device_key_algorithm, enum_signing_key_algorithm,
      enum_event_encryption_algorithm, enum_identifier_hashing_algorithm, enum_notification_priority]"

definition event_enums :: "item_enum list" where
  "event_enums =
     [enum_session_description_type, enum_key_request_action, enum_room_type, enum_guest_access,
      enum_history_visibility, enum_membership_state, enum_server_notice_type, enum_limit_type,
      enum_message_format, enum_feedback_type, enum_hash_algorithm, enum_key_agreement_protocol,
      enum_message_authentication_code, enum_short_authentication_string, enum_cancel_code,
      enum_recommendation, enum_secret_name, enum_hangup_reason]"

definition repository_enums :: "item_enum list" where
  "repository_enums = enum_err_code # client_enums @ feature_enums @ other_enums @ event_enums"

definition string_enum_ok :: "(nat \<Rightarrow> bool) \<Rightarrow> item_enum \<Rightarrow> bool" where
  "string_enum_ok upper item \<longleftrightarrow> distinct (map v_name (e_variants item)) \<and>
     (case expand_string_enum upper item of
        Ok e \<Rightarrow> distinct (map fst (se_branches e)) | Err x \<Rightarrow> False | Panic \<Rightarrow> False)"

section \<open>They expand\<close>

definition err_code_names :: "string list" where
  "err_code_names =
     [''Forbidden'', ''UnknownToken'', ''MissingToken'', ''BadJson'', ''NotJson'', ''NotFound'', ''LimitExceeded'',
      ''Unknown'', ''Unrecognized'', ''Unauthorized'', ''UserDeactivated'', ''UserInUse'', ''InvalidUsername'',
      ''RoomInUse'', ''InvalidRoomState'', ''ThreepidInUse'', ''ThreepidNotFound'', ''ThreepidAuthFailed'',
      ''ThreepidDenied'', ''ServerNotTrusted'', ''UnsupportedRoomVersion'', ''IncompatibleRoomVersion'', ''BadState'',
      ''GuestAccessForbidden'', ''CaptchaNeeded'', ''CaptchaInvalid'', ''MissingParam'', ''InvalidParam'', ''TooLarge'',
      ''Exclusive'', ''ResourceLimitExceeded'', ''CannotLeaveServerNoticeRoom'']"

definition err_code_string :: "string \<Rightarrow> string" where
  "err_code_string n = ''M_'' @ screaming_snake_case (\<lambda>_. False) n"

lemma err_code_names_ok: "list_all pascal_name err_code_names" "distinct (err_code_names @ [''_Custom''])"
  by code_simp+

lemma screaming_upper:
  assumes "pascal_name v"
  shows "screaming_snake_case upper v = screaming_snake_case upper' v"
proof -
  have c: "list_all is_ascii_alnum v"
    using assms by (auto simp: pascal_name_def is_ascii_alnum_def split: list.splits)
  have "list_all is_ascii_alnum s \<Longrightarrow>
      snake_loop upper b (map (\<lambda>c. [c]) s) = snake_loop upper' b (map (\<lambda>c. [c]) s)" for b s
    using ascii_char(3,4) by (induction s arbitrary: b) auto
  then show ?thesis unfolding screaming_snake_case_def snake_case_def chunks_alnum[OF c] using c by simp
qed

lemma expand_err_code:
  "expand_string_enum upper (cfg_strip fs enum_err_code) =
    Ok \<lparr>se_as_ref = map (\<lambda>n. (n, ArmStr (err_code_string n))) err_code_names @ [(''_Custom'', ArmInner)],
        se_branches = map (\<lambda>n. (err_code_string n, n)) err_code_names, se_fallback = ''_Custom''\<rparr>"
proof (rule expand_plain)
  show "e_rename_all (cfg_strip fs enum_err_code) = [''M_MATRIX_ERROR_CASE'']"
    by (simp add: cfg_strip_def enum_err_code_def)
  show "rename_rule_from_str ''M_MATRIX_ERROR_CASE'' = Ok MatrixErrorCase" by code_simp
  show "e_variants (cfg_strip fs enum_err_code) = map unit_variant err_code_names @ [custom_variant]"
    by (simp add: cfg_strip_def enum_err_code_def err_code_names_def unit_variant_def custom_variant_def)
  show "apply_to_variant upper MatrixErrorCase n = Ok (err_code_string n)" if "n \<in> set err_code_names" for n
  proof -
    have "pascal_name n" using that err_code_names_ok(1) by (auto simp: list_all_iff)
    from screaming_upper[OF this] show ?thesis by (simp add: err_code_string_def)
  qed
qed

lemma err_code_strings_distinct: "distinct (map err_code_string err_code_names)"
proof -
  have "inj_on err_code_string (set err_code_names)"
    using err_code_names_ok(1) screaming_inj by (auto simp: inj_on_def err_code_string_def list_all_iff)
  then show ?thesis using err_code_names_ok(2) by (simp add: distinct_map)
qed

lemma err_code_enum_ok: "string_enum_ok upper (cfg_strip fs enum_err_code)"
proof -
  have "map v_name (e_variants (cfg_strip fs enum_err_code)) = err_code_names @ [''_Custom'']"
    by (simp add: cfg_strip_def enum_err_code_def err_code_names_def unit_variant_def custom_variant_def)
  then show ?thesis using err_code_strings_distinct err_code_names_ok(2)
    by (simp add: string_enum_ok_def expand_err_code comp_def)
qed

text \<open>Enums without features.\<close>

lemma client_enums_ok: "list_all (\<lambda>item. string_enum_ok upper (cfg_strip fs item)) client_enums"
  by code_simp

lemma event_enums_ok: "list_all (\<lambda>item. string_enum_ok upper (cfg_strip fs item)) event_enums"
  by code_simp

lemma other_enums_ok: "list_all (\<lambda>item. string_enum_ok upper (cfg_strip fs item)) other_enums"
  by code_simp

lemma feature_enums_ok: "list_all (\<lambda>item. string_enum_ok upper (cfg_strip fs item)) feature_enums"
proof (cases "''unstable-pre-spec'' \<in> set fs")
  case True
  then have "list_all (\<lambda>item. cfg_strip fs item = cfg_strip [''unstable-pre-spec''] item) feature_enums"
    by (simp add: cfg_strip_def feature_enums_def enum_auth_type_def enum_verification_method_def
        renamed_variant_def custom_variant_def with_feature_def)
  moreover have "list_all (\<lambda>item. string_enum_ok upper (cfg_strip [''unstable-pre-spec''] item)) feature_enums"
    by code_simp
  ultimately show ?thesis by (simp add: list_all_iff)
next
  case False
  then have "list_all (\<lambda>item. cfg_strip fs item = cfg_strip [] item) feature_enums"
    by (simp add: cfg_strip_def feature_enums_def enum_auth_type_def enum_verification_method_def
        renamed_variant_def custom_variant_def with_feature_def)
  moreover have "list_all (\<lambda>item. string_enum_ok upper (cfg_strip [] item)) feature_enums"
    by code_simp
  ultimately show ?thesis by (simp add: list_all_iff)
qed

text \<open>Every enum of the repository that derives \<open>StringEnum\<close> is accepted by the macros, whatever features are
  enabled, and its variants have pairwise distinct strings, so that by \<open>string_enum_roundtrip\<close> reading and printing
  are inverse for each of them.\<close>

lemma repository_enums_ok:
  "list_all (\<lambda>item. string_enum_ok upper (cfg_strip fs item)) repository_enums"
  using err_code_enum_ok client_enums_ok event_enums_ok other_enums_ok feature_enums_ok
  unfolding repository_enums_def list_all_append list.pred_inject(2) by blast

end
