(* ===== verification/Event_Macros.thy ===== *)
theory Event_Macros
  imports Enum_Tables
begin

text \<open>The event macros, \<^verbatim>\<open>ruma-events-macros/src\<close>: the names and kinds of \<^verbatim>\<open>event_parse.rs\<close>, the field table of
  \<^verbatim>\<open>util.rs\<close>, the identifiers, the list of generated items and the generated deserializers of \<^verbatim>\<open>event_enum.rs\<close>, and
  the event type enums of \<^verbatim>\<open>event_type.rs\<close>, on the input of \<open>event_enum!\<close> in \<^verbatim>\<open>ruma-events/src/enums.rs\<close>.  An
  identifier is its string; a panic of a macro is a \<open>Panic\<close>.\<close>

section \<open>Kinds and variations\<close>

datatype event_kind_variation = Full | Sync | Stripped | Initial | Redacted | RedactedSync

datatype event_kind =
  GlobalAccountData | RoomAccountData | Ephemeral | Message | State | ToDevice | RoomRedaction | Presence | Decrypted

fun variation_display :: "event_kind_variation \<Rightarrow> string" where
  "variation_display Full = ''''"
| "variation_display Sync = ''Sync''"
| "variation_display Stripped = ''Stripped''"
| "variation_display Initial = ''Initial''"
| "variation_display Redacted = ''Redacted''"
| "variation_display RedactedSync = ''RedactedSync''"

fun is_redacted :: "event_kind_variation \<Rightarrow> bool" where
  "is_redacted Redacted = True"
| "is_redacted RedactedSync = True"
| "is_redacted _ = False"

fun is_sync :: "event_kind_variation \<Rightarrow> bool" where
  "is_sync Sync = True"
| "is_sync RedactedSync = True"
| "is_sync _ = False"

fun to_redacted :: "event_kind_variation \<Rightarrow> (event_kind_variation, 'e) result" where
  "to_redacted Full = Ok Redacted"
| "to_redacted Sync = Ok RedactedSync"
| "to_redacted _ = Panic"

fun to_sync :: "event_kind_variation \<Rightarrow> (event_kind_variation, 'e) result" where
  "to_sync Full = Ok Sync"
| "to_sync Redacted = Ok RedactedSync"
| "to_sync _ = Panic"

fun to_full :: "event_kind_variation \<Rightarrow> (event_kind_variation, 'e) result" where
  "to_full Sync = Ok Full"
| "to_full RedactedSync = Ok Redacted"
| "to_full _ = Panic"

fun kind_display :: "event_kind \<Rightarrow> (string, 'e) result" where
  "kind_display GlobalAccountData = Ok ''GlobalAccountDataEvent''"
| "kind_display RoomAccountData = Ok ''RoomAccountDataEvent''"
| "kind_display Ephemeral = Ok ''EphemeralRoomEvent''"
| "kind_display Message = Ok ''MessageEvent''"
| "kind_display State = Ok ''StateEvent''"
| "kind_display ToDevice = Ok ''ToDeviceEvent''"
| "kind_display RoomRedaction = Ok ''RoomRedactionEvent''"
| "kind_display Presence = Ok ''PresenceEvent''"
| "kind_display Decrypted = Panic"

definition valid_combination :: "event_kind \<Rightarrow> event_kind_variation \<Rightarrow> bool" where
  "valid_combination kind var \<longleftrightarrow>
     var = Full
     \<or> kind \<in> {Message, RoomRedaction, State, Ephemeral} \<and> var = Sync
     \<or> kind \<in> {Message, RoomRedaction, State} \<and> (var = Redacted \<or> var = RedactedSync)
     \<or> kind = State \<and> (var = Stripped \<or> var = Initial)"

definition try_to_event_ident :: "event_kind \<Rightarrow> event_kind_variation \<Rightarrow> (string option, 'e) result" where
  "try_to_event_ident kind var =
     (if valid_combination kind var
      then and_then (kind_display kind) (\<lambda>k. Ok (Some (variation_display var @ k)))
      else Ok None)"

definition to_event_ident :: "event_kind \<Rightarrow> event_kind_variation \<Rightarrow> (string, 'e) result" where
  "to_event_ident kind var = and_then (try_to_event_ident kind var) unwrap"

definition to_event_enum_ident :: "event_kind \<Rightarrow> event_kind_variation \<Rightarrow> (string, 'e) result" where
  "to_event_enum_ident kind var = and_then (to_event_ident kind var) (\<lambda>i. Ok (''Any'' @ i))"

definition to_content_enum :: "event_kind \<Rightarrow> (string, 'e) result" where
  "to_content_enum kind = and_then (kind_display kind) (\<lambda>k. Ok (''Any'' @ k @ ''Content''))"

definition parse_event_kind :: "string \<Rightarrow> (event_kind, string) result" where
  "parse_event_kind i =
     (if i = ''GlobalAccountData'' then Ok GlobalAccountData
      else if i = ''RoomAccountData'' then Ok RoomAccountData
      else if i = ''EphemeralRoom'' then Ok Ephemeral
      else if i = ''Message'' then Ok Message
      else if i = ''State'' then Ok State
      else if i = ''ToDevice'' then Ok ToDevice
      else Err i)"

definition kind_variation_names :: "(string \<times> event_kind \<times> event_kind_variation) list" where
  "kind_variation_names =
     [(''GlobalAccountDataEvent'', (GlobalAccountData, Full)),
      (''RoomAccountDataEvent'', (RoomAccountData, Full)),
      (''EphemeralRoomEvent'', (Ephemeral, Full)),
      (''SyncEphemeralRoomEvent'', (Ephemeral, Sync)),
      (''MessageEvent'', (Message, Full)),
      (''SyncMessageEvent'', (Message, Sync)),
      (''RedactedMessageEvent'', (Message, Redacted)),
      (''RedactedSyncMessageEvent'', (Message, RedactedSync)),
      (''StateEvent'', (State, Full)),
      (''SyncStateEvent'', (State, Sync)),
      (''StrippedStateEvent'', (State, Stripped)),
      (''InitialStateEvent'', (State, Initial)),
      (''RedactedStateEvent'', (State, Redacted)),
      (''RedactedSyncStateEvent'', (State, RedactedSync)),
      (''ToDeviceEvent'', (ToDevice, Full)),
      (''PresenceEvent'', (Presence, Full)),
      (''RoomRedactionEvent'', (RoomRedaction, Full)),
      (''SyncRoomRedactionEvent'', (RoomRedaction, Sync)),
      (''RedactedRoomRedactionEvent'', (RoomRedaction, Redacted)),
      (''RedactedSyncRoomRedactionEvent'', (RoomRedaction, RedactedSync)),
      (''DecryptedOlmV1Event'', (Decrypted, Full)),
      (''DecryptedMegolmV1Event'', (Decrypted, Full))]"

definition to_kind_variation :: "string \<Rightarrow> (event_kind \<times> event_kind_variation) option" where
  "to_kind_variation s = map_of kind_variation_names s"

section \<open>Fields of the generated accessors\<close>

definition is_non_stripped_room_event :: "event_kind \<Rightarrow> event_kind_variation \<Rightarrow> bool" where
  "is_non_stripped_room_event kind var \<longleftrightarrow>
     (kind = Message \<or> kind = State) \<and> (var = Full \<or> var = Sync \<or> var = Redacted \<or> var = RedactedSync)"

definition has_prev_content_field :: "event_kind \<Rightarrow> event_kind_variation \<Rightarrow> bool" where
  "has_prev_content_field kind var \<longleftrightarrow> kind = State \<and> (var = Full \<or> var = Sync)"

definition EVENT_FIELDS :: "(string \<times> (event_kind \<Rightarrow> event_kind_variation \<Rightarrow> bool)) list" where
  "EVENT_FIELDS =
     [(''origin_server_ts'', is_non_stripped_room_event),
      (''room_id'', \<lambda>kind var. (kind = Message \<or> kind = State \<or> kind = Ephemeral) \<and> (var = Full \<or> var = Redacted)),
      (''event_id'', is_non_stripped_room_event),
      (''sender'', \<lambda>kind var. (kind = Message \<or> kind = State \<or> kind = ToDevice) \<and> var \<noteq> Initial),
      (''state_key'', \<lambda>kind var. kind = State),
      (''unsigned'', is_non_stripped_room_event)]"

definition field_return_type :: "string \<Rightarrow> event_kind_variation \<Rightarrow> (string, 'e) result" where
  "field_return_type name var =
     (if name = ''origin_server_ts'' then Ok ''MilliSecondsSinceUnixEpoch''
      else if name = ''room_id'' then Ok ''RoomId''
      else if name = ''event_id'' then Ok ''EventId''
      else if name = ''sender'' then Ok ''UserId''
      else if name = ''state_key'' then Ok ''str''
      else if name = ''unsigned'' then Ok (if is_redacted var then ''RedactedUnsigned'' else ''Unsigned'')
      else Panic)"

text \<open>\<open>expand_accessor_methods\<close>: the methods of the enum for a kind and a variation, with their types.\<close>

definition expand_accessor_methods :: "event_kind \<Rightarrow> event_kind_variation \<Rightarrow> ((string \<times> string) list, 'e) result" where
  "expand_accessor_methods kind var =
     and_then (to_event_enum_ident kind var) (\<lambda>_.
     and_then (if is_redacted var then Ok []
               else and_then (to_content_enum kind) (\<lambda>content_enum.
                 Ok ((''content'', content_enum)
                   # (if has_prev_content_field kind var then [(''prev_content'', ''Option<'' @ content_enum @ ''>'')] else []))))
     (\<lambda>content_accessors.
     and_then (map_res (\<lambda>(name, has_field). and_then (field_return_type name var) (\<lambda>ty. Ok (name, ty)))
                (filter (\<lambda>(name, has_field). has_field kind var) EVENT_FIELDS)) (\<lambda>methods.
     Ok ((''event_type'', ''str'') # content_accessors @ methods))))"

section \<open>Identifiers of event types\<close>

text \<open>\<open>str::split\<close> on a set of characters.\<close>

fun split_any :: "(char \<Rightarrow> bool) \<Rightarrow> string \<Rightarrow> string list" where
  "split_any P [] = [[]]"
| "split_any P (c # s) =
     (if P c then [] # split_any P s
      else case split_any P s of p # ps \<Rightarrow> (c # p) # ps | [] \<Rightarrow> [[c]])"

text \<open>\<open>s.chars().next().unwrap().to_uppercase().to_string() + &s[1..]\<close>: the slice panics after a character of more
  than one byte, so only the ASCII part of \<open>to_uppercase\<close> is reached.\<close>

definition capitalize_part :: "string \<Rightarrow> (string, 'e) result" where
  "capitalize_part s = (case s of [] \<Rightarrow> Panic | c # t \<Rightarrow> and_then (slice_from s 1) (\<lambda>r. Ok (ascii_upper c # r)))"

definition camel_parts :: "(char \<Rightarrow> bool) \<Rightarrow> string \<Rightarrow> (string, 'e) result" where
  "camel_parts P s = and_then (map_res capitalize_part (split_any P s)) (\<lambda>ps. Ok (concat ps))"

definition is_type_separator :: "char \<Rightarrow> bool" where
  "is_type_separator c \<longleftrightarrow> c = CHR ''.'' \<or> c = CHR ''_''"

definition to_camel_case :: "string \<Rightarrow> (string, string) result" where
  "to_camel_case name = and_then (slice name 0 2) (\<lambda>p.
     if p \<noteq> ''m.'' then Err name
     else and_then (slice_from name 2) (camel_parts is_type_separator))"

text \<open>The function of the same name in \<^verbatim>\<open>event.rs\<close>, for fields.\<close>

definition field_to_camel_case :: "string \<Rightarrow> (string, 'e) result" where
  "field_to_camel_case name = camel_parts (\<lambda>c. c = CHR ''_'') name"

text \<open>\<open>to_event_path\<close> and \<open>to_event_content_path\<close>: the module path and the name of a struct.\<close>

definition to_event_path :: "string \<Rightarrow> event_kind \<Rightarrow> event_kind_variation \<Rightarrow> (string list \<times> string, 'e) result" where
  "to_event_path name kind var = and_then (slice name 0 2) (\<lambda>p.
     if p \<noteq> ''m.'' then Panic
     else and_then (slice_from name 2) (\<lambda>r.
          and_then (camel_parts is_type_separator r) (\<lambda>event.
          if kind = ToDevice
          then (if var \<noteq> Full then Panic
                else Ok (split_any (\<lambda>c. c = CHR ''.'') r, ''ToDevice'' @ event @ ''Event''))
          else Ok (split_any (\<lambda>c. c = CHR ''.'') r, variation_display var @ event @ ''Event''))))"

definition to_event_content_path :: "event_kind \<Rightarrow> string \<Rightarrow> string option \<Rightarrow> (string list \<times> string, 'e) result" where
  "to_event_content_path kind name pre = and_then (slice name 0 2) (\<lambda>p.
     if p \<noteq> ''m.'' then Panic
     else and_then (slice_from name 2) (\<lambda>r.
          and_then (camel_parts is_type_separator r) (\<lambda>event.
          Ok (split_any (\<lambda>c. c = CHR ''.'') r,
              (if kind = ToDevice then ''ToDevice'' else '''') @ (case pre of Some x \<Rightarrow> x | None \<Rightarrow> '''')
                @ event @ ''EventContent''))))"

section \<open>The input of \<open>event_enum!\<close>\<close>

text \<open>An entry with the feature of its \<open>#[cfg]\<close> attribute, the only attribute in use.\<close>

record event_enum_entry =
  ee_feature :: "string option"
  ee_type :: string

record event_enum_decl =
  ed_kind :: event_kind
  ed_events :: "event_enum_entry list"

record event_enum_variant =
  ev_feature :: "string option"
  ev_ident :: string

definition to_variant :: "event_enum_entry \<Rightarrow> (event_enum_variant, string) result" where
  "to_variant e = and_then (to_camel_case (ee_type e)) (\<lambda>i. Ok \<lparr>ev_feature = ee_feature e, ev_ident = i\<rparr>)"

definition entry :: "string \<Rightarrow> event_enum_entry" where
  "entry t = \<lparr>ee_feature = None, ee_type = t\<rparr>"

definition pre_spec_entry :: "string \<Rightarrow> event_enum_entry" where
  "pre_spec_entry t = \<lparr>ee_feature = Some ''unstable-pre-spec'', ee_type = t\<rparr>"

definition event_enums_input :: "event_enum_decl list" where
  "event_enums_input =
     [\<lparr>ed_kind = GlobalAccountData, ed_events =
        [entry ''m.direct'', entry ''m.ignored_user_list'', entry ''m.push_rules'']\<rparr>,
      \<lparr>ed_kind = RoomAccountData, ed_events =
        [entry ''m.fully_read'', entry ''m.tag'']\<rparr>,
      \<lparr>ed_kind = Ephemeral, ed_events =
        [entry ''m.receipt'', entry ''m.typing'']\<rparr>,
      \<lparr>ed_kind = Message, ed_events =
        [entry ''m.call.answer'', entry ''m.call.invite'', entry ''m.call.hangup'',
         entry ''m.call.candidates'', pre_spec_entry ''m.key.verification.ready'',
         pre_spec_entry ''m.key.verification.start'', pre_spec_entry ''m.key.verification.cancel'',
         pre_spec_entry ''m.key.verification.accept'', pre_spec_entry ''m.key.verification.key'',
         pre_spec_entry ''m.key.verification.mac'', pre_spec_entry ''m.key.verification.done'',
         pre_spec_entry ''m.reaction'', entry ''m.room.encrypted'', entry ''m.room.message'',
         entry ''m.room.message.feedback'', entry ''m.room.redaction'', entry ''m.sticker'']\<rparr>,
      \<lparr>ed_kind = State, ed_events =
        [entry ''m.policy.rule.room'', entry ''m.policy.rule.server'', entry ''m.policy.rule.user'',
         entry ''m.room.aliases'', entry ''m.room.avatar'', entry ''m.room.canonical_alias'',
         entry ''m.room.create'', entry ''m.room.encryption'', entry ''m.room.guest_access'',
         entry ''m.room.history_visibility'', entry ''m.room.join_rules'', entry ''m.room.member'',
         entry ''m.room.name'', entry ''m.room.pinned_events'', entry ''m.room.power_levels'',
         entry ''m.room.server_acl'', entry ''m.room.third_party_invite'', entry ''m.room.tombstone'',
         entry ''m.room.topic'', pre_spec_entry ''m.space.child'', pre_spec_entry ''m.space.parent'']\<rparr>,
      \<lparr>ed_kind = ToDevice, ed_events =
        [entry ''m.dummy'', entry ''m.room_key'', entry ''m.room_key_request'',
         entry ''m.forwarded_room_key'', entry ''m.key.verification.request'',
         pre_spec_entry ''m.key.verification.ready'', entry ''m.key.verification.start'',
         entry ''m.key.verification.cancel'', entry ''m.key.verification.accept'',
         entry ''m.key.verification.key'', entry ''m.key.verification.mac'',
         pre_spec_entry ''m.key.verification.done'', entry ''m.room.encrypted'',
         pre_spec_entry ''m.secret.request'', pre_spec_entry ''m.secret.send'']\<rparr>]"

section \<open>The event type enums\<close>

text \<open>\<open>generate_variants\<close>: one entry per event type, in order of appearance; an entry without attributes replaces one
  with attributes.\<close>

fun dedup_entry :: "event_enum_entry list \<Rightarrow> event_enum_entry \<Rightarrow> event_enum_entry list" where
  "dedup_entry [] item = [item]"
| "dedup_entry (e # es) item =
     (if ee_type e = ee_type item
      then (if ee_feature e \<noteq> ee_feature item \<and> ee_feature item = None then item else e) # es
      else e # dedup_entry es item)"

definition dedup_entries :: "event_enum_entry list list \<Rightarrow> event_enum_entry list" where
  "dedup_entries input = foldl dedup_entry [] (concat input)"

definition generate_variants :: "event_enum_entry list list \<Rightarrow> (event_enum_variant list \<times> string list, string) result" where
  "generate_variants input =
     and_then (map_res to_variant (dedup_entries input)) (\<lambda>vs. Ok (vs, map ee_type (dedup_entries input)))"

text \<open>\<open>generate_enum\<close>: the variants, each renamed to its event type, and the custom one.\<close>

definition generate_enum :: "string \<Rightarrow> string list \<Rightarrow> event_enum_variant list \<Rightarrow> item_enum" where
  "generate_enum ident ev_types variants =
     \<lparr>e_ident = ident, e_rename_all = [],
      e_variants = map (\<lambda>(t, v). (renamed_variant (ev_ident v) t)\<lparr>v_feature := ev_feature v\<rparr>) (zip ev_types variants)
        @ [custom_variant]\<rparr>"

definition events_of_kind :: "(event_kind \<Rightarrow> bool) \<Rightarrow> event_enum_decl list \<Rightarrow> event_enum_entry list list" where
  "events_of_kind P input = map ed_events (filter (\<lambda>d. P (ed_kind d)) input)"

definition event_type_lists :: "event_enum_decl list \<Rightarrow> (string \<times> event_enum_entry list list) list" where
  "event_type_lists input =
     [(''EventType'', map ed_events input @ [[entry ''m.presence'']]),
      (''RoomEventType'', events_of_kind (\<lambda>k. k = Message \<or> k = State) input),
      (''StateEventType'', events_of_kind (\<lambda>k. k = State) input),
      (''MessageEventType'', events_of_kind (\<lambda>k. k = Message) input),
      (''EphemeralRoomEventType'', events_of_kind (\<lambda>k. k = Ephemeral) input),
      (''RoomAccountDataEventType'', events_of_kind (\<lambda>k. k = RoomAccountData) input),
      (''GlobalAccountDataEventType'', events_of_kind (\<lambda>k. k = GlobalAccountData) input),
      (''ToDeviceEventType'', events_of_kind (\<lambda>k. k = ToDevice) input)]"

definition expand_event_type_enum :: "event_enum_decl list \<Rightarrow> (item_enum list, string) result" where
  "expand_event_type_enum input = map_res
     (\<lambda>(ident, entries). and_then (generate_variants entries) (\<lambda>(variants, types). Ok (generate_enum ident types variants)))
     (event_type_lists input)"

section \<open>The event enums\<close>

datatype generated_item =
    EventEnum event_kind event_kind_variation
  | ContentEnum event_kind
  | FromFullEvent event_kind event_kind_variation
  | IntoFullEvent event_kind event_kind_variation
  | RedactImpl event_kind event_kind_variation
  | PossiblyRedactedEnum event_kind event_kind_variation

text \<open>The items that \<open>expand_event_enums\<close> generates for a declaration, in order.\<close>

definition expand_event_enums :: "event_enum_decl \<Rightarrow> (generated_item list, string) result" where
  "expand_event_enums input = and_then (map_res to_variant (ed_events input)) (\<lambda>_.
     let kind = ed_kind input in
     Ok ([EventEnum kind Full, ContentEnum kind]
       @ (if kind \<in> {Ephemeral, Message, State}
          then [EventEnum kind Sync, FromFullEvent kind Full, IntoFullEvent kind Sync] else [])
       @ (if kind = State then [EventEnum kind Stripped, EventEnum kind Initial] else [])
       @ (if kind \<in> {Message, State}
          then [EventEnum kind Redacted, EventEnum kind RedactedSync, RedactImpl kind Full, RedactImpl kind Sync,
                PossiblyRedactedEnum kind Full, PossiblyRedactedEnum kind Sync, FromFullEvent kind Redacted,
                IntoFullEvent kind RedactedSync]
          else [])))"

text \<open>The names an item refers to: its own, and those of the enums it converts to.\<close>

fun item_idents :: "generated_item \<Rightarrow> (string list, 'e) result" where
  "item_idents (EventEnum kind var) =
     and_then (to_event_ident kind var) (\<lambda>s. and_then (to_event_enum_ident kind var) (\<lambda>i. Ok [i, s]))"
| "item_idents (ContentEnum kind) = and_then (to_content_enum kind) (\<lambda>i. Ok [i])"
| "item_idents (FromFullEvent kind var) =
     and_then (to_event_enum_ident kind var) (\<lambda>i.
     and_then (to_sync var) (\<lambda>v. and_then (to_event_enum_ident kind v) (\<lambda>j. Ok [i, j])))"
| "item_idents (IntoFullEvent kind var) =
     and_then (to_event_enum_ident kind var) (\<lambda>i.
     and_then (to_full var) (\<lambda>v. and_then (to_event_enum_ident kind v) (\<lambda>j. Ok [i, j])))"
| "item_idents (RedactImpl kind var) =
     and_then (to_event_enum_ident kind var) (\<lambda>i.
     and_then (to_redacted var) (\<lambda>v. and_then (to_event_enum_ident kind v) (\<lambda>j. Ok [i, j])))"
| "item_idents (PossiblyRedactedEnum kind var) =
     and_then (to_event_ident kind var) (\<lambda>s.
     and_then (to_event_enum_ident kind var) (\<lambda>i.
     and_then (to_redacted var) (\<lambda>v. and_then (to_event_enum_ident kind v) (\<lambda>j.
     Ok [''AnyPossiblyRedacted'' @ s, i, j]))))"

text \<open>The generated \<open>Deserialize\<close>: the variant that is chosen for the \<open>type\<close> of an event, with the struct that is read.\<close>

fun deserialize_arms ::
    "event_kind \<Rightarrow> event_kind_variation \<Rightarrow> event_enum_entry list \<Rightarrow> ((string \<times> string \<times> string list \<times> string) list, string) result"
where
  "deserialize_arms kind var [] = Ok []"
| "deserialize_arms kind var (e # es) =
     and_then (to_variant e) (\<lambda>v. and_then (to_event_path (ee_type e) kind var) (\<lambda>(path, name).
     and_then (deserialize_arms kind var es) (\<lambda>arms. Ok ((ee_type e, ev_ident v, path, name) # arms))))"

definition deserialize_variant :: "(string \<times> string \<times> string list \<times> string) list \<Rightarrow> string \<Rightarrow> string" where
  "deserialize_variant arms ev_type = (case map_of arms ev_type of Some (i, path, name) \<Rightarrow> i | None \<Rightarrow> ''_Custom'')"

text \<open>\<open>expand_marker_trait_impl\<close>.\<close>

fun marker_trait :: "event_kind \<Rightarrow> string option" where
  "marker_trait State = Some ''StateEventContent''"
| "marker_trait Message = Some ''MessageEventContent''"
| "marker_trait Ephemeral = Some ''EphemeralRoomEventContent''"
| "marker_trait GlobalAccountData = Some ''GlobalAccountDataEventContent''"
| "marker_trait RoomAccountData = Some ''RoomAccountDataEventContent''"
| "marker_trait ToDevice = Some ''ToDeviceEventContent''"
| "marker_trait _ = None"

section \<open>Kinds and names\<close>

lemma kind_variation_names_distinct: "distinct (map fst kind_variation_names)"
  by code_simp

text \<open>\<open>to_kind_variation\<close> recognizes exactly the names that \<open>try_to_event_ident\<close> gives to the valid combinations of a
  kind and a variation, and returns the combination; its only other names are those of the two decrypted events, whose
  kind has no name.\<close>

lemma kind_variation_roundtrip:
  "to_kind_variation s = Some (kind, var) \<longleftrightarrow>
     (try_to_event_ident kind var = (Ok (Some s) :: (string option, unit) result)
      \<or> kind = Decrypted \<and> var = Full \<and> (s = ''DecryptedOlmV1Event'' \<or> s = ''DecryptedMegolmV1Event''))"
  unfolding to_kind_variation_def map_of_eq_Some_iff[OF kind_variation_names_distinct]
  by (cases kind; cases var;
      simp add: kind_variation_names_def try_to_event_ident_def valid_combination_def; rule eq_commute)

text \<open>The generated items of a parsed kind.\<close>

lemma item_idents_ok:
  assumes "kind \<in> {GlobalAccountData, RoomAccountData, Ephemeral, Message, State, ToDevice}"
    "expand_event_enums d = Ok items" "ed_kind d = kind" "it \<in> set items"
  shows "is_ok (item_idents it)"
  using assms
  by (auto simp: expand_event_enums_def res_simps to_event_enum_ident_def to_event_ident_def to_content_enum_def
      try_to_event_ident_def valid_combination_def split: if_splits)

text \<open>For every kind that \<open>event_enum!\<close> accepts, all the items generated for a declaration have names: none of the
  panics of \<open>to_event_ident\<close>, \<open>to_sync\<close>, \<open>to_full\<close> and \<open>to_redacted\<close> is reached.\<close>

lemma event_enums_never_panic:
  assumes "parse_event_kind i = Ok (ed_kind d)" "expand_event_enums d = Ok items"
  shows "list_all (\<lambda>it. is_ok (item_idents it :: (string list, unit) result)) items"
proof -
  have "ed_kind d \<in> {GlobalAccountData, RoomAccountData, Ephemeral, Message, State, ToDevice}"
    using assms(1) by (auto simp: parse_event_kind_def split: if_splits)
  then show ?thesis unfolding list_all_iff by (intro ballI item_idents_ok[OF _ assms(2) refl])
qed

lemma event_enums_never_panic_witness:
  "list_all (\<lambda>it. is_ok (item_idents it :: (string list, unit) result))
     ([EventEnum Ephemeral Full, ContentEnum Ephemeral, EventEnum Ephemeral Sync, FromFullEvent Ephemeral Full,
       IntoFullEvent Ephemeral Sync])"
  by (rule event_enums_never_panic[of "''EphemeralRoom''" "\<lparr>ed_kind = Ephemeral, ed_events = [entry ''m.typing'']\<rparr>"])
     code_simp+

section \<open>Removing duplicate event types\<close>

lemma dedup_entry_types:
  "map ee_type (dedup_entry es item) =
     (if ee_type item \<in> ee_type ` set es then map ee_type es else map ee_type es @ [ee_type item])"
  by (induction es) (auto simp: image_iff)

lemma dedup_entry_unconditional:
  "(\<exists>y\<in>set (dedup_entry es x). ee_type y = t \<and> ee_feature y = None) \<longleftrightarrow>
     (\<exists>y\<in>insert x (set es). ee_type y = t \<and> ee_feature y = None)"
proof (induction es)
  case (Cons a es)
  show ?case
  proof (cases "ee_type a = ee_type x")
    case True
    then show ?thesis by (cases "ee_feature a = None"; cases "ee_feature x = None") auto
  next
    case False
    then show ?thesis using Cons by auto
  qed
qed simp

lemma dedup_distinct: "distinct (map ee_type es) \<Longrightarrow> distinct (map ee_type (foldl dedup_entry es xs))"
  by (induction xs arbitrary: es) (simp_all add: dedup_entry_types)

lemma dedup_types: "ee_type ` set (foldl dedup_entry es xs) = ee_type ` (set es \<union> set xs)"
proof (induction xs arbitrary: es)
  case (Cons x xs)
  have "ee_type ` set (dedup_entry es x) = insert (ee_type x) (ee_type ` set es)"
    using arg_cong[OF dedup_entry_types[of es x], of set] by (auto split: if_splits)
  then show ?case using Cons by auto
qed simp

lemma dedup_unconditional:
  assumes "distinct (map ee_type es)" "e \<in> set (foldl dedup_entry es xs)"
  shows "ee_feature e = None \<longleftrightarrow> (\<exists>x\<in>set es \<union> set xs. ee_type x = ee_type e \<and> ee_feature x = None)"
proof -
  have "(\<exists>y\<in>set (foldl dedup_entry es xs). ee_type y = t \<and> ee_feature y = None) \<longleftrightarrow>
      (\<exists>y\<in>set es \<union> set xs. ee_type y = t \<and> ee_feature y = None)" for t
  proof (induction xs arbitrary: es)
    case (Cons x xs)
    then show ?case using dedup_entry_unconditional[of es x t] by (simp add: bex_Un)
  qed simp
  moreover have "y = e" if "y \<in> set (foldl dedup_entry es xs)" "ee_type y = ee_type e" for y
    using dedup_distinct[OF assms(1)] assms(2) that by (metis distinct_map inj_onD)
  ultimately show ?thesis using assms(2) by metis
qed

text \<open>C30. The variants generated for a list of declarations have pairwise different event types, all event types of the
  input have one, and the variant of a type has no \<open>#[cfg]\<close> attribute exactly when one of the declarations lists the
  type without one.\<close>

theorem generate_variants_spec:
  assumes "generate_variants input = Ok (variants, types)"
  shows "distinct types \<and> set types = ee_type ` set (concat input) \<and> length variants = length types
    \<and> list_all2 (\<lambda>v t. to_camel_case t = Ok (ev_ident v)
        \<and> (ev_feature v = None \<longleftrightarrow> (\<exists>e\<in>set (concat input). ee_type e = t \<and> ee_feature e = None))) variants types"
proof -
  let ?d = "dedup_entries input"
  have v: "list_all2 (\<lambda>e v. to_variant e = Ok v) ?d variants" and t: "types = map ee_type ?d"
    using assms by (auto simp: generate_variants_def res_simps)
  have "distinct types" "set types = ee_type ` set (concat input)"
    using dedup_distinct[of "[]" "concat input"] dedup_types[of "[]" "concat input"] by (simp_all add: t dedup_entries_def)
  moreover have "length variants = length types" using v t by (simp add: list_all2_lengthD)
  moreover have "list_all2 (\<lambda>v t. to_camel_case t = Ok (ev_ident v)
        \<and> (ev_feature v = None \<longleftrightarrow> (\<exists>e\<in>set (concat input). ee_type e = t \<and> ee_feature e = None))) variants types"
    unfolding list_all2_conv_all_nth
  proof (intro conjI allI impI)
    show "length variants = length types" by fact
    fix k assume k: "k < length variants"
    have "to_variant (?d ! k) = Ok (variants ! k)" using v k by (simp add: list_all2_conv_all_nth)
    then obtain x where "to_camel_case (ee_type (?d ! k)) = Ok x" "variants ! k = \<lparr>ev_feature = ee_feature (?d ! k), ev_ident = x\<rparr>"
      by (auto simp: to_variant_def res_simps)
    then have i: "to_camel_case (ee_type (?d ! k)) = Ok (ev_ident (variants ! k))"
        "ev_feature (variants ! k) = ee_feature (?d ! k)"
      by simp_all
    have n: "types ! k = ee_type (?d ! k)" "?d ! k \<in> set ?d"
      using k v by (auto simp: t list_all2_lengthD)
    show "to_camel_case (types ! k) = Ok (ev_ident (variants ! k))" using i n by simp
    show "ev_feature (variants ! k) = None \<longleftrightarrow> (\<exists>e\<in>set (concat input). ee_type e = types ! k \<and> ee_feature e = None)"
      using dedup_unconditional[of "[]" "?d ! k" "concat input"] n i by (simp add: dedup_entries_def)
  qed
  ultimately show ?thesis by blast
qed

lemma generate_variants_spec_witness:
  "let input = [[pre_spec_entry ''m.key.verification.start''], [entry ''m.key.verification.start'', entry ''m.dummy'']];
       variants = [\<lparr>ev_feature = None, ev_ident = ''KeyVerificationStart''\<rparr>, \<lparr>ev_feature = None, ev_ident = ''Dummy''\<rparr>];
       types = [''m.key.verification.start'', ''m.dummy'']
   in distinct types \<and> set types = ee_type ` set (concat input) \<and> length variants = length types
    \<and> list_all2 (\<lambda>v t. to_camel_case t = Ok (ev_ident v)
        \<and> (ev_feature v = None \<longleftrightarrow> (\<exists>e\<in>set (concat input). ee_type e = t \<and> ee_feature e = None))) variants types"
  unfolding Let_def by (rule generate_variants_spec) code_simp

section \<open>The event type enums of the repository\<close>

lemma expand_renamed:
  assumes "e_rename_all item = []"
    "e_variants item = map (\<lambda>(n, t, f). (renamed_variant n t)\<lparr>v_feature := f\<rparr>) xs @ [custom_variant]"
  shows "expand_string_enum upper item =
    Ok \<lparr>se_as_ref = map (\<lambda>(n, t, f). (n, ArmStr t)) xs @ [(''_Custom'', ArmInner)],
        se_branches = map (\<lambda>(n, t, f). (t, n)) xs, se_fallback = ''_Custom''\<rparr>"
proof -
  have r: "get_rename_rule item = Ok NoRule" using assms(1) by (simp add: get_rename_rule_def)
  have a: "map_res (as_ref_arm upper NoRule) (map (\<lambda>(n, t, f). (renamed_variant n t)\<lparr>v_feature := f\<rparr>) xs) =
      Ok (map (\<lambda>(n, t, f). (n, ArmStr t)) xs)"
    by (induction xs) (auto simp: as_ref_arm_def get_rename_def renamed_variant_def)
  have b: "from_branches upper NoRule (map (\<lambda>(n, t, f). (renamed_variant n t)\<lparr>v_feature := f\<rparr>) xs @ [custom_variant]) None =
      Ok (map (\<lambda>(n, t, f). (t, n)) xs, Some ''_Custom'')"
    by (induction xs) (auto simp: get_rename_def renamed_variant_def custom_variant_def)
  show ?thesis
    by (simp add: expand_string_enum_def expand_enum_as_ref_str_def expand_enum_from_string_def r assms(2)
        map_res_append a b)
       (simp add: as_ref_arm_def get_rename_def custom_variant_def)
qed

lemma distinct_map_filter: "distinct (map f xs) \<Longrightarrow> distinct (map f (filter P xs))"
  by (induction xs) auto

lemma generate_enum_ok:
  assumes "generate_variants input = Ok (vs, ts)" "distinct (map ev_ident vs @ [''_Custom''])"
  shows "string_enum_ok upper (cfg_strip fs (generate_enum ident ts vs))"
proof -
  let ?on = "\<lambda>(n, t, f). case f of None \<Rightarrow> True | Some x \<Rightarrow> x \<in> set fs"
  define xs where "xs = map (\<lambda>(t, v). (ev_ident v, t, ev_feature v)) (zip ts vs)"
  define ys where "ys = filter ?on xs"
  have l: "length vs = length ts" "distinct ts" using generate_variants_spec[OF assms(1)] by auto
  have names: "map fst xs = map ev_ident vs" "map (fst \<circ> snd) xs = ts"
    unfolding xs_def using l(1)[symmetric] by (induction ts vs rule: list_induct2) simp_all
  have "e_variants (cfg_strip fs (generate_enum ident ts vs)) =
      map (\<lambda>(n, t, f). (renamed_variant n t)\<lparr>v_feature := f\<rparr>) ys @ [custom_variant]"
    by (auto simp: cfg_strip_def generate_enum_def ys_def xs_def filter_map comp_def custom_variant_def
        renamed_variant_def case_prod_beta)
  moreover have "e_rename_all (cfg_strip fs (generate_enum ident ts vs)) = []"
    by (simp add: cfg_strip_def generate_enum_def)
  moreover have "distinct (map fst xs)" "''_Custom'' \<notin> set (map fst xs)" using assms(2) unfolding names(1) by simp_all
  then have "distinct (map fst ys)" "''_Custom'' \<notin> fst ` set ys"
    unfolding ys_def by (blast intro: distinct_map_filter, auto)
  moreover have "distinct (map (fst \<circ> snd) ys)"
    using l(2) names(2) distinct_map_filter[of "fst \<circ> snd" xs ?on] by (simp add: ys_def)
  ultimately show ?thesis using expand_renamed[of "cfg_strip fs (generate_enum ident ts vs)" ys upper]
    by (simp add: string_enum_ok_def comp_def case_prod_beta renamed_variant_def custom_variant_def)
qed


text \<open>The event types of the repository and their identifiers.\<close>

definition repository_types :: "string list" where
  "repository_types =
     [''m.direct'', ''m.ignored_user_list'', ''m.push_rules'', ''m.fully_read'', ''m.tag'', ''m.receipt'',
      ''m.typing'', ''m.call.answer'', ''m.call.invite'', ''m.call.hangup'', ''m.call.candidates'',
      ''m.key.verification.ready'', ''m.key.verification.start'', ''m.key.verification.cancel'',
      ''m.key.verification.accept'', ''m.key.verification.key'', ''m.key.verification.mac'',
      ''m.key.verification.done'', ''m.reaction'', ''m.room.encrypted'', ''m.room.message'',
      ''m.room.message.feedback'', ''m.room.redaction'', ''m.sticker'', ''m.policy.rule.room'',
      ''m.policy.rule.server'', ''m.policy.rule.user'', ''m.room.aliases'', ''m.room.avatar'',
      ''m.room.canonical_alias'', ''m.room.create'', ''m.room.encryption'', ''m.room.guest_access'',
      ''m.room.history_visibility'', ''m.room.join_rules'', ''m.room.member'', ''m.room.name'',
      ''m.room.pinned_events'', ''m.room.power_levels'', ''m.room.server_acl'', ''m.room.third_party_invite'',
      ''m.room.tombstone'', ''m.room.topic'', ''m.space.child'', ''m.space.parent'', ''m.dummy'',
      ''m.room_key'', ''m.room_key_request'', ''m.forwarded_room_key'', ''m.key.verification.request'',
      ''m.secret.request'', ''m.secret.send'', ''m.presence'']"

definition repository_idents :: "string list" where
  "repository_idents =
     [''Direct'', ''IgnoredUserList'', ''PushRules'', ''FullyRead'', ''Tag'', ''Receipt'', ''Typing'',
      ''CallAnswer'', ''CallInvite'', ''CallHangup'', ''CallCandidates'', ''KeyVerificationReady'',
      ''KeyVerificationStart'', ''KeyVerificationCancel'', ''KeyVerificationAccept'', ''KeyVerificationKey'',
      ''KeyVerificationMac'', ''KeyVerificationDone'', ''Reaction'', ''RoomEncrypted'', ''RoomMessage'',
      ''RoomMessageFeedback'', ''RoomRedaction'', ''Sticker'', ''PolicyRuleRoom'', ''PolicyRuleServer'',
      ''PolicyRuleUser'', ''RoomAliases'', ''RoomAvatar'', ''RoomCanonicalAlias'', ''RoomCreate'',
      ''RoomEncryption'', ''RoomGuestAccess'', ''RoomHistoryVisibility'', ''RoomJoinRules'', ''RoomMember'',
      ''RoomName'', ''RoomPinnedEvents'', ''RoomPowerLevels'', ''RoomServerAcl'', ''RoomThirdPartyInvite'',
      ''RoomTombstone'', ''RoomTopic'', ''SpaceChild'', ''SpaceParent'', ''Dummy'', ''RoomKey'',
      ''RoomKeyRequest'', ''ForwardedRoomKey'', ''KeyVerificationRequest'', ''SecretRequest'', ''SecretSend'',
      ''Presence'']"

lemma repository_idents_camel: "map_res to_camel_case repository_types = Ok repository_idents"
  by code_simp

lemma repository_idents_distinct: "distinct (repository_idents @ [''_Custom''])"
  by code_simp

lemma repository_types_cover:
  "list_all (\<lambda>(ident, entries). list_all (\<lambda>e. ee_type e \<in> set repository_types) (concat entries))
    (event_type_lists event_enums_input)"
  by code_simp

lemma camel_repository:
  "t \<in> set repository_types \<Longrightarrow> \<exists>i\<in>set repository_idents. to_camel_case t = Ok i"
  "t \<in> set repository_types \<Longrightarrow> t' \<in> set repository_types \<Longrightarrow> to_camel_case t = to_camel_case t' \<Longrightarrow> t = t'"
proof -
  have l: "list_all2 (\<lambda>t i. to_camel_case t = Ok i) repository_types repository_idents"
    using repository_idents_camel by (simp only: map_res_eq_Ok)
  show "\<exists>i\<in>set repository_idents. to_camel_case t = Ok i" if "t \<in> set repository_types"
    using l that by (auto simp: list_all2_conv_all_nth in_set_conv_nth)
  show "t = t'" if t: "t \<in> set repository_types" "t' \<in> set repository_types" "to_camel_case t = to_camel_case t'"
  proof -
    obtain m n where mn: "m < length repository_types" "t = repository_types ! m" "n < length repository_types"
        "t' = repository_types ! n" using t(1,2) by (auto simp: in_set_conv_nth)
    then have "repository_idents ! m = repository_idents ! n"
      using l t(3) by (auto simp: list_all2_conv_all_nth)
    then show ?thesis using mn l repository_idents_distinct by (simp add: nth_eq_iff_index_eq list_all2_lengthD)
  qed
qed

lemma repository_variants:
  assumes "list_all (\<lambda>e. ee_type e \<in> set repository_types) (concat entries)"
  shows "\<exists>vs ts. generate_variants entries = Ok (vs, ts) \<and> distinct (map ev_ident vs @ [''_Custom''])"
proof -
  let ?d = "dedup_entries entries"
  define ident where "ident t = (SOME i. to_camel_case t = Ok i)" for t
  have t: "ee_type e \<in> set repository_types" if "e \<in> set ?d" for e
  proof -
    have "ee_type e \<in> ee_type ` set (concat entries)"
      using imageI[OF that, of ee_type] dedup_types[of "[]" "concat entries"] by (simp add: dedup_entries_def)
    then show ?thesis using assms by (auto simp: list_all_iff)
  qed
  have i: "to_camel_case x = Ok (ident x)" "ident x \<in> set repository_idents" if "x \<in> set repository_types" for x
    using camel_repository(1)[OF that] by (auto simp: ident_def)
  have "map_res to_variant ?d = Ok (map (\<lambda>e. \<lparr>ev_feature = ee_feature e, ev_ident = ident (ee_type e)\<rparr>) ?d)"
    using i(1) t by (intro map_res_Ok_map) (simp add: to_variant_def)
  then have g: "generate_variants entries =
      Ok (map (\<lambda>e. \<lparr>ev_feature = ee_feature e, ev_ident = ident (ee_type e)\<rparr>) ?d, map ee_type ?d)"
    by (simp add: generate_variants_def)
  have "inj_on ident (ee_type ` set ?d)"
    using camel_repository(2) i(1) t by (auto simp: inj_on_def)
  moreover have "distinct (map ee_type ?d)"
    using dedup_distinct[of "[]" "concat entries"] by (simp add: dedup_entries_def)
  ultimately have "distinct (map ident (map ee_type ?d))" by (simp only: distinct_map set_map)
  moreover have "''_Custom'' \<notin> ident ` ee_type ` set ?d"
    using i(2) t repository_idents_distinct by auto
  ultimately show ?thesis using g by (simp add: comp_def image_image)
qed

lemma event_type_lists_ok:
  assumes "(ident, entries) \<in> set (event_type_lists event_enums_input)"
  shows "\<exists>vs ts. generate_variants entries = Ok (vs, ts) \<and> distinct (map ev_ident vs @ [''_Custom''])"
  using repository_types_cover assms by (intro repository_variants) (auto simp only: list_all_iff split: prod.splits)

text \<open>On the event types of the repository the macro generates the eight event type enums without an error, and
  whatever features are enabled each of them is accepted by \<open>StringEnum\<close>, with distinct strings and variants.\<close>

lemma event_type_enums_ok:
  "\<exists>items. expand_event_type_enum event_enums_input = Ok items \<and> length items = 8
     \<and> list_all (\<lambda>item. string_enum_ok upper (cfg_strip fs item)) items"
proof -
  have "\<exists>items. map_res (\<lambda>(ident, entries). and_then (generate_variants entries)
      (\<lambda>(variants, types). Ok (generate_enum ident types variants))) xs = Ok items \<and> length items = length xs
     \<and> list_all (\<lambda>item. string_enum_ok upper (cfg_strip fs item)) items"
    if "set xs \<subseteq> set (event_type_lists event_enums_input)" for xs
    using that
  proof (induction xs)
    case (Cons x xs)
    obtain ident entries where x: "x = (ident, entries)" by (cases x)
    then obtain vs ts where g: "generate_variants entries = Ok (vs, ts)" "distinct (map ev_ident vs @ [''_Custom''])"
      using Cons.prems event_type_lists_ok[of ident entries] by auto
    show ?case using Cons g(1) generate_enum_ok[OF g] by (auto simp: x)
  qed simp
  moreover have "length (event_type_lists event_enums_input) = 8" by (simp add: event_type_lists_def)
  ultimately show ?thesis unfolding expand_event_type_enum_def by (metis order_refl)
qed

end
