(* ===== verification/Serde_Derive.thy ===== *)
theory Serde_Derive
  imports Id_Validation Canonical_Json
begin

text \<open>The (de)serialization that \<^verbatim>\<open>#[derive(Serialize, Deserialize)]\<close> generates for the data types of the
  repository, by the documentation of serde: a type is described by a value of \<open>ty\<close> (a struct by its fields with the
  attributes \<^verbatim>\<open>rename\<close>, \<^verbatim>\<open>default\<close>, \<^verbatim>\<open>skip_serializing_if\<close>, \<^verbatim>\<open>flatten\<close>, \<^verbatim>\<open>with\<close>, an enum by its
  variants and its \<^verbatim>\<open>tag\<close>, \<^verbatim>\<open>content\<close> or \<^verbatim>\<open>untagged\<close>), and \<open>ser\<close> and \<open>de\<close> interpret the description.
  Borrowed types have the description of their owned \<^verbatim>\<open>Incoming\<close> counterpart.  Strings with a validator are read
  through it (\<open>Id_Validation\<close>); \<open>FOpaque\<close> stands for a type with a \<^verbatim>\<open>Deserialize\<close> implementation that is modelled
  elsewhere or not at all, of which only the set of JSON values it accepts is known (\<open>opaque_ok\<close>).  The array form
  that serde accepts for structs as well is left out.\<close>

section \<open>Descriptions of types\<close>

datatype text_kind =
    AnyText | UserIdText | RoomIdText | EventIdText | RoomAliasText | RoomOrAliasText | ServerNameText
  | RoomVersionText | RoomNameText | ClientSecretText | SessionIdText | DeviceKeyIdText | ServerKeyIdText

datatype val =
    VText string | VBool bool | VInt int | VUnit string | VJson json | VNone | VSome val
  | VVec "val list" | VMap "(string \<times> val) list" | VStruct "val list" | VVariant nat val

text \<open>\<open>skip_serializing_if\<close>: \<open>Option::is_none\<close>, \<open>is_empty\<close> of strings and containers, comparison with a constant
  (\<open>is_default\<close>, \<open>is_true\<close>), and the \<open>is_empty\<close> methods of structs, which look at some of the fields.\<close>

datatype skip = NeverSkip | SkipNone | SkipEmpty | SkipEq val | SkipAll "skip option list"

datatype ty =
    FText text_kind
  | FBool
  | FInt int int
  | FDuration int
  | FUnits "string list"
  | FJson
  | FOpaque string
  | FOpt ty
  | FWith ty
  | FVec ty
  | FMap text_kind ty
  | FSingle ty
  | FV1Pdu ty
  | FMapOfEmpty text_kind
  | FEmptyNone ty
  | FStruct "(string \<times> string) option" "field list"
  | FTagged string "(string \<times> ty) list"
  | FAdjacent string string "(string \<times> ty) list"
  | FUntagged "ty list"
and field = Field (f_name: string) (f_ty: ty) (f_skip: skip) (f_default: "val option") (f_flat: bool)

record serde_env =
  se_alnum :: "nat \<Rightarrow> bool"
  opaque_ok :: "string \<Rightarrow> json \<Rightarrow> bool"

datatype serde_error = InvalidType | InvalidText id_error | OutOfRange | MissingField string | UnknownVariant
datatype ser_error = NotFlattenable | DurationTooLong | IllTyped

section \<open>Strings\<close>

definition no_value :: "('a, 'e) result \<Rightarrow> (unit, 'e) result" where
  "no_value r = and_then r (\<lambda>x. Ok ())"

fun validate_text :: "serde_env \<Rightarrow> text_kind \<Rightarrow> string \<Rightarrow> (unit, id_error) result" where
  "validate_text E AnyText s = Ok ()"
| "validate_text E UserIdText s = user_id_validate s"
| "validate_text E RoomIdText s = room_id_validate s"
| "validate_text E EventIdText s = event_id_validate s"
| "validate_text E RoomAliasText s = room_alias_id_validate s"
| "validate_text E RoomOrAliasText s = room_id_or_alias_id_validate s"
| "validate_text E ServerNameText s = server_name_validate s"
| "validate_text E RoomVersionText s = room_version_id_validate s"
| "validate_text E RoomNameText s = room_name_validate s"
| "validate_text E ClientSecretText s = client_secret_validate (se_alnum E) s"
| "validate_text E SessionIdText s = session_id_validate (se_alnum E) s"
| "validate_text E DeviceKeyIdText s = device_key_id_validate s"
| "validate_text E ServerKeyIdText s = no_value (key_id_validate (se_alnum E) s)"

definition text_ok :: "serde_env \<Rightarrow> text_kind \<Rightarrow> string \<Rightarrow> bool" where
  "text_ok E k s \<longleftrightarrow> validate_text E k s = Ok ()"

definition de_text :: "serde_env \<Rightarrow> text_kind \<Rightarrow> string \<Rightarrow> (string, serde_error) result" where
  "de_text E k s = and_then (map_err InvalidText (validate_text E k s)) (\<lambda>_. Ok s)"

lemma de_text_ok [simp]: "text_ok E k s \<Longrightarrow> de_text E k s = Ok s"
  by (simp add: text_ok_def de_text_def)

section \<open>Numbers\<close>

text \<open>An integer of a JSON number; \<^verbatim>\<open>js_int\<close> and the primitive types then check their range.\<close>

fun json_int :: "json_number \<Rightarrow> int option" where
  "json_int (PosInt w) = Some (uint w)"
| "json_int (NegInt w) = Some (sint w)"
| "json_int (Float w) = None"

definition MAX_SAFE :: int where "MAX_SAFE = 9007199254740991"

lemma json_int_number: "- (2 ^ 63) \<le> i \<Longrightarrow> i < 2 ^ 64 \<Longrightarrow> json_int (number_from_i64 i) = Some i"
proof -
  assume i: "- (2 ^ 63) \<le> i" "i < 2 ^ 64"
  have "i < 0 \<Longrightarrow> signed_take_bit 63 i = i" using i by (intro signed_take_bit_int_eq_self) auto
  then show ?thesis using i by (auto simp: number_from_i64_def sint_sbintrunc' uint_word_of_int_eq take_bit_int_eq_self)
qed

section \<open>Serialization\<close>

fun skipped :: "skip \<Rightarrow> val \<Rightarrow> bool" where
  "skipped NeverSkip v = False"
| "skipped SkipNone v = (v = VNone)"
| "skipped SkipEmpty v = (v = VText [] \<or> v = VVec [] \<or> v = VMap [])"
| "skipped (SkipEq d) v = (v = d)"
| "skipped (SkipAll ks) (VStruct vs) = list_all2 (\<lambda>k v. case k of None \<Rightarrow> True | Some k' \<Rightarrow> skipped k' v) ks vs"
| "skipped (SkipAll ks) v = False"

definition extend_object :: "(string \<times> json) list \<Rightarrow> (string \<times> json) list \<Rightarrow> (string \<times> json) list" where
  "extend_object m o' = fold (\<lambda>(k, v). bt_insert k v) o' m"

text \<open>A flattened field writes its entries into the object of the struct; \<open>None\<close> writes nothing.\<close>

definition flatten_into :: "json \<Rightarrow> (string \<times> json) list \<Rightarrow> ((string \<times> json) list, ser_error) result" where
  "flatten_into j m = (case j of JObject o' \<Rightarrow> Ok (extend_object m o') | JNull \<Rightarrow> Ok m | _ \<Rightarrow> Err NotFlattenable)"

text \<open>An internally tagged variant is an object with the tag as a further entry.\<close>

definition add_tag :: "string \<Rightarrow> string \<Rightarrow> json \<Rightarrow> (json, ser_error) result" where
  "add_tag tag name j = (case j of JObject o' \<Rightarrow> Ok (JObject (bt_insert tag (JString name) o')) | _ \<Rightarrow> Err NotFlattenable)"

fun text_of :: "val \<Rightarrow> string" where
  "text_of (VText s) = s"
| "text_of _ = []"

definition object_of :: "(string \<times> json) list \<Rightarrow> json" where
  "object_of kvs = JObject (bt_of_list kvs)"

text \<open>The \<^verbatim>\<open>with\<close> modules of the repository: durations in a unit of \<open>unit\<close> nanoseconds, a sequence of one element, the
  status code around a v1 response, a sorted set as a map to empty objects.\<close>

definition duration_serialize :: "int \<Rightarrow> int \<Rightarrow> (json, ser_error) result" where
  "duration_serialize unit nanos =
     (if MAX_SAFE < nanos div unit then Err DurationTooLong else Ok (JNumber (number_from_i64 (nanos div unit))))"

definition single_element_serialize :: "(json, ser_error) result \<Rightarrow> (json, ser_error) result" where
  "single_element_serialize value = and_then value (\<lambda>j. Ok (JArray [j]))"

definition v1_pdu_serialize :: "(json, ser_error) result \<Rightarrow> (json, ser_error) result" where
  "v1_pdu_serialize value = and_then value (\<lambda>j. Ok (JArray [JNumber (number_from_i64 200), j]))"

definition map_of_empty_serialize :: "val list \<Rightarrow> (json, ser_error) result" where
  "map_of_empty_serialize vs = Ok (object_of (map (\<lambda>w. (text_of w, JObject [])) vs))"

fun ser :: "ty \<Rightarrow> val \<Rightarrow> (json, ser_error) result"
  and ser_fields :: "field list \<Rightarrow> val list \<Rightarrow> (string \<times> json) list \<Rightarrow> ((string \<times> json) list, ser_error) result"
  and ser_variant :: "(string \<times> ty) list \<Rightarrow> nat \<Rightarrow> val \<Rightarrow> (string \<times> json, ser_error) result"
  and ser_untagged :: "ty list \<Rightarrow> nat \<Rightarrow> val \<Rightarrow> (json, ser_error) result" where
  "ser (FText k) v = (case v of VText s \<Rightarrow> Ok (JString s) | _ \<Rightarrow> Err IllTyped)"
| "ser FBool v = (case v of VBool b \<Rightarrow> Ok (JBool b) | _ \<Rightarrow> Err IllTyped)"
| "ser (FInt lo hi) v = (case v of VInt i \<Rightarrow> Ok (JNumber (number_from_i64 i)) | _ \<Rightarrow> Err IllTyped)"
| "ser (FDuration unit) v = (case v of
     VInt nanos \<Rightarrow> duration_serialize unit nanos | _ \<Rightarrow> Err IllTyped)"
| "ser (FUnits names) v = (case v of VUnit s \<Rightarrow> Ok (JString s) | _ \<Rightarrow> Err IllTyped)"
| "ser FJson v = (case v of VJson j \<Rightarrow> Ok j | _ \<Rightarrow> Err IllTyped)"
| "ser (FOpaque name) v = (case v of VJson j \<Rightarrow> Ok j | _ \<Rightarrow> Err IllTyped)"
| "ser (FOpt t) v = (case v of VNone \<Rightarrow> Ok JNull | VSome w \<Rightarrow> ser t w | _ \<Rightarrow> Err IllTyped)"
| "ser (FWith t) v = ser t v"
| "ser (FVec t) v = (case v of VVec vs \<Rightarrow> and_then (map_res (ser t) vs) (\<lambda>js. Ok (JArray js)) | _ \<Rightarrow> Err IllTyped)"
| "ser (FMap k t) v = (case v of
     VMap kvs \<Rightarrow> and_then (map_res (\<lambda>kv. and_then (ser t (snd kv)) (\<lambda>j. Ok (fst kv, j))) kvs) (\<lambda>es. Ok (object_of es))
   | _ \<Rightarrow> Err IllTyped)"
| "ser (FStruct tag fs) v = (case v of
     VStruct vs \<Rightarrow> and_then (ser_fields fs vs []) (\<lambda>m.
       Ok (JObject (case tag of None \<Rightarrow> m | Some (k, name) \<Rightarrow> bt_insert k (JString name) m)))
   | _ \<Rightarrow> Err IllTyped)"
| "ser (FTagged tag variants) v = (case v of
     VVariant i w \<Rightarrow> and_then (ser_variant variants i w) (\<lambda>(name, j). add_tag tag name j)
   | _ \<Rightarrow> Err IllTyped)"
| "ser (FAdjacent tag content variants) v = (case v of
     VVariant i w \<Rightarrow> and_then (ser_variant variants i w) (\<lambda>(name, j). Ok (object_of [(tag, JString name), (content, j)]))
   | _ \<Rightarrow> Err IllTyped)"
| "ser (FUntagged ts) v = (case v of VVariant i w \<Rightarrow> ser_untagged ts i w | _ \<Rightarrow> Err IllTyped)"
| "ser (FSingle t) v = single_element_serialize (ser t v)"
| "ser (FV1Pdu t) v = v1_pdu_serialize (ser t v)"
| "ser (FMapOfEmpty k) v = (case v of VVec vs \<Rightarrow> map_of_empty_serialize vs | _ \<Rightarrow> Err IllTyped)"
| "ser (FEmptyNone t) v = (case v of VNone \<Rightarrow> Ok JNull | VSome w \<Rightarrow> ser t w | _ \<Rightarrow> Err IllTyped)"
| "ser_fields [] [] m = Ok m"
| "ser_fields (Field name t sk d flat # fs) (v # vs) m =
     (if skipped sk v then ser_fields fs vs m
      else and_then (ser t v) (\<lambda>j. and_then (if flat then flatten_into j m else Ok (bt_insert name j m)) (ser_fields fs vs)))"
| "ser_fields [] (v # vs) m = Err IllTyped"
| "ser_fields (f # fs) [] m = Err IllTyped"
| "ser_variant [] i v = Err IllTyped"
| "ser_variant ((name, t) # variants) i v =
     (case i of 0 \<Rightarrow> and_then (ser t v) (\<lambda>j. Ok (name, j)) | Suc n \<Rightarrow> ser_variant variants n v)"
| "ser_untagged [] i v = Err IllTyped"
| "ser_untagged (t # ts) i v = (case i of 0 \<Rightarrow> ser t v | Suc n \<Rightarrow> ser_untagged ts n v)"

section \<open>Deserialization\<close>

text \<open>The value of a field that is missing: its default, or \<open>None\<close> for an \<open>Option\<close> without a custom function.\<close>

fun absent :: "field \<Rightarrow> (val, serde_error) result" where
  "absent (Field name t sk (Some d) flat) = Ok d"
| "absent (Field name t sk None flat) = (case t of FOpt t' \<Rightarrow> Ok VNone | _ \<Rightarrow> Err (MissingField name))"

definition own_names :: "field list \<Rightarrow> string list" where
  "own_names fs = map f_name (filter (\<lambda>f. \<not> f_flat f) fs)"

definition without_keys :: "string list \<Rightarrow> (string \<times> json) list \<Rightarrow> (string \<times> json) list" where
  "without_keys ks m = filter (\<lambda>kv. fst kv \<notin> set ks) m"

text \<open>A flattened struct (without flattened fields of its own) takes the entries of its fields out of the rest; all other
  flattened types only look at the rest.\<close>

fun consumed :: "ty \<Rightarrow> string list" where
  "consumed (FStruct tag fs) = (if list_ex f_flat fs then [] else own_names fs)"
| "consumed (FOpt t) = consumed t"
| "consumed _ = []"

definition string_member :: "string \<Rightarrow> (string \<times> json) list \<Rightarrow> (string, serde_error) result" where
  "string_member k m = (case bt_get m k of
     None \<Rightarrow> Err (MissingField k) | Some (JString s) \<Rightarrow> Ok s | Some _ \<Rightarrow> Err InvalidType)"

definition result_option :: "(val, serde_error) result \<Rightarrow> (val, serde_error) result" where
  "result_option r = (case r of Ok v \<Rightarrow> Ok (VSome v) | Err e \<Rightarrow> Ok VNone | Panic \<Rightarrow> Panic)"

definition de_int_range :: "int \<Rightarrow> int \<Rightarrow> json \<Rightarrow> (int, serde_error) result" where
  "de_int_range lo hi j = (case j of
     JNumber num \<Rightarrow> (case json_int num of
       Some i \<Rightarrow> if lo \<le> i \<and> i \<le> hi then Ok i else Err OutOfRange | None \<Rightarrow> Err InvalidType)
   | _ \<Rightarrow> Err InvalidType)"

definition duration_deserialize :: "int \<Rightarrow> json \<Rightarrow> (int, serde_error) result" where
  "duration_deserialize unit j = and_then (de_int_range 0 MAX_SAFE j) (\<lambda>i. Ok (i * unit))"

definition single_element_deserialize :: "(json \<Rightarrow> (val, serde_error) result) \<Rightarrow> json \<Rightarrow> (val, serde_error) result" where
  "single_element_deserialize f j = (case j of JArray [j'] \<Rightarrow> f j' | _ \<Rightarrow> Err InvalidType)"

definition v1_pdu_deserialize :: "(json \<Rightarrow> (val, serde_error) result) \<Rightarrow> json \<Rightarrow> (val, serde_error) result" where
  "v1_pdu_deserialize f j = (case j of JArray (code # j' # js) \<Rightarrow> f j' | _ \<Rightarrow> Err InvalidType)"

definition map_of_empty_deserialize :: "serde_env \<Rightarrow> text_kind \<Rightarrow> json \<Rightarrow> (val, serde_error) result" where
  "map_of_empty_deserialize E k j = (case j of
     JObject m \<Rightarrow> and_then (map_res (\<lambda>kv. and_then (de_text E k (fst kv)) (\<lambda>s.
       case snd kv of JObject m' \<Rightarrow> Ok (VText s) | _ \<Rightarrow> Err InvalidType)) m) (\<lambda>vs. Ok (VVec vs))
   | _ \<Rightarrow> Err InvalidType)"

definition empty_none_deserialize :: "(json \<Rightarrow> (val, serde_error) result) \<Rightarrow> json \<Rightarrow> (val, serde_error) result" where
  "empty_none_deserialize f j = (case j of
     JNull \<Rightarrow> Ok VNone
   | JString s \<Rightarrow> if s = [] then Ok VNone else and_then (f (JString s)) (\<lambda>v. Ok (VSome v))
   | _ \<Rightarrow> Err InvalidType)"

lemma size_f_ty: "3 * size (f_ty f) < Suc (3 * size f + n)"
  by (cases f) simp

function de :: "serde_env \<Rightarrow> ty \<Rightarrow> json \<Rightarrow> (val, serde_error) result"
  and de_flat :: "serde_env \<Rightarrow> ty \<Rightarrow> (string \<times> json) list \<Rightarrow> (val, serde_error) result"
  and de_fields :: "serde_env \<Rightarrow> field list \<Rightarrow> (string \<times> json) list \<Rightarrow> (string \<times> json) list \<Rightarrow> (val list, serde_error) result"
  and de_field :: "serde_env \<Rightarrow> field \<Rightarrow> (string \<times> json) list \<Rightarrow> (string \<times> json) list \<Rightarrow> (val, serde_error) result"
  and de_variant :: "serde_env \<Rightarrow> nat \<Rightarrow> (string \<times> ty) list \<Rightarrow> string \<Rightarrow> json \<Rightarrow> (val, serde_error) result"
  and de_untagged :: "serde_env \<Rightarrow> nat \<Rightarrow> ty list \<Rightarrow> json \<Rightarrow> (val, serde_error) result" where
  "de E (FText k) j = (case j of JString s \<Rightarrow> and_then (de_text E k s) (\<lambda>s. Ok (VText s)) | _ \<Rightarrow> Err InvalidType)"
| "de E FBool j = (case j of JBool b \<Rightarrow> Ok (VBool b) | _ \<Rightarrow> Err InvalidType)"
| "de E (FInt lo hi) j = and_then (de_int_range lo hi j) (\<lambda>i. Ok (VInt i))"
| "de E (FDuration unit) j = and_then (duration_deserialize unit j) (\<lambda>i. Ok (VInt i))"
| "de E (FUnits names) j = (case j of
     JString s \<Rightarrow> if s \<in> set names then Ok (VUnit s) else Err UnknownVariant | _ \<Rightarrow> Err InvalidType)"
| "de E FJson j = Ok (VJson j)"
| "de E (FOpaque name) j = (if opaque_ok E name j then Ok (VJson j) else Err InvalidType)"
| "de E (FOpt t) j = (if j = JNull then Ok VNone else and_then (de E t j) (\<lambda>v. Ok (VSome v)))"
| "de E (FWith t) j = de E t j"
| "de E (FVec t) j = (case j of JArray js \<Rightarrow> and_then (map_res (de E t) js) (\<lambda>vs. Ok (VVec vs)) | _ \<Rightarrow> Err InvalidType)"
| "de E (FMap k t) j = (case j of
     JObject m \<Rightarrow> and_then (map_res (\<lambda>kv. and_then (de_text E k (fst kv)) (\<lambda>s. and_then (de E t (snd kv)) (\<lambda>v. Ok (s, v)))) m)
       (\<lambda>kvs. Ok (VMap kvs))
   | _ \<Rightarrow> Err InvalidType)"
| "de E (FStruct tag fs) j = (case j of
     JObject m \<Rightarrow> and_then (de_fields E fs m (without_keys (own_names fs) m)) (\<lambda>vs. Ok (VStruct vs))
   | _ \<Rightarrow> Err InvalidType)"
| "de E (FTagged tag variants) j = (case j of
     JObject m \<Rightarrow> and_then (string_member tag m) (\<lambda>name. de_variant E 0 variants name (JObject (without_keys [tag] m)))
   | _ \<Rightarrow> Err InvalidType)"
| "de E (FAdjacent tag content variants) j = (case j of
     JObject m \<Rightarrow> and_then (string_member tag m) (\<lambda>name. and_then (ok_or (MissingField content) (bt_get m content)) (\<lambda>c.
       de_variant E 0 variants name c))
   | _ \<Rightarrow> Err InvalidType)"
| "de E (FUntagged ts) j = de_untagged E 0 ts j"
| "de E (FSingle t) j = single_element_deserialize (de E t) j"
| "de E (FV1Pdu t) j = v1_pdu_deserialize (de E t) j"
| "de E (FMapOfEmpty k) j = map_of_empty_deserialize E k j"
| "de E (FEmptyNone t) j = empty_none_deserialize (de E t) j"
| "de_flat E t rest = (case t of FOpt t' \<Rightarrow> result_option (de E t' (JObject rest)) | _ \<Rightarrow> de E t (JObject rest))"
| "de_fields E [] m rest = Ok []"
| "de_fields E (f # fs) m rest = and_then (de_field E f m rest) (\<lambda>v.
     and_then (de_fields E fs m (if f_flat f then without_keys (consumed (f_ty f)) rest else rest)) (\<lambda>vs. Ok (v # vs)))"
| "de_field E f m rest =
     (if f_flat f then de_flat E (f_ty f) rest
      else (case bt_get m (f_name f) of Some j \<Rightarrow> de E (f_ty f) j | None \<Rightarrow> absent f))"
| "de_variant E i [] name j = Err UnknownVariant"
| "de_variant E i ((n, t) # variants) name j =
     (if n = name then and_then (de E t j) (\<lambda>v. Ok (VVariant i v)) else de_variant E (Suc i) variants name j)"
| "de_untagged E i [] j = Err UnknownVariant"
| "de_untagged E i (t # ts) j = (case de E t j of
     Ok v \<Rightarrow> Ok (VVariant i v) | Err e \<Rightarrow> de_untagged E (Suc i) ts j | Panic \<Rightarrow> Panic)"
  by pat_completeness auto
termination
  by (relation "measure (\<lambda>x. case x of
      Inl (Inl (E, t, j)) \<Rightarrow> 3 * size t
    | Inl (Inr (Inl (E, t, rest))) \<Rightarrow> 3 * size t + 1
    | Inl (Inr (Inr (E, fs, m, rest))) \<Rightarrow> 3 * size_list size fs
    | Inr (Inl (E, f, m, rest)) \<Rightarrow> 3 * size (f_ty f) + 2
    | Inr (Inr (Inl (E, i, vs, name, j))) \<Rightarrow> 3 * size_list (size_prod (\<lambda>x. 0) size) vs
    | Inr (Inr (Inr (E, i, ts, j))) \<Rightarrow> 3 * size_list size ts)") (auto simp: size_f_ty)

lemmas with_modules =
  duration_serialize_def single_element_serialize_def v1_pdu_serialize_def map_of_empty_serialize_def
  duration_deserialize_def single_element_deserialize_def v1_pdu_deserialize_def map_of_empty_deserialize_def
  empty_none_deserialize_def

end
