(* ===== verification/Api_Macro.thy ===== *)
theory Api_Macro
  imports Serde_Derive
begin

text \<open>The \<^verbatim>\<open>ruma_api!\<close> macro (\<^verbatim>\<open>ruma-api-macros\<close>): the declaration of an endpoint is parsed, checked and
  expanded.  The types of the fields are described as in \<open>Serde_Derive\<close>; attributes other than \<^verbatim>\<open>ruma_api\<close> are part
  of the description.  What the generated conversions do is in \<open>Api_Http\<close>.\<close>

section \<open>Declarations\<close>

datatype auth_scheme = AuthNone | AccessToken | ServerSignatures | QueryOnlyAccessToken

datatype field_value =
    Description string | Method string | Name string | Path string
  | RateLimited bool | Authentication auth_scheme

text \<open>An argument of \<^verbatim>\<open>#[ruma_api(...)]\<close>.\<close>

datatype meta = Word string | NameValue string string

datatype raw_field = RawField (rf_ident: string) (rf_attrs: "meta list") (rf_borrows: bool) (rf_decl: field)

record api_decl =
  ad_metadata :: "field_value list"
  ad_request :: "raw_field list"
  ad_response :: "raw_field list"
  ad_error :: string

datatype macro_error =
    DuplicateField string | MissingMetadata string | BadPath | MultipleKinds | InvalidArgument
  | MultipleNewtypeBodies | MultipleQueryMaps | NewtypeAndBodyFields | QueryMapAndQueryFields
  | QueryMapLifetime | GetWithBody | ResponseLifetime

section \<open>Metadata\<close>

record metadata =
  md_method :: string
  md_name :: string
  md_path :: string
  md_rate_limited :: bool
  md_authentication :: auth_scheme

definition is_valid_endpoint_path :: "string \<Rightarrow> bool" where
  "is_valid_endpoint_path s \<longleftrightarrow> list_all (\<lambda>b. 33 \<le> byte b \<and> byte b \<le> 126) s"

text \<open>The same on the bits of the characters, for evaluation.\<close>

lemma printable_bits: "33 \<le> byte (Char b0 b1 b2 b3 b4 b5 b6 b7) \<and> byte (Char b0 b1 b2 b3 b4 b5 b6 b7) \<le> 126 \<longleftrightarrow>
    \<not> b7 \<and> (b6 \<or> b5 \<and> (b0 \<or> b1 \<or> b2 \<or> b3 \<or> b4)) \<and> \<not> (b0 \<and> b1 \<and> b2 \<and> b3 \<and> b4 \<and> b5 \<and> b6)"
  by (cases b0; cases b1; cases b2; cases b3; cases b4; cases b5; cases b6; cases b7; simp)

lemma is_valid_endpoint_path_bits [code]: "is_valid_endpoint_path s \<longleftrightarrow> list_all (\<lambda>c. case c of Char b0 b1 b2 b3 b4 b5 b6 b7 \<Rightarrow>
    \<not> b7 \<and> (b6 \<or> b5 \<and> (b0 \<or> b1 \<or> b2 \<or> b3 \<or> b4)) \<and> \<not> (b0 \<and> b1 \<and> b2 \<and> b3 \<and> b4 \<and> b5 \<and> b6)) s"
  unfolding is_valid_endpoint_path_def by (rule list.pred_cong) (simp_all add: printable_bits split: char.split)

text \<open>The variables of \<open>parse\<close>; several rate limits and authentications (for different features) are kept.\<close>

record metadata_vars =
  mv_description :: "string option"
  mv_method :: "string option"
  mv_name :: "string option"
  mv_path :: "string option"
  mv_rate_limited :: "bool list"
  mv_authentication :: "auth_scheme list"

definition set_var :: "string \<Rightarrow> string option \<Rightarrow> string \<Rightarrow> (string option, macro_error) result" where
  "set_var name var value = (case var of Some existing \<Rightarrow> Err (DuplicateField name) | None \<Rightarrow> Ok (Some value))"

fun set_metadata :: "field_value \<Rightarrow> metadata_vars \<Rightarrow> (metadata_vars, macro_error) result" where
  "set_metadata (Description d) m = and_then (set_var ''description'' (mv_description m) d) (\<lambda>x. Ok (m\<lparr>mv_description := x\<rparr>))"
| "set_metadata (Method d) m = and_then (set_var ''method'' (mv_method m) d) (\<lambda>x. Ok (m\<lparr>mv_method := x\<rparr>))"
| "set_metadata (Name d) m = and_then (set_var ''name'' (mv_name m) d) (\<lambda>x. Ok (m\<lparr>mv_name := x\<rparr>))"
| "set_metadata (Path d) m = and_then (set_var ''path'' (mv_path m) d) (\<lambda>x. Ok (m\<lparr>mv_path := x\<rparr>))"
| "set_metadata (RateLimited b) m = Ok (m\<lparr>mv_rate_limited := mv_rate_limited m @ [b]\<rparr>)"
| "set_metadata (Authentication a) m = Ok (m\<lparr>mv_authentication := mv_authentication m @ [a]\<rparr>)"

fun set_all :: "field_value list \<Rightarrow> metadata_vars \<Rightarrow> (metadata_vars, macro_error) result" where
  "set_all [] m = Ok m"
| "set_all (fv # fvs) m = and_then (set_metadata fv m) (set_all fvs)"

text \<open>\<open>FieldValue::parse\<close> refuses a path with spaces or other characters outside printable ASCII.\<close>

definition parse_field_value :: "field_value \<Rightarrow> (field_value, macro_error) result" where
  "parse_field_value fv = (case fv of Path p \<Rightarrow> if is_valid_endpoint_path p then Ok fv else Err BadPath | _ \<Rightarrow> Ok fv)"

definition parse_metadata :: "field_value list \<Rightarrow> (metadata, macro_error) result" where
  "parse_metadata fvs =
     and_then (map_res parse_field_value fvs) (\<lambda>fvs.
     and_then (set_all fvs \<lparr>mv_description = None, mv_method = None, mv_name = None, mv_path = None,
       mv_rate_limited = [], mv_authentication = []\<rparr>) (\<lambda>m.
     and_then (ok_or (MissingMetadata ''description'') (mv_description m)) (\<lambda>d.
     and_then (ok_or (MissingMetadata ''method'') (mv_method m)) (\<lambda>method.
     and_then (ok_or (MissingMetadata ''name'') (mv_name m)) (\<lambda>name.
     and_then (ok_or (MissingMetadata ''path'') (mv_path m)) (\<lambda>path.
     if mv_rate_limited m = [] then Err (MissingMetadata ''rate_limited'')
     else if mv_authentication m = [] then Err (MissingMetadata ''authentication'')
     else Ok \<lparr>md_method = method, md_name = name, md_path = path, md_rate_limited = hd (mv_rate_limited m),
            md_authentication = hd (mv_authentication m)\<rparr>))))))"

section \<open>The fields of requests and responses\<close>

datatype request_kind = RBody | RHeader string | RNewtypeBody | RRawBody | RPath | RQuery | RQueryMap

datatype response_kind = PBody | PHeader string | PNewtypeBody | PRawBody

text \<open>One attribute names the kind; without any the field is in the body.\<close>

fun request_kind_of :: "meta list \<Rightarrow> request_kind option \<Rightarrow> (request_kind, macro_error) result" where
  "request_kind_of [] kind = Ok (case kind of None \<Rightarrow> RBody | Some k \<Rightarrow> k)"
| "request_kind_of (a # as) (Some k) = Err MultipleKinds"
| "request_kind_of (Word w # as) None =
     (if w = ''body'' then request_kind_of as (Some RNewtypeBody)
      else if w = ''raw_body'' then request_kind_of as (Some RRawBody)
      else if w = ''path'' then request_kind_of as (Some RPath)
      else if w = ''query'' then request_kind_of as (Some RQuery)
      else if w = ''query_map'' then request_kind_of as (Some RQueryMap)
      else Err InvalidArgument)"
| "request_kind_of (NameValue name v # as) None =
     (if name = ''header'' then request_kind_of as (Some (RHeader v)) else Err InvalidArgument)"

fun response_kind_of :: "meta list \<Rightarrow> response_kind option \<Rightarrow> (response_kind, macro_error) result" where
  "response_kind_of [] kind = Ok (case kind of None \<Rightarrow> PBody | Some k \<Rightarrow> k)"
| "response_kind_of (a # as) (Some k) = Err MultipleKinds"
| "response_kind_of (Word w # as) None =
     (if w = ''body'' then response_kind_of as (Some PNewtypeBody)
      else if w = ''raw_body'' then response_kind_of as (Some PRawBody)
      else Err InvalidArgument)"
| "response_kind_of (NameValue name v # as) None =
     (if name = ''header'' then response_kind_of as (Some (PHeader v)) else Err InvalidArgument)"

datatype 'k api_field = ApiField (af_ident: string) (af_kind: 'k) (af_decl: field)

definition request_field :: "raw_field \<Rightarrow> (request_kind api_field, macro_error) result" where
  "request_field f = and_then (request_kind_of (rf_attrs f) None) (\<lambda>k. Ok (ApiField (rf_ident f) k (rf_decl f)))"

definition response_field :: "raw_field \<Rightarrow> (response_kind api_field, macro_error) result" where
  "response_field f =
     (if rf_borrows f then Err ResponseLifetime
      else and_then (response_kind_of (rf_attrs f) None) (\<lambda>k. Ok (ApiField (rf_ident f) k (rf_decl f))))"

definition of_kind :: "('k \<Rightarrow> bool) \<Rightarrow> 'k api_field list \<Rightarrow> 'k api_field list" where
  "of_kind P fs = filter (\<lambda>f. P (af_kind f)) fs"

abbreviation is_body :: "request_kind \<Rightarrow> bool" where
  "is_body k \<equiv> k = RBody \<or> k = RNewtypeBody"

abbreviation is_header :: "request_kind \<Rightarrow> bool" where
  "is_header k \<equiv> (case k of RHeader h \<Rightarrow> True | _ \<Rightarrow> False)"

text \<open>\<open>Request::check\<close>; \<open>query_borrows\<close> says whether a field of the query has a lifetime.\<close>

definition request_check :: "string \<Rightarrow> bool \<Rightarrow> request_kind api_field list \<Rightarrow> (unit, macro_error) result" where
  "request_check method query_borrows fs =
     (let newtype_bodies = length (of_kind (\<lambda>k. k = RNewtypeBody \<or> k = RRawBody) fs);
          query_maps = length (of_kind (\<lambda>k. k = RQueryMap) fs);
          has_body_fields = list_ex (\<lambda>f. af_kind f = RBody) fs;
          has_query_fields = list_ex (\<lambda>f. af_kind f = RQuery) fs in
      if 1 < newtype_bodies then Err MultipleNewtypeBodies
      else if 1 < query_maps then Err MultipleQueryMaps
      else if newtype_bodies = 1 \<and> has_body_fields then Err NewtypeAndBodyFields
      else if query_maps = 1 \<and> has_query_fields then Err QueryMapAndQueryFields
      else if query_maps = 1 \<and> query_borrows then Err QueryMapLifetime
      else if method = ''GET'' \<and> (has_body_fields \<or> newtype_bodies = 1) then Err GetWithBody
      else Ok ())"

definition response_check :: "response_kind api_field list \<Rightarrow> (unit, macro_error) result" where
  "response_check fs =
     (let newtype_bodies = length (of_kind (\<lambda>k. k = PNewtypeBody \<or> k = PRawBody) fs) in
      if 1 < newtype_bodies then Err MultipleNewtypeBodies
      else if newtype_bodies = 1 \<and> list_ex (\<lambda>f. af_kind f = PBody) fs then Err NewtypeAndBodyFields
      else Ok ())"

section \<open>Expansion\<close>

record endpoint =
  ep_meta :: metadata
  ep_request :: "request_kind api_field list"
  ep_response :: "response_kind api_field list"
  ep_error :: string

abbreviation is_query :: "request_kind \<Rightarrow> bool" where
  "is_query k \<equiv> k = RQuery \<or> k = RQueryMap"

text \<open>The assertions on the path, which stop the macro: \<open>expand_outgoing\<close> wants a colon only at the start of a segment,
  \<open>expand_incoming\<close> a leading slash and as many colons as path fields.\<close>

function format_path :: "(string \<Rightarrow> string) \<Rightarrow> string \<Rightarrow> (string, 'e) result" where
  "format_path arg s = (case str_find (CHR '':'') s of
     None \<Rightarrow> Ok s
   | Some start \<Rightarrow>
       if start = 0 \<or> s ! (start - 1) \<noteq> CHR ''/'' then Panic
       else let tail = drop start s;
                len = (case str_find (CHR ''/'') tail of Some rel_pos \<Rightarrow> rel_pos | None \<Rightarrow> length tail) in
            and_then (format_path arg (drop (start + len) s)) (\<lambda>rest.
              Ok (take start s @ arg (take (len - 1) (drop (start + 1) s)) @ rest)))"
  by pat_completeness auto
termination
  by (relation "measure (\<lambda>(arg, s). length s)") (auto dest: str_find_less)

declare format_path.simps [simp del]

definition incoming_path_ok :: "string \<Rightarrow> request_kind api_field list \<Rightarrow> bool" where
  "incoming_path_ok path fs \<longleftrightarrow> starts_with ''/'' path
     \<and> length (filter (\<lambda>c. c = CHR '':'') path) = length (of_kind (\<lambda>k. k = RPath) fs)"

definition has_path_fields :: "request_kind api_field list \<Rightarrow> bool" where
  "has_path_fields fs \<longleftrightarrow> list_ex (\<lambda>f. af_kind f = RPath) fs"

definition expand_derive_request :: "metadata \<Rightarrow> raw_field list \<Rightarrow> (request_kind api_field list, macro_error) result" where
  "expand_derive_request md raw =
     and_then (map_res request_field raw) (\<lambda>fs.
     let query_borrows = list_ex (\<lambda>(r, f). rf_borrows r \<and> is_query (af_kind f)) (zip raw fs) in
     and_then (request_check (md_method md) query_borrows fs) (\<lambda>_.
     if has_path_fields fs then
       and_then (format_path (\<lambda>_. []) (md_path md)) (\<lambda>_. if incoming_path_ok (md_path md) fs then Ok fs else Panic)
     else Ok fs))"

definition expand_derive_response :: "raw_field list \<Rightarrow> (response_kind api_field list, macro_error) result" where
  "expand_derive_response raw =
     and_then (map_res response_field raw) (\<lambda>fs. and_then (response_check fs) (\<lambda>_. Ok fs))"

definition expand_api :: "api_decl \<Rightarrow> (endpoint, macro_error) result" where
  "expand_api api =
     and_then (parse_metadata (ad_metadata api)) (\<lambda>md.
     and_then (expand_derive_request md (ad_request api)) (\<lambda>req.
     and_then (expand_derive_response (ad_response api)) (\<lambda>resp.
     Ok \<lparr>ep_meta = md, ep_request = req, ep_response = resp, ep_error = ad_error api\<rparr>)))"

end
