(* ===== verification/Decimal.thy ===== *)
theory Decimal
  imports Prelude
begin

text \<open>Integers in decimal, as the standard library prints and parses them: \<open>Display\<close> and \<open>FromStr\<close> of the integer types.
  A machine integer is a word of its width together with its signedness.\<close>

section \<open>Printing\<close>

fun show_nat :: "nat \<Rightarrow> string" where
  "show_nat n = (if n < 10 then [char_of (48 + n)] else show_nat (n div 10) @ [char_of (48 + n mod 10)])"

declare show_nat.simps [simp del]

definition show_int :: "int \<Rightarrow> string" where
  "show_int i = (if i < 0 then CHR ''-'' # show_nat (nat (- i)) else show_nat (nat i))"

section \<open>Parsing\<close>

text \<open>The digits of a number; \<open>from_str_radix\<close> accepts leading zeros, and no empty string.\<close>

definition digits_value :: "string \<Rightarrow> nat" where
  "digits_value s = foldl (\<lambda>n c. 10 * n + (byte c - 48)) 0 s"

definition parse_nat :: "string \<Rightarrow> nat option" where
  "parse_nat s = (if s \<noteq> [] \<and> list_all is_digit s then Some (digits_value s) else None)"

text \<open>A plus sign is accepted everywhere, a minus sign only for the signed types.\<close>

definition parse_int :: "bool \<Rightarrow> string \<Rightarrow> int option" where
  "parse_int neg_ok s =
     (case s of
        c # t \<Rightarrow> if c = CHR ''+'' then map_option int (parse_nat t)
                 else if neg_ok \<and> c = CHR ''-'' then map_option (\<lambda>n. - int n) (parse_nat t)
                 else map_option int (parse_nat s)
      | [] \<Rightarrow> None)"

section \<open>Machine integers\<close>

datatype int_ty = TyI8 | TyI16 | TyI32 | TyI64 | TyU8 | TyU16 | TyU32 | TyU64

datatype machine_int =
    I8 "8 word" | I16 "16 word" | I32 "32 word" | I64 "64 word"
  | U8 "8 word" | U16 "16 word" | U32 "32 word" | U64 "64 word"

fun int_value :: "machine_int \<Rightarrow> int" where
  "int_value (I8 w) = sint w"
| "int_value (I16 w) = sint w"
| "int_value (I32 w) = sint w"
| "int_value (I64 w) = sint w"
| "int_value (U8 w) = uint w"
| "int_value (U16 w) = uint w"
| "int_value (U32 w) = uint w"
| "int_value (U64 w) = uint w"

fun int_type :: "machine_int \<Rightarrow> int_ty" where
  "int_type (I8 w) = TyI8"
| "int_type (I16 w) = TyI16"
| "int_type (I32 w) = TyI32"
| "int_type (I64 w) = TyI64"
| "int_type (U8 w) = TyU8"
| "int_type (U16 w) = TyU16"
| "int_type (U32 w) = TyU32"
| "int_type (U64 w) = TyU64"

fun is_signed :: "int_ty \<Rightarrow> bool" where
  "is_signed t \<longleftrightarrow> t \<in> {TyI8, TyI16, TyI32, TyI64}"

fun int_bits :: "int_ty \<Rightarrow> nat" where
  "int_bits TyI8 = 8"
| "int_bits TyI16 = 16"
| "int_bits TyI32 = 32"
| "int_bits TyI64 = 64"
| "int_bits TyU8 = 8"
| "int_bits TyU16 = 16"
| "int_bits TyU32 = 32"
| "int_bits TyU64 = 64"

fun int_make :: "int_ty \<Rightarrow> int \<Rightarrow> machine_int" where
  "int_make TyI8 i = I8 (word_of_int i)"
| "int_make TyI16 i = I16 (word_of_int i)"
| "int_make TyI32 i = I32 (word_of_int i)"
| "int_make TyI64 i = I64 (word_of_int i)"
| "int_make TyU8 i = U8 (word_of_int i)"
| "int_make TyU16 i = U16 (word_of_int i)"
| "int_make TyU32 i = U32 (word_of_int i)"
| "int_make TyU64 i = U64 (word_of_int i)"

definition int_fits :: "int_ty \<Rightarrow> int \<Rightarrow> bool" where
  "int_fits t i \<longleftrightarrow>
     (if is_signed t then - (2 ^ (int_bits t - 1)) \<le> i \<and> i < 2 ^ (int_bits t - 1) else 0 \<le> i \<and> i < 2 ^ int_bits t)"

text \<open>\<open>str::parse\<close> for an integer type.\<close>

definition parse_machine_int :: "int_ty \<Rightarrow> string \<Rightarrow> machine_int option" where
  "parse_machine_int t s =
     Option.bind (parse_int (is_signed t) s) (\<lambda>i. if int_fits t i then Some (int_make t i) else None)"

section \<open>Printed integers are read back\<close>

lemma digit_char: "n < 10 \<Longrightarrow> is_digit (char_of (48 + n)) \<and> byte (char_of (48 + n)) - 48 = n"
  by (simp add: is_digit_def of_char_of)

lemma show_nat_digits: "show_nat n \<noteq> [] \<and> list_all is_digit (show_nat n) \<and> digits_value (show_nat n) = n"
proof (induction n rule: show_nat.induct)
  case (1 n)
  show ?case
  proof (cases "n < 10")
    case True
    then show ?thesis using digit_char[of n] by (subst (1 2 3) show_nat.simps) (simp add: digits_value_def)
  next
    case False
    then show ?thesis using 1 digit_char[of "n mod 10"] by (subst (1 2 3) show_nat.simps) (simp add: digits_value_def)
  qed
qed

lemma parse_show_nat: "parse_nat (show_nat n) = Some n"
  using show_nat_digits by (simp add: parse_nat_def)

lemma sign_not_digit: "\<not> is_digit CHR ''+''" "\<not> is_digit CHR ''-''"
  by (simp_all add: is_digit_def)

lemma parse_show_int:
  assumes "0 \<le> i \<or> neg_ok"
  shows "parse_int neg_ok (show_int i) = Some i"
proof (cases "i < 0")
  case True
  then show ?thesis using assms by (simp add: parse_int_def show_int_def parse_show_nat)
next
  case False
  obtain c t where "show_nat (nat i) = c # t" "is_digit c"
    using show_nat_digits[of "nat i"] by (cases "show_nat (nat i)") auto
  then show ?thesis using False sign_not_digit parse_show_nat[of "nat i"] by (auto simp: parse_int_def show_int_def)
qed

lemma show_nat_length: "n < 10 ^ d \<Longrightarrow> 0 < d \<Longrightarrow> length (show_nat n) \<le> d"
proof (induction n arbitrary: d rule: show_nat.induct)
  case (1 n)
  show ?case
  proof (cases "n < 10")
    case True
    then show ?thesis using 1(3) by (subst show_nat.simps) simp
  next
    case False
    then obtain e where e: "d = Suc e" "0 < e" using "1.prems" by (cases d; cases "d - 1") auto
    then have "n div 10 < 10 ^ e" using "1.prems"(1) by (simp add: div_less_iff_less_mult)
    then show ?thesis using 1(1)[OF False _ e(2)] False e by (subst show_nat.simps) simp
  qed
qed

lemma word_bounds:
  "- (2 ^ (LENGTH('a) - 1)) \<le> sint w" "sint w < 2 ^ (LENGTH('a) - 1)" "0 \<le> uint w" "uint w < 2 ^ LENGTH('a)"
  for w :: "'a::len word"
  using sint_greater_eq[of w] sint_less[of w] by simp_all

lemma int_value_fits: "int_fits (int_type m) (int_value m)"
proof (cases m)
  case (I8 w) then show ?thesis using word_bounds(1,2)[of w] by (simp add: int_fits_def)
next
  case (I16 w) then show ?thesis using word_bounds(1,2)[of w] by (simp add: int_fits_def)
next
  case (I32 w) then show ?thesis using word_bounds(1,2)[of w] by (simp add: int_fits_def)
next
  case (I64 w) then show ?thesis using word_bounds(1,2)[of w] by (simp add: int_fits_def)
next
  case (U8 w) then show ?thesis using word_bounds(3,4)[of w] by (simp add: int_fits_def)
next
  case (U16 w) then show ?thesis using word_bounds(3,4)[of w] by (simp add: int_fits_def)
next
  case (U32 w) then show ?thesis using word_bounds(3,4)[of w] by (simp add: int_fits_def)
next
  case (U64 w) then show ?thesis using word_bounds(3,4)[of w] by (simp add: int_fits_def)
qed

lemma int_make_value: "int_make (int_type m) (int_value m) = m"
  by (cases m) simp_all

lemma parse_show_machine_int: "parse_machine_int (int_type m) (show_int (int_value m)) = Some m"
proof -
  have "0 \<le> int_value m \<or> is_signed (int_type m)" by (cases m) simp_all
  then show ?thesis using int_value_fits[of m] int_make_value[of m] by (simp add: parse_machine_int_def parse_show_int del: is_signed.simps)
qed

text \<open>The longest machine integers take twenty characters.\<close>

lemma show_machine_int_length: "length (show_int (int_value m)) \<le> 20"
proof -
  have b: "- 9223372036854775808 \<le> int_value m \<and> int_value m < 18446744073709551616"
    using int_value_fits[of m] by (cases "int_type m") (simp_all add: int_fits_def)
  show ?thesis
  proof (cases "int_value m < 0")
    case True
    have "nat (- int_value m) < 10 ^ 19" using b True by (simp add: nat_less_iff)
    then show ?thesis using show_nat_length[of "nat (- int_value m)" 19] True by (simp add: show_int_def)
  next
    case False
    have "nat (int_value m) < 10 ^ 20" using b False by (simp add: nat_less_iff)
    then show ?thesis using show_nat_length[of "nat (int_value m)" 20] False by (simp add: show_int_def)
  qed
qed

end
