(* ===== verification/Url_Encoded.thy ===== *)
theory Url_Encoded
  imports Id_Validation Decimal
begin

text \<open>Query strings: the format \<open>application/x-www-form-urlencoded\<close> of \<^verbatim>\<open>ruma-serde/src/urlencoded\<close>.  A value that is
  serialized is given by what its \<open>Serialize\<close> implementation hands to the serializer (\<open>ser_value\<close>, the data model of
  serde), and a value that is deserialized by the type that is asked for (\<open>de_type\<close>).  Percent encoding and splitting
  at \<^verbatim>\<open>&\<close> and \<^verbatim>\<open>=\<close> are the crate \<^verbatim>\<open>form_urlencoded\<close>, the parameter \<open>form_io\<close>; the encoder is the list of the
  pairs that were appended.  Floating point numbers are left out: writing them is an error, and reading them is
  \<open>str::parse\<close>.\<close>

section \<open>The data model of serde\<close>

datatype ser_value =
    SBool bool | SInt machine_int | SFloat "64 word" | SChar string | SStr string | SBytes string
  | SUnit | SUnitStruct string | SUnitVariant string string
  | SNewtypeStruct string ser_value | SNewtypeVariant string string ser_value
  | SNone | SSome ser_value
  | SSeq "ser_value list" | STuple "ser_value list" | STupleStruct string "ser_value list"
  | STupleVariant string string "ser_value list"
  | SMap "(ser_value \<times> ser_value) list" | SStruct string "(string \<times> ser_value) list"
  | SStructVariant string string "(string \<times> ser_value) list"

datatype url_error = TopLevel | NoKey | UnsupportedPair | PairDone | PairNotDone | UnsupportedKey | UnsupportedValue | BadUtf8

type_synonym pairs = "(string \<times> string) list"

record form_io =
  form_encode :: "pairs \<Rightarrow> string"
  form_parse :: "string \<Rightarrow> pairs"

section \<open>Parts\<close>

text \<open>\<open>str::from_utf8\<close>: shortest forms only, no surrogates, at most \<^verbatim>\<open>U+10FFFF\<close>.\<close>

fun from_utf8_ok :: "string \<Rightarrow> bool" where
  "from_utf8_ok [] = True"
| "from_utf8_ok (a # s) =
    (if byte a < 128 then from_utf8_ok s
     else if byte a < 194 then False
     else if byte a < 224 then (case s of b # s' \<Rightarrow> cont_byte b \<and> from_utf8_ok s' | _ \<Rightarrow> False)
     else if byte a < 240 then
       (case s of b # c # s' \<Rightarrow> cont_byte b \<and> cont_byte c \<and> (byte a = 224 \<longrightarrow> 160 \<le> byte b)
            \<and> (byte a = 237 \<longrightarrow> byte b < 160) \<and> from_utf8_ok s' | _ \<Rightarrow> False)
     else if byte a < 245 then
       (case s of b # c # d # s' \<Rightarrow> cont_byte b \<and> cont_byte c \<and> cont_byte d \<and> (byte a = 240 \<longrightarrow> 144 \<le> byte b)
            \<and> (byte a = 244 \<longrightarrow> byte b < 144) \<and> from_utf8_ok s' | _ \<Rightarrow> False)
     else False)"

text \<open>\<open>PartSerializer\<close> calls one method of its sink, or fails; newtype structs are transparent.\<close>

datatype part = PStr string | PNone | PSome ser_value | PSeq "ser_value list" | PUnsupported

text \<open>\<open>serialize_integer\<close> writes into a buffer of 20 bytes; \<open>unwrap\<close> panics when that is too short.\<close>

definition serialize_integer :: "machine_int \<Rightarrow> (part, url_error) result" where
  "serialize_integer i = (let s = show_int (int_value i) in if 20 < length s then Panic else Ok (PStr s))"

fun part_of :: "ser_value \<Rightarrow> (part, url_error) result" where
  "part_of (SBool v) = Ok (PStr (if v then ''true'' else ''false''))"
| "part_of (SInt i) = serialize_integer i"
| "part_of (SFloat v) = Ok PUnsupported"
| "part_of (SChar c) = Ok (PStr c)"
| "part_of (SStr s) = Ok (PStr s)"
| "part_of (SBytes b) = (if from_utf8_ok b then Ok (PStr b) else Err BadUtf8)"
| "part_of SUnit = Ok PUnsupported"
| "part_of (SUnitStruct name) = Ok (PStr name)"
| "part_of (SUnitVariant name vnt) = Ok (PStr vnt)"
| "part_of (SNewtypeStruct name v) = part_of v"
| "part_of (SNewtypeVariant name vnt v) = Ok PUnsupported"
| "part_of SNone = Ok PNone"
| "part_of (SSome v) = Ok (PSome v)"
| "part_of (SSeq vs) = Ok (PSeq vs)"
| "part_of (STuple vs) = Ok PUnsupported"
| "part_of (STupleStruct name vs) = Ok PUnsupported"
| "part_of (STupleVariant name vnt vs) = Ok PUnsupported"
| "part_of (SMap kvs) = Ok PUnsupported"
| "part_of (SStruct name fs) = Ok PUnsupported"
| "part_of (SStructVariant name vnt fs) = Ok PUnsupported"

text \<open>\<open>KeySink\<close>: only strings.\<close>

definition serialize_key_part :: "ser_value \<Rightarrow> (string, url_error) result" where
  "serialize_key_part v = and_then (part_of v) (\<lambda>p. case p of
     PStr s \<Rightarrow> Ok s | PNone \<Rightarrow> Err UnsupportedKey | PSome w \<Rightarrow> Err UnsupportedKey | PSeq ws \<Rightarrow> Err UnsupportedKey
   | PUnsupported \<Rightarrow> Err UnsupportedKey)"

lemma part_size:
  "part_of v = Ok (PSome w) \<Longrightarrow> size w < size v"
  "part_of v = Ok (PSeq ws) \<Longrightarrow> size_list size ws < size v"
  by (induction v rule: part_of.induct) (auto simp: serialize_integer_def Let_def split: if_splits)

text \<open>\<open>ValueSink\<close> with its key: strings are appended, a sequence appends each of its elements, and is not nested.\<close>

function value_sink :: "bool \<Rightarrow> string \<Rightarrow> ser_value \<Rightarrow> pairs \<Rightarrow> (pairs, url_error) result"
  and value_elements :: "string \<Rightarrow> ser_value list \<Rightarrow> pairs \<Rightarrow> (pairs, url_error) result" where
  "value_sink nested key v enc =
     (case part_of v of
        Ok (PStr s) \<Rightarrow> Ok (enc @ [(key, s)])
      | Ok PNone \<Rightarrow> Ok enc
      | Ok (PSome w) \<Rightarrow> value_sink nested key w enc
      | Ok (PSeq ws) \<Rightarrow> if nested then Err UnsupportedValue else value_elements key ws enc
      | Ok PUnsupported \<Rightarrow> Err UnsupportedValue
      | Err e \<Rightarrow> Err e
      | Panic \<Rightarrow> Panic)"
| "value_elements key [] enc = Ok enc"
| "value_elements key (v # vs) enc =
     (case value_sink True key v enc of
        Ok enc' \<Rightarrow> value_elements key vs enc' | Err e \<Rightarrow> Err e | Panic \<Rightarrow> Panic)"
  by pat_completeness auto
termination
  by (relation "measure (\<lambda>x. case x of Inl (n, k, v, e) \<Rightarrow> size v | Inr (k, vs, e) \<Rightarrow> size_list size vs)")
     (auto dest: part_size)

declare value_sink.simps [simp del]

section \<open>Pairs\<close>

datatype pair_state = WaitingForKey | WaitingForValue string | PairIsDone

fun pair_element :: "pair_state \<Rightarrow> ser_value \<Rightarrow> pairs \<Rightarrow> (pair_state \<times> pairs, url_error) result" where
  "pair_element WaitingForKey v enc = and_then (serialize_key_part v) (\<lambda>key. Ok (WaitingForValue key, enc))"
| "pair_element (WaitingForValue key) v enc = and_then (value_sink False key v enc) (\<lambda>enc'. Ok (PairIsDone, enc'))"
| "pair_element PairIsDone v enc = Err PairDone"

fun pair_elements :: "pair_state \<Rightarrow> ser_value list \<Rightarrow> pairs \<Rightarrow> (pairs, url_error) result" where
  "pair_elements st [] enc = (if st = PairIsDone then Ok enc else Err PairNotDone)"
| "pair_elements st (v # vs) enc = and_then (pair_element st v enc) (\<lambda>(st', enc'). pair_elements st' vs enc')"

fun serialize_pair :: "ser_value \<Rightarrow> pairs \<Rightarrow> (pairs, url_error) result" where
  "serialize_pair (SNewtypeStruct name v) enc = serialize_pair v enc"
| "serialize_pair SNone enc = Ok enc"
| "serialize_pair (SSome v) enc = serialize_pair v enc"
| "serialize_pair (STuple vs) enc = (if length vs = 2 then pair_elements WaitingForKey vs enc else Err UnsupportedPair)"
| "serialize_pair v enc = Err UnsupportedPair"

fun serialize_pairs :: "ser_value list \<Rightarrow> pairs \<Rightarrow> (pairs, url_error) result" where
  "serialize_pairs [] enc = Ok enc"
| "serialize_pairs (v # vs) enc = and_then (serialize_pair v enc) (\<lambda>enc'. serialize_pairs vs enc')"

section \<open>Maps and structs\<close>

text \<open>\<open>MapSerializer\<close>: the key that was written last, if its value is still to come.\<close>

type_synonym map_serializer = "string option \<times> pairs"

definition map_serialize_key :: "ser_value \<Rightarrow> map_serializer \<Rightarrow> (map_serializer, url_error) result" where
  "map_serialize_key k st = and_then (serialize_key_part k) (\<lambda>key. Ok (Some key, snd st))"

definition map_serialize_value :: "ser_value \<Rightarrow> map_serializer \<Rightarrow> (map_serializer, url_error) result" where
  "map_serialize_value v st = and_then (ok_or NoKey (fst st)) (\<lambda>key.
     and_then (value_sink False key v (snd st)) (\<lambda>enc. Ok (None, enc)))"

definition map_serialize_entry :: "ser_value \<Rightarrow> ser_value \<Rightarrow> map_serializer \<Rightarrow> (map_serializer, url_error) result" where
  "map_serialize_entry k v st = and_then (serialize_key_part k) (\<lambda>key.
     and_then (value_sink False key v (snd st)) (\<lambda>enc. Ok (None, enc)))"

fun serialize_entries :: "(ser_value \<times> ser_value) list \<Rightarrow> map_serializer \<Rightarrow> (map_serializer, url_error) result" where
  "serialize_entries [] st = Ok st"
| "serialize_entries ((k, v) # kvs) st = and_then (map_serialize_entry k v st) (\<lambda>st'. serialize_entries kvs st')"

fun serialize_fields :: "(string \<times> ser_value) list \<Rightarrow> pairs \<Rightarrow> (pairs, url_error) result" where
  "serialize_fields [] enc = Ok enc"
| "serialize_fields ((k, v) # fs) enc = and_then (value_sink False k v enc) (\<lambda>enc'. serialize_fields fs enc')"

section \<open>The top level\<close>

fun url_serialize :: "ser_value \<Rightarrow> pairs \<Rightarrow> (pairs, url_error) result" where
  "url_serialize SUnit enc = Ok enc"
| "url_serialize (SUnitStruct name) enc = Ok enc"
| "url_serialize (SNewtypeStruct name v) enc = url_serialize v enc"
| "url_serialize SNone enc = Ok enc"
| "url_serialize (SSome v) enc = url_serialize v enc"
| "url_serialize (SSeq vs) enc = serialize_pairs vs enc"
| "url_serialize (STuple vs) enc = serialize_pairs vs enc"
| "url_serialize (SMap kvs) enc = and_then (serialize_entries kvs (None, enc)) (\<lambda>(key, enc'). Ok enc')"
| "url_serialize (SStruct name fs) enc = serialize_fields fs enc"
| "url_serialize v enc = Err TopLevel"

definition to_string :: "form_io \<Rightarrow> ser_value \<Rightarrow> (string, url_error) result" where
  "to_string F input = and_then (url_serialize input []) (\<lambda>enc. Ok (form_encode F enc))"

section \<open>Grouping the entries of a query\<close>

datatype val_or_vec = Val string | Vec "string list"

fun vv_push :: "val_or_vec \<Rightarrow> string \<Rightarrow> val_or_vec" where
  "vv_push (Val v) new_val = Vec [v, new_val]"
| "vv_push (Vec vs) new_val = Vec (vs @ [new_val])"

fun vv_items :: "val_or_vec \<Rightarrow> string list" where
  "vv_items (Val v) = [v]"
| "vv_items (Vec vs) = vs"

definition group_entry :: "(string, val_or_vec) btree \<Rightarrow> string \<times> string \<Rightarrow> (string, val_or_vec) btree" where
  "group_entry res kv =
     (case bt_get res (fst kv) of
        None \<Rightarrow> bt_insert (fst kv) (Val (snd kv)) res
      | Some vv \<Rightarrow> bt_insert (fst kv) (vv_push vv (snd kv)) res)"

definition group_entries :: "pairs \<Rightarrow> (string, val_or_vec) btree" where
  "group_entries ps = foldl group_entry [] ps"

section \<open>Reading values\<close>

text \<open>The type a \<open>Deserialize\<close> implementation asks for; the other composite types are never accepted.\<close>

datatype de_type =
    TBool | TInt int_ty | TChar | TString | TUnit | TIgnored
  | TOption de_type | TNewtype string de_type | TUnitEnum string "string list" | TSeq de_type | TOtherType

text \<open>\<open>Part\<close> as a deserializer.\<close>

fun de_part :: "de_type \<Rightarrow> string \<Rightarrow> ser_value option" where
  "de_part TBool s = (if s = ''true'' then Some (SBool True) else if s = ''false'' then Some (SBool False) else None)"
| "de_part (TInt t) s = map_option SInt (parse_machine_int t s)"
| "de_part TChar s = (if length (chars s) = 1 then Some (SChar s) else None)"
| "de_part TString s = Some (SStr s)"
| "de_part TUnit s = None"
| "de_part TIgnored s = Some SUnit"
| "de_part (TOption t) s = map_option SSome (de_part t s)"
| "de_part (TNewtype name t) s = map_option (SNewtypeStruct name) (de_part t s)"
| "de_part (TUnitEnum name variants) s = (if s \<in> set variants then Some (SUnitVariant name s) else None)"
| "de_part (TSeq t) s = None"
| "de_part TOtherType s = None"

fun de_parts :: "de_type \<Rightarrow> string list \<Rightarrow> ser_value list option" where
  "de_parts t [] = Some []"
| "de_parts t (s # ss) = Option.bind (de_part t s) (\<lambda>v. map_option (Cons v) (de_parts t ss))"

text \<open>\<open>deserialize_val\<close> refuses a key that was repeated.\<close>

fun de_val :: "de_type \<Rightarrow> val_or_vec \<Rightarrow> ser_value option" where
  "de_val t (Val s) = de_part t s"
| "de_val t (Vec ss) = None"

definition de_val_or_vec :: "de_type \<Rightarrow> val_or_vec \<Rightarrow> ser_value option" where
  "de_val_or_vec t vv = (case t of
     TSeq t' \<Rightarrow> map_option SSeq (de_parts t' (vv_items vv))
   | TIgnored \<Rightarrow> Some SUnit
   | _ \<Rightarrow> de_val t vv)"

section \<open>Reading a query\<close>

text \<open>A derived struct: its fields with their types and the default of \<open>#[serde(default)]\<close>.\<close>

record query_field =
  qf_name :: string
  qf_type :: de_type
  qf_default :: "ser_value option"

datatype query_type =
    QUnit | QStruct string "query_field list" | QMap de_type de_type | QPairs de_type de_type | QOther

fun read_fields ::
    "query_field list \<Rightarrow> (string \<times> val_or_vec) list \<Rightarrow> (string \<times> ser_value) list \<Rightarrow> (string \<times> ser_value) list option" where
  "read_fields fs [] got = Some got"
| "read_fields fs ((k, vv) # es) got =
     (case find (\<lambda>f. qf_name f = k) fs of
        None \<Rightarrow> read_fields fs es got
      | Some f \<Rightarrow> Option.bind (de_val_or_vec (qf_type f) vv) (\<lambda>v. read_fields fs es ((k, v) # got)))"

definition missing_field :: "query_field \<Rightarrow> ser_value option" where
  "missing_field f = (case qf_default f of
     Some d \<Rightarrow> Some d
   | None \<Rightarrow> (case qf_type f of TOption t \<Rightarrow> Some SNone | _ \<Rightarrow> None))"

fun complete_fields :: "query_field list \<Rightarrow> (string \<times> ser_value) list \<Rightarrow> (string \<times> ser_value) list option" where
  "complete_fields [] got = Some []"
| "complete_fields (f # fs) got =
     Option.bind (case map_of got (qf_name f) of Some v \<Rightarrow> Some v | None \<Rightarrow> missing_field f) (\<lambda>v.
     map_option (Cons (qf_name f, v)) (complete_fields fs got))"

fun read_entries :: "de_type \<Rightarrow> de_type \<Rightarrow> (string \<times> val_or_vec) list \<Rightarrow> (ser_value \<times> ser_value) list option" where
  "read_entries tk tv [] = Some []"
| "read_entries tk tv ((k, vv) # es) =
     Option.bind (de_part tk k) (\<lambda>k'. Option.bind (de_val_or_vec tv vv) (\<lambda>v.
     map_option (Cons (k', v)) (read_entries tk tv es)))"

fun url_deserialize :: "query_type \<Rightarrow> (string, val_or_vec) btree \<Rightarrow> ser_value option" where
  "url_deserialize QUnit inner = (if inner = [] then Some SUnit else None)"
| "url_deserialize (QStruct name fs) inner =
     Option.bind (read_fields fs inner []) (\<lambda>got. map_option (SStruct name) (complete_fields fs got))"
| "url_deserialize (QMap tk tv) inner = map_option SMap (read_entries tk tv inner)"
| "url_deserialize (QPairs tk tv) inner = map_option (\<lambda>kvs. SSeq (map (\<lambda>(k, v). STuple [k, v]) kvs)) (read_entries tk tv inner)"
| "url_deserialize QOther inner = None"

definition from_bytes :: "form_io \<Rightarrow> query_type \<Rightarrow> string \<Rightarrow> ser_value option" where
  "from_bytes F t input = url_deserialize t (group_entries (form_parse F input))"

definition from_str :: "form_io \<Rightarrow> query_type \<Rightarrow> string \<Rightarrow> ser_value option" where
  "from_str F t input = from_bytes F t input"

section \<open>No panic\<close>

lemma part_of_neq_Panic: "part_of v \<noteq> Panic"
  by (induction v rule: part_of.induct) (use show_machine_int_length in \<open>auto simp: serialize_integer_def Let_def not_less\<close>)

lemma key_part_neq_Panic: "serialize_key_part v \<noteq> Panic"
  using part_of_neq_Panic by (auto simp: serialize_key_part_def and_then_eq_Panic split: part.splits)

lemma value_neq_Panic:
  "value_sink nested key v enc \<noteq> Panic" "value_elements key vs enc \<noteq> Panic"
proof (induction nested key v enc and key vs enc rule: value_sink_value_elements.induct)
  case (1 nested key v enc)
  then show ?case using part_of_neq_Panic[of v]
    by (subst value_sink.simps) (auto split: result.splits part.splits)
qed (auto split: result.splits)

lemma pair_elements_neq_Panic: "pair_elements st vs enc \<noteq> Panic"
proof (induction vs arbitrary: st enc)
  case (Cons v vs)
  have "pair_element st v enc \<noteq> Panic"
    by (cases st) (auto simp: and_then_eq_Panic key_part_neq_Panic value_neq_Panic)
  then show ?case using Cons by (auto simp: and_then_eq_Panic)
qed simp

lemma serialize_pair_neq_Panic: "serialize_pair v enc \<noteq> Panic"
  by (induction v enc rule: serialize_pair.induct) (auto simp: pair_elements_neq_Panic)

lemma serialize_pairs_neq_Panic: "serialize_pairs vs enc \<noteq> Panic"
  by (induction vs arbitrary: enc) (auto simp: and_then_eq_Panic serialize_pair_neq_Panic)

lemma serialize_entries_neq_Panic: "serialize_entries kvs st \<noteq> Panic"
  by (induction kvs st rule: serialize_entries.induct)
     (auto simp: and_then_eq_Panic map_serialize_entry_def key_part_neq_Panic value_neq_Panic)

lemma serialize_fields_neq_Panic: "serialize_fields fs enc \<noteq> Panic"
  by (induction fs enc rule: serialize_fields.induct) (auto simp: and_then_eq_Panic value_neq_Panic)

lemma url_serialize_neq_Panic: "url_serialize v enc \<noteq> Panic"
  by (induction v enc rule: url_serialize.induct)
     (auto simp: and_then_eq_Panic serialize_pairs_neq_Panic serialize_entries_neq_Panic serialize_fields_neq_Panic)

text \<open>C34. Every machine integer fits into the 20 bytes of the buffer it is printed to, so that writing a query string never
  panics, whatever value is written.\<close>

theorem query_buffer_suffices:
  "length (show_int (int_value i)) \<le> 20 \<and> to_string F v \<noteq> Panic"
proof
  show "length (show_int (int_value i)) \<le> 20" by (rule show_machine_int_length)
  show "to_string F v \<noteq> Panic" using url_serialize_neq_Panic by (auto simp: to_string_def and_then_eq_Panic)
qed

text \<open>Writing an entry at once is writing its key and then its value.\<close>

lemma map_entry_steps: "map_serialize_entry k v st = and_then (map_serialize_key k st) (map_serialize_value v)"
  by (cases "serialize_key_part k") (simp_all add: map_serialize_entry_def map_serialize_key_def map_serialize_value_def)

section \<open>The values of a key\<close>

definition key_values :: "pairs \<Rightarrow> string \<Rightarrow> string list" where
  "key_values ps k = map snd (filter (\<lambda>kv. fst kv = k) ps)"

fun grouped :: "string list \<Rightarrow> val_or_vec option" where
  "grouped [] = None"
| "grouped [v] = Some (Val v)"
| "grouped vs = Some (Vec vs)"

lemma grouped_items [simp]: "grouped vs = Some vv \<Longrightarrow> vv_items vv = vs"
  by (induction vs rule: grouped.induct) auto

lemma grouped_None [simp]: "grouped vs = None \<longleftrightarrow> vs = []"
  by (induction vs rule: grouped.induct) auto

lemma grouped_push: "grouped vs = Some vv \<Longrightarrow> grouped (vs @ [v]) = Some (vv_push vv v)"
  by (induction vs rule: grouped.induct) auto

lemma key_values_snoc: "key_values (ps @ [(k', v)]) k = key_values ps k @ (if k' = k then [v] else [])"
  by (simp add: key_values_def)

lemma group_entries_snoc: "group_entries (ps @ [kv]) = group_entry (group_entries ps) kv"
  by (simp add: group_entries_def)

lemma group_entries_lookup: "bt_ok (group_entries ps) \<and> (\<forall>k. bt_get (group_entries ps) k = grouped (key_values ps k))"
proof (induction ps rule: rev_induct)
  case Nil
  then show ?case by (simp add: group_entries_def key_values_def)
next
  case (snoc kv ps)
  obtain k' v where kv: "kv = (k', v)" by (cases kv)
  have ok: "bt_ok (group_entries ps)" and get: "\<And>k. bt_get (group_entries ps) k = grouped (key_values ps k)"
    using snoc.IH by auto
  have "bt_get (group_entry (group_entries ps) kv) k = grouped (key_values (ps @ [kv]) k)" for k
    using get[of k] get[of k'] grouped_push[of "key_values ps k'"]
    by (auto simp: kv group_entry_def key_values_snoc split: option.splits)
  moreover have "bt_ok (group_entry (group_entries ps) kv)"
    using ok by (auto simp: group_entry_def split: option.splits)
  ultimately show ?case by (simp add: group_entries_snoc)
qed

text \<open>Grouping the entries of a query gives a sorted map without repeated keys, in which a key has exactly its values in
  the order of the query, as a single value when there is one and as a vector when there are several.\<close>

lemma group_entries_spec:
  "sorted_wrt (<) (map fst (group_entries ps))
   \<and> bt_get (group_entries ps) k = grouped (map snd (filter (\<lambda>kv. fst kv = k) ps))
   \<and> set (map fst (group_entries ps)) = fst ` set ps"
proof (intro conjI)
  show "sorted_wrt (<) (map fst (group_entries ps))" using group_entries_lookup[of ps] by (simp add: bt_ok_def)
  show "bt_get (group_entries ps) k = grouped (map snd (filter (\<lambda>kv. fst kv = k) ps))"
    using group_entries_lookup[of ps] by (simp add: key_values_def)
  have "k \<in> set (map fst (group_entries ps)) \<longleftrightarrow> k \<in> fst ` set ps" for k
  proof -
    have "k \<in> set (map fst (group_entries ps)) \<longleftrightarrow> bt_get (group_entries ps) k \<noteq> None"
      by (simp add: map_of_eq_None_iff)
    also have "\<dots> \<longleftrightarrow> key_values ps k \<noteq> []" using group_entries_lookup[of ps] by simp
    also have "\<dots> \<longleftrightarrow> k \<in> fst ` set ps" by (force simp: key_values_def filter_empty_conv)
    finally show ?thesis .
  qed
  then show "set (map fst (group_entries ps)) = fst ` set ps" by blast
qed

section \<open>Values that survive a query string\<close>

fun scalar_typed :: "de_type \<Rightarrow> ser_value \<Rightarrow> bool" where
  "scalar_typed TBool v \<longleftrightarrow> (\<exists>b. v = SBool b)"
| "scalar_typed (TInt t) v \<longleftrightarrow> (\<exists>i. v = SInt i \<and> int_type i = t)"
| "scalar_typed TChar v \<longleftrightarrow> (\<exists>c. v = SChar c \<and> length (chars c) = 1)"
| "scalar_typed TString v \<longleftrightarrow> (\<exists>s. v = SStr s)"
| "scalar_typed TUnit v \<longleftrightarrow> False"
| "scalar_typed TIgnored v \<longleftrightarrow> False"
| "scalar_typed (TOption t) v \<longleftrightarrow> (\<exists>w. v = SSome w \<and> scalar_typed t w)"
| "scalar_typed (TNewtype n t) v \<longleftrightarrow> (\<exists>w. v = SNewtypeStruct n w \<and> scalar_typed t w)"
| "scalar_typed (TUnitEnum n vs) v \<longleftrightarrow> (\<exists>w. v = SUnitVariant n w \<and> w \<in> set vs)"
| "scalar_typed (TSeq t) v \<longleftrightarrow> False"
| "scalar_typed TOtherType v \<longleftrightarrow> False"

definition field_typed :: "de_type \<Rightarrow> ser_value \<Rightarrow> bool" where
  "field_typed t v \<longleftrightarrow> scalar_typed t v \<or> (\<exists>t'. t = TOption t' \<and> v = SNone)
     \<or> (\<exists>t' vs. t = TSeq t' \<and> v = SSeq vs \<and> list_all (scalar_typed t') vs)"

text \<open>An absent option and an empty vector leave nothing in the query, so their defaults have to give them back.\<close>

definition field_ok :: "query_field \<Rightarrow> string \<times> ser_value \<Rightarrow> bool" where
  "field_ok f kv \<longleftrightarrow> fst kv = qf_name f \<and> field_typed (qf_type f) (snd kv)
     \<and> (snd kv = SNone \<longrightarrow> qf_default f \<in> {None, Some SNone})
     \<and> (snd kv = SSeq [] \<longrightarrow> qf_default f = Some (SSeq []))"

lemma value_sink_str: "part_of v = Ok (PStr s) \<Longrightarrow> value_sink nested key v enc = Ok (enc @ [(key, s)])"
  by (subst value_sink.simps) simp

lemma scalar_roundtrip:
  "scalar_typed t v \<Longrightarrow> \<exists>s. (\<forall>nested key enc. value_sink nested key v enc = Ok (enc @ [(key, s)])) \<and> de_part t s = Some v"
proof (induction t arbitrary: v)
  case (TInt t)
  then obtain i where i: "v = SInt i" "int_type i = t" by auto
  have "part_of v = Ok (PStr (show_int (int_value i)))"
    using show_machine_int_length[of i] by (simp add: i serialize_integer_def not_less)
  moreover have "de_part (TInt t) (show_int (int_value i)) = Some v"
    using i parse_show_machine_int[of i] by simp
  ultimately show ?case using value_sink_str by blast
next
  case (TOption t)
  then obtain w where w: "v = SSome w" "scalar_typed t w" by auto
  obtain s where s: "\<And>nested key enc. value_sink nested key w enc = Ok (enc @ [(key, s)])" "de_part t s = Some w"
    using TOption.IH[OF w(2)] by auto
  have "value_sink nested key v enc = Ok (enc @ [(key, s)])" for nested key enc
    by (subst value_sink.simps) (simp add: w s(1))
  then show ?case using s(2) w by auto
next
  case (TNewtype n t)
  then obtain w where w: "v = SNewtypeStruct n w" "scalar_typed t w" by auto
  obtain s where s: "\<And>nested key enc. value_sink nested key w enc = Ok (enc @ [(key, s)])" "de_part t s = Some w"
    using TNewtype.IH[OF w(2)] by auto
  have "value_sink nested key v enc = value_sink nested key w enc" for nested key enc
    by (subst (1 2) value_sink.simps) (simp add: w)
  then show ?case using s w by auto
next
  case TBool
  then obtain b where b: "v = SBool b" by auto
  show ?case
  proof (intro exI conjI allI)
    show "value_sink nested key v enc = Ok (enc @ [(key, if b then ''true'' else ''false'')])" for nested key enc
      by (rule value_sink_str) (simp add: b)
  qed (simp add: b)
next
  case TChar
  then obtain c where c: "v = SChar c" "length (chars c) = 1" by auto
  show ?case
  proof (intro exI conjI allI)
    show "value_sink nested key v enc = Ok (enc @ [(key, c)])" for nested key enc
      by (rule value_sink_str) (simp add: c)
  qed (simp add: c)
next
  case TString
  then obtain c where c: "v = SStr c" by auto
  show ?case
  proof (intro exI conjI allI)
    show "value_sink nested key v enc = Ok (enc @ [(key, c)])" for nested key enc
      by (rule value_sink_str) (simp add: c)
  qed (simp add: c)
next
  case (TUnitEnum n vs)
  then obtain w where w: "v = SUnitVariant n w" "w \<in> set vs" by auto
  show ?case
  proof (intro exI conjI allI)
    show "value_sink nested key v enc = Ok (enc @ [(key, w)])" for nested key enc
      by (rule value_sink_str) (simp add: w)
  qed (simp add: w)
qed simp_all

lemma elements_roundtrip:
  "list_all (scalar_typed t) vs \<Longrightarrow>
     \<exists>ss. (\<forall>key enc. value_elements key vs enc = Ok (enc @ map (Pair key) ss)) \<and> de_parts t ss = Some vs \<and> length ss = length vs"
proof (induction vs)
  case (Cons v vs)
  then obtain ss where ss: "\<And>key enc. value_elements key vs enc = Ok (enc @ map (Pair key) ss)" "de_parts t ss = Some vs"
      "length ss = length vs" by auto
  obtain s where s: "\<And>nested key enc. value_sink nested key v enc = Ok (enc @ [(key, s)])" "de_part t s = Some v"
    using scalar_roundtrip[of t v] Cons.prems by auto
  show ?case by (rule exI[of _ "s # ss"]) (simp add: ss s)
qed simp

text \<open>The texts a field leaves in the query, and what they are read as.\<close>

lemma field_roundtrip:
  assumes "field_ok f (k, v)"
  shows "\<exists>ss. (\<forall>enc. value_sink False k v enc = Ok (enc @ map (Pair k) ss))
    \<and> (case grouped ss of Some vv \<Rightarrow> de_val_or_vec (qf_type f) vv = Some v | None \<Rightarrow> missing_field f = Some v)"
proof -
  consider t vs where "qf_type f = TSeq t" "v = SSeq vs" "list_all (scalar_typed t) vs"
    | t where "qf_type f = TOption t" "v = SNone"
    | "scalar_typed (qf_type f) v"
    using assms by (auto simp: field_ok_def field_typed_def)
  then show ?thesis
  proof cases
    case (1 t vs)
    obtain ss where ss: "\<And>key enc. value_elements key vs enc = Ok (enc @ map (Pair key) ss)" "de_parts t ss = Some vs"
        "length ss = length vs" using elements_roundtrip[OF 1(3)] by auto
    have "value_sink False k v enc = Ok (enc @ map (Pair k) ss)" for enc
      by (subst value_sink.simps) (simp add: 1 ss)
    moreover have "case grouped ss of Some vv \<Rightarrow> de_val_or_vec (qf_type f) vv = Some v | None \<Rightarrow> missing_field f = Some v"
      using ss assms by (auto simp: 1 de_val_or_vec_def missing_field_def field_ok_def split: option.splits)
    ultimately show ?thesis by blast
  next
    case (2 t)
    have "value_sink False k v enc = Ok (enc @ map (Pair k) [])" for enc by (subst value_sink.simps) (simp add: 2)
    moreover have "missing_field f = Some v" using assms by (auto simp: 2 missing_field_def field_ok_def)
    ultimately show ?thesis by (intro exI[of _ "[]"]) simp
  next
    case 3
    obtain s where s: "\<And>nested key enc. value_sink nested key v enc = Ok (enc @ [(key, s)])" "de_part (qf_type f) s = Some v"
      using scalar_roundtrip[OF 3] by auto
    have "de_val_or_vec (qf_type f) (Val s) = Some v"
      using 3 s(2) by (cases "qf_type f") (simp_all add: de_val_or_vec_def)
    then show ?thesis by (intro exI[of _ "[s]"]) (simp add: s)
  qed
qed

definition field_readable :: "pairs \<Rightarrow> query_field \<Rightarrow> string \<times> ser_value \<Rightarrow> bool" where
  "field_readable ps f kv \<longleftrightarrow> fst kv = qf_name f \<and> (case grouped (key_values ps (qf_name f)) of
     Some vv \<Rightarrow> de_val_or_vec (qf_type f) vv = Some (snd kv) | None \<Rightarrow> missing_field f = Some (snd kv))"

lemma key_values_append: "key_values (ps @ qs) k = key_values ps k @ key_values qs k"
  by (simp add: key_values_def)

lemma key_values_own: "key_values (map (Pair k) ss) k' = (if k' = k then ss else [])"
  by (induction ss) (auto simp: key_values_def)

lemma key_values_absent: "k \<notin> fst ` set ps \<Longrightarrow> key_values ps k = []"
  by (force simp: key_values_def filter_empty_conv)

text \<open>Fields that are skipped (the first components) write nothing.\<close>

lemma members_written:
  assumes "list_all2 (\<lambda>f p. if fst p then fst (snd p) = qf_name f \<and> missing_field f = Some (snd (snd p)) else field_ok f (snd p)) fs ms"
    and "distinct (map qf_name fs)"
  shows "\<exists>ps. (\<forall>enc. serialize_fields (map snd (filter (\<lambda>p. \<not> fst p) ms)) enc = Ok (enc @ ps))
    \<and> fst ` set ps \<subseteq> qf_name ` set fs \<and> list_all2 (field_readable ps) fs (map snd ms)"
  using assms
proof (induction fs ms rule: list_all2_induct)
  case (Cons f fs m ms)
  obtain sk k v where m: "m = (sk, k, v)" by (metis surj_pair)
  have k: "k = qf_name f" and n: "qf_name f \<notin> qf_name ` set fs"
    using Cons.hyps(1) Cons.prems by (auto simp: m field_ok_def split: if_splits)
  obtain ss where ss: "\<And>enc. (if sk then Ok enc else value_sink False k v enc) = Ok (enc @ map (Pair k) ss)"
      "case grouped ss of Some vv \<Rightarrow> de_val_or_vec (qf_type f) vv = Some v | None \<Rightarrow> missing_field f = Some v"
  proof (cases sk)
    case True
    then show ?thesis using Cons.hyps(1) by (intro that[of "[]"]) (auto simp: m)
  next
    case False
    then show ?thesis using field_roundtrip[of f k v] Cons.hyps(1) that by (auto simp: m)
  qed
  obtain ps where ps: "\<And>enc. serialize_fields (map snd (filter (\<lambda>p. \<not> fst p) ms)) enc = Ok (enc @ ps)"
      "fst ` set ps \<subseteq> qf_name ` set fs" "list_all2 (field_readable ps) fs (map snd ms)" using Cons.IH Cons.prems by auto
  let ?ps = "map (Pair k) ss @ ps"
  have "key_values ?ps (qf_name f) = ss"
    using ps(2) n by (auto simp: k key_values_append key_values_own intro: key_values_absent)
  then have "field_readable ?ps f (k, v)" using ss(2) by (cases ss) (auto simp: k field_readable_def split: option.splits)
  moreover have "list_all2 (field_readable ?ps) fs (map snd ms)"
  proof (rule list.rel_mono_strong[OF ps(3)])
    show "field_readable ?ps g w" if "g \<in> set fs" "w \<in> set (map snd ms)" "field_readable ps g w" for g w
    proof -
      have "qf_name g \<noteq> k" using that(1) n unfolding k by (metis imageI)
      then show ?thesis using that(3) by (simp add: field_readable_def key_values_append key_values_own)
    qed
  qed
  moreover have "fst ` set ?ps \<subseteq> qf_name ` set (f # fs)" using ps(2) by (auto simp: k)
  moreover have "serialize_fields (map snd (filter (\<lambda>p. \<not> fst p) (m # ms))) enc = Ok (enc @ ?ps)" for enc
    using ss(1)[of enc] ps(1) by (cases sk) (auto simp: m)
  ultimately show ?case by (intro exI[of _ ?ps]) (simp add: m)
qed simp

lemma fields_written:
  assumes "list_all2 field_ok fs vals" "distinct (map qf_name fs)"
  shows "\<exists>ps. (\<forall>enc. serialize_fields vals enc = Ok (enc @ ps)) \<and> fst ` set ps \<subseteq> qf_name ` set fs
    \<and> list_all2 (field_readable ps) fs vals"
  using members_written[of fs "map (Pair False) vals"] assms by (simp add: list.rel_map comp_def filter_map)

lemma map_written:
  "serialize_entries (map (\<lambda>(k, s). (SStr k, SStr s)) ps) (None, enc) = Ok (None, enc @ ps)"
proof (induction ps arbitrary: enc)
  case (Cons p ps)
  obtain k s where p: "p = (k, s)" by (cases p)
  have "map_serialize_entry (SStr k) (SStr s) (None, enc) = Ok (None, enc @ [(k, s)])"
    by (simp add: map_serialize_entry_def serialize_key_part_def value_sink_str)
  then show ?case using Cons.IH by (simp add: p)
qed simp

lemma group_entries_sorted:
  assumes "bt_ok ps"
  shows "group_entries ps = map (\<lambda>(k, s). (k, Val s)) ps"
proof (rule bt_ext)
  show "bt_ok (group_entries ps)" using group_entries_lookup by blast
  have keys: "map fst (map (\<lambda>(k, s). (k, Val s)) ps) = map fst ps" by (induction ps) auto
  show "bt_ok (map (\<lambda>(k, s). (k, Val s)) ps)" using assms unfolding bt_ok_def keys .
  fix k
  have "grouped (key_values ps k) = bt_get (map (\<lambda>(k, s). (k, Val s)) ps) k"
    using assms
  proof (induction ps)
    case (Cons p ps)
    then have "key_values ps (fst p) = []" by (cases p) (auto intro!: key_values_absent)
    then show ?case using Cons by (cases p) (auto simp: key_values_def)
  qed (simp add: key_values_def)
  then show "bt_get (group_entries ps) k = bt_get (map (\<lambda>(k, s). (k, Val s)) ps) k"
    using group_entries_lookup[of ps] by simp
qed

lemma map_read: "read_entries TString TString (map (\<lambda>(k, s). (k, Val s)) ps) = Some (map (\<lambda>(k, s). (SStr k, SStr s)) ps)"
  by (induction ps) (auto simp: de_val_or_vec_def)

lemma read_fields_all:
  assumes "distinct (map fst es)"
    and "\<And>k vv. (k, vv) \<in> set es \<Longrightarrow> \<exists>f. find (\<lambda>f. qf_name f = k) fs = Some f \<and> de_val_or_vec (qf_type f) vv = Some (h k)"
  shows "\<exists>got'. read_fields fs es got = Some got' \<and> (\<forall>k. map_of got' k = (if k \<in> fst ` set es then Some (h k) else map_of got k))"
  using assms
proof (induction es arbitrary: got)
  case (Cons kvv es)
  obtain k vv where kvv: "kvv = (k, vv)" by (cases kvv)
  obtain f where f: "find (\<lambda>f. qf_name f = k) fs = Some f" "de_val_or_vec (qf_type f) vv = Some (h k)"
    using Cons.prems(2)[of k vv] by (auto simp: kvv)
  obtain got' where got': "read_fields fs es ((k, h k) # got) = Some got'"
      "\<And>j. map_of got' j = (if j \<in> fst ` set es then Some (h j) else map_of ((k, h k) # got) j)"
    using Cons.IH[of "(k, h k) # got"] Cons.prems by fastforce
  have "map_of got' j = (if j \<in> fst ` set (kvv # es) then Some (h j) else map_of got j)" for j
    by (auto simp: got'(2) kvv)
  then show ?case using f got'(1) by (auto simp: kvv)
qed simp

lemma find_by_name:
  assumes "distinct (map qf_name fs)" "f \<in> set fs"
  shows "find (\<lambda>g. qf_name g = qf_name f) fs = Some f"
  using assms by (induction fs) auto

lemma complete_fields_all:
  assumes "list_all2 (\<lambda>f kv. fst kv = qf_name f \<and> (case map_of got (qf_name f) of Some v \<Rightarrow> v = snd kv
      | None \<Rightarrow> missing_field f = Some (snd kv))) fs vals"
  shows "complete_fields fs got = Some vals"
  using assms by (induction fs vals rule: list_all2_induct) (auto split: option.splits)

lemma group_keys: "(k, vv) \<in> set (group_entries ps) \<longleftrightarrow> grouped (key_values ps k) = Some vv"
  using group_entries_lookup[of ps] bt_ok_distinct[of "group_entries ps"] by (metis map_of_eq_Some_iff)

lemma struct_read:
  assumes "list_all2 (field_readable ps) fs vals" "distinct (map qf_name fs)" "fst ` set ps \<subseteq> qf_name ` set fs"
  shows "url_deserialize (QStruct name fs) (group_entries ps) = Some (SStruct name vals)"
proof -
  let ?h = "\<lambda>k. the (map_of vals k)"
  have names: "map fst vals = map qf_name fs"
  proof -
    have "list_all2 (\<lambda>f kv. fst kv = qf_name f) fs vals"
      by (rule list.rel_mono_strong[OF assms(1)]) (simp add: field_readable_def)
    then show ?thesis by (induction fs vals rule: list_all2_induct) simp_all
  qed
  have vals: "field_readable ps f (qf_name f, ?h (qf_name f))" if f: "f \<in> set fs" for f
  proof -
    obtain i where i: "i < length fs" "f = fs ! i" using f by (metis in_set_conv_nth)
    have len: "length vals = length fs" using list_all2_lengthD[OF assms(1)] by simp
    have "field_readable ps f (vals ! i)" using list_all2_nthD[OF assms(1) i(1)] i(2) by simp
    moreover have "distinct (map fst vals)" "vals ! i \<in> set vals" using assms(2) names i(1) len by simp_all
    then have "map_of vals (fst (vals ! i)) = Some (snd (vals ! i))" by simp
    ultimately show ?thesis by (simp add: field_readable_def del: grouped_None split: option.splits)
  qed
  have "\<exists>got'. read_fields fs (group_entries ps) [] = Some got'
      \<and> (\<forall>k. map_of got' k = (if k \<in> fst ` set (group_entries ps) then Some (?h k) else map_of [] k))"
  proof (rule read_fields_all)
    show "distinct (map fst (group_entries ps))" using group_entries_lookup[of ps] bt_ok_distinct by blast
    fix k vv
    assume "(k, vv) \<in> set (group_entries ps)"
    then have g: "grouped (key_values ps k) = Some vv" by (simp add: group_keys)
    then have "key_values ps k \<noteq> []" by auto
    then obtain f where f: "f \<in> set fs" "k = qf_name f"
      using assms(3) key_values_absent[of k ps] by blast
    then show "\<exists>f. find (\<lambda>f. qf_name f = k) fs = Some f \<and> de_val_or_vec (qf_type f) vv = Some (?h k)"
      using find_by_name[OF assms(2) f(1)] vals[OF f(1)] g by (auto simp: field_readable_def)
  qed
  then obtain got where got: "read_fields fs (group_entries ps) [] = Some got"
      "\<And>k. map_of got k = (if k \<in> fst ` set (group_entries ps) then Some (?h k) else None)" by auto
  have present: "k \<in> fst ` set (group_entries ps) \<longleftrightarrow> key_values ps k \<noteq> []" for k
  proof -
    have "k \<in> fst ` set (group_entries ps) \<longleftrightarrow> (\<exists>vv. (k, vv) \<in> set (group_entries ps))" by force
    then show ?thesis unfolding group_keys by (metis grouped_None not_None_eq)
  qed
  have "complete_fields fs got = Some vals"
  proof (rule complete_fields_all, rule list.rel_mono_strong[OF assms(1)])
    fix f kv
    assume f: "f \<in> set fs" "kv \<in> set vals" "field_readable ps f kv"
    have "distinct (map fst vals)" using assms(2) names by simp
    then have "map_of vals (fst kv) = Some (snd kv)" using f(2) by simp
    then have "?h (qf_name f) = snd kv" using f(3) by (simp add: field_readable_def)
    then show "fst kv = qf_name f \<and> (case map_of got (qf_name f) of Some v \<Rightarrow> v = snd kv | None \<Rightarrow> missing_field f = Some (snd kv))"
      using f(3) got(2)[of "qf_name f"] present[of "qf_name f"]
      by (cases "key_values ps (qf_name f) = []") (auto simp: field_readable_def split: option.splits)
  qed
  then show ?thesis using got(1) by simp
qed

text \<open>A struct that is written as a query string and read back is the same struct, when its fields are scalars, options or
  vectors of scalars whose absence their defaults account for: scalars are texts, integers of any width in decimal,
  newtypes, unit variants and nested options of these.\<close>

lemma query_roundtrip:
  assumes "distinct (map qf_name fs)" "list_all2 field_ok fs vals"
    and "\<And>ps. url_serialize (SStruct name vals) [] = Ok ps \<Longrightarrow> form_parse F (form_encode F ps) = ps"
  shows "\<exists>s. to_string F (SStruct name vals) = Ok s \<and> from_str F (QStruct name fs) s = Some (SStruct name vals)"
proof -
  obtain ps where ps: "serialize_fields vals [] = Ok ps" "fst ` set ps \<subseteq> qf_name ` set fs" "list_all2 (field_readable ps) fs vals"
    using fields_written[OF assms(2,1)] by fastforce
  then show ?thesis using assms(3)[of ps] struct_read[OF ps(3) assms(1) ps(2)]
    by (simp add: to_string_def from_str_def from_bytes_def)
qed

lemma query_roundtrip_witness:
  "let fs = [\<lparr>qf_name = ''since'', qf_type = TOption TString, qf_default = None\<rparr>,
             \<lparr>qf_name = ''limit'', qf_type = TInt TyU8, qf_default = None\<rparr>,
             \<lparr>qf_name = ''types'', qf_type = TSeq TString, qf_default = Some (SSeq [])\<rparr>];
       v = SStruct ''Query'' [(''since'', SNone), (''limit'', SInt (U8 200)), (''types'', SSeq [SStr ''a'', SStr ''b''])];
       F = \<lparr>form_encode = \<lambda>ps. ''limit=200&types=a&types=b'',
            form_parse = \<lambda>s. [(''limit'', ''200''), (''types'', ''a''), (''types'', ''b'')]\<rparr>
   in \<exists>s. to_string F v = Ok s \<and> from_str F (QStruct ''Query'' fs) s = Some v"
  unfolding Let_def
proof (rule query_roundtrip)
  show "form_parse \<lparr>form_encode = \<lambda>ps. ''limit=200&types=a&types=b'',
      form_parse = \<lambda>s. [(''limit'', ''200''), (''types'', ''a''), (''types'', ''b'')]\<rparr>
      (form_encode \<lparr>form_encode = \<lambda>ps. ''limit=200&types=a&types=b'',
        form_parse = \<lambda>s. [(''limit'', ''200''), (''types'', ''a''), (''types'', ''b'')]\<rparr> ps) = ps"
    if "url_serialize (SStruct ''Query'' [(''since'', SNone), (''limit'', SInt (U8 200)),
        (''types'', SSeq [SStr ''a'', SStr ''b''])]) [] = Ok ps" for ps
  proof -
    have "show_nat 200 = ''200''" by code_simp
    then show ?thesis using that by (simp add: value_sink.simps serialize_integer_def show_int_def)
  qed
qed (simp_all add: field_ok_def field_typed_def)

end
