(* ===== verification/Client_Errors.thy ===== *)
theory Client_Errors
  imports Enum_Tables Room_Events Decimal
begin

text \<open>Errors on the wire: the conversions of \<^verbatim>\<open>ruma-api/src/error.rs\<close>, the way a generated response is read from an HTTP
  response (\<^verbatim>\<open>ruma-api-macros/src/response/incoming.rs\<close>), and the Matrix errors of the client-server API
  (\<^verbatim>\<open>ruma-client-api/src/error.rs\<close>, \<^verbatim>\<open>error/kind_serde.rs\<close>).  A JSON document is a value whose objects list their
  entries in the order of the document, repeated keys included; printing and parsing it are a parameter.  The locale
  \<open>endpoint_error\<close> is the contract of an \<open>EndpointError\<close>.\<close>

section \<open>Responses\<close>

record http_response =
  rs_status :: nat
  rs_headers :: "(string \<times> string) list"
  rs_body :: string

definition json_response :: "nat \<Rightarrow> string \<Rightarrow> http_response" where
  "json_response status body = \<lparr>rs_status = status, rs_headers = [(''content-type'', ''application/json'')], rs_body = body\<rparr>"

text \<open>\<open>serde_json::to_writer\<close> and the parser below \<open>serde_json::from_slice\<close>.\<close>

record json_io =
  to_text :: "json \<Rightarrow> string"
  from_text :: "string \<Rightarrow> json option"

definition reads_back :: "json_io \<Rightarrow> json \<Rightarrow> bool" where
  "reads_back IO v \<longleftrightarrow> from_text IO (to_text IO v) = Some v"

datatype into_http_error = NeedsAuthentication | IntoJson | IntoQuery | IntoHeader | IntoHttp

datatype header_error = ToStrError | MissingHeader string

datatype deserialization_error = DeUtf8 | DeJson | DeQuery | DeIdent id_error | DeHeader header_error

datatype 'e server_error = Known 'e | UnknownError deserialization_error

datatype 'e from_http_response_error = Deserialization deserialization_error | Http "'e server_error"

text \<open>\<open>from_json_slice::<T>\<close>; the kind of the error of \<open>serde_json\<close> is not kept.\<close>

definition from_json_slice :: "json_io \<Rightarrow> (json \<Rightarrow> ('a, 'x) result) \<Rightarrow> string \<Rightarrow> ('a, deserialization_error) result" where
  "from_json_slice IO de body = and_then (ok_or DeJson (from_text IO body)) (\<lambda>v. map_err (\<lambda>_. DeJson) (de v))"

text \<open>\<open>try_from_http_response\<close> of a generated response: \<open>init_fields\<close> reads a successful response, \<open>from_response\<close> is that
  of the error type.\<close>

definition response_from_http ::
    "(http_response \<Rightarrow> ('a, deserialization_error) result) \<Rightarrow> (http_response \<Rightarrow> ('e, deserialization_error) result)
      \<Rightarrow> http_response \<Rightarrow> ('a, 'e from_http_response_error) result" where
  "response_from_http init_fields from_response response =
     (if rs_status response < 400 then map_err Deserialization (init_fields response)
      else case from_response response of
             Ok err \<Rightarrow> Err (Http (Known err))
           | Err response_err \<Rightarrow> Err (Http (UnknownError response_err))
           | Panic \<Rightarrow> Panic)"

text \<open>The general purpose \<open>MatrixError\<close> of \<^verbatim>\<open>ruma-api\<close>.\<close>

record matrix_error =
  me_status :: nat
  me_body :: json

definition matrix_error_into :: "json_io \<Rightarrow> matrix_error \<Rightarrow> (http_response, into_http_error) result" where
  "matrix_error_into IO e = Ok (json_response (me_status e) (to_text IO (me_body e)))"

definition matrix_error_from :: "json_io \<Rightarrow> http_response \<Rightarrow> (matrix_error, deserialization_error) result" where
  "matrix_error_from IO r =
     and_then (from_json_slice IO (Ok :: json \<Rightarrow> (json, unit) result) (rs_body r)) (\<lambda>b.
     Ok \<lparr>me_status = rs_status r, me_body = b\<rparr>)"

section \<open>Error kinds\<close>

text \<open>A \<open>Duration\<close>, in nanoseconds.\<close>

type_synonym duration = nat

definition as_millis :: "duration \<Rightarrow> nat" where "as_millis d = d div 1000000"

definition from_millis :: "nat \<Rightarrow> duration" where "from_millis n = n * 1000000"

definition uint_try_from :: "nat \<Rightarrow> nat option" where
  "uint_try_from n = (if int n \<le> INT_MAX then Some n else None)"

fun de_uint :: "json \<Rightarrow> nat option" where
  "de_uint (JNumber (PosInt w)) = uint_try_from (unat w)"
| "de_uint _ = None"

definition ser_uint :: "nat \<Rightarrow> json" where "ser_uint n = JNumber (PosInt (of_nat n))"

datatype error_kind =
    Forbidden | UnknownToken bool | MissingToken | BadJson | NotJson | NotFound | LimitExceeded "duration
    option" | Unknown | Unrecognized | Unauthorized | UserDeactivated | UserInUse | InvalidUsername | RoomInUse
    | InvalidRoomState | ThreepidInUse | ThreepidNotFound | ThreepidAuthFailed | ThreepidDenied |
    ServerNotTrusted | UnsupportedRoomVersion | IncompatibleRoomVersion room_version_id | BadState |
    GuestAccessForbidden | CaptchaNeeded | CaptchaInvalid | MissingParam | InvalidParam | TooLarge | Exclusive |
    ResourceLimitExceeded string | CannotLeaveServerNoticeRoom | CustomKind string "(string, json) btree"

fun error_kind_as_ref :: "error_kind \<Rightarrow> string" where
  "error_kind_as_ref Forbidden = ''M_FORBIDDEN''"
| "error_kind_as_ref (UnknownToken x) = ''M_UNKNOWN_TOKEN''"
| "error_kind_as_ref MissingToken = ''M_MISSING_TOKEN''"
| "error_kind_as_ref BadJson = ''M_BAD_JSON''"
| "error_kind_as_ref NotJson = ''M_NOT_JSON''"
| "error_kind_as_ref NotFound = ''M_NOT_FOUND''"
| "error_kind_as_ref (LimitExceeded x) = ''M_LIMIT_EXCEEDED''"
| "error_kind_as_ref Unknown = ''M_UNKNOWN''"
| "error_kind_as_ref Unrecognized = ''M_UNRECOGNIZED''"
| "error_kind_as_ref Unauthorized = ''M_UNAUTHORIZED''"
| "error_kind_as_ref UserDeactivated = ''M_USER_DEACTIVATED''"
| "error_kind_as_ref UserInUse = ''M_USER_IN_USE''"
| "error_kind_as_ref InvalidUsername = ''M_INVALID_USERNAME''"
| "error_kind_as_ref RoomInUse = ''M_ROOM_IN_USE''"
| "error_kind_as_ref InvalidRoomState = ''M_INVALID_ROOM_STATE''"
| "error_kind_as_ref ThreepidInUse = ''M_THREEPID_IN_USE''"
| "error_kind_as_ref ThreepidNotFound = ''M_THREEPID_NOT_FOUND''"
| "error_kind_as_ref ThreepidAuthFailed = ''M_THREEPID_AUTH_FAILED''"
| "error_kind_as_ref ThreepidDenied = ''M_THREEPID_DENIED''"
| "error_kind_as_ref ServerNotTrusted = ''M_SERVER_NOT_TRUSTED''"
| "error_kind_as_ref UnsupportedRoomVersion = ''M_UNSUPPORTED_ROOM_VERSION''"
| "error_kind_as_ref (IncompatibleRoomVersion x) = ''M_INCOMPATIBLE_ROOM_VERSION''"
| "error_kind_as_ref BadState = ''M_BAD_STATE''"
| "error_kind_as_ref GuestAccessForbidden = ''M_GUEST_ACCESS_FORBIDDEN''"
| "error_kind_as_ref CaptchaNeeded = ''M_CAPTCHA_NEEDED''"
| "error_kind_as_ref CaptchaInvalid = ''M_CAPTCHA_INVALID''"
| "error_kind_as_ref MissingParam = ''M_MISSING_PARAM''"
| "error_kind_as_ref InvalidParam = ''M_INVALID_PARAM''"
| "error_kind_as_ref TooLarge = ''M_TOO_LARGE''"
| "error_kind_as_ref Exclusive = ''M_EXCLUSIVE''"
| "error_kind_as_ref (ResourceLimitExceeded x) = ''M_RESOURCE_LIMIT_EXCEEDED''"
| "error_kind_as_ref CannotLeaveServerNoticeRoom = ''M_CANNOT_LEAVE_SERVER_NOTICE_ROOM''"
| "error_kind_as_ref (CustomKind errcode extra) = errcode"

section \<open>Reading an error kind\<close>

datatype de_error = DuplicateField string | MissingField string | InvalidValue

text \<open>The generated \<open>From<String>\<close> of \<open>ErrCode\<close>.\<close>

definition err_code_from :: "string \<Rightarrow> enum_value" where
  "err_code_from s =
     (case expand_string_enum (\<lambda>_. False) enum_err_code of
        Ok e \<Rightarrow> enum_from e s | Err x \<Rightarrow> DataValue ''_Custom'' s | Panic \<Rightarrow> DataValue ''_Custom'' s)"

definition de_err_code :: "json \<Rightarrow> (enum_value, de_error) result" where
  "de_err_code v = ok_or InvalidValue (map_option err_code_from (de_string v))"

record kind_fields =
  f_errcode :: "enum_value option"
  f_soft_logout :: "json option"
  f_retry_after_ms :: "json option"
  f_room_version :: "json option"
  f_admin_contact :: "json option"
  f_extra :: "(string, json) btree"

definition no_fields :: kind_fields where
  "no_fields = \<lparr>f_errcode = None, f_soft_logout = None, f_retry_after_ms = None, f_room_version = None,
     f_admin_contact = None, f_extra = []\<rparr>"

text \<open>The macro \<open>set_field!\<close> for a field of one variant.\<close>

definition set_field ::
    "string \<Rightarrow> string \<Rightarrow> enum_value option \<Rightarrow> json option \<Rightarrow> json \<Rightarrow> (json option, de_error) result" where
  "set_field owner name errcode field v =
     (if errcode = None \<or> errcode = Some (UnitValue owner)
      then if field \<noteq> None then Err (DuplicateField name) else Ok (Some v)
      else Ok field)"

fun visit_entry :: "kind_fields \<Rightarrow> string \<times> json \<Rightarrow> (kind_fields, de_error) result" where
  "visit_entry st (key, v) =
     (if key = ''errcode'' then
        if f_errcode st \<noteq> None then Err (DuplicateField ''errcode'')
        else and_then (de_err_code v) (\<lambda>c. Ok (st\<lparr>f_errcode := Some c\<rparr>))
      else if key = ''soft_logout'' then
        and_then (set_field ''UnknownToken'' ''soft_logout'' (f_errcode st) (f_soft_logout st) v) (\<lambda>x.
        Ok (st\<lparr>f_soft_logout := x\<rparr>))
      else if key = ''retry_after_ms'' then
        and_then (set_field ''LimitExceeded'' ''retry_after_ms'' (f_errcode st) (f_retry_after_ms st) v) (\<lambda>x.
        Ok (st\<lparr>f_retry_after_ms := x\<rparr>))
      else if key = ''room_version'' then
        and_then (set_field ''IncompatibleRoomVersion'' ''room_version'' (f_errcode st) (f_room_version st) v) (\<lambda>x.
        Ok (st\<lparr>f_room_version := x\<rparr>))
      else if key = ''admin_contact'' then
        and_then (set_field ''ResourceLimitExceeded'' ''admin_contact'' (f_errcode st) (f_admin_contact st) v) (\<lambda>x.
        Ok (st\<lparr>f_admin_contact := x\<rparr>))
      else if bt_has key (f_extra st) then Err (DuplicateField key)
      else Ok (st\<lparr>f_extra := bt_insert key v (f_extra st)\<rparr>))"

fun visit_entries :: "kind_fields \<Rightarrow> (string \<times> json) list \<Rightarrow> (kind_fields, de_error) result" where
  "visit_entries st [] = Ok st"
| "visit_entries st (kv # es) = and_then (visit_entry st kv) (\<lambda>st'. visit_entries st' es)"

definition plain_kinds :: "(string \<times> error_kind) list" where
  "plain_kinds =
     [(''Forbidden'', Forbidden), (''MissingToken'', MissingToken), (''BadJson'', BadJson), (''NotJson'',
      NotJson), (''NotFound'', NotFound), (''Unknown'', Unknown), (''Unrecognized'', Unrecognized),
      (''Unauthorized'', Unauthorized), (''UserDeactivated'', UserDeactivated), (''UserInUse'', UserInUse),
      (''InvalidUsername'', InvalidUsername), (''RoomInUse'', RoomInUse), (''InvalidRoomState'',
      InvalidRoomState), (''ThreepidInUse'', ThreepidInUse), (''ThreepidNotFound'', ThreepidNotFound),
      (''ThreepidAuthFailed'', ThreepidAuthFailed), (''ThreepidDenied'', ThreepidDenied),
      (''ServerNotTrusted'', ServerNotTrusted), (''UnsupportedRoomVersion'', UnsupportedRoomVersion),
      (''BadState'', BadState), (''GuestAccessForbidden'', GuestAccessForbidden), (''CaptchaNeeded'',
      CaptchaNeeded), (''CaptchaInvalid'', CaptchaInvalid), (''MissingParam'', MissingParam),
      (''InvalidParam'', InvalidParam), (''TooLarge'', TooLarge), (''Exclusive'', Exclusive),
      (''CannotLeaveServerNoticeRoom'', CannotLeaveServerNoticeRoom)]"

fun kind_of_fields :: "enum_value \<Rightarrow> kind_fields \<Rightarrow> (error_kind, de_error) result" where
  "kind_of_fields (DataValue n errcode) st = Ok (CustomKind errcode (f_extra st))"
| "kind_of_fields (UnitValue n) st =
     (if n = ''UnknownToken'' then
        (case f_soft_logout st of
           None \<Rightarrow> Ok (UnknownToken False)
         | Some v \<Rightarrow> and_then (ok_or InvalidValue (de_bool v)) (\<lambda>b. Ok (UnknownToken b)))
      else if n = ''LimitExceeded'' then
        (case f_retry_after_ms st of
           None \<Rightarrow> Ok (LimitExceeded None)
         | Some v \<Rightarrow> and_then (ok_or InvalidValue (de_uint v)) (\<lambda>ms. Ok (LimitExceeded (Some (from_millis ms)))))
      else if n = ''IncompatibleRoomVersion'' then
        and_then (ok_or (MissingField ''room_version'') (f_room_version st)) (\<lambda>v.
        and_then (ok_or InvalidValue (de_room_version v)) (\<lambda>r. Ok (IncompatibleRoomVersion r)))
      else if n = ''ResourceLimitExceeded'' then
        and_then (ok_or (MissingField ''admin_contact'') (f_admin_contact st)) (\<lambda>v.
        and_then (ok_or InvalidValue (de_string v)) (\<lambda>s. Ok (ResourceLimitExceeded s)))
      else case map_of plain_kinds n of Some k \<Rightarrow> Ok k | None \<Rightarrow> Panic)"

definition visit_map :: "(string \<times> json) list \<Rightarrow> (error_kind, de_error) result" where
  "visit_map es = and_then (visit_entries no_fields es) (\<lambda>st.
     and_then (ok_or (MissingField ''errcode'') (f_errcode st)) (\<lambda>errcode. kind_of_fields errcode st))"

section \<open>Writing an error kind\<close>

definition ser_error_kind :: "error_kind \<Rightarrow> ((string \<times> json) list, into_http_error) result" where
  "ser_error_kind k = and_then
     (case k of
        UnknownToken soft_logout \<Rightarrow> Ok (if soft_logout then [(''soft_logout'', JBool True)] else [])
      | LimitExceeded (Some d) \<Rightarrow>
          and_then (ok_or IntoJson (uint_try_from (as_millis d))) (\<lambda>n. Ok [(''retry_after_ms'', ser_uint n)])
      | IncompatibleRoomVersion v \<Rightarrow> Ok [(''room_version'', JString (room_version_as_str v))]
      | ResourceLimitExceeded s \<Rightarrow> Ok [(''admin_contact'', JString s)]
      | CustomKind errcode extra \<Rightarrow> Ok extra
      | _ \<Rightarrow> Ok []) (\<lambda>es. Ok ((''errcode'', JString (error_kind_as_ref k)) # es))"

section \<open>Errors\<close>

record error_body =
  eb_kind :: error_kind
  eb_message :: string

record client_error = error_body +
  ce_status :: nat

text \<open>The derived \<open>Deserialize\<close> with the flattened \<open>kind\<close>: \<open>error\<close> is taken out and the other entries are collected in order.\<close>

fun collect_entries ::
    "string option \<Rightarrow> (string \<times> json) list \<Rightarrow> (string option \<times> (string \<times> json) list, de_error) result" where
  "collect_entries message [] = Ok (message, [])"
| "collect_entries message ((key, v) # es) =
     (if key = ''error'' then
        if message \<noteq> None then Err (DuplicateField ''error'')
        else and_then (ok_or InvalidValue (de_string v)) (\<lambda>s. collect_entries (Some s) es)
      else and_then (collect_entries message es) (\<lambda>(m, others). Ok (m, (key, v) # others)))"

fun de_error_body :: "json \<Rightarrow> (error_body, de_error) result" where
  "de_error_body (JObject es) =
     and_then (collect_entries None es) (\<lambda>(message, others).
     and_then (ok_or (MissingField ''error'') message) (\<lambda>m.
     and_then (visit_map others) (\<lambda>k. Ok \<lparr>eb_kind = k, eb_message = m\<rparr>)))"
| "de_error_body _ = Err InvalidValue"

definition ser_error_body :: "error_body \<Rightarrow> (json, into_http_error) result" where
  "ser_error_body b = and_then (ser_error_kind (eb_kind b)) (\<lambda>es. Ok (JObject (es @ [(''error'', JString (eb_message b))])))"

definition into_error :: "error_body \<Rightarrow> nat \<Rightarrow> client_error" where
  "into_error b status = \<lparr>eb_kind = eb_kind b, eb_message = eb_message b, ce_status = status\<rparr>"

definition error_body_from :: "client_error \<Rightarrow> error_body" where
  "error_body_from e = \<lparr>eb_kind = eb_kind e, eb_message = eb_message e\<rparr>"

definition client_error_from :: "json_io \<Rightarrow> http_response \<Rightarrow> (client_error, deserialization_error) result" where
  "client_error_from IO r = and_then (from_json_slice IO de_error_body (rs_body r)) (\<lambda>b. Ok (into_error b (rs_status r)))"

definition client_error_into :: "json_io \<Rightarrow> client_error \<Rightarrow> (http_response, into_http_error) result" where
  "client_error_into IO e = and_then (ser_error_body (error_body_from e)) (\<lambda>v. Ok (json_response (ce_status e) (to_text IO v)))"

definition client_error_display :: "client_error \<Rightarrow> string" where
  "client_error_display e =
     ''['' @ show_nat (ce_status e) @ '' / '' @ error_kind_as_ref (eb_kind e) @ ''] '' @ eb_message e"

section \<open>Error codes\<close>

lemma err_code_from_eq:
  "err_code_from s =
     (case map_of (map (\<lambda>n. (err_code_string n, n)) err_code_names) s of
        Some n \<Rightarrow> UnitValue n | None \<Rightarrow> DataValue ''_Custom'' s)"
proof -
  have "cfg_strip [] enum_err_code = enum_err_code"
    by (simp add: cfg_strip_def enum_err_code_def unit_variant_def custom_variant_def)
  then show ?thesis using expand_err_code[of "\<lambda>_. False" "[]"] by (auto simp: err_code_from_def enum_from_def split: option.split)
qed

lemma err_code_from_string:
  assumes "n \<in> set err_code_names"
  shows "err_code_from (err_code_string n) = UnitValue n"
proof -
  have "map_of (map (\<lambda>n. (err_code_string n, n)) err_code_names) (err_code_string n) = Some n"
    using assms err_code_strings_distinct by (intro map_of_is_SomeI) (auto simp: comp_def)
  then show ?thesis by (simp add: err_code_from_eq)
qed

text \<open>The conversion of ASCII names, evaluated letter by letter.\<close>

fun ascii_screaming :: "bool \<Rightarrow> string \<Rightarrow> string" where
  "ascii_screaming initial [] = []"
| "ascii_screaming initial (c # cs) =
     (if is_upper c then (if initial then [c] else [CHR ''_'', c]) else [ascii_upper c]) @ ascii_screaming False cs"

lemma screaming_ascii:
  assumes "pascal_name v"
  shows "screaming_snake_case upper v = ascii_screaming True v"
proof -
  have c: "list_all is_ascii_alnum v"
    using assms by (auto simp: pascal_name_def is_ascii_alnum_def split: list.splits)
  have "list_all is_ascii_alnum s \<Longrightarrow>
      map ascii_upper (snake_loop upper b (map (\<lambda>c. [c]) s)) = ascii_screaming b s" for b s
  proof (induction s arbitrary: b)
    case (Cons c s)
    have "ascii_upper CHR ''_'' = CHR ''_''" by code_simp
    then show ?case using Cons ascii_char(3,4,6,7)[of c] by auto
  qed simp
  then show ?thesis unfolding screaming_snake_case_def snake_case_def chunks_alnum[OF c] using c by simp
qed

lemma letters:
  "list_all is_upper ''ABCDEFGHIJKLMNOPQRSTUVWXYZ''" "list_all (\<lambda>c. \<not> is_upper c) ''abcdefghijklmnopqrstuvwxyz''"
  "map ascii_upper ''abcdefghijklmnopqrstuvwxyz'' = ''ABCDEFGHIJKLMNOPQRSTUVWXYZ''"
  by code_simp+

lemmas letter_simps = letters[simplified]

lemma err_code_string_eval: "n \<in> set err_code_names \<Longrightarrow> err_code_string n = ''M_'' @ ascii_screaming True n"
  using err_code_names_ok(1) screaming_ascii by (simp add: err_code_string_def list_all_iff)

lemma plain_kinds_codes: "map (error_kind_as_ref \<circ> snd) plain_kinds = map (\<lambda>(n, k). ''M_'' @ ascii_screaming True n) plain_kinds"
  by (simp add: plain_kinds_def letter_simps)

lemma plain_kinds_names:
  "list_all (\<lambda>n. n \<in> set err_code_names
     \<and> n \<notin> {''UnknownToken'', ''LimitExceeded'', ''IncompatibleRoomVersion'', ''ResourceLimitExceeded''}) (map fst plain_kinds)"
  "distinct (map fst plain_kinds)"
  by (simp_all add: plain_kinds_def err_code_names_def)

lemma plain_kinds_named:
  assumes "(n, k) \<in> set plain_kinds"
  shows "n \<in> set err_code_names" "error_kind_as_ref k = err_code_string n"
    "n \<notin> {''UnknownToken'', ''LimitExceeded'', ''IncompatibleRoomVersion'', ''ResourceLimitExceeded''}"
proof -
  have "n \<in> fst ` set plain_kinds" using assms by force
  then show n: "n \<in> set err_code_names"
      and "n \<notin> {''UnknownToken'', ''LimitExceeded'', ''IncompatibleRoomVersion'', ''ResourceLimitExceeded''}"
    using plain_kinds_names(1) unfolding list_all_iff by auto
  have "error_kind_as_ref k = ''M_'' @ ascii_screaming True n"
    using assms plain_kinds_codes unfolding map_eq_conv by fastforce
  then show "error_kind_as_ref k = err_code_string n" using err_code_string_eval[OF n] by simp
qed

lemma err_code_of_name:
  assumes "n \<in> set err_code_names"
  shows "err_code_from (''M_'' @ ascii_screaming True n) = UnitValue n"
  using err_code_from_string[OF assms] err_code_string_eval[OF assms] by simp

lemma err_code_of_field_kinds:
  "err_code_from ''M_UNKNOWN_TOKEN'' = UnitValue ''UnknownToken''"
  "err_code_from ''M_LIMIT_EXCEEDED'' = UnitValue ''LimitExceeded''"
  "err_code_from ''M_INCOMPATIBLE_ROOM_VERSION'' = UnitValue ''IncompatibleRoomVersion''"
  "err_code_from ''M_RESOURCE_LIMIT_EXCEEDED'' = UnitValue ''ResourceLimitExceeded''"
  using err_code_of_name[of "''UnknownToken''"] err_code_of_name[of "''LimitExceeded''"]
    err_code_of_name[of "''IncompatibleRoomVersion''"] err_code_of_name[of "''ResourceLimitExceeded''"]
  by (simp_all add: letter_simps err_code_names_def)

lemma plain_kind:
  assumes "(n, k) \<in> set plain_kinds"
  shows "err_code_from (error_kind_as_ref k) = UnitValue n" "kind_of_fields (UnitValue n) st = Ok k"
  using plain_kinds_named[OF assms] err_code_from_string map_of_is_SomeI[OF plain_kinds_names(2) assms] by auto

lemma err_code_known: "err_code_from s = UnitValue n \<Longrightarrow> n \<in> set err_code_names"
  by (auto simp: err_code_from_eq split: option.splits dest: map_of_SomeD)

lemma err_code_custom: "err_code_from s = DataValue x t \<Longrightarrow> x = ''_Custom'' \<and> t = s"
  by (auto simp: err_code_from_eq split: option.splits)

text \<open>Every code but the four with fields is plain, so that no arm of the match is missing.\<close>

lemma names_covered:
  "filter (\<lambda>n. n \<notin> {''UnknownToken'', ''LimitExceeded'', ''IncompatibleRoomVersion'', ''ResourceLimitExceeded''})
     err_code_names = map fst plain_kinds"
  by (simp add: err_code_names_def plain_kinds_def)

lemma kind_of_fields_neq_Panic: "kind_of_fields (err_code_from s) st \<noteq> Panic"
proof (cases "err_code_from s")
  case (UnitValue n)
  then have "n \<in> {''UnknownToken'', ''LimitExceeded'', ''IncompatibleRoomVersion'', ''ResourceLimitExceeded''}
      \<union> fst ` set plain_kinds"
    using arg_cong[OF names_covered, of set] err_code_known[of s n] by auto
  then consider "n \<in> {''UnknownToken'', ''LimitExceeded'', ''IncompatibleRoomVersion'', ''ResourceLimitExceeded''}"
    | k where "(n, k) \<in> set plain_kinds" by force
  then show ?thesis
  proof cases
    case 1
    then show ?thesis by (auto simp: UnitValue and_then_eq_Panic split: option.splits)
  qed (simp only: UnitValue plain_kind, simp)
qed simp

section \<open>The order of the entries\<close>

definition reserved_keys :: "string list" where
  "reserved_keys = [''errcode'', ''soft_logout'', ''retry_after_ms'', ''room_version'', ''admin_contact'']"

definition other_entries :: "(string \<times> json) list \<Rightarrow> (string, json) btree" where
  "other_entries es = bt_of_list (filter (\<lambda>(k, v). k \<notin> set reserved_keys) es)"

definition all_fields :: "(string \<times> json) list \<Rightarrow> kind_fields" where
  "all_fields es = \<lparr>f_errcode = None, f_soft_logout = map_of es ''soft_logout'', f_retry_after_ms = map_of es ''retry_after_ms'',
     f_room_version = map_of es ''room_version'', f_admin_contact = map_of es ''admin_contact'', f_extra = other_entries es\<rparr>"

text \<open>What an error kind is, without a loop: the code decides, and each variant reads its own field.\<close>

definition kind_of_entries :: "(string \<times> json) list \<Rightarrow> (error_kind, de_error) result" where
  "kind_of_entries es =
     and_then (ok_or (MissingField ''errcode'') (map_of es ''errcode'')) (\<lambda>v.
     and_then (de_err_code v) (\<lambda>c. kind_of_fields c (all_fields es)))"

definition field_read :: "enum_value option \<Rightarrow> (string \<times> json) list \<Rightarrow> string \<Rightarrow> string \<Rightarrow> json option \<Rightarrow> bool" where
  "field_read code es owner name field \<longleftrightarrow>
     field = map_of es name \<or> field = None \<and> code \<noteq> None \<and> code \<noteq> Some (UnitValue owner)"

definition code_read :: "enum_value option \<Rightarrow> (string \<times> json) list \<Rightarrow> bool" where
  "code_read code es \<longleftrightarrow>
     (case map_of es ''errcode'' of None \<Rightarrow> code = None | Some v \<Rightarrow> \<exists>c. de_err_code v = Ok c \<and> code = Some c)"

definition entries_read :: "kind_fields \<Rightarrow> (string \<times> json) list \<Rightarrow> bool" where
  "entries_read st es \<longleftrightarrow>
     code_read (f_errcode st) es
     \<and> field_read (f_errcode st) es ''UnknownToken'' ''soft_logout'' (f_soft_logout st)
     \<and> field_read (f_errcode st) es ''LimitExceeded'' ''retry_after_ms'' (f_retry_after_ms st)
     \<and> field_read (f_errcode st) es ''IncompatibleRoomVersion'' ''room_version'' (f_room_version st)
     \<and> field_read (f_errcode st) es ''ResourceLimitExceeded'' ''admin_contact'' (f_admin_contact st)
     \<and> f_extra st = other_entries es"

lemma field_read_snoc:
  assumes "field_read code es owner name field" "name \<noteq> key"
  shows "field_read code (es @ [(key, v)]) owner name field"
  using assms by (auto simp: field_read_def map_add_def split: option.splits)

lemma field_read_code:
  assumes "field_read None es owner name field"
  shows "field_read (Some c) es owner name field"
  using assms by (simp add: field_read_def)

lemma field_read_own: "field_read (Some (UnitValue owner)) es owner name field \<Longrightarrow> field = map_of es name"
  by (simp add: field_read_def)

lemma code_read_snoc: "code_read code es \<Longrightarrow> k \<noteq> ''errcode'' \<Longrightarrow> code_read code (es @ [(k, v)])"
  by (auto simp: code_read_def map_add_def split: option.splits)

lemma code_read_None: "code_read code es \<Longrightarrow> ''errcode'' \<notin> fst ` set es \<Longrightarrow> code = None"
  by (auto simp: code_read_def map_of_eq_None_iff[THEN iffD2])

lemma set_field_read:
  assumes "field_read code es owner name field" "name \<notin> fst ` set es"
  shows "\<exists>x. set_field owner name code field v = Ok x \<and> field_read code (es @ [(name, v)]) owner name x"
proof -
  have "map_of es name = None" using assms(2) by (simp add: map_of_eq_None_iff)
  then show ?thesis using assms(1) by (auto simp: field_read_def set_field_def map_add_def)
qed

lemma other_entries_snoc:
  "other_entries (es @ [(k, v)]) =
     (if k \<in> set reserved_keys then other_entries es else bt_insert k v (other_entries es))"
  by (simp add: other_entries_def bt_of_list_def)

lemma visit_entry_read:
  assumes "entries_read st ps" "k \<notin> fst ` set ps" "k = ''errcode'' \<Longrightarrow> de_err_code v = Ok c"
  shows "\<exists>st'. visit_entry st (k, v) = Ok st' \<and> entries_read st' (ps @ [(k, v)])"
proof -
  have n: "map_of ps k = None" using assms(2) by (simp add: map_of_eq_None_iff)
  have st: "field_read (f_errcode st) ps ''UnknownToken'' ''soft_logout'' (f_soft_logout st)"
    "field_read (f_errcode st) ps ''LimitExceeded'' ''retry_after_ms'' (f_retry_after_ms st)"
    "field_read (f_errcode st) ps ''IncompatibleRoomVersion'' ''room_version'' (f_room_version st)"
    "field_read (f_errcode st) ps ''ResourceLimitExceeded'' ''admin_contact'' (f_admin_contact st)"
    "f_extra st = other_entries ps"
    using assms(1) by (simp_all add: entries_read_def)
  have code: "code_read (f_errcode st) ps" using assms(1) by (simp add: entries_read_def)
  consider "k = ''errcode''" | "k = ''soft_logout''" | "k = ''retry_after_ms''" | "k = ''room_version''"
    | "k = ''admin_contact''" | "k \<notin> set reserved_keys"
    by (auto simp: reserved_keys_def)
  then show ?thesis
  proof cases
    case 1
    then have e: "f_errcode st = None" using code_read_None[OF code] assms(2) by simp
    show ?thesis using 1 e n assms(3) st
      by (auto simp: entries_read_def code_read_def map_add_def other_entries_snoc reserved_keys_def intro!: field_read_snoc field_read_code)
  next
    case 2
    then show ?thesis using set_field_read[OF st(1), of v] assms(2) code st
      by (auto simp: entries_read_def other_entries_snoc reserved_keys_def intro!: field_read_snoc code_read_snoc)
  next
    case 3
    then show ?thesis using set_field_read[OF st(2), of v] assms(2) code st
      by (auto simp: entries_read_def other_entries_snoc reserved_keys_def intro!: field_read_snoc code_read_snoc)
  next
    case 4
    then show ?thesis using set_field_read[OF st(3), of v] assms(2) code st
      by (auto simp: entries_read_def other_entries_snoc reserved_keys_def intro!: field_read_snoc code_read_snoc)
  next
    case 5
    then show ?thesis using set_field_read[OF st(4), of v] assms(2) code st
      by (auto simp: entries_read_def other_entries_snoc reserved_keys_def intro!: field_read_snoc code_read_snoc)
  next
    case 6
    then have "map_of (other_entries ps) k = None"
      using assms(2) by (force simp: other_entries_def bt_get_of_list map_of_eq_None_iff)
    then show ?thesis using 6 code st
      by (auto simp: entries_read_def bt_has_def other_entries_snoc reserved_keys_def intro!: field_read_snoc code_read_snoc)
  qed
qed

lemma visit_entries_read:
  assumes "entries_read st ps" "distinct (map fst (ps @ es))"
  shows "case map_of es ''errcode'' of
       Some v \<Rightarrow> (case de_err_code v of
           Ok c \<Rightarrow> \<exists>st'. visit_entries st es = Ok st' \<and> entries_read st' (ps @ es)
         | Err e \<Rightarrow> visit_entries st es = Err e
         | Panic \<Rightarrow> False)
     | None \<Rightarrow> \<exists>st'. visit_entries st es = Ok st' \<and> entries_read st' (ps @ es)"
  using assms
proof (induction es arbitrary: st ps)
  case (Cons kv es)
  obtain k v where kv: "kv = (k, v)" by (cases kv)
  have k: "k \<notin> fst ` set ps" "k \<notin> fst ` set es" using Cons.prems(2) by (auto simp: kv)
  show ?case
  proof (cases "k = ''errcode'' \<and> \<not> is_ok (de_err_code v)")
    case True
    have "f_errcode st = None"
      using Cons.prems(1) k(1) True code_read_None[of "f_errcode st" ps] by (auto simp: entries_read_def)
    then show ?thesis using True by (cases "de_err_code v") (auto simp: kv de_err_code_def split: option.splits)
  next
    case False
    then obtain c where c: "k = ''errcode'' \<Longrightarrow> de_err_code v = Ok c" by (cases "de_err_code v") auto
    obtain st' where st': "visit_entry st (k, v) = Ok st'" "entries_read st' (ps @ [(k, v)])"
      using visit_entry_read[OF Cons.prems(1) k(1) c] by blast
    have e: "visit_entries st (kv # es) = visit_entries st' es" "ps @ kv # es = (ps @ [(k, v)]) @ es"
      using st'(1) by (simp_all add: kv del: visit_entry.simps)
    have IH: "distinct (map fst ((ps @ [(k, v)]) @ es))" using Cons.prems(2) by (simp add: kv)
    show ?thesis
    proof (cases "k = ''errcode''")
      case True
      then have "map_of es ''errcode'' = None" using k(2) by (simp add: map_of_eq_None_iff)
      then show ?thesis unfolding e using Cons.IH[OF st'(2) IH] c[OF True] by (simp add: kv True)
    next
      case False
      then show ?thesis unfolding e using Cons.IH[OF st'(2) IH] by (simp add: kv)
    qed
  qed
qed simp

lemma kind_of_fields_read:
  assumes "entries_read st es" "f_errcode st = Some c"
  shows "kind_of_fields c st = kind_of_fields c (all_fields es)"
proof (cases c)
  case (UnitValue n)
  have "n = ''UnknownToken'' \<Longrightarrow> f_soft_logout st = map_of es ''soft_logout''"
    "n = ''LimitExceeded'' \<Longrightarrow> f_retry_after_ms st = map_of es ''retry_after_ms''"
    "n = ''IncompatibleRoomVersion'' \<Longrightarrow> f_room_version st = map_of es ''room_version''"
    "n = ''ResourceLimitExceeded'' \<Longrightarrow> f_admin_contact st = map_of es ''admin_contact''"
    using assms by (auto simp: entries_read_def UnitValue dest!: field_read_own)
  then show ?thesis by (simp add: UnitValue all_fields_def)
qed (use assms in \<open>simp add: entries_read_def all_fields_def\<close>)

lemma visit_map_entries:
  assumes "distinct (map fst es)"
  shows "visit_map es = kind_of_entries es"
proof -
  have "entries_read no_fields []" by (simp add: entries_read_def no_fields_def code_read_def field_read_def other_entries_def bt_of_list_def)
  from visit_entries_read[OF this, of es]
  show ?thesis using assms
    by (auto simp: visit_map_def kind_of_entries_def kind_of_fields_read entries_read_def[of _ es] code_read_def split: option.splits result.splits)
qed

lemma map_of_perm:
  assumes "distinct (map fst es)" "mset es = mset es'"
  shows "map_of es = map_of es'"
proof -
  have "distinct (map fst es')" using assms by (metis mset_eq_imp_distinct_iff mset_map)
  then show ?thesis using assms map_of_inject_set mset_eq_setD by blast
qed

lemma other_entries_perm:
  assumes "distinct (map fst es)" "mset es = mset es'"
  shows "other_entries es = other_entries es'"
proof -
  let ?f = "filter (\<lambda>(k, v). k \<notin> set reserved_keys)"
  have d: "distinct (map fst (?f es))" and m: "mset (?f es) = mset (?f es')"
    using assms by (auto simp: distinct_map_filter)
  then have d': "distinct (map fst (?f es'))" by (metis mset_eq_imp_distinct_iff mset_map)
  show ?thesis unfolding other_entries_def
    by (rule bt_ext) (simp_all add: bt_get_of_list map_of_rev_distinct[OF d] map_of_rev_distinct[OF d'] map_of_perm[OF d m])
qed

text \<open>Although the entries of an error object are read one after the other, and a field is ignored when the error code
  that was read before does not have it, the kind of error does not depend on the order of the entries: when no key is
  repeated, it is the one determined by the error code and the field of its variant, and it never panics.\<close>

lemma error_kind_order_independent:
  assumes "distinct (map fst es)"
  shows "visit_map es = kind_of_entries es \<and> (mset es' = mset es \<longrightarrow> visit_map es' = visit_map es) \<and> visit_map es \<noteq> Panic"
proof (intro conjI impI)
  show v: "visit_map es = kind_of_entries es" using assms by (rule visit_map_entries)
  show "visit_map es \<noteq> Panic"
    by (auto simp: v kind_of_entries_def and_then_eq_Panic de_err_code_def kind_of_fields_neq_Panic ok_or_eq_Ok)
  assume m: "mset es' = mset es"
  then have "distinct (map fst es')" using assms by (metis mset_eq_imp_distinct_iff mset_map)
  then have "visit_map es' = kind_of_entries es'" by (rule visit_map_entries)
  also have "\<dots> = kind_of_entries es"
    by (simp add: kind_of_entries_def all_fields_def map_of_perm[OF assms m[symmetric]] other_entries_perm[OF assms m[symmetric]])
  finally show "visit_map es' = visit_map es" using v by simp
qed

lemma error_kind_order_independent_witness:
  "visit_map [(''errcode'', JString ''M_LIMIT_EXCEEDED''), (''retry_after_ms'', JNumber (PosInt 7)), (''room_version'', JNull)]
     = visit_map [(''retry_after_ms'', JNumber (PosInt 7)), (''room_version'', JNull), (''errcode'', JString ''M_LIMIT_EXCEEDED'')]"
  using error_kind_order_independent[of "[(''retry_after_ms'', JNumber (PosInt 7)), (''room_version'', JNull),
      (''errcode'', JString ''M_LIMIT_EXCEEDED'')]" "[(''errcode'', JString ''M_LIMIT_EXCEEDED''),
      (''retry_after_ms'', JNumber (PosInt 7)), (''room_version'', JNull)]"]
  by simp

section \<open>Round trip\<close>

text \<open>Kinds that can be read: a custom kind has a code of its own and no reserved key, and a room version is valid.\<close>

fun kind_readable :: "error_kind \<Rightarrow> bool" where
  "kind_readable (CustomKind errcode extra) \<longleftrightarrow>
     err_code_from errcode = DataValue ''_Custom'' errcode \<and> bt_ok extra \<and> list_all (\<lambda>(k, v). k \<notin> set reserved_keys) extra"
| "kind_readable (IncompatibleRoomVersion v) \<longleftrightarrow> room_version_try_from (room_version_as_str v) = Ok v"
| "kind_readable k \<longleftrightarrow> True"

text \<open>The part of a kind that is on the wire: waiting times in whole milliseconds.\<close>

fun on_the_wire :: "error_kind \<Rightarrow> error_kind" where
  "on_the_wire (LimitExceeded (Some d)) = LimitExceeded (Some (from_millis (as_millis d)))"
| "on_the_wire k = k"

lemma plain_kind_cases:
  assumes "\<nexists>b. k = UnknownToken b" "\<nexists>d. k = LimitExceeded d" "\<nexists>v. k = IncompatibleRoomVersion v"
    "\<nexists>s. k = ResourceLimitExceeded s" "\<nexists>c x. k = CustomKind c x"
  obtains n where "(n, k) \<in> set plain_kinds" "ser_error_kind k = Ok [(''errcode'', JString (error_kind_as_ref k))]"
    "on_the_wire k = k"
proof -
  have "k \<in> snd ` set plain_kinds" using assms by (cases k) (simp_all add: plain_kinds_def)
  moreover have "ser_error_kind k = Ok [(''errcode'', JString (error_kind_as_ref k))]" "on_the_wire k = k"
    using assms by (cases k; simp add: ser_error_kind_def)+
  ultimately show thesis using that by force
qed

lemma de_uint_ser: "uint_try_from n = Some m \<Longrightarrow> de_uint (ser_uint m) = Some n"
  by (auto simp: uint_try_from_def ser_uint_def INT_MAX_def unat_of_nat take_bit_eq_mod split: if_splits)

lemma error_kind_reads_back:
  assumes "kind_readable k"
  shows "case ser_error_kind k of
      Ok es \<Rightarrow> visit_map es = Ok (on_the_wire k)
    | Err e \<Rightarrow> \<exists>d. k = LimitExceeded (Some d) \<and> INT_MAX < int (as_millis d)
    | Panic \<Rightarrow> False"
proof -
  consider b where "k = UnknownToken b" | "k = LimitExceeded None" | d where "k = LimitExceeded (Some d)"
    | v where "k = IncompatibleRoomVersion v" | s where "k = ResourceLimitExceeded s" | c x where "k = CustomKind c x"
    | n where "(n, k) \<in> set plain_kinds" "ser_error_kind k = Ok [(''errcode'', JString (error_kind_as_ref k))]" "on_the_wire k = k"
    by (metis plain_kind_cases option.exhaust)
  then show ?thesis
  proof cases
    case (3 d)
    show ?thesis
    proof (cases "uint_try_from (as_millis d)")
      case None
      then show ?thesis by (auto simp: 3 ser_error_kind_def uint_try_from_def split: if_splits)
    next
      case (Some n)
      then have "n = as_millis d" by (auto simp: uint_try_from_def split: if_splits)
      then show ?thesis using de_uint_ser[OF Some]
        by (simp add: 3 Some ser_error_kind_def visit_map_entries kind_of_entries_def de_err_code_def
            err_code_of_field_kinds all_fields_def)
    qed
  next
    case (6 c x)
    have x: "bt_ok x" "list_all (\<lambda>(k, v). k \<notin> set reserved_keys) x" using assms by (simp_all add: 6)
    then have "distinct (map fst x)" "''errcode'' \<notin> fst ` set x" "filter (\<lambda>(k, v). k \<notin> set reserved_keys) x = x"
      by (auto simp: bt_ok_distinct list_all_iff reserved_keys_def intro!: filter_True)
    then show ?thesis using assms x(1)
      by (simp add: 6 ser_error_kind_def visit_map_entries kind_of_entries_def de_err_code_def all_fields_def
          other_entries_def reserved_keys_def bt_of_list_ok)
  next
    case (7 n)
    then show ?thesis
      by (simp add: visit_map_entries kind_of_entries_def de_err_code_def plain_kind del: kind_of_fields.simps)
  qed (use assms in \<open>auto simp: ser_error_kind_def visit_map_entries kind_of_entries_def de_err_code_def
          err_code_of_field_kinds all_fields_def de_room_version_def\<close>)
qed

text \<open>Reading back the JSON of an error kind gives the kind, with its waiting time cut to milliseconds; writing fails only
  for a waiting time whose milliseconds do not fit into a \<open>UInt\<close>.\<close>

lemma error_kind_roundtrip:
  assumes "kind_readable k"
  shows "case ser_error_kind k of
      Ok es \<Rightarrow> visit_map es = Ok (on_the_wire k)
    | Err e \<Rightarrow> \<exists>d. k = LimitExceeded (Some d) \<and> INT_MAX < int (as_millis d)
    | Panic \<Rightarrow> False"
  using assms by (rule error_kind_reads_back)

lemma error_kind_roundtrip_witness:
  "visit_map [(''errcode'', JString ''M_LIMIT_EXCEEDED''), (''retry_after_ms'', ser_uint 2)] = Ok (LimitExceeded (Some 2000000))"
proof -
  have "ser_error_kind (LimitExceeded (Some 2000001)) =
      Ok [(''errcode'', JString ''M_LIMIT_EXCEEDED''), (''retry_after_ms'', ser_uint 2)]"
    by (simp add: ser_error_kind_def as_millis_def uint_try_from_def INT_MAX_def)
  then show ?thesis using error_kind_roundtrip[of "LimitExceeded (Some 2000001)"]
    by (simp add: from_millis_def as_millis_def)
qed

lemma ser_error_kind_keys:
  assumes "ser_error_kind k = Ok es" "''error'' \<in> fst ` set es"
  obtains c x where "k = CustomKind c x" "''error'' \<in> fst ` set x"
  using assms that by (cases k) (force simp: ser_error_kind_def and_then_eq_Ok split: option.splits if_splits)+

lemma collect_message:
  "''error'' \<notin> fst ` set es \<Longrightarrow> collect_entries None (es @ [(''error'', JString m)]) = Ok (Some m, es)"
  by (induction es) auto

fun kind_without_message :: "error_kind \<Rightarrow> bool" where
  "kind_without_message (CustomKind c extra) \<longleftrightarrow> ''error'' \<notin> fst ` set extra"
| "kind_without_message k \<longleftrightarrow> True"

lemma error_body_roundtrip:
  assumes "kind_readable (eb_kind b)" "kind_without_message (eb_kind b)" "ser_error_body b = Ok v"
  shows "de_error_body v = Ok (b\<lparr>eb_kind := on_the_wire (eb_kind b)\<rparr>)"
proof -
  obtain es where es: "ser_error_kind (eb_kind b) = Ok es" "v = JObject (es @ [(''error'', JString (eb_message b))])"
    using assms(3) by (auto simp: ser_error_body_def and_then_eq_Ok)
  have "''error'' \<notin> fst ` set es" using assms(2) ser_error_kind_keys[OF es(1)] by (metis kind_without_message.simps(1))
  moreover have "visit_map es = Ok (on_the_wire (eb_kind b))" using error_kind_reads_back[OF assms(1)] es(1) by simp
  ultimately show ?thesis by (simp add: es(2) collect_message)
qed

section \<open>The contract of an endpoint error\<close>

text \<open>What generated responses rely on: the status of the response that is sent, and that the error is read back from it
  (up to what is lost on the wire).\<close>

locale endpoint_error =
  fixes into_response :: "'e \<Rightarrow> (http_response, into_http_error) result"
    and from_response :: "http_response \<Rightarrow> ('e, deserialization_error) result"
    and status :: "'e \<Rightarrow> nat"
    and readable :: "'e \<Rightarrow> bool"
    and wire :: "'e \<Rightarrow> 'e"
  assumes into_status: "into_response e = Ok r \<Longrightarrow> rs_status r = status e"
    and from_into: "readable e \<Longrightarrow> into_response e = Ok r \<Longrightarrow> from_response r = Ok (wire e)"
begin

lemma known_error:
  assumes "readable e" "400 \<le> status e" "into_response e = Ok r"
  shows "response_from_http init_fields from_response r = Err (Http (Known (wire e)))"
  using into_status[OF assms(3)] from_into[OF assms(1,3)] assms(2) by (simp add: response_from_http_def)

lemma not_an_error:
  assumes "status e < 400" "into_response e = Ok r"
  shows "response_from_http init_fields from_response r = map_err Deserialization (init_fields r)"
  using into_status[OF assms(2)] assms(1) by (simp add: response_from_http_def)

end

lemma json_response_simps [simp]:
  "rs_status (json_response s b) = s" "rs_body (json_response s b) = b"
  by (simp_all add: json_response_def)

interpretation matrix: endpoint_error "matrix_error_into IO" "matrix_error_from IO" me_status
    "\<lambda>e. reads_back IO (me_body e)" "\<lambda>e. e" for IO
  by unfold_locales (auto simp: matrix_error_into_def matrix_error_from_def from_json_slice_def reads_back_def)

definition client_error_readable :: "json_io \<Rightarrow> client_error \<Rightarrow> bool" where
  "client_error_readable IO e \<longleftrightarrow> kind_readable (eb_kind e) \<and> kind_without_message (eb_kind e) \<and>
     (case ser_error_body (error_body_from e) of Ok v \<Rightarrow> reads_back IO v | _ \<Rightarrow> True)"

definition client_error_wire :: "client_error \<Rightarrow> client_error" where
  "client_error_wire e = e\<lparr>eb_kind := on_the_wire (eb_kind e)\<rparr>"

interpretation client: endpoint_error "client_error_into IO" "client_error_from IO" ce_status
    "client_error_readable IO" client_error_wire for IO
proof
  fix e r
  assume into: "client_error_into IO e = Ok r"
  then show "rs_status r = ce_status e" by (auto simp: client_error_into_def and_then_eq_Ok)
  assume ok: "client_error_readable IO e"
  obtain v where v: "ser_error_body (error_body_from e) = Ok v" "r = json_response (ce_status e) (to_text IO v)"
    using into by (auto simp: client_error_into_def and_then_eq_Ok)
  have "de_error_body v = Ok ((error_body_from e)\<lparr>eb_kind := on_the_wire (eb_kind e)\<rparr>)"
    using error_body_roundtrip[of "error_body_from e", OF _ _ v(1)] ok
    by (simp add: client_error_readable_def error_body_from_def)
  then show "client_error_from IO r = Ok (client_error_wire e)" using ok v
    by (simp add: client_error_readable_def reads_back_def client_error_from_def from_json_slice_def client_error_wire_def
        error_body_from_def into_error_def)
qed

end
