(* ===== verification/Api_Http.thy ===== *)
theory Api_Http
  imports Api_Macro Url_Encoded Client_Errors
begin

text \<open>The conversions that \<^verbatim>\<open>ruma_api!\<close> generates, by interpreting the expanded declaration: a request into an HTTP
  request (\<open>try_into_http_request\<close>) and back (\<open>try_from_http_request\<close>), a response into an HTTP response and back.  The
  value of a request is the list of the values of its fields; the bytes of a raw body are a \<open>VText\<close>.  Percent encoding,
  query strings, JSON text, header values and the structure of a URI are the crates \<^verbatim>\<open>percent-encoding\<close>,
  \<^verbatim>\<open>form_urlencoded\<close>, \<^verbatim>\<open>serde_json\<close> and \<^verbatim>\<open>http\<close>: the parameter \<open>api_io\<close>.\<close>

section \<open>HTTP\<close>

record http_request =
  hq_method :: string
  hq_uri :: string
  hq_headers :: "(string \<times> string) list"
  hq_body :: string

text \<open>The crates around the generated code: \<open>uri_parts\<close> gives the path and the query of a valid URI,
  \<open>uri_with_path_and_query\<close> builds one from its parts with another path and query, \<open>header_from_str\<close> makes a
  \<^verbatim>\<open>HeaderValue\<close> (of a \<^verbatim>\<open>&str\<close> or a \<^verbatim>\<open>String\<close>).\<close>

record api_io =
  io_json :: json_io
  io_form :: form_io
  io_env :: serde_env
  pct_encode :: "string \<Rightarrow> string"
  pct_decode :: "string \<Rightarrow> string option"
  header_from_str :: "string \<Rightarrow> string option"
  header_to_str :: "string \<Rightarrow> string option"
  uri_parts :: "string \<Rightarrow> (string \<times> string option) option"
  uri_path_and_query :: "string \<Rightarrow> string option"
  uri_with_path_and_query :: "string \<Rightarrow> string \<Rightarrow> string option"

definition header_insert :: "string \<Rightarrow> string \<Rightarrow> (string \<times> string) list \<Rightarrow> (string \<times> string) list" where
  "header_insert k v hs = (k, v) # filter (\<lambda>h. fst h \<noteq> k) hs"

definition header_remove :: "string \<Rightarrow> (string \<times> string) list \<Rightarrow> (string \<times> string) list" where
  "header_remove k hs = filter (\<lambda>h. fst h \<noteq> k) hs"

text \<open>\<open>HeaderName\<close> of a constant of \<^verbatim>\<open>http::header\<close>: lower case with hyphens.\<close>

definition header_name :: "string \<Rightarrow> string" where
  "header_name ident = map (\<lambda>c. if c = CHR ''_'' then CHR ''-'' else if is_upper c then char_of (byte c + 32) else c) ident"

datatype send_access_token = IfRequired string | Always string | NoToken

fun get_required_for_endpoint :: "send_access_token \<Rightarrow> string option" where
  "get_required_for_endpoint (IfRequired tok) = Some tok"
| "get_required_for_endpoint (Always tok) = Some tok"
| "get_required_for_endpoint NoToken = None"

fun get_not_required_for_endpoint :: "send_access_token \<Rightarrow> string option" where
  "get_not_required_for_endpoint (Always tok) = Some tok"
| "get_not_required_for_endpoint (IfRequired tok) = None"
| "get_not_required_for_endpoint NoToken = None"

section \<open>Values in paths, headers and query strings\<close>

text \<open>\<open>ToString\<close> and \<open>TryFrom<&str>\<close> of the types of path fields.\<close>

fun to_path_text :: "val \<Rightarrow> string" where
  "to_path_text (VText s) = s"
| "to_path_text (VUnit s) = s"
| "to_path_text _ = []"

fun from_path_text :: "serde_env \<Rightarrow> ty \<Rightarrow> string \<Rightarrow> (val, deserialization_error) result" where
  "from_path_text E (FText k) s = and_then (map_err DeIdent (validate_text E k s)) (\<lambda>_. Ok (VText s))"
| "from_path_text E (FUnits names) s = (if s \<in> set names then Ok (VUnit s) else Err (DeIdent InvalidCharacters))"
| "from_path_text E t s = Err (DeIdent InvalidCharacters)"

text \<open>What the fields of a query hand to the serializer, the types they ask the deserializer for, and the way back.
  Integers are written and read as 64-bit ones; the types of \<^verbatim>\<open>js_int\<close> then check their range.  A value that
  fails to serialize (a duration out of range) is given as a struct, which the query serializer refuses with an error.\<close>

fun query_ser :: "ty \<Rightarrow> val \<Rightarrow> ser_value" where
  "query_ser (FText k) v = SStr (text_of v)"
| "query_ser FBool v = (case v of VBool b \<Rightarrow> SBool b | _ \<Rightarrow> SStruct [] [])"
| "query_ser (FInt lo hi) v = (case v of VInt i \<Rightarrow> SInt (if lo < 0 then I64 (word_of_int i) else U64 (word_of_int i)) | _ \<Rightarrow> SStruct [] [])"
| "query_ser (FDuration unit) v = (case v of 
     VInt nanos \<Rightarrow> if MAX_SAFE < nanos div unit then SStruct [] [] else SInt (U64 (word_of_int (nanos div unit)))
   | _ \<Rightarrow> SStruct [] [])"
| "query_ser (FUnits names) v = (case v of VUnit s \<Rightarrow> SUnitVariant [] s | _ \<Rightarrow> SStruct [] [])"
| "query_ser (FOpaque name) v = (case v of VJson (JString s) \<Rightarrow> SStr s | _ \<Rightarrow> SStruct [] [])"
| "query_ser (FOpt t) v = (case v of VSome w \<Rightarrow> SSome (query_ser t w) | _ \<Rightarrow> SNone)"
| "query_ser (FWith t) v = SNewtypeStruct [] (query_ser t v)"
| "query_ser (FVec t) v = (case v of VVec vs \<Rightarrow> SSeq (map (query_ser t) vs) | _ \<Rightarrow> SStruct [] [])"
| "query_ser t v = SStruct [] []"

fun query_type_of :: "ty \<Rightarrow> de_type" where
  "query_type_of (FText k) = TString"
| "query_type_of FBool = TBool"
| "query_type_of (FInt lo hi) = TInt (if lo < 0 then TyI64 else TyU64)"
| "query_type_of (FDuration unit) = TInt TyU64"
| "query_type_of (FUnits names) = TUnitEnum [] names"
| "query_type_of (FOpaque name) = TString"
| "query_type_of (FOpt t) = TOption (query_type_of t)"
| "query_type_of (FWith t) = TNewtype [] (query_type_of t)"
| "query_type_of (FVec t) = TSeq (query_type_of t)"
| "query_type_of t = TOtherType"

fun query_de :: "serde_env \<Rightarrow> ty \<Rightarrow> ser_value \<Rightarrow> (val, serde_error) result" where
  "query_de E (FText k) w = (case w of SStr s \<Rightarrow> and_then (de_text E k s) (\<lambda>s. Ok (VText s)) | _ \<Rightarrow> Err InvalidType)"
| "query_de E FBool w = (case w of SBool b \<Rightarrow> Ok (VBool b) | _ \<Rightarrow> Err InvalidType)"
| "query_de E (FInt lo hi) w = (case w of
     SInt i \<Rightarrow> if lo \<le> int_value i \<and> int_value i \<le> hi then Ok (VInt (int_value i)) else Err OutOfRange
   | _ \<Rightarrow> Err InvalidType)"
| "query_de E (FDuration unit) w = (case w of
     SInt i \<Rightarrow> if int_value i \<le> MAX_SAFE then Ok (VInt (int_value i * unit)) else Err OutOfRange
   | _ \<Rightarrow> Err InvalidType)"
| "query_de E (FUnits names) w = (case w of SUnitVariant n s \<Rightarrow> Ok (VUnit s) | _ \<Rightarrow> Err InvalidType)"
| "query_de E (FOpaque name) w = (case w of
     SStr s \<Rightarrow> if opaque_ok E name (JString s) then Ok (VJson (JString s)) else Err InvalidType
   | _ \<Rightarrow> Err InvalidType)"
| "query_de E (FOpt t) w = (case w of
     SNone \<Rightarrow> Ok VNone | SSome w' \<Rightarrow> and_then (query_de E t w') (\<lambda>v. Ok (VSome v)) | _ \<Rightarrow> Err InvalidType)"
| "query_de E (FWith t) w = (case w of SNewtypeStruct n w' \<Rightarrow> query_de E t w' | _ \<Rightarrow> Err InvalidType)"
| "query_de E (FVec t) w = (case w of
     SSeq ws \<Rightarrow> and_then (map_res (query_de E t) ws) (\<lambda>vs. Ok (VVec vs)) | _ \<Rightarrow> Err InvalidType)"
| "query_de E t w = Err InvalidType"

text \<open>A field with \<^verbatim>\<open>query_map\<close> is a \<^verbatim>\<open>BTreeMap<String, String>\<close>.\<close>

fun query_map_ser :: "val \<Rightarrow> ser_value" where
  "query_map_ser (VMap kvs) = SMap (map (\<lambda>kv. (SStr (fst kv), SStr (text_of (snd kv)))) kvs)"
| "query_map_ser v = SStruct [] []"

fun str_of :: "ser_value \<Rightarrow> string" where
  "str_of (SStr s) = s"
| "str_of v = []"

fun query_map_de :: "ser_value \<Rightarrow> val" where
  "query_map_de (SMap kvs) = VMap (map (\<lambda>kv. (str_of (fst kv), VText (str_of (snd kv)))) kvs)"
| "query_map_de v = VMap []"

section \<open>The fields of one kind\<close>

definition fields_with :: "('k \<Rightarrow> bool) \<Rightarrow> 'k api_field list \<Rightarrow> val list \<Rightarrow> ('k api_field \<times> val) list" where
  "fields_with P fs vals = filter (\<lambda>(f, v). P (af_kind f)) (zip fs vals)"

text \<open>The struct \<open>RequestBody\<close> or \<open>ResponseBody\<close>: transparent with one field, or with all the fields of the body.\<close>

datatype body_part = InBody | IsBody | RawBody | NoBody

fun request_part :: "request_kind \<Rightarrow> body_part" where
  "request_part RBody = InBody"
| "request_part RNewtypeBody = IsBody"
| "request_part RRawBody = RawBody"
| "request_part _ = NoBody"

fun response_part :: "response_kind \<Rightarrow> body_part" where
  "response_part PBody = InBody"
| "response_part PNewtypeBody = IsBody"
| "response_part PRawBody = RawBody"
| "response_part _ = NoBody"

definition has_body_fields :: "('k \<Rightarrow> body_part) \<Rightarrow> 'k api_field list \<Rightarrow> bool" where
  "has_body_fields part fs \<longleftrightarrow> list_ex (\<lambda>f. part (af_kind f) \<in> {InBody, IsBody}) fs"

definition body_ty :: "('k \<Rightarrow> body_part) \<Rightarrow> 'k api_field list \<Rightarrow> ty" where
  "body_ty part fs = (case of_kind (\<lambda>k. part k = IsBody) fs of
     f # _ \<Rightarrow> f_ty (af_decl f)
   | [] \<Rightarrow> FStruct None (map af_decl (of_kind (\<lambda>k. part k = InBody) fs)))"

definition body_value :: "('k \<Rightarrow> body_part) \<Rightarrow> 'k api_field list \<Rightarrow> val list \<Rightarrow> val" where
  "body_value part fs vals = (case fields_with (\<lambda>k. part k = IsBody) fs vals of
     (f, v) # _ \<Rightarrow> v
   | [] \<Rightarrow> VStruct (map snd (fields_with (\<lambda>k. part k = InBody) fs vals)))"

definition body_members :: "('k \<Rightarrow> body_part) \<Rightarrow> 'k api_field list \<Rightarrow> val \<Rightarrow> (string \<times> val) list" where
  "body_members part fs v = (case of_kind (\<lambda>k. part k = IsBody) fs of
     f # _ \<Rightarrow> [(af_ident f, v)]
   | [] \<Rightarrow> zip (map af_ident (of_kind (\<lambda>k. part k = InBody) fs)) (case v of VStruct vs \<Rightarrow> vs | _ \<Rightarrow> []))"

definition json_body :: "api_io \<Rightarrow> ('k \<Rightarrow> body_part) \<Rightarrow> 'k api_field list \<Rightarrow> val list \<Rightarrow> (string, into_http_error) result" where
  "json_body IO part fs vals =
     and_then (map_err (\<lambda>_. IntoJson) (ser (body_ty part fs) (body_value part fs vals))) (\<lambda>j. Ok (to_text (io_json IO) j))"

text \<open>An empty body is read as an empty object.\<close>

definition read_body :: "api_io \<Rightarrow> ('k \<Rightarrow> body_part) \<Rightarrow> 'k api_field list \<Rightarrow> string \<Rightarrow> (val, deserialization_error) result" where
  "read_body IO part fs body =
     from_json_slice (io_json IO) (de (io_env IO) (body_ty part fs)) (if body = [] then ''{}'' else body)"

section \<open>Headers\<close>

text \<open>A header field is an \<open>Option\<close> or a string.\<close>

definition is_option :: "ty \<Rightarrow> bool" where
  "is_option t \<longleftrightarrow> (case t of FOpt t' \<Rightarrow> True | _ \<Rightarrow> False)"

definition put_header :: "api_io \<Rightarrow> string \<Rightarrow> string \<Rightarrow> (string \<times> string) list \<Rightarrow> ((string \<times> string) list, into_http_error) result" where
  "put_header IO name s hs = and_then (ok_or IntoHeader (header_from_str IO s)) (\<lambda>v. Ok (header_insert (header_name name) v hs))"

fun put_headers ::
    "api_io \<Rightarrow> (string \<times> ty \<times> val) list \<Rightarrow> (string \<times> string) list \<Rightarrow> ((string \<times> string) list, into_http_error) result" where
  "put_headers IO [] hs = Ok hs"
| "put_headers IO ((name, t, v) # rest) hs = and_then
     (if is_option t then (case v of VSome w \<Rightarrow> put_header IO name (text_of w) hs | _ \<Rightarrow> Ok hs)
      else put_header IO name (text_of v) hs) (put_headers IO rest)"

definition header_fields :: "('k \<Rightarrow> string option) \<Rightarrow> 'k api_field list \<Rightarrow> val list \<Rightarrow> (string \<times> ty \<times> val) list" where
  "header_fields name_of fs vals =
     List.map_filter (\<lambda>(f, v). map_option (\<lambda>name. (name, f_ty (af_decl f), v)) (name_of (af_kind f))) (zip fs vals)"

fun request_header :: "request_kind \<Rightarrow> string option" where
  "request_header (RHeader name) = Some name"
| "request_header _ = None"

fun response_header :: "response_kind \<Rightarrow> string option" where
  "response_header (PHeader name) = Some name"
| "response_header _ = None"

section \<open>Outgoing requests\<close>

definition to_ident_map :: "'k api_field list \<Rightarrow> val list \<Rightarrow> (string \<times> val) list" where
  "to_ident_map fs vals = zip (map af_ident fs) vals"

definition path_argument :: "api_io \<Rightarrow> request_kind api_field list \<Rightarrow> val list \<Rightarrow> string \<Rightarrow> string" where
  "path_argument IO fs vals var =
     pct_encode IO (case map_of (to_ident_map fs vals) var of Some v \<Rightarrow> to_path_text v | None \<Rightarrow> [])"

definition request_path_string :: "api_io \<Rightarrow> endpoint \<Rightarrow> val list \<Rightarrow> (string, into_http_error) result" where
  "request_path_string IO ep vals =
     (if has_path_fields (ep_request ep) then format_path (path_argument IO (ep_request ep) vals) (md_path (ep_meta ep))
      else Ok (md_path (ep_meta ep)))"

definition query_members :: "request_kind api_field list \<Rightarrow> val list \<Rightarrow> (string \<times> ser_value) list" where
  "query_members fs vals =
     map (\<lambda>(f, v). (f_name (af_decl f), query_ser (f_ty (af_decl f)) v))
       (filter (\<lambda>(f, v). \<not> skipped (f_skip (af_decl f)) v) (fields_with (\<lambda>k. k = RQuery) fs vals))"

definition has_query_fields :: "request_kind api_field list \<Rightarrow> bool" where
  "has_query_fields fs \<longleftrightarrow> list_ex (\<lambda>f. af_kind f = RQuery) fs"

definition request_query :: "request_kind api_field list \<Rightarrow> val list \<Rightarrow> ser_value option" where
  "request_query fs vals = (case fields_with (\<lambda>k. k = RQueryMap) fs vals of
     (f, v) # _ \<Rightarrow> Some (SNewtypeStruct ''RequestQuery'' (query_map_ser v))
   | [] \<Rightarrow> if has_query_fields fs then Some (SStruct ''RequestQuery'' (query_members fs vals)) else None)"

definition request_query_string :: "api_io \<Rightarrow> endpoint \<Rightarrow> val list \<Rightarrow> (string, into_http_error) result" where
  "request_query_string IO ep vals = (case request_query (ep_request ep) vals of
     None \<Rightarrow> Ok []
   | Some w \<Rightarrow> and_then (map_err (\<lambda>_. IntoQuery) (to_string (io_form IO) w)) (\<lambda>s. Ok (''?'' @ s)))"

definition authorize :: "api_io \<Rightarrow> auth_scheme \<Rightarrow> send_access_token \<Rightarrow> (string \<times> string) list \<Rightarrow> ((string \<times> string) list, into_http_error) result" where
  "authorize IO auth access_token hs = (case auth of
     AccessToken \<Rightarrow> and_then (ok_or NeedsAuthentication (get_required_for_endpoint access_token))
       (\<lambda>tok. put_header IO ''AUTHORIZATION'' (''Bearer '' @ tok) hs)
   | AuthNone \<Rightarrow> (case get_not_required_for_endpoint access_token of
       Some tok \<Rightarrow> put_header IO ''AUTHORIZATION'' (''Bearer '' @ tok) hs | None \<Rightarrow> Ok hs)
   | QueryOnlyAccessToken \<Rightarrow> Ok hs
   | ServerSignatures \<Rightarrow> Ok hs)"

definition has_raw_body :: "('k \<Rightarrow> body_part) \<Rightarrow> 'k api_field list \<Rightarrow> bool" where
  "has_raw_body part fs \<longleftrightarrow> list_ex (\<lambda>f. part (af_kind f) = RawBody) fs"

definition request_headers :: "api_io \<Rightarrow> endpoint \<Rightarrow> val list \<Rightarrow> send_access_token \<Rightarrow> ((string \<times> string) list, into_http_error) result" where
  "request_headers IO ep vals access_token =
     (let fs = ep_request ep;
          hs = (if has_raw_body request_part fs \<or> has_body_fields request_part fs
                then [(''content-type'', ''application/json'')] else []) in
      and_then (put_headers IO (header_fields request_header fs vals) hs)
        (authorize IO (md_authentication (ep_meta ep)) access_token))"

definition raw_body :: "('k \<Rightarrow> body_part) \<Rightarrow> 'k api_field list \<Rightarrow> val list \<Rightarrow> string option" where
  "raw_body part fs vals = (case fields_with (\<lambda>k. part k = RawBody) fs vals of (f, v) # _ \<Rightarrow> Some (text_of v) | [] \<Rightarrow> None)"

definition request_body :: "api_io \<Rightarrow> endpoint \<Rightarrow> val list \<Rightarrow> (string, into_http_error) result" where
  "request_body IO ep vals =
     (case raw_body request_part (ep_request ep) vals of
        Some b \<Rightarrow> Ok b
      | None \<Rightarrow> if has_body_fields request_part (ep_request ep) then json_body IO request_part (ep_request ep) vals else Ok [])"

definition strip_slash :: "string \<Rightarrow> string" where
  "strip_slash base_url = (if base_url \<noteq> [] \<and> last base_url = CHR ''/'' then butlast base_url else base_url)"

text \<open>An invalid URI is kept by the builder: it has no headers then, and its error comes out after the body was written.\<close>

definition try_into_http_request ::
    "api_io \<Rightarrow> endpoint \<Rightarrow> val list \<Rightarrow> string \<Rightarrow> send_access_token \<Rightarrow> (http_request, into_http_error) result" where
  "try_into_http_request IO ep vals base_url access_token =
     and_then (request_path_string IO ep vals) (\<lambda>path.
     and_then (request_query_string IO ep vals) (\<lambda>query.
     let uri = strip_slash base_url @ path @ query; builder_ok = (uri_parts IO uri \<noteq> None) in
     and_then (if builder_ok then request_headers IO ep vals access_token else Ok []) (\<lambda>headers.
     and_then (request_body IO ep vals) (\<lambda>body.
     if builder_ok then Ok \<lparr>hq_method = md_method (ep_meta ep), hq_uri = uri, hq_headers = headers, hq_body = body\<rparr>
     else Err IntoHttp))))"

text \<open>The assertion of an appservice: \<open>user_id\<close> is added to the query of the finished request.\<close>

definition try_into_http_request_with_user_id ::
    "api_io \<Rightarrow> endpoint \<Rightarrow> val list \<Rightarrow> string \<Rightarrow> send_access_token \<Rightarrow> string \<Rightarrow> (http_request, into_http_error) result" where
  "try_into_http_request_with_user_id IO ep vals base_url access_token user_id =
     and_then (try_into_http_request IO ep vals base_url access_token) (\<lambda>http_request.
     and_then (map_err (\<lambda>_. IntoQuery) (to_string (io_form IO) (STuple [STuple [SStr ''user_id'', SStr user_id]]))) (\<lambda>user_id_query.
     let path_and_query_with_user_id = (case uri_path_and_query IO (hq_uri http_request) of
           Some pq \<Rightarrow> if CHR ''?'' \<in> set pq then pq @ ''&'' @ user_id_query else pq @ ''?'' @ user_id_query
         | None \<Rightarrow> ''/?'' @ user_id_query) in
     and_then (ok_or IntoHttp (uri_with_path_and_query IO (hq_uri http_request) path_and_query_with_user_id)) (\<lambda>uri.
     Ok (http_request\<lparr>hq_uri := uri\<rparr>))))"

section \<open>Incoming requests\<close>

datatype from_http_request_error = RequestDeserialization deserialization_error | MethodMismatch string string

text \<open>The segments of the path that stand for a field, with their positions.\<close>

definition path_vars :: "string \<Rightarrow> (nat \<times> string) list" where
  "path_vars path = List.map_filter (\<lambda>(i, seg). if starts_with '':'' seg then Some (i, tl seg) else None)
     (enumerate 0 (str_split (CHR ''/'') (tl path)))"

definition ident_type :: "'k api_field list \<Rightarrow> string \<Rightarrow> ty" where
  "ident_type fs ident = (case map_of (map (\<lambda>f. (af_ident f, f_ty (af_decl f))) fs) ident of Some t \<Rightarrow> t | None \<Rightarrow> FText AnyText)"

definition read_path_var ::
    "api_io \<Rightarrow> request_kind api_field list \<Rightarrow> string list \<Rightarrow> nat \<times> string \<Rightarrow> (string \<times> val, deserialization_error) result" where
  "read_path_var IO fs segments = (\<lambda>(i, var).
     if length segments \<le> i then Panic
     else and_then (ok_or DeUtf8 (pct_decode IO (segments ! i))) (\<lambda>decoded.
          and_then (from_path_text (io_env IO) (ident_type fs var) decoded) (\<lambda>v. Ok (var, v))))"

text \<open>\<open>request.uri().path()[1..]\<close> panics on an empty path.\<close>

definition read_path :: "api_io \<Rightarrow> endpoint \<Rightarrow> string \<Rightarrow> ((string \<times> val) list, deserialization_error) result" where
  "read_path IO ep path =
     (if \<not> has_path_fields (ep_request ep) then Ok []
      else if path = [] then Panic
      else map_res (read_path_var IO (ep_request ep) (str_split (CHR ''/'') (tl path))) (path_vars (md_path (ep_meta ep))))"

definition query_field_of :: "field \<Rightarrow> query_field" where
  "query_field_of f = \<lparr>qf_name = f_name f, qf_type = query_type_of (f_ty f), qf_default = map_option (query_ser (f_ty f)) (f_default f)\<rparr>"

definition read_query_field :: "api_io \<Rightarrow> request_kind api_field \<times> (string \<times> ser_value) \<Rightarrow> (string \<times> val, deserialization_error) result" where
  "read_query_field IO = (\<lambda>(f, w). and_then (map_err (\<lambda>_. DeQuery) (query_de (io_env IO) (f_ty (af_decl f)) (snd w))) (\<lambda>v. Ok (af_ident f, v)))"

definition read_query :: "api_io \<Rightarrow> endpoint \<Rightarrow> string option \<Rightarrow> ((string \<times> val) list, deserialization_error) result" where
  "read_query IO ep query =
     (let fs = ep_request ep; s = (case query of Some s \<Rightarrow> s | None \<Rightarrow> []); qs = of_kind (\<lambda>k. k = RQuery) fs in
      case of_kind (\<lambda>k. k = RQueryMap) fs of
        f # _ \<Rightarrow> and_then (ok_or DeQuery (from_str (io_form IO) (QMap TString TString) s)) (\<lambda>w. Ok [(af_ident f, query_map_de w)])
      | [] \<Rightarrow>
          if qs = [] then Ok []
          else and_then (ok_or DeQuery (from_str (io_form IO) (QStruct ''RequestQuery'' (map (query_field_of \<circ> af_decl) qs)) s)) (\<lambda>w.
               case w of SStruct name members \<Rightarrow> map_res (read_query_field IO) (zip qs members) | _ \<Rightarrow> Err DeQuery))"

definition read_header ::
    "api_io \<Rightarrow> (string \<times> string) list \<Rightarrow> string \<times> request_kind api_field \<Rightarrow> (string \<times> val, deserialization_error) result" where
  "read_header IO hs = (\<lambda>(name, f). case map_of hs (header_name name) of
     Some value \<Rightarrow> and_then (ok_or (DeHeader ToStrError) (header_to_str IO value)) (\<lambda>s.
       Ok (af_ident f, if is_option (f_ty (af_decl f)) then VSome (VText s) else VText s))
   | None \<Rightarrow> if is_option (f_ty (af_decl f)) then Ok (af_ident f, VNone) else Err (DeHeader (MissingHeader name)))"

definition header_idents :: "('k \<Rightarrow> string option) \<Rightarrow> 'k api_field list \<Rightarrow> (string \<times> 'k api_field) list" where
  "header_idents name_of fs = List.map_filter (\<lambda>f. map_option (\<lambda>name. (name, f)) (name_of (af_kind f))) fs"

definition read_headers :: "api_io \<Rightarrow> endpoint \<Rightarrow> (string \<times> string) list \<Rightarrow> ((string \<times> val) list, deserialization_error) result" where
  "read_headers IO ep hs = map_res (read_header IO hs) (header_idents request_header (ep_request ep))"

definition read_request_body :: "api_io \<Rightarrow> endpoint \<Rightarrow> string \<Rightarrow> ((string \<times> val) list, deserialization_error) result" where
  "read_request_body IO ep body =
     (let fs = ep_request ep in
      and_then (if has_body_fields request_part fs
                then and_then (read_body IO request_part fs body) (\<lambda>v. Ok (body_members request_part fs v)) else Ok []) (\<lambda>members.
      Ok (case of_kind (\<lambda>k. request_part k = RawBody) fs of f # _ \<Rightarrow> [(af_ident f, VText body)] | [] \<Rightarrow> members)))"

text \<open>\<open>Self { .. }\<close>: every field from the variable of its name.\<close>

definition init_struct :: "'k api_field list \<Rightarrow> (string \<times> val) list \<Rightarrow> val list" where
  "init_struct fs vars = map (\<lambda>f. case map_of vars (af_ident f) of Some v \<Rightarrow> v | None \<Rightarrow> VNone) fs"

definition try_from_http_request ::
    "api_io \<Rightarrow> endpoint \<Rightarrow> http_request \<Rightarrow> (val list, from_http_request_error) result" where
  "try_from_http_request IO ep request =
     (let (path, query) = (case uri_parts IO (hq_uri request) of Some pq \<Rightarrow> pq | None \<Rightarrow> ([], None)) in
      if hq_method request \<noteq> md_method (ep_meta ep) then Err (MethodMismatch (md_method (ep_meta ep)) (hq_method request))
      else map_err RequestDeserialization
        (and_then (read_path IO ep path) (\<lambda>path_vars.
         and_then (read_query IO ep query) (\<lambda>query_vars.
         and_then (read_headers IO ep (hq_headers request)) (\<lambda>header_vars.
         and_then (read_request_body IO ep (hq_body request)) (\<lambda>body_vars.
         Ok (init_struct (ep_request ep) (path_vars @ query_vars @ header_vars @ body_vars))))))))"

section \<open>Responses\<close>

definition response_body :: "api_io \<Rightarrow> endpoint \<Rightarrow> val list \<Rightarrow> (string, into_http_error) result" where
  "response_body IO ep vals =
     (case raw_body response_part (ep_response ep) vals of
        Some b \<Rightarrow> Ok b | None \<Rightarrow> json_body IO response_part (ep_response ep) vals)"

definition try_into_http_response :: "api_io \<Rightarrow> endpoint \<Rightarrow> val list \<Rightarrow> (http_response, into_http_error) result" where
  "try_into_http_response IO ep vals =
     and_then (put_headers IO (header_fields response_header (ep_response ep) vals) [(''content-type'', ''application/json'')]) (\<lambda>headers.
     and_then (response_body IO ep vals) (\<lambda>body.
     Ok \<lparr>rs_status = 200, rs_headers = headers, rs_body = body\<rparr>))"

text \<open>The initializers run in the order of the fields and take the headers out of a copy; the raw body comes last.\<close>

fun init_response_fields ::
    "api_io \<Rightarrow> (string \<times> val) list \<Rightarrow> response_kind api_field list \<Rightarrow> (string \<times> string) list
      \<Rightarrow> ((string \<times> val) list, deserialization_error) result" where
  "init_response_fields IO members [] hs = Ok []"
| "init_response_fields IO members (f # fs) hs = (case af_kind f of
     PHeader name \<Rightarrow> and_then
       (case map_of hs (header_name name) of
          Some value \<Rightarrow> and_then (ok_or (DeHeader ToStrError) (header_to_str IO value)) (\<lambda>s.
            Ok (if is_option (f_ty (af_decl f)) then VSome (VText s) else VText s))
        | None \<Rightarrow> if is_option (f_ty (af_decl f)) then Ok VNone else Panic) (\<lambda>v.
       and_then (init_response_fields IO members fs (header_remove (header_name name) hs)) (\<lambda>vars. Ok ((af_ident f, v) # vars)))
   | PRawBody \<Rightarrow> init_response_fields IO members fs hs
   | _ \<Rightarrow> and_then (init_response_fields IO members fs hs) (\<lambda>vars.
       Ok ((case map_of members (af_ident f) of Some v \<Rightarrow> [(af_ident f, v)] | None \<Rightarrow> []) @ vars)))"

definition response_init_fields :: "api_io \<Rightarrow> endpoint \<Rightarrow> http_response \<Rightarrow> (val list, deserialization_error) result" where
  "response_init_fields IO ep response =
     (let fs = ep_response ep in
      and_then (if has_body_fields response_part fs
                then and_then (read_body IO response_part fs (rs_body response)) (\<lambda>v. Ok (body_members response_part fs v)) else Ok []) (\<lambda>members.
      and_then (init_response_fields IO members fs (rs_headers response)) (\<lambda>vars.
      Ok (init_struct fs (vars @ map (\<lambda>f. (af_ident f, VText (rs_body response))) (of_kind (\<lambda>k. k = PRawBody) fs))))))"

definition try_from_http_response ::
    "api_io \<Rightarrow> endpoint \<Rightarrow> (http_response \<Rightarrow> ('e, deserialization_error) result) \<Rightarrow> http_response
      \<Rightarrow> (val list, 'e from_http_response_error) result" where
  "try_from_http_response IO ep error_from response = response_from_http (response_init_fields IO ep) error_from response"

end
