(* ===== verification/Serde_Roundtrip.thy ===== *)
theory Serde_Roundtrip
  imports Serde_Derive
begin

text \<open>When the data of a type survives being written and read: the values of a type (\<open>has_type\<close>), a decidable condition
  on descriptions (\<open>ty_ok\<close>), and the proof that under it \<open>de\<close> inverts \<open>ser\<close>.  The condition asks that
  the names of a struct and of what is flattened into it are distinct, that a field is only skipped with the value that
  its absence is read as, and that the variants of an untagged enum cannot be mistaken for each other.\<close>


declare with_modules [simp]

section \<open>Values of a type\<close>

lemma size_f_ty_member [termination_simp]: "f \<in> set fs \<Longrightarrow> size (f_ty f) < Suc (size_list size fs)"
proof -
  assume "f \<in> set fs"
  then obtain xs ys where "fs = xs @ f # ys" by (auto dest: split_list)
  then show ?thesis using size_f_ty[of f 0] by simp
qed

lemma size_snd_member [termination_simp]: "p \<in> set vs \<Longrightarrow> size (snd p) < Suc (size_list (size_prod (\<lambda>x. 0) size) vs)"
proof -
  assume "p \<in> set vs"
  then obtain xs ys where "vs = xs @ p # ys" by (auto dest: split_list)
  then show ?thesis by (cases p) simp
qed

fun tag_keys :: "(string \<times> string) option \<Rightarrow> string list" where
  "tag_keys None = []"
| "tag_keys (Some (k, name)) = [k]"

text \<open>The keys that objects of a type can have.\<close>

fun ty_keys :: "ty \<Rightarrow> string list" where
  "ty_keys (FStruct tag fs) =
     tag_keys tag @ concat (map (\<lambda>f. if f_flat f then ty_keys (f_ty f) else [f_name f]) fs)"
| "ty_keys (FOpt t) = ty_keys t"
| "ty_keys (FTagged tag variants) = tag # concat (map (\<lambda>p. ty_keys (snd p)) variants)"
| "ty_keys (FAdjacent tag content variants) = [tag, content]"
| "ty_keys (FUntagged ts) = concat (map ty_keys ts)"
| "ty_keys t = []"

definition field_keys :: "field \<Rightarrow> string list" where
  "field_keys f = (if f_flat f then ty_keys (f_ty f) else [f_name f])"

definition extra_ok :: "string list \<Rightarrow> field \<Rightarrow> val \<Rightarrow> bool" where
  "extra_ok ks f v = (f_flat f \<longrightarrow> (case (f_ty f, v) of
     (FMap k t, VMap kvs) \<Rightarrow> list_all (\<lambda>kv. fst kv \<notin> set ks) kvs | _ \<Rightarrow> True))"

fun has_type :: "serde_env \<Rightarrow> ty \<Rightarrow> val \<Rightarrow> bool" where
  "has_type E (FText k) v = (case v of VText s \<Rightarrow> text_ok E k s | _ \<Rightarrow> False)"
| "has_type E FBool v = (case v of VBool b \<Rightarrow> True | _ \<Rightarrow> False)"
| "has_type E (FInt lo hi) v = (case v of VInt i \<Rightarrow> lo \<le> i \<and> i \<le> hi | _ \<Rightarrow> False)"
| "has_type E (FDuration unit) v = (case v of VInt i \<Rightarrow> 0 \<le> i \<and> i mod unit = 0 \<and> i div unit \<le> MAX_SAFE | _ \<Rightarrow> False)"
| "has_type E (FUnits names) v = (case v of VUnit s \<Rightarrow> s \<in> set names | _ \<Rightarrow> False)"
| "has_type E FJson v = (case v of VJson j \<Rightarrow> True | _ \<Rightarrow> False)"
| "has_type E (FOpaque name) v = (case v of VJson j \<Rightarrow> opaque_ok E name j | _ \<Rightarrow> False)"
| "has_type E (FOpt t) v = (case v of VNone \<Rightarrow> True | VSome w \<Rightarrow> has_type E t w \<and> ser t w \<noteq> Ok JNull | _ \<Rightarrow> False)"
| "has_type E (FWith t) v = has_type E t v"
| "has_type E (FVec t) v = (case v of VVec vs \<Rightarrow> \<forall>w\<in>set vs. has_type E t w | _ \<Rightarrow> False)"
| "has_type E (FMap k t) v = (case v of
     VMap kvs \<Rightarrow> bt_ok kvs \<and> (\<forall>kv\<in>set kvs. text_ok E k (fst kv) \<and> has_type E t (snd kv)) | _ \<Rightarrow> False)"
| "has_type E (FStruct tag fs) v = (case v of
     VStruct vs \<Rightarrow> list_all2 (\<lambda>f w. has_type E (f_ty f) w) fs vs
       \<and> list_all2 (extra_ok (tag_keys tag @ concat (map field_keys fs))) fs vs
   | _ \<Rightarrow> False)"
| "has_type E (FTagged tag variants) v = (case v of
     VVariant i w \<Rightarrow> i < length variants \<and> (\<forall>p\<in>set variants. p = variants ! i \<longrightarrow> has_type E (snd p) w) | _ \<Rightarrow> False)"
| "has_type E (FAdjacent tag content variants) v = (case v of
     VVariant i w \<Rightarrow> i < length variants \<and> (\<forall>p\<in>set variants. p = variants ! i \<longrightarrow> has_type E (snd p) w) | _ \<Rightarrow> False)"
| "has_type E (FUntagged ts) v = (case v of
     VVariant i w \<Rightarrow> i < length ts \<and> (\<forall>t\<in>set ts. t = ts ! i \<longrightarrow> has_type E t w) | _ \<Rightarrow> False)"
| "has_type E (FSingle t) v = has_type E t v"
| "has_type E (FV1Pdu t) v = has_type E t v"
| "has_type E (FMapOfEmpty k) v = (case v of
     VVec vs \<Rightarrow> sorted_wrt (<) (map text_of vs) \<and> (\<forall>w\<in>set vs. case w of VText s \<Rightarrow> text_ok E k s | _ \<Rightarrow> False)
   | _ \<Rightarrow> False)"
| "has_type E (FEmptyNone t) v = (case v of
     VNone \<Rightarrow> True
   | VSome w \<Rightarrow> has_type E t w \<and> (case ser t w of Ok (JString s) \<Rightarrow> s \<noteq> [] | _ \<Rightarrow> False)
   | _ \<Rightarrow> False)"

section \<open>Types whose values survive\<close>

text \<open>What is read from an object depends on the keys of the type only.\<close>

fun opt_inner :: "ty \<Rightarrow> ty" where
  "opt_inner (FOpt t) = t"
| "opt_inner t = t"

lemma size_opt_inner: "size (opt_inner t) \<le> size t"
  by (cases t) auto

lemma size_opt_inner_member [termination_simp]: "f \<in> set fs \<Longrightarrow> size (opt_inner (f_ty f)) < Suc (size_list size fs)"
  using size_opt_inner[of "f_ty f"] size_f_ty_member[of f fs] by linarith

fun closed :: "ty \<Rightarrow> bool" where
  "closed (FStruct tag fs) = (\<forall>f\<in>set fs. f_flat f \<longrightarrow> closed (opt_inner (f_ty f)))"
| "closed (FTagged tag variants) = (\<forall>p\<in>set variants. closed (snd p))"
| "closed (FAdjacent tag content variants) = True"
| "closed (FUntagged ts) = (\<forall>t\<in>set ts. closed t)"
| "closed t = False"

text \<open>The type cannot be read from an object without its keys.\<close>

fun required :: "ty \<Rightarrow> bool" where
  "required (FStruct tag fs) = (\<exists>f\<in>set fs. if f_flat f then required (f_ty f) else is_err (absent f))"
| "required (FTagged tag variants) = True"
| "required (FAdjacent tag content variants) = True"
| "required (FUntagged ts) = (\<forall>t\<in>set ts. required t)"
| "required t = False"

lemma size_zip_member [termination_simp]: "(k, f) \<in> set (zip ks fs) \<Longrightarrow> size (f_ty f) < Suc (size_list size fs)"
  by (auto dest: set_zip_rightD intro: size_f_ty_member)

text \<open>The only value of the type that is skipped.\<close>

fun skip_only :: "skip \<Rightarrow> ty \<Rightarrow> val option" where
  "skip_only SkipNone t = Some VNone"
| "skip_only SkipEmpty t = (case t of FText k \<Rightarrow> Some (VText []) | FVec t' \<Rightarrow> Some (VVec []) | FMap k t' \<Rightarrow> Some (VMap [])
     | FMapOfEmpty k \<Rightarrow> Some (VVec []) | _ \<Rightarrow> None)"
| "skip_only (SkipEq d) t = Some d"
| "skip_only (SkipAll ks) t = (case t of
     FStruct tag fs \<Rightarrow> map_option VStruct (those (map2 (\<lambda>k f. case k of None \<Rightarrow> None | Some k' \<Rightarrow> skip_only k' (f_ty f)) ks fs))
   | _ \<Rightarrow> None)"
| "skip_only NeverSkip t = None"

definition skip_ok :: "field \<Rightarrow> bool" where
  "skip_ok f \<longleftrightarrow> f_skip f = NeverSkip
     \<or> (if f_flat f then f_skip f = SkipNone \<and> f_ty f \<noteq> opt_inner (f_ty f)
        else (case skip_only (f_skip f) (f_ty f) of Some d \<Rightarrow> absent f = Ok d | None \<Rightarrow> False))"

definition flat_ok :: "field \<Rightarrow> bool" where
  "flat_ok f \<longleftrightarrow> (f_flat f \<longrightarrow> closed (opt_inner (f_ty f)) \<and> (f_ty f \<noteq> opt_inner (f_ty f) \<longrightarrow> required (opt_inner (f_ty f))))"

fun is_map_ty :: "ty \<Rightarrow> bool" where
  "is_map_ty (FMap k t) = True"
| "is_map_ty _ = False"

text \<open>The last field may collect all the other entries.\<close>

definition flats_ok :: "field list \<Rightarrow> bool" where
  "flats_ok fs \<longleftrightarrow> list_all flat_ok fs
     \<or> (fs \<noteq> [] \<and> list_all flat_ok (butlast fs) \<and> f_flat (last fs) \<and> is_map_ty (f_ty (last fs)) \<and> f_skip (last fs) = NeverSkip
        \<and> list_all (\<lambda>g. f_flat g \<longrightarrow> set (ty_keys (f_ty g)) \<subseteq> set (consumed (f_ty g))) (butlast fs))"

datatype json_kind = KNull | KBool | KNumber | KString | KArray | KObject

fun kind_of :: "json \<Rightarrow> json_kind" where
  "kind_of JNull = KNull"
| "kind_of (JBool b) = KBool"
| "kind_of (JNumber n) = KNumber"
| "kind_of (JString s) = KString"
| "kind_of (JArray js) = KArray"
| "kind_of (JObject m) = KObject"

text \<open>The one kind of JSON value that a type is written as and read from.\<close>

fun ty_kind :: "ty \<Rightarrow> json_kind option" where
  "ty_kind (FText k) = Some KString"
| "ty_kind FBool = Some KBool"
| "ty_kind (FInt lo hi) = Some KNumber"
| "ty_kind (FDuration unit) = Some KNumber"
| "ty_kind (FUnits names) = Some KString"
| "ty_kind (FVec t) = Some KArray"
| "ty_kind (FMap k t) = Some KObject"
| "ty_kind (FStruct tag fs) = Some KObject"
| "ty_kind (FTagged tag variants) = Some KObject"
| "ty_kind (FAdjacent tag content variants) = Some KObject"
| "ty_kind _ = None"

text \<open>The type reads no value that is written as the other type.\<close>

definition rejects :: "ty \<Rightarrow> ty \<Rightarrow> bool" where
  "rejects t t' \<longleftrightarrow>
     (case (ty_kind t, ty_kind t') of (Some k, Some k') \<Rightarrow> k \<noteq> k' | _ \<Rightarrow> False)
     \<or> (closed t' \<and> (case t of
          FStruct tag (f # fs) \<Rightarrow> \<not> f_flat f \<and> is_err (absent f) \<and> f_name f \<notin> set (ty_keys t')
        | FTagged tag variants \<Rightarrow> tag \<notin> set (ty_keys t')
        | _ \<Rightarrow> False))"

fun apart :: "ty list \<Rightarrow> bool" where
  "apart [] = True"
| "apart (t # ts) = (list_all (rejects t) ts \<and> apart ts)"

fun ty_ok :: "ty \<Rightarrow> bool" where
  "ty_ok (FInt lo hi) = (- (2 ^ 63) \<le> lo \<and> hi < 2 ^ 64)"
| "ty_ok (FDuration unit) = (0 < unit)"
| "ty_ok (FOpt t) = ty_ok t"
| "ty_ok (FWith t) = ty_ok t"
| "ty_ok (FVec t) = ty_ok t"
| "ty_ok (FMap k t) = ty_ok t"
| "ty_ok (FSingle t) = ty_ok t"
| "ty_ok (FV1Pdu t) = ty_ok t"
| "ty_ok (FEmptyNone t) = ty_ok t"
| "ty_ok (FStruct tag fs) =
     ((\<forall>f\<in>set fs. ty_ok (f_ty f)) \<and> list_all skip_ok fs \<and> flats_ok fs \<and> (tag = None \<or> list_all flat_ok fs)
      \<and> distinct (tag_keys tag @ concat (map (\<lambda>f. remdups (field_keys f)) fs)))"
| "ty_ok (FTagged tag variants) =
     ((\<forall>p\<in>set variants. ty_ok (snd p) \<and> closed (snd p) \<and> tag \<notin> set (ty_keys (snd p))) \<and> distinct (map fst variants))"
| "ty_ok (FAdjacent tag content variants) =
     ((\<forall>p\<in>set variants. ty_ok (snd p)) \<and> distinct (map fst variants) \<and> tag \<noteq> content)"
| "ty_ok (FUntagged ts) = ((\<forall>t\<in>set ts. ty_ok t) \<and> apart ts)"
| "ty_ok t = True"

section \<open>Objects\<close>

lemma get_without_keys [simp]: "bt_get (without_keys ks m) k = (if k \<in> set ks then None else bt_get m k)"
  by (induction m) (auto simp: without_keys_def)

lemma bt_ok_without_keys [simp]: "bt_ok m \<Longrightarrow> bt_ok (without_keys ks m)"
  by (simp add: without_keys_def bt_ok_filter)

lemma get_extend_object:
  "bt_ok m \<Longrightarrow> bt_ok o' \<Longrightarrow> bt_get (extend_object m o') k = (case bt_get o' k of Some j \<Rightarrow> Some j | None \<Rightarrow> bt_get m k)"
  by (simp add: extend_object_def bt.get_fold_insert map_of_rev_distinct bt_ok_distinct)

lemma bt_ok_extend_object [simp]: "bt_ok m \<Longrightarrow> bt_ok (extend_object m o')"
  by (simp add: extend_object_def bt.fold_insert_invar)

lemma string_member_cong: "bt_get m k = bt_get m' k \<Longrightarrow> string_member k m = string_member k m'"
  by (simp add: string_member_def)

lemma opt_inner_opt: "t = FOpt (opt_inner t) \<or> opt_inner t = t"
  by (cases t) auto

lemma ty_keys_opt_inner [simp]: "ty_keys (opt_inner t) = ty_keys t"
  by (cases t) auto

lemma closed_not_opt: "closed t \<Longrightarrow> opt_inner t = t"
  by (cases t) auto

lemma de_flat_inner:
  "de_flat E t rest = (if opt_inner t = t then de E t (JObject rest) else result_option (de E (opt_inner t) (JObject rest)))"
  by (cases t) auto

lemma size_ty_member: "t \<in> set ts \<Longrightarrow> size t < Suc (size_list size ts)"
  by (auto simp: less_Suc_eq_le intro: size_list_estimation')

section \<open>What a type reads depends on its keys\<close>

abbreviation agree_on :: "string list \<Rightarrow> (string \<times> json) list \<Rightarrow> (string \<times> json) list \<Rightarrow> bool" where
  "agree_on ks m m' \<equiv> \<forall>k\<in>set ks. bt_get m k = bt_get m' k"

definition flat_keys :: "field list \<Rightarrow> string list" where
  "flat_keys fs = concat (map (\<lambda>f. if f_flat f then ty_keys (f_ty f) else []) fs)"

lemma own_names_simps [simp]:
  "own_names [] = []" "own_names (f # fs) = (if f_flat f then own_names fs else f_name f # own_names fs)"
  by (simp_all add: own_names_def)

lemma flat_keys_simps [simp]:
  "flat_keys [] = []" "flat_keys (f # fs) = (if f_flat f then ty_keys (f_ty f) else []) @ flat_keys fs"
  by (simp_all add: flat_keys_def)

lemma de_fields_frame:
  assumes "\<And>f m m'. f \<in> set fs \<Longrightarrow> f_flat f \<Longrightarrow> agree_on (ty_keys (f_ty f)) m m' \<Longrightarrow> de_flat E (f_ty f) m = de_flat E (f_ty f) m'"
    and "agree_on (own_names fs) m m'" "agree_on (flat_keys fs) r r'"
  shows "de_fields E fs m r = de_fields E fs m' r'"
  using assms
proof (induction fs arbitrary: r r')
  case (Cons f fs)
  let ?r = "\<lambda>r. if f_flat f then without_keys (consumed (f_ty f)) r else r"
  have "de_field E f m r = de_field E f m' r'"
    using Cons.prems(1)[of f r r'] Cons.prems(2,3) by (auto simp: ball_Un split: if_splits)
  moreover have "de_fields E fs m (?r r) = de_fields E fs m' (?r r')"
    using Cons.prems by (intro Cons.IH) (auto split: if_splits)
  ultimately show ?case by simp
qed simp

lemma de_frame: "closed t \<Longrightarrow> agree_on (ty_keys t) m m' \<Longrightarrow> de E t (JObject m) = de E t (JObject m')"
proof (induction t arbitrary: m m' rule: measure_induct_rule[of size])
  case (less t)
  show ?case
  proof (cases t)
    case (FStruct tag fs)
    have "de_fields E fs m (without_keys (own_names fs) m) = de_fields E fs m' (without_keys (own_names fs) m')"
    proof (rule de_fields_frame)
      show "agree_on (own_names fs) m m'"
        using less.prems(2) by (auto simp: FStruct own_names_def)
      show "agree_on (flat_keys fs) (without_keys (own_names fs) m) (without_keys (own_names fs) m')"
        using less.prems(2) by (auto simp: FStruct flat_keys_def split: if_splits)
      fix f r r'
      assume f: "f \<in> set fs" "f_flat f" "agree_on (ty_keys (f_ty f)) r r'"
      have "closed (opt_inner (f_ty f))" using less.prems(1) f by (simp add: FStruct)
      moreover have "size (opt_inner (f_ty f)) < size t"
        using size_opt_inner_member[OF f(1)] by (simp add: FStruct)
      ultimately have "de E (opt_inner (f_ty f)) (JObject r) = de E (opt_inner (f_ty f)) (JObject r')"
        using less.IH f(3) by simp
      then show "de_flat E (f_ty f) r = de_flat E (f_ty f) r'"
        by (auto simp: de_flat_inner simp del: de_flat.simps)
    qed
    then show ?thesis by (simp add: FStruct)
  next
    case (FTagged tag variants)
    have tag: "string_member tag m = string_member tag m'"
      using less.prems(2) by (intro string_member_cong) (simp add: FTagged)
    have "de_variant E i vs name (JObject (without_keys [tag] m)) = de_variant E i vs name (JObject (without_keys [tag] m'))"
      if vs: "set vs \<subseteq> set variants" for vs i name
      using vs
    proof (induction vs arbitrary: i)
      case (Cons p vs)
      obtain n t' where p: "p = (n, t')" by (cases p)
      have "closed t'" "agree_on (ty_keys t') m m'"
        using less.prems Cons.prems by (auto simp: FTagged p)
      moreover have "size t' < size t"
        using size_snd_member[of p variants] Cons.prems by (simp add: FTagged p)
      ultimately have "de E t' (JObject (without_keys [tag] m)) = de E t' (JObject (without_keys [tag] m'))"
        by (intro less.IH) auto
      then show ?case using Cons by (simp add: p)
    qed simp
    then show ?thesis by (simp add: FTagged tag)
  next
    case (FAdjacent tag content variants)
    have "string_member tag m = string_member tag m'"
      using less.prems(2) by (intro string_member_cong) (simp add: FAdjacent)
    then show ?thesis using less.prems(2) by (simp add: FAdjacent)
  next
    case (FUntagged ts)
    have "de_untagged E i us (JObject m) = de_untagged E i us (JObject m')" if us: "set us \<subseteq> set ts" for us i
      using us
    proof (induction us arbitrary: i)
      case (Cons u us)
      have "size u < size t" using size_ty_member[of u ts] Cons.prems by (simp add: FUntagged)
      moreover have "closed u" "agree_on (ty_keys u) m m'" using less.prems Cons.prems by (auto simp: FUntagged)
      ultimately have "de E u (JObject m) = de E u (JObject m')" by (intro less.IH)
      then show ?case using Cons by (simp split: result.splits)
    qed simp
    then show ?thesis by (simp add: FUntagged)
  qed (use less.prems in auto)
qed

section \<open>What a type writes\<close>

lemma flatten_into_Ok:
  assumes "flatten_into j m = Ok m'" "bt_ok m" "\<And>o'. j = JObject o' \<Longrightarrow> bt_ok o'"
  shows "bt_ok m' \<and> (\<forall>k. bt_get m' k = (case j of JObject o' \<Rightarrow> (case bt_get o' k of Some v \<Rightarrow> Some v | None \<Rightarrow> bt_get m k) | _ \<Rightarrow> bt_get m k))"
  using assms by (auto simp: flatten_into_def get_extend_object split: json.splits)

abbreviation keys_in :: "(string \<times> json) list \<Rightarrow> string set \<Rightarrow> bool" where
  "keys_in m K \<equiv> \<forall>k. k \<notin> K \<longrightarrow> bt_get m k = None"

lemma ser_fields_keys:
  assumes "\<And>f v j. f \<in> set fs \<Longrightarrow> f_flat f \<Longrightarrow> ser (f_ty f) v = Ok j \<Longrightarrow>
      j = JNull \<or> (\<exists>o'. j = JObject o' \<and> bt_ok o' \<and> keys_in o' (set (ty_keys (f_ty f))))"
    and "ser_fields fs vs m = Ok m'" "bt_ok m" "keys_in m K"
  shows "bt_ok m' \<and> keys_in m' (K \<union> set (own_names fs) \<union> set (flat_keys fs))"
  using assms
proof (induction fs arbitrary: vs m K)
  case Nil
  then show ?case by (cases vs) auto
next
  case (Cons f fs)
  obtain name t sk d flat where f: "f = Field name t sk d flat" by (cases f)
  obtain v vs' where vs: "vs = v # vs'" using Cons.prems(2) by (cases vs) (auto simp: f)
  have IH: "bt_ok m' \<and> keys_in m' (K' \<union> set (own_names fs) \<union> set (flat_keys fs))"
    if "ser_fields fs vs' m1 = Ok m'" "bt_ok m1" "keys_in m1 K'" for K' m1
    by (rule Cons.IH[OF Cons.prems(1) that]) simp_all
  show ?case
  proof (cases "skipped sk v")
    case True
    then show ?thesis using IH[of m K] Cons.prems(2-4) by (auto simp: f vs)
  next
    case False
    obtain j m1 where j: "ser t v = Ok j" "(if flat then flatten_into j m else Ok (bt_insert name j m)) = Ok m1"
        "ser_fields fs vs' m1 = Ok m'"
      using Cons.prems(2) False by (auto simp: res_simps f vs)
    show ?thesis
    proof (cases flat)
      case True
      have jt: "j = JNull \<or> (\<exists>o'. j = JObject o' \<and> bt_ok o' \<and> keys_in o' (set (ty_keys t)))"
        using Cons.prems(1)[of f v j] True j(1) by (simp add: f)
      then have "bt_ok m1 \<and> (\<forall>k. bt_get m1 k = (case j of JObject o' \<Rightarrow> (case bt_get o' k of Some v \<Rightarrow> Some v | None \<Rightarrow> bt_get m k) | _ \<Rightarrow> bt_get m k))"
        using flatten_into_Ok[of j m m1] j(2) True Cons.prems(3) by auto
      moreover from this have "keys_in m1 (K \<union> set (ty_keys t))"
        using jt Cons.prems(4) by (auto split: option.splits)
      ultimately show ?thesis using IH[OF j(3), of "K \<union> set (ty_keys t)"] True by (simp add: f Un_ac)
    next
      case False
      then have "bt_ok m1" "keys_in m1 (K \<union> {name})" using j(2) Cons.prems(3,4) by auto
      then show ?thesis using IH[OF j(3), of "K \<union> {name}"] False by (simp add: f Un_ac)
    qed
  qed
qed

lemma ser_variant_Ok:
  "ser_variant variants i v = Ok (name, j) \<Longrightarrow> i < length variants \<and> fst (variants ! i) = name \<and> ser (snd (variants ! i)) v = Ok j"
  by (induction variants arbitrary: i) (auto simp: res_simps split: nat.splits)

lemma ser_untagged_Ok: "ser_untagged ts i v = Ok j \<Longrightarrow> i < length ts \<and> ser (ts ! i) v = Ok j"
  by (induction ts arbitrary: i) (auto split: nat.splits)

lemma ser_keys:
  "closed t \<Longrightarrow> ser t v = Ok j \<Longrightarrow> \<exists>m. j = JObject m \<and> bt_ok m \<and> keys_in m (set (ty_keys t))"
proof (induction t arbitrary: v j rule: measure_induct_rule[of size])
  case (less t)
  have variant: "\<exists>p m. p \<in> set variants \<and> bt_ok m \<and> keys_in m (set (ty_keys (snd p))) \<and> j = JObject (bt_insert tag (JString (fst p)) m)"
    if t: "t = FTagged tag variants" for tag variants
  proof -
    obtain i w name j' where w: "v = VVariant i w" "ser_variant variants i w = Ok (name, j')" "add_tag tag name j' = Ok j"
      using less.prems(2) by (auto simp: t res_simps split: val.splits)
    have p: "variants ! i \<in> set variants" "fst (variants ! i) = name" "ser (snd (variants ! i)) w = Ok j'"
      using ser_variant_Ok[OF w(2)] by auto
    obtain m where "j' = JObject m" "bt_ok m" "keys_in m (set (ty_keys (snd (variants ! i))))"
      using less.IH[OF _ _ p(3)] size_snd_member[OF p(1)] less.prems(1) p(1) by (auto simp: t)
    then show ?thesis using w(3) p by (intro exI[of _ "variants ! i"] exI[of _ m]) (auto simp: add_tag_def)
  qed
  show ?case
  proof (cases t)
    case (FStruct tag fs)
    obtain vs m where m: "v = VStruct vs" "ser_fields fs vs [] = Ok m"
        "j = JObject (case tag of None \<Rightarrow> m | Some (k, name) \<Rightarrow> bt_insert k (JString name) m)"
      using less.prems(2) by (auto simp: FStruct res_simps split: val.splits)
    have "bt_ok m \<and> keys_in m ({} \<union> set (own_names fs) \<union> set (flat_keys fs))"
    proof (rule ser_fields_keys[OF _ m(2)])
      fix f w j'
      assume f: "f \<in> set fs" "f_flat f" "ser (f_ty f) w = Ok j'"
      have c: "closed (opt_inner (f_ty f))" "size (opt_inner (f_ty f)) < size t"
        using less.prems(1) f size_opt_inner_member[OF f(1)] by (auto simp: FStruct)
      show "j' = JNull \<or> (\<exists>o'. j' = JObject o' \<and> bt_ok o' \<and> keys_in o' (set (ty_keys (f_ty f))))"
      proof (cases "f_ty f = opt_inner (f_ty f)")
        case True
        then show ?thesis using less.IH[OF c(2,1), of w j'] f(3) by simp
      next
        case False
        then obtain t' where t': "f_ty f = FOpt t'" using opt_inner_opt by metis
        show ?thesis using less.IH[OF c(2,1), of _ j'] f(3) by (auto simp: t' split: val.splits)
      qed
    qed auto
    moreover have "set (ty_keys t) = set (own_names fs) \<union> set (flat_keys fs) \<union> set (tag_keys tag)"
      by (auto simp: FStruct own_names_def flat_keys_def)
    ultimately show ?thesis using m(3) by (cases tag) auto
  next
    case (FTagged tag variants)
    obtain p m where "p \<in> set variants" "bt_ok m" "keys_in m (set (ty_keys (snd p)))" "j = JObject (bt_insert tag (JString (fst p)) m)"
      using variant[OF FTagged] by blast
    then show ?thesis by (auto simp: FTagged)
  next
    case (FAdjacent tag content variants)
    then show ?thesis using less.prems by (auto simp: res_simps object_of_def bt_get_of_list split: val.splits)
  next
    case (FUntagged ts)
    obtain i w where w: "v = VVariant i w" "ser_untagged ts i w = Ok j"
      using less.prems(2) by (auto simp: FUntagged split: val.splits)
    have p: "ts ! i \<in> set ts" "ser (ts ! i) w = Ok j" using ser_untagged_Ok[OF w(2)] by auto
    then have "\<exists>m. j = JObject m \<and> bt_ok m \<and> keys_in m (set (ty_keys (ts ! i)))"
      using less.IH[of "ts ! i" w j] size_ty_member[OF p(1)] less.prems(1) by (simp add: FUntagged)
    then show ?thesis using p(1) by (auto simp: FUntagged)
  qed (use less.prems(1) in auto)
qed

section \<open>Objects without the keys of a type\<close>

lemma absent_neq_Panic: "absent f \<noteq> Panic"
  by (cases f rule: absent.cases) (auto split: ty.splits)

lemma result_option_simps [simp]:
  "result_option r = Panic \<longleftrightarrow> r = Panic" "result_option r \<noteq> Err e"
  by (cases r; simp add: result_option_def)+

lemma de_fields_nothing:
  assumes "\<And>f r. f \<in> set fs \<Longrightarrow> f_flat f \<Longrightarrow> keys_in r (- set (ty_keys (f_ty f))) \<Longrightarrow>
      de_flat E (f_ty f) r \<noteq> Panic \<and> (required (f_ty f) \<longrightarrow> is_err (de_flat E (f_ty f) r))"
    and "keys_in m (- set (own_names fs))" "keys_in r (- set (flat_keys fs))"
  shows "de_fields E fs m r \<noteq> Panic
    \<and> ((\<exists>f\<in>set fs. if f_flat f then required (f_ty f) else is_err (absent f)) \<longrightarrow> is_err (de_fields E fs m r))"
  using assms
proof (induction fs arbitrary: r)
  case (Cons f fs)
  let ?r = "if f_flat f then without_keys (consumed (f_ty f)) r else r"
  have IH: "de_fields E fs m ?r \<noteq> Panic
    \<and> ((\<exists>f\<in>set fs. if f_flat f then required (f_ty f) else is_err (absent f)) \<longrightarrow> is_err (de_fields E fs m ?r))"
    by (rule Cons.IH) (use Cons.prems in \<open>auto split: if_splits\<close>)
  have "de_field E f m r \<noteq> Panic \<and> ((if f_flat f then required (f_ty f) else is_err (absent f)) \<longrightarrow> is_err (de_field E f m r))"
    using Cons.prems(1)[of f r] Cons.prems(2,3) absent_neq_Panic[of f] by (auto split: if_splits simp del: de_flat.simps)
  then show ?case using IH
    by (cases "de_field E f m r"; cases "de_fields E fs m ?r") (auto simp del: de_field.simps split: if_splits)
qed simp

lemma de_nothing:
  "closed t \<Longrightarrow> keys_in m (- set (ty_keys t)) \<Longrightarrow> de E t (JObject m) \<noteq> Panic \<and> (required t \<longrightarrow> is_err (de E t (JObject m)))"
proof (induction t arbitrary: m rule: measure_induct_rule[of size])
  case (less t)
  show ?case
  proof (cases t)
    case (FStruct tag fs)
    have "de_fields E fs m (without_keys (own_names fs) m) \<noteq> Panic
      \<and> ((\<exists>f\<in>set fs. if f_flat f then required (f_ty f) else is_err (absent f))
          \<longrightarrow> is_err (de_fields E fs m (without_keys (own_names fs) m)))"
    proof (rule de_fields_nothing)
      fix f r
      assume f: "f \<in> set fs" "f_flat f" "keys_in r (- set (ty_keys (f_ty f)))"
      have "closed (opt_inner (f_ty f))" "size (opt_inner (f_ty f)) < size t"
        using less.prems(1) f size_opt_inner_member[OF f(1)] by (auto simp: FStruct)
      then have IH: "de E (opt_inner (f_ty f)) (JObject r) \<noteq> Panic \<and> (required (opt_inner (f_ty f)) \<longrightarrow> is_err (de E (opt_inner (f_ty f)) (JObject r)))"
        using less.IH f(3) by simp
      show "de_flat E (f_ty f) r \<noteq> Panic \<and> (required (f_ty f) \<longrightarrow> is_err (de_flat E (f_ty f) r))"
        using IH by (cases "f_ty f") auto
    qed (use less.prems(2) in \<open>auto simp: FStruct own_names_def flat_keys_def split: if_splits\<close>)
    then show ?thesis
      by (cases "de_fields E fs m (without_keys (own_names fs) m)") (auto simp: FStruct)
  next
    case (FTagged tag variants)
    then show ?thesis using less.prems(2) by (simp add: string_member_def)
  next
    case (FAdjacent tag content variants)
    then show ?thesis using less.prems(2) by (simp add: string_member_def)
  next
    case (FUntagged ts)
    have "de_untagged E i us (JObject m) \<noteq> Panic \<and> ((\<forall>u\<in>set us. required u) \<longrightarrow> is_err (de_untagged E i us (JObject m)))"
      if us: "set us \<subseteq> set ts" for us i
      using us
    proof (induction us arbitrary: i)
      case (Cons u us)
      have "size u < size t" using size_ty_member[of u ts] Cons.prems by (simp add: FUntagged)
      then have "de E u (JObject m) \<noteq> Panic \<and> (required u \<longrightarrow> is_err (de E u (JObject m)))"
        using less.IH[of u m] less.prems Cons.prems by (auto simp: FUntagged)
      then show ?case using Cons by (cases "de E u (JObject m)") auto
    qed simp
    then show ?thesis by (simp add: FUntagged)
  qed (use less.prems in auto)
qed

section \<open>Enums\<close>

lemma add_tag_kind: "add_tag tag name j = Ok j' \<Longrightarrow> kind_of j' = KObject"
  by (cases j) (auto simp: add_tag_def)

lemma ser_kind: "ty_kind t = Some k \<Longrightarrow> ser t v = Ok j \<Longrightarrow> kind_of j = k"
  by (cases t) (auto simp: res_simps object_of_def add_tag_kind split: val.splits if_splits)

lemma de_kind: "ty_kind t = Some k \<Longrightarrow> kind_of j \<noteq> k \<Longrightarrow> is_err (de E t j)"
  by (cases t; cases j) (auto simp: de_int_range_def)

lemma rejects_err:
  assumes "rejects t t'" "ser t' v = Ok j"
  shows "is_err (de E t j)"
proof (cases "\<exists>k k'. ty_kind t = Some k \<and> ty_kind t' = Some k' \<and> k \<noteq> k'")
  case True
  then show ?thesis using ser_kind[OF _ assms(2)] de_kind by metis
next
  case False
  then have c: "closed t'" and r: "case t of
          FStruct tag (f # fs) \<Rightarrow> \<not> f_flat f \<and> is_err (absent f) \<and> f_name f \<notin> set (ty_keys t')
        | FTagged tag variants \<Rightarrow> tag \<notin> set (ty_keys t')
        | _ \<Rightarrow> False"
    using assms(1) by (auto simp: rejects_def split: option.splits)
  obtain m where m: "j = JObject m" "keys_in m (set (ty_keys t'))" using ser_keys[OF c assms(2)] by blast
  show ?thesis
  proof (cases t)
    case (FStruct tag fs)
    then obtain f gs where f: "fs = f # gs" "\<not> f_flat f" "is_err (absent f)" "f_name f \<notin> set (ty_keys t')"
      using r by (auto split: list.splits)
    then show ?thesis using m by (cases "absent f") (auto simp: FStruct)
  qed (use r m in \<open>auto simp: string_member_def\<close>)
qed

lemma de_variant_at:
  "distinct (map fst vs) \<Longrightarrow> i < length vs \<Longrightarrow> de E (snd (vs ! i)) j = Ok w \<Longrightarrow>
   de_variant E k vs (fst (vs ! i)) j = Ok (VVariant (k + i) w)"
proof (induction vs arbitrary: i k)
  case (Cons p vs)
  obtain n t where p: "p = (n, t)" by (cases p)
  show ?case
  proof (cases i)
    case 0
    then show ?thesis using Cons.prems(3) by (simp add: p)
  next
    case (Suc i')
    then have "n \<noteq> fst (vs ! i')" using Cons.prems(1,2) by (auto simp: p)
    then show ?thesis using Cons.IH[of i' "Suc k"] Cons.prems Suc by (simp add: p)
  qed
qed simp

lemma de_untagged_at:
  "apart ts \<Longrightarrow> i < length ts \<Longrightarrow> ser (ts ! i) w = Ok j \<Longrightarrow> de E (ts ! i) j = Ok w \<Longrightarrow>
   de_untagged E k ts j = Ok (VVariant (k + i) w)"
proof (induction ts arbitrary: i k)
  case (Cons t ts)
  show ?case
  proof (cases i)
    case 0
    then show ?thesis using Cons.prems(4) by simp
  next
    case (Suc i')
    then have "is_err (de E t j)" using Cons.prems by (auto simp: list_all_iff intro: rejects_err)
    moreover have "de_untagged E (Suc k) ts j = Ok (VVariant (Suc k + i') w)"
      using Cons.IH[of i' "Suc k"] Cons.prems Suc by simp
    ultimately show ?thesis by (cases "de E t j") (auto simp: Suc)
  qed
qed simp

lemma ser_variant_at: "i < length vs \<Longrightarrow> ser (snd (vs ! i)) w = Ok j \<Longrightarrow> ser_variant vs i w = Ok (fst (vs ! i), j)"
  by (induction vs arbitrary: i) (auto simp: nth_Cons' res_simps split: nat.splits)

lemma ser_untagged_at: "i < length ts \<Longrightarrow> ser_untagged ts i w = ser (ts ! i) w"
  by (induction ts arbitrary: i) (auto split: nat.splits)

section \<open>Skipped fields\<close>

lemma those_map2_all:
  "those (map2 g ks fs) = Some ds \<Longrightarrow> length ks = length fs \<Longrightarrow> list_all2 (\<lambda>kf d. g (fst kf) (snd kf) = Some d) (zip ks fs) ds"
  by (induction ks fs arbitrary: ds rule: list_induct2') (auto split: option.splits)

lemma skip_only_unique: "has_type E t v \<Longrightarrow> skipped sk v \<Longrightarrow> skip_only sk t = Some d \<Longrightarrow> v = d"
proof (induction sk t arbitrary: v d rule: skip_only.induct)
  case (4 ks t)
  obtain tag fs where t: "t = FStruct tag fs" using "4.prems"(3) by (auto split: ty.splits)
  obtain vs where vs: "v = VStruct vs" "list_all2 (\<lambda>f w. has_type E (f_ty f) w) fs vs"
    using "4.prems"(1) by (auto simp: t split: val.splits)
  let ?g = "\<lambda>k f. case k of None \<Rightarrow> None | Some k' \<Rightarrow> skip_only k' (f_ty f)"
  obtain ds where ds: "those (map2 ?g ks fs) = Some ds" "d = VStruct ds" using "4.prems"(3) by (auto simp: t)
  have sk: "list_all2 (\<lambda>k v. case k of None \<Rightarrow> True | Some k' \<Rightarrow> skipped k' v) ks vs" using "4.prems"(2) by (simp add: vs)
  have len: "length ks = length fs" using list_all2_lengthD[OF sk] list_all2_lengthD[OF vs(2)] by simp
  have all: "list_all2 (\<lambda>kf d. ?g (fst kf) (snd kf) = Some d) (zip ks fs) ds" using those_map2_all[OF ds(1) len] .
  have "vs = ds"
  proof (rule nth_equalityI)
    show "length vs = length ds" using list_all2_lengthD[OF all] list_all2_lengthD[OF vs(2)] len by simp
    fix i
    assume i: "i < length vs"
    then have i': "i < length ks" "i < length fs" using len list_all2_lengthD[OF vs(2)] by auto
    have "?g (ks ! i) (fs ! i) = Some (ds ! i)"
      using list_all2_nthD[OF all, of i] i' nth_zip[OF i'] by (simp cong: option.case_cong)
    then obtain k' where k': "ks ! i = Some k'" "skip_only k' (f_ty (fs ! i)) = Some (ds ! i)" by (auto split: option.splits)
    have mem: "(Some k', fs ! i) \<in> set (zip ks fs)" using i' k'(1) by (metis in_set_zip fst_conv snd_conv)
    show "vs ! i = ds ! i"
      using "4.IH"[OF t mem] list_all2_nthD[OF vs(2) i'(2)] list_all2_nthD[OF sk i'(1)] k' by auto
  qed
  then show ?case by (simp add: vs(1) ds(2))
qed (auto split: ty.splits val.splits)

section \<open>Fields\<close>

lemma consumed_keys: "set (consumed t) \<subseteq> set (ty_keys t)"
  by (induction t rule: consumed.induct) (auto simp: own_names_def)

definition ty_sound :: "serde_env \<Rightarrow> ty \<Rightarrow> bool" where
  "ty_sound E t \<longleftrightarrow> (\<forall>v. has_type E t v \<longrightarrow> (\<exists>j. ser t v = Ok j \<and> de E t j = Ok v))"

text \<open>What a field list writes, \<open>w\<close>, whatever is written before it, and that it is read back from any object with
  these entries.\<close>

definition overlay :: "(string \<times> json) list \<Rightarrow> (string \<times> json) list \<Rightarrow> string \<Rightarrow> json option" where
  "overlay w m k = (case bt_get w k of Some j \<Rightarrow> Some j | None \<Rightarrow> bt_get m k)"

definition fields_sound :: "serde_env \<Rightarrow> field list \<Rightarrow> val list \<Rightarrow> (string \<times> json) list \<Rightarrow> bool" where
  "fields_sound E fs vs w \<longleftrightarrow>
     bt_ok w \<and> keys_in w (set (own_names fs) \<union> set (flat_keys fs))
     \<and> (\<forall>m0. bt_ok m0 \<longrightarrow> (\<exists>m. ser_fields fs vs m0 = Ok m \<and> bt_ok m \<and> (\<forall>k. bt_get m k = overlay w m0 k)))
     \<and> (\<forall>m r. agree_on (own_names fs) m w \<longrightarrow> agree_on (flat_keys fs) r w \<longrightarrow> de_fields E fs m r = Ok vs)"

lemma flat_none:
  assumes "closed t" "required t" "keys_in r (- set (ty_keys t))"
  shows "de_flat E (FOpt t) r = Ok VNone"
  using de_nothing[OF assms(1,3), of E] assms(2) by (cases "de E t (JObject r)") (auto simp: result_option_def)

lemma field_keys_flat: "set (field_keys f) = (if f_flat f then set (ty_keys (f_ty f)) else {f_name f})"
  by (simp add: field_keys_def)

text \<open>A field in front of others whose keys are different: the rest is read as before.\<close>

abbreviation field_apart :: "field \<Rightarrow> field list \<Rightarrow> bool" where
  "field_apart f fs \<equiv> set (field_keys f) \<inter> (set (own_names fs) \<union> set (flat_keys fs)) = {}"

abbreviation next_rest :: "field \<Rightarrow> (string \<times> json) list \<Rightarrow> (string \<times> json) list" where
  "next_rest f r \<equiv> (if f_flat f then without_keys (consumed (f_ty f)) r else r)"

lemma fields_tail:
  assumes "fields_sound E fs vs w" "field_apart f fs" "agree_on (own_names fs) m w" "agree_on (flat_keys fs) r w"
  shows "de_fields E fs m (next_rest f r) = Ok vs"
proof -
  have "agree_on (flat_keys fs) (next_rest f r) w"
    using assms(2,4) consumed_keys[of "f_ty f"] by (auto simp: field_keys_flat split: if_splits)
  then show ?thesis using assms(1,3) by (auto simp: fields_sound_def)
qed

lemma fields_fresh:
  "fields_sound E fs vs w \<Longrightarrow> field_apart f fs \<Longrightarrow> k \<in> set (field_keys f) \<Longrightarrow> bt_get w k = None"
  by (auto simp: fields_sound_def)

lemma fields_sound_nothing:
  assumes IH: "fields_sound E fs vs w" and ap: "field_apart f fs"
    and ser0: "\<And>m0. ser_fields (f # fs) (v # vs) m0 = ser_fields fs vs m0"
    and de0: "\<And>m r. keys_in m (- set (own_names [f])) \<Longrightarrow> keys_in r (- set (flat_keys [f])) \<Longrightarrow> de_field E f m r = Ok v"
  shows "fields_sound E (f # fs) (v # vs) w"
proof -
  have "de_fields E (f # fs) m r = Ok (v # vs)" if a: "agree_on (own_names (f # fs)) m w" "agree_on (flat_keys (f # fs)) r w" for m r
  proof -
    have "de_field E f m r = Ok v"
      using a fields_fresh[OF IH ap] by (intro de0) (auto simp: field_keys_flat split: if_splits)
    moreover have "de_fields E fs m (next_rest f r) = Ok vs"
      using a by (intro fields_tail[OF IH ap]) (auto split: if_splits)
    ultimately show ?thesis by (cases "f_flat f") (simp_all del: de_field.simps)
  qed
  moreover have "keys_in w (set (own_names (f # fs)) \<union> set (flat_keys (f # fs)))" using IH by (auto simp: fields_sound_def)
  ultimately show ?thesis using IH ser0 by (auto simp: fields_sound_def simp del: de_fields.simps)
qed

lemma fields_sound_merge:
  assumes IH: "fields_sound E fs vs w" and ap: "field_apart f fs" and f: "f_flat f" "\<not> skipped (f_skip f) v"
    and ser': "ser (f_ty f) v = Ok (JObject m')" and m': "bt_ok m'" "keys_in m' (set (ty_keys (f_ty f)))"
    and de': "\<And>r. agree_on (ty_keys (f_ty f)) r m' \<Longrightarrow> de_flat E (f_ty f) r = Ok v"
  shows "fields_sound E (f # fs) (v # vs) (extend_object w m')"
proof -
  let ?w = "extend_object w m'"
  have w: "bt_ok w" using IH by (simp add: fields_sound_def)
  have gw: "bt_get ?w k = overlay m' w k" for k using get_extend_object[OF w m'(1)] by (simp add: overlay_def)
  have one: "bt_get m' k = None \<or> bt_get w k = None" for k
    using m'(2) fields_fresh[OF IH ap, of k] f(1) by (cases "k \<in> set (ty_keys (f_ty f))") (auto simp: field_keys_flat)
  have de_all: "de_fields E (f # fs) m r = Ok (v # vs)"
    if a: "agree_on (own_names (f # fs)) m ?w" "agree_on (flat_keys (f # fs)) r ?w" for m r
  proof -
    have "agree_on (ty_keys (f_ty f)) r m'"
      using a(2) f(1) fields_fresh[OF IH ap] by (auto simp: gw overlay_def field_keys_flat split: option.splits)
    then have "de_field E f m r = Ok v" using de' f(1) by simp
    moreover have "bt_get m' k = None" if "k \<in> set (own_names fs) \<union> set (flat_keys fs)" for k
      using that m'(2) ap f(1) by (auto simp: field_keys_flat)
    then have "de_fields E fs m (next_rest f r) = Ok vs"
      using a f(1) by (intro fields_tail[OF IH ap]) (auto simp: gw overlay_def)
    ultimately show ?thesis using f(1) by (simp del: de_field.simps)
  qed
  have "\<exists>m. ser_fields (f # fs) (v # vs) m0 = Ok m \<and> bt_ok m \<and> (\<forall>k. bt_get m k = overlay ?w m0 k)" if m0: "bt_ok m0" for m0
  proof -
    obtain m where m: "ser_fields fs vs (extend_object m0 m') = Ok m" "bt_ok m"
        "\<And>k. bt_get m k = overlay w (extend_object m0 m') k"
      using IH bt_ok_extend_object[OF m0, of m'] by (auto simp: fields_sound_def)
    have "bt_get m k = overlay ?w m0 k" for k
      using m(3)[of k] one[of k] get_extend_object[OF m0 m'(1), of k] by (auto simp: gw overlay_def split: option.splits)
    then show ?thesis using f ser' m(1,2) by (cases f) (auto simp: flatten_into_def)
  qed
  moreover have "keys_in ?w (set (own_names (f # fs)) \<union> set (flat_keys (f # fs)))"
    using IH m' f(1) by (auto simp: gw overlay_def fields_sound_def)
  ultimately show ?thesis using w de_all unfolding fields_sound_def by auto
qed

lemma fields_sound_insert:
  assumes IH: "fields_sound E fs vs w" and ap: "field_apart f fs" and f: "\<not> f_flat f" "\<not> skipped (f_skip f) v"
    and j: "ser (f_ty f) v = Ok j" "de E (f_ty f) j = Ok v"
  shows "fields_sound E (f # fs) (v # vs) (bt_insert (f_name f) j w)"
  unfolding fields_sound_def
proof (intro conjI allI impI)
  let ?w = "bt_insert (f_name f) j w"
  have fresh: "bt_get w (f_name f) = None" using fields_fresh[OF IH ap] f(1) by (simp add: field_keys_flat)
  show "bt_ok ?w" using IH by (simp add: fields_sound_def)
  show "bt_get ?w k = None" if "k \<notin> set (own_names (f # fs)) \<union> set (flat_keys (f # fs))" for k
    using IH f(1) that by (auto simp: fields_sound_def)
  show "\<exists>m. ser_fields (f # fs) (v # vs) m0 = Ok m \<and> bt_ok m \<and> (\<forall>k. bt_get m k = overlay ?w m0 k)" if m0: "bt_ok m0" for m0
  proof -
    obtain m where m: "ser_fields fs vs (bt_insert (f_name f) j m0) = Ok m" "bt_ok m"
        "\<And>k. bt_get m k = overlay w (bt_insert (f_name f) j m0) k"
      using IH bt_ok_insert[OF m0] unfolding fields_sound_def by blast
    have "bt_get m k = overlay ?w m0 k" for k using m(3)[of k] fresh by (auto simp: overlay_def split: option.splits)
    then show ?thesis using f j(1) m(1,2) by (cases f) auto
  qed
  show "de_fields E (f # fs) m r = Ok (v # vs)"
    if a: "agree_on (own_names (f # fs)) m ?w" "agree_on (flat_keys (f # fs)) r ?w" for m r
  proof -
    have "f_name f \<notin> set (own_names fs) \<union> set (flat_keys fs)" using ap f(1) by (simp add: field_keys_flat)
    then have "agree_on (own_names fs) m w" "agree_on (flat_keys fs) r w" using a f(1) by (auto split: if_splits)
    then have "de_fields E fs m (next_rest f r) = Ok vs" by (rule fields_tail[OF IH ap])
    then show ?thesis using a(1) j(2) f(1) by simp
  qed
qed

lemma fields_sound_Cons:
  assumes IH: "fields_sound E fs vs w" and ap: "field_apart f fs"
    and ty: "has_type E (f_ty f) v" and ok: "skip_ok f" "flat_ok f"
    and sound: "ty_sound E (f_ty f)" "ty_sound E (opt_inner (f_ty f))"
  shows "\<exists>w. fields_sound E (f # fs) (v # vs) w"
proof (cases "f_flat f")
  case False
  show ?thesis
  proof (cases "skipped (f_skip f) v")
    case True
    then obtain d where d: "skip_only (f_skip f) (f_ty f) = Some d" "absent f = Ok d"
      using ok(1) False by (cases "f_skip f") (auto simp: skip_ok_def split: option.splits)
    have "v = d" using skip_only_unique[OF ty True d(1)] .
    then have "fields_sound E (f # fs) (v # vs) w"
      using True d(2) False by (intro fields_sound_nothing[OF IH ap]) (cases f; auto simp del: absent.simps)+
    then show ?thesis ..
  next
    case nsk: False
    obtain j where "ser (f_ty f) v = Ok j" "de E (f_ty f) j = Ok v" using sound(1) ty by (auto simp: ty_sound_def)
    then show ?thesis using fields_sound_insert[OF IH ap False nsk] by blast
  qed
next
  case flat: True
  have c: "closed (opt_inner (f_ty f))" using ok(2) flat by (simp add: flat_ok_def)
  show ?thesis
  proof (cases "opt_inner (f_ty f) = f_ty f")
    case True
    have nsk: "\<not> skipped (f_skip f) v" using ok(1) flat True by (auto simp: skip_ok_def)
    obtain j where j: "ser (f_ty f) v = Ok j" "de E (f_ty f) j = Ok v" using sound(1) ty by (auto simp: ty_sound_def)
    obtain m where m: "j = JObject m" "bt_ok m" "keys_in m (set (ty_keys (f_ty f)))" using ser_keys[OF _ j(1)] c True by auto
    have "de_flat E (f_ty f) r = Ok v" if "agree_on (ty_keys (f_ty f)) r m" for r
      using de_frame[of "f_ty f" r m E] that c True j(2) by (simp add: de_flat_inner m(1) del: de_flat.simps)
    then show ?thesis using fields_sound_merge[OF IH ap flat nsk _ m(2,3)] j(1) m(1) by blast
  next
    case False
    then obtain t where t: "f_ty f = FOpt t" using opt_inner_opt by metis
    have req: "required t" using ok(2) flat False by (auto simp: flat_ok_def t)
    have "v = VNone \<or> (\<exists>u. v = VSome u \<and> has_type E t u)" using ty by (auto simp: t split: val.splits)
    then show ?thesis
    proof (elim disjE exE conjE)
      assume v: "v = VNone"
      have "fields_sound E (f # fs) (v # vs) w"
      proof (rule fields_sound_nothing[OF IH ap])
        show "ser_fields (f # fs) (v # vs) m0 = ser_fields fs vs m0" for m0
          using flat t by (cases f) (auto simp: v flatten_into_def)
        show "de_field E f m r = Ok v" if "keys_in r (- set (flat_keys [f]))" for m r
          using flat_none[of t r E] that c req flat by (simp add: t v del: de_flat.simps)
      qed
      then show ?thesis ..
    next
      fix u assume u: "v = VSome u" "has_type E t u"
      obtain j where j: "ser t u = Ok j" "de E t j = Ok u" using sound(2) u(2) by (auto simp: ty_sound_def t)
      obtain m where m: "j = JObject m" "bt_ok m" "keys_in m (set (ty_keys t))" using ser_keys[OF _ j(1)] c by (auto simp: t)
      have "de_flat E (f_ty f) r = Ok v" if "agree_on (ty_keys (f_ty f)) r m" for r
        using de_frame[of t r m E] that j(2) c by (simp add: t m(1) u result_option_def)
      moreover have "\<not> skipped (f_skip f) v" using ok(1) flat u by (auto simp: skip_ok_def)
      ultimately show ?thesis
        using fields_sound_merge[OF IH ap flat _ _ m(2), of v] m(3) j(1) by (auto simp: t u(1) m(1))
    qed
  qed
qed

lemma fields_sound_list:
  assumes "list_all2 (\<lambda>f v. has_type E (f_ty f) v) fs vs" "list_all skip_ok fs" "list_all flat_ok fs"
    and "\<And>f. f \<in> set fs \<Longrightarrow> ty_sound E (f_ty f) \<and> ty_sound E (opt_inner (f_ty f))"
    and "distinct (concat (map (\<lambda>f. remdups (field_keys f)) fs))"
  shows "\<exists>w. fields_sound E fs vs w"
  using assms
proof (induction fs vs rule: list_all2_induct)
  case Nil
  have "fields_sound E [] [] []" by (auto simp: fields_sound_def overlay_def)
  then show ?case ..
next
  case (Cons f fs v vs)
  obtain w where w: "fields_sound E fs vs w" using Cons.IH Cons.prems by (auto simp: list_all_iff)
  have "set (own_names fs) \<union> set (flat_keys fs) \<subseteq> set (concat (map (\<lambda>f. remdups (field_keys f)) fs))"
    by (auto simp: own_names_def flat_keys_def field_keys_flat split: if_splits)
  then have "field_apart f fs" using Cons.prems(4) by auto
  then show ?case using fields_sound_Cons[OF w _ Cons.hyps(1)] Cons.prems by (auto simp: list_all_iff)
qed

section \<open>A last field that collects the other entries\<close>

lemma ser_fields_append:
  "length vs = length fs \<Longrightarrow> ser_fields (fs @ gs) (vs @ ws) m = and_then (ser_fields fs vs m) (ser_fields gs ws)"
proof (induction fs arbitrary: vs m)
  case (Cons f fs)
  obtain v vs' where vs: "vs = v # vs'" "length vs' = length fs" using Cons.prems by (cases vs) auto
  obtain name t sk d flat where f: "f = Field name t sk d flat" by (cases f)
  have "ser_fields (fs @ gs) (vs' @ ws) = (\<lambda>m. and_then (ser_fields fs vs' m) (ser_fields gs ws))"
    using Cons.IH[OF vs(2)] by (simp add: fun_eq_iff)
  then show ?case by (cases "ser t v") (auto simp: vs f and_then_assoc)
qed simp

definition rest_after :: "field list \<Rightarrow> (string \<times> json) list \<Rightarrow> (string \<times> json) list" where
  "rest_after fs r = fold next_rest fs r"

lemma de_fields_append:
  "de_fields E (fs @ gs) m r = and_then (de_fields E fs m r) (\<lambda>vs. and_then (de_fields E gs m (rest_after fs r)) (\<lambda>ws. Ok (vs @ ws)))"
proof (induction fs arbitrary: r)
  case (Cons f fs)
  show ?case
    by (cases "de_field E f m r"; cases "de_fields E fs m (next_rest f r)"; cases "de_fields E gs m (rest_after fs (next_rest f r))")
       (use Cons.IH[of "next_rest f r"] in \<open>auto simp: rest_after_def simp del: de_field.simps\<close>)
next
  case Nil
  show ?case by (cases "de_fields E gs m r") (simp_all add: rest_after_def)
qed

lemma get_rest_after:
  "bt_get (rest_after fs r) k = (if k \<in> set (concat (map (\<lambda>f. if f_flat f then consumed (f_ty f) else []) fs)) then None else bt_get r k)"
  by (induction fs arbitrary: r) (auto simp: rest_after_def)

lemma bt_ok_rest_after: "bt_ok r \<Longrightarrow> bt_ok (rest_after fs r)"
  by (induction fs arbitrary: r) (auto simp: rest_after_def)

section \<open>Writing and reading\<close>

lemma own_flat_disjoint:
  "distinct (concat (map (\<lambda>f. remdups (field_keys f)) fs)) \<Longrightarrow> set (own_names fs) \<inter> set (flat_keys fs) = {}"
proof (induction fs)
  case (Cons f fs)
  have "set (own_names fs) \<union> set (flat_keys fs) \<subseteq> set (concat (map (\<lambda>f. remdups (field_keys f)) fs))"
    by (auto simp: own_names_def flat_keys_def field_keys_flat split: if_splits)
  then show ?case using Cons by (auto simp: field_keys_flat split: if_splits)
qed simp

lemma fields_sound_ser:
  assumes "fields_sound E fs vs w"
  shows "\<exists>m. ser_fields fs vs [] = Ok m \<and> bt_ok m \<and> (\<forall>k. bt_get m k = bt_get w k)"
proof -
  obtain m where "ser_fields fs vs [] = Ok m" "bt_ok m" "\<forall>k. bt_get m k = overlay w [] k"
    using assms bt_ok_Nil unfolding fields_sound_def by blast
  then show ?thesis by (auto simp: overlay_def split: option.splits)
qed

lemma fields_sound_de:
  "fields_sound E fs vs w \<Longrightarrow> agree_on (own_names fs) m w \<Longrightarrow> agree_on (flat_keys fs) r w \<Longrightarrow> de_fields E fs m r = Ok vs"
  by (simp add: fields_sound_def)

lemma closed_struct_sound:
  assumes ok: "list_all skip_ok fs" "list_all flat_ok fs"
    and sound: "\<And>f. f \<in> set fs \<Longrightarrow> ty_sound E (f_ty f) \<and> ty_sound E (opt_inner (f_ty f))"
    and dist: "distinct (tag_keys tag @ concat (map (\<lambda>f. remdups (field_keys f)) fs))"
  shows "ty_sound E (FStruct tag fs)"
  unfolding ty_sound_def
proof (intro allI impI)
  fix v assume "has_type E (FStruct tag fs) v"
  then obtain vs where v: "v = VStruct vs" "list_all2 (\<lambda>f v. has_type E (f_ty f) v) fs vs" by (auto split: val.splits)
  obtain w where w: "fields_sound E fs vs w"
    using fields_sound_list[OF v(2) ok sound] dist by auto
  obtain m where m: "ser_fields fs vs [] = Ok m" "\<And>k. bt_get m k = bt_get w k"
    using fields_sound_ser[OF w] by blast
  let ?m = "case tag of None \<Rightarrow> m | Some (k, name) \<Rightarrow> bt_insert k (JString name) m"
  have keys: "set (own_names fs) \<union> set (flat_keys fs) \<subseteq> set (concat (map (\<lambda>f. remdups (field_keys f)) fs))"
    by (auto simp: own_names_def flat_keys_def field_keys_flat split: if_splits)
  have get: "bt_get ?m k = bt_get w k" if "k \<in> set (own_names fs) \<union> set (flat_keys fs)" for k
    using that keys dist m(2) by (cases tag) auto
  have "set (own_names fs) \<inter> set (flat_keys fs) = {}" using own_flat_disjoint[of fs] dist by simp
  then have "agree_on (flat_keys fs) (without_keys (own_names fs) ?m) w" using get by auto
  moreover have "agree_on (own_names fs) ?m w" using get by blast
  ultimately have "de_fields E fs ?m (without_keys (own_names fs) ?m) = Ok vs" by (intro fields_sound_de[OF w])
  then show "\<exists>j. ser (FStruct tag fs) v = Ok j \<and> de E (FStruct tag fs) j = Ok v"
    using m(1) by (simp add: v(1))
qed

lemma ser_map_keys:
  assumes "ser (FMap k t) v = Ok j"
  shows "\<exists>kvs m. v = VMap kvs \<and> j = JObject m \<and> bt_ok m \<and> fst ` set m = fst ` set kvs"
proof -
  obtain kvs es where v: "v = VMap kvs" "map_res (\<lambda>kv. and_then (ser t (snd kv)) (\<lambda>j. Ok (fst kv, j))) kvs = Ok es" "j = object_of es"
    using assms by (auto simp: and_then_eq_Ok split: val.splits)
  have "map fst es = map fst kvs"
    using v(2) by (induction kvs arbitrary: es) (auto simp: and_then_eq_Ok)
  then have "fst ` set es = fst ` set kvs" by (metis list.set_map)
  moreover have "bt_get (bt_of_list es) l = None \<longleftrightarrow> l \<notin> fst ` set es" for l
    by (simp add: bt_get_of_list map_of_eq_None_iff)
  then have "fst ` set (bt_of_list es) = fst ` set es" by (auto simp: map_of_eq_None_iff)
  ultimately show ?thesis using v by (auto simp: object_of_def)
qed

lemma open_struct_sound:
  assumes ok: "list_all skip_ok gs" "list_all flat_ok gs" and g: "f_flat g" "f_ty g = FMap k t" "f_skip g = NeverSkip"
    and cons: "list_all (\<lambda>g. f_flat g \<longrightarrow> set (ty_keys (f_ty g)) \<subseteq> set (consumed (f_ty g))) gs"
    and sound: "\<And>f. f \<in> set gs \<Longrightarrow> ty_sound E (f_ty f) \<and> ty_sound E (opt_inner (f_ty f))" "ty_sound E (f_ty g)"
    and dist: "distinct (concat (map (\<lambda>f. remdups (field_keys f)) gs))"
  shows "ty_sound E (FStruct None (gs @ [g]))"
  unfolding ty_sound_def
proof (intro allI impI)
  let ?fs = "gs @ [g]"
  let ?K = "set (own_names gs) \<union> set (flat_keys gs)"
  fix v assume "has_type E (FStruct None ?fs) v"
  then obtain vs where v: "v = VStruct vs" "list_all2 (\<lambda>f v. has_type E (f_ty f) v) ?fs vs"
      "list_all2 (extra_ok (concat (map field_keys ?fs))) ?fs vs" by (auto split: val.splits)
  then obtain us u where us: "vs = us @ [u]" "list_all2 (\<lambda>f v. has_type E (f_ty f) v) gs us" "has_type E (f_ty g) u"
      "extra_ok (concat (map field_keys ?fs)) g u"
    by (auto simp: list_all2_append1 list_all2_Cons1)
  have len: "length us = length gs" using list_all2_lengthD[OF us(2)] by simp
  obtain w where w: "fields_sound E gs us w" using fields_sound_list[OF us(2) ok sound(1) dist] by blast
  have wK: "bt_get w l = None" if "l \<notin> ?K" for l using w that by (auto simp: fields_sound_def)
  obtain m where m: "ser_fields gs us [] = Ok m" "bt_ok m" "\<And>l. bt_get m l = bt_get w l"
    using fields_sound_ser[OF w] by blast
  obtain j where j: "ser (FMap k t) u = Ok j" "de E (FMap k t) j = Ok u" using sound(2) us(3) by (auto simp: ty_sound_def g(2))
  obtain kvs o' where o': "u = VMap kvs" "j = JObject o'" "bt_ok o'" "fst ` set o' = fst ` set kvs" using ser_map_keys[OF j(1)] by blast
  have oK: "bt_get o' l = None" if "l \<in> ?K" for l
  proof -
    have "l \<in> set (concat (map field_keys ?fs))"
      using that by (auto simp: own_names_def flat_keys_def field_keys_flat)
    then have "l \<notin> fst ` set kvs" using us(4) by (auto simp: extra_ok_def g o'(1) list_all_iff)
    then show ?thesis using o'(4) by (simp add: map_of_eq_None_iff)
  qed
  let ?m = "extend_object m o'" and ?own = "own_names ?fs"
  have own: "?own = own_names gs" using g(1) by (simp add: own_names_def)
  have gm: "bt_get ?m l = (case bt_get o' l of Some x \<Rightarrow> Some x | None \<Rightarrow> bt_get w l)" for l
    using get_extend_object[OF m(2) o'(3), of l] m(3)[of l] by (simp split: option.splits)
  let ?r = "without_keys ?own ?m"
  have mK: "bt_get ?m l = bt_get w l" if "l \<in> ?K" for l using gm[of l] oK[OF that] by simp
  have "agree_on (flat_keys gs) ?r w" using mK own_flat_disjoint[OF dist] unfolding own by auto
  moreover have "agree_on (own_names gs) ?m w" using mK by blast
  ultimately have d1: "de_fields E gs ?m ?r = Ok us" by (intro fields_sound_de[OF w])
  have "set (concat (map (\<lambda>f. if f_flat f then consumed (f_ty f) else []) gs)) = set (flat_keys gs)"
    using cons consumed_keys by (fastforce simp: flat_keys_def list_all_iff split: if_splits)
  then have "bt_get (rest_after gs ?r) l = bt_get o' l" for l
    using wK[of l] oK[of l] by (auto simp: get_rest_after own gm split: option.splits)
  moreover have "bt_ok (rest_after gs ?r)" using m(2) by (intro bt_ok_rest_after) simp
  ultimately have "rest_after gs ?r = o'" using o'(3) by (intro bt_ext)
  then have d2: "de_fields E ?fs ?m ?r = Ok vs"
    using d1 j(2) g by (simp add: de_fields_append o'(2) us(1))
  have "ser_fields ?fs vs [] = Ok ?m"
    using m(1) j(1) g(1,2,3) by (cases g) (simp add: us(1) ser_fields_append[OF len] o'(2) flatten_into_def)
  then show "\<exists>j. ser (FStruct None ?fs) v = Ok j \<and> de E (FStruct None ?fs) j = Ok v"
    using d2 by (simp add: v(1))
qed

lemma map_res_inverse:
  "(\<And>x. x \<in> set xs \<Longrightarrow> \<exists>y. f x = Ok y \<and> g y = Ok x) \<Longrightarrow> \<exists>ys. map_res f xs = Ok ys \<and> map_res g ys = Ok xs"
proof (induction xs)
  case (Cons x xs)
  obtain y where "f x = Ok y" "g y = Ok x" using Cons.prems[of x] by auto
  moreover obtain ys where "map_res f xs = Ok ys" "map_res g ys = Ok xs" using Cons by auto
  ultimately show ?case by (intro exI[of _ "y # ys"]) simp
qed simp

lemma map_sound:
  assumes "ty_sound E t"
  shows "ty_sound E (FMap k t)"
  unfolding ty_sound_def
proof (intro allI impI)
  fix v assume "has_type E (FMap k t) v"
  then obtain kvs where v: "v = VMap kvs" "bt_ok kvs" "\<And>kv. kv \<in> set kvs \<Longrightarrow> text_ok E k (fst kv) \<and> has_type E t (snd kv)"
    by (auto split: val.splits)
  let ?f = "\<lambda>kv. and_then (ser t (snd kv)) (\<lambda>j. Ok (fst kv, j))"
  let ?g = "\<lambda>kv. and_then (de_text E k (fst kv)) (\<lambda>s. and_then (de E t (snd kv)) (\<lambda>v. Ok (s, v)))"
  have "\<exists>es. map_res ?f kvs = Ok es \<and> map_res ?g es = Ok kvs"
  proof (rule map_res_inverse)
    fix kv assume kv: "kv \<in> set kvs"
    obtain j where "ser t (snd kv) = Ok j" "de E t j = Ok (snd kv)" using assms v(3)[OF kv] by (auto simp: ty_sound_def)
    then show "\<exists>y. ?f kv = Ok y \<and> ?g y = Ok kv" using v(3)[OF kv] by simp
  qed
  then obtain es where es: "map_res ?f kvs = Ok es" "map_res ?g es = Ok kvs" by blast
  have "map fst es = map fst kvs" using es(1) by (induction kvs arbitrary: es) (auto simp: and_then_eq_Ok)
  then have "bt_of_list es = es" using v(2) by (intro bt_of_list_ok) (simp add: bt_ok_def)
  then show "\<exists>j. ser (FMap k t) v = Ok j \<and> de E (FMap k t) j = Ok v"
    using es by (simp add: v(1) object_of_def)
qed

lemma map_of_empty_sound: "ty_sound E (FMapOfEmpty k)"
  unfolding ty_sound_def
proof (intro allI impI)
  fix v assume "has_type E (FMapOfEmpty k) v"
  then obtain vs where v: "v = VVec vs" "sorted_wrt (<) (map text_of vs)"
      "\<And>w. w \<in> set vs \<Longrightarrow> case w of VText s \<Rightarrow> text_ok E k s | _ \<Rightarrow> False"
    by (auto split: val.splits)
  let ?es = "map (\<lambda>w. (text_of w, JObject [])) vs"
  have "map fst ?es = map text_of vs" by simp
  then have "bt_of_list ?es = ?es" using v(2) by (intro bt_of_list_ok) (simp add: bt_ok_def comp_def)
  moreover have "map_res (\<lambda>kv. and_then (de_text E k (fst kv)) (\<lambda>s. case snd kv of JObject m' \<Rightarrow> Ok (VText s) | _ \<Rightarrow> Err InvalidType)) ?es = Ok vs"
    using v(3)
  proof (induction vs)
    case (Cons a vs)
    then show ?case using Cons.prems[of a] by (cases a) auto
  qed simp
  ultimately show "\<exists>j. ser (FMapOfEmpty k) v = Ok j \<and> de E (FMapOfEmpty k) j = Ok v"
    by (simp add: v(1) object_of_def)
qed

lemma number_kind: "is_map_ty t \<longleftrightarrow> (\<exists>k t'. t = FMap k t')"
  by (cases t) auto

lemma ty_ok_opt_inner [simp]: "ty_ok (opt_inner t) = ty_ok t"
  by (cases t) auto

lemma struct_sound:
  assumes ok: "ty_ok (FStruct tag fs)"
    and sound: "\<And>f. f \<in> set fs \<Longrightarrow> ty_sound E (f_ty f) \<and> ty_sound E (opt_inner (f_ty f))"
  shows "ty_sound E (FStruct tag fs)"
proof (cases "list_all flat_ok fs")
  case True
  then show ?thesis using ok by (intro closed_struct_sound sound) auto
next
  case False
  then have tag: "tag = None" and o: "fs \<noteq> [] \<and> list_all flat_ok (butlast fs) \<and> f_flat (last fs) \<and> is_map_ty (f_ty (last fs))
      \<and> f_skip (last fs) = NeverSkip
      \<and> list_all (\<lambda>g. f_flat g \<longrightarrow> set (ty_keys (f_ty g)) \<subseteq> set (consumed (f_ty g))) (butlast fs)"
    using ok by (auto simp: flats_ok_def)
  obtain k t where t: "f_ty (last fs) = FMap k t" using o by (auto simp: number_kind)
  have fs: "fs = butlast fs @ [last fs]" using o by simp
  have "ty_sound E (FStruct None (butlast fs @ [last fs]))"
  proof (rule open_struct_sound[OF _ _ _ t])
    show "list_all skip_ok (butlast fs)" using ok by (auto simp: list_all_iff dest: in_set_butlastD)
    show "distinct (concat (map (\<lambda>f. remdups (field_keys f)) (butlast fs)))"
      using ok by (subst (asm) fs) simp
    show "ty_sound E (f_ty f) \<and> ty_sound E (opt_inner (f_ty f))" if "f \<in> set (butlast fs)" for f
      using sound that by (blast dest: in_set_butlastD)
    show "ty_sound E (f_ty (last fs))" using sound[of "last fs"] o by simp
  qed (use o in auto)
  then show ?thesis using tag fs by simp
qed

lemma ty_ok_sound: "ty_ok t \<Longrightarrow> ty_sound E t"
proof (induction t rule: measure_induct_rule[of size])
  case (less t)
  have inner: "has_type E t' w \<Longrightarrow> size t' < size t \<Longrightarrow> ty_ok t' \<Longrightarrow> \<exists>j. ser t' w = Ok j \<and> de E t' j = Ok w" for t' w
    using less.IH by (auto simp: ty_sound_def)
  show ?case
  proof (cases t)
    case (FInt lo hi)
    have "\<exists>j. ser t v = Ok j \<and> de E t j = Ok v" if "has_type E t v" for v
      using that less.prems json_int_number by (cases v) (simp_all add: FInt de_int_range_def)
    then show ?thesis by (simp add: ty_sound_def)
  next
    case (FDuration unit)
    show ?thesis unfolding ty_sound_def
    proof (intro allI impI)
      fix v assume "has_type E t v"
      then obtain i where v: "v = VInt i" "0 \<le> i" "i mod unit = 0" "i div unit \<le> MAX_SAFE"
        by (auto simp: FDuration split: val.splits)
      have "0 \<le> i div unit" using v(2) less.prems by (simp add: FDuration pos_imp_zdiv_nonneg_iff)
      then have "json_int (number_from_i64 (i div unit)) = Some (i div unit)"
        using v(4) by (intro json_int_number) (auto simp: MAX_SAFE_def)
      then show "\<exists>j. ser t v = Ok j \<and> de E t j = Ok v"
        using v \<open>0 \<le> i div unit\<close> by (simp add: FDuration de_int_range_def mod_0_imp_dvd)
    qed
  next
    case (FOpt t')
    show ?thesis unfolding ty_sound_def
    proof (intro allI impI)
      fix v assume v: "has_type E t v"
      show "\<exists>j. ser t v = Ok j \<and> de E t j = Ok v"
      proof (cases v)
        case (VSome w)
        then have w: "has_type E t' w" "ser t' w \<noteq> Ok JNull" using v by (auto simp: FOpt)
        then obtain j where "ser t' w = Ok j" "de E t' j = Ok w" using inner[OF w(1)] less.prems by (auto simp: FOpt)
        then show ?thesis using w(2) by (auto simp: FOpt VSome)
      qed (use v in \<open>simp_all add: FOpt\<close>)
    qed
  next
    case (FVec t')
    have "\<exists>js. map_res (ser t') vs = Ok js \<and> map_res (de E t') js = Ok vs" if "\<forall>w\<in>set vs. has_type E t' w" for vs
      using that inner less.prems by (intro map_res_inverse) (simp add: FVec)
    then have "\<exists>j. ser t (VVec vs) = Ok j \<and> de E t j = Ok (VVec vs)" if "has_type E t (VVec vs)" for vs
      using that by (fastforce simp: FVec)
    then show ?thesis by (auto simp: FVec ty_sound_def split: val.splits)
  next
    case (FMap k t')
    then show ?thesis using less by (simp add: map_sound)
  next
    case (FStruct tag fs)
    have "ty_sound E (f_ty f) \<and> ty_sound E (opt_inner (f_ty f))" if "f \<in> set fs" for f
      using less.IH[of "f_ty f"] less.IH[of "opt_inner (f_ty f)"] less.prems that
        size_f_ty_member[OF that] size_opt_inner_member[OF that] by (auto simp: FStruct)
    then show ?thesis using struct_sound less.prems by (simp add: FStruct)
  next
    case (FTagged tag variants)
    show ?thesis unfolding ty_sound_def
    proof (intro allI impI)
      fix v assume "has_type E t v"
      then obtain i w where v: "v = VVariant i w" "i < length variants" "has_type E (snd (variants ! i)) w"
        by (auto simp: FTagged split: val.splits)
      let ?p = "variants ! i"
      have p: "?p \<in> set variants" "ty_ok (snd ?p)" "closed (snd ?p)" "tag \<notin> set (ty_keys (snd ?p))"
        using v(2) less.prems by (auto simp: FTagged)
      obtain j where j: "ser (snd ?p) w = Ok j" "de E (snd ?p) j = Ok w"
        using inner[OF v(3) _ p(2)] size_snd_member[OF p(1)] by (auto simp: FTagged)
      obtain m where m: "j = JObject m" using ser_keys[OF p(3) j(1)] by blast
      have "de E (snd ?p) (JObject (without_keys [tag] (bt_insert tag (JString (fst ?p)) m))) = Ok w"
        by (subst de_frame[OF p(3), of _ m]) (use p(4) j(2) m in auto)
      then have "de_variant E 0 variants (fst ?p) (JObject (without_keys [tag] (bt_insert tag (JString (fst ?p)) m))) = Ok v"
        using de_variant_at[of variants i E _ w 0] v(1,2) less.prems by (simp add: FTagged)
      then show "\<exists>j. ser t v = Ok j \<and> de E t j = Ok v"
        using ser_variant_at[OF v(2) j(1)] by (simp add: FTagged v(1) m add_tag_def string_member_def)
    qed
  next
    case (FAdjacent tag content variants)
    show ?thesis unfolding ty_sound_def
    proof (intro allI impI)
      fix v assume "has_type E t v"
      then obtain i w where v: "v = VVariant i w" "i < length variants" "has_type E (snd (variants ! i)) w"
        by (auto simp: FAdjacent split: val.splits)
      have p: "variants ! i \<in> set variants" "ty_ok (snd (variants ! i))" using v(2) less.prems by (auto simp: FAdjacent)
      obtain j where j: "ser (snd (variants ! i)) w = Ok j" "de E (snd (variants ! i)) j = Ok w"
        using inner[OF v(3) _ p(2)] size_snd_member[OF p(1)] by (auto simp: FAdjacent)
      then show "\<exists>j. ser t v = Ok j \<and> de E t j = Ok v"
        using ser_variant_at[OF v(2) j(1)] de_variant_at[of variants i E j w 0] v(1,2) less.prems
        by (simp add: FAdjacent object_of_def string_member_def bt_get_of_list)
    qed
  next
    case (FUntagged ts)
    show ?thesis unfolding ty_sound_def
    proof (intro allI impI)
      fix v assume "has_type E t v"
      then obtain i w where v: "v = VVariant i w" "i < length ts" "has_type E (ts ! i) w"
        by (auto simp: FUntagged split: val.splits)
      have "ts ! i \<in> set ts" "ty_ok (ts ! i)" using v(2) less.prems by (auto simp: FUntagged)
      then obtain j where j: "ser (ts ! i) w = Ok j" "de E (ts ! i) j = Ok w"
        using inner[OF v(3)] size_ty_member[of "ts ! i" ts] by (auto simp: FUntagged)
      then show "\<exists>j. ser t v = Ok j \<and> de E t j = Ok v"
        using ser_untagged_at[OF v(2)] de_untagged_at[of ts i w j E 0] v less.prems by (simp add: FUntagged)
    qed
  next
    case (FWith t')
    then show ?thesis using inner less.prems by (simp add: ty_sound_def)
  next
    case (FSingle t')
    have "\<exists>j. ser t v = Ok j \<and> de E t j = Ok v" if "has_type E t v" for v
      using inner[of t' v] that less.prems by (auto simp: FSingle)
    then show ?thesis by (simp add: ty_sound_def)
  next
    case (FV1Pdu t')
    have "\<exists>j. ser t v = Ok j \<and> de E t j = Ok v" if "has_type E t v" for v
      using inner[of t' v] that less.prems by (auto simp: FV1Pdu)
    then show ?thesis by (simp add: ty_sound_def)
  next
    case (FMapOfEmpty k)
    then show ?thesis by (simp add: map_of_empty_sound)
  next
    case (FEmptyNone t')
    show ?thesis unfolding ty_sound_def
    proof (intro allI impI)
      fix v assume v: "has_type E t v"
      show "\<exists>j. ser t v = Ok j \<and> de E t j = Ok v"
      proof (cases v)
        case (VSome w)
        then have "has_type E t' w" and w: "case ser t' w of Ok (JString s) \<Rightarrow> s \<noteq> [] | _ \<Rightarrow> False"
          using v by (auto simp: FEmptyNone)
        then obtain j where j: "ser t' w = Ok j" "de E t' j = Ok w" using inner[of t' w] less.prems by (auto simp: FEmptyNone)
        then obtain s where "j = JString s" "s \<noteq> []" using w by (auto split: json.splits)
        then show ?thesis using j by (simp add: FEmptyNone VSome)
      qed (use v in \<open>simp_all add: FEmptyNone\<close>)
    qed
  next
    case (FText k)
    then show ?thesis by (auto simp: ty_sound_def split: val.splits)
  next
    case FBool
    then show ?thesis by (auto simp: ty_sound_def split: val.splits)
  next
    case (FUnits names)
    then show ?thesis by (auto simp: ty_sound_def split: val.splits)
  next
    case FJson
    then show ?thesis by (auto simp: ty_sound_def split: val.splits)
  next
    case (FOpaque name)
    then show ?thesis by (auto simp: ty_sound_def split: val.splits)
  qed
qed

end
