(* ===== verification/Api_Roundtrip.thy ===== *)
theory Api_Roundtrip
  imports Api_Http Serde_Roundtrip
begin

text \<open>Requests and responses survive HTTP: a decidable condition on the declaration of an endpoint (\<open>endpoint_ok\<close>), what the
  crates around the generated code are relied on for (\<open>request_io\<close>, \<open>response_io\<close>: the values that are written read
  back), and the proofs that the incoming conversions invert the outgoing ones.\<close>

section \<open>Fields of a query\<close>

fun scalar_ty :: "ty \<Rightarrow> bool" where
  "scalar_ty (FText k) = True"
| "scalar_ty FBool = True"
| "scalar_ty (FInt lo hi) = (if lo < 0 then - (2 ^ 63) \<le> lo \<and> hi < 2 ^ 63 else hi < 2 ^ 64)"
| "scalar_ty (FDuration unit) = (0 < unit)"
| "scalar_ty (FUnits names) = True"
| "scalar_ty (FOpaque name) = True"
| "scalar_ty (FOpt t) = scalar_ty t"
| "scalar_ty (FWith t) = scalar_ty t"
| "scalar_ty _ = False"

fun scalar_val :: "serde_env \<Rightarrow> ty \<Rightarrow> val \<Rightarrow> bool" where
  "scalar_val E (FOpaque name) v = (case v of VJson (JString s) \<Rightarrow> opaque_ok E name (JString s) | _ \<Rightarrow> False)"
| "scalar_val E (FOpt t) v = (case v of VSome w \<Rightarrow> scalar_val E t w | _ \<Rightarrow> False)"
| "scalar_val E (FWith t) v = scalar_val E t v"
| "scalar_val E (FVec t) v = False"
| "scalar_val E t v = has_type E t v"

lemma scalar_has_type: "scalar_ty t \<Longrightarrow> scalar_val E t v \<Longrightarrow> has_type E t v \<and> ser t v \<noteq> Ok JNull"
proof (induction E t v rule: scalar_val.induct)
  case (2 E t v)
  then show ?case by (cases v) auto
qed (auto split: val.splits json.splits simp: duration_serialize_def)

lemma u64_int: "0 \<le> i \<Longrightarrow> i < 2 ^ 64 \<Longrightarrow> int_value (U64 (word_of_int i)) = i"
  by (simp add: uint_word_of_int_eq take_bit_int_eq_self)

lemma i64_int: "- (2 ^ 63) \<le> i \<Longrightarrow> i < 2 ^ 63 \<Longrightarrow> int_value (I64 (word_of_int i)) = i"
  by (simp add: sint_sbintrunc' signed_take_bit_int_eq_self)

lemma scalar_query:
  "scalar_ty t \<Longrightarrow> scalar_val E t v \<Longrightarrow> scalar_typed (query_type_of t) (query_ser t v) \<and> query_de E t (query_ser t v) = Ok v"
proof (induction E t v rule: scalar_val.induct, goal_cases)
  case (7 E lo hi v)
  then obtain i where "v = VInt i" "lo \<le> i" "i \<le> hi" by (auto split: val.splits)
  then show ?case using 7 by (auto simp: u64_int i64_int simp del: int_value.simps split: if_splits)
next
  case (8 E unit v)
  then obtain i where i: "v = VInt i" "0 \<le> i" "i mod unit = 0" "i div unit \<le> MAX_SAFE" by (auto split: val.splits)
  then have "0 \<le> i div unit" using 8 by (simp add: pos_imp_zdiv_nonneg_iff)
  moreover have "i div unit * unit = i" using i(3) by (metis add.right_neutral div_mult_mod_eq)
  ultimately show ?case using i 8 by (simp add: u64_int MAX_SAFE_def del: int_value.simps)
qed (auto split: val.splits json.splits)

definition query_ty :: "ty \<Rightarrow> bool" where
  "query_ty t \<longleftrightarrow> scalar_ty t \<or> (case t of FVec t' \<Rightarrow> scalar_ty t' | _ \<Rightarrow> False)"

definition query_val :: "serde_env \<Rightarrow> ty \<Rightarrow> val \<Rightarrow> bool" where
  "query_val E t v \<longleftrightarrow> scalar_val E t v
     \<or> (case (t, v) of
          (FOpt t', VNone) \<Rightarrow> True
        | (FWith (FOpt t'), VNone) \<Rightarrow> True
        | (FVec t', VVec vs) \<Rightarrow> list_all (scalar_val E t') vs
        | _ \<Rightarrow> False)"

text \<open>A field that is absent from the query has to come back as the value that wrote nothing.\<close>

definition query_field_ok :: "field \<Rightarrow> bool" where
  "query_field_ok f \<longleftrightarrow> \<not> f_flat f \<and> query_ty (f_ty f) \<and> skip_ok f
     \<and> (case f_ty f of
          FOpt t \<Rightarrow> f_default f \<in> {None, Some VNone}
        | FWith (FOpt t) \<Rightarrow> f_skip f = SkipNone \<and> f_default f = Some VNone
        | FVec t \<Rightarrow> f_default f = Some (VVec [])
        | _ \<Rightarrow> True)"

lemma query_val_cases:
  assumes "query_ty t" "query_val E t v"
  obtains "scalar_ty t" "scalar_val E t v" | t' where "t = FOpt t'" "v = VNone" | t' where "t = FWith (FOpt t')" "v = VNone"
    | t' vs where "t = FVec t'" "v = VVec vs" "scalar_ty t'" "list_all (scalar_val E t') vs"
proof -
  consider "scalar_val E t v" | "\<not> scalar_val E t v" by blast
  then show ?thesis
  proof cases
    case 1
    then have "scalar_ty t" using assms(1) by (auto simp: query_ty_def split: ty.splits)
    then show ?thesis using 1 that(1) by blast
  next
    case 2
    then show ?thesis using assms that(2,3,4) by (auto simp: query_val_def query_ty_def split: ty.splits val.splits)
  qed
qed

lemma query_val_has_type:
  assumes "query_ty t" "query_val E t v"
  shows "has_type E t v"
  using assms
proof (cases rule: query_val_cases)
  case (4 t' vs)
  then show ?thesis using scalar_has_type[of t' E] by (simp add: list_all_iff)
qed (use scalar_has_type in auto)

lemma query_de_ser:
  assumes "query_ty t" "query_val E t v"
  shows "query_de E t (query_ser t v) = Ok v"
  using assms
proof (cases rule: query_val_cases)
  case 1
  then show ?thesis using scalar_query by blast
next
  case (4 t' vs)
  have "map_res (query_de E t') (map (query_ser t') vs) = Ok vs"
    using 4(3,4) scalar_query[of t' E] by (induction vs) auto
  then show ?thesis by (simp add: 4)
qed auto

lemma query_absent:
  assumes "absent f = Ok v" "\<not> f_flat f"
  shows "missing_field (query_field_of f) = Some (query_ser (f_ty f) v)"
  using assms by (cases f rule: absent.cases) (auto simp: missing_field_def query_field_of_def split: ty.splits)

lemma query_ser_shapes:
  assumes "scalar_ty t" "scalar_val E t v"
  shows "query_ser t v \<noteq> SNone" "query_ser t v \<noteq> SSeq ws"
  using assms by (cases t; auto split: val.splits json.splits)+

lemma query_member:
  assumes f: "query_field_ok f" and v: "query_val E (f_ty f) v"
  shows "if skipped (f_skip f) v then missing_field (query_field_of f) = Some (query_ser (f_ty f) v)
    else field_ok (query_field_of f) (f_name f, query_ser (f_ty f) v)"
proof (cases "skipped (f_skip f) v")
  case True
  have "f_skip f \<noteq> NeverSkip" using True by auto
  then obtain d where d: "skip_only (f_skip f) (f_ty f) = Some d" "absent f = Ok d"
    using f by (auto simp: query_field_ok_def skip_ok_def split: option.splits)
  have "has_type E (f_ty f) v" using f v query_val_has_type by (auto simp: query_field_ok_def)
  then have "v = d" using skip_only_unique True d(1) by blast
  then show ?thesis using True query_absent[OF d(2)] f by (simp add: query_field_ok_def)
next
  case False
  have q: "query_ty (f_ty f)" using f by (simp add: query_field_ok_def)
  have "field_ok (query_field_of f) (f_name f, query_ser (f_ty f) v)"
    using q v
  proof (cases rule: query_val_cases)
    case 1
    then show ?thesis using scalar_query[OF 1] query_ser_shapes[OF 1]
      by (auto simp: field_ok_def field_typed_def query_field_of_def)
  next
    case (2 t')
    then show ?thesis using f by (auto simp: field_ok_def field_typed_def query_field_of_def query_field_ok_def)
  next
    case (3 t')
    then have "skipped (f_skip f) v" using f by (simp add: query_field_ok_def)
    then show ?thesis using False by simp
  next
    case (4 t' vs)
    have "list_all (scalar_typed (query_type_of t')) (map (query_ser t') vs)"
      using 4(3,4) scalar_query[of t' E] by (induction vs) auto
    then show ?thesis using 4 f
      by (auto simp: field_ok_def field_typed_def query_field_of_def query_field_ok_def)
  qed
  then show ?thesis using False by simp
qed

section \<open>The fields of one kind\<close>

lemma fields_with_fst: "length fs = length vals \<Longrightarrow> map fst (fields_with P fs vals) = of_kind P fs"
  by (induction fs vals rule: list_induct2) (auto simp: fields_with_def of_kind_def)

lemma fields_with_Nil: "length fs = length vals \<Longrightarrow> fields_with P fs vals = [] \<longleftrightarrow> of_kind P fs = []"
  using fields_with_fst[of fs vals P] by auto

lemma fields_with_all:
  assumes "list_all2 Q fs vals" "(f, v) \<in> set (fields_with P fs vals)"
  shows "Q f v" "P (af_kind f)" "f \<in> set fs" "(af_ident f, v) \<in> set (to_ident_map fs vals)"
proof -
  have *: "(f, v) \<in> set (zip fs vals)" using assms(2) by (simp add: fields_with_def)
  then show "Q f v" using assms(1) by (auto simp: list_all2_iff)
  show "P (af_kind f)" using assms(2) by (simp add: fields_with_def)
  show "f \<in> set fs" using * by (rule set_zip_leftD)
  show "(af_ident f, v) \<in> set (to_ident_map fs vals)"
    using * unfolding to_ident_map_def zip_map1 by (auto intro!: image_eqI[of _ _ "(f, v)"])
qed

text \<open>The variables that were read for the fields of some kinds.\<close>

definition reads :: "('k \<Rightarrow> bool) \<Rightarrow> 'k api_field list \<Rightarrow> val list \<Rightarrow> (string \<times> val) list \<Rightarrow> bool" where
  "reads P fs vals vars \<longleftrightarrow> set vars \<subseteq> set (to_ident_map fs vals) \<and> (\<forall>f\<in>set fs. P (af_kind f) \<longrightarrow> af_ident f \<in> fst ` set vars)"

lemma reads_fields_with:
  assumes "length fs = length vals"
  shows "reads P fs vals (map (\<lambda>(f, v). (af_ident f, v)) (fields_with P fs vals))"
proof -
  have l: "list_all2 (\<lambda>f v. True) fs vals" using assms by (simp add: list_all2_iff)
  have "af_ident f \<in> fst ` set (map (\<lambda>(f, v). (af_ident f, v)) (fields_with P fs vals))" if "f \<in> set fs" "P (af_kind f)" for f
  proof -
    have "f \<in> set (map fst (fields_with P fs vals))" using that by (simp add: fields_with_fst[OF assms] of_kind_def)
    then show ?thesis by force
  qed
  then show ?thesis using fields_with_all[OF l] by (auto simp: reads_def)
qed

lemma reads_none: "(\<And>f. f \<in> set fs \<Longrightarrow> \<not> P (af_kind f)) \<Longrightarrow> reads P fs vals []"
  by (simp add: reads_def)

lemma reads_append:
  "reads P fs vals xs \<Longrightarrow> reads Q fs vals ys \<Longrightarrow> reads (\<lambda>k. P k \<or> Q k) fs vals (xs @ ys)"
  by (auto simp: reads_def image_Un)

lemma reads_lookup:
  assumes "length fs = length vals" "distinct (map af_ident fs)" "reads P fs vals vars" "(f, v) \<in> set (zip fs vals)" "P (af_kind f)"
  shows "map_of vars (af_ident f) = Some v"
proof -
  let ?m = "to_ident_map fs vals"
  have d: "distinct (map fst ?m)" using assms(1,2) by (simp add: to_ident_map_def)
  have "f \<in> set fs" using assms(4) by (rule set_zip_leftD)
  then obtain x where x: "map_of vars (af_ident f) = Some x"
    using assms(3,5) by (metis reads_def map_of_eq_None_iff option.exhaust)
  then have "(af_ident f, x) \<in> set ?m" using assms(3) map_of_SomeD by (fastforce simp: reads_def)
  moreover have "(af_ident f, v) \<in> set ?m"
    using assms(4) unfolding to_ident_map_def zip_map1 by (auto intro!: image_eqI[of _ _ "(f, v)"])
  ultimately show ?thesis using d x by (metis eq_key_imp_eq_value)
qed

lemma init_struct_reads:
  assumes "length fs = length vals" "distinct (map af_ident fs)" "reads (\<lambda>k. True) fs vals vars"
  shows "init_struct fs vars = vals"
proof (rule nth_equalityI)
  show "length (init_struct fs vars) = length vals" using assms(1) by (simp add: init_struct_def)
  fix i assume "i < length (init_struct fs vars)"
  then have i: "i < length fs" by (simp add: init_struct_def)
  then have "(fs ! i, vals ! i) \<in> set (zip fs vals)" using assms(1) by (auto simp: set_zip)
  then show "init_struct fs vars ! i = vals ! i" using reads_lookup[OF assms] i by (simp add: init_struct_def)
qed

section \<open>Values of fields\<close>

definition header_val :: "ty \<Rightarrow> val \<Rightarrow> bool" where
  "header_val t v \<longleftrightarrow> (case v of VText s \<Rightarrow> \<not> is_option t | VSome (VText s) \<Rightarrow> is_option t | VNone \<Rightarrow> is_option t | _ \<Rightarrow> False)"

definition path_val :: "serde_env \<Rightarrow> ty \<Rightarrow> val \<Rightarrow> bool" where
  "path_val E t v \<longleftrightarrow> (case t of FText k \<Rightarrow> has_type E t v | FUnits names \<Rightarrow> has_type E t v | _ \<Rightarrow> False)"

fun request_val :: "serde_env \<Rightarrow> request_kind \<Rightarrow> ty \<Rightarrow> val \<Rightarrow> bool" where
  "request_val E RPath t v = path_val E t v"
| "request_val E RQuery t v = query_val E t v"
| "request_val E RQueryMap t v = has_type E (FMap AnyText (FText AnyText)) v"
| "request_val E (RHeader name) t v = header_val t v"
| "request_val E RRawBody t v = (case v of VText s \<Rightarrow> True | _ \<Rightarrow> False)"
| "request_val E _ t v = True"

definition query_ok :: "request_kind api_field list \<Rightarrow> bool" where
  "query_ok fs \<longleftrightarrow> (let qs = of_kind (\<lambda>k. k = RQuery) fs; ms = of_kind (\<lambda>k. k = RQueryMap) fs in
     list_all (\<lambda>f. query_field_ok (af_decl f)) qs \<and> distinct (map (\<lambda>f. f_name (af_decl f)) qs)
     \<and> length ms \<le> 1 \<and> (ms \<noteq> [] \<longrightarrow> qs = []))"

text \<open>\<open>form_urlencoded\<close> reads back the pairs of this query.\<close>

definition query_io :: "api_io \<Rightarrow> request_kind api_field list \<Rightarrow> val list \<Rightarrow> bool" where
  "query_io IO fs vals \<longleftrightarrow> (case request_query fs vals of None \<Rightarrow> True | Some w \<Rightarrow>
     (case url_serialize w [] of Ok ps \<Rightarrow> form_parse (io_form IO) (form_encode (io_form IO) ps) = ps | _ \<Rightarrow> True))"

definition query_part :: "string \<Rightarrow> string option" where
  "query_part s = (case s of [] \<Rightarrow> None | c # s' \<Rightarrow> Some s')"

lemma query_map_back: "has_type E (FMap AnyText (FText AnyText)) v \<Longrightarrow>
  \<exists>ps. bt_ok ps \<and> query_map_ser v = SMap (map (\<lambda>(k, s). (SStr k, SStr s)) ps) \<and> query_map_de (query_map_ser v) = v"
proof -
  assume v: "has_type E (FMap AnyText (FText AnyText)) v"
  then obtain kvs where kvs: "v = VMap kvs" "bt_ok kvs" and t: "\<forall>kv\<in>set kvs. has_type E (FText AnyText) (snd kv)"
    by (cases v) auto
  have s: "VText (text_of (snd kv)) = snd kv" if "kv \<in> set kvs" for kv
    using bspec[OF t that] by (cases "snd kv") auto
  have "bt_ok (map (\<lambda>kv. (fst kv, text_of (snd kv))) kvs)" using kvs(2) by (simp add: bt_ok_def comp_def)
  moreover have "map (\<lambda>kv. (fst kv, VText (text_of (snd kv)))) kvs = kvs" using s by (auto intro: map_idI)
  ultimately show ?thesis
    by (intro exI[of _ "map (\<lambda>kv. (fst kv, text_of (snd kv))) kvs"]) (simp add: kvs(1) comp_def)
qed

lemma query_struct_back:
  assumes ok: "list_all (\<lambda>f. query_field_ok (af_decl f)) (map fst fvs)" and d: "distinct (map (\<lambda>p. f_name (af_decl (fst p))) fvs)"
    and v: "\<And>f v. (f, v) \<in> set fvs \<Longrightarrow> query_val E (f_ty (af_decl f)) v"
  defines "members \<equiv> map (\<lambda>(f, v). (f_name (af_decl f), query_ser (f_ty (af_decl f)) v)) fvs"
  shows "\<exists>ps. url_serialize (SStruct n (map (\<lambda>(f, v). (f_name (af_decl f), query_ser (f_ty (af_decl f)) v))
        (filter (\<lambda>(f, v). \<not> skipped (f_skip (af_decl f)) v) fvs))) [] = Ok ps
    \<and> url_deserialize (QStruct n (map (query_field_of \<circ> af_decl) (map fst fvs))) (group_entries ps) = Some (SStruct n members)"
proof -
  let ?fs = "map (query_field_of \<circ> af_decl) (map fst fvs)"
  let ?ms = "map (\<lambda>(f, v). (skipped (f_skip (af_decl f)) v, f_name (af_decl f), query_ser (f_ty (af_decl f)) v)) fvs"
  have "list_all2 (\<lambda>f p. if fst p then fst (snd p) = qf_name f \<and> missing_field f = Some (snd (snd p)) else field_ok f (snd p)) ?fs ?ms"
  proof -
    have "if skipped (f_skip (af_decl f)) w
        then f_name (af_decl f) = qf_name (query_field_of (af_decl f))
          \<and> missing_field (query_field_of (af_decl f)) = Some (query_ser (f_ty (af_decl f)) w)
        else field_ok (query_field_of (af_decl f)) (f_name (af_decl f), query_ser (f_ty (af_decl f)) w)"
      if m: "(f, w) \<in> set fvs" for f w
      using query_member[of "af_decl f" E w] ok v[OF m] m by (force simp: list_all_iff query_field_of_def split: if_splits)
    then show ?thesis by (auto simp: list_all2_map1 list_all2_map2 list_all2_same)
  qed
  moreover have "distinct (map qf_name ?fs)" using d by (simp add: comp_def query_field_of_def)
  ultimately obtain ps where ps: "\<And>enc. serialize_fields (map snd (filter (\<lambda>p. \<not> fst p) ?ms)) enc = Ok (enc @ ps)"
      "fst ` set ps \<subseteq> qf_name ` set ?fs" "list_all2 (field_readable ps) ?fs (map snd ?ms)" "distinct (map qf_name ?fs)"
    using members_written by blast
  have "map snd ?ms = members" by (auto simp: members_def)
  moreover have "map snd (filter (\<lambda>p. \<not> fst p) ?ms) = map (\<lambda>(f, v). (f_name (af_decl f), query_ser (f_ty (af_decl f)) v))
      (filter (\<lambda>(f, v). \<not> skipped (f_skip (af_decl f)) v) fvs)" by (induction fvs) auto
  ultimately show ?thesis using ps struct_read[OF ps(3,4,2)] by auto
qed

lemma of_kind_empty: "of_kind P fs = [] \<Longrightarrow> f \<in> set fs \<Longrightarrow> \<not> P (af_kind f)"
  by (auto simp: of_kind_def filter_empty_conv)

lemma query_map_read:
  assumes l: "length fs = length vals" and m: "fields_with (\<lambda>k. k = RQueryMap) fs vals = [(f, v)]"
    and t: "has_type E (FMap AnyText (FText AnyText)) v" and q: "of_kind (\<lambda>k. k = RQuery) fs = []"
    and io: "query_io IO fs vals" and fs: "ep_request ep = fs"
  shows "\<exists>s vars. request_query_string IO ep vals = Ok s \<and> read_query IO ep (query_part s) = Ok vars
    \<and> reads (\<lambda>k. k = RQuery \<or> k = RQueryMap) fs vals vars"
proof -
  let ?F = "io_form IO" and ?w = "SNewtypeStruct ''RequestQuery'' (query_map_ser v)"
  obtain ps where ps: "bt_ok ps" "query_map_ser v = SMap (map (\<lambda>(k, s). (SStr k, SStr s)) ps)" "query_map_de (query_map_ser v) = v"
    using query_map_back[OF t] by blast
  have w: "request_query fs vals = Some ?w" by (simp add: request_query_def m)
  have u: "url_serialize ?w [] = Ok ps" by (simp add: ps(2) map_written)
  have io': "form_parse ?F (form_encode ?F ps) = ps" using io by (simp only: query_io_def w u option.case result.case)
  have k: "of_kind (\<lambda>k. k = RQueryMap) fs = [f]" using fields_with_fst[OF l, of "\<lambda>k. k = RQueryMap"] by (simp add: m)
  have "from_str ?F (QMap TString TString) (form_encode ?F ps) = Some (query_map_ser v)"
    by (simp add: from_str_def from_bytes_def io' group_entries_sorted[OF ps(1)] map_read ps(2))
  then have "read_query IO ep (Some (form_encode ?F ps)) = Ok [(af_ident f, v)]"
    by (simp add: read_query_def fs k Let_def ps(3))
  moreover have "reads (\<lambda>k. k = RQuery \<or> k = RQueryMap) fs vals [(af_ident f, v)]"
    using reads_fields_with[OF l, of "\<lambda>k. k = RQueryMap"] of_kind_empty[OF q] by (auto simp: m reads_def)
  moreover have "request_query_string IO ep vals = Ok (''?'' @ form_encode ?F ps)"
    using u by (simp add: request_query_string_def fs w to_string_def)
  ultimately show ?thesis by (intro exI[of _ "''?'' @ form_encode ?F ps"] exI[of _ "[(af_ident f, v)]"]) (simp add: query_part_def)
qed

lemma query_fields_read:
  assumes l: "length fs = length vals" and m: "fields_with (\<lambda>k. k = RQueryMap) fs vals = []"
    and q: "of_kind (\<lambda>k. k = RQuery) fs \<noteq> []" and ok: "query_ok fs"
    and v: "list_all2 (\<lambda>f v. request_val (io_env IO) (af_kind f) (f_ty (af_decl f)) v) fs vals"
    and io: "query_io IO fs vals" and fs: "ep_request ep = fs"
  shows "\<exists>s vars. request_query_string IO ep vals = Ok s \<and> read_query IO ep (query_part s) = Ok vars
    \<and> reads (\<lambda>k. k = RQuery \<or> k = RQueryMap) fs vals vars"
proof -
  let ?F = "io_form IO" and ?E = "io_env IO" and ?n = "''RequestQuery''" and ?P = "\<lambda>k. k = RQuery"
  let ?fvs = "fields_with ?P fs vals"
  have qs: "map fst ?fvs = of_kind ?P fs" by (rule fields_with_fst[OF l])
  have hq: "has_query_fields fs" using q by (auto simp: has_query_fields_def of_kind_def list_ex_iff filter_empty_conv)
  have val: "query_val ?E (f_ty (af_decl f)) v" if "(f, v) \<in> set ?fvs" for f v
    using fields_with_all(1,2)[OF v that] by simp
  let ?members = "map (\<lambda>(f, v). (f_name (af_decl f), query_ser (f_ty (af_decl f)) v)) ?fvs"
  have "list_all (\<lambda>f. query_field_ok (af_decl f)) (map fst ?fvs)" using ok by (simp add: qs query_ok_def Let_def)
  moreover have "distinct (map (\<lambda>p. f_name (af_decl (fst p))) ?fvs)"
    using ok unfolding query_ok_def Let_def qs[symmetric] by (simp add: comp_def)
  ultimately obtain ps where ps: "url_serialize (SStruct ?n (query_members fs vals)) [] = Ok ps"
      "url_deserialize (QStruct ?n (map (query_field_of \<circ> af_decl) (map fst ?fvs))) (group_entries ps) = Some (SStruct ?n ?members)"
    using query_struct_back[of ?fvs ?E ?n] val by (auto simp: query_members_def)
  have w: "request_query fs vals = Some (SStruct ?n (query_members fs vals))" using m hq by (simp add: request_query_def)
  have io': "form_parse ?F (form_encode ?F ps) = ps" using io by (simp only: query_io_def w ps(1) option.case result.case)
  have read: "from_str ?F (QStruct ?n (map (query_field_of \<circ> af_decl) (of_kind ?P fs))) (form_encode ?F ps) = Some (SStruct ?n ?members)"
    using ps(2) by (simp add: from_str_def from_bytes_def io' qs)
  have vars: "map_res (read_query_field IO) (zip (of_kind ?P fs) ?members) = Ok (map (\<lambda>(f, v). (af_ident f, v)) ?fvs)"
  proof -
    have "read_query_field IO (f, f_name (af_decl f), query_ser (f_ty (af_decl f)) w) = Ok (af_ident f, w)"
      if m: "(f, w) \<in> set ?fvs" for f w
    proof -
      have "f \<in> set (of_kind ?P fs)" using m by (force simp: qs[symmetric])
      then have "query_ty (f_ty (af_decl f))" using ok by (simp add: query_ok_def Let_def list_all_iff query_field_ok_def)
      then show ?thesis using query_de_ser val[OF m] by (simp add: read_query_field_def)
    qed
    then have "map_res (read_query_field IO) (map (\<lambda>(f, v). (f, f_name (af_decl f), query_ser (f_ty (af_decl f)) v)) gvs)
        = Ok (map (\<lambda>(f, v). (af_ident f, v)) gvs)" if "set gvs \<subseteq> set ?fvs" for gvs
      using that by (induction gvs) auto
    moreover have "zip (of_kind ?P fs) ?members = map (\<lambda>(f, v). (f, f_name (af_decl f), query_ser (f_ty (af_decl f)) v)) ?fvs"
      by (simp add: qs[symmetric] zip_map_map zip_same_conv_map comp_def case_prod_beta)
    ultimately show ?thesis by simp
  qed
  have "of_kind (\<lambda>k. k = RQueryMap) fs = []" using m fields_with_Nil[OF l] by simp
  then have "read_query IO ep (Some (form_encode ?F ps)) = Ok (map (\<lambda>(f, v). (af_ident f, v)) ?fvs)"
    using q read vars by (simp add: read_query_def fs Let_def)
  moreover have "reads (\<lambda>k. k = RQuery \<or> k = RQueryMap) fs vals (map (\<lambda>(f, v). (af_ident f, v)) ?fvs)"
    using reads_fields_with[OF l, of ?P] of_kind_empty[OF \<open>of_kind (\<lambda>k. k = RQueryMap) fs = []\<close>] by (auto simp: reads_def)
  moreover have "request_query_string IO ep vals = Ok (''?'' @ form_encode ?F ps)"
    using ps(1) by (simp add: request_query_string_def fs w to_string_def)
  ultimately show ?thesis by (intro exI[of _ "''?'' @ form_encode ?F ps"]) (simp add: query_part_def)
qed

lemma query_read:
  assumes l: "length fs = length vals" and ok: "query_ok fs"
    and v: "list_all2 (\<lambda>f v. request_val (io_env IO) (af_kind f) (f_ty (af_decl f)) v) fs vals"
    and io: "query_io IO fs vals" and fs: "ep_request ep = fs"
  shows "\<exists>s vars. request_query_string IO ep vals = Ok s \<and> read_query IO ep (query_part s) = Ok vars
    \<and> reads (\<lambda>k. k = RQuery \<or> k = RQueryMap) fs vals vars"
proof (cases "fields_with (\<lambda>k. k = RQueryMap) fs vals")
  case (Cons p ps)
  obtain f w where p: "p = (f, w)" by (cases p)
  have n: "of_kind (\<lambda>k. k = RQueryMap) fs = f # map fst ps"
    using fields_with_fst[OF l, of "\<lambda>k. k = RQueryMap"] by (simp add: Cons p)
  then have e: "ps = []" "of_kind (\<lambda>k. k = RQuery) fs = []" using ok by (auto simp: query_ok_def Let_def)
  have m: "(f, w) \<in> set (fields_with (\<lambda>k. k = RQueryMap) fs vals)" by (simp add: Cons p)
  have "request_val (io_env IO) RQueryMap (f_ty (af_decl f)) w"
    using fields_with_all(1)[OF v m] unfolding fields_with_all(2)[OF v m] .
  then have "has_type (io_env IO) (FMap AnyText (FText AnyText)) w" by (simp only: request_val.simps)
  then show ?thesis using query_map_read[OF l _ _ e(2) io fs] Cons p e(1) by blast
next
  case Nil
  show ?thesis
  proof (cases "of_kind (\<lambda>k. k = RQuery) fs = []")
    case True
    have k: "of_kind (\<lambda>k. k = RQueryMap) fs = []" using Nil fields_with_Nil[OF l] by simp
    have "\<not> has_query_fields fs" using of_kind_empty[OF True] by (auto simp: has_query_fields_def list_ex_iff)
    then have "request_query_string IO ep vals = Ok []" by (simp add: request_query_string_def fs request_query_def Nil)
    moreover have "read_query IO ep (query_part []) = Ok []" by (simp add: read_query_def fs k True query_part_def)
    moreover have "reads (\<lambda>k. k = RQuery \<or> k = RQueryMap) fs vals []"
      by (rule reads_none) (use of_kind_empty[OF True] of_kind_empty[OF k] in blast)
    ultimately show ?thesis by blast
  next
    case False
    then show ?thesis using query_fields_read[OF l Nil _ ok v io fs] by blast
  qed
qed

section \<open>Headers\<close>

definition header_text :: "ty \<Rightarrow> val \<Rightarrow> string option" where
  "header_text t v = (if is_option t then (case v of VSome w \<Rightarrow> Some (text_of w) | _ \<Rightarrow> None) else Some (text_of v))"

text \<open>\<open>HeaderValue\<close> takes the text and gives it back.\<close>

definition header_io :: "api_io \<Rightarrow> string \<Rightarrow> bool" where
  "header_io IO s \<longleftrightarrow> (case header_from_str IO s of Some h \<Rightarrow> header_to_str IO h = Some s | None \<Rightarrow> False)"

definition headers_io :: "api_io \<Rightarrow> (string \<times> ty \<times> val) list \<Rightarrow> bool" where
  "headers_io IO hfs \<longleftrightarrow> list_all (\<lambda>(name, t, v). case header_text t v of Some s \<Rightarrow> header_io IO s | None \<Rightarrow> True) hfs"

lemma map_of_filter_key: "map_of (filter (\<lambda>h. fst h \<noteq> k) hs) k' = (if k' = k then None else map_of hs k')"
  by (induction hs) auto

lemma map_of_header_insert: "map_of (header_insert k v hs) k' = (if k' = k then Some v else map_of hs k')"
  by (simp add: header_insert_def map_of_filter_key)

lemma map_of_header_remove: "map_of (header_remove k hs) k' = (if k' = k then None else map_of hs k')"
  by (simp add: header_remove_def map_of_filter_key)

text \<open>What \<open>put_headers\<close> leaves under the name of each field.\<close>

definition header_put :: "api_io \<Rightarrow> (string \<times> string) list \<Rightarrow> (string \<times> string) list \<Rightarrow> string \<times> ty \<times> val \<Rightarrow> bool" where
  "header_put IO hs hs' = (\<lambda>(name, t, v). map_of hs' (header_name name) =
     (case header_text t v of Some s \<Rightarrow> header_from_str IO s | None \<Rightarrow> map_of hs (header_name name)))"

lemma put_headers_ok:
  assumes "headers_io IO hfs" "distinct (map (\<lambda>h. header_name (fst h)) hfs)"
  shows "\<exists>hs'. put_headers IO hfs hs = Ok hs' \<and> list_all (header_put IO hs hs') hfs
    \<and> (\<forall>k. k \<notin> (\<lambda>h. header_name (fst h)) ` set hfs \<longrightarrow> map_of hs' k = map_of hs k)"
  using assms
proof (induction hfs arbitrary: hs)
  case (Cons h hfs)
  obtain name t v where h: "h = (name, t, v)" by (metis surj_pair)
  let ?n = "header_name name"
  have "\<exists>hs1. (if is_option t then (case v of VSome w \<Rightarrow> put_header IO name (text_of w) hs | _ \<Rightarrow> Ok hs)
        else put_header IO name (text_of v) hs) = Ok hs1
      \<and> map_of hs1 ?n = (case header_text t v of Some s \<Rightarrow> header_from_str IO s | None \<Rightarrow> map_of hs ?n)
      \<and> (\<forall>k. k \<noteq> ?n \<longrightarrow> map_of hs1 k = map_of hs k)"
  proof (cases "header_text t v")
    case None
    then show ?thesis by (auto simp: header_text_def split: if_splits val.splits)
  next
    case (Some s)
    then obtain x where x: "header_from_str IO s = Some x"
      using Cons.prems(1) by (auto simp: headers_io_def h header_io_def split: option.splits)
    have "put_header IO name s hs = Ok (header_insert ?n x hs)" by (simp add: put_header_def x)
    then show ?thesis using Some x
      by (auto simp: header_text_def map_of_header_insert split: if_splits val.splits)
  qed
  then obtain hs1 where hs1: "(if is_option t then (case v of VSome w \<Rightarrow> put_header IO name (text_of w) hs | _ \<Rightarrow> Ok hs)
        else put_header IO name (text_of v) hs) = Ok hs1"
      "map_of hs1 ?n = (case header_text t v of Some s \<Rightarrow> header_from_str IO s | None \<Rightarrow> map_of hs ?n)"
      "\<And>k. k \<noteq> ?n \<Longrightarrow> map_of hs1 k = map_of hs k" by blast
  have "headers_io IO hfs" "distinct (map (\<lambda>h. header_name (fst h)) hfs)" using Cons.prems by (auto simp: headers_io_def)
  then obtain hs' where hs': "put_headers IO hfs hs1 = Ok hs'" "list_all (header_put IO hs1 hs') hfs"
      "\<And>k. k \<notin> (\<lambda>h. header_name (fst h)) ` set hfs \<Longrightarrow> map_of hs' k = map_of hs1 k" using Cons.IH by blast
  have n: "?n \<notin> (\<lambda>h. header_name (fst h)) ` set hfs" using Cons.prems(2) by (simp add: h)
  have "header_put IO hs hs' h" using hs'(3)[OF n] hs1(2) by (simp add: header_put_def h)
  moreover have "list_all (header_put IO hs hs') hfs"
  proof -
    have "header_put IO hs hs' (name', t', v')" if "(name', t', v') \<in> set hfs" for name' t' v'
    proof -
      have "header_name name' \<noteq> ?n" using n that by force
      then have "map_of hs1 (header_name name') = map_of hs (header_name name')" by (rule hs1(3))
      moreover have "header_put IO hs1 hs' (name', t', v')" using bspec[OF hs'(2)[unfolded list_all_iff] that] .
      ultimately show ?thesis by (simp add: header_put_def cong: option.case_cong)
    qed
    then show ?thesis by (auto simp: list_all_iff)
  qed
  moreover have "put_headers IO (h # hfs) hs = Ok hs'" using hs1(1) hs'(1) by (simp add: h)
  ultimately show ?case using hs'(3) hs1(3) by (intro exI[of _ hs']) (auto simp: h)
qed simp

definition headers_ok :: "('k \<Rightarrow> string option) \<Rightarrow> 'k api_field list \<Rightarrow> bool" where
  "headers_ok name_of fs \<longleftrightarrow> distinct (map (\<lambda>h. header_name (fst h)) (header_idents name_of fs))
     \<and> list_all (\<lambda>h. header_name (fst h) \<noteq> ''authorization'') (header_idents name_of fs)"

lemma header_fields_names:
  "length fs = length vals \<Longrightarrow> map fst (header_fields name_of fs vals) = map fst (header_idents name_of fs)"
  by (induction fs vals rule: list_induct2) (auto simp: header_fields_def header_idents_def List.map_filter_def)

text \<open>An optional header field that is absent must not find the content type that the macro sets by itself.\<close>

definition absent_ok :: "(string \<times> string) list \<Rightarrow> (string \<times> ty \<times> val) list \<Rightarrow> bool" where
  "absent_ok hs hfs \<longleftrightarrow> list_all (\<lambda>(name, t, v). header_text t v = None \<longrightarrow> map_of hs (header_name name) = None) hfs"

text \<open>What a field finds in the headers of the message.\<close>

definition header_there :: "api_io \<Rightarrow> (string \<times> string) list \<Rightarrow> string \<Rightarrow> ty \<Rightarrow> val \<Rightarrow> bool" where
  "header_there IO hs name t v \<longleftrightarrow> (case map_of hs (header_name name) of
     Some x \<Rightarrow> (case header_to_str IO x of Some s \<Rightarrow> v = (if is_option t then VSome (VText s) else VText s) | None \<Rightarrow> False)
   | None \<Rightarrow> is_option t \<and> v = VNone)"

lemma header_found:
  assumes p: "header_put IO hs0 hs' (name, t, v)" and a: "absent_ok hs0 [(name, t, v)]"
    and io: "headers_io IO [(name, t, v)]" and v: "header_val t v" and k: "map_of hs (header_name name) = map_of hs' (header_name name)"
  shows "header_there IO hs name t v"
proof (cases "header_text t v")
  case None
  then have "map_of hs (header_name name) = None" using p a k by (simp add: header_put_def absent_ok_def)
  moreover have "is_option t" "v = VNone"
    using None v by (auto simp: header_text_def header_val_def split: if_splits val.splits)
  ultimately show ?thesis by (simp add: header_there_def)
next
  case (Some s)
  then obtain x where x: "header_from_str IO s = Some x" "header_to_str IO x = Some s"
    using io by (auto simp: headers_io_def header_io_def split: option.splits)
  then have "map_of hs (header_name name) = Some x" using p k Some by (simp add: header_put_def)
  moreover have "v = (if is_option t then VSome (VText s) else VText s)"
    using Some v by (auto simp: header_text_def header_val_def split: if_splits val.splits)
  ultimately show ?thesis using x(2) by (simp add: header_there_def)
qed

lemma header_read: "header_there IO hs name (f_ty (af_decl f)) v \<Longrightarrow> read_header IO hs (name, f) = Ok (af_ident f, v)"
  by (auto simp: header_there_def read_header_def split: option.splits)

section \<open>Paths\<close>

definition subst_segment :: "(string \<Rightarrow> string) \<Rightarrow> string \<Rightarrow> string" where
  "subst_segment arg seg = (if starts_with '':'' seg then arg (tl seg) else seg)"

lemma subst_segment_other: "CHR '':'' \<notin> set seg \<Longrightarrow> subst_segment arg seg = seg"
  by (cases seg) (auto simp: subst_segment_def)

lemma format_path_parts:
  assumes "str_find (CHR '':'') s = Some start" "start \<noteq> 0" "s ! (start - 1) = CHR ''/''"
  obtains a var rest where "s = a @ CHR ''/'' # CHR '':'' # var @ rest" "CHR '':'' \<notin> set a" "CHR ''/'' \<notin> set var"
    "rest = [] \<or> (\<exists>r. rest = CHR ''/'' # r)"
    "\<And>arg. format_path arg s = and_then (format_path arg rest) (\<lambda>p. Ok (a @ CHR ''/'' # arg var @ p) :: (string, 'e) result)"
    "\<And>arg. format_path arg s = and_then (format_path arg rest) (\<lambda>p. Ok (a @ CHR ''/'' # arg var @ p) :: (string, 'f) result)"
proof -
  have sp: "s = take start s @ CHR '':'' # drop (Suc start) s" "CHR '':'' \<notin> set (take start s)" "start < length s"
    using str_find_split[OF assms(1)] by auto
  obtain n where n: "start = Suc n" using assms(2) not0_implies_Suc by blast
  have t: "take start s = take n s @ [CHR ''/'']" using sp(3) assms(3) by (simp add: n take_Suc_conv_app_nth)
  let ?tail = "drop start s" and ?after = "drop (Suc start) s"
  have tail: "?tail = CHR '':'' # ?after" using Cons_nth_drop_Suc[OF sp(3)] assms(1) by (simp add: str_find_Some)
  define len where "len = (case str_find (CHR ''/'') ?tail of Some rel_pos \<Rightarrow> rel_pos | None \<Rightarrow> length ?tail)"
  have len0: "0 < len" using sp(3) tail by (auto simp: len_def str_find_Some split: option.splits intro!: gr0I)
  have var: "take (len - 1) ?after = tl (take len ?tail)" using len0 by (cases len) (simp_all add: tail)
  have ns: "CHR ''/'' \<notin> set (take len ?tail)"
    by (auto simp: len_def str_find_None str_find_Some split: option.splits dest: in_set_takeD)
  have rest: "drop (start + len) s = [] \<or> (\<exists>r. drop (start + len) s = CHR ''/'' # r)"
  proof (cases "str_find (CHR ''/'') ?tail")
    case (Some m)
    then have "m < length ?tail" "?tail ! m = CHR ''/''" unfolding str_find_Some by blast+
    moreover have "len = m" by (simp add: len_def Some)
    ultimately have "drop len ?tail = CHR ''/'' # drop (Suc len) ?tail" by (metis Cons_nth_drop_Suc)
    then show ?thesis by (simp add: add.commute)
  qed (simp add: len_def)
  show thesis
  proof
    show "s = take n s @ CHR ''/'' # CHR '':'' # take (len - 1) ?after @ drop (start + len) s"
    proof -
      have "s = take start s @ ?tail" by simp
      also have "?tail = take len ?tail @ drop (start + len) s" by (metis append_take_drop_id drop_drop add.commute)
      also have "take len ?tail = CHR '':'' # take (len - 1) ?after" using len0 by (cases len) (simp_all add: tail)
      finally show ?thesis using t by (metis append.assoc append_Cons append_Nil)
    qed
    show "CHR '':'' \<notin> set (take n s)" using sp(2) t by simp
    show "CHR ''/'' \<notin> set (take (len - 1) ?after)" using ns unfolding var by (metis list.set_sel(2) tl_Nil)
    show "drop (start + len) s = [] \<or> (\<exists>r. drop (start + len) s = CHR ''/'' # r)" by (rule rest)
    show "format_path arg s = and_then (format_path arg (drop (start + len) s))
        (\<lambda>p. Ok (take n s @ CHR ''/'' # arg (take (len - 1) ?after) @ p) :: (string, 'e) result)" for arg
      using assms(2,3) by (subst format_path.simps) (simp add: assms(1) len_def[symmetric] Let_def t)
    show "format_path arg s = and_then (format_path arg (drop (start + len) s))
        (\<lambda>p. Ok (take n s @ CHR ''/'' # arg (take (len - 1) ?after) @ p) :: (string, 'f) result)" for arg
      using assms(2,3) by (subst format_path.simps) (simp add: assms(1) len_def[symmetric] Let_def t)
  qed
qed

lemma format_path_segments:
  assumes "format_path arg s = (Ok out :: (string, 'e) result)" "\<And>seg. seg \<in> set (str_split (CHR ''/'') s) \<Longrightarrow> CHR ''/'' \<notin> set (subst_segment arg seg)"
  shows "str_split (CHR ''/'') out = map (subst_segment arg) (str_split (CHR ''/'') s)"
  using assms
proof (induction s arbitrary: out rule: length_induct)
  case (1 s)
  show ?case
  proof (cases "str_find (CHR '':'') s")
    case None
    then have o: "out = s" "CHR '':'' \<notin> set s" using "1.prems"(1) by (subst (asm) format_path.simps, auto simp: str_find_None)+
    then have "map (subst_segment arg) (str_split (CHR ''/'') s) = str_split (CHR ''/'') s"
      by (intro map_idI subst_segment_other) (use str_split_parts in blast)
    then show ?thesis by (simp add: o(1))
  next
    case (Some start)
    then have st: "start \<noteq> 0" "s ! (start - 1) = CHR ''/''"
      using "1.prems"(1) by (subst (asm) format_path.simps, auto split: if_splits)+
    obtain a var rest where s: "s = a @ CHR ''/'' # CHR '':'' # var @ rest" "CHR '':'' \<notin> set a" "CHR ''/'' \<notin> set var"
        "rest = [] \<or> (\<exists>r. rest = CHR ''/'' # r)"
        "\<And>arg. format_path arg s = and_then (format_path arg rest) (\<lambda>p. Ok (a @ CHR ''/'' # arg var @ p) :: (string, 'e) result)"
      by (rule format_path_parts[OF Some st]) (rule that; assumption)
    obtain p where p: "format_path arg rest = (Ok p :: (string, 'e) result)" "out = a @ CHR ''/'' # arg var @ p"
    proof -
      have "\<exists>p. format_path arg rest = (Ok p :: (string, 'e) result) \<and> out = a @ CHR ''/'' # arg var @ p"
        using "1.prems"(1) by (auto simp: s(5) res_simps)
      then show ?thesis using that by blast
    qed
    have split: "str_split (CHR ''/'') s = str_split (CHR ''/'') a @ str_split (CHR ''/'') (CHR '':'' # var @ rest)"
      by (simp only: s(1) str_split_concat)
    have a: "map (subst_segment arg) (str_split (CHR ''/'') a) = str_split (CHR ''/'') a"
      by (intro map_idI subst_segment_other) (use str_split_parts s(2) in blast)
    have "str_split (CHR ''/'') (arg var @ p) = map (subst_segment arg) (str_split (CHR ''/'') (CHR '':'' # var @ rest))"
      using s(4)
    proof
      assume r: "rest = []"
      have v: "str_split (CHR ''/'') (CHR '':'' # var) = [CHR '':'' # var]" using s(3) by (intro str_split_none) auto
      have "CHR ''/'' \<notin> set (arg var)"
        using "1.prems"(2)[of "CHR '':'' # var"] by (simp add: split r v subst_segment_def del: str_split.simps)
      moreover have "p = []" using p(1) by (simp add: r format_path.simps)
      ultimately show ?thesis by (simp add: r v subst_segment_def str_split_none del: str_split.simps)
    next
      assume "\<exists>r. rest = CHR ''/'' # r"
      then obtain r where r: "rest = CHR ''/'' # r" by blast
      have v: "str_split (CHR ''/'') (CHR '':'' # var @ CHR ''/'' # r) = (CHR '':'' # var) # str_split (CHR ''/'') r"
        using str_split_append[of "CHR ''/''" "CHR '':'' # var" r] s(3) by simp
      have "CHR ''/'' \<notin> set (arg var)"
        using "1.prems"(2)[of "CHR '':'' # var"] by (simp add: split r v subst_segment_def del: str_split.simps)
      have "str_split (CHR ''/'') p = map (subst_segment arg) (str_split (CHR ''/'') rest)"
      proof (rule "1.IH"[rule_format, OF _ p(1)])
        show "length rest < length s" by (simp add: s(1))
        fix seg assume "seg \<in> set (str_split (CHR ''/'') rest)"
        then have "seg = [] \<or> seg \<in> set (str_split (CHR ''/'') s)" unfolding split r v by (auto simp: r)
        then show "CHR ''/'' \<notin> set (subst_segment arg seg)"
        proof
          assume "seg = []"
          then show ?thesis by (simp add: subst_segment_def)
        qed (rule "1.prems"(2))
      qed
      then have "str_split (CHR ''/'') p = [] # map (subst_segment arg) (str_split (CHR ''/'') r)" by (simp add: r subst_segment_def)
      then obtain t where "p = CHR ''/'' # t" "str_split (CHR ''/'') t = map (subst_segment arg) (str_split (CHR ''/'') r)"
        using str_split_empty_head[of "CHR ''/''" p] by auto
      then show ?thesis using str_split_append[of "CHR ''/''" "arg var" t] \<open>CHR ''/'' \<notin> set (arg var)\<close>
        by (simp add: r v subst_segment_def del: str_split.simps)
    qed
    then show ?thesis by (simp only: p(2) str_split_concat split map_append a)
  qed
qed

lemma format_path_any: "format_path arg s = (Ok out :: (string, 'e) result) \<Longrightarrow> \<exists>out'. format_path arg' s = (Ok out' :: (string, 'f) result)"
proof (induction s arbitrary: out rule: length_induct)
  case (1 s)
  show ?case
  proof (cases "str_find (CHR '':'') s")
    case None
    then show ?thesis by (subst format_path.simps) simp
  next
    case (Some start)
    then have st: "start \<noteq> 0" "s ! (start - 1) = CHR ''/''"
      using "1.prems"(1) by (subst (asm) format_path.simps, auto split: if_splits)+
    obtain a var rest where s: "s = a @ CHR ''/'' # CHR '':'' # var @ rest"
        "\<And>arg. format_path arg s = and_then (format_path arg rest) (\<lambda>p. Ok (a @ CHR ''/'' # arg var @ p) :: (string, 'e) result)"
        "\<And>arg. format_path arg s = and_then (format_path arg rest) (\<lambda>p. Ok (a @ CHR ''/'' # arg var @ p) :: (string, 'f) result)"
      by (rule format_path_parts[OF Some st]) (rule that; assumption)
    obtain p where "format_path arg rest = (Ok p :: (string, 'e) result)" using "1.prems" by (auto simp: s(2) res_simps)
    moreover have "length rest < length s" by (simp add: s(1))
    ultimately obtain p' where "format_path arg' rest = (Ok p' :: (string, 'f) result)" using "1.IH" by blast
    then show ?thesis by (simp add: s(3))
  qed
qed

definition path_ok :: "string \<Rightarrow> request_kind api_field list \<Rightarrow> bool" where
  "path_ok path fs \<longleftrightarrow> has_path_fields fs \<longrightarrow>
     set (map snd (path_vars path)) = set (map af_ident (of_kind (\<lambda>k. k = RPath) fs))"

text \<open>\<open>percent-encoding\<close> leaves no slash and is undone by decoding.\<close>

definition path_io :: "api_io \<Rightarrow> request_kind api_field list \<Rightarrow> val list \<Rightarrow> bool" where
  "path_io IO fs vals \<longleftrightarrow> list_all (\<lambda>(f, v). CHR ''/'' \<notin> set (pct_encode IO (to_path_text v))
     \<and> pct_decode IO (pct_encode IO (to_path_text v)) = Some (to_path_text v)) (fields_with (\<lambda>k. k = RPath) fs vals)"

lemma path_vars_iff:
  "(i, var) \<in> set (path_vars path) \<longleftrightarrow> i < length (str_split (CHR ''/'') (tl path))
     \<and> starts_with '':'' (str_split (CHR ''/'') (tl path) ! i) \<and> var = tl (str_split (CHR ''/'') (tl path) ! i)"
proof -
  let ?es = "enumerate 0 (str_split (CHR ''/'') (tl path))"
  have "(i, var) \<in> set (List.map_filter (\<lambda>(i, seg). if starts_with '':'' seg then Some (i, tl seg) else None) es)
      \<longleftrightarrow> (\<exists>seg. (i, seg) \<in> set es \<and> starts_with '':'' seg \<and> var = tl seg)" for es
    by (induction es) (auto simp: map_filter_simps split: if_splits)
  then show ?thesis by (auto simp: path_vars_def in_set_enumerate_eq)
qed

lemma from_path_text_ok: "path_val E t v \<Longrightarrow> from_path_text E t (to_path_text v) = Ok v"
  by (auto simp: path_val_def text_ok_def split: ty.splits val.splits)

lemma ident_lookup:
  assumes "distinct (map af_ident fs)" "(f, v) \<in> set (zip fs vals)"
  shows "map_of (to_ident_map fs vals) (af_ident f) = Some v" "ident_type fs (af_ident f) = f_ty (af_decl f)"
proof -
  obtain i where i: "i < length fs" "i < length vals" "f = fs ! i" "v = vals ! i" using assms(2) by (auto simp: set_zip)
  have "distinct (map fst (to_ident_map fs vals))"
    using assms(1) by (simp add: to_ident_map_def map_fst_zip_take distinct_take take_map[symmetric])
  moreover have "(af_ident f, v) \<in> set (to_ident_map fs vals)"
    using i by (auto simp: to_ident_map_def set_zip intro!: exI[of _ i])
  ultimately show "map_of (to_ident_map fs vals) (af_ident f) = Some v" by simp
  have "f \<in> set fs" using i by simp
  then have "map_of (map (\<lambda>f. (af_ident f, f_ty (af_decl f))) fs) (af_ident f) = Some (f_ty (af_decl f))"
    using assms(1) by (intro map_of_is_SomeI) (auto simp: comp_def)
  then show "ident_type fs (af_ident f) = f_ty (af_decl f)" by (simp add: ident_type_def)
qed

lemma path_read:
  assumes l: "length fs = length vals" and d: "distinct (map af_ident fs)" and ok: "path_ok path fs"
    and v: "list_all2 (\<lambda>f v. request_val (io_env IO) (af_kind f) (f_ty (af_decl f)) v) fs vals"
    and io: "path_io IO fs vals" and fs: "ep_request ep = fs" and p: "md_path (ep_meta ep) = path"
    and hp: "has_path_fields fs" and fmt: "format_path (\<lambda>_. []) path = (Ok q0 :: (string, macro_error) result)"
    and slash: "starts_with ''/'' path"
  shows "\<exists>q vars. request_path_string IO ep vals = Ok q \<and> read_path IO ep q = Ok vars \<and> reads (\<lambda>k. k = RPath) fs vals vars"
proof -
  let ?arg = "path_argument IO fs vals" and ?m = "to_ident_map fs vals" and ?split = "str_split (CHR ''/'')"
  have var: "\<exists>f w. var = af_ident f \<and> f \<in> set fs \<and> map_of ?m var = Some w \<and> (var, w) \<in> set ?m
      \<and> ident_type fs var = f_ty (af_decl f) \<and> path_val (io_env IO) (f_ty (af_decl f)) w
      \<and> CHR ''/'' \<notin> set (?arg var) \<and> pct_decode IO (?arg var) = Some (to_path_text w)"
    if "var \<in> snd ` set (path_vars path)" for var
  proof -
    have "var \<in> set (map af_ident (of_kind (\<lambda>k. k = RPath) fs))" using ok hp that by (simp add: path_ok_def)
    then obtain f where "f \<in> set (map fst (fields_with (\<lambda>k. k = RPath) fs vals))" and f: "var = af_ident f"
      by (auto simp: fields_with_fst[OF l])
    then obtain w where w: "(f, w) \<in> set (fields_with (\<lambda>k. k = RPath) fs vals)" by force
    have z: "(f, w) \<in> set (zip fs vals)" using w by (simp add: fields_with_def)
    note lookup = ident_lookup[OF d z]
    have "?arg var = pct_encode IO (to_path_text w)" by (simp add: path_argument_def lookup f)
    moreover have "path_val (io_env IO) (f_ty (af_decl f)) w" using fields_with_all(1,2)[OF v w] by simp
    moreover have "f \<in> set fs" using z by (rule set_zip_leftD)
    moreover have "CHR ''/'' \<notin> set (pct_encode IO (to_path_text w)) \<and> pct_decode IO (pct_encode IO (to_path_text w)) = Some (to_path_text w)"
      using io w by (auto simp: path_io_def list_all_iff)
    ultimately show ?thesis using lookup map_of_SomeD[OF lookup(1)] unfolding f
      by (intro exI[of _ f] exI[of _ w]) simp
  qed
  obtain path' where path: "path = CHR ''/'' # path'" using slash by (cases path) (auto simp: starts_with_iff)
  obtain q where q: "format_path ?arg path = (Ok q :: (string, into_http_error) result)" using format_path_any[OF fmt] by blast
  have "?split q = map (subst_segment ?arg) (?split path)"
  proof (rule format_path_segments[OF q])
    fix seg assume seg: "seg \<in> set (?split path)"
    show "CHR ''/'' \<notin> set (subst_segment ?arg seg)"
    proof (cases "starts_with '':'' seg")
      case True
      then have "seg \<in> set (?split path')" using seg by (auto simp: path)
      then obtain i where "i < length (?split path')" "seg = ?split path' ! i" by (metis in_set_conv_nth)
      then have "(i, tl seg) \<in> set (path_vars path)" using True by (simp add: path_vars_iff path)
      then have "tl seg \<in> snd ` set (path_vars path)" by force
      then show ?thesis using var[of "tl seg"] True by (auto simp: subst_segment_def)
    qed (use str_split_clean[OF seg] in \<open>simp add: subst_segment_def\<close>)
  qed
  then have "?split q = [] # map (subst_segment ?arg) (?split path')" by (simp add: path subst_segment_def)
  then obtain q' where q': "q = CHR ''/'' # q'" "?split q' = map (subst_segment ?arg) (?split path')"
    using str_split_empty_head[of "CHR ''/''" q] by auto
  let ?vars = "map (\<lambda>(i, var). (var, the (map_of ?m var))) (path_vars path)"
  have "map_res (read_path_var IO fs (?split q')) (path_vars path) = Ok ?vars"
  proof (rule map_res_Ok_map)
    fix x assume x: "x \<in> set (path_vars path)"
    obtain i var where iv: "x = (i, var)" by (cases x)
    have i: "i < length (?split path')" "?split q' ! i = ?arg var"
      using x by (auto simp: iv path_vars_iff path q'(2) subst_segment_def)
    have "var \<in> snd ` set (path_vars path)" using x by (force simp: iv)
    from var[OF this] obtain f w where "f \<in> set fs" "map_of ?m var = Some w" "ident_type fs var = f_ty (af_decl f)"
        "path_val (io_env IO) (f_ty (af_decl f)) w" "pct_decode IO (?arg var) = Some (to_path_text w)"
      by blast
    then show "read_path_var IO fs (?split q') x = Ok ((\<lambda>(i, var). (var, the (map_of ?m var))) x)"
      using i from_path_text_ok by (simp add: read_path_var_def iv q'(2))
  qed
  moreover have "reads (\<lambda>k. k = RPath) fs vals ?vars"
  proof -
    have "(var, the (map_of ?m var)) \<in> set ?m" if "(i, var) \<in> set (path_vars path)" for i var
    proof -
      have "var \<in> snd ` set (path_vars path)" using that by force
      then show ?thesis using var[of var] by auto
    qed
    moreover have "af_ident f \<in> fst ` set ?vars" if "f \<in> set fs" "af_kind f = RPath" for f
    proof -
      have "af_ident f \<in> set (map snd (path_vars path))"
        using ok hp that by (auto simp: path_ok_def of_kind_def)
      then show ?thesis by force
    qed
    ultimately show ?thesis by (auto simp: reads_def)
  qed
  ultimately show ?thesis using q hp by (intro exI[of _ q] exI[of _ ?vars])
    (simp add: request_path_string_def read_path_def fs p q'(1))
qed

end
