(* ===== verification/Http_Roundtrip.thy ===== *)
theory Http_Roundtrip
  imports Api_Roundtrip
begin

text \<open>The two theorems of the \<^verbatim>\<open>ruma_api!\<close> macro: an expanded endpoint whose fields are well described (\<open>endpoint_ok\<close>)
  reads every request and every response back from the HTTP message that was made of it.  What the crates around the generated
  code are relied on for is \<open>request_io\<close> and \<open>response_io\<close>: the texts that are written for this value read back.\<close>

section \<open>Headers of requests\<close>

definition auth_io :: "api_io \<Rightarrow> auth_scheme \<Rightarrow> send_access_token \<Rightarrow> bool" where
  "auth_io IO auth access_token \<longleftrightarrow> (case auth of
     AccessToken \<Rightarrow> (case get_required_for_endpoint access_token of
       Some tok \<Rightarrow> header_from_str IO (''Bearer '' @ tok) \<noteq> None | None \<Rightarrow> False)
   | AuthNone \<Rightarrow> (case get_not_required_for_endpoint access_token of
       Some tok \<Rightarrow> header_from_str IO (''Bearer '' @ tok) \<noteq> None | None \<Rightarrow> True)
   | _ \<Rightarrow> True)"

lemma authorization_name: "header_name ''AUTHORIZATION'' = ''authorization''"
  by code_simp

lemma put_authorization:
  "header_from_str IO s \<noteq> None \<Longrightarrow> \<exists>hs'. put_header IO ''AUTHORIZATION'' s hs = Ok hs'
     \<and> (\<forall>k. k \<noteq> ''authorization'' \<longrightarrow> map_of hs' k = map_of hs k)"
  by (auto simp: put_header_def authorization_name map_of_header_insert)

lemma authorize_Ok:
  "auth_io IO auth tok \<Longrightarrow> \<exists>hs'. authorize IO auth tok hs = Ok hs' \<and> (\<forall>k. k \<noteq> ''authorization'' \<longrightarrow> map_of hs' k = map_of hs k)"
  using put_authorization by (auto simp: auth_io_def authorize_def split: auth_scheme.splits option.splits)

lemma header_fields_in:
  "(f, v) \<in> set (zip fs vals) \<Longrightarrow> name_of (af_kind f) = Some name \<Longrightarrow>
     (name, f_ty (af_decl f), v) \<in> set (header_fields name_of fs vals) \<and> (name, f) \<in> set (header_idents name_of fs)"
  by (auto simp: header_fields_def header_idents_def map_filter_def dest: set_zip_leftD intro!: image_eqI[of _ _ "(f, v)"] image_eqI[of _ _ f])

lemma headers_distinct:
  assumes "length fs = length vals" "headers_ok name_of fs"
  shows "distinct (map (\<lambda>h. header_name (fst h)) (header_fields name_of fs vals))"
proof -
  have "map (\<lambda>h. header_name (fst h)) (header_fields name_of fs vals) = map header_name (map fst (header_fields name_of fs vals))"
    by simp
  then show ?thesis using assms(2) by (simp add: header_fields_names[OF assms(1)] headers_ok_def comp_def)
qed

lemma list_all_member: "list_all P xs \<Longrightarrow> x \<in> set xs \<Longrightarrow> list_all P [x]"
  by (simp add: list_all_iff)

abbreviation initial_headers :: "request_kind api_field list \<Rightarrow> (string \<times> string) list" where
  "initial_headers fs \<equiv> (if has_raw_body request_part fs \<or> has_body_fields request_part fs
     then [(''content-type'', ''application/json'')] else [])"

lemma headers_read:
  assumes l: "length fs = length vals" and ok: "headers_ok request_header fs"
    and v: "list_all2 (\<lambda>f v. request_val (io_env IO) (af_kind f) (f_ty (af_decl f)) v) fs vals"
    and io: "headers_io IO (header_fields request_header fs vals)"
    and a: "absent_ok (initial_headers fs) (header_fields request_header fs vals)"
    and auth: "auth_io IO (md_authentication (ep_meta ep)) tok" and fs: "ep_request ep = fs"
  shows "\<exists>hs vars. request_headers IO ep vals tok = Ok hs \<and> read_headers IO ep hs = Ok vars \<and> reads is_header fs vals vars"
proof -
  let ?hfs = "header_fields request_header fs vals"
  obtain hs1 where hs1: "put_headers IO ?hfs (initial_headers fs) = Ok hs1" "list_all (header_put IO (initial_headers fs) hs1) ?hfs"
    using put_headers_ok[OF io headers_distinct[OF l ok]] by blast
  obtain hs where hs: "authorize IO (md_authentication (ep_meta ep)) tok hs1 = Ok hs"
      "\<And>k. k \<noteq> ''authorization'' \<Longrightarrow> map_of hs k = map_of hs1 k" using authorize_Ok[OF auth] by blast
  have read: "read_header IO hs (name, f) = Ok (af_ident f, v)" if z: "(f, v) \<in> set (zip fs vals)" and k: "af_kind f = RHeader name" for f v name
  proof (rule header_read, rule header_found)
    have m: "(name, f_ty (af_decl f), v) \<in> set ?hfs" "(name, f) \<in> set (header_idents request_header fs)"
      using header_fields_in[OF z, of request_header name] by (simp_all add: k)
    show "header_put IO (initial_headers fs) hs1 (name, f_ty (af_decl f), v)" using hs1(2) m(1) by (simp add: list_all_iff)
    show "absent_ok (initial_headers fs) [(name, f_ty (af_decl f), v)]" using a m(1) unfolding absent_ok_def by (rule list_all_member)
    show "headers_io IO [(name, f_ty (af_decl f), v)]" using io m(1) unfolding headers_io_def by (rule list_all_member)
    have "request_val (io_env IO) (af_kind f) (f_ty (af_decl f)) v" using v z by (auto simp: list_all2_iff)
    then show "header_val (f_ty (af_decl f)) v" by (simp add: k)
    show "map_of hs (header_name name) = map_of hs1 (header_name name)"
      using hs(2) ok m(2) by (auto simp: headers_ok_def list_all_iff)
  qed
  have "map_res (read_header IO hs) (header_idents request_header gs) = Ok (map (\<lambda>(f, v). (af_ident f, v)) (fields_with is_header gs ws))"
    if "length gs = length ws" "set (zip gs ws) \<subseteq> set (zip fs vals)" for gs ws
    using that
  proof (induction gs ws rule: list_induct2)
    case (Cons g gs w ws)
    then show ?case using read[of g w] by (cases "af_kind g") (auto simp: header_idents_def fields_with_def map_filter_simps)
  qed (simp add: header_idents_def fields_with_def map_filter_simps)
  then have "read_headers IO ep hs = Ok (map (\<lambda>(f, v). (af_ident f, v)) (fields_with is_header fs vals))"
    using l by (simp add: read_headers_def fs)
  moreover have "request_headers IO ep vals tok = Ok hs" using hs1(1) hs(1) by (simp add: request_headers_def fs Let_def)
  ultimately show ?thesis using reads_fields_with[OF l] by blast
qed

section \<open>Bodies\<close>

definition body_ok :: "('k \<Rightarrow> body_part) \<Rightarrow> 'k api_field list \<Rightarrow> bool" where
  "body_ok part fs \<longleftrightarrow> length (of_kind (\<lambda>k. part k = IsBody \<or> part k = RawBody) fs) \<le> 1
     \<and> (of_kind (\<lambda>k. part k = IsBody \<or> part k = RawBody) fs \<noteq> [] \<longrightarrow> of_kind (\<lambda>k. part k = InBody) fs = [])"

text \<open>\<open>serde_json\<close> writes a text that is not empty and reads it back.\<close>

definition body_io :: "api_io \<Rightarrow> ('k \<Rightarrow> body_part) \<Rightarrow> 'k api_field list \<Rightarrow> val list \<Rightarrow> bool" where
  "body_io IO part fs vals \<longleftrightarrow> (case ser (body_ty part fs) (body_value part fs vals) of
     Ok j \<Rightarrow> reads_back (io_json IO) j \<and> to_text (io_json IO) j \<noteq> [] | _ \<Rightarrow> True)"

definition in_json_body :: "('k \<Rightarrow> body_part) \<Rightarrow> 'k \<Rightarrow> bool" where
  "in_json_body part k \<longleftrightarrow> part k = InBody \<or> part k = IsBody"

lemma body_members_read:
  assumes l: "length fs = length vals" and ok: "body_ok part fs"
  shows "reads (in_json_body part) fs vals (body_members part fs (body_value part fs vals))"
proof (cases "fields_with (\<lambda>k. part k = IsBody) fs vals")
  case (Cons p ps)
  obtain f v where p: "p = (f, v)" by (cases p)
  have k: "of_kind (\<lambda>k. part k = IsBody) fs = f # map fst ps" using fields_with_fst[OF l, of "\<lambda>k. part k = IsBody"] by (simp add: Cons p)
  have m: "body_members part fs (body_value part fs vals) = [(af_ident f, v)]"
    by (simp add: body_members_def body_value_def k Cons p)
  have f: "f \<in> set (of_kind (\<lambda>k. part k = IsBody \<or> part k = RawBody) fs)"
  proof -
    have "f \<in> set (of_kind (\<lambda>k. part k = IsBody) fs)" by (simp add: k)
    then show ?thesis by (simp add: of_kind_def)
  qed
  have none: "of_kind (\<lambda>k. part k = InBody) fs = []" using ok f by (auto simp: body_ok_def)
  have one: "g = f" if "g \<in> set fs" "part (af_kind g) = IsBody" for g
  proof -
    have "g \<in> set (of_kind (\<lambda>k. part k = IsBody \<or> part k = RawBody) fs)" using that by (simp add: of_kind_def)
    then show ?thesis using ok f by (cases "of_kind (\<lambda>k. part k = IsBody \<or> part k = RawBody) fs") (auto simp: body_ok_def)
  qed
  have "(f, v) \<in> set (fields_with (\<lambda>k. part k = IsBody) fs vals)" by (simp add: Cons p)
  then have "(af_ident f, v) \<in> set (to_ident_map fs vals)"
    using fields_with_all(4)[of "\<lambda>f v. True"] l by (simp add: list_all2_iff)
  then show ?thesis using one of_kind_empty[OF none] by (auto simp: reads_def m in_json_body_def)
next
  case Nil
  then have k: "of_kind (\<lambda>k. part k = IsBody) fs = []" using fields_with_Nil[OF l] by simp
  let ?in = "fields_with (\<lambda>k. part k = InBody) fs vals"
  have "zip (map af_ident (map fst ?in)) (map snd ?in) = map (\<lambda>(f, v). (af_ident f, v)) ?in"
    by (simp add: zip_map_map zip_same_conv_map comp_def case_prod_beta)
  then have m: "body_members part fs (body_value part fs vals) = map (\<lambda>(f, v). (af_ident f, v)) ?in"
    by (simp add: body_members_def body_value_def k Nil fields_with_fst[OF l])
  show ?thesis unfolding m using reads_fields_with[OF l, of "\<lambda>k. part k = InBody"] of_kind_empty[OF k]
    by (auto simp: reads_def in_json_body_def)
qed

lemma json_body_read:
  assumes t: "ty_ok (body_ty part fs)" and v: "has_type (io_env IO) (body_ty part fs) (body_value part fs vals)"
    and io: "body_io IO part fs vals"
  shows "\<exists>body. json_body IO part fs vals = Ok body \<and> read_body IO part fs body = Ok (body_value part fs vals)"
proof -
  obtain j where j: "ser (body_ty part fs) (body_value part fs vals) = Ok j" "de (io_env IO) (body_ty part fs) j = Ok (body_value part fs vals)"
    using ty_ok_sound[OF t] v by (auto simp: ty_sound_def)
  have b: "reads_back (io_json IO) j" "to_text (io_json IO) j \<noteq> []" using io by (simp_all add: body_io_def j(1))
  show ?thesis using j b by (simp add: json_body_def read_body_def from_json_slice_def reads_back_def)
qed

text \<open>A raw body is the whole body.\<close>

lemma raw_alone:
  assumes l: "length fs = length vals" and ok: "body_ok part fs" and r: "fields_with (\<lambda>k. part k = RawBody) fs vals = (f, w) # ps"
  shows "of_kind (\<lambda>k. part k = RawBody) fs = [f]" "\<not> has_body_fields part fs" "(f, w) \<in> set (zip fs vals)" "part (af_kind f) = RawBody"
    "\<And>g. g \<in> set fs \<Longrightarrow> part (af_kind g) \<noteq> NoBody \<Longrightarrow> g = f"
proof -
  let ?news = "of_kind (\<lambda>k. part k = IsBody \<or> part k = RawBody) fs"
  have m: "(f, w) \<in> set (fields_with (\<lambda>k. part k = RawBody) fs vals)" by (simp add: r)
  then show z: "(f, w) \<in> set (zip fs vals)" and k: "part (af_kind f) = RawBody" by (simp_all add: fields_with_def)
  have f: "f \<in> set ?news" using set_zip_leftD[OF z] k by (simp add: of_kind_def)
  then have news: "?news = [f]" using ok by (cases ?news) (auto simp: body_ok_def)
  then have none: "of_kind (\<lambda>k. part k = InBody) fs = []" using ok by (auto simp: body_ok_def)
  have one: "g = f" if "g \<in> set fs" "part (af_kind g) = IsBody \<or> part (af_kind g) = RawBody" for g
  proof -
    have "g \<in> set ?news" using that by (simp add: of_kind_def)
    then show ?thesis by (simp add: news)
  qed
  show alone: "g = f" if "g \<in> set fs" "part (af_kind g) \<noteq> NoBody" for g
    using one[OF that(1)] of_kind_empty[OF none that(1)] that(2) by (cases "part (af_kind g)") simp_all
  have "of_kind (\<lambda>k. part k = RawBody) fs = of_kind (\<lambda>k. part k = RawBody) ?news"
    unfolding of_kind_def by (simp add: conj_commute) (rule filter_cong, auto)
  then show "of_kind (\<lambda>k. part k = RawBody) fs = [f]" unfolding news by (simp add: of_kind_def k)
  show "\<not> has_body_fields part fs"
  proof
    assume "has_body_fields part fs"
    then obtain g where g: "g \<in> set fs" "part (af_kind g) = InBody \<or> part (af_kind g) = IsBody"
      by (auto simp: has_body_fields_def list_ex_iff)
    then have "g = f" using alone by force
    then show False using g(2) k by simp
  qed
qed

lemma request_body_read:
  assumes l: "length fs = length vals" and ok: "body_ok request_part fs" and t: "ty_ok (body_ty request_part fs)"
    and v: "list_all2 (\<lambda>f v. request_val (io_env IO) (af_kind f) (f_ty (af_decl f)) v) fs vals"
    and b: "has_type (io_env IO) (body_ty request_part fs) (body_value request_part fs vals)"
    and io: "body_io IO request_part fs vals" and fs: "ep_request ep = fs"
  shows "\<exists>body vars. request_body IO ep vals = Ok body \<and> read_request_body IO ep body = Ok vars
    \<and> reads (\<lambda>k. k = RBody \<or> k = RNewtypeBody \<or> k = RRawBody) fs vals vars"
proof (cases "fields_with (\<lambda>k. request_part k = RawBody) fs vals")
  case (Cons p ps)
  obtain f w where p: "fields_with (\<lambda>k. request_part k = RawBody) fs vals = (f, w) # ps" by (metis Cons surj_pair)
  note alone = raw_alone[OF l ok p]
  have raw: "af_kind f = RRawBody" using alone(4) by (cases "af_kind f") simp_all
  moreover have "request_val (io_env IO) (af_kind f) (f_ty (af_decl f)) w" using v alone(3) by (auto simp: list_all2_iff)
  ultimately obtain s where w: "w = VText s" by (cases w) simp_all
  have part: "g = f" if "g \<in> set fs" "af_kind g = RBody \<or> af_kind g = RNewtypeBody \<or> af_kind g = RRawBody" for g
    using alone(5)[OF that(1)] that(2) by auto
  have "request_body IO ep vals = Ok s" by (simp add: request_body_def raw_body_def fs p w)
  moreover have "read_request_body IO ep s = Ok [(af_ident f, w)]" by (simp add: read_request_body_def fs alone(1,2) w)
  moreover have "(af_ident f, w) \<in> set (to_ident_map fs vals)"
    using alone(3) unfolding to_ident_map_def zip_map1 by (auto intro!: image_eqI[of _ _ "(f, w)"])
  then have "reads (\<lambda>k. k = RBody \<or> k = RNewtypeBody \<or> k = RRawBody) fs vals [(af_ident f, w)]"
    using part by (auto simp: reads_def)
  ultimately show ?thesis by blast
next
  case Nil
  then have k: "of_kind (\<lambda>k. request_part k = RawBody) fs = []" using fields_with_Nil[OF l] by simp
  have raw: "af_kind f \<noteq> RRawBody" if "f \<in> set fs" for f using of_kind_empty[OF k that] by auto
  show ?thesis
  proof (cases "has_body_fields request_part fs")
    case True
    obtain body where body: "json_body IO request_part fs vals = Ok body"
        "read_body IO request_part fs body = Ok (body_value request_part fs vals)"
      using json_body_read[OF t b io] by blast
    have "request_body IO ep vals = Ok body" using body(1) True by (simp add: request_body_def raw_body_def fs Nil)
    moreover have "read_request_body IO ep body = Ok (body_members request_part fs (body_value request_part fs vals))"
      using body(2) True by (simp add: read_request_body_def fs k)
    moreover have "reads (\<lambda>k. k = RBody \<or> k = RNewtypeBody \<or> k = RRawBody) fs vals
        (body_members request_part fs (body_value request_part fs vals))"
      using body_members_read[OF l ok] raw by (auto simp: reads_def in_json_body_def)
    ultimately show ?thesis by blast
  next
    case False
    have "request_body IO ep vals = Ok []" using False by (simp add: request_body_def raw_body_def fs Nil)
    moreover have "read_request_body IO ep [] = Ok []" using False by (simp add: read_request_body_def fs k)
    moreover have "reads (\<lambda>k. k = RBody \<or> k = RNewtypeBody \<or> k = RRawBody) fs vals []"
      using False raw by (intro reads_none) (force simp: has_body_fields_def list_ex_iff)
    ultimately show ?thesis by blast
  qed
qed

section \<open>Requests\<close>

text \<open>A condition on the declaration alone: what the macro does not check and the Rust compiler does (the variables of the
  path are the path fields, the names are distinct, the query has types that can stand in a query), and that the type of the
  body survives JSON.\<close>

definition request_ok :: "endpoint \<Rightarrow> bool" where
  "request_ok ep \<longleftrightarrow> (let fs = ep_request ep in distinct (map af_ident fs) \<and> path_ok (md_path (ep_meta ep)) fs \<and> query_ok fs
     \<and> headers_ok request_header fs \<and> ty_ok (body_ty request_part fs))"

definition request_vals :: "api_io \<Rightarrow> endpoint \<Rightarrow> val list \<Rightarrow> bool" where
  "request_vals IO ep vals \<longleftrightarrow> (let fs = ep_request ep in
     list_all2 (\<lambda>f v. request_val (io_env IO) (af_kind f) (f_ty (af_decl f)) v) fs vals
     \<and> has_type (io_env IO) (body_ty request_part fs) (body_value request_part fs vals))"

text \<open>The URI of the request is split where it was put together: the base URL has no path of its own.\<close>

definition uri_io :: "api_io \<Rightarrow> endpoint \<Rightarrow> val list \<Rightarrow> string \<Rightarrow> bool" where
  "uri_io IO ep vals base_url \<longleftrightarrow> (case (request_path_string IO ep vals, request_query_string IO ep vals) of
     (Ok path, Ok query) \<Rightarrow> uri_parts IO (strip_slash base_url @ path @ query) = Some (path, query_part query) | _ \<Rightarrow> True)"

text \<open>What a round trip needs beyond the declaration.  Most of it are laws of the libraries at the values of the request;
  two are conditions on the call itself: the base URL has no path (\<open>uri_io\<close>), and no optional header with a value of its
  own in every request, like the content type, is absent (\<open>absent_ok\<close>), as it would be read back with that value.\<close>

definition request_io :: "api_io \<Rightarrow> endpoint \<Rightarrow> val list \<Rightarrow> string \<Rightarrow> send_access_token \<Rightarrow> bool" where
  "request_io IO ep vals base_url access_token \<longleftrightarrow> (let fs = ep_request ep; hfs = header_fields request_header fs vals in
     path_io IO fs vals \<and> query_io IO fs vals \<and> headers_io IO hfs \<and> absent_ok (initial_headers fs) hfs
     \<and> auth_io IO (md_authentication (ep_meta ep)) access_token \<and> body_io IO request_part fs vals \<and> uri_io IO ep vals base_url)"

lemma body_kinds:
  "(\<lambda>k. request_part k = IsBody \<or> request_part k = RawBody) = (\<lambda>k. k = RNewtypeBody \<or> k = RRawBody)"
  "(\<lambda>k. request_part k = InBody) = (\<lambda>k. k = RBody)"
  "(\<lambda>k. response_part k = IsBody \<or> response_part k = RawBody) = (\<lambda>k. k = PNewtypeBody \<or> k = PRawBody)"
  "(\<lambda>k. response_part k = InBody) = (\<lambda>k. k = PBody)"
proof -
  show "(\<lambda>k. request_part k = IsBody \<or> request_part k = RawBody) = (\<lambda>k. k = RNewtypeBody \<or> k = RRawBody)" "(\<lambda>k. request_part k = InBody) = (\<lambda>k. k = RBody)"
    by (rule ext; rename_tac k; case_tac k; simp)+
  show "(\<lambda>k. response_part k = IsBody \<or> response_part k = RawBody) = (\<lambda>k. k = PNewtypeBody \<or> k = PRawBody)" "(\<lambda>k. response_part k = InBody) = (\<lambda>k. k = PBody)"
    by (rule ext; rename_tac k; case_tac k; simp)+
qed

lemma raw_kind: "(\<lambda>k. response_part k = RawBody) = (\<lambda>k. k = PRawBody)"
  by (rule ext; rename_tac k; case_tac k; simp)

lemma at_most_one: "xs \<noteq> [] \<Longrightarrow> \<not> 1 < length xs \<Longrightarrow> length xs = 1"
  by (cases xs) auto

text \<open>The checks of the macro leave one body at most.\<close>

lemma request_check_body: "request_check method b fs = Ok () \<Longrightarrow> body_ok request_part fs"
proof -
  assume "request_check method b fs = Ok ()"
  moreover have "of_kind (\<lambda>k. k = RBody) fs \<noteq> [] \<Longrightarrow> list_ex (\<lambda>f. af_kind f = RBody) fs"
    by (auto simp: of_kind_def filter_empty_conv list_ex_iff)
  moreover have "of_kind (\<lambda>k. k = RNewtypeBody \<or> k = RRawBody) fs \<noteq> [] \<Longrightarrow> \<not> 1 < length (of_kind (\<lambda>k. k = RNewtypeBody \<or> k = RRawBody) fs)
      \<Longrightarrow> length (of_kind (\<lambda>k. k = RNewtypeBody \<or> k = RRawBody) fs) = 1" by (rule at_most_one)
  ultimately show ?thesis by (auto simp: body_ok_def body_kinds request_check_def Let_def split: if_splits)
qed

lemma response_check_body: "response_check fs = Ok () \<Longrightarrow> body_ok response_part fs"
proof -
  assume "response_check fs = Ok ()"
  moreover have "of_kind (\<lambda>k. k = PBody) fs \<noteq> [] \<Longrightarrow> list_ex (\<lambda>f. af_kind f = PBody) fs"
    by (auto simp: of_kind_def filter_empty_conv list_ex_iff)
  moreover have "of_kind (\<lambda>k. k = PNewtypeBody \<or> k = PRawBody) fs \<noteq> [] \<Longrightarrow> \<not> 1 < length (of_kind (\<lambda>k. k = PNewtypeBody \<or> k = PRawBody) fs)
      \<Longrightarrow> length (of_kind (\<lambda>k. k = PNewtypeBody \<or> k = PRawBody) fs) = 1" by (rule at_most_one)
  ultimately show ?thesis by (auto simp: body_ok_def body_kinds response_check_def Let_def split: if_splits)
qed

lemma expanded:
  assumes "expand_api api = Ok ep"
  shows "body_ok request_part (ep_request ep)" "body_ok response_part (ep_response ep)"
    "has_path_fields (ep_request ep) \<Longrightarrow> starts_with ''/'' (md_path (ep_meta ep))
      \<and> (\<exists>q. format_path (\<lambda>_. []) (md_path (ep_meta ep)) = (Ok q :: (string, macro_error) result))"
  using assms request_check_body response_check_body
  by (auto simp: expand_api_def expand_derive_request_def expand_derive_response_def incoming_path_ok_def Let_def res_simps split: if_splits)

lemma request_path_read:
  assumes e: "expand_api api = Ok ep" and ok: "request_ok ep" and v: "request_vals IO ep vals" and io: "path_io IO (ep_request ep) vals"
  shows "\<exists>q vars. request_path_string IO ep vals = Ok q \<and> read_path IO ep q = Ok vars \<and> reads (\<lambda>k. k = RPath) (ep_request ep) vals vars"
proof (cases "has_path_fields (ep_request ep)")
  case True
  have "length (ep_request ep) = length vals" using v list_all2_lengthD by (auto simp: request_vals_def Let_def)
  moreover obtain q0 where "format_path (\<lambda>_. []) (md_path (ep_meta ep)) = (Ok q0 :: (string, macro_error) result)"
    "starts_with ''/'' (md_path (ep_meta ep))" using expanded(3)[OF e True] by blast
  ultimately show ?thesis using path_read[OF _ _ _ _ io refl refl True] ok v by (simp add: request_ok_def request_vals_def Let_def)
next
  case False
  have "reads (\<lambda>k. k = RPath) (ep_request ep) vals []" using False by (intro reads_none) (auto simp: has_path_fields_def list_ex_iff)
  then show ?thesis using False by (simp add: request_path_string_def read_path_def)
qed

lemma request_read:
  assumes e: "expand_api api = Ok ep" and ok: "request_ok ep" and v: "request_vals IO ep vals"
    and io: "request_io IO ep vals base_url access_token"
  shows "\<exists>req. try_into_http_request IO ep vals base_url access_token = Ok req \<and> try_from_http_request IO ep req = Ok vals"
proof -
  let ?fs = "ep_request ep"
  have vals: "list_all2 (\<lambda>f v. request_val (io_env IO) (af_kind f) (f_ty (af_decl f)) v) ?fs vals"
    and body: "has_type (io_env IO) (body_ty request_part ?fs) (body_value request_part ?fs vals)"
    using v by (simp_all add: request_vals_def Let_def)
  have l: "length ?fs = length vals" using vals by (rule list_all2_lengthD)
  have conds: "distinct (map af_ident ?fs)" "query_ok ?fs" "headers_ok request_header ?fs" "ty_ok (body_ty request_part ?fs)"
    using ok by (simp_all add: request_ok_def Let_def)
  have io': "path_io IO ?fs vals" "query_io IO ?fs vals" "headers_io IO (header_fields request_header ?fs vals)"
      "absent_ok (initial_headers ?fs) (header_fields request_header ?fs vals)" "body_io IO request_part ?fs vals"
      "auth_io IO (md_authentication (ep_meta ep)) access_token" "uri_io IO ep vals base_url"
    using io by (simp_all only: request_io_def Let_def)
  obtain path vars1 where p: "request_path_string IO ep vals = Ok path" "read_path IO ep path = Ok vars1" "reads (\<lambda>k. k = RPath) ?fs vals vars1"
    using request_path_read[OF e ok v io'(1)] by blast
  obtain query vars2 where q: "request_query_string IO ep vals = Ok query" "read_query IO ep (query_part query) = Ok vars2"
      "reads (\<lambda>k. k = RQuery \<or> k = RQueryMap) ?fs vals vars2"
    using query_read[OF l conds(2) vals io'(2) refl] by blast
  obtain hs vars3 where h: "request_headers IO ep vals access_token = Ok hs" "read_headers IO ep hs = Ok vars3" "reads is_header ?fs vals vars3"
    using headers_read[OF l conds(3) vals io'(3,4,6) refl] by blast
  obtain b vars4 where b: "request_body IO ep vals = Ok b" "read_request_body IO ep b = Ok vars4"
      "reads (\<lambda>k. k = RBody \<or> k = RNewtypeBody \<or> k = RRawBody) ?fs vals vars4"
    using request_body_read[OF l expanded(1)[OF e] conds(4) vals body io'(5) refl] by blast
  have uri: "uri_parts IO (strip_slash base_url @ path @ query) = Some (path, query_part query)"
    using io'(7) by (simp add: uri_io_def p(1) q(1))
  let ?vars = "vars1 @ vars2 @ vars3 @ vars4"
  have "reads (\<lambda>k. k = RPath \<or> (k = RQuery \<or> k = RQueryMap) \<or> is_header k \<or> k = RBody \<or> k = RNewtypeBody \<or> k = RRawBody) ?fs vals ?vars"
    using reads_append[OF p(3) reads_append[OF q(3) reads_append[OF h(3) b(3)]]] by simp
  moreover have "k = RPath \<or> (k = RQuery \<or> k = RQueryMap) \<or> is_header k \<or> k = RBody \<or> k = RNewtypeBody \<or> k = RRawBody" for k
    by (cases k) simp_all
  ultimately have "init_struct ?fs ?vars = vals" using init_struct_reads[OF l conds(1)] by simp
  then show ?thesis
    by (simp add: try_into_http_request_def try_from_http_request_def p q h b uri Let_def)
qed

section \<open>Responses\<close>

definition response_ok :: "endpoint \<Rightarrow> bool" where
  "response_ok ep \<longleftrightarrow> (let fs = ep_response ep in distinct (map af_ident fs) \<and> headers_ok response_header fs \<and> ty_ok (body_ty response_part fs))"

fun response_val :: "response_kind \<Rightarrow> ty \<Rightarrow> val \<Rightarrow> bool" where
  "response_val (PHeader name) t v = header_val t v"
| "response_val PRawBody t v = (case v of VText s \<Rightarrow> True | _ \<Rightarrow> False)"
| "response_val _ t v = True"

definition response_vals :: "api_io \<Rightarrow> endpoint \<Rightarrow> val list \<Rightarrow> bool" where
  "response_vals IO ep vals \<longleftrightarrow> (let fs = ep_response ep in
     list_all2 (\<lambda>f v. response_val (af_kind f) (f_ty (af_decl f)) v) fs vals
     \<and> has_type (io_env IO) (body_ty response_part fs) (body_value response_part fs vals))"

definition response_io :: "api_io \<Rightarrow> endpoint \<Rightarrow> val list \<Rightarrow> bool" where
  "response_io IO ep vals \<longleftrightarrow> (let fs = ep_response ep; hfs = header_fields response_header fs vals in
     headers_io IO hfs \<and> absent_ok [(''content-type'', ''application/json'')] hfs \<and> body_io IO response_part fs vals)"

lemma init_response_read:
  assumes "length gs = length ws" "distinct (map (\<lambda>h. header_name (fst h)) (header_idents response_header gs))"
    "\<And>f v name. (f, v) \<in> set (zip gs ws) \<Longrightarrow> af_kind f = PHeader name \<Longrightarrow> header_there IO hs name (f_ty (af_decl f)) v"
    "\<And>f v. (f, v) \<in> set (zip gs ws) \<Longrightarrow> in_json_body response_part (af_kind f) \<Longrightarrow> map_of members (af_ident f) = Some v"
  shows "init_response_fields IO members gs hs = Ok (map (\<lambda>(f, v). (af_ident f, v)) (fields_with (\<lambda>k. k \<noteq> PRawBody) gs ws))"
  using assms
proof (induction gs ws arbitrary: hs rule: list_induct2)
  case (Cons g gs w ws)
  have rest: "init_response_fields IO members gs hs' = Ok (map (\<lambda>(f, v). (af_ident f, v)) (fields_with (\<lambda>k. k \<noteq> PRawBody) gs ws))"
    if "\<And>f v name. (f, v) \<in> set (zip gs ws) \<Longrightarrow> af_kind f = PHeader name \<Longrightarrow> header_there IO hs' name (f_ty (af_decl f)) v" for hs'
  proof (rule Cons.IH[OF _ that])
    show "distinct (map (\<lambda>h. header_name (fst h)) (header_idents response_header gs))"
      using Cons.prems(1) by (simp add: header_idents_def map_filter_simps split: option.splits)
    show "map_of members (af_ident f) = Some v" if "(f, v) \<in> set (zip gs ws)" "in_json_body response_part (af_kind f)" for f v
      using Cons.prems(3) that by simp
  qed
  have same: "init_response_fields IO members gs hs = Ok (map (\<lambda>(f, v). (af_ident f, v)) (fields_with (\<lambda>k. k \<noteq> PRawBody) gs ws))"
    using Cons.prems(2) by (intro rest) simp
  show ?case
  proof (cases "af_kind g")
    case (PHeader name)
    have there: "header_there IO hs name (f_ty (af_decl g)) w" using Cons.prems(2) PHeader by simp
    have new: "header_name name \<noteq> header_name name'" if "(f, v) \<in> set (zip gs ws)" "af_kind f = PHeader name'" for f v name'
    proof -
      have "(name', f) \<in> set (header_idents response_header gs)" using header_fields_in[OF that(1), of response_header] that(2) by simp
      then show ?thesis using Cons.prems(1) PHeader by (force simp: header_idents_def map_filter_simps)
    qed
    have "init_response_fields IO members gs (header_remove (header_name name) hs)
        = Ok (map (\<lambda>(f, v). (af_ident f, v)) (fields_with (\<lambda>k. k \<noteq> PRawBody) gs ws))"
    proof (rule rest)
      show "header_there IO (header_remove (header_name name) hs) name' (f_ty (af_decl f)) v"
        if "(f, v) \<in> set (zip gs ws)" "af_kind f = PHeader name'" for f v name'
        using Cons.prems(2)[of f v name'] new[OF that] that by (auto simp: header_there_def map_of_header_remove)
    qed
    then show ?thesis using there PHeader by (auto simp: header_there_def fields_with_def split: option.splits)
  next
    case PRawBody
    then show ?thesis using same by (simp add: fields_with_def)
  next
    case PBody
    then have "map_of members (af_ident g) = Some w" using Cons.prems(3) by (simp add: in_json_body_def)
    then show ?thesis using same PBody by (simp add: fields_with_def)
  next
    case PNewtypeBody
    then have "map_of members (af_ident g) = Some w" using Cons.prems(3) by (simp add: in_json_body_def)
    then show ?thesis using same PNewtypeBody by (simp add: fields_with_def)
  qed
qed (simp add: fields_with_def)

lemma response_body_read:
  assumes l: "length fs = length vals" and ok: "body_ok response_part fs" and t: "ty_ok (body_ty response_part fs)"
    and v: "list_all2 (\<lambda>f v. response_val (af_kind f) (f_ty (af_decl f)) v) fs vals"
    and b: "has_type (io_env IO) (body_ty response_part fs) (body_value response_part fs vals)"
    and io: "body_io IO response_part fs vals" and fs: "ep_response ep = fs"
  shows "\<exists>b members. response_body IO ep vals = Ok b
    \<and> (if has_body_fields response_part fs
       then and_then (read_body IO response_part fs b) (\<lambda>v. Ok (body_members response_part fs v)) else Ok []) = Ok members
    \<and> reads (in_json_body response_part) fs vals members
    \<and> reads (\<lambda>k. k = PRawBody) fs vals (map (\<lambda>f. (af_ident f, VText b)) (of_kind (\<lambda>k. k = PRawBody) fs))"
proof (cases "fields_with (\<lambda>k. response_part k = RawBody) fs vals")
  case (Cons p ps)
  obtain f w where p: "fields_with (\<lambda>k. response_part k = RawBody) fs vals = (f, w) # ps" by (metis Cons surj_pair)
  note alone = raw_alone[OF l ok p]
  have raw: "af_kind f = PRawBody" using alone(4) by (cases "af_kind f") simp_all
  moreover have "response_val (af_kind f) (f_ty (af_decl f)) w" using v alone(3) by (auto simp: list_all2_iff)
  ultimately obtain s where w: "w = VText s" by (cases w) simp_all
  have k: "of_kind (\<lambda>k. k = PRawBody) fs = [f]" using alone(1) by (simp add: raw_kind)
  have "(af_ident f, w) \<in> set (to_ident_map fs vals)"
    using alone(3) unfolding to_ident_map_def zip_map1 by (auto intro!: image_eqI[of _ _ "(f, w)"])
  then have "reads (\<lambda>k. k = PRawBody) fs vals [(af_ident f, w)]" using alone(5) by (force simp: reads_def)
  moreover have "reads (in_json_body response_part) fs vals []"
    using alone(2) by (intro reads_none) (auto simp: has_body_fields_def list_ex_iff in_json_body_def)
  moreover have "response_body IO ep vals = Ok s" by (simp add: response_body_def raw_body_def fs p w)
  ultimately show ?thesis using alone(2) k w by auto
next
  case Nil
  then have k: "of_kind (\<lambda>k. k = PRawBody) fs = []" using fields_with_Nil[OF l] by (simp add: raw_kind)
  obtain body where body: "json_body IO response_part fs vals = Ok body" "read_body IO response_part fs body = Ok (body_value response_part fs vals)"
    using json_body_read[OF t b io] by blast
  have rb: "response_body IO ep vals = Ok body" using body(1) by (simp add: response_body_def raw_body_def fs Nil)
  have raw: "reads (\<lambda>k. k = PRawBody) fs vals []" by (rule reads_none) (use of_kind_empty[OF k] in blast)
  show ?thesis
  proof (cases "has_body_fields response_part fs")
    case True
    then show ?thesis using rb body(2) body_members_read[OF l ok] raw by (simp add: k)
  next
    case False
    then have "reads (in_json_body response_part) fs vals []"
      by (intro reads_none) (auto simp: has_body_fields_def list_ex_iff in_json_body_def)
    then show ?thesis using rb raw False by (simp add: k)
  qed
qed

lemma response_read:
  assumes e: "expand_api api = Ok ep" and ok: "response_ok ep" and v: "response_vals IO ep vals" and io: "response_io IO ep vals"
  shows "\<exists>r. try_into_http_response IO ep vals = Ok r \<and> try_from_http_response IO ep error_from r = Ok vals"
proof -
  let ?fs = "ep_response ep" and ?hs0 = "[(''content-type'', ''application/json'')]"
  let ?hfs = "header_fields response_header ?fs vals" and ?raws = "of_kind (\<lambda>k. k = PRawBody) ?fs"
  have vals: "list_all2 (\<lambda>f v. response_val (af_kind f) (f_ty (af_decl f)) v) ?fs vals"
    and body: "has_type (io_env IO) (body_ty response_part ?fs) (body_value response_part ?fs vals)"
    using v by (simp_all add: response_vals_def Let_def)
  have l: "length ?fs = length vals" using vals by (rule list_all2_lengthD)
  have conds: "distinct (map af_ident ?fs)" "headers_ok response_header ?fs" "ty_ok (body_ty response_part ?fs)"
    using ok by (simp_all add: response_ok_def Let_def)
  have io': "headers_io IO ?hfs" "absent_ok ?hs0 ?hfs" "body_io IO response_part ?fs vals"
    using io by (simp_all only: response_io_def Let_def)
  obtain hs where hs: "put_headers IO ?hfs ?hs0 = Ok hs" "list_all (header_put IO ?hs0 hs) ?hfs"
    using put_headers_ok[OF io'(1) headers_distinct[OF l conds(2)]] by blast
  have there: "header_there IO hs name (f_ty (af_decl f)) v" if z: "(f, v) \<in> set (zip ?fs vals)" and k: "af_kind f = PHeader name" for f v name
  proof (rule header_found)
    have m: "(name, f_ty (af_decl f), v) \<in> set ?hfs" using header_fields_in[OF z, of response_header name] by (simp add: k)
    show "header_put IO ?hs0 hs (name, f_ty (af_decl f), v)" using hs(2) m by (simp add: list_all_iff)
    show "absent_ok ?hs0 [(name, f_ty (af_decl f), v)]" using io'(2) m unfolding absent_ok_def by (rule list_all_member)
    show "headers_io IO [(name, f_ty (af_decl f), v)]" using io'(1) m unfolding headers_io_def by (rule list_all_member)
    have "response_val (af_kind f) (f_ty (af_decl f)) v" using vals z by (auto simp: list_all2_iff)
    then show "header_val (f_ty (af_decl f)) v" by (simp add: k)
  qed simp
  obtain b members where b: "response_body IO ep vals = Ok b"
      "(if has_body_fields response_part ?fs
        then and_then (read_body IO response_part ?fs b) (\<lambda>v. Ok (body_members response_part ?fs v)) else Ok []) = Ok members"
      "reads (in_json_body response_part) ?fs vals members" "reads (\<lambda>k. k = PRawBody) ?fs vals (map (\<lambda>f. (af_ident f, VText b)) ?raws)"
    using response_body_read[OF l expanded(2)[OF e] conds(3) vals body io'(3) refl] by blast
  let ?vars = "map (\<lambda>(f, v). (af_ident f, v)) (fields_with (\<lambda>k. k \<noteq> PRawBody) ?fs vals)"
  have "init_response_fields IO members ?fs hs = Ok ?vars"
  proof (rule init_response_read[OF l])
    show "distinct (map (\<lambda>h. header_name (fst h)) (header_idents response_header ?fs))" using conds(2) by (simp add: headers_ok_def)
    show "map_of members (af_ident f) = Some v" if "(f, v) \<in> set (zip ?fs vals)" "in_json_body response_part (af_kind f)" for f v
      using reads_lookup[OF l conds(1) b(3) that] .
  qed (rule there)
  moreover have "init_struct ?fs (?vars @ map (\<lambda>f. (af_ident f, VText b)) ?raws) = vals"
    using reads_append[OF reads_fields_with[OF l, of "\<lambda>k. k \<noteq> PRawBody"] b(4)] by (intro init_struct_reads[OF l conds(1)]) simp
  ultimately have "response_init_fields IO ep \<lparr>rs_status = 200, rs_headers = hs, rs_body = b\<rparr> = Ok vals"
    unfolding response_init_fields_def Let_def http_response.simps b(2) by simp
  then show ?thesis
    by (simp add: try_into_http_response_def try_from_http_response_def response_from_http_def hs(1) b(1))
qed

section \<open>Access tokens\<close>

fun token_for :: "auth_scheme \<Rightarrow> send_access_token \<Rightarrow> string option" where
  "token_for AccessToken access_token = get_required_for_endpoint access_token"
| "token_for AuthNone access_token = get_not_required_for_endpoint access_token"
| "token_for QueryOnlyAccessToken access_token = None"
| "token_for ServerSignatures access_token = None"

lemma put_headers_frame:
  "put_headers IO hfs hs = Ok hs' \<Longrightarrow> k \<notin> (\<lambda>h. header_name (fst h)) ` set hfs \<Longrightarrow> map_of hs' k = map_of hs k"
proof (induction hfs arbitrary: hs)
  case (Cons h hfs)
  obtain name t v where h: "h = (name, t, v)" by (metis surj_pair)
  obtain hs1 where hs1: "(if is_option t then (case v of VSome w \<Rightarrow> put_header IO name (text_of w) hs | _ \<Rightarrow> Ok hs)
        else put_header IO name (text_of v) hs) = Ok hs1" "put_headers IO hfs hs1 = Ok hs'"
    using Cons.prems(1) by (auto simp: h res_simps)
  have "map_of hs1 k = map_of hs k"
    using hs1(1) Cons.prems(2) by (auto simp: h put_header_def res_simps map_of_header_insert split: if_splits val.splits)
  then show ?case using Cons.IH[OF hs1(2)] Cons.prems(2) by simp
qed simp

lemma header_fields_sub: "fst ` set (header_fields name_of fs vals) \<subseteq> fst ` set (header_idents name_of fs)"
  by (force simp: header_fields_def header_idents_def map_filter_def dest: set_zip_leftD)

lemma no_authorization:
  assumes "headers_ok name_of fs"
  shows "''authorization'' \<notin> (\<lambda>h. header_name (fst h)) ` set (header_fields name_of fs vals)"
proof
  assume "''authorization'' \<in> (\<lambda>h. header_name (fst h)) ` set (header_fields name_of fs vals)"
  then obtain name where "name \<in> fst ` set (header_fields name_of fs vals)" "header_name name = ''authorization''" by force
  then have "name \<in> fst ` set (header_idents name_of fs)" using header_fields_sub by blast
  then show False using assms \<open>header_name name = ''authorization''\<close> by (auto simp: headers_ok_def list_all_iff)
qed

lemma authorize_header:
  assumes "authorize IO auth tok hs = Ok hs'" "map_of hs ''authorization'' = None"
  shows "(auth = AccessToken \<longrightarrow> token_for auth tok \<noteq> None)
    \<and> (case token_for auth tok of
         Some t \<Rightarrow> \<exists>h. header_from_str IO (''Bearer '' @ t) = Some h \<and> map_of hs' ''authorization'' = Some h
       | None \<Rightarrow> map_of hs' ''authorization'' = None)"
  using assms by (auto simp: authorize_def put_header_def res_simps map_of_header_insert authorization_name split: auth_scheme.splits option.splits)

lemma request_authorization:
  assumes "try_into_http_request IO ep vals base_url access_token = Ok req" "headers_ok request_header (ep_request ep)"
  shows "(md_authentication (ep_meta ep) = AccessToken \<longrightarrow> token_for AccessToken access_token \<noteq> None)
    \<and> (case token_for (md_authentication (ep_meta ep)) access_token of
         Some t \<Rightarrow> \<exists>h. header_from_str IO (''Bearer '' @ t) = Some h \<and> map_of (hq_headers req) ''authorization'' = Some h
       | None \<Rightarrow> map_of (hq_headers req) ''authorization'' = None)"
proof -
  have "request_headers IO ep vals access_token = Ok (hq_headers req)"
    using assms(1) by (auto simp: try_into_http_request_def Let_def res_simps split: if_splits)
  then obtain hs where hs: "put_headers IO (header_fields request_header (ep_request ep) vals) (initial_headers (ep_request ep)) = Ok hs"
      "authorize IO (md_authentication (ep_meta ep)) access_token hs = Ok (hq_headers req)"
    unfolding request_headers_def Let_def res_simps by blast
  have "map_of hs ''authorization'' = map_of (initial_headers (ep_request ep)) ''authorization''"
    by (rule put_headers_frame[OF hs(1) no_authorization[OF assms(2)]])
  then show ?thesis using authorize_header[OF hs(2)] by (simp split: if_splits)
qed

text \<open>The code that the macro generates for an endpoint.\<close>

definition expanded_api :: "api_decl \<Rightarrow> endpoint" where
  "expanded_api api = (case expand_api api of Ok ep \<Rightarrow> ep)"

lemma expanded_api_eq: "is_ok (expand_api api) \<Longrightarrow> expand_api api = Ok (expanded_api api)"
  by (auto simp: expanded_api_def res_simps)

section \<open>Sample crates\<close>

text \<open>The crates around the generated code on one request and one response: the texts they are given there are written and
  read as they do.\<close>

definition sample_env :: serde_env where
  "sample_env = \<lparr>se_alnum = (\<lambda>c. True), opaque_ok = (\<lambda>name j. True)\<rparr>"

definition sample_uri_parts :: "string \<Rightarrow> (string \<times> string option) option" where
  "sample_uri_parts s = (let rest = drop (length ''https://h.org'') s in
     case str_find (CHR ''?'') rest of None \<Rightarrow> Some (rest, None) | Some i \<Rightarrow> Some (take i rest, Some (drop (Suc i) rest)))"

definition sample_io :: "json \<Rightarrow> string \<Rightarrow> pairs \<Rightarrow> string \<Rightarrow> api_io" where
  "sample_io j text ps query =
     \<lparr>io_json = \<lparr>to_text = (\<lambda>_. text), from_text = (\<lambda>_. Some j)\<rparr>,
      io_form = \<lparr>form_encode = (\<lambda>_. query), form_parse = (\<lambda>_. ps)\<rparr>,
      io_env = sample_env, pct_encode = (\<lambda>s. s), pct_decode = Some, header_from_str = Some, header_to_str = Some,
      uri_parts = sample_uri_parts, uri_path_and_query = (\<lambda>s. None), uri_with_path_and_query = (\<lambda>s q. None)\<rparr>"

end
