(* ===== verification/Schema.thy ===== *)
theory Schema
  imports Api_Macro
begin

text \<open>Shorthands of the descriptions of types and endpoints: the usual combinations of attributes of a field
  (\<^verbatim>\<open>skip_serializing_if\<close> and \<^verbatim>\<open>default\<close>) and the kinds of the fields of an endpoint.\<close>

abbreviation UInt :: ty where "UInt \<equiv> FInt 0 9007199254740991"
abbreviation JsInt :: ty where "JsInt \<equiv> FInt (- 9007199254740991) 9007199254740991"

abbreviation plain :: "string \<Rightarrow> ty \<Rightarrow> field" where
  "plain name t \<equiv> Field name t NeverSkip None False"

abbreviation opt :: "string \<Rightarrow> ty \<Rightarrow> field" where
  "opt name t \<equiv> Field name (FOpt t) SkipNone None False"

abbreviation defaulted :: "string \<Rightarrow> ty \<Rightarrow> val \<Rightarrow> field" where
  "defaulted name t d \<equiv> Field name t NeverSkip (Some d) False"

abbreviation default_skipped :: "string \<Rightarrow> ty \<Rightarrow> val \<Rightarrow> field" where
  "default_skipped name t d \<equiv> Field name t (SkipEq d) (Some d) False"

abbreviation empty_skipped :: "string \<Rightarrow> ty \<Rightarrow> val \<Rightarrow> field" where
  "empty_skipped name t d \<equiv> Field name t SkipEmpty (Some d) False"

abbreviation flat :: "string \<Rightarrow> ty \<Rightarrow> field" where
  "flat name t \<equiv> Field name t NeverSkip None True"

abbreviation flat_opt :: "string \<Rightarrow> ty \<Rightarrow> field" where
  "flat_opt name t \<equiv> Field name (FOpt t) SkipNone None True"

text \<open>The flag says whether the type of the field has a lifetime.\<close>

abbreviation in_body :: "string \<Rightarrow> bool \<Rightarrow> field \<Rightarrow> raw_field" where
  "in_body ident borrows f \<equiv> RawField ident [] borrows f"

abbreviation body :: "string \<Rightarrow> bool \<Rightarrow> field \<Rightarrow> raw_field" where
  "body ident borrows f \<equiv> RawField ident [Word ''body''] borrows f"

abbreviation raw_bytes :: "string \<Rightarrow> bool \<Rightarrow> field \<Rightarrow> raw_field" where
  "raw_bytes ident borrows f \<equiv> RawField ident [Word ''raw_body''] borrows f"

abbreviation in_path :: "string \<Rightarrow> bool \<Rightarrow> field \<Rightarrow> raw_field" where
  "in_path ident borrows f \<equiv> RawField ident [Word ''path''] borrows f"

abbreviation in_query :: "string \<Rightarrow> bool \<Rightarrow> field \<Rightarrow> raw_field" where
  "in_query ident borrows f \<equiv> RawField ident [Word ''query''] borrows f"

abbreviation query_map :: "string \<Rightarrow> bool \<Rightarrow> field \<Rightarrow> raw_field" where
  "query_map ident borrows f \<equiv> RawField ident [Word ''query_map''] borrows f"

abbreviation in_header :: "string \<Rightarrow> string \<Rightarrow> bool \<Rightarrow> field \<Rightarrow> raw_field" where
  "in_header name ident borrows f \<equiv> RawField ident [NameValue ''header'' name] borrows f"

end
