(* ===== verification/Common_Types.thy ===== *)
theory Common_Types
  imports Schema
begin

text \<open>The types of \<^verbatim>\<open>ruma-common\<close> and the contents of the events of \<^verbatim>\<open>ruma-events\<close> with derived serialization, as descriptions of
  \<open>Serde_Derive\<close>, without the fields and types of unstable features.  The name of a definition is the module and the
  name of the type; the \<^verbatim>\<open>is_empty\<close> methods that decide whether a field is written are definitions of their own.
  Types with hand-written serialization occur as \<open>FOpaque\<close>.\<close>

definition common_directory_PublicRoomsChunk :: ty where
  "common_directory_PublicRoomsChunk =
     FStruct None
     [empty_skipped ''aliases'' (FVec (FText RoomAliasText)) (VVec []),
      opt ''canonical_alias'' (FText RoomAliasText),
      opt ''name'' (FText RoomNameText),
      plain ''num_joined_members'' UInt,
      plain ''room_id'' (FText RoomIdText),
      opt ''topic'' (FText AnyText),
      plain ''world_readable'' FBool,
      plain ''guest_can_join'' FBool,
      opt ''avatar_url'' (FText AnyText)]"

definition common_directory_Filter :: ty where
  "common_directory_Filter =
     FStruct None
     [opt ''generic_search_term'' (FText AnyText)]"

definition common_encryption_UnsignedDeviceInfo :: ty where
  "common_encryption_UnsignedDeviceInfo =
     FStruct None
     [opt ''device_display_name'' (FText AnyText)]"

definition common_encryption_UnsignedDeviceInfo_is_empty :: skip where
  "common_encryption_UnsignedDeviceInfo_is_empty =
     SkipAll [Some SkipNone]"

definition common_encryption_DeviceKeys :: ty where
  "common_encryption_DeviceKeys =
     FStruct None
     [plain ''user_id'' (FText UserIdText),
      plain ''device_id'' (FText AnyText),
      plain ''algorithms'' (FVec (FText AnyText)),
      plain ''keys'' (FMap DeviceKeyIdText (FText AnyText)),
      plain ''signatures'' (FMap UserIdText (FMap DeviceKeyIdText (FText AnyText))),
      Field ''unsigned'' common_encryption_UnsignedDeviceInfo common_encryption_UnsignedDeviceInfo_is_empty (Some (VStruct
        [VNone])) False]"

definition common_encryption_SignedKey :: ty where
  "common_encryption_SignedKey =
     FStruct None
     [plain ''key'' (FText AnyText),
      plain ''signatures'' (FMap UserIdText (FMap DeviceKeyIdText (FText AnyText)))]"

definition common_encryption_OneTimeKey :: ty where
  "common_encryption_OneTimeKey =
     FUntagged [common_encryption_SignedKey, FText AnyText]"

definition common_encryption_KeyUsage :: ty where
  "common_encryption_KeyUsage =
     FUnits [''master'', ''self_signing'', ''user_signing'']"

definition common_encryption_CrossSigningKey :: ty where
  "common_encryption_CrossSigningKey =
     FStruct None
     [plain ''user_id'' (FText UserIdText),
      plain ''usage'' (FVec common_encryption_KeyUsage),
      plain ''keys'' (FMap AnyText (FText AnyText)),
      empty_skipped ''signatures'' (FMap UserIdText (FMap AnyText (FText AnyText))) (VMap [])]"

definition common_power_levels_NotificationPowerLevels :: ty where
  "common_power_levels_NotificationPowerLevels =
     FStruct None
     [defaulted ''room'' JsInt (VInt 50)]"

definition common_push_Ruleset :: ty where
  "common_push_Ruleset =
     FStruct None
     [plain ''content'' (FOpaque ''IndexSet<PatternedPushRule>''),
      plain ''override'' (FOpaque ''IndexSet<ConditionalPushRule>''),
      plain ''room'' (FOpaque ''IndexSet<SimplePushRule>''),
      plain ''sender'' (FOpaque ''IndexSet<SimplePushRule>''),
      plain ''underride'' (FOpaque ''IndexSet<ConditionalPushRule>'')]"

definition common_push_SimplePushRule :: ty where
  "common_push_SimplePushRule =
     FStruct None
     [plain ''actions'' (FVec (FOpaque ''Action'')),
      plain ''default'' FBool,
      plain ''enabled'' FBool,
      plain ''rule_id'' (FText AnyText)]"

definition common_condition_PushCondition :: ty where
  "common_condition_PushCondition =
     FTagged ''kind''
     [(''event_match'', FStruct None [plain ''key'' (FText AnyText), plain ''pattern'' (FText AnyText)]),
      (''contains_display_name'', FStruct None []),
      (''room_member_count'', FStruct None [plain ''is'' (FOpaque ''RoomMemberCountIs'')]),
      (''sender_notification_permission'', FStruct None [plain ''key'' (FText AnyText)])]"

definition common_push_ConditionalPushRule :: ty where
  "common_push_ConditionalPushRule =
     FStruct None
     [plain ''actions'' (FVec (FOpaque ''Action'')),
      plain ''default'' FBool,
      plain ''enabled'' FBool,
      plain ''rule_id'' (FText AnyText),
      plain ''conditions'' (FVec common_condition_PushCondition)]"

definition common_push_PatternedPushRule :: ty where
  "common_push_PatternedPushRule =
     FStruct None
     [plain ''actions'' (FVec (FOpaque ''Action'')),
      plain ''default'' FBool,
      plain ''enabled'' FBool,
      plain ''rule_id'' (FText AnyText),
      plain ''pattern'' (FText AnyText)]"

definition common_push_PusherData :: ty where
  "common_push_PusherData =
     FStruct None
     [opt ''url'' (FText AnyText),
      opt ''format'' (FText AnyText)]"

definition common_tweak_serde_SoundTweak :: ty where
  "common_tweak_serde_SoundTweak =
     FStruct (Some (''set_tweak'', ''sound''))
     [plain ''value'' (FText AnyText)]"

definition common_tweak_serde_HighlightTweak :: ty where
  "common_tweak_serde_HighlightTweak =
     FStruct (Some (''set_tweak'', ''highlight''))
     [default_skipped ''value'' FBool (VBool True)]"

definition common_tweak_serde_Tweak :: ty where
  "common_tweak_serde_Tweak =
     FUntagged [common_tweak_serde_SoundTweak, common_tweak_serde_HighlightTweak,
       FStruct None [plain ''set_tweak'' (FText AnyText), plain ''value'' FJson]]"

definition common_thirdparty_FieldType :: ty where
  "common_thirdparty_FieldType =
     FStruct None
     [plain ''regexp'' (FText AnyText),
      plain ''placeholder'' (FText AnyText)]"

definition common_thirdparty_ProtocolInstance :: ty where
  "common_thirdparty_ProtocolInstance =
     FStruct None
     [plain ''desc'' (FText AnyText),
      opt ''icon'' (FText AnyText),
      plain ''fields'' (FMap AnyText (FText AnyText)),
      plain ''network_id'' (FText AnyText)]"

definition common_thirdparty_Protocol :: ty where
  "common_thirdparty_Protocol =
     FStruct None
     [plain ''user_fields'' (FVec (FText AnyText)),
      plain ''location_fields'' (FVec (FText AnyText)),
      plain ''icon'' (FText AnyText),
      plain ''field_types'' (FMap AnyText common_thirdparty_FieldType),
      plain ''instances'' (FVec common_thirdparty_ProtocolInstance)]"

definition common_thirdparty_Location :: ty where
  "common_thirdparty_Location =
     FStruct None
     [plain ''alias'' (FText RoomAliasText),
      plain ''protocol'' (FText AnyText),
      plain ''fields'' (FMap AnyText (FText AnyText))]"

definition common_thirdparty_User :: ty where
  "common_thirdparty_User =
     FStruct None
     [plain ''userid'' (FText UserIdText),
      plain ''protocol'' (FText AnyText),
      plain ''fields'' (FMap AnyText (FText AnyText))]"

definition common_thirdparty_ThirdPartyIdentifier :: ty where
  "common_thirdparty_ThirdPartyIdentifier =
     FStruct None
     [plain ''address'' (FText AnyText),
      plain ''medium'' (FText AnyText),
      plain ''validated_at'' UInt,
      plain ''added_at'' UInt]"

definition call_SessionDescription :: ty where
  "call_SessionDescription =
     FStruct None
     [plain ''type'' (FText AnyText),
      plain ''sdp'' (FText AnyText)]"

definition answer_CallAnswerEventContent :: ty where
  "answer_CallAnswerEventContent =
     FStruct None
     [plain ''answer'' call_SessionDescription,
      plain ''call_id'' (FText AnyText),
      plain ''version'' UInt]"

definition candidates_Candidate :: ty where
  "candidates_Candidate =
     FStruct None
     [plain ''candidate'' (FText AnyText),
      plain ''sdpMid'' (FText AnyText),
      plain ''sdpMLineIndex'' UInt]"

definition candidates_CallCandidatesEventContent :: ty where
  "candidates_CallCandidatesEventContent =
     FStruct None
     [plain ''call_id'' (FText AnyText),
      plain ''candidates'' (FVec candidates_Candidate),
      plain ''version'' UInt]"

definition hangup_CallHangupEventContent :: ty where
  "hangup_CallHangupEventContent =
     FStruct None
     [plain ''call_id'' (FText AnyText),
      plain ''version'' UInt,
      opt ''reason'' (FText AnyText)]"

definition invite_CallInviteEventContent :: ty where
  "invite_CallInviteEventContent =
     FStruct None
     [plain ''call_id'' (FText AnyText),
      plain ''lifetime'' UInt,
      plain ''offer'' call_SessionDescription,
      plain ''version'' UInt]"

definition event_kinds_OlmV1Keys :: ty where
  "event_kinds_OlmV1Keys =
     FStruct None
     [plain ''ed25519'' (FText AnyText)]"

definition forwarded_room_key_ToDeviceForwardedRoomKeyEventContent :: ty where
  "forwarded_room_key_ToDeviceForwardedRoomKeyEventContent =
     FStruct None
     [plain ''algorithm'' (FText AnyText),
      plain ''room_id'' (FText RoomIdText),
      plain ''sender_key'' (FText AnyText),
      plain ''session_id'' (FText AnyText),
      plain ''session_key'' (FText AnyText),
      plain ''sender_claimed_ed25519_key'' (FText AnyText),
      plain ''forwarding_curve25519_key_chain'' (FVec (FText AnyText))]"

definition fully_read_FullyReadEventContent :: ty where
  "fully_read_FullyReadEventContent =
     FStruct None
     [plain ''event_id'' (FText EventIdText)]"

definition ignored_user_list_IgnoredUserListEventContent :: ty where
  "ignored_user_list_IgnoredUserListEventContent =
     FStruct None
     [plain ''ignored_users'' (FWith (FMapOfEmpty UserIdText))]"

definition accept_SasV1Content :: ty where
  "accept_SasV1Content =
     FStruct (Some (''method'', ''m.sas.v1''))
     [plain ''key_agreement_protocol'' (FText AnyText),
      plain ''hash'' (FText AnyText),
      plain ''message_authentication_code'' (FText AnyText),
      plain ''short_authentication_string'' (FVec (FText AnyText)),
      plain ''commitment'' (FText AnyText)]"

definition accept__CustomContent :: ty where
  "accept__CustomContent =
     FStruct None
     [plain ''method'' (FText AnyText),
      flat ''data'' (FMap AnyText FJson)]"

definition accept_AcceptMethod :: ty where
  "accept_AcceptMethod =
     FUntagged [accept_SasV1Content, accept__CustomContent]"

definition accept_ToDeviceKeyVerificationAcceptEventContent :: ty where
  "accept_ToDeviceKeyVerificationAcceptEventContent =
     FStruct None
     [plain ''transaction_id'' (FText AnyText),
      flat ''method'' accept_AcceptMethod]"

definition cancel_ToDeviceKeyVerificationCancelEventContent :: ty where
  "cancel_ToDeviceKeyVerificationCancelEventContent =
     FStruct None
     [plain ''transaction_id'' (FText AnyText),
      plain ''reason'' (FText AnyText),
      plain ''code'' (FText AnyText)]"

definition key_ToDeviceKeyVerificationKeyEventContent :: ty where
  "key_ToDeviceKeyVerificationKeyEventContent =
     FStruct None
     [plain ''transaction_id'' (FText AnyText),
      plain ''key'' (FText AnyText)]"

definition mac_ToDeviceKeyVerificationMacEventContent :: ty where
  "mac_ToDeviceKeyVerificationMacEventContent =
     FStruct None
     [plain ''transaction_id'' (FText AnyText),
      plain ''mac'' (FMap AnyText (FText AnyText)),
      plain ''keys'' (FText AnyText)]"

definition verification_request_ToDeviceKeyVerificationRequestEventContent :: ty where
  "verification_request_ToDeviceKeyVerificationRequestEventContent =
     FStruct None
     [plain ''from_device'' (FText AnyText),
      plain ''transaction_id'' (FText AnyText),
      plain ''methods'' (FVec (FText AnyText)),
      plain ''timestamp'' UInt]"

definition start_SasV1Content :: ty where
  "start_SasV1Content =
     FStruct (Some (''method'', ''m.sas.v1''))
     [plain ''key_agreement_protocols'' (FVec (FText AnyText)),
      plain ''hashes'' (FVec (FText AnyText)),
      plain ''message_authentication_codes'' (FVec (FText AnyText)),
      plain ''short_authentication_string'' (FVec (FText AnyText))]"

definition start__CustomContent :: ty where
  "start__CustomContent =
     FStruct None
     [plain ''method'' (FText AnyText),
      flat ''data'' (FMap AnyText FJson)]"

definition start_StartMethod :: ty where
  "start_StartMethod =
     FUntagged [start_SasV1Content, start__CustomContent]"

definition start_ToDeviceKeyVerificationStartEventContent :: ty where
  "start_ToDeviceKeyVerificationStartEventContent =
     FStruct None
     [plain ''from_device'' (FText AnyText),
      plain ''transaction_id'' (FText AnyText),
      flat ''method'' start_StartMethod]"

definition rule_PolicyRuleEventContent :: ty where
  "rule_PolicyRuleEventContent =
     FStruct None
     [plain ''entity'' (FText AnyText),
      plain ''recommendation'' (FText AnyText),
      plain ''reason'' (FText AnyText)]"

definition presence_PresenceEventContent :: ty where
  "presence_PresenceEventContent =
     FStruct None
     [opt ''avatar_url'' (FText AnyText),
      opt ''currently_active'' FBool,
      opt ''displayname'' (FText AnyText),
      opt ''last_active_ago'' UInt,
      plain ''presence'' (FText AnyText),
      opt ''status_msg'' (FText AnyText)]"

definition push_rules_PushRulesEventContent :: ty where
  "push_rules_PushRulesEventContent =
     FStruct None
     [plain ''global'' common_push_Ruleset]"

definition receipt_Receipt :: ty where
  "receipt_Receipt =
     FStruct None
     [opt ''ts'' UInt]"

definition room_ThumbnailInfo :: ty where
  "room_ThumbnailInfo =
     FStruct None
     [opt ''h'' UInt,
      opt ''w'' UInt,
      opt ''mimetype'' (FText AnyText),
      opt ''size'' UInt]"

definition room_JsonWebKey :: ty where
  "room_JsonWebKey =
     FStruct None
     [plain ''kty'' (FText AnyText),
      plain ''key_ops'' (FVec (FText AnyText)),
      plain ''alg'' (FText AnyText),
      plain ''k'' (FText AnyText),
      plain ''ext'' FBool]"

definition room_EncryptedFile :: ty where
  "room_EncryptedFile =
     FStruct None
     [plain ''url'' (FText AnyText),
      plain ''key'' room_JsonWebKey,
      plain ''iv'' (FText AnyText),
      plain ''hashes'' (FMap AnyText (FText AnyText)),
      plain ''v'' (FText AnyText)]"

definition room_ImageInfo :: ty where
  "room_ImageInfo =
     FStruct None
     [opt ''h'' UInt,
      opt ''w'' UInt,
      opt ''mimetype'' (FText AnyText),
      opt ''size'' UInt,
      opt ''thumbnail_info'' room_ThumbnailInfo,
      opt ''thumbnail_url'' (FText AnyText),
      opt ''thumbnail_file'' room_EncryptedFile]"

definition aliases_RoomAliasesEventContent :: ty where
  "aliases_RoomAliasesEventContent =
     FStruct None
     [plain ''aliases'' (FVec (FText RoomAliasText))]"

definition aliases_RedactedRoomAliasesEventContent :: ty where
  "aliases_RedactedRoomAliasesEventContent =
     FStruct None
     [plain ''aliases'' (FOpt (FVec (FText RoomAliasText)))]"

definition avatar_ImageInfo :: ty where
  "avatar_ImageInfo =
     FStruct None
     [opt ''h'' UInt,
      opt ''w'' UInt,
      opt ''mimetype'' (FText AnyText),
      opt ''size'' UInt,
      opt ''thumbnail_info'' room_ThumbnailInfo,
      opt ''thumbnail_url'' (FText AnyText)]"

definition avatar_RoomAvatarEventContent :: ty where
  "avatar_RoomAvatarEventContent =
     FStruct None
     [opt ''info'' avatar_ImageInfo,
      plain ''url'' (FText AnyText)]"

definition canonical_alias_RoomCanonicalAliasEventContent :: ty where
  "canonical_alias_RoomCanonicalAliasEventContent =
     FStruct None
     [Field ''alias'' (FWith (FEmptyNone (FText RoomAliasText))) SkipNone (Some (VNone)) False,
      empty_skipped ''alt_aliases'' (FVec (FText RoomAliasText)) (VVec [])]"

definition create_PreviousRoom :: ty where
  "create_PreviousRoom =
     FStruct None
     [plain ''room_id'' (FText RoomIdText),
      plain ''event_id'' (FText EventIdText)]"

definition create_RoomCreateEventContent :: ty where
  "create_RoomCreateEventContent =
     FStruct None
     [plain ''creator'' (FText UserIdText),
      default_skipped ''m.federate'' FBool (VBool True),
      defaulted ''room_version'' (FText RoomVersionText) (VText ''1''),
      opt ''predecessor'' create_PreviousRoom]"

definition encrypted_CiphertextInfo :: ty where
  "encrypted_CiphertextInfo =
     FStruct None
     [plain ''body'' (FText AnyText),
      plain ''type'' UInt]"

definition encrypted_OlmV1Curve25519AesSha2Content :: ty where
  "encrypted_OlmV1Curve25519AesSha2Content =
     FStruct None
     [plain ''ciphertext'' (FMap AnyText encrypted_CiphertextInfo),
      plain ''sender_key'' (FText AnyText)]"

definition encrypted_MegolmV1AesSha2Content :: ty where
  "encrypted_MegolmV1AesSha2Content =
     FStruct None
     [plain ''ciphertext'' (FText AnyText),
      plain ''sender_key'' (FText AnyText),
      plain ''device_id'' (FText AnyText),
      plain ''session_id'' (FText AnyText)]"

definition encrypted_EncryptedEventScheme :: ty where
  "encrypted_EncryptedEventScheme =
     FTagged ''algorithm''
     [(''m.olm.v1.curve25519-aes-sha2'', encrypted_OlmV1Curve25519AesSha2Content),
      (''m.megolm.v1.aes-sha2'', encrypted_MegolmV1AesSha2Content)]"

definition encrypted_RoomEncryptedEventContent :: ty where
  "encrypted_RoomEncryptedEventContent =
     FStruct None
     [flat ''scheme'' encrypted_EncryptedEventScheme,
      flat_opt ''relates_to'' (FOpaque ''Relation'')]"

definition encrypted_ToDeviceRoomEncryptedEventContent :: ty where
  "encrypted_ToDeviceRoomEncryptedEventContent =
     FStruct None
     [flat ''scheme'' encrypted_EncryptedEventScheme]"

definition encryption_RoomEncryptionEventContent :: ty where
  "encryption_RoomEncryptionEventContent =
     FStruct None
     [plain ''algorithm'' (FText AnyText),
      opt ''rotation_period_ms'' UInt,
      opt ''rotation_period_msgs'' UInt]"

definition guest_access_RoomGuestAccessEventContent :: ty where
  "guest_access_RoomGuestAccessEventContent =
     FStruct None
     [plain ''guest_access'' (FText AnyText)]"

definition history_visibility_RoomHistoryVisibilityEventContent :: ty where
  "history_visibility_RoomHistoryVisibilityEventContent =
     FStruct None
     [plain ''history_visibility'' (FText AnyText)]"

definition member_SignedContent :: ty where
  "member_SignedContent =
     FStruct None
     [plain ''mxid'' (FText UserIdText),
      plain ''signatures'' (FMap ServerNameText (FMap ServerKeyIdText (FText AnyText))),
      plain ''token'' (FText AnyText)]"

definition member_ThirdPartyInvite :: ty where
  "member_ThirdPartyInvite =
     FStruct None
     [plain ''display_name'' (FText AnyText),
      plain ''signed'' member_SignedContent]"

definition member_RoomMemberEventContent :: ty where
  "member_RoomMemberEventContent =
     FStruct None
     [opt ''avatar_url'' (FText AnyText),
      opt ''displayname'' (FText AnyText),
      opt ''is_direct'' FBool,
      plain ''membership'' (FText AnyText),
      opt ''third_party_invite'' member_ThirdPartyInvite]"

definition member_RedactedRoomMemberEventContent :: ty where
  "member_RedactedRoomMemberEventContent =
     FStruct None
     [plain ''membership'' (FText AnyText)]"

definition message_InReplyTo :: ty where
  "message_InReplyTo =
     FStruct None
     [plain ''event_id'' (FText EventIdText)]"

definition message_AudioInfo :: ty where
  "message_AudioInfo =
     FStruct None
     [opt ''duration'' UInt,
      opt ''mimetype'' (FText AnyText),
      opt ''size'' UInt]"

definition message_AudioMessageEventContent :: ty where
  "message_AudioMessageEventContent =
     FStruct (Some (''msgtype'', ''m.audio''))
     [plain ''body'' (FText AnyText),
      opt ''url'' (FText AnyText),
      opt ''file'' room_EncryptedFile,
      opt ''info'' message_AudioInfo]"

definition message_FormattedBody :: ty where
  "message_FormattedBody =
     FStruct None
     [plain ''format'' (FText AnyText),
      plain ''formatted_body'' (FText AnyText)]"

definition message_EmoteMessageEventContent :: ty where
  "message_EmoteMessageEventContent =
     FStruct (Some (''msgtype'', ''m.emote''))
     [plain ''body'' (FText AnyText),
      flat ''formatted'' (FOpt message_FormattedBody)]"

definition message_FileInfo :: ty where
  "message_FileInfo =
     FStruct None
     [opt ''mimetype'' (FText AnyText),
      opt ''size'' UInt,
      opt ''thumbnail_info'' room_ThumbnailInfo,
      opt ''thumbnail_url'' (FText AnyText),
      opt ''thumbnail_file'' room_EncryptedFile]"

definition message_FileMessageEventContent :: ty where
  "message_FileMessageEventContent =
     FStruct (Some (''msgtype'', ''m.file''))
     [plain ''body'' (FText AnyText),
      opt ''filename'' (FText AnyText),
      opt ''url'' (FText AnyText),
      opt ''file'' room_EncryptedFile,
      opt ''info'' message_FileInfo]"

definition message_ImageMessageEventContent :: ty where
  "message_ImageMessageEventContent =
     FStruct (Some (''msgtype'', ''m.image''))
     [plain ''body'' (FText AnyText),
      opt ''url'' (FText AnyText),
      opt ''file'' room_EncryptedFile,
      opt ''info'' room_ImageInfo]"

definition message_LocationInfo :: ty where
  "message_LocationInfo =
     FStruct None
     [opt ''thumbnail_url'' (FText AnyText),
      opt ''thumbnail_file'' room_EncryptedFile,
      opt ''thumbnail_info'' room_ThumbnailInfo]"

definition message_LocationMessageEventContent :: ty where
  "message_LocationMessageEventContent =
     FStruct (Some (''msgtype'', ''m.location''))
     [plain ''body'' (FText AnyText),
      plain ''geo_uri'' (FText AnyText),
      opt ''info'' message_LocationInfo]"

definition message_NoticeMessageEventContent :: ty where
  "message_NoticeMessageEventContent =
     FStruct (Some (''msgtype'', ''m.notice''))
     [plain ''body'' (FText AnyText),
      flat ''formatted'' (FOpt message_FormattedBody)]"

definition message_ServerNoticeMessageEventContent :: ty where
  "message_ServerNoticeMessageEventContent =
     FStruct (Some (''msgtype'', ''m.server_notice''))
     [plain ''body'' (FText AnyText),
      plain ''server_notice_type'' (FText AnyText),
      opt ''admin_contact'' (FText AnyText),
      opt ''limit_type'' (FText AnyText)]"

definition message_TextMessageEventContent :: ty where
  "message_TextMessageEventContent =
     FStruct (Some (''msgtype'', ''m.text''))
     [plain ''body'' (FText AnyText),
      flat ''formatted'' (FOpt message_FormattedBody)]"

definition message_VideoInfo :: ty where
  "message_VideoInfo =
     FStruct None
     [opt ''duration'' UInt,
      opt ''h'' UInt,
      opt ''w'' UInt,
      opt ''mimetype'' (FText AnyText),
      opt ''size'' UInt,
      opt ''thumbnail_info'' room_ThumbnailInfo,
      opt ''thumbnail_url'' (FText AnyText),
      opt ''thumbnail_file'' room_EncryptedFile]"

definition message_VideoMessageEventContent :: ty where
  "message_VideoMessageEventContent =
     FStruct (Some (''msgtype'', ''m.video''))
     [plain ''body'' (FText AnyText),
      opt ''url'' (FText AnyText),
      opt ''file'' room_EncryptedFile,
      opt ''info'' message_VideoInfo]"

definition message_CustomEventContent :: ty where
  "message_CustomEventContent =
     FStruct None
     [plain ''msgtype'' (FText AnyText),
      plain ''body'' (FText AnyText),
      flat ''data'' (FMap AnyText FJson)]"

definition feedback_RoomMessageFeedbackEventContent :: ty where
  "feedback_RoomMessageFeedbackEventContent =
     FStruct None
     [plain ''target_event_id'' (FText EventIdText),
      plain ''type'' (FText AnyText)]"

definition name_RoomNameEventContent :: ty where
  "name_RoomNameEventContent =
     FStruct None
     [defaulted ''name'' (FWith (FEmptyNone (FText RoomNameText))) VNone]"

definition pinned_events_RoomPinnedEventsEventContent :: ty where
  "pinned_events_RoomPinnedEventsEventContent =
     FStruct None
     [plain ''pinned'' (FVec (FText EventIdText))]"

definition redaction_RoomRedactionEventContent :: ty where
  "redaction_RoomRedactionEventContent =
     FStruct None
     [opt ''reason'' (FText AnyText)]"

definition server_acl_RoomServerAclEventContent :: ty where
  "server_acl_RoomServerAclEventContent =
     FStruct None
     [default_skipped ''allow_ip_literals'' FBool (VBool True),
      empty_skipped ''allow'' (FVec (FText AnyText)) (VVec []),
      empty_skipped ''deny'' (FVec (FText AnyText)) (VVec [])]"

definition third_party_invite_PublicKey :: ty where
  "third_party_invite_PublicKey =
     FStruct None
     [opt ''key_validity_url'' (FText AnyText),
      plain ''public_key'' (FText AnyText)]"

definition third_party_invite_RoomThirdPartyInviteEventContent :: ty where
  "third_party_invite_RoomThirdPartyInviteEventContent =
     FStruct None
     [plain ''display_name'' (FText AnyText),
      plain ''key_validity_url'' (FText AnyText),
      plain ''public_key'' (FText AnyText),
      opt ''public_keys'' (FVec third_party_invite_PublicKey)]"

definition tombstone_RoomTombstoneEventContent :: ty where
  "tombstone_RoomTombstoneEventContent =
     FStruct None
     [plain ''body'' (FText AnyText),
      plain ''replacement_room'' (FText RoomIdText)]"

definition topic_RoomTopicEventContent :: ty where
  "topic_RoomTopicEventContent =
     FStruct None
     [plain ''topic'' (FText AnyText)]"

definition room_key_ToDeviceRoomKeyEventContent :: ty where
  "room_key_ToDeviceRoomKeyEventContent =
     FStruct None
     [plain ''algorithm'' (FText AnyText),
      plain ''room_id'' (FText RoomIdText),
      plain ''session_id'' (FText AnyText),
      plain ''session_key'' (FText AnyText)]"

definition room_key_request_RequestedKeyInfo :: ty where
  "room_key_request_RequestedKeyInfo =
     FStruct None
     [plain ''algorithm'' (FText AnyText),
      plain ''room_id'' (FText RoomIdText),
      plain ''sender_key'' (FText AnyText),
      plain ''session_id'' (FText AnyText)]"

definition room_key_request_ToDeviceRoomKeyRequestEventContent :: ty where
  "room_key_request_ToDeviceRoomKeyRequestEventContent =
     FStruct None
     [plain ''action'' (FText AnyText),
      plain ''body'' (FOpt room_key_request_RequestedKeyInfo),
      plain ''requesting_device_id'' (FText AnyText),
      plain ''request_id'' (FText AnyText)]"

definition sticker_StickerEventContent :: ty where
  "sticker_StickerEventContent =
     FStruct None
     [plain ''body'' (FText AnyText),
      plain ''info'' room_ImageInfo,
      plain ''url'' (FText AnyText)]"

definition tag_TagEventContent :: ty where
  "tag_TagEventContent =
     FStruct None
     [plain ''tags'' (FOpaque ''Tags'')]"

definition tag_TagInfo :: ty where
  "tag_TagInfo =
     FStruct None
     [opt ''order'' (FOpaque ''f64'')]"

definition typing_TypingEventContent :: ty where
  "typing_TypingEventContent =
     FStruct None
     [plain ''user_ids'' (FVec (FText UserIdText))]"

definition unsigned_Unsigned :: ty where
  "unsigned_Unsigned =
     FStruct None
     [opt ''age'' JsInt,
      opt ''transaction_id'' (FText AnyText)]"

definition unsigned_RedactedUnsigned :: ty where
  "unsigned_RedactedUnsigned =
     FStruct None
     [opt ''redacted_because'' (FOpaque ''SyncRoomRedactionEvent'')]"

definition common_push_PusherData_is_empty :: skip where
  "common_push_PusherData_is_empty =
     SkipAll [Some SkipNone, Some SkipNone]"

definition common_directory_Filter_is_empty :: skip where
  "common_directory_Filter_is_empty =
     SkipAll [Some SkipNone]"

end
