(* ===== verification/Client_Types.thy ===== *)
theory Client_Types
  imports Common_Types
begin

text \<open>The types of the client-server API (\<^verbatim>\<open>ruma-client-api\<close>), as in \<open>Common_Types\<close>.\<close>

definition error_ErrorBody :: ty where
  "error_ErrorBody =
     FStruct None
     [flat ''kind'' (FOpaque ''ErrorKind''),
      plain ''error'' (FText AnyText)]"

definition account_IdentityServerInfo :: ty where
  "account_IdentityServerInfo =
     FStruct None
     [plain ''id_server'' (FText AnyText),
      plain ''id_access_token'' (FText AnyText)]"

definition register_RegistrationKind :: ty where
  "register_RegistrationKind =
     FUnits [''guest'', ''user'']"

definition capabilities_ChangePasswordCapability :: ty where
  "capabilities_ChangePasswordCapability =
     FStruct None
     [plain ''enabled'' FBool]"

definition capabilities_RoomVersionsCapability :: ty where
  "capabilities_RoomVersionsCapability =
     FStruct None
     [plain ''default'' (FText RoomVersionText),
      plain ''available'' (FMap RoomVersionText (FText AnyText))]"

definition capabilities_Capabilities :: ty where
  "capabilities_Capabilities =
     FStruct None
     [default_skipped ''m.change_password'' capabilities_ChangePasswordCapability (VStruct [VBool True]),
      default_skipped ''m.room_versions'' capabilities_RoomVersionsCapability (VStruct [VText ''1'', VMap [(''1'',
        VText ''stable'')]]),
      flat ''custom_capabilities'' (FMap AnyText FJson)]"

definition device_Device :: ty where
  "device_Device =
     FStruct None
     [plain ''device_id'' (FText AnyText),
      plain ''display_name'' (FOpt (FText AnyText)),
      plain ''last_seen_ip'' (FOpt (FText AnyText)),
      opt ''last_seen_ts'' UInt]"

definition directory_PublicRoomsChunk :: ty where
  "directory_PublicRoomsChunk =
     FStruct None
     [empty_skipped ''aliases'' (FVec (FText RoomAliasText)) (VVec []),
      opt ''canonical_alias'' (FText RoomAliasText),
      opt ''name'' (FText RoomNameText),
      plain ''num_joined_members'' UInt,
      plain ''room_id'' (FText RoomIdText),
      opt ''topic'' (FText AnyText),
      plain ''world_readable'' FBool,
      plain ''guest_can_join'' FBool,
      opt ''avatar_url'' (FText AnyText)]"

definition filter_RoomEventFilter :: ty where
  "filter_RoomEventFilter =
     FStruct None
     [empty_skipped ''not_types'' (FVec (FText AnyText)) (VVec []),
      empty_skipped ''not_rooms'' (FVec (FText RoomIdText)) (VVec []),
      opt ''limit'' UInt,
      opt ''rooms'' (FVec (FText RoomIdText)),
      empty_skipped ''not_senders'' (FVec (FText UserIdText)) (VVec []),
      opt ''senders'' (FVec (FText UserIdText)),
      opt ''types'' (FVec (FText AnyText)),
      opt ''contains_url'' (FOpaque ''UrlFilter''),
      flat ''lazy_load_options'' (FOpaque ''LazyLoadOptions'')]"

definition filter_Filter :: ty where
  "filter_Filter =
     FStruct None
     [empty_skipped ''not_types'' (FVec (FText AnyText)) (VVec []),
      opt ''limit'' UInt,
      opt ''senders'' (FVec (FText UserIdText)),
      opt ''types'' (FVec (FText AnyText)),
      empty_skipped ''not_senders'' (FVec (FText UserIdText)) (VVec [])]"

definition filter_Filter_is_empty :: skip where
  "filter_Filter_is_empty =
     SkipAll [Some SkipEmpty, Some SkipNone, Some SkipNone, Some SkipNone, Some SkipEmpty]"

definition membership_ThirdPartySigned :: ty where
  "membership_ThirdPartySigned =
     FStruct None
     [plain ''sender'' (FText UserIdText),
      plain ''mxid'' (FText UserIdText),
      plain ''token'' (FText AnyText),
      plain ''signatures'' (FMap ServerNameText (FMap ServerKeyIdText (FText AnyText)))]"

definition membership_Invite3pid :: ty where
  "membership_Invite3pid =
     FStruct None
     [plain ''id_server'' (FText AnyText),
      plain ''id_access_token'' (FText AnyText),
      plain ''medium'' (FText AnyText),
      plain ''address'' (FText AnyText)]"

definition invite_user_InvitationRecipient :: ty where
  "invite_user_InvitationRecipient =
     FUntagged [FStruct None [plain ''user_id'' (FText UserIdText)], membership_Invite3pid]"

definition joined_members_RoomMember :: ty where
  "joined_members_RoomMember =
     FStruct None
     [opt ''display_name'' (FText AnyText),
      opt ''avatar_url'' (FText AnyText)]"

definition get_message_events_Direction :: ty where
  "get_message_events_Direction =
     FUnits [''b'', ''f'']"

definition push_PushRule :: ty where
  "push_PushRule =
     FStruct None
     [plain ''actions'' (FVec (FOpaque ''Action'')),
      plain ''default'' FBool,
      plain ''enabled'' FBool,
      plain ''rule_id'' (FText AnyText),
      opt ''conditions'' (FVec common_condition_PushCondition),
      opt ''pattern'' (FText AnyText)]"

definition get_notifications_Notification :: ty where
  "get_notifications_Notification =
     FStruct None
     [plain ''actions'' (FVec (FOpaque ''Action'')),
      plain ''event'' FJson,
      opt ''profile_tag'' (FText AnyText),
      plain ''read'' FBool,
      plain ''room_id'' (FText RoomIdText),
      plain ''ts'' UInt]"

definition get_pushers_Pusher :: ty where
  "get_pushers_Pusher =
     FStruct None
     [plain ''pushkey'' (FText AnyText),
      plain ''kind'' (FText AnyText),
      plain ''app_id'' (FText AnyText),
      plain ''app_display_name'' (FText AnyText),
      plain ''device_display_name'' (FText AnyText),
      opt ''profile_tag'' (FText AnyText),
      plain ''lang'' (FText AnyText),
      plain ''data'' common_push_PusherData]"

definition set_pusher_Pusher :: ty where
  "set_pusher_Pusher =
     FStruct None
     [plain ''pushkey'' (FText AnyText),
      plain ''kind'' (FOpt (FText AnyText)),
      plain ''app_id'' (FText AnyText),
      plain ''app_display_name'' (FText AnyText),
      plain ''device_display_name'' (FText AnyText),
      opt ''profile_tag'' (FText AnyText),
      plain ''lang'' (FText AnyText),
      plain ''data'' common_push_PusherData]"

definition create_room_CreationContent :: ty where
  "create_room_CreationContent =
     FStruct None
     [default_skipped ''m.federate'' FBool (VBool True),
      opt ''predecessor'' create_PreviousRoom]"

definition search_events_EventContext :: ty where
  "search_events_EventContext =
     FStruct None
     [default_skipped ''before_limit'' UInt (VInt 5),
      default_skipped ''after_limit'' UInt (VInt 5),
      default_skipped ''include_profile'' FBool (VBool False)]"

definition search_events_EventContext_is_empty :: skip where
  "search_events_EventContext_is_empty =
     SkipAll [Some (SkipEq (VInt 5)), Some (SkipEq (VInt 5)), Some (SkipEq (VBool False))]"

definition search_events_Grouping :: ty where
  "search_events_Grouping =
     FStruct None
     [plain ''key'' (FOpt (FText AnyText))]"

definition search_events_Groupings :: ty where
  "search_events_Groupings =
     FStruct None
     [empty_skipped ''group_by'' (FVec search_events_Grouping) (VVec [])]"

definition search_events_Groupings_is_empty :: skip where
  "search_events_Groupings_is_empty =
     SkipAll [Some SkipEmpty]"

definition search_events_Criteria :: ty where
  "search_events_Criteria =
     FStruct None
     [plain ''search_term'' (FText AnyText),
      opt ''keys'' (FVec (FText AnyText)),
      opt ''filter'' filter_RoomEventFilter,
      opt ''order_by'' (FText AnyText),
      Field ''event_context'' search_events_EventContext search_events_EventContext_is_empty (Some (VStruct [VInt 5, VInt 5,
        VBool False])) False,
      opt ''include_state'' FBool,
      Field ''groupings'' search_events_Groupings search_events_Groupings_is_empty (Some (VStruct [VVec []])) False]"

definition search_events_Categories :: ty where
  "search_events_Categories =
     FStruct None
     [opt ''room_events'' search_events_Criteria]"

definition search_events_UserProfile :: ty where
  "search_events_UserProfile =
     FStruct None
     [opt ''avatar_url'' (FText AnyText),
      opt ''displayname'' (FText AnyText)]"

definition search_events_EventContextResult :: ty where
  "search_events_EventContextResult =
     FStruct None
     [opt ''end'' (FText AnyText),
      empty_skipped ''events_after'' (FVec FJson) (VVec []),
      empty_skipped ''events_before'' (FVec FJson) (VVec []),
      empty_skipped ''profile_info'' (FMap UserIdText search_events_UserProfile) (VMap []),
      opt ''start'' (FText AnyText)]"

definition search_events_EventContextResult_is_empty :: skip where
  "search_events_EventContextResult_is_empty =
     SkipAll [Some SkipNone, Some SkipEmpty, Some SkipEmpty, Some SkipEmpty, Some SkipNone]"

definition search_events_SearchResult :: ty where
  "search_events_SearchResult =
     FStruct None
     [Field ''context'' search_events_EventContextResult search_events_EventContextResult_is_empty None False,
      opt ''rank'' UInt,
      opt ''result'' FJson]"

definition search_events_ResultRoomEvents :: ty where
  "search_events_ResultRoomEvents =
     FStruct None
     [opt ''count'' UInt,
      empty_skipped ''groups'' (FMap AnyText (FOpaque ''BTreeMap<Box<RoomIdOrUserId>,ResultGroup>'')) (VMap []),
      opt ''next_batch'' (FText AnyText),
      empty_skipped ''results'' (FVec search_events_SearchResult) (VVec []),
      empty_skipped ''state'' (FMap RoomIdText (FVec FJson)) (VMap []),
      empty_skipped ''highlights'' (FVec (FText AnyText)) (VVec [])]"

definition search_events_ResultRoomEvents_is_empty :: skip where
  "search_events_ResultRoomEvents_is_empty =
     SkipAll [Some SkipNone, Some SkipEmpty, Some SkipNone, Some SkipEmpty, Some SkipEmpty, Some SkipEmpty]"

definition search_events_ResultCategories :: ty where
  "search_events_ResultCategories =
     FStruct None
     [Field ''room_events'' search_events_ResultRoomEvents search_events_ResultRoomEvents_is_empty (Some (VStruct [VNone,
       VMap [], VNone, VVec [], VMap [], VVec []])) False]"

definition search_events_ResultGroup :: ty where
  "search_events_ResultGroup =
     FStruct None
     [opt ''next_batch'' (FText AnyText),
      opt ''order'' UInt,
      empty_skipped ''results'' (FVec (FText EventIdText)) (VVec [])]"

definition get_user_info_ConnectionInfo :: ty where
  "get_user_info_ConnectionInfo =
     FStruct None
     [plain ''ip'' (FOpt (FText AnyText)),
      plain ''last_seen'' (FOpt UInt),
      plain ''user_agent'' (FOpt (FText AnyText))]"

definition get_user_info_SessionInfo :: ty where
  "get_user_info_SessionInfo =
     FStruct None
     [empty_skipped ''connections'' (FVec get_user_info_ConnectionInfo) (VVec [])]"

definition get_user_info_DeviceInfo :: ty where
  "get_user_info_DeviceInfo =
     FStruct None
     [empty_skipped ''sessions'' (FVec get_user_info_SessionInfo) (VVec [])]"

definition get_login_types_PasswordLoginType :: ty where
  "get_login_types_PasswordLoginType =
     FStruct (Some (''type'', ''m.login.password''))
     []"

definition get_login_types_TokenLoginType :: ty where
  "get_login_types_TokenLoginType =
     FStruct (Some (''type'', ''m.login.token''))
     []"

definition get_login_types_SsoLoginType :: ty where
  "get_login_types_SsoLoginType =
     FStruct (Some (''type'', ''m.login.sso''))
     []"

definition get_login_types_CustomLoginType :: ty where
  "get_login_types_CustomLoginType =
     FStruct None
     [plain ''override'' (FText AnyText),
      flat ''data'' (FMap AnyText FJson)]"

definition login_Password :: ty where
  "login_Password =
     FStruct (Some (''type'', ''m.login.password''))
     [plain ''identifier'' (FOpaque ''UserIdentifier''),
      plain ''password'' (FText AnyText)]"

definition login_Token :: ty where
  "login_Token =
     FStruct (Some (''type'', ''m.login.token''))
     [plain ''token'' (FText AnyText)]"

definition login_HomeserverInfo :: ty where
  "login_HomeserverInfo =
     FStruct None
     [plain ''base_url'' (FText AnyText)]"

definition login_IdentityServerInfo :: ty where
  "login_IdentityServerInfo =
     FStruct None
     [plain ''base_url'' (FText AnyText)]"

definition login_DiscoveryInfo :: ty where
  "login_DiscoveryInfo =
     FStruct None
     [plain ''m.homeserver'' login_HomeserverInfo,
      plain ''m.identity_server'' (FOpt login_IdentityServerInfo)]"

definition sync_events_Timeline :: ty where
  "sync_events_Timeline =
     FStruct None
     [default_skipped ''limited'' FBool (VBool False),
      opt ''prev_batch'' (FText AnyText),
      empty_skipped ''events'' (FVec FJson) (VVec [])]"

definition sync_events_Timeline_is_empty :: skip where
  "sync_events_Timeline_is_empty =
     SkipAll [None, None, Some SkipEmpty]"

definition sync_events_State :: ty where
  "sync_events_State =
     FStruct None
     [empty_skipped ''events'' (FVec FJson) (VVec [])]"

definition sync_events_State_is_empty :: skip where
  "sync_events_State_is_empty =
     SkipAll [Some SkipEmpty]"

definition sync_events_RoomAccountData :: ty where
  "sync_events_RoomAccountData =
     FStruct None
     [empty_skipped ''events'' (FVec FJson) (VVec [])]"

definition sync_events_RoomAccountData_is_empty :: skip where
  "sync_events_RoomAccountData_is_empty =
     SkipAll [Some SkipEmpty]"

definition sync_events_LeftRoom :: ty where
  "sync_events_LeftRoom =
     FStruct None
     [Field ''timeline'' sync_events_Timeline sync_events_Timeline_is_empty (Some (VStruct [VBool False, VNone,
       VVec []])) False,
      Field ''state'' sync_events_State sync_events_State_is_empty (Some (VStruct [VVec []])) False,
      Field ''account_data'' sync_events_RoomAccountData sync_events_RoomAccountData_is_empty (Some (VStruct [VVec []]))
        False]"

definition sync_events_RoomSummary :: ty where
  "sync_events_RoomSummary =
     FStruct None
     [empty_skipped ''m.heroes'' (FVec (FText AnyText)) (VVec []),
      opt ''m.joined_member_count'' UInt,
      opt ''m.invited_member_count'' UInt]"

definition sync_events_RoomSummary_is_empty :: skip where
  "sync_events_RoomSummary_is_empty =
     SkipAll [Some SkipEmpty, Some SkipNone, Some SkipNone]"

definition sync_events_UnreadNotificationsCount :: ty where
  "sync_events_UnreadNotificationsCount =
     FStruct None
     [opt ''highlight_count'' UInt,
      opt ''notification_count'' UInt]"

definition sync_events_UnreadNotificationsCount_is_empty :: skip where
  "sync_events_UnreadNotificationsCount_is_empty =
     SkipAll [Some SkipNone, Some SkipNone]"

definition sync_events_Ephemeral :: ty where
  "sync_events_Ephemeral =
     FStruct None
     [empty_skipped ''events'' (FVec FJson) (VVec [])]"

definition sync_events_Ephemeral_is_empty :: skip where
  "sync_events_Ephemeral_is_empty =
     SkipAll [Some SkipEmpty]"

definition sync_events_JoinedRoom :: ty where
  "sync_events_JoinedRoom =
     FStruct None
     [Field ''summary'' sync_events_RoomSummary sync_events_RoomSummary_is_empty (Some (VStruct [VVec [], VNone,
       VNone])) False,
      Field ''unread_notifications'' sync_events_UnreadNotificationsCount sync_events_UnreadNotificationsCount_is_empty
        (Some (VStruct [VNone, VNone])) False,
      Field ''timeline'' sync_events_Timeline sync_events_Timeline_is_empty (Some (VStruct [VBool False, VNone,
        VVec []])) False,
      Field ''state'' sync_events_State sync_events_State_is_empty (Some (VStruct [VVec []])) False,
      Field ''account_data'' sync_events_RoomAccountData sync_events_RoomAccountData_is_empty (Some (VStruct [VVec []]))
        False,
      Field ''ephemeral'' sync_events_Ephemeral sync_events_Ephemeral_is_empty (Some (VStruct [VVec []])) False]"

definition sync_events_InviteState :: ty where
  "sync_events_InviteState =
     FStruct None
     [empty_skipped ''events'' (FVec FJson) (VVec [])]"

definition sync_events_InviteState_is_empty :: skip where
  "sync_events_InviteState_is_empty =
     SkipAll [Some SkipEmpty]"

definition sync_events_InvitedRoom :: ty where
  "sync_events_InvitedRoom =
     FStruct None
     [Field ''invite_state'' sync_events_InviteState sync_events_InviteState_is_empty (Some (VStruct [VVec []])) False]"

definition sync_events_Rooms :: ty where
  "sync_events_Rooms =
     FStruct None
     [empty_skipped ''leave'' (FMap RoomIdText sync_events_LeftRoom) (VMap []),
      empty_skipped ''join'' (FMap RoomIdText sync_events_JoinedRoom) (VMap []),
      empty_skipped ''invite'' (FMap RoomIdText sync_events_InvitedRoom) (VMap [])]"

definition sync_events_GlobalAccountData :: ty where
  "sync_events_GlobalAccountData =
     FStruct None
     [empty_skipped ''events'' (FVec FJson) (VVec [])]"

definition sync_events_Presence :: ty where
  "sync_events_Presence =
     FStruct None
     [empty_skipped ''events'' (FVec FJson) (VVec [])]"

definition sync_events_ToDevice :: ty where
  "sync_events_ToDevice =
     FStruct None
     [empty_skipped ''events'' (FVec FJson) (VVec [])]"

definition sync_events_DeviceLists :: ty where
  "sync_events_DeviceLists =
     FStruct None
     [empty_skipped ''changed'' (FVec (FText UserIdText)) (VVec []),
      empty_skipped ''left'' (FVec (FText UserIdText)) (VVec [])]"

definition create_typing_event_TypingInner :: ty where
  "create_typing_event_TypingInner =
     FStruct None
     [plain ''typing'' FBool,
      Field ''timeout'' (FWith (FOpt (FDuration 1000000))) SkipNone (Some (VNone)) False]"

definition uiaa_Password :: ty where
  "uiaa_Password =
     FStruct (Some (''type'', ''m.login.password''))
     [plain ''identifier'' (FOpaque ''UserIdentifier''),
      plain ''password'' (FText AnyText),
      plain ''session'' (FOpt (FText AnyText))]"

definition uiaa_ReCaptcha :: ty where
  "uiaa_ReCaptcha =
     FStruct (Some (''type'', ''m.login.recaptcha''))
     [plain ''response'' (FText AnyText),
      plain ''session'' (FOpt (FText AnyText))]"

definition uiaa_Token :: ty where
  "uiaa_Token =
     FStruct (Some (''type'', ''m.login.token''))
     [plain ''token'' (FText AnyText),
      plain ''txn_id'' (FText AnyText),
      plain ''session'' (FOpt (FText AnyText))]"

definition uiaa_OAuth2 :: ty where
  "uiaa_OAuth2 =
     FStruct (Some (''type'', ''m.login.oauth2''))
     [plain ''uri'' (FText AnyText),
      plain ''session'' (FOpt (FText AnyText))]"

definition uiaa_ThirdpartyIdCredentials :: ty where
  "uiaa_ThirdpartyIdCredentials =
     FStruct None
     [plain ''sid'' (FText SessionIdText),
      plain ''client_secret'' (FText ClientSecretText),
      plain ''id_server'' (FText AnyText),
      plain ''id_access_token'' (FText AnyText)]"

definition uiaa_EmailIdentity :: ty where
  "uiaa_EmailIdentity =
     FStruct (Some (''type'', ''m.login.email.identity''))
     [plain ''threepidCreds'' (FVec uiaa_ThirdpartyIdCredentials),
      plain ''session'' (FOpt (FText AnyText))]"

definition uiaa_Msisdn :: ty where
  "uiaa_Msisdn =
     FStruct (Some (''type'', ''m.login.msisdn''))
     [plain ''threepidCreds'' (FVec uiaa_ThirdpartyIdCredentials),
      plain ''session'' (FOpt (FText AnyText))]"

definition uiaa_Dummy :: ty where
  "uiaa_Dummy =
     FStruct (Some (''type'', ''m.login.dummy''))
     [plain ''session'' (FOpt (FText AnyText))]"

definition uiaa_FallbackAcknowledgement :: ty where
  "uiaa_FallbackAcknowledgement =
     FStruct None
     [plain ''session'' (FText AnyText)]"

definition uiaa_AuthFlow :: ty where
  "uiaa_AuthFlow =
     FStruct None
     [empty_skipped ''stages'' (FVec (FText AnyText)) (VVec [])]"

definition uiaa_UiaaInfo :: ty where
  "uiaa_UiaaInfo =
     FStruct None
     [plain ''flows'' (FVec uiaa_AuthFlow),
      empty_skipped ''completed'' (FVec (FText AnyText)) (VVec []),
      plain ''params'' FJson,
      opt ''session'' (FText AnyText),
      flat_opt ''auth_error'' error_ErrorBody]"

definition user_serde_UserIdentifier :: ty where
  "user_serde_UserIdentifier =
     FTagged ''type''
     [(''m.id.user'', FStruct None [plain ''user'' (FText AnyText)]),
      (''m.id.thirdparty'', FStruct None [plain ''medium'' (FText AnyText), plain ''address'' (FText AnyText)]),
      (''m.id.phone'', FStruct None [plain ''country'' (FText AnyText), plain ''phone'' (FText AnyText)])]"

definition search_users_User :: ty where
  "search_users_User =
     FStruct None
     [plain ''user_id'' (FText UserIdText),
      opt ''display_name'' (FText AnyText),
      opt ''avatar_url'' (FText AnyText)]"

definition discover_homeserver_HomeserverInfo :: ty where
  "discover_homeserver_HomeserverInfo =
     FStruct None
     [plain ''base_url'' (FText AnyText)]"

definition discover_homeserver_IdentityServerInfo :: ty where
  "discover_homeserver_IdentityServerInfo =
     FStruct None
     [plain ''base_url'' (FText AnyText)]"

definition sync_events_Rooms_is_empty :: skip where
  "sync_events_Rooms_is_empty =
     SkipAll [Some SkipEmpty, Some SkipEmpty, Some SkipEmpty]"

definition sync_events_Presence_is_empty :: skip where
  "sync_events_Presence_is_empty =
     SkipAll [Some SkipEmpty]"

definition sync_events_GlobalAccountData_is_empty :: skip where
  "sync_events_GlobalAccountData_is_empty =
     SkipAll [Some SkipEmpty]"

definition sync_events_ToDevice_is_empty :: skip where
  "sync_events_ToDevice_is_empty =
     SkipAll [Some SkipEmpty]"

definition sync_events_DeviceLists_is_empty :: skip where
  "sync_events_DeviceLists_is_empty =
     SkipAll [Some SkipEmpty, Some SkipEmpty]"

end
