(* ===== verification/Client_Endpoints.thy ===== *)
theory Client_Endpoints
  imports Client_Types
begin

text \<open>The endpoints of the client-server API: the \<^verbatim>\<open>ruma_api!\<close> declarations of \<^verbatim>\<open>ruma-client-api\<close>, named after their
  modules.\<close>

definition add_3pid_api :: api_decl where
  "add_3pid_api =
     \<lparr>ad_metadata =
      [Description ''Add contact information to a user's account'',
       Method ''POST'',
       Name ''add_3pid'',
       Path ''/_matrix/client/r0/account/3pid/add'',
       RateLimited True,
       Authentication AccessToken],
     ad_request =
      [in_body ''auth'' True (opt ''auth'' (FOpaque ''AuthData'')),
       in_body ''client_secret'' True (plain ''client_secret'' (FText ClientSecretText)),
       in_body ''sid'' True (plain ''sid'' (FText SessionIdText))],
     ad_response =
      [],
     ad_error = ''UiaaResponse''\<rparr>"

definition bind_3pid_api :: api_decl where
  "bind_3pid_api =
     \<lparr>ad_metadata =
      [Description ''Bind a 3PID to a user's account on an identity server'',
       Method ''POST'',
       Name ''bind_3pid'',
       Path ''/_matrix/client/r0/account/3pid/bind'',
       RateLimited True,
       Authentication AccessToken],
     ad_request =
      [in_body ''client_secret'' True (plain ''client_secret'' (FText ClientSecretText)),
       in_body ''identity_server_info'' True (flat ''identity_server_info'' account_IdentityServerInfo),
       in_body ''sid'' True (plain ''sid'' (FText SessionIdText))],
     ad_response =
      [],
     ad_error = ''Error''\<rparr>"

definition change_password_api :: api_decl where
  "change_password_api =
     \<lparr>ad_metadata =
      [Description ''Change the password of the current user's account.'',
       Method ''POST'',
       Name ''change_password'',
       Path ''/_matrix/client/r0/account/password'',
       RateLimited True,
       Authentication AccessToken],
     ad_request =
      [in_body ''new_password'' True (plain ''new_password'' (FText AnyText)),
       in_body ''logout_devices'' False (default_skipped ''logout_devices'' FBool (VBool True)),
       in_body ''auth'' True (opt ''auth'' (FOpaque ''AuthData''))],
     ad_response =
      [],
     ad_error = ''UiaaResponse''\<rparr>"

definition deactivate_api :: api_decl where
  "deactivate_api =
     \<lparr>ad_metadata =
      [Description ''Deactivate the current user's account.'',
       Method ''POST'',
       Name ''deactivate'',
       Path ''/_matrix/client/r0/account/deactivate'',
       RateLimited True,
       Authentication AccessToken],
     ad_request =
      [in_body ''auth'' True (opt ''auth'' (FOpaque ''AuthData'')),
       in_body ''id_server'' True (opt ''id_server'' (FText AnyText))],
     ad_response =
      [in_body ''id_server_unbind_result'' False (plain ''id_server_unbind_result'' (FText AnyText))],
     ad_error = ''UiaaResponse''\<rparr>"

definition delete_3pid_api :: api_decl where
  "delete_3pid_api =
     \<lparr>ad_metadata =
      [Description ''Delete a 3PID from a user's account on an identity server.'',
       Method ''POST'',
       Name ''delete_3pid'',
       Path ''/_matrix/client/r0/account/3pid/delete'',
       RateLimited False,
       Authentication AccessToken],
     ad_request =
      [in_body ''id_server'' True (opt ''id_server'' (FText AnyText)),
       in_body ''medium'' False (plain ''medium'' (FText AnyText)),
       in_body ''address'' True (plain ''address'' (FText AnyText))],
     ad_response =
      [in_body ''id_server_unbind_result'' False (plain ''id_server_unbind_result'' (FText AnyText))],
     ad_error = ''Error''\<rparr>"

definition get_3pids_api :: api_decl where
  "get_3pids_api =
     \<lparr>ad_metadata =
      [Description ''Get a list of 3rd party contacts associated with the user's account.'',
       Method ''GET'',
       Name ''get_3pids'',
       Path ''/_matrix/client/r0/account/3pid'',
       RateLimited False,
       Authentication AccessToken],
     ad_request =
      [],
     ad_response =
      [in_body ''threepids'' False (empty_skipped ''threepids'' (FVec common_thirdparty_ThirdPartyIdentifier) (VVec []))],
     ad_error = ''Error''\<rparr>"

definition get_username_availability_api :: api_decl where
  "get_username_availability_api =
     \<lparr>ad_metadata =
      [Description ''Checks to see if a username is available, and valid, for the server.'',
       Method ''GET'',
       Name ''get_username_availability'',
       Path ''/_matrix/client/r0/register/available'',
       RateLimited True,
       Authentication AuthNone],
     ad_request =
      [in_query ''username'' True (plain ''username'' (FText AnyText))],
     ad_response =
      [in_body ''available'' False (plain ''available'' FBool)],
     ad_error = ''Error''\<rparr>"

definition register_api :: api_decl where
  "register_api =
     \<lparr>ad_metadata =
      [Description ''Register an account on this homeserver.'',
       Method ''POST'',
       Name ''register'',
       Path ''/_matrix/client/r0/register'',
       RateLimited True,
       Authentication AuthNone],
     ad_request =
      [in_body ''password'' True (opt ''password'' (FText AnyText)),
       in_body ''username'' True (opt ''username'' (FText AnyText)),
       in_body ''device_id'' True (opt ''device_id'' (FText AnyText)),
       in_body ''initial_device_display_name'' True (opt ''initial_device_display_name'' (FText AnyText)),
       in_body ''auth'' True (opt ''auth'' (FOpaque ''AuthData'')),
       in_query ''kind'' False (default_skipped ''kind'' register_RegistrationKind (VUnit ''user'')),
       in_body ''inhibit_login'' False (default_skipped ''inhibit_login'' FBool (VBool False)),
       in_body ''login_type'' True (opt ''type'' (FOpaque ''LoginType''))],
     ad_response =
      [in_body ''access_token'' False (opt ''access_token'' (FText AnyText)),
       in_body ''user_id'' False (plain ''user_id'' (FText UserIdText)),
       in_body ''device_id'' False (plain ''device_id'' (FOpt (FText AnyText)))],
     ad_error = ''UiaaResponse''\<rparr>"

definition request_3pid_management_token_via_email_api :: api_decl where
  "request_3pid_management_token_via_email_api =
     \<lparr>ad_metadata =
      [Description ''Request a 3PID management token with a 3rd party email.'',
       Method ''POST'',
       Name ''request_3pid_management_token_via_email'',
       Path ''/_matrix/client/r0/account/3pid/email/requestToken'',
       RateLimited False,
       Authentication AuthNone],
     ad_request =
      [in_body ''client_secret'' True (plain ''client_secret'' (FText ClientSecretText)),
       in_body ''email'' True (plain ''email'' (FText AnyText)),
       in_body ''send_attempt'' False (plain ''send_attempt'' UInt),
       in_body ''next_link'' True (opt ''next_link'' (FText AnyText)),
       in_body ''identity_server_info'' True (flat_opt ''identity_server_info'' account_IdentityServerInfo)],
     ad_response =
      [in_body ''sid'' False (plain ''sid'' (FText SessionIdText)),
       in_body ''submit_url'' False (opt ''submit_url'' (FText AnyText))],
     ad_error = ''Error''\<rparr>"

definition request_3pid_management_token_via_msisdn_api :: api_decl where
  "request_3pid_management_token_via_msisdn_api =
     \<lparr>ad_metadata =
      [Description ''Request a 3PID management token with a phone number.'',
       Method ''POST'',
       Name ''request_3pid_management_token_via_msisdn'',
       Path ''/_matrix/client/r0/account/3pid/msisdn/requestToken'',
       RateLimited False,
       Authentication AuthNone],
     ad_request =
      [in_body ''client_secret'' True (plain ''client_secret'' (FText ClientSecretText)),
       in_body ''country'' True (plain ''country'' (FText AnyText)),
       in_body ''phone_number'' True (plain ''phone_number'' (FText AnyText)),
       in_body ''send_attempt'' False (plain ''send_attempt'' UInt),
       in_body ''next_link'' True (opt ''next_link'' (FText AnyText)),
       in_body ''identity_server_info'' True (flat_opt ''identity_server_info'' account_IdentityServerInfo)],
     ad_response =
      [in_body ''sid'' False (plain ''sid'' (FText SessionIdText)),
       in_body ''submit_url'' False (opt ''submit_url'' (FText AnyText))],
     ad_error = ''Error''\<rparr>"

definition request_openid_token_api :: api_decl where
  "request_openid_token_api =
     \<lparr>ad_metadata =
      [Description ''Request an OpenID 1.0 token to verify identity with a third party.'',
       Name ''request_openid_token'',
       Method ''POST'',
       Path ''/_matrix/client/r0/user/:user_id/openid/request_token'',
       RateLimited True,
       Authentication AccessToken],
     ad_request =
      [in_path ''user_id'' True (plain ''user_id'' (FText UserIdText))],
     ad_response =
      [in_body ''access_token'' False (plain ''access_token'' (FText AnyText)),
       in_body ''token_type'' False (plain ''token_type'' (FText AnyText)),
       in_body ''matrix_server_name'' False (plain ''matrix_server_name'' (FText ServerNameText)),
       in_body ''expires_in'' False (plain ''expires_in'' (FWith (FDuration 1000000000)))],
     ad_error = ''Error''\<rparr>"

definition request_password_change_token_via_email_api :: api_decl where
  "request_password_change_token_via_email_api =
     \<lparr>ad_metadata =
      [Description ''Request that a password change token is sent to the given email address.'',
       Method ''POST'',
       Name ''request_password_change_token_via_email'',
       Path ''/_matrix/client/r0/account/password/email/requestToken'',
       RateLimited False,
       Authentication AuthNone],
     ad_request =
      [in_body ''client_secret'' True (plain ''client_secret'' (FText ClientSecretText)),
       in_body ''email'' True (plain ''email'' (FText AnyText)),
       in_body ''send_attempt'' False (plain ''send_attempt'' UInt),
       in_body ''next_link'' True (opt ''next_link'' (FText AnyText)),
       in_body ''identity_server_info'' True (flat_opt ''identity_server_info'' account_IdentityServerInfo)],
     ad_response =
      [in_body ''sid'' False (plain ''sid'' (FText SessionIdText)),
       in_body ''submit_url'' False (opt ''submit_url'' (FText AnyText))],
     ad_error = ''Error''\<rparr>"

definition request_password_change_token_via_msisdn_api :: api_decl where
  "request_password_change_token_via_msisdn_api =
     \<lparr>ad_metadata =
      [Description ''Request that a password change token is sent to the given phone number.'',
       Method ''POST'',
       Name ''request_password_change_token_via_msisdn'',
       Path ''/_matrix/client/r0/account/password/msisdn/requestToken'',
       RateLimited False,
       Authentication AuthNone],
     ad_request =
      [in_body ''client_secret'' True (plain ''client_secret'' (FText ClientSecretText)),
       in_body ''country'' True (plain ''country'' (FText AnyText)),
       in_body ''phone_number'' True (plain ''phone_number'' (FText AnyText)),
       in_body ''send_attempt'' False (plain ''send_attempt'' UInt),
       in_body ''next_link'' True (opt ''next_link'' (FText AnyText))],
     ad_response =
      [in_body ''sid'' False (plain ''sid'' (FText SessionIdText)),
       in_body ''submit_url'' False (opt ''submit_url'' (FText AnyText))],
     ad_error = ''Error''\<rparr>"

definition request_registration_token_via_email_api :: api_decl where
  "request_registration_token_via_email_api =
     \<lparr>ad_metadata =
      [Description ''Request a registration token with a 3rd party email.'',
       Method ''POST'',
       Name ''request_registration_token_via_email'',
       Path ''/_matrix/client/r0/register/email/requestToken'',
       RateLimited False,
       Authentication AuthNone],
     ad_request =
      [in_body ''client_secret'' True (plain ''client_secret'' (FText ClientSecretText)),
       in_body ''email'' True (plain ''email'' (FText AnyText)),
       in_body ''send_attempt'' False (plain ''send_attempt'' UInt),
       in_body ''next_link'' True (opt ''next_link'' (FText AnyText)),
       in_body ''identity_server_info'' True (flat_opt ''identity_server_info'' account_IdentityServerInfo)],
     ad_response =
      [in_body ''sid'' False (plain ''sid'' (FText SessionIdText)),
       in_body ''submit_url'' False (opt ''submit_url'' (FText AnyText))],
     ad_error = ''Error''\<rparr>"

definition request_registration_token_via_msisdn_api :: api_decl where
  "request_registration_token_via_msisdn_api =
     \<lparr>ad_metadata =
      [Description ''Request a registration token with a phone number.'',
       Method ''POST'',
       Name ''request_registration_token_via_msisdn'',
       Path ''/_matrix/client/r0/register/msisdn/requestToken'',
       RateLimited False,
       Authentication AuthNone],
     ad_request =
      [in_body ''client_secret'' True (plain ''client_secret'' (FText ClientSecretText)),
       in_body ''country'' True (plain ''country'' (FText AnyText)),
       in_body ''phone_number'' True (plain ''phone_number'' (FText AnyText)),
       in_body ''send_attempt'' False (plain ''send_attempt'' UInt),
       in_body ''next_link'' True (opt ''next_link'' (FText AnyText)),
       in_body ''identity_server_info'' True (flat_opt ''identity_server_info'' account_IdentityServerInfo)],
     ad_response =
      [in_body ''sid'' False (plain ''sid'' (FText SessionIdText)),
       in_body ''submit_url'' False (opt ''submit_url'' (FText AnyText))],
     ad_error = ''Error''\<rparr>"

definition unbind_3pid_api :: api_decl where
  "unbind_3pid_api =
     \<lparr>ad_metadata =
      [Description ''Unbind a 3PID from a user's account on an identity server.'',
       Method ''POST'',
       Name ''unbind_3pid'',
       Path ''/_matrix/client/r0/account/3pid/unbind'',
       RateLimited False,
       Authentication AccessToken],
     ad_request =
      [in_body ''id_server'' True (opt ''id_server'' (FText AnyText)),
       in_body ''medium'' False (plain ''medium'' (FText AnyText)),
       in_body ''address'' True (plain ''address'' (FText AnyText))],
     ad_response =
      [in_body ''id_server_unbind_result'' False (plain ''id_server_unbind_result'' (FText AnyText))],
     ad_error = ''Error''\<rparr>"

definition whoami_api :: api_decl where
  "whoami_api =
     \<lparr>ad_metadata =
      [Description ''Get information about the owner of a given access token.'',
       Method ''GET'',
       Name ''whoami'',
       Path ''/_matrix/client/r0/account/whoami'',
       RateLimited True,
       Authentication AccessToken],
     ad_request =
      [],
     ad_response =
      [in_body ''user_id'' False (plain ''user_id'' (FText UserIdText))],
     ad_error = ''Error''\<rparr>"

definition create_alias_api :: api_decl where
  "create_alias_api =
     \<lparr>ad_metadata =
      [Description ''Add an alias to a room.'',
       Method ''PUT'',
       Name ''create_alias'',
       Path ''/_matrix/client/r0/directory/room/:room_alias'',
       RateLimited False,
       Authentication AccessToken],
     ad_request =
      [in_path ''room_alias'' True (plain ''room_alias'' (FText RoomAliasText)),
       in_body ''room_id'' True (plain ''room_id'' (FText RoomIdText))],
     ad_response =
      [],
     ad_error = ''Error''\<rparr>"

definition delete_alias_api :: api_decl where
  "delete_alias_api =
     \<lparr>ad_metadata =
      [Description ''Remove an alias from a room.'',
       Method ''DELETE'',
       Name ''delete_alias'',
       Path ''/_matrix/client/r0/directory/room/:room_alias'',
       RateLimited False,
       Authentication AccessToken],
     ad_request =
      [in_path ''room_alias'' True (plain ''room_alias'' (FText RoomAliasText))],
     ad_response =
      [],
     ad_error = ''Error''\<rparr>"

definition get_alias_api :: api_decl where
  "get_alias_api =
     \<lparr>ad_metadata =
      [Description ''Resolve a room alias to a room ID.'',
       Method ''GET'',
       Name ''get_alias'',
       Path ''/_matrix/client/r0/directory/room/:room_alias'',
       RateLimited False,
       Authentication AuthNone],
     ad_request =
      [in_path ''room_alias'' True (plain ''room_alias'' (FText RoomAliasText))],
     ad_response =
      [in_body ''room_id'' False (plain ''room_id'' (FText RoomIdText)),
       in_body ''servers'' False (plain ''servers'' (FVec (FText ServerNameText)))],
     ad_error = ''Error''\<rparr>"

definition appservice_set_room_visibility_api :: api_decl where
  "appservice_set_room_visibility_api =
     \<lparr>ad_metadata =
      [Description ''Updates the visibility of a given room on the application service's room directory.'',
       Method ''PUT'',
       Name ''set_room_visibility'',
       Path ''/_matrix/client/r0/directory/list/appservice/:network_id/:room_id'',
       RateLimited False,
       Authentication AccessToken],
     ad_request =
      [in_path ''network_id'' True (plain ''network_id'' (FText AnyText)),
       in_path ''room_id'' True (plain ''room_id'' (FText RoomIdText)),
       in_body ''visibility'' False (plain ''visibility'' (FText AnyText))],
     ad_response =
      [],
     ad_error = ''Error''\<rparr>"

definition get_capabilities_api :: api_decl where
  "get_capabilities_api =
     \<lparr>ad_metadata =
      [Description ''Gets information about the server's supported feature set and other relevant capabilities.'',
       Method ''GET'',
       Name ''get_capabilities'',
       Path ''/_matrix/client/r0/capabilities'',
       RateLimited True,
       Authentication AccessToken],
     ad_request =
      [],
     ad_response =
      [in_body ''capabilities'' False (plain ''capabilities'' capabilities_Capabilities)],
     ad_error = ''Error''\<rparr>"

definition get_global_account_data_api :: api_decl where
  "get_global_account_data_api =
     \<lparr>ad_metadata =
      [Description ''Gets global account data for a user.'',
       Name ''get_global_account_data'',
       Method ''GET'',
       Path ''/_matrix/client/r0/user/:user_id/account_data/:event_type'',
       RateLimited False,
       Authentication AccessToken],
     ad_request =
      [in_path ''user_id'' True (plain ''user_id'' (FText UserIdText)),
       in_path ''event_type'' True (plain ''event_type'' (FText AnyText))],
     ad_response =
      [body ''account_data'' False (plain ''account_data'' FJson)],
     ad_error = ''Error''\<rparr>"

definition get_room_account_data_api :: api_decl where
  "get_room_account_data_api =
     \<lparr>ad_metadata =
      [Description ''Gets account data room for a user for a given room'',
       Name ''get_room_account_data'',
       Method ''GET'',
       Path ''/_matrix/client/r0/user/:user_id/rooms/:room_id/account_data/:event_type'',
       RateLimited False,
       Authentication AccessToken],
     ad_request =
      [in_path ''user_id'' True (plain ''user_id'' (FText UserIdText)),
       in_path ''room_id'' True (plain ''room_id'' (FText RoomIdText)),
       in_path ''event_type'' True (plain ''event_type'' (FText AnyText))],
     ad_response =
      [body ''account_data'' False (plain ''account_data'' FJson)],
     ad_error = ''Error''\<rparr>"

definition set_global_account_data_api :: api_decl where
  "set_global_account_data_api =
     \<lparr>ad_metadata =
      [Description ''Sets global account data.'',
       Method ''PUT'',
       Name ''set_global_account_data'',
       Path ''/_matrix/client/r0/user/:user_id/account_data/:event_type'',
       RateLimited False,
       Authentication AccessToken],
     ad_request =
      [in_path ''user_id'' True (plain ''user_id'' (FText UserIdText)),
       in_path ''event_type'' True (plain ''event_type'' (FText AnyText)),
       body ''data'' True (plain ''data'' FJson)],
     ad_response =
      [],
     ad_error = ''Error''\<rparr>"

definition set_room_account_data_api :: api_decl where
  "set_room_account_data_api =
     \<lparr>ad_metadata =
      [Description ''Associate account data with a room.'',
       Method ''PUT'',
       Name ''set_room_account_data'',
       Path ''/_matrix/client/r0/user/:user_id/rooms/:room_id/account_data/:event_type'',
       RateLimited False,
       Authentication AccessToken],
     ad_request =
      [body ''data'' True (plain ''data'' FJson),
       in_path ''event_type'' True (plain ''event_type'' (FText AnyText)),
       in_path ''room_id'' True (plain ''room_id'' (FText RoomIdText)),
       in_path ''user_id'' True (plain ''user_id'' (FText UserIdText))],
     ad_response =
      [],
     ad_error = ''Error''\<rparr>"

definition get_context_api :: api_decl where
  "get_context_api =
     \<lparr>ad_metadata =
      [Description ''Get the events immediately preceding and following a given event.'',
       Method ''GET'',
       Path ''/_matrix/client/r0/rooms/:room_id/context/:event_id'',
       Name ''get_context'',
       RateLimited False,
       Authentication AccessToken],
     ad_request =
      [in_path ''room_id'' True (plain ''room_id'' (FText RoomIdText)),
       in_path ''event_id'' True (plain ''event_id'' (FText EventIdText)),
       in_query ''limit'' False (default_skipped ''limit'' UInt (VInt 10)),
       in_query ''filter'' True (Field ''filter'' (FWith (FOpaque ''ruma_serde::json_string'')) SkipNone (Some (VNone))
         False)],
     ad_response =
      [in_body ''start'' False (opt ''start'' (FText AnyText)),
       in_body ''end'' False (opt ''end'' (FText AnyText)),
       in_body ''events_before'' False (empty_skipped ''events_before'' (FVec FJson) (VVec [])),
       in_body ''event'' False (opt ''event'' FJson),
       in_body ''events_after'' False (empty_skipped ''events_after'' (FVec FJson) (VVec [])),
       in_body ''state'' False (empty_skipped ''state'' (FVec FJson) (VVec []))],
     ad_error = ''Error''\<rparr>"

definition delete_device_api :: api_decl where
  "delete_device_api =
     \<lparr>ad_metadata =
      [Description ''Delete a device for authenticated user.'',
       Method ''DELETE'',
       Name ''delete_device'',
       Path ''/_matrix/client/r0/devices/:device_id'',
       RateLimited False,
       Authentication AccessToken],
     ad_request =
      [in_path ''device_id'' True (plain ''device_id'' (FText AnyText)),
       in_body ''auth'' True (opt ''auth'' (FOpaque ''AuthData''))],
     ad_response =
      [],
     ad_error = ''UiaaResponse''\<rparr>"

definition delete_devices_api :: api_decl where
  "delete_devices_api =
     \<lparr>ad_metadata =
      [Description ''Delete specified devices.'',
       Method ''POST'',
       Path ''/_matrix/client/r0/delete_devices'',
       Name ''delete_devices'',
       RateLimited False,
       Authentication AccessToken],
     ad_request =
      [in_body ''devices'' True (plain ''devices'' (FVec (FText AnyText))),
       in_body ''auth'' True (opt ''auth'' (FOpaque ''AuthData''))],
     ad_response =
      [],
     ad_error = ''UiaaResponse''\<rparr>"

definition get_device_api :: api_decl where
  "get_device_api =
     \<lparr>ad_metadata =
      [Description ''Get a device for authenticated user.'',
       Method ''GET'',
       Name ''get_device'',
       Path ''/_matrix/client/r0/devices/:device_id'',
       RateLimited False,
       Authentication AccessToken],
     ad_request =
      [in_path ''device_id'' True (plain ''device_id'' (FText AnyText))],
     ad_response =
      [body ''device'' False (plain ''device'' device_Device)],
     ad_error = ''Error''\<rparr>"

definition get_devices_api :: api_decl where
  "get_devices_api =
     \<lparr>ad_metadata =
      [Description ''Get registered devices for authenticated user.'',
       Method ''GET'',
       Name ''get_devices'',
       Path ''/_matrix/client/r0/devices'',
       RateLimited False,
       Authentication AccessToken],
     ad_request =
      [],
     ad_response =
      [in_body ''devices'' False (plain ''devices'' (FVec device_Device))],
     ad_error = ''Error''\<rparr>"

definition update_device_api :: api_decl where
  "update_device_api =
     \<lparr>ad_metadata =
      [Description ''Update metadata for a device.'',
       Method ''PUT'',
       Name ''update_device'',
       Path ''/_matrix/client/r0/devices/:device_id'',
       RateLimited False,
       Authentication AccessToken],
     ad_request =
      [in_path ''device_id'' True (plain ''device_id'' (FText AnyText)),
       in_body ''display_name'' False (opt ''display_name'' (FText AnyText))],
     ad_response =
      [],
     ad_error = ''Error''\<rparr>"

definition get_public_rooms_api :: api_decl where
  "get_public_rooms_api =
     \<lparr>ad_metadata =
      [Description ''Get the list of rooms in this homeserver's public directory.'',
       Method ''GET'',
       Name ''get_public_rooms'',
       Path ''/_matrix/client/r0/publicRooms'',
       RateLimited False,
       Authentication AuthNone],
     ad_request =
      [in_query ''limit'' False (opt ''limit'' UInt),
       in_query ''since'' True (opt ''since'' (FText AnyText)),
       in_query ''server'' True (opt ''server'' (FText ServerNameText))],
     ad_response =
      [in_body ''chunk'' False (plain ''chunk'' (FVec common_directory_PublicRoomsChunk)),
       in_body ''next_batch'' False (opt ''next_batch'' (FText AnyText)),
       in_body ''prev_batch'' False (opt ''prev_batch'' (FText AnyText)),
       in_body ''total_room_count_estimate'' False (opt ''total_room_count_estimate'' UInt)],
     ad_error = ''Error''\<rparr>"

definition get_room_visibility_api :: api_decl where
  "get_room_visibility_api =
     \<lparr>ad_metadata =
      [Description ''Get the visibility of a public room on a directory.'',
       Name ''get_room_visibility'',
       Method ''GET'',
       Path ''/_matrix/client/r0/directory/list/room/:room_id'',
       RateLimited False,
       Authentication AuthNone],
     ad_request =
      [in_path ''room_id'' True (plain ''room_id'' (FText RoomIdText))],
     ad_response =
      [in_body ''visibility'' False (plain ''visibility'' (FText AnyText))],
     ad_error = ''Error''\<rparr>"

definition set_room_visibility_api :: api_decl where
  "set_room_visibility_api =
     \<lparr>ad_metadata =
      [Description ''Set the visibility of a public room on a directory.'',
       Name ''set_room_visibility'',
       Method ''PUT'',
       Path ''/_matrix/client/r0/directory/list/room/:room_id'',
       RateLimited False,
       Authentication AccessToken],
     ad_request =
      [in_path ''room_id'' True (plain ''room_id'' (FText RoomIdText)),
       in_body ''visibility'' False (plain ''visibility'' (FText AnyText))],
     ad_response =
      [],
     ad_error = ''Error''\<rparr>"

definition create_filter_api :: api_decl where
  "create_filter_api =
     \<lparr>ad_metadata =
      [Description ''Create a new filter for event retrieval.'',
       Method ''POST'',
       Name ''create_filter'',
       Path ''/_matrix/client/r0/user/:user_id/filter'',
       RateLimited False,
       Authentication AccessToken],
     ad_request =
      [in_path ''user_id'' True (plain ''user_id'' (FText UserIdText)),
       body ''filter'' True (plain ''filter'' (FOpaque ''FilterDefinition''))],
     ad_response =
      [in_body ''filter_id'' False (plain ''filter_id'' (FText AnyText))],
     ad_error = ''Error''\<rparr>"

definition get_filter_api :: api_decl where
  "get_filter_api =
     \<lparr>ad_metadata =
      [Description ''Retrieve a previously created filter.'',
       Method ''GET'',
       Name ''get_filter'',
       Path ''/_matrix/client/r0/user/:user_id/filter/:filter_id'',
       RateLimited False,
       Authentication AccessToken],
     ad_request =
      [in_path ''user_id'' True (plain ''user_id'' (FText UserIdText)),
       in_path ''filter_id'' True (plain ''filter_id'' (FText AnyText))],
     ad_response =
      [body ''filter'' False (plain ''filter'' (FOpaque ''IncomingFilterDefinition''))],
     ad_error = ''Error''\<rparr>"

definition claim_keys_api :: api_decl where
  "claim_keys_api =
     \<lparr>ad_metadata =
      [Description ''Claims one-time keys for use in pre-key messages.'',
       Method ''POST'',
       Name ''claim_keys'',
       Path ''/_matrix/client/r0/keys/claim'',
       RateLimited False,
       Authentication AccessToken],
     ad_request =
      [in_body ''timeout'' False (Field ''timeout'' (FWith (FOpt (FDuration 1000000))) SkipNone (Some (VNone)) False),
       in_body ''one_time_keys'' False (plain ''one_time_keys'' (FMap UserIdText (FMap AnyText (FText AnyText))))],
     ad_response =
      [in_body ''failures'' False (plain ''failures'' (FMap AnyText FJson)),
       in_body ''one_time_keys'' False (plain ''one_time_keys'' (FMap UserIdText (FMap AnyText (FMap DeviceKeyIdText
         common_encryption_OneTimeKey))))],
     ad_error = ''Error''\<rparr>"

definition get_key_changes_api :: api_decl where
  "get_key_changes_api =
     \<lparr>ad_metadata =
      [Description ''Gets a list of users who have updated their device identity keys since a previous sync token.'',
       Method ''GET'',
       Name ''get_key_changes'',
       Path ''/_matrix/client/r0/keys/changes'',
       RateLimited False,
       Authentication AccessToken],
     ad_request =
      [in_query ''from'' True (plain ''from'' (FText AnyText)),
       in_query ''to'' True (plain ''to'' (FText AnyText))],
     ad_response =
      [in_body ''changed'' False (plain ''changed'' (FVec (FText UserIdText))),
       in_body ''left'' False (plain ''left'' (FVec (FText UserIdText)))],
     ad_error = ''Error''\<rparr>"

definition get_keys_api :: api_decl where
  "get_keys_api =
     \<lparr>ad_metadata =
      [Description ''Returns the current devices and identity keys for the given users.'',
       Method ''POST'',
       Name ''get_keys'',
       Path ''/_matrix/client/r0/keys/query'',
       RateLimited False,
       Authentication AccessToken],
     ad_request =
      [in_body ''timeout'' False (Field ''timeout'' (FWith (FOpt (FDuration 1000000))) SkipNone (Some (VNone)) False),
       in_body ''device_keys'' False (plain ''device_keys'' (FMap UserIdText (FVec (FText AnyText)))),
       in_body ''token'' True (opt ''token'' (FText AnyText))],
     ad_response =
      [in_body ''failures'' False (empty_skipped ''failures'' (FMap AnyText FJson) (VMap [])),
       in_body ''device_keys'' False (empty_skipped ''device_keys'' (FMap UserIdText (FMap AnyText
         common_encryption_DeviceKeys)) (VMap []))],
     ad_error = ''Error''\<rparr>"

definition upload_keys_api :: api_decl where
  "upload_keys_api =
     \<lparr>ad_metadata =
      [Description ''Publishes end-to-end encryption keys for the device.'',
       Method ''POST'',
       Name ''upload_keys'',
       Path ''/_matrix/client/r0/keys/upload'',
       RateLimited False,
       Authentication AccessToken],
     ad_request =
      [in_body ''device_keys'' False (opt ''device_keys'' common_encryption_DeviceKeys),
       in_body ''one_time_keys'' False (opt ''one_time_keys'' (FMap DeviceKeyIdText common_encryption_OneTimeKey))],
     ad_response =
      [in_body ''one_time_key_counts'' False (plain ''one_time_key_counts'' (FMap AnyText UInt))],
     ad_error = ''Error''\<rparr>"

definition create_content_api :: api_decl where
  "create_content_api =
     \<lparr>ad_metadata =
      [Description ''Upload content to the media store.'',
       Method ''POST'',
       Name ''create_media_content'',
       Path ''/_matrix/media/r0/upload'',
       RateLimited True,
       Authentication AccessToken],
     ad_request =
      [raw_bytes ''file'' True (plain ''file'' (FText AnyText)),
       in_query ''filename'' True (opt ''filename'' (FText AnyText)),
       in_header ''CONTENT_TYPE'' ''content_type'' True (plain ''content_type'' (FOpt (FText AnyText)))],
     ad_response =
      [in_body ''content_uri'' False (plain ''content_uri'' (FText AnyText))],
     ad_error = ''Error''\<rparr>"

definition get_content_api :: api_decl where
  "get_content_api =
     \<lparr>ad_metadata =
      [Description ''Retrieve content from the media store.'',
       Method ''GET'',
       Name ''get_media_content'',
       Path ''/_matrix/media/r0/download/:server_name/:media_id'',
       RateLimited False,
       Authentication AuthNone],
     ad_request =
      [in_path ''media_id'' True (plain ''media_id'' (FText AnyText)),
       in_path ''server_name'' True (plain ''server_name'' (FText ServerNameText)),
       in_query ''allow_remote'' False (default_skipped ''allow_remote'' FBool (VBool True))],
     ad_response =
      [raw_bytes ''file'' False (plain ''file'' (FText AnyText)),
       in_header ''CONTENT_TYPE'' ''content_type'' False (plain ''content_type'' (FOpt (FText AnyText))),
       in_header ''CONTENT_DISPOSITION'' ''content_disposition'' False (plain ''content_disposition'' (FOpt (FText
         AnyText)))],
     ad_error = ''Error''\<rparr>"

definition get_content_as_filename_api :: api_decl where
  "get_content_as_filename_api =
     \<lparr>ad_metadata =
      [Description ''Retrieve content from the media store, specifying a filename to return.'',
       Method ''GET'',
       Name ''get_media_content_as_filename'',
       Path ''/_matrix/media/r0/download/:server_name/:media_id/:filename'',
       RateLimited False,
       Authentication AuthNone],
     ad_request =
      [in_path ''media_id'' True (plain ''media_id'' (FText AnyText)),
       in_path ''server_name'' True (plain ''server_name'' (FText ServerNameText)),
       in_path ''filename'' True (plain ''filename'' (FText AnyText)),
       in_query ''allow_remote'' False (default_skipped ''allow_remote'' FBool (VBool True))],
     ad_response =
      [raw_bytes ''file'' False (plain ''file'' (FText AnyText)),
       in_header ''CONTENT_TYPE'' ''content_type'' False (plain ''content_type'' (FOpt (FText AnyText))),
       in_header ''CONTENT_DISPOSITION'' ''content_disposition'' False (plain ''content_disposition'' (FOpt (FText
         AnyText)))],
     ad_error = ''Error''\<rparr>"

definition get_content_thumbnail_api :: api_decl where
  "get_content_thumbnail_api =
     \<lparr>ad_metadata =
      [Description ''Get a thumbnail of content from the media store.'',
       Method ''GET'',
       Name ''get_content_thumbnail'',
       Path ''/_matrix/media/r0/thumbnail/:server_name/:media_id'',
       RateLimited True,
       Authentication AuthNone],
     ad_request =
      [in_path ''media_id'' True (plain ''media_id'' (FText AnyText)),
       in_path ''server_name'' True (plain ''server_name'' (FText ServerNameText)),
       in_query ''method'' False (opt ''method'' (FText AnyText)),
       in_query ''width'' False (plain ''width'' UInt),
       in_query ''height'' False (plain ''height'' UInt),
       in_query ''allow_remote'' False (default_skipped ''allow_remote'' FBool (VBool True))],
     ad_response =
      [raw_bytes ''file'' False (plain ''file'' (FText AnyText)),
       in_header ''CONTENT_TYPE'' ''content_type'' False (plain ''content_type'' (FOpt (FText AnyText)))],
     ad_error = ''Error''\<rparr>"

definition get_media_config_api :: api_decl where
  "get_media_config_api =
     \<lparr>ad_metadata =
      [Description ''Gets the config for the media repository.'',
       Method ''GET'',
       Path ''/_matrix/media/r0/config'',
       Name ''get_media_config'',
       RateLimited True,
       Authentication AccessToken],
     ad_request =
      [],
     ad_response =
      [in_body ''upload_size'' False (plain ''m.upload.size'' UInt)],
     ad_error = ''Error''\<rparr>"

definition get_media_preview_api :: api_decl where
  "get_media_preview_api =
     \<lparr>ad_metadata =
      [Description ''Get a preview for a URL.'',
       Name ''get_media_preview'',
       Method ''GET'',
       Path ''/_matrix/media/r0/preview_url'',
       RateLimited True,
       Authentication AccessToken],
     ad_request =
      [in_query ''url'' True (plain ''url'' (FText AnyText)),
       in_query ''ts'' False (plain ''ts'' UInt)],
     ad_response =
      [body ''data'' False (plain ''data'' (FOpt FJson))],
     ad_error = ''Error''\<rparr>"

definition ban_user_api :: api_decl where
  "ban_user_api =
     \<lparr>ad_metadata =
      [Description ''Ban a user from a room.'',
       Method ''POST'',
       Name ''ban_user'',
       Path ''/_matrix/client/r0/rooms/:room_id/ban'',
       RateLimited False,
       Authentication AccessToken],
     ad_request =
      [in_path ''room_id'' True (plain ''room_id'' (FText RoomIdText)),
       in_body ''user_id'' True (plain ''user_id'' (FText UserIdText)),
       in_body ''reason'' True (opt ''reason'' (FText AnyText))],
     ad_response =
      [],
     ad_error = ''Error''\<rparr>"

definition forget_room_api :: api_decl where
  "forget_room_api =
     \<lparr>ad_metadata =
      [Description ''Forget a room.'',
       Method ''POST'',
       Name ''forget_room'',
       Path ''/_matrix/client/r0/rooms/:room_id/forget'',
       RateLimited True,
       Authentication AccessToken],
     ad_request =
      [in_path ''room_id'' True (plain ''room_id'' (FText RoomIdText))],
     ad_response =
      [],
     ad_error = ''Error''\<rparr>"

definition get_member_events_api :: api_decl where
  "get_member_events_api =
     \<lparr>ad_metadata =
      [Description ''Get membership events for a room.'',
       Method ''GET'',
       Name ''get_member_events'',
       Path ''/_matrix/client/r0/rooms/:room_id/members'',
       RateLimited False,
       Authentication AccessToken],
     ad_request =
      [in_path ''room_id'' True (plain ''room_id'' (FText RoomIdText)),
       in_query ''at'' True (opt ''at'' (FText AnyText)),
       in_query ''membership'' False (opt ''membership'' (FText AnyText)),
       in_query ''not_membership'' False (opt ''not_membership'' (FText AnyText))],
     ad_response =
      [in_body ''chunk'' False (plain ''chunk'' (FVec FJson))],
     ad_error = ''Error''\<rparr>"

definition invite_user_api :: api_decl where
  "invite_user_api =
     \<lparr>ad_metadata =
      [Description ''Invite a user to a room.'',
       Method ''POST'',
       Name ''invite_user'',
       Path ''/_matrix/client/r0/rooms/:room_id/invite'',
       RateLimited True,
       Authentication AccessToken],
     ad_request =
      [in_path ''room_id'' True (plain ''room_id'' (FText RoomIdText)),
       in_body ''recipient'' True (flat ''recipient'' invite_user_InvitationRecipient)],
     ad_response =
      [],
     ad_error = ''Error''\<rparr>"

definition join_room_by_id_api :: api_decl where
  "join_room_by_id_api =
     \<lparr>ad_metadata =
      [Description ''Join a room using its ID.'',
       Method ''POST'',
       Name ''join_room_by_id'',
       Path ''/_matrix/client/r0/rooms/:room_id/join'',
       RateLimited True,
       Authentication AccessToken],
     ad_request =
      [in_path ''room_id'' True (plain ''room_id'' (FText RoomIdText)),
       in_body ''third_party_signed'' True (opt ''third_party_signed'' membership_ThirdPartySigned)],
     ad_response =
      [in_body ''room_id'' False (plain ''room_id'' (FText RoomIdText))],
     ad_error = ''Error''\<rparr>"

definition join_room_by_id_or_alias_api :: api_decl where
  "join_room_by_id_or_alias_api =
     \<lparr>ad_metadata =
      [Description ''Join a room using its ID or one of its aliases.'',
       Method ''POST'',
       Name ''join_room_by_id_or_alias'',
       Path ''/_matrix/client/r0/join/:room_id_or_alias'',
       RateLimited True,
       Authentication AccessToken],
     ad_request =
      [in_path ''room_id_or_alias'' True (plain ''room_id_or_alias'' (FText RoomOrAliasText)),
       in_query ''server_name'' True (empty_skipped ''server_name'' (FVec (FText ServerNameText)) (VVec [])),
       in_body ''third_party_signed'' True (opt ''third_party_signed'' membership_ThirdPartySigned)],
     ad_response =
      [in_body ''room_id'' False (plain ''room_id'' (FText RoomIdText))],
     ad_error = ''Error''\<rparr>"

definition joined_members_api :: api_decl where
  "joined_members_api =
     \<lparr>ad_metadata =
      [Description
        ''Get a map of user ids to member info objects for members of the room. Primarily for use in Application Services.'',
       Method ''GET'',
       Name ''joined_members'',
       Path ''/_matrix/client/r0/rooms/:room_id/joined_members'',
       RateLimited False,
       Authentication AccessToken],
     ad_request =
      [in_path ''room_id'' True (plain ''room_id'' (FText RoomIdText))],
     ad_response =
      [in_body ''joined'' False (plain ''joined'' (FMap UserIdText joined_members_RoomMember))],
     ad_error = ''Error''\<rparr>"

definition joined_rooms_api :: api_decl where
  "joined_rooms_api =
     \<lparr>ad_metadata =
      [Description ''Get a list of the user's current rooms.'',
       Method ''GET'',
       Name ''joined_rooms'',
       Path ''/_matrix/client/r0/joined_rooms'',
       RateLimited False,
       Authentication AccessToken],
     ad_request =
      [],
     ad_response =
      [in_body ''joined_rooms'' False (plain ''joined_rooms'' (FVec (FText RoomIdText)))],
     ad_error = ''Error''\<rparr>"

definition kick_user_api :: api_decl where
  "kick_user_api =
     \<lparr>ad_metadata =
      [Description ''Kick a user from a room.'',
       Method ''POST'',
       Name ''kick_user'',
       Path ''/_matrix/client/r0/rooms/:room_id/kick'',
       RateLimited False,
       Authentication AccessToken],
     ad_request =
      [in_path ''room_id'' True (plain ''room_id'' (FText RoomIdText)),
       in_body ''user_id'' True (plain ''user_id'' (FText UserIdText)),
       in_body ''reason'' True (opt ''reason'' (FText AnyText))],
     ad_response =
      [],
     ad_error = ''Error''\<rparr>"

definition leave_room_api :: api_decl where
  "leave_room_api =
     \<lparr>ad_metadata =
      [Description ''Leave a room.'',
       Method ''POST'',
       Name ''leave_room'',
       Path ''/_matrix/client/r0/rooms/:room_id/leave'',
       RateLimited True,
       Authentication AccessToken],
     ad_request =
      [in_path ''room_id'' True (plain ''room_id'' (FText RoomIdText))],
     ad_response =
      [],
     ad_error = ''Error''\<rparr>"

definition unban_user_api :: api_decl where
  "unban_user_api =
     \<lparr>ad_metadata =
      [Description ''Unban a user from a room.'',
       Method ''POST'',
       Name ''unban_user'',
       Path ''/_matrix/client/r0/rooms/:room_id/unban'',
       RateLimited False,
       Authentication AccessToken],
     ad_request =
      [in_path ''room_id'' True (plain ''room_id'' (FText RoomIdText)),
       in_body ''user_id'' True (plain ''user_id'' (FText UserIdText))],
     ad_response =
      [],
     ad_error = ''Error''\<rparr>"

definition get_message_events_api :: api_decl where
  "get_message_events_api =
     \<lparr>ad_metadata =
      [Description ''Get message events for a room.'',
       Method ''GET'',
       Name ''get_message_events'',
       Path ''/_matrix/client/r0/rooms/:room_id/messages'',
       RateLimited False,
       Authentication AccessToken],
     ad_request =
      [in_path ''room_id'' True (plain ''room_id'' (FText RoomIdText)),
       in_query ''from'' True (plain ''from'' (FText AnyText)),
       in_query ''to'' True (opt ''to'' (FText AnyText)),
       in_query ''dir'' False (plain ''dir'' get_message_events_Direction),
       in_query ''limit'' False (default_skipped ''limit'' UInt (VInt 10)),
       in_query ''filter'' True (Field ''filter'' (FWith (FOpaque ''ruma_serde::json_string'')) SkipNone (Some (VNone))
         False)],
     ad_response =
      [in_body ''start'' False (opt ''start'' (FText AnyText)),
       in_body ''end'' False (opt ''end'' (FText AnyText)),
       in_body ''chunk'' False (empty_skipped ''chunk'' (FVec FJson) (VVec [])),
       in_body ''state'' False (empty_skipped ''state'' (FVec FJson) (VVec []))],
     ad_error = ''Error''\<rparr>"

definition send_message_event_api :: api_decl where
  "send_message_event_api =
     \<lparr>ad_metadata =
      [Description ''Send a message event to a room.'',
       Method ''PUT'',
       Name ''create_message_event'',
       Path ''/_matrix/client/r0/rooms/:room_id/send/:event_type/:txn_id'',
       RateLimited False,
       Authentication AccessToken],
     ad_request =
      [in_path ''room_id'' True (plain ''room_id'' (FText RoomIdText)),
       in_path ''event_type'' True (plain ''event_type'' (FText AnyText)),
       in_path ''txn_id'' True (plain ''txn_id'' (FText AnyText)),
       body ''body'' False (plain ''body'' FJson)],
     ad_response =
      [in_body ''event_id'' False (plain ''event_id'' (FText EventIdText))],
     ad_error = ''Error''\<rparr>"

definition get_presence_api :: api_decl where
  "get_presence_api =
     \<lparr>ad_metadata =
      [Description ''Get presence status for this user.'',
       Method ''GET'',
       Name ''get_presence'',
       Path ''/_matrix/client/r0/presence/:user_id/status'',
       RateLimited False,
       Authentication AccessToken],
     ad_request =
      [in_path ''user_id'' True (plain ''user_id'' (FText UserIdText))],
     ad_response =
      [in_body ''status_msg'' False (opt ''status_msg'' (FText AnyText)),
       in_body ''currently_active'' False (opt ''currently_active'' FBool),
       in_body ''last_active_ago'' False (Field ''last_active_ago'' (FWith (FOpt (FDuration 1000000))) SkipNone (Some
         (VNone)) False),
       in_body ''presence'' False (plain ''presence'' (FText AnyText))],
     ad_error = ''Error''\<rparr>"

definition set_presence_api :: api_decl where
  "set_presence_api =
     \<lparr>ad_metadata =
      [Description ''Set presence status for this user.'',
       Method ''PUT'',
       Name ''set_presence'',
       Path ''/_matrix/client/r0/presence/:user_id/status'',
       RateLimited True,
       Authentication AccessToken],
     ad_request =
      [in_path ''user_id'' True (plain ''user_id'' (FText UserIdText)),
       in_body ''presence'' False (plain ''presence'' (FText AnyText)),
       in_body ''status_msg'' True (opt ''status_msg'' (FText AnyText))],
     ad_response =
      [],
     ad_error = ''Error''\<rparr>"

definition get_avatar_url_api :: api_decl where
  "get_avatar_url_api =
     \<lparr>ad_metadata =
      [Description ''Get the avatar URL of a user.'',
       Method ''GET'',
       Name ''get_avatar_url'',
       Path ''/_matrix/client/r0/profile/:user_id/avatar_url'',
       RateLimited False,
       Authentication AuthNone],
     ad_request =
      [in_path ''user_id'' True (plain ''user_id'' (FText UserIdText))],
     ad_response =
      [in_body ''avatar_url'' False (opt ''avatar_url'' (FText AnyText))],
     ad_error = ''Error''\<rparr>"

definition get_display_name_api :: api_decl where
  "get_display_name_api =
     \<lparr>ad_metadata =
      [Description ''Get the display name of a user.'',
       Method ''GET'',
       Name ''get_display_name'',
       Path ''/_matrix/client/r0/profile/:user_id/displayname'',
       RateLimited False,
       Authentication AuthNone],
     ad_request =
      [in_path ''user_id'' True (plain ''user_id'' (FText UserIdText))],
     ad_response =
      [in_body ''displayname'' False (opt ''displayname'' (FText AnyText))],
     ad_error = ''Error''\<rparr>"

definition get_profile_api :: api_decl where
  "get_profile_api =
     \<lparr>ad_metadata =
      [Description ''Get all profile information of an user.'',
       Method ''GET'',
       Name ''get_profile'',
       Path ''/_matrix/client/r0/profile/:user_id'',
       RateLimited False,
       Authentication AuthNone],
     ad_request =
      [in_path ''user_id'' True (plain ''user_id'' (FText UserIdText))],
     ad_response =
      [in_body ''avatar_url'' False (opt ''avatar_url'' (FText AnyText)),
       in_body ''displayname'' False (opt ''displayname'' (FText AnyText))],
     ad_error = ''Error''\<rparr>"

definition set_avatar_url_api :: api_decl where
  "set_avatar_url_api =
     \<lparr>ad_metadata =
      [Description ''Set the avatar URL of the user.'',
       Method ''PUT'',
       Name ''set_avatar_url'',
       Path ''/_matrix/client/r0/profile/:user_id/avatar_url'',
       RateLimited True,
       Authentication AccessToken],
     ad_request =
      [in_path ''user_id'' True (plain ''user_id'' (FText UserIdText)),
       in_body ''avatar_url'' True (opt ''avatar_url'' (FText AnyText))],
     ad_response =
      [],
     ad_error = ''Error''\<rparr>"

definition set_display_name_api :: api_decl where
  "set_display_name_api =
     \<lparr>ad_metadata =
      [Description ''Set the display name of the user.'',
       Method ''PUT'',
       Name ''set_display_name'',
       Path ''/_matrix/client/r0/profile/:user_id/displayname'',
       RateLimited True,
       Authentication AccessToken],
     ad_request =
      [in_path ''user_id'' True (plain ''user_id'' (FText UserIdText)),
       in_body ''displayname'' True (opt ''displayname'' (FText AnyText))],
     ad_response =
      [],
     ad_error = ''Error''\<rparr>"

definition delete_pushrule_api :: api_decl where
  "delete_pushrule_api =
     \<lparr>ad_metadata =
      [Description ''This endpoint removes the push rule defined in the path.'',
       Method ''DELETE'',
       Name ''delete_pushrule'',
       Path ''/_matrix/client/r0/pushrules/:scope/:kind/:rule_id'',
       RateLimited False,
       Authentication AccessToken],
     ad_request =
      [in_path ''scope'' True (plain ''scope'' (FText AnyText)),
       in_path ''kind'' False (plain ''kind'' (FText AnyText)),
       in_path ''rule_id'' True (plain ''rule_id'' (FText AnyText))],
     ad_response =
      [],
     ad_error = ''Error''\<rparr>"

definition get_notifications_api :: api_decl where
  "get_notifications_api =
     \<lparr>ad_metadata =
      [Description ''Paginate through the list of events that the user has been, or would have been notified about.'',
       Method ''GET'',
       Name ''get_notifications'',
       Path ''/_matrix/client/r0/notifications'',
       RateLimited False,
       Authentication AccessToken],
     ad_request =
      [in_query ''from'' True (opt ''from'' (FText AnyText)),
       in_query ''limit'' False (opt ''limit'' UInt),
       in_query ''only'' True (opt ''only'' (FText AnyText))],
     ad_response =
      [in_body ''next_token'' False (opt ''next_token'' (FText AnyText)),
       in_body ''notifications'' False (plain ''notifications'' (FVec get_notifications_Notification))],
     ad_error = ''Error''\<rparr>"

definition get_pushers_api :: api_decl where
  "get_pushers_api =
     \<lparr>ad_metadata =
      [Description ''Gets all currently active pushers for the authenticated user.'',
       Method ''GET'',
       Name ''get_pushers'',
       Path ''/_matrix/client/r0/pushers'',
       RateLimited False,
       Authentication AccessToken],
     ad_request =
      [],
     ad_response =
      [in_body ''pushers'' False (plain ''pushers'' (FVec get_pushers_Pusher))],
     ad_error = ''Error''\<rparr>"

definition get_pushrule_api :: api_decl where
  "get_pushrule_api =
     \<lparr>ad_metadata =
      [Description ''Retrieve a single specified push rule.'',
       Method ''GET'',
       Name ''get_pushrule'',
       Path ''/_matrix/client/r0/pushrules/:scope/:kind/:rule_id'',
       RateLimited False,
       Authentication AccessToken],
     ad_request =
      [in_path ''scope'' True (plain ''scope'' (FText AnyText)),
       in_path ''kind'' False (plain ''kind'' (FText AnyText)),
       in_path ''rule_id'' True (plain ''rule_id'' (FText AnyText))],
     ad_response =
      [body ''rule'' False (plain ''rule'' push_PushRule)],
     ad_error = ''Error''\<rparr>"

definition get_pushrule_actions_api :: api_decl where
  "get_pushrule_actions_api =
     \<lparr>ad_metadata =
      [Description ''This endpoint get the actions for the specified push rule.'',
       Method ''GET'',
       Name ''get_pushrule_actions'',
       Path ''/_matrix/client/r0/pushrules/:scope/:kind/:rule_id/actions'',
       RateLimited False,
       Authentication AccessToken],
     ad_request =
      [in_path ''scope'' True (plain ''scope'' (FText AnyText)),
       in_path ''kind'' False (plain ''kind'' (FText AnyText)),
       in_path ''rule_id'' True (plain ''rule_id'' (FText AnyText))],
     ad_response =
      [in_body ''actions'' False (plain ''actions'' (FVec (FOpaque ''Action'')))],
     ad_error = ''Error''\<rparr>"

definition get_pushrule_enabled_api :: api_decl where
  "get_pushrule_enabled_api =
     \<lparr>ad_metadata =
      [Description ''This endpoint gets whether the specified push rule is enabled.'',
       Method ''GET'',
       Name ''get_pushrule_enabled'',
       Path ''/_matrix/client/r0/pushrules/:scope/:kind/:rule_id/enabled'',
       RateLimited False,
       Authentication AccessToken],
     ad_request =
      [in_path ''scope'' True (plain ''scope'' (FText AnyText)),
       in_path ''kind'' False (plain ''kind'' (FText AnyText)),
       in_path ''rule_id'' True (plain ''rule_id'' (FText AnyText))],
     ad_response =
      [in_body ''enabled'' False (plain ''enabled'' FBool)],
     ad_error = ''Error''\<rparr>"

definition get_pushrules_all_api :: api_decl where
  "get_pushrules_all_api =
     \<lparr>ad_metadata =
      [Description ''Retrieve all push rulesets for this user.'',
       Method ''GET'',
       Name ''get_pushrules_all'',
       Path ''/_matrix/client/r0/pushrules/'',
       RateLimited False,
       Authentication AccessToken],
     ad_request =
      [],
     ad_response =
      [in_body ''global'' False (plain ''global'' common_push_Ruleset)],
     ad_error = ''Error''\<rparr>"

definition get_pushrules_global_scope_api :: api_decl where
  "get_pushrules_global_scope_api =
     \<lparr>ad_metadata =
      [Description ''Retrieve all push rulesets in the global scope for this user.'',
       Method ''GET'',
       Name ''get_pushrules_global_scope'',
       Path ''/_matrix/client/r0/pushrules/global/'',
       RateLimited False,
       Authentication AccessToken],
     ad_request =
      [],
     ad_response =
      [body ''global'' False (plain ''global'' common_push_Ruleset)],
     ad_error = ''Error''\<rparr>"

definition set_pusher_api :: api_decl where
  "set_pusher_api =
     \<lparr>ad_metadata =
      [Description ''This endpoint allows the creation, modification and deletion of pushers for this user ID.'',
       Method ''POST'',
       Name ''set_pusher'',
       Path ''/_matrix/client/r0/pushers/set'',
       RateLimited True,
       Authentication AccessToken],
     ad_request =
      [in_body ''pusher'' False (flat ''pusher'' set_pusher_Pusher),
       in_body ''append'' False (default_skipped ''append'' FBool (VBool False))],
     ad_response =
      [],
     ad_error = ''Error''\<rparr>"

definition set_pushrule_api :: api_decl where
  "set_pushrule_api =
     \<lparr>ad_metadata =
      [Description ''This endpoint allows the creation, modification and deletion of pushers for this user ID.'',
       Method ''PUT'',
       Name ''set_pushrule'',
       Path ''/_matrix/client/r0/pushrules/:scope/:kind/:rule_id'',
       RateLimited True,
       Authentication AccessToken],
     ad_request =
      [in_path ''scope'' True (plain ''scope'' (FText AnyText)),
       in_path ''kind'' False (plain ''kind'' (FText AnyText)),
       in_path ''rule_id'' True (plain ''rule_id'' (FText AnyText)),
       in_query ''before'' True (plain ''before'' (FOpt (FText AnyText))),
       in_query ''after'' True (plain ''after'' (FOpt (FText AnyText))),
       in_body ''actions'' True (plain ''actions'' (FVec (FOpaque ''Action''))),
       in_body ''conditions'' True (empty_skipped ''conditions'' (FVec common_condition_PushCondition) (VVec [])),
       in_body ''pattern'' True (opt ''pattern'' (FText AnyText))],
     ad_response =
      [],
     ad_error = ''Error''\<rparr>"

definition set_pushrule_actions_api :: api_decl where
  "set_pushrule_actions_api =
     \<lparr>ad_metadata =
      [Description
        ''This endpoint allows clients to change the actions of a push rule. This can be used to change the actions of builtin rules.'',
       Method ''PUT'',
       Name ''set_pushrule_actions'',
       Path ''/_matrix/client/r0/pushrules/:scope/:kind/:rule_id/actions'',
       RateLimited False,
       Authentication AccessToken],
     ad_request =
      [in_path ''scope'' True (plain ''scope'' (FText AnyText)),
       in_path ''kind'' False (plain ''kind'' (FText AnyText)),
       in_path ''rule_id'' True (plain ''rule_id'' (FText AnyText)),
       in_body ''actions'' False (plain ''actions'' (FVec (FOpaque ''Action'')))],
     ad_response =
      [],
     ad_error = ''Error''\<rparr>"

definition set_pushrule_enabled_api :: api_decl where
  "set_pushrule_enabled_api =
     \<lparr>ad_metadata =
      [Description ''This endpoint allows clients to enable or disable the specified push rule.'',
       Method ''PUT'',
       Name ''set_pushrule_enabled'',
       Path ''/_matrix/client/r0/pushrules/:scope/:kind/:rule_id/enabled'',
       RateLimited False,
       Authentication AccessToken],
     ad_request =
      [in_path ''scope'' True (plain ''scope'' (FText AnyText)),
       in_path ''kind'' False (plain ''kind'' (FText AnyText)),
       in_path ''rule_id'' True (plain ''rule_id'' (FText AnyText)),
       in_body ''enabled'' False (plain ''enabled'' FBool)],
     ad_response =
      [],
     ad_error = ''Error''\<rparr>"

definition set_read_marker_api :: api_decl where
  "set_read_marker_api =
     \<lparr>ad_metadata =
      [Description ''Sets the position of the read marker for a given room, and optionally the read receipt's location.'',
       Method ''POST'',
       Name ''set_read_marker'',
       Path ''/_matrix/client/r0/rooms/:room_id/read_markers'',
       RateLimited True,
       Authentication AccessToken],
     ad_request =
      [in_path ''room_id'' True (plain ''room_id'' (FText RoomIdText)),
       in_body ''fully_read'' True (plain ''m.fully_read'' (FText EventIdText)),
       in_body ''read_receipt'' True (opt ''m.read'' (FText EventIdText))],
     ad_response =
      [],
     ad_error = ''Error''\<rparr>"

definition create_receipt_api :: api_decl where
  "create_receipt_api =
     \<lparr>ad_metadata =
      [Description ''Send a receipt event to a room.'',
       Method ''POST'',
       Name ''create_receipt'',
       Path ''/_matrix/client/r0/rooms/:room_id/receipt/:receipt_type/:event_id'',
       RateLimited True,
       Authentication AccessToken],
     ad_request =
      [in_path ''room_id'' True (plain ''room_id'' (FText RoomIdText)),
       in_path ''receipt_type'' False (plain ''receipt_type'' (FText AnyText)),
       in_path ''event_id'' True (plain ''event_id'' (FText EventIdText))],
     ad_response =
      [],
     ad_error = ''Error''\<rparr>"

definition redact_event_api :: api_decl where
  "redact_event_api =
     \<lparr>ad_metadata =
      [Description ''Redact an event, stripping all information not critical to the event graph integrity.'',
       Method ''PUT'',
       Name ''redact_event'',
       Path ''/_matrix/client/r0/rooms/:room_id/redact/:event_id/:txn_id'',
       RateLimited False,
       Authentication AccessToken],
     ad_request =
      [in_path ''room_id'' True (plain ''room_id'' (FText RoomIdText)),
       in_path ''event_id'' True (plain ''event_id'' (FText EventIdText)),
       in_path ''txn_id'' True (plain ''txn_id'' (FText AnyText)),
       in_body ''reason'' True (opt ''reason'' (FText AnyText))],
     ad_response =
      [in_body ''event_id'' False (plain ''event_id'' (FText EventIdText))],
     ad_error = ''Error''\<rparr>"

definition aliases_api :: api_decl where
  "aliases_api =
     \<lparr>ad_metadata =
      [Description ''Get a list of aliases maintained by the local server for the given room.'',
       Method ''GET'',
       Name ''aliases'',
       Path ''/_matrix/client/r0/rooms/:room_id/aliases'',
       RateLimited True,
       Authentication AccessToken],
     ad_request =
      [in_path ''room_id'' True (plain ''room_id'' (FText RoomIdText))],
     ad_response =
      [in_body ''aliases'' False (plain ''aliases'' (FVec (FText RoomAliasText)))],
     ad_error = ''Error''\<rparr>"

definition create_room_api :: api_decl where
  "create_room_api =
     \<lparr>ad_metadata =
      [Description ''Create a new room.'',
       Method ''POST'',
       Name ''create_room'',
       Path ''/_matrix/client/r0/createRoom'',
       RateLimited False,
       Authentication AccessToken],
     ad_request =
      [in_body ''creation_content'' False (Field ''creation_content'' (FOpt FJson) SkipNone (Some (VNone)) False),
       in_body ''initial_state'' True (empty_skipped ''initial_state'' (FVec FJson) (VVec [])),
       in_body ''invite'' True (empty_skipped ''invite'' (FVec (FText UserIdText)) (VVec [])),
       in_body ''invite_3pid'' True (empty_skipped ''invite_3pid'' (FVec membership_Invite3pid) (VVec [])),
       in_body ''is_direct'' False (default_skipped ''is_direct'' FBool (VBool False)),
       in_body ''name'' True (opt ''name'' (FText RoomNameText)),
       in_body ''power_level_content_override'' False (opt ''power_level_content_override'' FJson),
       in_body ''preset'' False (opt ''preset'' (FText AnyText)),
       in_body ''room_alias_name'' True (opt ''room_alias_name'' (FText AnyText)),
       in_body ''room_version'' True (opt ''room_version'' (FText RoomVersionText)),
       in_body ''topic'' True (opt ''topic'' (FText AnyText)),
       in_body ''visibility'' False (default_skipped ''visibility'' (FText AnyText) (VText ''private''))],
     ad_response =
      [in_body ''room_id'' False (plain ''room_id'' (FText RoomIdText))],
     ad_error = ''Error''\<rparr>"

definition get_room_event_api :: api_decl where
  "get_room_event_api =
     \<lparr>ad_metadata =
      [Description ''Get a single event based on roomId/eventId'',
       Method ''GET'',
       Name ''get_room_event'',
       Path ''/_matrix/client/r0/rooms/:room_id/event/:event_id'',
       RateLimited False,
       Authentication AccessToken],
     ad_request =
      [in_path ''room_id'' True (plain ''room_id'' (FText RoomIdText)),
       in_path ''event_id'' True (plain ''event_id'' (FText EventIdText))],
     ad_response =
      [body ''event'' False (plain ''event'' FJson)],
     ad_error = ''Error''\<rparr>"

definition report_content_api :: api_decl where
  "report_content_api =
     \<lparr>ad_metadata =
      [Description ''Report content as inappropriate.'',
       Method ''POST'',
       Name ''report_content'',
       Path ''/_matrix/client/r0/rooms/:room_id/report/:event_id'',
       RateLimited False,
       Authentication AccessToken],
     ad_request =
      [in_path ''room_id'' True (plain ''room_id'' (FText RoomIdText)),
       in_path ''event_id'' True (plain ''event_id'' (FText EventIdText)),
       in_body ''score'' False (plain ''score'' JsInt),
       in_body ''reason'' True (plain ''reason'' (FText AnyText))],
     ad_response =
      [],
     ad_error = ''Error''\<rparr>"

definition upgrade_room_api :: api_decl where
  "upgrade_room_api =
     \<lparr>ad_metadata =
      [Description ''Upgrades a room to a particular version.'',
       Method ''POST'',
       Name ''upgrade_room'',
       Path ''/_matrix/client/r0/rooms/:room_id/upgrade'',
       RateLimited False,
       Authentication AccessToken],
     ad_request =
      [in_path ''room_id'' True (plain ''room_id'' (FText RoomIdText)),
       in_body ''new_version'' True (plain ''new_version'' (FText RoomVersionText))],
     ad_response =
      [in_body ''replacement_room'' False (plain ''replacement_room'' (FText RoomIdText))],
     ad_error = ''Error''\<rparr>"

definition search_events_api :: api_decl where
  "search_events_api =
     \<lparr>ad_metadata =
      [Description ''Search events.'',
       Method ''POST'',
       Name ''search'',
       Path ''/_matrix/client/r0/search'',
       RateLimited True,
       Authentication AccessToken],
     ad_request =
      [in_query ''next_batch'' True (plain ''next_batch'' (FOpt (FText AnyText))),
       in_body ''search_categories'' True (plain ''search_categories'' search_events_Categories)],
     ad_response =
      [in_body ''search_categories'' False (plain ''search_categories'' search_events_ResultCategories)],
     ad_error = ''Error''\<rparr>"

definition get_user_info_api :: api_decl where
  "get_user_info_api =
     \<lparr>ad_metadata =
      [Description ''Get information about a particular user.'',
       Method ''GET'',
       Name ''get_user_info'',
       Path ''/_matrix/client/r0/admin/whois/:user_id'',
       RateLimited False,
       Authentication AccessToken],
     ad_request =
      [in_path ''user_id'' True (plain ''user_id'' (FText UserIdText))],
     ad_response =
      [in_body ''user_id'' False (opt ''user_id'' (FText UserIdText)),
       in_body ''devices'' False (empty_skipped ''devices'' (FMap AnyText get_user_info_DeviceInfo) (VMap []))],
     ad_error = ''Error''\<rparr>"

definition get_login_types_api :: api_decl where
  "get_login_types_api =
     \<lparr>ad_metadata =
      [Description
        ''Gets the homeserver's supported login types to authenticate users. Clients should pick one of these and supply it as the type when logging in.'',
       Method ''GET'',
       Name ''get_login_types'',
       Path ''/_matrix/client/r0/login'',
       RateLimited True,
       Authentication AuthNone],
     ad_request =
      [],
     ad_response =
      [in_body ''flows'' False (plain ''flows'' (FVec (FOpaque ''LoginType'')))],
     ad_error = ''Error''\<rparr>"

definition login_api :: api_decl where
  "login_api =
     \<lparr>ad_metadata =
      [Description ''Login to the homeserver.'',
       Method ''POST'',
       Name ''login'',
       Path ''/_matrix/client/r0/login'',
       RateLimited True,
       Authentication AuthNone],
     ad_request =
      [in_body ''login_info'' True (flat ''login_info'' (FOpaque ''LoginInfo'')),
       in_body ''device_id'' True (opt ''device_id'' (FText AnyText)),
       in_body ''initial_device_display_name'' True (opt ''initial_device_display_name'' (FText AnyText))],
     ad_response =
      [in_body ''user_id'' False (plain ''user_id'' (FText UserIdText)),
       in_body ''access_token'' False (plain ''access_token'' (FText AnyText)),
       in_body ''home_server'' False (opt ''home_server'' (FText ServerNameText)),
       in_body ''device_id'' False (plain ''device_id'' (FText AnyText)),
       in_body ''well_known'' False (opt ''well_known'' login_DiscoveryInfo)],
     ad_error = ''Error''\<rparr>"

definition login_fallback_api :: api_decl where
  "login_fallback_api =
     \<lparr>ad_metadata =
      [Description ''Get login fallback web page.'',
       Method ''GET'',
       Name ''login_fallback'',
       Path ''/_matrix/static/client/login/'',
       RateLimited False,
       Authentication AuthNone],
     ad_request =
      [in_query ''device_id'' True (opt ''device_id'' (FText AnyText)),
       in_query ''initial_device_display_name'' True (opt ''initial_device_display_name'' (FText AnyText))],
     ad_response =
      [raw_bytes ''body'' False (plain ''body'' (FText AnyText))],
     ad_error = ''MatrixError''\<rparr>"

definition logout_api :: api_decl where
  "logout_api =
     \<lparr>ad_metadata =
      [Description ''Log out of the homeserver.'',
       Method ''POST'',
       Name ''logout'',
       Path ''/_matrix/client/r0/logout'',
       RateLimited False,
       Authentication AccessToken],
     ad_request =
      [],
     ad_response =
      [],
     ad_error = ''Error''\<rparr>"

definition logout_all_api :: api_decl where
  "logout_all_api =
     \<lparr>ad_metadata =
      [Description ''Invalidates all access tokens for a user, so that they can no longer be used for authorization.'',
       Method ''POST'',
       Name ''logout_all'',
       Path ''/_matrix/client/r0/logout/all'',
       RateLimited False,
       Authentication AccessToken],
     ad_request =
      [],
     ad_response =
      [],
     ad_error = ''Error''\<rparr>"

definition sso_login_api :: api_decl where
  "sso_login_api =
     \<lparr>ad_metadata =
      [Description '''',
       Method ''GET'',
       Name ''sso_login'',
       Path ''/_matrix/client/r0/login/sso/redirect'',
       RateLimited False,
       Authentication AuthNone],
     ad_request =
      [in_query ''redirect_url'' True (plain ''redirectUrl'' (FText AnyText))],
     ad_response =
      [in_header ''LOCATION'' ''location'' False (plain ''location'' (FText AnyText))],
     ad_error = ''Error''\<rparr>"

definition get_state_events_api :: api_decl where
  "get_state_events_api =
     \<lparr>ad_metadata =
      [Description ''Get state events for a room.'',
       Method ''GET'',
       Name ''get_state_events'',
       Path ''/_matrix/client/r0/rooms/:room_id/state'',
       RateLimited False,
       Authentication AccessToken],
     ad_request =
      [in_path ''room_id'' True (plain ''room_id'' (FText RoomIdText))],
     ad_response =
      [body ''room_state'' False (plain ''room_state'' (FVec FJson))],
     ad_error = ''Error''\<rparr>"

definition get_state_events_for_key_api :: api_decl where
  "get_state_events_for_key_api =
     \<lparr>ad_metadata =
      [Description ''Get state events associated with a given key.'',
       Method ''GET'',
       Name ''get_state_events_for_key'',
       Path ''/_matrix/client/r0/rooms/:room_id/state/:event_type/:state_key'',
       RateLimited False,
       Authentication AccessToken],
     ad_request =
      [],
     ad_response =
      [body ''content'' False (plain ''content'' FJson)],
     ad_error = ''Error''\<rparr>"

definition send_state_event_api :: api_decl where
  "send_state_event_api =
     \<lparr>ad_metadata =
      [Description ''Send a state event to a room associated with a given state key.'',
       Method ''PUT'',
       Name ''send_state_event'',
       Path ''/_matrix/client/r0/rooms/:room_id/state/:event_type/:state_key'',
       RateLimited False,
       Authentication AccessToken],
     ad_request =
      [],
     ad_response =
      [in_body ''event_id'' False (plain ''event_id'' (FText EventIdText))],
     ad_error = ''Error''\<rparr>"

definition sync_events_api :: api_decl where
  "sync_events_api =
     \<lparr>ad_metadata =
      [Description ''Get all new events from all rooms since the last sync or a given point of time.'',
       Method ''GET'',
       Name ''sync'',
       Path ''/_matrix/client/r0/sync'',
       RateLimited False,
       Authentication AccessToken],
     ad_request =
      [in_query ''filter'' True (opt ''filter'' (FOpaque ''Filter'')),
       in_query ''since'' True (opt ''since'' (FText AnyText)),
       in_query ''full_state'' False (default_skipped ''full_state'' FBool (VBool False)),
       in_query ''set_presence'' True (default_skipped ''set_presence'' (FText AnyText) (VText ''online'')),
       in_query ''timeout'' False (Field ''timeout'' (FWith (FOpt (FDuration 1000000))) SkipNone (Some (VNone)) False)],
     ad_response =
      [in_body ''next_batch'' False (plain ''next_batch'' (FText AnyText)),
       in_body ''rooms'' False (Field ''rooms'' sync_events_Rooms sync_events_Rooms_is_empty (Some (VStruct [VMap [],
         VMap [], VMap []])) False),
       in_body ''presence'' False (Field ''presence'' sync_events_Presence sync_events_Presence_is_empty (Some (VStruct
         [VVec []])) False),
       in_body ''account_data'' False (Field ''account_data'' sync_events_GlobalAccountData
         sync_events_GlobalAccountData_is_empty (Some (VStruct [VVec []])) False),
       in_body ''to_device'' False (Field ''to_device'' sync_events_ToDevice sync_events_ToDevice_is_empty (Some (VStruct
         [VVec []])) False),
       in_body ''device_lists'' False (Field ''device_lists'' sync_events_DeviceLists sync_events_DeviceLists_is_empty (Some
         (VStruct [VVec [], VVec []])) False),
       in_body ''device_one_time_keys_count'' False (empty_skipped ''device_one_time_keys_count'' (FMap AnyText UInt) (VMap
         []))],
     ad_error = ''Error''\<rparr>"

definition create_tag_api :: api_decl where
  "create_tag_api =
     \<lparr>ad_metadata =
      [Description ''Add a new tag to a room.'',
       Method ''PUT'',
       Name ''create_tag'',
       Path ''/_matrix/client/r0/user/:user_id/rooms/:room_id/tags/:tag'',
       RateLimited False,
       Authentication AccessToken],
     ad_request =
      [in_path ''user_id'' True (plain ''user_id'' (FText UserIdText)),
       in_path ''room_id'' True (plain ''room_id'' (FText RoomIdText)),
       in_path ''tag'' True (plain ''tag'' (FText AnyText)),
       body ''tag_info'' False (plain ''tag_info'' tag_TagInfo)],
     ad_response =
      [],
     ad_error = ''Error''\<rparr>"

definition delete_tag_api :: api_decl where
  "delete_tag_api =
     \<lparr>ad_metadata =
      [Description ''Remove a tag from a room.'',
       Method ''DELETE'',
       Name ''delete_tag'',
       Path ''/_matrix/client/r0/user/:user_id/rooms/:room_id/tags/:tag'',
       RateLimited False,
       Authentication AccessToken],
     ad_request =
      [in_path ''user_id'' True (plain ''user_id'' (FText UserIdText)),
       in_path ''room_id'' True (plain ''room_id'' (FText RoomIdText)),
       in_path ''tag'' True (plain ''tag'' (FText AnyText))],
     ad_response =
      [],
     ad_error = ''Error''\<rparr>"

definition get_tags_api :: api_decl where
  "get_tags_api =
     \<lparr>ad_metadata =
      [Description ''Get the tags associated with a room.'',
       Method ''GET'',
       Name ''get_tags'',
       Path ''/_matrix/client/r0/user/:user_id/rooms/:room_id/tags'',
       RateLimited False,
       Authentication AccessToken],
     ad_request =
      [in_path ''user_id'' True (plain ''user_id'' (FText UserIdText)),
       in_path ''room_id'' True (plain ''room_id'' (FText RoomIdText))],
     ad_response =
      [in_body ''tags'' False (plain ''tags'' (FOpaque ''Tags''))],
     ad_error = ''Error''\<rparr>"

definition get_location_for_protocol_api :: api_decl where
  "get_location_for_protocol_api =
     \<lparr>ad_metadata =
      [Description ''Fetches third party locations for a protocol.'',
       Method ''GET'',
       Name ''get_location_for_protocol'',
       Path ''/_matrix/client/r0/thirdparty/location/:protocol'',
       RateLimited False,
       Authentication AccessToken],
     ad_request =
      [in_path ''protocol'' True (plain ''protocol'' (FText AnyText)),
       query_map ''fields'' False (plain ''fields'' (FMap AnyText (FText AnyText)))],
     ad_response =
      [body ''locations'' False (plain ''locations'' (FVec common_thirdparty_Location))],
     ad_error = ''Error''\<rparr>"

definition get_location_for_room_alias_api :: api_decl where
  "get_location_for_room_alias_api =
     \<lparr>ad_metadata =
      [Description ''Retrieve an array of third party network locations from a Matrix room alias.'',
       Method ''GET'',
       Name ''get_location_for_room_alias'',
       Path ''/_matrix/client/r0/thirdparty/location'',
       RateLimited False,
       Authentication AccessToken],
     ad_request =
      [in_query ''alias'' True (plain ''alias'' (FText RoomAliasText))],
     ad_response =
      [body ''locations'' False (plain ''locations'' (FVec common_thirdparty_Location))],
     ad_error = ''Error''\<rparr>"

definition get_protocol_api :: api_decl where
  "get_protocol_api =
     \<lparr>ad_metadata =
      [Description ''Fetches the metadata from the homeserver about a particular third party protocol.'',
       Method ''GET'',
       Name ''get_protocol'',
       Path ''/_matrix/client/r0/thirdparty/protocol/:protocol'',
       RateLimited False,
       Authentication AccessToken],
     ad_request =
      [in_path ''protocol'' True (plain ''protocol'' (FText AnyText))],
     ad_response =
      [body ''protocol'' False (plain ''protocol'' common_thirdparty_Protocol)],
     ad_error = ''Error''\<rparr>"

definition get_protocols_api :: api_decl where
  "get_protocols_api =
     \<lparr>ad_metadata =
      [Description ''Fetches the overall metadata about protocols supported by the homeserver.'',
       Method ''GET'',
       Name ''get_protocols'',
       Path ''/_matrix/client/r0/thirdparty/protocols'',
       RateLimited False,
       Authentication AccessToken],
     ad_request =
      [],
     ad_response =
      [body ''protocols'' False (plain ''protocols'' (FMap AnyText common_thirdparty_Protocol))],
     ad_error = ''Error''\<rparr>"

definition get_user_for_protocol_api :: api_decl where
  "get_user_for_protocol_api =
     \<lparr>ad_metadata =
      [Description ''Fetches third party users for a protocol.'',
       Method ''GET'',
       Name ''get_user_for_protocol'',
       Path ''/_matrix/client/r0/thirdparty/user/:protocol'',
       RateLimited False,
       Authentication AccessToken],
     ad_request =
      [in_path ''protocol'' True (plain ''protocol'' (FText AnyText)),
       query_map ''fields'' False (plain ''fields'' (FMap AnyText (FText AnyText)))],
     ad_response =
      [body ''users'' False (plain ''users'' (FVec common_thirdparty_User))],
     ad_error = ''Error''\<rparr>"

definition get_user_for_user_id_api :: api_decl where
  "get_user_for_user_id_api =
     \<lparr>ad_metadata =
      [Description ''Retrieve an array of third party users from a Matrix User ID.'',
       Method ''GET'',
       Name ''get_user_for_user_id'',
       Path ''/_matrix/client/r0/thirdparty/user'',
       RateLimited False,
       Authentication AccessToken],
     ad_request =
      [in_query ''userid'' True (plain ''userid'' (FText UserIdText))],
     ad_response =
      [body ''users'' False (plain ''users'' (FVec common_thirdparty_User))],
     ad_error = ''Error''\<rparr>"

definition send_event_to_device_api :: api_decl where
  "send_event_to_device_api =
     \<lparr>ad_metadata =
      [Description ''Send an event to a device or devices.'',
       Method ''PUT'',
       Name ''send_event_to_device'',
       Path ''/_matrix/client/r0/sendToDevice/:event_type/:txn_id'',
       RateLimited False,
       Authentication AccessToken],
     ad_request =
      [in_path ''event_type'' True (plain ''event_type'' (FText AnyText)),
       in_path ''txn_id'' True (plain ''txn_id'' (FText AnyText)),
       in_body ''messages'' False (plain ''messages'' (FOpaque ''Messages''))],
     ad_response =
      [],
     ad_error = ''Error''\<rparr>"

definition create_typing_event_api :: api_decl where
  "create_typing_event_api =
     \<lparr>ad_metadata =
      [Method ''PUT'',
       Path ''/_matrix/client/r0/rooms/:room_id/typing/:user_id'',
       Name ''create_typing_event'',
       Description ''Send a typing event to a room.'',
       Authentication AccessToken,
       RateLimited True],
     ad_request =
      [in_path ''user_id'' True (plain ''user_id'' (FText UserIdText)),
       in_path ''room_id'' True (plain ''room_id'' (FText RoomIdText)),
       in_body ''state'' False (flat ''state'' (FOpaque ''Typing''))],
     ad_response =
      [],
     ad_error = ''Error''\<rparr>"

definition get_uiaa_fallback_page_api :: api_decl where
  "get_uiaa_fallback_page_api =
     \<lparr>ad_metadata =
      [Description ''Get UIAA fallback web page.'',
       Method ''GET'',
       Name ''authorize_fallback'',
       Path ''/_matrix/client/r0/auth/:auth_type/fallback/web'',
       RateLimited False,
       Authentication AuthNone],
     ad_request =
      [in_path ''auth_type'' False (plain ''auth_type'' (FText AnyText)),
       in_query ''session'' False (plain ''session'' (FText AnyText))],
     ad_response =
      [in_header ''LOCATION'' ''redirect_url'' False (plain ''redirect_url'' (FOpt (FText AnyText))),
       raw_bytes ''body'' False (plain ''body'' (FText AnyText))],
     ad_error = ''Error''\<rparr>"

definition search_users_api :: api_decl where
  "search_users_api =
     \<lparr>ad_metadata =
      [Description ''Performs a search for users.'',
       Method ''POST'',
       Name ''search_users'',
       Path ''/_matrix/client/r0/user_directory/search'',
       RateLimited True,
       Authentication AccessToken],
     ad_request =
      [in_body ''search_term'' True (plain ''search_term'' (FText AnyText)),
       in_body ''limit'' False (default_skipped ''limit'' UInt (VInt 10)),
       in_header ''ACCEPT_LANGUAGE'' ''language'' False (plain ''language'' (FOpt (FText AnyText)))],
     ad_response =
      [in_body ''results'' False (plain ''results'' (FVec search_users_User)),
       in_body ''limited'' False (plain ''limited'' FBool)],
     ad_error = ''Error''\<rparr>"

definition get_turn_server_info_api :: api_decl where
  "get_turn_server_info_api =
     \<lparr>ad_metadata =
      [Description ''Get credentials for the client to use when initiating VoIP calls.'',
       Method ''GET'',
       Name ''turn_server_info'',
       Path ''/_matrix/client/r0/voip/turnServer'',
       RateLimited True,
       Authentication AccessToken],
     ad_request =
      [],
     ad_response =
      [in_body ''username'' False (plain ''username'' (FText AnyText)),
       in_body ''password'' False (plain ''password'' (FText AnyText)),
       in_body ''uris'' False (plain ''uris'' (FVec (FText AnyText))),
       in_body ''ttl'' False (plain ''ttl'' (FWith (FDuration 1000000000)))],
     ad_error = ''Error''\<rparr>"

definition discover_homeserver_api :: api_decl where
  "discover_homeserver_api =
     \<lparr>ad_metadata =
      [Description ''Get discovery information about the domain.'',
       Method ''GET'',
       Name ''discover_homeserver'',
       Path ''/.well-known/matrix/client'',
       RateLimited False,
       Authentication AuthNone],
     ad_request =
      [],
     ad_response =
      [in_body ''homeserver'' False (plain ''m.homeserver'' discover_homeserver_HomeserverInfo),
       in_body ''identity_server'' False (plain ''m.identity_server'' (FOpt discover_homeserver_IdentityServerInfo))],
     ad_error = ''Error''\<rparr>"

definition get_supported_versions_api :: api_decl where
  "get_supported_versions_api =
     \<lparr>ad_metadata =
      [Description ''Get the versions of the client-server API supported by this homeserver.'',
       Method ''GET'',
       Name ''api_versions'',
       Path ''/_matrix/client/versions'',
       RateLimited False,
       Authentication AuthNone],
     ad_request =
      [],
     ad_response =
      [in_body ''versions'' False (plain ''versions'' (FVec (FText AnyText))),
       in_body ''unstable_features'' False (empty_skipped ''unstable_features'' (FMap AnyText FBool) (VMap []))],
     ad_error = ''Error''\<rparr>"

end
