(* ===== verification/Server_Endpoints.thy ===== *)
theory Server_Endpoints
  imports Common_Types
begin

text \<open>The types and endpoints of the federation (\<open>fed_\<close>), identity service (\<open>id_\<close>), application service (\<open>as_\<close>) and push
  gateway (\<open>push_gateway_\<close>) APIs.\<close>

definition fed_get_devices_v1_UserDevice :: ty where
  "fed_get_devices_v1_UserDevice =
     FStruct None
     [plain ''device_id'' (FText AnyText),
      plain ''keys'' common_encryption_DeviceKeys,
      opt ''device_display_name'' (FText AnyText)]"

definition fed_discovery_VerifyKey :: ty where
  "fed_discovery_VerifyKey =
     FStruct None
     [plain ''key'' (FText AnyText)]"

definition fed_discovery_OldVerifyKey :: ty where
  "fed_discovery_OldVerifyKey =
     FStruct None
     [plain ''expired_ts'' UInt,
      plain ''key'' (FText AnyText)]"

definition fed_discovery_ServerSigningKeys :: ty where
  "fed_discovery_ServerSigningKeys =
     FStruct None
     [plain ''server_name'' (FText ServerNameText),
      plain ''verify_keys'' (FMap ServerKeyIdText fed_discovery_VerifyKey),
      plain ''old_verify_keys'' (FMap ServerKeyIdText fed_discovery_OldVerifyKey),
      plain ''signatures'' (FMap ServerNameText (FMap ServerKeyIdText (FText AnyText))),
      plain ''valid_until_ts'' UInt]"

definition fed_get_remote_server_keys_batch_v2_QueryCriteria :: ty where
  "fed_get_remote_server_keys_batch_v2_QueryCriteria =
     FStruct None
     [opt ''minimum_valid_until_ts'' UInt]"

definition fed_get_server_version_v1_Server :: ty where
  "fed_get_server_version_v1_Server =
     FStruct None
     [opt ''name'' (FText AnyText),
      opt ''version'' (FText AnyText)]"

definition fed_claim_keys_v1_KeyObject :: ty where
  "fed_claim_keys_v1_KeyObject =
     FStruct None
     [plain ''key'' (FText AnyText),
      plain ''signatures'' (FMap UserIdText (FMap DeviceKeyIdText (FText AnyText)))]"

definition fed_create_invite_v1_UnsignedEventContent :: ty where
  "fed_create_invite_v1_UnsignedEventContent =
     FStruct None
     [Field ''invite_room_state'' (FVec FJson) SkipEmpty None False]"

definition fed_create_join_event_RoomState :: ty where
  "fed_create_join_event_RoomState =
     FStruct None
     [plain ''origin'' (FText AnyText),
      plain ''auth_chain'' (FVec FJson),
      plain ''state'' (FVec FJson)]"

definition fed_create_leave_event_v1_Empty :: ty where
  "fed_create_leave_event_v1_Empty =
     FStruct None
     []"

definition fed_pdu_process_response_WrappedError :: ty where
  "fed_pdu_process_response_WrappedError =
     FStruct None
     [opt ''error'' (FText AnyText)]"

definition fed_bind_callback_v1_ThirdPartyInvite :: ty where
  "fed_bind_callback_v1_ThirdPartyInvite =
     FStruct None
     [plain ''medium'' (FText AnyText),
      plain ''address'' (FText AnyText),
      plain ''mxid'' (FText UserIdText),
      plain ''room_id'' (FText RoomIdText),
      plain ''sender'' (FText UserIdText),
      plain ''signed'' (FMap ServerNameText (FMap ServerKeyIdText (FText AnyText)))]"

definition fed_edu_PresenceUpdate :: ty where
  "fed_edu_PresenceUpdate =
     FStruct None
     [plain ''user_id'' (FText UserIdText),
      plain ''presence'' (FText AnyText),
      opt ''status_msg'' (FText AnyText),
      plain ''last_active_ago'' UInt,
      defaulted ''currently_active'' FBool (VBool False)]"

definition fed_edu_PresenceContent :: ty where
  "fed_edu_PresenceContent =
     FStruct None
     [plain ''push'' (FVec fed_edu_PresenceUpdate)]"

definition fed_edu_ReceiptData :: ty where
  "fed_edu_ReceiptData =
     FStruct None
     [plain ''data'' receipt_Receipt,
      plain ''event_ids'' (FVec (FText EventIdText))]"

definition fed_edu_ReceiptMap :: ty where
  "fed_edu_ReceiptMap =
     FStruct None
     [plain ''m.read'' (FMap UserIdText fed_edu_ReceiptData)]"

definition fed_edu_ReceiptContent :: ty where
  "fed_edu_ReceiptContent =
     FStruct None
     [flat ''receipts'' (FMap RoomIdText fed_edu_ReceiptMap)]"

definition fed_edu_TypingContent :: ty where
  "fed_edu_TypingContent =
     FStruct None
     [plain ''room_id'' (FText RoomIdText),
      plain ''user_id'' (FText UserIdText),
      plain ''typing'' FBool]"

definition fed_edu_DeviceListUpdateContent :: ty where
  "fed_edu_DeviceListUpdateContent =
     FStruct None
     [plain ''user_id'' (FText UserIdText),
      plain ''device_id'' (FText AnyText),
      opt ''device_display_name'' (FText AnyText),
      plain ''stream_id'' UInt,
      empty_skipped ''prev_id'' (FVec UInt) (VVec []),
      opt ''deleted'' FBool,
      opt ''keys'' common_encryption_DeviceKeys]"

definition fed_edu_DirectDeviceContent :: ty where
  "fed_edu_DirectDeviceContent =
     FStruct None
     [plain ''sender'' (FText UserIdText),
      plain ''type'' (FText AnyText),
      plain ''message_id'' (FText AnyText),
      plain ''messages'' (FOpaque ''DirectDeviceMessages'')]"

definition id_unbind_3pid_v2_ThirdPartyId :: ty where
  "id_unbind_3pid_v2_ThirdPartyId =
     FStruct None
     [plain ''medium'' (FText AnyText),
      plain ''address'' (FText AnyText)]"

definition id_unbind_3pid_v2_ThreePidOwnershipProof :: ty where
  "id_unbind_3pid_v2_ThreePidOwnershipProof =
     FStruct None
     [plain ''sid'' (FText SessionIdText),
      plain ''client_secret'' (FText ClientSecretText)]"

definition id_get_terms_of_service_v2_LocalizedPolicy :: ty where
  "id_get_terms_of_service_v2_LocalizedPolicy =
     FStruct None
     [plain ''name'' (FText AnyText),
      plain ''url'' (FText AnyText)]"

definition id_get_terms_of_service_v2_Policies :: ty where
  "id_get_terms_of_service_v2_Policies =
     FStruct None
     [plain ''version'' (FText AnyText),
      flat ''localized'' (FMap AnyText id_get_terms_of_service_v2_LocalizedPolicy)]"

definition as_Namespace :: ty where
  "as_Namespace =
     FStruct None
     [plain ''exclusive'' FBool,
      plain ''regex'' (FText AnyText)]"

definition as_Namespaces :: ty where
  "as_Namespaces =
     FStruct None
     [empty_skipped ''users'' (FVec as_Namespace) (VVec []),
      empty_skipped ''aliases'' (FVec as_Namespace) (VVec []),
      empty_skipped ''rooms'' (FVec as_Namespace) (VVec [])]"

definition as_Registration :: ty where
  "as_Registration =
     FStruct None
     [plain ''id'' (FText AnyText),
      plain ''url'' (FText AnyText),
      plain ''as_token'' (FText AnyText),
      plain ''hs_token'' (FText AnyText),
      plain ''sender_localpart'' (FText AnyText),
      plain ''namespaces'' as_Namespaces,
      opt ''rate_limited'' FBool,
      opt ''protocols'' (FVec (FText AnyText))]"

definition push_gateway_send_event_notification_v1_NotificationCounts :: ty where
  "push_gateway_send_event_notification_v1_NotificationCounts =
     FStruct None
     [default_skipped ''unread'' UInt (VInt 0),
      default_skipped ''missed_calls'' UInt (VInt 0)]"

definition push_gateway_send_event_notification_v1_Device :: ty where
  "push_gateway_send_event_notification_v1_Device =
     FStruct None
     [plain ''app_id'' (FText AnyText),
      plain ''pushkey'' (FText AnyText),
      opt ''pushkey_ts'' UInt,
      Field ''data'' common_push_PusherData common_push_PusherData_is_empty (Some (VStruct [VNone, VNone])) False,
      Field ''tweaks'' (FWith (FOpaque ''tweak_serde'')) SkipEmpty None False]"

definition push_gateway_send_event_notification_v1_Notification :: ty where
  "push_gateway_send_event_notification_v1_Notification =
     FStruct None
     [opt ''event_id'' (FText EventIdText),
      opt ''room_id'' (FText RoomIdText),
      opt ''type'' (FText AnyText),
      opt ''sender'' (FText UserIdText),
      opt ''sender_display_name'' (FText AnyText),
      opt ''room_name'' (FText RoomNameText),
      opt ''room_alias'' (FText RoomAliasText),
      default_skipped ''user_is_target'' FBool (VBool False),
      default_skipped ''prio'' (FText AnyText) (VText ''high''),
      opt ''content'' FJson,
      default_skipped ''counts'' push_gateway_send_event_notification_v1_NotificationCounts (VStruct [VInt 0, VInt 0]),
      plain ''devices'' (FVec push_gateway_send_event_notification_v1_Device)]"

definition fed_create_invite_v1_UnsignedEventContent_is_empty :: skip where
  "fed_create_invite_v1_UnsignedEventContent_is_empty =
     SkipAll [Some SkipEmpty]"

definition fed_get_event_authorization_v1_api :: api_decl where
  "fed_get_event_authorization_v1_api =
     \<lparr>ad_metadata =
      [Description ''Retrieves the complete auth chain for a given event.'',
       Name ''get_event_authorization'',
       Method ''GET'',
       Path ''/_matrix/federation/v1/event_auth/:room_id/:event_id'',
       RateLimited False,
       Authentication ServerSignatures],
     ad_request =
      [in_path ''room_id'' True (plain ''room_id'' (FText RoomIdText)),
       in_path ''event_id'' True (plain ''event_id'' (FText EventIdText))],
     ad_response =
      [in_body ''auth_chain'' False (plain ''auth_chain'' (FVec FJson))],
     ad_error = ''MatrixError''\<rparr>"

definition fed_get_backfill_v1_api :: api_decl where
  "fed_get_backfill_v1_api =
     \<lparr>ad_metadata =
      [Description ''Request more history from another homeserver'',
       Name ''get_backfill'',
       Method ''GET'',
       Path ''/_matrix/federation/v1/backfill/:room_id'',
       RateLimited False,
       Authentication ServerSignatures],
     ad_request =
      [in_path ''room_id'' True (plain ''room_id'' (FText RoomIdText)),
       in_query ''v'' True (plain ''v'' (FVec (FText EventIdText))),
       in_query ''limit'' False (plain ''limit'' UInt)],
     ad_response =
      [in_body ''origin'' False (plain ''origin'' (FText ServerNameText)),
       in_body ''origin_server_ts'' False (plain ''origin_server_ts'' UInt),
       in_body ''pdus'' False (plain ''pdus'' (FVec FJson))],
     ad_error = ''MatrixError''\<rparr>"

definition fed_get_devices_v1_api :: api_decl where
  "fed_get_devices_v1_api =
     \<lparr>ad_metadata =
      [Description ''Gets information on all of the user's devices.'',
       Name ''get_devices'',
       Method ''GET'',
       Path ''/_matrix/federation/v1/user/devices/:user_id'',
       RateLimited False,
       Authentication ServerSignatures],
     ad_request =
      [in_path ''user_id'' True (plain ''user_id'' (FText UserIdText))],
     ad_response =
      [in_body ''user_id'' False (plain ''user_id'' (FText UserIdText)),
       in_body ''stream_id'' False (plain ''stream_id'' UInt),
       in_body ''devices'' False (plain ''devices'' (FVec fed_get_devices_v1_UserDevice))],
     ad_error = ''MatrixError''\<rparr>"

definition fed_discover_homeserver_api :: api_decl where
  "fed_discover_homeserver_api =
     \<lparr>ad_metadata =
      [Description ''Get discovery information about the domain.'',
       Method ''GET'',
       Name ''discover_homeserver'',
       Path ''/.well-known/matrix/server'',
       RateLimited False,
       Authentication AuthNone],
     ad_request =
      [],
     ad_response =
      [in_body ''server'' False (plain ''m.server'' (FText ServerNameText))],
     ad_error = ''MatrixError''\<rparr>"

definition fed_get_remote_server_keys_batch_v2_api :: api_decl where
  "fed_get_remote_server_keys_batch_v2_api =
     \<lparr>ad_metadata =
      [Description ''Query for keys from multiple servers in a batch format.'',
       Method ''POST'',
       Name ''get_remote_server_keys_batch'',
       Path ''/_matrix/key/v2/query'',
       RateLimited False,
       Authentication AuthNone],
     ad_request =
      [in_body ''server_keys'' False (plain ''server_keys'' (FMap ServerNameText (FMap ServerKeyIdText
        fed_get_remote_server_keys_batch_v2_QueryCriteria)))],
     ad_response =
      [in_body ''server_keys'' False (plain ''server_keys'' (FVec fed_discovery_ServerSigningKeys))],
     ad_error = ''MatrixError''\<rparr>"

definition fed_get_server_keys_v2_api :: api_decl where
  "fed_get_server_keys_v2_api =
     \<lparr>ad_metadata =
      [Description ''Gets the homeserver's published signing keys.'',
       Method ''GET'',
       Name ''get_server_keys'',
       Path ''/_matrix/key/v2/server'',
       RateLimited False,
       Authentication AuthNone],
     ad_request =
      [],
     ad_response =
      [body ''server_key'' False (plain ''server_key'' fed_discovery_ServerSigningKeys)],
     ad_error = ''MatrixError''\<rparr>"

definition fed_get_server_version_v1_api :: api_decl where
  "fed_get_server_version_v1_api =
     \<lparr>ad_metadata =
      [Description ''Get the implementation name and version of this homeserver.'',
       Method ''GET'',
       Name ''get_server_version'',
       Path ''/_matrix/federation/v1/version'',
       RateLimited False,
       Authentication AuthNone],
     ad_request =
      [],
     ad_response =
      [in_body ''server'' False (opt ''server'' fed_get_server_version_v1_Server)],
     ad_error = ''MatrixError''\<rparr>"

definition fed_get_event_v1_api :: api_decl where
  "fed_get_event_v1_api =
     \<lparr>ad_metadata =
      [Description ''Retrieves a single event.'',
       Method ''GET'',
       Name ''get_event'',
       Path ''/_matrix/federation/v1/event/:event_id'',
       RateLimited False,
       Authentication ServerSignatures],
     ad_request =
      [in_path ''event_id'' True (plain ''event_id'' (FText EventIdText))],
     ad_response =
      [in_body ''origin'' False (plain ''origin'' (FText ServerNameText)),
       in_body ''origin_server_ts'' False (plain ''origin_server_ts'' UInt),
       in_body ''pdu'' False (plain ''pdus'' (FWith (FSingle FJson)))],
     ad_error = ''MatrixError''\<rparr>"

definition fed_get_missing_events_v1_api :: api_decl where
  "fed_get_missing_events_v1_api =
     \<lparr>ad_metadata =
      [Description ''Retrieves previous events that the sender is missing.'',
       Method ''POST'',
       Name ''get_missing_events'',
       Path ''/_matrix/federation/v1/get_missing_events/:room_id'',
       RateLimited False,
       Authentication ServerSignatures],
     ad_request =
      [in_path ''room_id'' True (plain ''room_id'' (FText RoomIdText)),
       in_body ''limit'' False (default_skipped ''limit'' UInt (VInt 10)),
       in_body ''min_depth'' False (default_skipped ''min_depth'' UInt (VInt 0)),
       in_body ''earliest_events'' True (plain ''earliest_events'' (FVec (FText EventIdText))),
       in_body ''latest_events'' True (plain ''latest_events'' (FVec (FText EventIdText)))],
     ad_response =
      [in_body ''events'' False (plain ''events'' (FVec FJson))],
     ad_error = ''MatrixError''\<rparr>"

definition fed_get_room_state_v1_api :: api_decl where
  "fed_get_room_state_v1_api =
     \<lparr>ad_metadata =
      [Description ''Retrieves a snapshot of a room's state at a given event.'',
       Method ''GET'',
       Name ''get_room_state'',
       Path ''/_matrix/federation/v1/state/:room_id'',
       RateLimited False,
       Authentication ServerSignatures],
     ad_request =
      [in_path ''room_id'' True (plain ''room_id'' (FText RoomIdText)),
       in_query ''event_id'' True (plain ''event_id'' (FText EventIdText))],
     ad_response =
      [in_body ''auth_chain'' False (plain ''auth_chain'' (FVec FJson)),
       in_body ''pdus'' False (plain ''pdus'' (FVec FJson))],
     ad_error = ''MatrixError''\<rparr>"

definition fed_get_room_state_ids_v1_api :: api_decl where
  "fed_get_room_state_ids_v1_api =
     \<lparr>ad_metadata =
      [Description ''Retrieves a snapshot of a room's state at a given event, in the form of event IDs'',
       Method ''GET'',
       Name ''get_room_state_ids'',
       Path ''/_matrix/federation/v1/state_ids/:room_id'',
       RateLimited False,
       Authentication ServerSignatures],
     ad_request =
      [in_path ''room_id'' True (plain ''room_id'' (FText RoomIdText)),
       in_query ''event_id'' True (plain ''event_id'' (FText EventIdText))],
     ad_response =
      [in_body ''auth_chain_ids'' False (plain ''auth_chain_ids'' (FVec (FText EventIdText))),
       in_body ''pdu_ids'' False (plain ''pdu_ids'' (FVec (FText EventIdText)))],
     ad_error = ''MatrixError''\<rparr>"

definition fed_claim_keys_v1_api :: api_decl where
  "fed_claim_keys_v1_api =
     \<lparr>ad_metadata =
      [Description ''Claims one-time keys for use in pre-key messages.'',
       Method ''POST'',
       Name ''claim_keys'',
       Path ''/_matrix/federation/v1/user/keys/claim'',
       RateLimited False,
       Authentication ServerSignatures],
     ad_request =
      [in_body ''one_time_keys'' False (plain ''one_time_keys'' (FMap UserIdText (FMap AnyText (FText AnyText))))],
     ad_response =
      [in_body ''one_time_keys'' False (plain ''one_time_keys'' (FMap UserIdText (FMap AnyText (FMap DeviceKeyIdText
        common_encryption_OneTimeKey))))],
     ad_error = ''MatrixError''\<rparr>"

definition fed_get_keys_v1_api :: api_decl where
  "fed_get_keys_v1_api =
     \<lparr>ad_metadata =
      [Description ''Returns the current devices and identity keys for the given users.'',
       Method ''POST'',
       Name ''get_keys'',
       Path ''/_matrix/federation/v1/user/keys/query'',
       RateLimited False,
       Authentication ServerSignatures],
     ad_request =
      [in_body ''device_keys'' False (plain ''device_keys'' (FMap UserIdText (FVec (FText AnyText))))],
     ad_response =
      [in_body ''device_keys'' False (plain ''device_keys'' (FMap UserIdText (FMap AnyText common_encryption_DeviceKeys)))],
     ad_error = ''MatrixError''\<rparr>"

definition fed_create_invite_v1_api :: api_decl where
  "fed_create_invite_v1_api =
     \<lparr>ad_metadata =
      [Description ''Invites a remote user to a room.'',
       Method ''PUT'',
       Name ''create_invite'',
       Path ''/_matrix/federation/v1/invite/:room_id/:event_id'',
       RateLimited False,
       Authentication ServerSignatures],
     ad_request =
      [in_path ''room_id'' True (plain ''room_id'' (FText RoomIdText)),
       in_path ''event_id'' True (plain ''event_id'' (FText EventIdText)),
       in_body ''sender'' True (plain ''sender'' (FText UserIdText)),
       in_body ''origin'' True (plain ''origin'' (FText ServerNameText)),
       in_body ''origin_server_ts'' False (plain ''origin_server_ts'' UInt),
       in_body ''kind'' False (plain ''type'' (FText AnyText)),
       in_body ''state_key'' True (plain ''state_key'' (FText UserIdText)),
       in_body ''content'' False (plain ''content'' member_RoomMemberEventContent),
       in_body ''unsigned'' False (Field ''unsigned'' fed_create_invite_v1_UnsignedEventContent
         fed_create_invite_v1_UnsignedEventContent_is_empty (Some (VStruct [VVec []])) False)],
     ad_response =
      [body ''event'' False (plain ''event'' (FWith (FV1Pdu FJson)))],
     ad_error = ''MatrixError''\<rparr>"

definition fed_create_invite_v2_api :: api_decl where
  "fed_create_invite_v2_api =
     \<lparr>ad_metadata =
      [Description ''Invites a remote user to a room.'',
       Method ''PUT'',
       Name ''create_invite'',
       Path ''/_matrix/federation/v2/invite/:room_id/:event_id'',
       RateLimited False,
       Authentication ServerSignatures],
     ad_request =
      [in_path ''room_id'' True (plain ''room_id'' (FText RoomIdText)),
       in_path ''event_id'' True (plain ''event_id'' (FText EventIdText)),
       in_body ''room_version'' True (plain ''room_version'' (FText RoomVersionText)),
       in_body ''event'' True (plain ''event'' FJson),
       in_body ''invite_room_state'' True (plain ''invite_room_state'' (FVec FJson))],
     ad_response =
      [in_body ''event'' False (plain ''event'' FJson)],
     ad_error = ''MatrixError''\<rparr>"

definition fed_create_join_event_v1_api :: api_decl where
  "fed_create_join_event_v1_api =
     \<lparr>ad_metadata =
      [Description ''Send a join event to a resident server.'',
       Name ''create_join_event'',
       Method ''PUT'',
       Path ''/_matrix/federation/v1/send_join/:room_id/:event_id'',
       RateLimited False,
       Authentication ServerSignatures],
     ad_request =
      [in_path ''room_id'' True (plain ''room_id'' (FText RoomIdText)),
       in_path ''event_id'' True (plain ''event_id'' (FText EventIdText)),
       body ''pdu'' True (plain ''pdu'' FJson)],
     ad_response =
      [body ''room_state'' False (plain ''room_state'' (FWith (FV1Pdu fed_create_join_event_RoomState)))],
     ad_error = ''MatrixError''\<rparr>"

definition fed_create_join_event_v2_api :: api_decl where
  "fed_create_join_event_v2_api =
     \<lparr>ad_metadata =
      [Description ''Send a join event to a resident server.'',
       Name ''create_join_event'',
       Method ''PUT'',
       Path ''/_matrix/federation/v2/send_join/:room_id/:event_id'',
       RateLimited False,
       Authentication ServerSignatures],
     ad_request =
      [in_path ''room_id'' True (plain ''room_id'' (FText RoomIdText)),
       in_path ''event_id'' True (plain ''event_id'' (FText EventIdText)),
       body ''pdu'' True (plain ''pdu'' FJson)],
     ad_response =
      [body ''room_state'' False (plain ''room_state'' fed_create_join_event_RoomState)],
     ad_error = ''MatrixError''\<rparr>"

definition fed_create_join_event_template_v1_api :: api_decl where
  "fed_create_join_event_template_v1_api =
     \<lparr>ad_metadata =
      [Description ''Send a request for a join event template to a resident server.'',
       Name ''create_join_event_template'',
       Method ''GET'',
       Path ''/_matrix/federation/v1/make_join/:room_id/:user_id'',
       RateLimited False,
       Authentication ServerSignatures],
     ad_request =
      [in_path ''room_id'' True (plain ''room_id'' (FText RoomIdText)),
       in_path ''user_id'' True (plain ''user_id'' (FText UserIdText)),
       in_query ''ver'' True (default_skipped ''ver'' (FVec (FText RoomVersionText)) (VVec [VText ''1'']))],
     ad_response =
      [in_body ''room_version'' False (opt ''room_version'' (FText RoomVersionText)),
       in_body ''event'' False (plain ''event'' FJson)],
     ad_error = ''MatrixError''\<rparr>"

definition fed_create_leave_event_v1_api :: api_decl where
  "fed_create_leave_event_v1_api =
     \<lparr>ad_metadata =
      [Description ''Submits a signed leave event to the receiving server for it to accept it into the room's graph.'',
       Name ''create_leave_event'',
       Method ''PUT'',
       Path ''/_matrix/federation/v1/send_leave/:room_id/:event_id'',
       RateLimited False,
       Authentication ServerSignatures],
     ad_request =
      [in_path ''room_id'' True (plain ''room_id'' (FText RoomIdText)),
       in_path ''event_id'' True (plain ''event_id'' (FText EventIdText)),
       in_query ''sender'' True (plain ''sender'' (FText UserIdText)),
       in_query ''origin'' True (plain ''origin'' (FText ServerNameText)),
       in_query ''origin_server_ts'' False (plain ''origin_server_ts'' UInt),
       in_query ''event_type'' False (plain ''type'' (FText AnyText)),
       in_query ''state_key'' True (plain ''state_key'' (FText AnyText)),
       in_query ''content'' False (plain ''content'' FJson),
       in_query ''depth'' False (plain ''depth'' UInt)],
     ad_response =
      [body ''empty'' False (plain ''empty'' (FWith (FV1Pdu fed_create_leave_event_v1_Empty)))],
     ad_error = ''MatrixError''\<rparr>"

definition fed_create_leave_event_v2_api :: api_decl where
  "fed_create_leave_event_v2_api =
     \<lparr>ad_metadata =
      [Description ''Submits a signed leave event to the receiving server for it to accept it into the room's graph.'',
       Name ''create_leave_event'',
       Method ''PUT'',
       Path ''/_matrix/federation/v1/send_leave/:room_id/:event_id'',
       RateLimited False,
       Authentication ServerSignatures],
     ad_request =
      [in_path ''room_id'' True (plain ''room_id'' (FText RoomIdText)),
       in_path ''event_id'' True (plain ''event_id'' (FText EventIdText)),
       body ''pdu'' True (plain ''pdu'' FJson)],
     ad_response =
      [],
     ad_error = ''MatrixError''\<rparr>"

definition fed_get_leave_event_v1_api :: api_decl where
  "fed_get_leave_event_v1_api =
     \<lparr>ad_metadata =
      [Description
        ''Asks the receiving server to return information that the sending server will need to prepare a leave event to get out of the room.'',
       Name ''get_leave_event'',
       Method ''GET'',
       Path ''/_matrix/federation/v1/make_leave/:room_id/:user_id'',
       RateLimited False,
       Authentication ServerSignatures],
     ad_request =
      [in_path ''room_id'' True (plain ''room_id'' (FText RoomIdText)),
       in_path ''user_id'' True (plain ''user_id'' (FText UserIdText))],
     ad_response =
      [in_body ''room_version'' False (plain ''room_version'' (FOpt (FText RoomVersionText))),
       in_body ''event'' False (plain ''event'' FJson)],
     ad_error = ''MatrixError''\<rparr>"

definition fed_get_openid_userinfo_v1_api :: api_decl where
  "fed_get_openid_userinfo_v1_api =
     \<lparr>ad_metadata =
      [Description ''Exchanges an OpenID access token for information about the user who generated the token.'',
       Method ''GET'',
       Name ''get_openid_userinfo'',
       Path ''/_matrix/federation/v1/openid/userinfo'',
       RateLimited False,
       Authentication AuthNone],
     ad_request =
      [in_query ''access_token'' True (plain ''access_token'' (FText AnyText))],
     ad_response =
      [in_body ''sub'' False (plain ''sub'' (FText UserIdText))],
     ad_error = ''MatrixError''\<rparr>"

definition fed_get_custom_information_v1_api :: api_decl where
  "fed_get_custom_information_v1_api =
     \<lparr>ad_metadata =
      [Description
        ''Performs a single query request on the receiving homeserver. The query string arguments are dependent on which type of query is being made.'',
       Method ''GET'',
       Name ''get_custom_information'',
       Path ''/_matrix/federation/v1/query/:query_type'',
       RateLimited False,
       Authentication AccessToken],
     ad_request =
      [in_path ''query_type'' True (plain ''query_type'' (FText AnyText)),
       query_map ''params'' False (plain ''params'' (FMap AnyText (FText AnyText)))],
     ad_response =
      [body ''body'' False (plain ''body'' FJson)],
     ad_error = ''MatrixError''\<rparr>"

definition fed_get_profile_information_v1_api :: api_decl where
  "fed_get_profile_information_v1_api =
     \<lparr>ad_metadata =
      [Description ''Get profile information, such as a display name or avatar, for a given user.'',
       Name ''get_profile_information'',
       Method ''GET'',
       Path ''/_matrix/federation/v1/query/profile'',
       RateLimited False,
       Authentication ServerSignatures],
     ad_request =
      [in_query ''user_id'' True (plain ''user_id'' (FText UserIdText)),
       in_query ''field'' True (opt ''field'' (FText AnyText))],
     ad_response =
      [in_body ''displayname'' False (opt ''displayname'' (FText AnyText)),
       in_body ''avatar_url'' False (opt ''avatar_url'' (FText AnyText))],
     ad_error = ''MatrixError''\<rparr>"

definition fed_get_room_information_v1_api :: api_decl where
  "fed_get_room_information_v1_api =
     \<lparr>ad_metadata =
      [Description ''Get mapped room ID and resident homeservers for a given room alias.'',
       Name ''get_room_information'',
       Method ''GET'',
       Path ''/_matrix/federation/v1/query/directory'',
       RateLimited False,
       Authentication ServerSignatures],
     ad_request =
      [in_query ''room_alias'' True (plain ''room_alias'' (FText RoomAliasText))],
     ad_response =
      [in_body ''room_id'' False (plain ''room_id'' (FText RoomIdText)),
       in_body ''servers'' False (plain ''servers'' (FVec (FText ServerNameText)))],
     ad_error = ''MatrixError''\<rparr>"

definition fed_bind_callback_v1_api :: api_decl where
  "fed_bind_callback_v1_api =
     \<lparr>ad_metadata =
      [Description
        ''Used by identity servers to notify the homeserver that one of its users has bound a third party identifier successfully'',
       Method ''PUT'',
       Name ''bind_callback'',
       Path ''/_matrix/federation/v1/3pid/onbind'',
       RateLimited False,
       Authentication AuthNone],
     ad_request =
      [in_body ''medium'' True (plain ''medium'' (FText AnyText)),
       in_body ''address'' True (plain ''address'' (FText AnyText)),
       in_body ''mxid'' True (plain ''mxid'' (FText UserIdText)),
       in_body ''invites'' True (plain ''invites'' (FVec fed_bind_callback_v1_ThirdPartyInvite))],
     ad_response =
      [],
     ad_error = ''MatrixError''\<rparr>"

definition fed_exchange_invite_v1_api :: api_decl where
  "fed_exchange_invite_v1_api =
     \<lparr>ad_metadata =
      [Description ''The receiving server will verify the partial m.room.member event given in the request body.'',
       Method ''PUT'',
       Name ''exchange_invite'',
       Path ''/_matrix/federation/v1/exchange_third_party_invite/:room_id'',
       RateLimited False,
       Authentication AccessToken],
     ad_request =
      [in_path ''room_id'' True (plain ''room_id'' (FText RoomIdText)),
       in_body ''kind'' False (plain ''type'' (FText AnyText)),
       in_body ''sender'' True (plain ''sender'' (FText UserIdText)),
       in_body ''state_key'' True (plain ''state_key'' (FText UserIdText)),
       in_body ''content'' True (plain ''content'' fed_bind_callback_v1_ThirdPartyInvite)],
     ad_response =
      [],
     ad_error = ''MatrixError''\<rparr>"

definition fed_send_transaction_message_v1_api :: api_decl where
  "fed_send_transaction_message_v1_api =
     \<lparr>ad_metadata =
      [Description ''Send transaction messages to another server'',
       Name ''send_transaction_message'',
       Method ''PUT'',
       Path ''/_matrix/federation/v1/send/:transaction_id'',
       RateLimited False,
       Authentication ServerSignatures],
     ad_request =
      [in_path ''transaction_id'' True (plain ''transaction_id'' (FText AnyText)),
       in_body ''origin'' True (plain ''origin'' (FText ServerNameText)),
       in_body ''origin_server_ts'' False (plain ''origin_server_ts'' UInt),
       in_body ''pdus'' True (plain ''pdus'' (FVec FJson)),
       in_body ''edus'' True (empty_skipped ''edus'' (FVec FJson) (VVec []))],
     ad_response =
      [in_body ''pdus'' False (plain ''pdus'' (FWith (FMap EventIdText fed_pdu_process_response_WrappedError)))],
     ad_error = ''MatrixError''\<rparr>"

definition id_bind_3pid_v2_api :: api_decl where
  "id_bind_3pid_v2_api =
     \<lparr>ad_metadata =
      [Description ''Publish an association between a session and a Matrix user ID.'',
       Method ''POST'',
       Name ''bind_3pid'',
       Path ''/_matrix/identity/v2/3pid/bind'',
       RateLimited False,
       Authentication AccessToken],
     ad_request =
      [in_body ''sid'' True (plain ''sid'' (FText SessionIdText)),
       in_body ''client_secret'' True (plain ''client_secret'' (FText ClientSecretText)),
       in_body ''mxid'' True (plain ''mxid'' (FText UserIdText))],
     ad_response =
      [in_body ''address'' False (plain ''address'' (FText AnyText)),
       in_body ''medium'' False (plain ''medium'' (FText AnyText)),
       in_body ''mxid'' False (plain ''mxid'' (FText UserIdText)),
       in_body ''not_before'' False (plain ''not_before'' UInt),
       in_body ''not_after'' False (plain ''not_after'' UInt),
       in_body ''ts'' False (plain ''ts'' UInt),
       in_body ''signatures'' False (plain ''signatures'' (FMap ServerNameText (FMap ServerKeyIdText (FText AnyText))))],
     ad_error = ''MatrixError''\<rparr>"

definition id_check_3pid_validity_v2_api :: api_decl where
  "id_check_3pid_validity_v2_api =
     \<lparr>ad_metadata =
      [Description ''Determines if a given 3PID has been validated by a user.'',
       Method ''GET'',
       Name ''check_3pid_validity'',
       Path ''/_matrix/identity/v2/3pid/getValidated3pid/'',
       RateLimited False,
       Authentication AccessToken],
     ad_request =
      [in_query ''sid'' True (plain ''sid'' (FText SessionIdText)),
       in_query ''client_secret'' True (plain ''client_secret'' (FText ClientSecretText))],
     ad_response =
      [in_body ''medium'' False (plain ''medium'' (FText AnyText)),
       in_body ''address'' False (plain ''address'' (FText AnyText)),
       in_body ''validated_at'' False (plain ''validated_at'' UInt)],
     ad_error = ''MatrixError''\<rparr>"

definition id_create_email_validation_session_v2_api :: api_decl where
  "id_create_email_validation_session_v2_api =
     \<lparr>ad_metadata =
      [Description ''Creates a session for validating an email address.'',
       Method ''POST'',
       Name ''create_email_validation_session'',
       Path ''/_matrix/identity/v2/validate/email/requestToken'',
       Authentication AccessToken,
       RateLimited False],
     ad_request =
      [in_body ''client_secret'' True (plain ''client_secret'' (FText ClientSecretText)),
       in_body ''email'' True (plain ''email'' (FText AnyText)),
       in_body ''send_attempt'' False (plain ''send_attempt'' UInt),
       in_body ''next_link'' True (opt ''next_link'' (FText AnyText))],
     ad_response =
      [in_body ''sid'' False (plain ''sid'' (FText SessionIdText))],
     ad_error = ''MatrixError''\<rparr>"

definition id_validate_email_v2_api :: api_decl where
  "id_validate_email_v2_api =
     \<lparr>ad_metadata =
      [Description ''Validate ownership of an email address.'',
       Method ''POST'',
       Name ''validate_email'',
       Path ''/_matrix/identity/v2/validate/email/submitToken'',
       Authentication AccessToken,
       RateLimited False],
     ad_request =
      [in_body ''sid'' True (plain ''sid'' (FText SessionIdText)),
       in_body ''client_secret'' True (plain ''client_secret'' (FText ClientSecretText)),
       in_body ''token'' True (plain ''token'' (FText AnyText))],
     ad_response =
      [in_body ''success'' False (plain ''success'' FBool)],
     ad_error = ''MatrixError''\<rparr>"

definition id_validate_email_by_end_user_v2_api :: api_decl where
  "id_validate_email_by_end_user_v2_api =
     \<lparr>ad_metadata =
      [Description ''Validate ownership of an email address.'',
       Method ''GET'',
       Name ''validate_email_by_end_user'',
       Path ''/_matrix/identity/v2/validate/email/submitToken'',
       Authentication AccessToken,
       RateLimited False],
     ad_request =
      [in_query ''sid'' True (plain ''sid'' (FText SessionIdText)),
       in_query ''client_secret'' True (plain ''client_secret'' (FText ClientSecretText)),
       in_query ''token'' True (plain ''token'' (FText AnyText))],
     ad_response =
      [],
     ad_error = ''MatrixError''\<rparr>"

definition id_create_msisdn_validation_session_v2_api :: api_decl where
  "id_create_msisdn_validation_session_v2_api =
     \<lparr>ad_metadata =
      [Description ''Creates a session for validating a phone number.'',
       Method ''POST'',
       Name ''create_msisdn_validation_session'',
       Path ''/_matrix/identity/v2/validate/msisdn/requestToken'',
       Authentication AccessToken,
       RateLimited False],
     ad_request =
      [in_body ''client_secret'' True (plain ''client_secret'' (FText ClientSecretText)),
       in_body ''country'' True (plain ''country'' (FText AnyText)),
       in_body ''phone_number'' True (plain ''phone_number'' (FText AnyText)),
       in_body ''send_attempt'' False (plain ''send_attempt'' UInt),
       in_body ''next_link'' True (opt ''next_link'' (FText AnyText))],
     ad_response =
      [in_body ''sid'' False (plain ''sid'' (FText SessionIdText))],
     ad_error = ''MatrixError''\<rparr>"

definition id_validate_msisdn_v2_api :: api_decl where
  "id_validate_msisdn_v2_api =
     \<lparr>ad_metadata =
      [Description ''Validate ownership of an phone number.'',
       Method ''POST'',
       Name ''validate_msisdn'',
       Path ''/_matrix/identity/v2/validate/msisdn/submitToken'',
       Authentication AccessToken,
       RateLimited False],
     ad_request =
      [in_body ''sid'' True (plain ''sid'' (FText SessionIdText)),
       in_body ''client_secret'' True (plain ''client_secret'' (FText ClientSecretText)),
       in_body ''token'' True (plain ''token'' (FText AnyText))],
     ad_response =
      [in_body ''success'' False (plain ''success'' FBool)],
     ad_error = ''MatrixError''\<rparr>"

definition id_validate_msisdn_by_phone_number_v2_api :: api_decl where
  "id_validate_msisdn_by_phone_number_v2_api =
     \<lparr>ad_metadata =
      [Description ''Validate ownership of an email address.'',
       Method ''GET'',
       Name ''validate_email_by_end_user'',
       Path ''/_matrix/identity/v2/validate/msisdn/submitToken'',
       Authentication AccessToken,
       RateLimited False],
     ad_request =
      [in_query ''sid'' True (plain ''sid'' (FText SessionIdText)),
       in_query ''client_secret'' True (plain ''client_secret'' (FText ClientSecretText)),
       in_query ''token'' True (plain ''token'' (FText AnyText))],
     ad_response =
      [],
     ad_error = ''MatrixError''\<rparr>"

definition id_unbind_3pid_v2_api :: api_decl where
  "id_unbind_3pid_v2_api =
     \<lparr>ad_metadata =
      [Description ''Remove an association between a session and a Matrix user ID.'',
       Method ''POST'',
       Name ''unbind_3pid'',
       Path ''/_matrix/identity/v2/3pid/unbind'',
       RateLimited False,
       Authentication AccessToken],
     ad_request =
      [in_body ''threepid_ownership_proof'' True (flat_opt ''threepid_ownership_proof''
        id_unbind_3pid_v2_ThreePidOwnershipProof),
       in_body ''mxid'' True (plain ''mxid'' (FText UserIdText)),
       in_body ''threepid'' True (plain ''threepid'' id_unbind_3pid_v2_ThirdPartyId)],
     ad_response =
      [],
     ad_error = ''MatrixError''\<rparr>"

definition id_get_account_information_v2_api :: api_decl where
  "id_get_account_information_v2_api =
     \<lparr>ad_metadata =
      [Description ''Gets information about what user owns the access token used in the request.'',
       Method ''POST'',
       Name ''get_account_information'',
       Path ''/_matrix/identity/v2/account'',
       Authentication AccessToken,
       RateLimited False],
     ad_request =
      [],
     ad_response =
      [in_body ''user_id'' False (plain ''user_id'' (FText UserIdText))],
     ad_error = ''MatrixError''\<rparr>"

definition id_logout_v2_api :: api_decl where
  "id_logout_v2_api =
     \<lparr>ad_metadata =
      [Description
        ''Logs out the access token, preventing it from being used to authenticate future requests to the server.'',
       Method ''POST'',
       Name ''logout'',
       Path ''/_matrix/identity/v2/account/logout'',
       Authentication AccessToken,
       RateLimited False],
     ad_request =
      [],
     ad_response =
      [],
     ad_error = ''MatrixError''\<rparr>"

definition id_register_v2_api :: api_decl where
  "id_register_v2_api =
     \<lparr>ad_metadata =
      [Description ''Exchanges an OpenID token from the homeserver for an access token to access the identity server.'',
       Method ''POST'',
       Name ''register_account'',
       Path ''/_matrix/identity/v2/account/register'',
       Authentication AuthNone,
       RateLimited False],
     ad_request =
      [in_body ''access_token'' True (plain ''access_token'' (FText AnyText)),
       in_body ''token_type'' False (plain ''token_type'' (FText AnyText)),
       in_body ''matrix_server_name'' True (plain ''matrix_server_name'' (FText ServerNameText)),
       in_body ''expires_in'' False (plain ''expires_in'' (FWith (FDuration 1000000000)))],
     ad_response =
      [in_body ''token'' False (plain ''token'' (FText AnyText))],
     ad_error = ''MatrixError''\<rparr>"

definition id_sign_invitation_ed25519_v2_api :: api_decl where
  "id_sign_invitation_ed25519_v2_api =
     \<lparr>ad_metadata =
      [Description ''Sign invitation details.'',
       Method ''POST'',
       Name ''sign_invitation_ed25519'',
       Path ''/_matrix/identity/v2/sign-ed25519'',
       Authentication AccessToken,
       RateLimited False],
     ad_request =
      [in_body ''mxid'' True (plain ''mxid'' (FText UserIdText)),
       in_body ''token'' True (plain ''token'' (FText AnyText)),
       in_body ''private_key'' True (plain ''private_key'' (FText AnyText))],
     ad_response =
      [in_body ''mxid'' False (plain ''mxid'' (FText UserIdText)),
       in_body ''sender'' False (plain ''sender'' (FText UserIdText)),
       in_body ''signatures'' False (plain ''signatures'' (FMap ServerNameText (FMap ServerKeyIdText (FText AnyText)))),
       in_body ''token'' False (plain ''token'' (FText AnyText))],
     ad_error = ''MatrixError''\<rparr>"

definition id_store_invitation_v2_api :: api_decl where
  "id_store_invitation_v2_api =
     \<lparr>ad_metadata =
      [Description ''Store pending invitations to a user's 3PID.'',
       Method ''POST'',
       Name ''store_invitation'',
       Path ''/_matrix/identity/v2/store-invite'',
       Authentication AccessToken,
       RateLimited False],
     ad_request =
      [in_body ''medium'' True (plain ''medium'' (FText AnyText)),
       in_body ''address'' True (plain ''address'' (FText AnyText)),
       in_body ''room_id'' True (plain ''room_id'' (FText RoomIdText)),
       in_body ''sender'' True (plain ''sender'' (FText UserIdText)),
       in_body ''room_alias'' True (opt ''room_alias'' (FText RoomAliasText)),
       in_body ''room_avatar_url'' True (opt ''room_avatar_url'' (FText AnyText)),
       in_body ''room_join_rules'' True (opt ''room_join_rules'' (FText AnyText)),
       in_body ''room_name'' True (opt ''room_name'' (FText RoomNameText)),
       in_body ''sender_display_name'' True (opt ''sender_display_name'' (FText AnyText)),
       in_body ''sender_avatar_url'' True (opt ''sender_avatar_url'' (FText AnyText))],
     ad_response =
      [in_body ''token'' False (plain ''token'' (FText AnyText)),
       in_body ''public_keys'' False (plain ''public_keys'' (FOpaque ''PublicKeys'')),
       in_body ''display_name'' False (plain ''display_name'' (FText AnyText))],
     ad_error = ''MatrixError''\<rparr>"

definition id_check_public_key_validity_v2_api :: api_decl where
  "id_check_public_key_validity_v2_api =
     \<lparr>ad_metadata =
      [Description
        ''Check whether a long-term public key is valid. The response should always be the same, provided the key exists.'',
       Method ''GET'',
       Name ''check_public_key_validity'',
       Path ''/_matrix/identity/v2/pubkey/isvalid'',
       Authentication AuthNone,
       RateLimited False],
     ad_request =
      [in_query ''public_key'' True (plain ''public_key'' (FText AnyText))],
     ad_response =
      [in_body ''valid'' False (plain ''valid'' FBool)],
     ad_error = ''MatrixError''\<rparr>"

definition id_get_public_key_v2_api :: api_decl where
  "id_get_public_key_v2_api =
     \<lparr>ad_metadata =
      [Description ''Get the public key for the given key ID.'',
       Method ''GET'',
       Name ''get_public_key'',
       Path ''/_matrix/identity/v2/pubkey/:key_id'',
       RateLimited False,
       Authentication AuthNone],
     ad_request =
      [in_path ''key_id'' True (plain ''key_id'' (FText ServerKeyIdText))],
     ad_response =
      [in_body ''public_key'' False (plain ''public_key'' (FText AnyText))],
     ad_error = ''MatrixError''\<rparr>"

definition id_validate_ephemeral_key_v2_api :: api_decl where
  "id_validate_ephemeral_key_v2_api =
     \<lparr>ad_metadata =
      [Description ''Check whether a short-term public key is valid.'',
       Method ''GET'',
       Name ''validate_ephemeral_key'',
       Path ''/_matrix/identity/v2/pubkey/ephemeral/isvalid'',
       Authentication AuthNone,
       RateLimited False],
     ad_request =
      [in_query ''public_key'' True (plain ''public_key'' (FText AnyText))],
     ad_response =
      [in_body ''valid'' False (plain ''valid'' FBool)],
     ad_error = ''MatrixError''\<rparr>"

definition id_get_hash_parameters_v2_api :: api_decl where
  "id_get_hash_parameters_v2_api =
     \<lparr>ad_metadata =
      [Description
        ''Gets parameters for hashing identifiers from the server. This can include any of the algorithms defined in the spec.'',
       Method ''GET'',
       Name ''get_hash_parameters'',
       Path ''/_matrix/identity/v2/hash_details'',
       Authentication AccessToken,
       RateLimited False],
     ad_request =
      [],
     ad_response =
      [in_body ''lookup_pepper'' False (plain ''lookup_pepper'' (FText AnyText)),
       in_body ''algorithms'' False (plain ''algorithms'' (FVec (FText AnyText)))],
     ad_error = ''MatrixError''\<rparr>"

definition id_lookup_3pid_v2_api :: api_decl where
  "id_lookup_3pid_v2_api =
     \<lparr>ad_metadata =
      [Description ''Looks up the set of Matrix User IDs which have bound the 3PIDs given, if bindings are available.'',
       Method ''POST'',
       Name ''lookup_3pid'',
       Path ''/_matrix/identity/v2/lookup'',
       Authentication AccessToken,
       RateLimited False],
     ad_request =
      [in_body ''algorithm'' True (plain ''algorithm'' (FText AnyText)),
       in_body ''pepper'' True (plain ''pepper'' (FText AnyText)),
       in_body ''addresses'' True (plain ''addresses'' (FVec (FText AnyText)))],
     ad_response =
      [in_body ''mappings'' False (plain ''mappings'' (FMap AnyText (FText UserIdText)))],
     ad_error = ''MatrixError''\<rparr>"

definition id_status_v2_api :: api_decl where
  "id_status_v2_api =
     \<lparr>ad_metadata =
      [Description ''Checks that an identity server is available at this API endpoint.'',
       Method ''GET'',
       Name ''status'',
       Path ''/_matrix/identity/v2'',
       Authentication AuthNone,
       RateLimited False],
     ad_request =
      [],
     ad_response =
      [],
     ad_error = ''MatrixError''\<rparr>"

definition id_accept_terms_of_service_v2_api :: api_decl where
  "id_accept_terms_of_service_v2_api =
     \<lparr>ad_metadata =
      [Description ''Called by a client to indicate that the user has accepted/agreed to the included set of URLs.'',
       Method ''POST'',
       Name ''accept_terms_of_service'',
       Path ''/_matrix/identity/v2/terms'',
       Authentication AccessToken,
       RateLimited False],
     ad_request =
      [in_body ''user_accepts'' False (plain ''user_accepts'' (FVec (FText AnyText)))],
     ad_response =
      [],
     ad_error = ''MatrixError''\<rparr>"

definition id_get_terms_of_service_v2_api :: api_decl where
  "id_get_terms_of_service_v2_api =
     \<lparr>ad_metadata =
      [Description ''Gets all the terms of service offered by the server.'',
       Method ''GET'',
       Name ''get_terms_of_service'',
       Path ''/_matrix/identity/v2/terms'',
       Authentication AuthNone,
       RateLimited False],
     ad_request =
      [],
     ad_response =
      [in_body ''policies'' False (plain ''policies'' (FMap AnyText id_get_terms_of_service_v2_Policies))],
     ad_error = ''MatrixError''\<rparr>"

definition as_set_room_visibility_api :: api_decl where
  "as_set_room_visibility_api =
     \<lparr>ad_metadata =
      [Description ''Updates the visibility of a given room on the application service's room directory.'',
       Method ''PUT'',
       Name ''set_room_visibility'',
       Path ''/_matrix/client/r0/directory/list/appservice/:network_id/:room_id'',
       RateLimited False,
       Authentication QueryOnlyAccessToken],
     ad_request =
      [in_path ''network_id'' False (plain ''network_id'' (FText AnyText)),
       in_path ''room_id'' False (plain ''room_id'' (FText RoomIdText)),
       in_body ''visibility'' False (plain ''visibility'' (FText AnyText))],
     ad_response =
      [],
     ad_error = ''MatrixError''\<rparr>"

definition as_push_events_v1_api :: api_decl where
  "as_push_events_v1_api =
     \<lparr>ad_metadata =
      [Description
        ''This API is called by the homeserver when it wants to push an event (or batch of events) to the application service.'',
       Method ''PUT'',
       Name ''push_events'',
       Path ''/_matrix/app/v1/transactions/:txn_id'',
       RateLimited False,
       Authentication QueryOnlyAccessToken],
     ad_request =
      [in_path ''txn_id'' True (plain ''txn_id'' (FText AnyText)),
       in_body ''events'' True (plain ''events'' (FVec FJson))],
     ad_response =
      [],
     ad_error = ''MatrixError''\<rparr>"

definition as_query_room_alias_v1_api :: api_decl where
  "as_query_room_alias_v1_api =
     \<lparr>ad_metadata =
      [Description
        ''This endpoint is invoked by the homeserver on an application service to query the existence of a given room alias.'',
       Method ''GET'',
       Name ''query_room_alias'',
       Path ''/_matrix/app/v1/rooms/:room_alias'',
       RateLimited False,
       Authentication QueryOnlyAccessToken],
     ad_request =
      [in_path ''room_alias'' True (plain ''room_alias'' (FText RoomAliasText))],
     ad_response =
      [],
     ad_error = ''MatrixError''\<rparr>"

definition as_query_user_id_v1_api :: api_decl where
  "as_query_user_id_v1_api =
     \<lparr>ad_metadata =
      [Description
        ''This endpoint is invoked by the homeserver on an application service to query the existence of a given user ID.'',
       Method ''GET'',
       Name ''query_user_id'',
       Path ''/_matrix/app/v1/users/:user_id'',
       RateLimited False,
       Authentication QueryOnlyAccessToken],
     ad_request =
      [in_path ''user_id'' True (plain ''user_id'' (FText UserIdText))],
     ad_response =
      [],
     ad_error = ''MatrixError''\<rparr>"

definition as_get_location_for_protocol_v1_api :: api_decl where
  "as_get_location_for_protocol_v1_api =
     \<lparr>ad_metadata =
      [Description ''Fetches third party locations for a protocol.'',
       Method ''GET'',
       Name ''get_location_for_protocol'',
       Path ''/_matrix/app/v1/thirdparty/location/:protocol'',
       RateLimited False,
       Authentication QueryOnlyAccessToken],
     ad_request =
      [in_path ''protocol'' True (plain ''protocol'' (FText AnyText)),
       query_map ''fields'' False (plain ''fields'' (FMap AnyText (FText AnyText)))],
     ad_response =
      [body ''locations'' False (plain ''locations'' (FVec common_thirdparty_Location))],
     ad_error = ''MatrixError''\<rparr>"

definition as_get_location_for_room_alias_v1_api :: api_decl where
  "as_get_location_for_room_alias_v1_api =
     \<lparr>ad_metadata =
      [Description ''Retrieve an array of third party network locations from a Matrix room alias.'',
       Method ''GET'',
       Name ''get_location_for_room_alias'',
       Path ''/_matrix/app/v1/thirdparty/location'',
       RateLimited False,
       Authentication QueryOnlyAccessToken],
     ad_request =
      [in_query ''alias'' True (plain ''alias'' (FText RoomAliasText))],
     ad_response =
      [body ''locations'' False (plain ''locations'' (FVec common_thirdparty_Location))],
     ad_error = ''MatrixError''\<rparr>"

definition as_get_protocol_v1_api :: api_decl where
  "as_get_protocol_v1_api =
     \<lparr>ad_metadata =
      [Description ''Fetches the metadata from the homeserver about a particular third party protocol.'',
       Method ''GET'',
       Name ''get_protocol'',
       Path ''/_matrix/app/v1/thirdparty/protocol/:protocol'',
       RateLimited False,
       Authentication QueryOnlyAccessToken],
     ad_request =
      [in_path ''protocol'' True (plain ''protocol'' (FText AnyText))],
     ad_response =
      [body ''protocol'' False (plain ''protocol'' common_thirdparty_Protocol)],
     ad_error = ''MatrixError''\<rparr>"

definition as_get_user_for_protocol_v1_api :: api_decl where
  "as_get_user_for_protocol_v1_api =
     \<lparr>ad_metadata =
      [Description ''Fetches third party users for a protocol.'',
       Method ''GET'',
       Name ''get_user_for_protocol'',
       Path ''/_matrix/app/v1/thirdparty/user/:protocol'',
       RateLimited False,
       Authentication QueryOnlyAccessToken],
     ad_request =
      [in_path ''protocol'' True (plain ''protocol'' (FText AnyText)),
       query_map ''fields'' False (plain ''fields'' (FMap AnyText (FText AnyText)))],
     ad_response =
      [body ''users'' False (plain ''users'' (FVec common_thirdparty_User))],
     ad_error = ''MatrixError''\<rparr>"

definition as_get_user_for_user_id_v1_api :: api_decl where
  "as_get_user_for_user_id_v1_api =
     \<lparr>ad_metadata =
      [Description ''Retrieve an array of third party users from a Matrix User ID.'',
       Method ''GET'',
       Name ''get_user_for_user_id'',
       Path ''/_matrix/app/v1/thirdparty/user'',
       RateLimited False,
       Authentication QueryOnlyAccessToken],
     ad_request =
      [in_query ''userid'' True (plain ''userid'' (FText UserIdText))],
     ad_response =
      [body ''users'' False (plain ''users'' (FVec common_thirdparty_User))],
     ad_error = ''MatrixError''\<rparr>"

definition push_gateway_send_event_notification_v1_api :: api_decl where
  "push_gateway_send_event_notification_v1_api =
     \<lparr>ad_metadata =
      [Description ''Notify a push gateway about an event or update the number of unread notifications a user has'',
       Name ''send_event_notification'',
       Method ''POST'',
       Path ''/_matrix/push/v1/notify'',
       RateLimited False,
       Authentication AuthNone],
     ad_request =
      [in_body ''notification'' True (plain ''notification'' push_gateway_send_event_notification_v1_Notification)],
     ad_response =
      [in_body ''rejected'' False (plain ''rejected'' (FVec (FText AnyText)))],
     ad_error = ''MatrixError''\<rparr>"

end
