(* ===== verification/Described_Apis.thy ===== *)
theory Described_Apis
  imports Http_Roundtrip Client_Endpoints Server_Endpoints
begin

text \<open>The tables of types and endpoints under the theorems of \<open>Serde_Roundtrip\<close> and \<open>Http_Roundtrip\<close>: which of them
  survive being written and read, and what happens to some that do not.\<close>

section \<open>Types\<close>

definition common_types :: "ty list" where
  "common_types =
      [common_directory_PublicRoomsChunk, common_directory_Filter, common_encryption_UnsignedDeviceInfo,
       common_encryption_DeviceKeys, common_encryption_SignedKey, common_encryption_OneTimeKey, common_encryption_KeyUsage,
       common_encryption_CrossSigningKey, common_power_levels_NotificationPowerLevels, common_push_Ruleset,
       common_push_SimplePushRule, common_condition_PushCondition, common_push_ConditionalPushRule, common_push_PatternedPushRule,
       common_push_PusherData, common_tweak_serde_SoundTweak, common_tweak_serde_HighlightTweak, common_thirdparty_FieldType,
       common_thirdparty_ProtocolInstance, common_thirdparty_Protocol, common_thirdparty_Location, common_thirdparty_User,
       common_thirdparty_ThirdPartyIdentifier, call_SessionDescription, answer_CallAnswerEventContent, candidates_Candidate,
       candidates_CallCandidatesEventContent, hangup_CallHangupEventContent, invite_CallInviteEventContent, event_kinds_OlmV1Keys,
       forwarded_room_key_ToDeviceForwardedRoomKeyEventContent, fully_read_FullyReadEventContent,
       ignored_user_list_IgnoredUserListEventContent, accept_SasV1Content, accept__CustomContent,
       cancel_ToDeviceKeyVerificationCancelEventContent, key_ToDeviceKeyVerificationKeyEventContent,
       mac_ToDeviceKeyVerificationMacEventContent, verification_request_ToDeviceKeyVerificationRequestEventContent,
       start_SasV1Content, start__CustomContent, rule_PolicyRuleEventContent, presence_PresenceEventContent,
       push_rules_PushRulesEventContent, receipt_Receipt, room_ThumbnailInfo, room_JsonWebKey, room_EncryptedFile, room_ImageInfo,
       aliases_RoomAliasesEventContent, aliases_RedactedRoomAliasesEventContent, avatar_ImageInfo, avatar_RoomAvatarEventContent,
       canonical_alias_RoomCanonicalAliasEventContent, create_PreviousRoom, create_RoomCreateEventContent,
       encrypted_CiphertextInfo, encrypted_OlmV1Curve25519AesSha2Content, encrypted_MegolmV1AesSha2Content,
       encrypted_EncryptedEventScheme, encrypted_ToDeviceRoomEncryptedEventContent, encryption_RoomEncryptionEventContent,
       guest_access_RoomGuestAccessEventContent, history_visibility_RoomHistoryVisibilityEventContent, member_SignedContent,
       member_ThirdPartyInvite, member_RoomMemberEventContent, member_RedactedRoomMemberEventContent, message_InReplyTo,
       message_AudioInfo, message_AudioMessageEventContent, message_FormattedBody, message_EmoteMessageEventContent,
       message_FileInfo, message_FileMessageEventContent, message_ImageMessageEventContent, message_LocationInfo,
       message_LocationMessageEventContent, message_NoticeMessageEventContent, message_ServerNoticeMessageEventContent,
       message_TextMessageEventContent, message_VideoInfo, message_VideoMessageEventContent, message_CustomEventContent,
       feedback_RoomMessageFeedbackEventContent, name_RoomNameEventContent, pinned_events_RoomPinnedEventsEventContent,
       redaction_RoomRedactionEventContent, server_acl_RoomServerAclEventContent, third_party_invite_PublicKey,
       third_party_invite_RoomThirdPartyInviteEventContent, tombstone_RoomTombstoneEventContent, topic_RoomTopicEventContent,
       room_key_ToDeviceRoomKeyEventContent, room_key_request_RequestedKeyInfo,
       room_key_request_ToDeviceRoomKeyRequestEventContent, sticker_StickerEventContent, tag_TagEventContent, tag_TagInfo,
       typing_TypingEventContent, unsigned_Unsigned, unsigned_RedactedUnsigned]"

lemma common_types_ok_1: "list_all ty_ok
      [common_directory_PublicRoomsChunk, common_directory_Filter, common_encryption_UnsignedDeviceInfo,
       common_encryption_DeviceKeys, common_encryption_SignedKey, common_encryption_OneTimeKey, common_encryption_KeyUsage,
       common_encryption_CrossSigningKey, common_power_levels_NotificationPowerLevels, common_push_Ruleset,
       common_push_SimplePushRule, common_condition_PushCondition, common_push_ConditionalPushRule, common_push_PatternedPushRule,
       common_push_PusherData, common_tweak_serde_SoundTweak, common_tweak_serde_HighlightTweak, common_thirdparty_FieldType,
       common_thirdparty_ProtocolInstance, common_thirdparty_Protocol, common_thirdparty_Location, common_thirdparty_User,
       common_thirdparty_ThirdPartyIdentifier, call_SessionDescription, answer_CallAnswerEventContent, candidates_Candidate,
       candidates_CallCandidatesEventContent, hangup_CallHangupEventContent, invite_CallInviteEventContent, event_kinds_OlmV1Keys]"
  by code_simp

lemma common_types_ok_2: "list_all ty_ok
      [forwarded_room_key_ToDeviceForwardedRoomKeyEventContent, fully_read_FullyReadEventContent,
       ignored_user_list_IgnoredUserListEventContent, accept_SasV1Content, accept__CustomContent,
       cancel_ToDeviceKeyVerificationCancelEventContent, key_ToDeviceKeyVerificationKeyEventContent,
       mac_ToDeviceKeyVerificationMacEventContent, verification_request_ToDeviceKeyVerificationRequestEventContent,
       start_SasV1Content, start__CustomContent, rule_PolicyRuleEventContent, presence_PresenceEventContent,
       push_rules_PushRulesEventContent, receipt_Receipt, room_ThumbnailInfo, room_JsonWebKey, room_EncryptedFile, room_ImageInfo,
       aliases_RoomAliasesEventContent, aliases_RedactedRoomAliasesEventContent, avatar_ImageInfo, avatar_RoomAvatarEventContent,
       canonical_alias_RoomCanonicalAliasEventContent, create_PreviousRoom, create_RoomCreateEventContent,
       encrypted_CiphertextInfo, encrypted_OlmV1Curve25519AesSha2Content, encrypted_MegolmV1AesSha2Content,
       encrypted_EncryptedEventScheme]"
  by code_simp

lemma common_types_ok_3: "list_all ty_ok
      [encrypted_ToDeviceRoomEncryptedEventContent, encryption_RoomEncryptionEventContent,
       guest_access_RoomGuestAccessEventContent, history_visibility_RoomHistoryVisibilityEventContent, member_SignedContent,
       member_ThirdPartyInvite, member_RoomMemberEventContent, member_RedactedRoomMemberEventContent, message_InReplyTo,
       message_AudioInfo, message_AudioMessageEventContent, message_FormattedBody, message_EmoteMessageEventContent,
       message_FileInfo, message_FileMessageEventContent, message_ImageMessageEventContent, message_LocationInfo,
       message_LocationMessageEventContent, message_NoticeMessageEventContent, message_ServerNoticeMessageEventContent,
       message_TextMessageEventContent, message_VideoInfo, message_VideoMessageEventContent, message_CustomEventContent,
       feedback_RoomMessageFeedbackEventContent, name_RoomNameEventContent, pinned_events_RoomPinnedEventsEventContent,
       redaction_RoomRedactionEventContent, server_acl_RoomServerAclEventContent, third_party_invite_PublicKey]"
  by code_simp

lemma common_types_ok_4: "list_all ty_ok
      [third_party_invite_RoomThirdPartyInviteEventContent, tombstone_RoomTombstoneEventContent, topic_RoomTopicEventContent,
       room_key_ToDeviceRoomKeyEventContent, room_key_request_RequestedKeyInfo,
       room_key_request_ToDeviceRoomKeyRequestEventContent, sticker_StickerEventContent, tag_TagEventContent, tag_TagInfo,
       typing_TypingEventContent, unsigned_Unsigned, unsigned_RedactedUnsigned]"
  by code_simp

lemma common_types_ok_all: "list_all ty_ok common_types"
  unfolding common_types_def using common_types_ok_1 common_types_ok_2 common_types_ok_3 common_types_ok_4 by simp

definition client_types :: "ty list" where
  "client_types =
      [account_IdentityServerInfo, register_RegistrationKind, capabilities_ChangePasswordCapability,
       capabilities_RoomVersionsCapability, capabilities_Capabilities, device_Device, directory_PublicRoomsChunk, filter_Filter,
       membership_ThirdPartySigned, membership_Invite3pid, invite_user_InvitationRecipient, joined_members_RoomMember,
       get_message_events_Direction, push_PushRule, get_notifications_Notification, get_pushers_Pusher, set_pusher_Pusher,
       create_room_CreationContent, search_events_EventContext, search_events_Grouping, search_events_Groupings,
       search_events_UserProfile, search_events_EventContextResult, search_events_ResultGroup, get_user_info_ConnectionInfo,
       get_user_info_SessionInfo, get_user_info_DeviceInfo, get_login_types_PasswordLoginType, get_login_types_TokenLoginType,
       get_login_types_SsoLoginType, get_login_types_CustomLoginType, login_Password, login_Token, login_HomeserverInfo,
       login_IdentityServerInfo, login_DiscoveryInfo, sync_events_Timeline, sync_events_State, sync_events_RoomAccountData,
       sync_events_RoomSummary, sync_events_UnreadNotificationsCount, sync_events_Ephemeral, sync_events_InviteState,
       sync_events_InvitedRoom, sync_events_GlobalAccountData, sync_events_Presence, sync_events_ToDevice,
       sync_events_DeviceLists, create_typing_event_TypingInner, uiaa_Password, uiaa_ReCaptcha, uiaa_Token, uiaa_OAuth2,
       uiaa_ThirdpartyIdCredentials, uiaa_EmailIdentity, uiaa_Msisdn, uiaa_Dummy, uiaa_FallbackAcknowledgement, uiaa_AuthFlow,
       user_serde_UserIdentifier, search_users_User, discover_homeserver_HomeserverInfo, discover_homeserver_IdentityServerInfo]"

lemma client_types_ok_1: "list_all ty_ok
      [account_IdentityServerInfo, register_RegistrationKind, capabilities_ChangePasswordCapability,
       capabilities_RoomVersionsCapability, capabilities_Capabilities, device_Device, directory_PublicRoomsChunk, filter_Filter,
       membership_ThirdPartySigned, membership_Invite3pid, invite_user_InvitationRecipient, joined_members_RoomMember,
       get_message_events_Direction, push_PushRule, get_notifications_Notification, get_pushers_Pusher, set_pusher_Pusher,
       create_room_CreationContent, search_events_EventContext, search_events_Grouping, search_events_Groupings,
       search_events_UserProfile, search_events_EventContextResult, search_events_ResultGroup, get_user_info_ConnectionInfo,
       get_user_info_SessionInfo, get_user_info_DeviceInfo, get_login_types_PasswordLoginType, get_login_types_TokenLoginType,
       get_login_types_SsoLoginType]"
  by code_simp

lemma client_types_ok_2: "list_all ty_ok
      [get_login_types_CustomLoginType, login_Password, login_Token, login_HomeserverInfo, login_IdentityServerInfo,
       login_DiscoveryInfo, sync_events_Timeline, sync_events_State, sync_events_RoomAccountData, sync_events_RoomSummary,
       sync_events_UnreadNotificationsCount, sync_events_Ephemeral, sync_events_InviteState, sync_events_InvitedRoom,
       sync_events_GlobalAccountData, sync_events_Presence, sync_events_ToDevice, sync_events_DeviceLists,
       create_typing_event_TypingInner, uiaa_Password, uiaa_ReCaptcha, uiaa_Token, uiaa_OAuth2, uiaa_ThirdpartyIdCredentials,
       uiaa_EmailIdentity, uiaa_Msisdn, uiaa_Dummy, uiaa_FallbackAcknowledgement, uiaa_AuthFlow, user_serde_UserIdentifier]"
  by code_simp

lemma client_types_ok_3: "list_all ty_ok
      [search_users_User, discover_homeserver_HomeserverInfo, discover_homeserver_IdentityServerInfo]"
  by code_simp

lemma client_types_ok_all: "list_all ty_ok client_types"
  unfolding client_types_def using client_types_ok_1 client_types_ok_2 client_types_ok_3 by simp

definition server_types :: "ty list" where
  "server_types =
      [fed_get_devices_v1_UserDevice, fed_discovery_VerifyKey, fed_discovery_OldVerifyKey, fed_discovery_ServerSigningKeys,
       fed_get_remote_server_keys_batch_v2_QueryCriteria, fed_get_server_version_v1_Server, fed_claim_keys_v1_KeyObject,
       fed_create_join_event_RoomState, fed_create_leave_event_v1_Empty, fed_pdu_process_response_WrappedError,
       fed_bind_callback_v1_ThirdPartyInvite, fed_edu_PresenceUpdate, fed_edu_PresenceContent, fed_edu_ReceiptData,
       fed_edu_ReceiptMap, fed_edu_ReceiptContent, fed_edu_TypingContent, fed_edu_DeviceListUpdateContent,
       fed_edu_DirectDeviceContent, id_unbind_3pid_v2_ThirdPartyId, id_unbind_3pid_v2_ThreePidOwnershipProof,
       id_get_terms_of_service_v2_LocalizedPolicy, id_get_terms_of_service_v2_Policies, as_Namespace, as_Namespaces,
       as_Registration, push_gateway_send_event_notification_v1_NotificationCounts]"

lemma server_types_ok_1: "list_all ty_ok
      [fed_get_devices_v1_UserDevice, fed_discovery_VerifyKey, fed_discovery_OldVerifyKey, fed_discovery_ServerSigningKeys,
       fed_get_remote_server_keys_batch_v2_QueryCriteria, fed_get_server_version_v1_Server, fed_claim_keys_v1_KeyObject,
       fed_create_join_event_RoomState, fed_create_leave_event_v1_Empty, fed_pdu_process_response_WrappedError,
       fed_bind_callback_v1_ThirdPartyInvite, fed_edu_PresenceUpdate, fed_edu_PresenceContent, fed_edu_ReceiptData,
       fed_edu_ReceiptMap, fed_edu_ReceiptContent, fed_edu_TypingContent, fed_edu_DeviceListUpdateContent,
       fed_edu_DirectDeviceContent, id_unbind_3pid_v2_ThirdPartyId, id_unbind_3pid_v2_ThreePidOwnershipProof,
       id_get_terms_of_service_v2_LocalizedPolicy, id_get_terms_of_service_v2_Policies, as_Namespace, as_Namespaces,
       as_Registration, push_gateway_send_event_notification_v1_NotificationCounts]"
  by code_simp

lemma server_types_ok_all: "list_all ty_ok server_types"
  unfolding server_types_def using server_types_ok_1 by simp

text \<open>The types whose values are not all read back, each with a value that is not: data of a custom variant with the fields
  of another variant, and fields that are skipped although they are not at their default or have none.\<close>

definition custom_accept :: val where
  "custom_accept = VVariant 1 (VStruct [VText ''x'', VMap [(''commitment'', VJson (JString [])), (''hash'', VJson (JString [])),
     (''key_agreement_protocol'', VJson (JString [])), (''message_authentication_code'', VJson (JString [])),
     (''short_authentication_string'', VJson (JArray []))]])"

definition custom_start :: val where
  "custom_start = VVariant 1 (VStruct [VText ''x'', VMap [(''hashes'', VJson (JArray [])), (''key_agreement_protocols'', VJson (JArray [])),
     (''message_authentication_codes'', VJson (JArray [])), (''short_authentication_string'', VJson (JArray []))]])"

definition left_room :: val where
  "left_room = VStruct [VStruct [VBool True, VNone, VVec []], VStruct [VVec []], VStruct [VVec []]]"

definition lossy_values :: "(ty \<times> val) list" where
  "lossy_values =
      [(common_tweak_serde_Tweak, VVariant 2 (VStruct [VText ''x'', VJson (JString ''y'')])),
       (accept_AcceptMethod, custom_accept),
       (accept_ToDeviceKeyVerificationAcceptEventContent, VStruct [VText ''t'', custom_accept]),
       (start_StartMethod, custom_start),
       (start_ToDeviceKeyVerificationStartEventContent, VStruct [VText ''d'', VText ''t'', custom_start]),
       (search_events_SearchResult, VStruct [VStruct [VNone, VVec [], VVec [], VMap [], VNone], VNone, VNone]),
       (sync_events_LeftRoom, left_room),
       (sync_events_JoinedRoom, VStruct [VStruct [VVec [], VNone, VNone], VStruct [VNone, VNone], VStruct [VBool True, VNone, VVec []],
         VStruct [VVec []], VStruct [VVec []], VStruct [VVec []]]),
       (sync_events_Rooms, VStruct [VMap [(''!r:h'', left_room)], VMap [], VMap []]),
       (fed_create_invite_v1_UnsignedEventContent, VStruct [VVec []])]"

definition lossy_types :: "ty list" where
  "lossy_types = map fst lossy_values"

definition lost :: "ty \<times> val \<Rightarrow> bool" where
  "lost = (\<lambda>(t, v). has_type sample_env t v \<and> (case ser t v of Ok j \<Rightarrow> de sample_env t j \<noteq> Ok v | _ \<Rightarrow> True))"

lemma lossy_values_lost: "list_all lost lossy_values"
  by code_simp

text \<open>The remaining types contain values with hand-written serialization (\<open>FOpaque\<close>), and other such fields beside them.\<close>

fun no_opaque :: "ty \<Rightarrow> bool" and no_opaques :: "ty list \<Rightarrow> bool" and no_opaque_fields :: "field list \<Rightarrow> bool"
  and no_opaque_variants :: "(string \<times> ty) list \<Rightarrow> bool" where
  "no_opaque (FOpaque n) = False"
| "no_opaque (FOpt t) = no_opaque t"
| "no_opaque (FWith t) = no_opaque t"
| "no_opaque (FVec t) = no_opaque t"
| "no_opaque (FMap k t) = no_opaque t"
| "no_opaque (FSingle t) = no_opaque t"
| "no_opaque (FV1Pdu t) = no_opaque t"
| "no_opaque (FEmptyNone t) = no_opaque t"
| "no_opaque (FStruct tag fs) = no_opaque_fields fs"
| "no_opaque (FTagged tag vs) = no_opaque_variants vs"
| "no_opaque (FAdjacent tag c vs) = no_opaque_variants vs"
| "no_opaque (FUntagged ts) = no_opaques ts"
| "no_opaque t = True"
| "no_opaques [] = True"
| "no_opaques (t # ts) = (no_opaque t \<and> no_opaques ts)"
| "no_opaque_fields [] = True"
| "no_opaque_fields (Field n t sk d fl # fs) = (no_opaque t \<and> no_opaque_fields fs)"
| "no_opaque_variants [] = True"
| "no_opaque_variants (v # vs) = (no_opaque (snd v) \<and> no_opaque_variants vs)"

definition opaque_types :: "ty list" where
  "opaque_types =
      [encrypted_RoomEncryptedEventContent, error_ErrorBody, filter_RoomEventFilter, search_events_Criteria,
       search_events_Categories, search_events_ResultRoomEvents, search_events_ResultCategories, uiaa_UiaaInfo,
       push_gateway_send_event_notification_v1_Device, push_gateway_send_event_notification_v1_Notification]"

lemma opaque_types_all: "list_all (\<lambda>t. \<not> no_opaque t) opaque_types"
  by code_simp

definition described_types :: "ty list" where
  "described_types = common_types @ client_types @ server_types @ lossy_types @ opaque_types"

lemma described_types_ok:
  assumes "t \<in> set described_types" "no_opaque t"
  shows "ty_ok t \<or> t \<in> set lossy_types"
proof -
  have "list_all ty_ok (common_types @ client_types @ server_types)"
    using common_types_ok_all client_types_ok_all server_types_ok_all by simp
  then show ?thesis using assms opaque_types_all by (auto simp: described_types_def list_all_iff)
qed

section \<open>Endpoints\<close>

definition api_ok :: "api_decl \<Rightarrow> bool" where
  "api_ok api \<longleftrightarrow> (case expand_api api of Ok ep \<Rightarrow> request_ok ep \<and> response_ok ep | _ \<Rightarrow> False)"

definition client_apis :: "api_decl list" where
  "client_apis =
      [add_3pid_api, bind_3pid_api, change_password_api, deactivate_api, delete_3pid_api, get_3pids_api,
       get_username_availability_api, register_api, request_3pid_management_token_via_email_api,
       request_3pid_management_token_via_msisdn_api, request_openid_token_api, request_password_change_token_via_email_api,
       request_password_change_token_via_msisdn_api, request_registration_token_via_email_api,
       request_registration_token_via_msisdn_api, unbind_3pid_api, whoami_api, create_alias_api, delete_alias_api, get_alias_api,
       appservice_set_room_visibility_api, get_capabilities_api, get_global_account_data_api, get_room_account_data_api,
       set_global_account_data_api, set_room_account_data_api, get_context_api, delete_device_api, delete_devices_api,
       get_device_api, get_devices_api, update_device_api, get_public_rooms_api, get_room_visibility_api, set_room_visibility_api,
       create_filter_api, get_filter_api, claim_keys_api, get_key_changes_api, get_keys_api, upload_keys_api, create_content_api,
       get_content_api, get_content_as_filename_api, get_content_thumbnail_api, get_media_config_api, get_media_preview_api,
       ban_user_api, forget_room_api, get_member_events_api, invite_user_api, join_room_by_id_api, join_room_by_id_or_alias_api,
       joined_members_api, joined_rooms_api, kick_user_api, leave_room_api, unban_user_api, get_message_events_api,
       send_message_event_api, get_presence_api, set_presence_api, get_avatar_url_api, get_display_name_api, get_profile_api,
       set_avatar_url_api, set_display_name_api, delete_pushrule_api, get_notifications_api, get_pushers_api, get_pushrule_api,
       get_pushrule_actions_api, get_pushrule_enabled_api, get_pushrules_all_api, get_pushrules_global_scope_api, set_pusher_api,
       set_pushrule_api, set_pushrule_actions_api, set_pushrule_enabled_api, set_read_marker_api, create_receipt_api,
       redact_event_api, aliases_api, create_room_api, get_room_event_api, report_content_api, upgrade_room_api,
       get_user_info_api, get_login_types_api, login_fallback_api, logout_api, logout_all_api, sso_login_api,
       get_state_events_api, get_state_events_for_key_api, send_state_event_api, create_tag_api, delete_tag_api, get_tags_api,
       get_location_for_protocol_api, get_location_for_room_alias_api, get_protocol_api, get_protocols_api,
       get_user_for_protocol_api, get_user_for_user_id_api, send_event_to_device_api, get_uiaa_fallback_page_api,
       search_users_api, get_turn_server_info_api, discover_homeserver_api, get_supported_versions_api]"

lemma client_apis_ok_1: "list_all api_ok
      [add_3pid_api, bind_3pid_api, change_password_api, deactivate_api, delete_3pid_api, get_3pids_api,
       get_username_availability_api, register_api, request_3pid_management_token_via_email_api,
       request_3pid_management_token_via_msisdn_api, request_openid_token_api, request_password_change_token_via_email_api,
       request_password_change_token_via_msisdn_api, request_registration_token_via_email_api]"
  by code_simp

lemma client_apis_ok_2: "list_all api_ok
      [request_registration_token_via_msisdn_api, unbind_3pid_api, whoami_api, create_alias_api, delete_alias_api, get_alias_api,
       appservice_set_room_visibility_api, get_capabilities_api, get_global_account_data_api, get_room_account_data_api,
       set_global_account_data_api, set_room_account_data_api, get_context_api, delete_device_api]"
  by code_simp

lemma client_apis_ok_3: "list_all api_ok
      [delete_devices_api, get_device_api, get_devices_api, update_device_api, get_public_rooms_api, get_room_visibility_api,
       set_room_visibility_api, create_filter_api, get_filter_api, claim_keys_api, get_key_changes_api, get_keys_api,
       upload_keys_api, create_content_api]"
  by code_simp

lemma client_apis_ok_4: "list_all api_ok
      [get_content_api, get_content_as_filename_api, get_content_thumbnail_api, get_media_config_api, get_media_preview_api,
       ban_user_api, forget_room_api, get_member_events_api, invite_user_api, join_room_by_id_api, join_room_by_id_or_alias_api,
       joined_members_api, joined_rooms_api, kick_user_api]"
  by code_simp

lemma client_apis_ok_5: "list_all api_ok
      [leave_room_api, unban_user_api, get_message_events_api, send_message_event_api, get_presence_api, set_presence_api,
       get_avatar_url_api, get_display_name_api, get_profile_api, set_avatar_url_api, set_display_name_api, delete_pushrule_api,
       get_notifications_api, get_pushers_api]"
  by code_simp

lemma client_apis_ok_6: "list_all api_ok
      [get_pushrule_api, get_pushrule_actions_api, get_pushrule_enabled_api, get_pushrules_all_api,
       get_pushrules_global_scope_api, set_pusher_api, set_pushrule_api, set_pushrule_actions_api, set_pushrule_enabled_api,
       set_read_marker_api, create_receipt_api, redact_event_api, aliases_api, create_room_api]"
  by code_simp

lemma client_apis_ok_7: "list_all api_ok
      [get_room_event_api, report_content_api, upgrade_room_api, get_user_info_api, get_login_types_api, login_fallback_api,
       logout_api, logout_all_api, sso_login_api, get_state_events_api, get_state_events_for_key_api, send_state_event_api,
       create_tag_api, delete_tag_api]"
  by code_simp

lemma client_apis_ok_8: "list_all api_ok
      [get_tags_api, get_location_for_protocol_api, get_location_for_room_alias_api, get_protocol_api, get_protocols_api,
       get_user_for_protocol_api, get_user_for_user_id_api, send_event_to_device_api, get_uiaa_fallback_page_api,
       search_users_api, get_turn_server_info_api, discover_homeserver_api, get_supported_versions_api]"
  by code_simp

lemma client_apis_ok_all: "list_all api_ok client_apis"
  unfolding client_apis_def using client_apis_ok_1 client_apis_ok_2 client_apis_ok_3 client_apis_ok_4 client_apis_ok_5 client_apis_ok_6 client_apis_ok_7 client_apis_ok_8 by simp

definition server_apis :: "api_decl list" where
  "server_apis =
      [fed_get_event_authorization_v1_api, fed_get_devices_v1_api, fed_discover_homeserver_api,
       fed_get_remote_server_keys_batch_v2_api, fed_get_server_keys_v2_api, fed_get_server_version_v1_api, fed_get_event_v1_api,
       fed_get_missing_events_v1_api, fed_get_room_state_v1_api, fed_get_room_state_ids_v1_api, fed_claim_keys_v1_api,
       fed_get_keys_v1_api, fed_create_invite_v2_api, fed_create_join_event_v1_api, fed_create_join_event_v2_api,
       fed_create_leave_event_v2_api, fed_get_leave_event_v1_api, fed_get_openid_userinfo_v1_api,
       fed_get_custom_information_v1_api, fed_get_profile_information_v1_api, fed_get_room_information_v1_api,
       fed_bind_callback_v1_api, fed_exchange_invite_v1_api, fed_send_transaction_message_v1_api, id_bind_3pid_v2_api,
       id_check_3pid_validity_v2_api, id_create_email_validation_session_v2_api, id_validate_email_v2_api,
       id_validate_email_by_end_user_v2_api, id_create_msisdn_validation_session_v2_api, id_validate_msisdn_v2_api,
       id_validate_msisdn_by_phone_number_v2_api, id_unbind_3pid_v2_api, id_get_account_information_v2_api, id_logout_v2_api,
       id_register_v2_api, id_sign_invitation_ed25519_v2_api, id_store_invitation_v2_api, id_check_public_key_validity_v2_api,
       id_get_public_key_v2_api, id_validate_ephemeral_key_v2_api, id_get_hash_parameters_v2_api, id_lookup_3pid_v2_api,
       id_status_v2_api, id_accept_terms_of_service_v2_api, id_get_terms_of_service_v2_api, as_set_room_visibility_api,
       as_push_events_v1_api, as_query_room_alias_v1_api, as_query_user_id_v1_api, as_get_location_for_protocol_v1_api,
       as_get_location_for_room_alias_v1_api, as_get_protocol_v1_api, as_get_user_for_protocol_v1_api,
       as_get_user_for_user_id_v1_api]"

lemma server_apis_ok_1: "list_all api_ok
      [fed_get_event_authorization_v1_api, fed_get_devices_v1_api, fed_discover_homeserver_api,
       fed_get_remote_server_keys_batch_v2_api, fed_get_server_keys_v2_api, fed_get_server_version_v1_api, fed_get_event_v1_api,
       fed_get_missing_events_v1_api, fed_get_room_state_v1_api, fed_get_room_state_ids_v1_api, fed_claim_keys_v1_api,
       fed_get_keys_v1_api, fed_create_invite_v2_api, fed_create_join_event_v1_api]"
  by code_simp

lemma server_apis_ok_2: "list_all api_ok
      [fed_create_join_event_v2_api, fed_create_leave_event_v2_api, fed_get_leave_event_v1_api, fed_get_openid_userinfo_v1_api,
       fed_get_custom_information_v1_api, fed_get_profile_information_v1_api, fed_get_room_information_v1_api,
       fed_bind_callback_v1_api, fed_exchange_invite_v1_api, fed_send_transaction_message_v1_api, id_bind_3pid_v2_api,
       id_check_3pid_validity_v2_api, id_create_email_validation_session_v2_api, id_validate_email_v2_api]"
  by code_simp

lemma server_apis_ok_3: "list_all api_ok
      [id_validate_email_by_end_user_v2_api, id_create_msisdn_validation_session_v2_api, id_validate_msisdn_v2_api,
       id_validate_msisdn_by_phone_number_v2_api, id_unbind_3pid_v2_api, id_get_account_information_v2_api, id_logout_v2_api,
       id_register_v2_api, id_sign_invitation_ed25519_v2_api, id_store_invitation_v2_api, id_check_public_key_validity_v2_api,
       id_get_public_key_v2_api, id_validate_ephemeral_key_v2_api, id_get_hash_parameters_v2_api]"
  by code_simp

lemma server_apis_ok_4: "list_all api_ok
      [id_lookup_3pid_v2_api, id_status_v2_api, id_accept_terms_of_service_v2_api, id_get_terms_of_service_v2_api,
       as_set_room_visibility_api, as_push_events_v1_api, as_query_room_alias_v1_api, as_query_user_id_v1_api,
       as_get_location_for_protocol_v1_api, as_get_location_for_room_alias_v1_api, as_get_protocol_v1_api,
       as_get_user_for_protocol_v1_api, as_get_user_for_user_id_v1_api]"
  by code_simp

lemma server_apis_ok_all: "list_all api_ok server_apis"
  unfolding server_apis_def using server_apis_ok_1 server_apis_ok_2 server_apis_ok_3 server_apis_ok_4 by simp

text \<open>The endpoints for which the theorems on requests and responses say nothing, because of a field that is not read back
  or a type with hand-written serialization; the macro accepts them as well.\<close>

definition other_apis :: "api_decl list" where
  "other_apis =
      [search_events_api, login_api, sync_events_api, create_typing_event_api, fed_get_backfill_v1_api, fed_create_invite_v1_api,
       fed_create_join_event_template_v1_api, fed_create_leave_event_v1_api, push_gateway_send_event_notification_v1_api]"

lemma other_apis_accepted: "list_all (\<lambda>api. is_ok (expand_api api) \<and> \<not> api_ok api) other_apis"
  by code_simp

text \<open>So the macro accepts every endpoint of the tables.\<close>

lemma all_apis_accepted: "list_all (\<lambda>api. is_ok (expand_api api)) (client_apis @ server_apis @ other_apis)"
proof -
  have "is_ok (expand_api api)" if "api_ok api" for api using that by (auto simp: api_ok_def split: result.splits)
  then have "list_all (\<lambda>api. is_ok (expand_api api)) (client_apis @ server_apis)"
    using client_apis_ok_all server_apis_ok_all by (auto simp: list_all_iff)
  then show ?thesis using other_apis_accepted by (auto simp: list_all_iff)
qed

end
