(* ===== verification/Api_Properties.thy ===== *)
theory Api_Properties
  imports Described_Apis
begin

text \<open>What the generated conversions promise on the declarations of the repository: round trips of requests, responses and
  types, where the access token goes, and the endpoints that fail.\<close>

section \<open>Requests and responses over HTTP\<close>

text \<open>C4. A request of an expanded endpoint becomes an HTTP request, and the generated incoming conversion reads from it
  the same field values: path variables, query, headers and body come back, whatever kinds of fields the endpoint mixes.
  The conditions are that the declaration is readable (\<open>request_ok\<close>), the values have their types (in the query, no absent
  value of a JSON filter), the libraries keep their laws, the base URL has no path, and the content type is not absent
  where the request has one as a field (\<open>request_io\<close>).\<close>

theorem request_roundtrip:
  assumes "expand_api api = Ok ep" "request_ok ep" "request_vals IO ep vals" "request_io IO ep vals base_url access_token"
  shows "\<exists>req. try_into_http_request IO ep vals base_url access_token = Ok req \<and> try_from_http_request IO ep req = Ok vals"
  by (rule request_read[OF assms])

lemma request_roundtrip_witness:
  "\<exists>req. try_into_http_request (sample_io (JObject []) ''{}'' [(''server_name'', ''h.org'')] ''server_name=h.org'')
      (expanded_api join_room_by_id_or_alias_api) [VText ''!r:h.org'', VVec [VText ''h.org''], VNone] ''https://h.org/''
      (IfRequired ''tok'') = Ok req
    \<and> try_from_http_request (sample_io (JObject []) ''{}'' [(''server_name'', ''h.org'')] ''server_name=h.org'')
      (expanded_api join_room_by_id_or_alias_api) req = Ok [VText ''!r:h.org'', VVec [VText ''h.org''], VNone]"
proof (rule request_roundtrip[OF expanded_api_eq])
  show "is_ok (expand_api join_room_by_id_or_alias_api)" by code_simp
  show "request_ok (expanded_api join_room_by_id_or_alias_api)" by code_simp
  show "request_vals (sample_io (JObject []) ''{}'' [(''server_name'', ''h.org'')] ''server_name=h.org'')
      (expanded_api join_room_by_id_or_alias_api) [VText ''!r:h.org'', VVec [VText ''h.org''], VNone]" by code_simp
  show "request_io (sample_io (JObject []) ''{}'' [(''server_name'', ''h.org'')] ''server_name=h.org'')
      (expanded_api join_room_by_id_or_alias_api) [VText ''!r:h.org'', VVec [VText ''h.org''], VNone] ''https://h.org/''
      (IfRequired ''tok'')" by code_simp
qed



section \<open>Types\<close>



section \<open>Accepted declarations do not go wrong\<close>

lemma ser_neq_Panic:
  "ser t v \<noteq> Panic" "ser_fields fs vs m \<noteq> Panic" "ser_variant variants i v \<noteq> Panic" "ser_untagged ts i v \<noteq> Panic"
proof (induction t v and fs vs m and variants i v and ts i v rule: ser_ser_fields_ser_variant_ser_untagged.induct)
qed (auto simp: and_then_eq_Panic with_modules add_tag_def flatten_into_def dest!: map_res_PanicD
      split: val.splits json.splits nat.splits if_splits)

lemma put_headers_neq_Panic: "put_headers IO hfs hs \<noteq> Panic"
  by (induction IO hfs hs rule: put_headers.induct) (auto simp: and_then_eq_Panic put_header_def split: val.splits if_splits)

lemma authorize_neq_Panic: "authorize IO auth tok hs \<noteq> Panic"
  by (cases auth) (auto simp: authorize_def and_then_eq_Panic put_header_def split: option.splits)

lemma to_string_neq_Panic: "to_string F v \<noteq> Panic"
  using url_serialize_neq_Panic by (auto simp: to_string_def and_then_eq_Panic)

lemma map_err_eq_Panic: "map_err f r = Panic \<longleftrightarrow> r = Panic"
  by (cases r) simp_all

lemma request_path_neq_Panic:
  assumes "expand_api api = Ok ep"
  shows "request_path_string IO ep vals \<noteq> Panic"
proof (cases "has_path_fields (ep_request ep)")
  case True
  then obtain q where "format_path (\<lambda>_. []) (md_path (ep_meta ep)) = (Ok q :: (string, macro_error) result)"
    using expanded(3)[OF assms] by blast
  from format_path_any[OF this]
  obtain q' where "format_path (path_argument IO (ep_request ep) vals) (md_path (ep_meta ep)) = (Ok q' :: (string, into_http_error) result)"
    by blast
  then show ?thesis by (simp add: request_path_string_def)
qed (simp add: request_path_string_def)

lemma expanded_request_check:
  "expand_api api = Ok ep \<Longrightarrow> \<exists>b. request_check (md_method (ep_meta ep)) b (ep_request ep) = Ok ()"
  by (auto simp: expand_api_def expand_derive_request_def Let_def res_simps split: if_splits)

lemma get_request_body:
  assumes "expand_api api = Ok ep" "md_method (ep_meta ep) = ''GET''"
  shows "request_body IO ep vals = Ok []"
proof -
  let ?fs = "ep_request ep"
  obtain b where "request_check ''GET'' b ?fs = Ok ()" using expanded_request_check[OF assms(1)] assms(2) by auto
  then have "\<not> list_ex (\<lambda>f. af_kind f = RBody) ?fs" "of_kind (\<lambda>k. k = RNewtypeBody \<or> k = RRawBody) ?fs = []"
    using at_most_one[of "of_kind (\<lambda>k. k = RNewtypeBody \<or> k = RRawBody) ?fs"]
    by (auto simp: request_check_def Let_def split: if_splits)
  then have k: "af_kind f \<notin> {RBody, RNewtypeBody, RRawBody}" if "f \<in> set ?fs" for f
    using that by (auto simp: list_ex_iff of_kind_def filter_empty_conv)
  have part: "request_part (af_kind f) = NoBody" if "f \<in> set ?fs" for f
    using k[OF that] by (cases "af_kind f") auto
  then have "\<not> has_body_fields request_part ?fs" by (auto simp: has_body_fields_def list_ex_iff)
  moreover have "fields_with (\<lambda>k. request_part k = RawBody) ?fs vals = []"
    using part by (auto simp: fields_with_def filter_empty_conv dest: set_zip_leftD)
  ultimately show ?thesis by (simp add: request_body_def raw_body_def)
qed

text \<open>C36. Endpoints that the macro accepts do not go wrong: whatever the values of the fields, the base URL and the token
  are, the conversion into an HTTP request does not panic, since the assertions on the path were made when the macro ran and
  the query serializer never fails to print; the request has the declared method, and a GET request has no body.\<close>

theorem accepted_requests_safe:
  assumes "expand_api api = Ok ep"
  shows "try_into_http_request IO ep vals base_url access_token \<noteq> Panic
    \<and> (\<forall>req. try_into_http_request IO ep vals base_url access_token = Ok req \<longrightarrow>
        hq_method req = md_method (ep_meta ep) \<and> (hq_method req = ''GET'' \<longrightarrow> hq_body req = []))"
proof (intro conjI allI impI)
  have "request_query_string IO ep vals \<noteq> Panic"
    using to_string_neq_Panic by (auto simp: request_query_string_def res_simps map_err_eq_Panic split: option.splits)
  moreover have "request_headers IO ep vals access_token \<noteq> Panic"
    by (simp add: request_headers_def Let_def and_then_eq_Panic put_headers_neq_Panic authorize_neq_Panic)
  moreover have "request_body IO ep vals \<noteq> Panic"
    using ser_neq_Panic(1) by (auto simp: request_body_def json_body_def res_simps map_err_eq_Panic split: option.splits)
  ultimately show "try_into_http_request IO ep vals base_url access_token \<noteq> Panic"
    using request_path_neq_Panic[OF assms] by (auto simp: try_into_http_request_def and_then_eq_Panic Let_def split: if_splits)
next
  fix req assume r: "try_into_http_request IO ep vals base_url access_token = Ok req"
  then show m: "hq_method req = md_method (ep_meta ep)"
    by (auto simp: try_into_http_request_def and_then_eq_Ok Let_def split: if_splits)
  assume "hq_method req = ''GET''"
  then have "request_body IO ep vals = Ok []" using m by (intro get_request_body[OF assms]) simp
  then show "hq_body req = []" using r by (auto simp: try_into_http_request_def and_then_eq_Ok Let_def split: if_splits)
qed

lemma accepted_requests_safe_witness:
  "\<exists>req. try_into_http_request (sample_io (JObject []) ''{}'' [] []) (expanded_api get_content_api)
      [VText ''m'', VText ''h.org'', VBool True] ''https://h.org'' NoToken = Ok req \<and> hq_body req = []"
proof -
  let ?r = "try_into_http_request (sample_io (JObject []) ''{}'' [] []) (expanded_api get_content_api)
      [VText ''m'', VText ''h.org'', VBool True] ''https://h.org'' NoToken"
  have "is_ok ?r" by code_simp
  then obtain req where r: "?r = Ok req" by (auto simp: res_simps)
  have "md_method (ep_meta (expanded_api get_content_api)) = ''GET''" by code_simp
  moreover have "expand_api get_content_api = Ok (expanded_api get_content_api)" by (rule expanded_api_eq) code_simp
  ultimately show ?thesis using accepted_requests_safe[of get_content_api, THEN conjunct2, rule_format, OF _ r] r by auto
qed

section \<open>Access tokens\<close>

text \<open>C37. The access token goes where the authentication scheme of the endpoint says, as the bearer token of the
  authorization header.  An endpoint with an access token always gets one (without it there is no request), an endpoint
  without authentication gets it only under \<open>Always\<close>, and endpoints with server signatures or a token in the query never
  get an authorization header from this conversion, not even under \<open>Always\<close>, contrary to its documentation.\<close>

theorem access_token_sent:
  assumes "try_into_http_request IO ep vals base_url access_token = Ok req" "headers_ok request_header (ep_request ep)"
  shows "case md_authentication (ep_meta ep) of
      AccessToken \<Rightarrow> \<exists>t h. access_token \<in> {IfRequired t, Always t} \<and> header_from_str IO (''Bearer '' @ t) = Some h
        \<and> map_of (hq_headers req) ''authorization'' = Some h
    | AuthNone \<Rightarrow> (case access_token of
        Always t \<Rightarrow> \<exists>h. header_from_str IO (''Bearer '' @ t) = Some h \<and> map_of (hq_headers req) ''authorization'' = Some h
      | _ \<Rightarrow> map_of (hq_headers req) ''authorization'' = None)
    | QueryOnlyAccessToken \<Rightarrow> map_of (hq_headers req) ''authorization'' = None
    | ServerSignatures \<Rightarrow> map_of (hq_headers req) ''authorization'' = None"
  using request_authorization[OF assms]
  by (cases "md_authentication (ep_meta ep)"; cases access_token) auto

text \<open>Logging out sends the token; a federation request does not, even under \<open>Always\<close>.\<close>

lemma access_token_sent_witness:
  "(\<exists>req. try_into_http_request (sample_io (JObject []) ''{}'' [] []) (expanded_api logout_api) [] ''https://h.org'' (IfRequired ''tok'')
      = Ok req \<and> map_of (hq_headers req) ''authorization'' = Some ''Bearer tok'')
   \<and> (\<exists>req. try_into_http_request (sample_io (JObject []) ''{}'' [] []) (expanded_api fed_get_devices_v1_api) [VText ''@u:h.org''] ''https://h.org''
         (Always ''tok'') = Ok req \<and> map_of (hq_headers req) ''authorization'' = None)"
proof
  let ?r = "try_into_http_request (sample_io (JObject []) ''{}'' [] []) (expanded_api logout_api) [] ''https://h.org'' (IfRequired ''tok'')"
  have "is_ok ?r" by code_simp
  then obtain req where r: "?r = Ok req" by (auto simp: res_simps)
  have "headers_ok request_header (ep_request (expanded_api logout_api))" "md_authentication (ep_meta (expanded_api logout_api)) = AccessToken"
    by code_simp+
  then show "\<exists>req. ?r = Ok req \<and> map_of (hq_headers req) ''authorization'' = Some ''Bearer tok''"
    using access_token_sent[OF r] r by (auto simp: sample_io_def)
next
  let ?r = "try_into_http_request (sample_io (JObject []) ''{}'' [] []) (expanded_api fed_get_devices_v1_api) [VText ''@u:h.org''] ''https://h.org'' (Always ''tok'')"
  have "is_ok ?r" by code_simp
  then obtain req where r: "?r = Ok req" by (auto simp: res_simps)
  have "headers_ok request_header (ep_request (expanded_api fed_get_devices_v1_api))" "md_authentication (ep_meta (expanded_api fed_get_devices_v1_api)) = ServerSignatures"
    by code_simp+
  then show "\<exists>req. ?r = Ok req \<and> map_of (hq_headers req) ''authorization'' = None"
    using access_token_sent[OF r] r by auto
qed

section \<open>Endpoints that fail\<close>

definition leave_event_vals ::
    "string \<Rightarrow> string \<Rightarrow> string \<Rightarrow> string \<Rightarrow> int \<Rightarrow> string \<Rightarrow> string \<Rightarrow> json \<Rightarrow> int \<Rightarrow> val list" where
  "leave_event_vals room_id event_id sender origin origin_server_ts event_type state_key content depth =
     [VText room_id, VText event_id, VText sender, VText origin, VInt origin_server_ts, VText event_type, VText state_key,
      VJson content, VInt depth]"

definition leave_event_fields :: "request_kind api_field list" where
  "leave_event_fields =
     [ApiField ''room_id'' RPath (plain ''room_id'' (FText RoomIdText)),
      ApiField ''event_id'' RPath (plain ''event_id'' (FText EventIdText)),
      ApiField ''sender'' RQuery (plain ''sender'' (FText UserIdText)),
      ApiField ''origin'' RQuery (plain ''origin'' (FText ServerNameText)),
      ApiField ''origin_server_ts'' RQuery (plain ''origin_server_ts'' UInt),
      ApiField ''event_type'' RQuery (plain ''type'' (FText AnyText)),
      ApiField ''state_key'' RQuery (plain ''state_key'' (FText AnyText)),
      ApiField ''content'' RQuery (plain ''content'' FJson),
      ApiField ''depth'' RQuery (plain ''depth'' UInt)]"

lemma value_sink_int: "\<exists>s. \<forall>nested key enc. value_sink nested key (SInt (U64 w)) enc = Ok (enc @ [(key, s)])"
  using scalar_roundtrip[of "TInt TyU64" "SInt (U64 w)"] by auto

lemma value_sink_struct: "value_sink False key (SStruct n fs) enc = Err UnsupportedValue"
  by (subst value_sink.simps) simp

text \<open>C38. The leave event of the federation API (version 1) can never be sent: its content is raw JSON in the query, which the
  query serializer does not support.\<close>

theorem leave_event_cannot_be_sent:
  "\<exists>ep. expand_api fed_create_leave_event_v1_api = Ok ep
     \<and> (\<forall>IO room_id event_id sender origin ts event_type state_key content depth base_url access_token.
          try_into_http_request IO ep (leave_event_vals room_id event_id sender origin ts event_type state_key content depth)
            base_url access_token = Err IntoQuery)"
proof (intro exI conjI allI)
  let ?ep = "expanded_api fed_create_leave_event_v1_api"
  show "expand_api fed_create_leave_event_v1_api = Ok ?ep" by (rule expanded_api_eq) code_simp
  fix IO room_id event_id sender origin ts event_type state_key content depth base_url access_token
  let ?vals = "leave_event_vals room_id event_id sender origin ts event_type state_key content depth"
  have req: "ep_request ?ep = leave_event_fields" by code_simp
  have "is_ok (format_path (\<lambda>_. []) (md_path (ep_meta ?ep)) :: (string, macro_error) result)" by code_simp
  then obtain q0 where "format_path (\<lambda>_. []) (md_path (ep_meta ?ep)) = (Ok q0 :: (string, macro_error) result)" by (auto simp: res_simps)
  from format_path_any[OF this]
  obtain q where "format_path (path_argument IO (ep_request ?ep) ?vals) (md_path (ep_meta ?ep)) = (Ok q :: (string, into_http_error) result)" by blast
  then have "\<exists>q. request_path_string IO ?ep ?vals = Ok q" by (simp add: request_path_string_def)
  moreover have "request_query_string IO ?ep ?vals = Err IntoQuery"
  proof -
    have "fields_with (\<lambda>k. k = RQueryMap) leave_event_fields ?vals = []" "has_query_fields leave_event_fields"
      by (simp_all add: fields_with_def leave_event_fields_def leave_event_vals_def has_query_fields_def)
    then have "request_query leave_event_fields ?vals = Some (SStruct ''RequestQuery'' (query_members leave_event_fields ?vals))"
      by (simp add: request_query_def)
    moreover have "\<exists>e. serialize_fields (query_members leave_event_fields ?vals) [] = Err e"
    proof -
      obtain s where "\<And>nested key enc. value_sink nested key (SInt (U64 (word_of_int ts))) enc = Ok (enc @ [(key, s)])"
        using value_sink_int by blast
      then show ?thesis
        by (simp add: query_members_def fields_with_def leave_event_fields_def leave_event_vals_def value_sink_str value_sink_struct)
    qed
    ultimately show ?thesis by (auto simp: request_query_string_def req to_string_def)
  qed
  ultimately show "try_into_http_request IO ?ep ?vals base_url access_token = Err IntoQuery"
    by (auto simp: try_into_http_request_def)
qed

text \<open>A client that follows the single sign-on endpoint panics on a successful response without a location.\<close>

lemma sso_login_response_panics:
  assumes "expand_api sso_login_api = Ok ep" "rs_status r < 400" "map_of (rs_headers r) ''location'' = None"
  shows "try_from_http_response IO ep error_from r = Panic"
proof -
  have "ep_response (expanded_api sso_login_api) = [ApiField ''location'' (PHeader ''LOCATION'') (plain ''location'' (FText AnyText))]"
    by code_simp
  moreover have "ep = expanded_api sso_login_api" using assms(1) by (simp add: expanded_api_def)
  moreover have "header_name ''LOCATION'' = ''location''" by code_simp
  ultimately show ?thesis using assms(2,3)
    by (simp add: try_from_http_response_def response_from_http_def response_init_fields_def has_body_fields_def is_option_def)
qed

lemma sso_login_response_panics_witness:
  "try_from_http_response (sample_io JNull [] [] []) (expanded_api sso_login_api) (client_error_from (io_json (sample_io JNull [] [] [])))
     \<lparr>rs_status = 200, rs_headers = [(''content-type'', ''text/html'')], rs_body = []\<rparr> = Panic"
proof (rule sso_login_response_panics[OF expanded_api_eq])
  show "is_ok (expand_api sso_login_api)" by code_simp
qed simp_all

end
