(* ===== verification/Uiaa.thy ===== *)
theory Uiaa
  imports Client_Errors
begin

text \<open>User-interactive authentication (\<^verbatim>\<open>ruma-client-api/src/r0/uiaa.rs\<close>, \<^verbatim>\<open>uiaa/user_serde.rs\<close>): authentication data with
  its accessors and JSON, the information a server sends about the flows, and the response that is either that or a
  Matrix error.  The borrowed types (\<open>AuthData\<close>, \<open>Password\<close>, ...) and their incoming variants hold the same values and
  are one type here.  A \<open>Medium\<close> is its string (\<open>string_enum_roundtrip\<close>); an \<open>AuthType\<close> is a value of the generated
  enum.  JSON objects are association lists with distinct keys; \<^const>\<open>None\<close> is an error of serde.\<close>

section \<open>Data\<close>

datatype user_identifier =
    MatrixId string
  | ThirdPartyId string string
  | PhoneNumber string string

record third_party_credentials =
  tpc_sid :: string
  tpc_client_secret :: string
  tpc_id_server :: string
  tpc_id_access_token :: string

record auth_password =
  pw_identifier :: user_identifier
  pw_password :: string
  pw_session :: "string option"

record auth_recaptcha =
  rc_response :: string
  rc_session :: "string option"

record auth_token =
  tk_token :: string
  tk_txn_id :: string
  tk_session :: "string option"

record auth_oauth2 =
  oa_uri :: string
  oa_session :: "string option"

record auth_credentials =
  cr_creds :: "third_party_credentials list"
  cr_session :: "string option"

record auth_dummy =
  du_session :: "string option"

record auth_custom =
  cu_auth_type :: string
  cu_session :: "string option"
  cu_extra :: content

datatype auth_data =
    Password auth_password
  | ReCaptcha auth_recaptcha
  | Token auth_token
  | OAuth2 auth_oauth2
  | EmailIdentity auth_credentials
  | Msisdn auth_credentials
  | Dummy auth_dummy
  | FallbackAcknowledgement string
  | CustomAuth auth_custom

definition fallback_acknowledgement :: "string \<Rightarrow> auth_data" where
  "fallback_acknowledgement session = FallbackAcknowledgement session"

definition password_new :: "user_identifier \<Rightarrow> string \<Rightarrow> auth_password" where
  "password_new i p = \<lparr>pw_identifier = i, pw_password = p, pw_session = None\<rparr>"

definition recaptcha_new :: "string \<Rightarrow> auth_recaptcha" where
  "recaptcha_new r = \<lparr>rc_response = r, rc_session = None\<rparr>"

definition token_new :: "string \<Rightarrow> string \<Rightarrow> auth_token" where
  "token_new t i = \<lparr>tk_token = t, tk_txn_id = i, tk_session = None\<rparr>"

definition oauth2_new :: "string \<Rightarrow> auth_oauth2" where
  "oauth2_new u = \<lparr>oa_uri = u, oa_session = None\<rparr>"

definition dummy_new :: auth_dummy where
  "dummy_new = \<lparr>du_session = None\<rparr>"

section \<open>Accessors\<close>

text \<open>\<open>AuthType\<close> as the macro generates it, with the default features.\<close>

definition auth_type_enum :: "string_enum option" where
  "auth_type_enum = (case expand_string_enum (\<lambda>_. False) (cfg_strip [] enum_auth_type) of Ok e \<Rightarrow> Some e | _ \<Rightarrow> None)"

definition auth_type_from :: "string \<Rightarrow> enum_value option" where
  "auth_type_from s = map_option (\<lambda>e. enum_from e s) auth_type_enum"

definition auth_type_as_ref :: "enum_value \<Rightarrow> string option" where
  "auth_type_as_ref v = Option.bind auth_type_enum (\<lambda>e. enum_as_ref e v)"

fun auth_type :: "auth_data \<Rightarrow> enum_value option" where
  "auth_type (Password x) = Some (UnitValue ''Password'')"
| "auth_type (ReCaptcha x) = Some (UnitValue ''ReCaptcha'')"
| "auth_type (Token x) = Some (UnitValue ''Token'')"
| "auth_type (OAuth2 x) = Some (UnitValue ''OAuth2'')"
| "auth_type (EmailIdentity x) = Some (UnitValue ''EmailIdentity'')"
| "auth_type (Msisdn x) = Some (UnitValue ''Msisdn'')"
| "auth_type (Dummy x) = Some (UnitValue ''Dummy'')"
| "auth_type (FallbackAcknowledgement x) = None"
| "auth_type (CustomAuth c) = Some (DataValue ''_Custom'' (cu_auth_type c))"

fun auth_session :: "auth_data \<Rightarrow> string option" where
  "auth_session (Password x) = pw_session x"
| "auth_session (ReCaptcha x) = rc_session x"
| "auth_session (Token x) = tk_session x"
| "auth_session (OAuth2 x) = oa_session x"
| "auth_session (EmailIdentity x) = cr_session x"
| "auth_session (Msisdn x) = cr_session x"
| "auth_session (Dummy x) = du_session x"
| "auth_session (FallbackAcknowledgement s) = Some s"
| "auth_session (CustomAuth x) = cu_session x"

section \<open>JSON of authentication data\<close>

definition ser_option :: "string option \<Rightarrow> json" where
  "ser_option o' = (case o' of None \<Rightarrow> JNull | Some s \<Rightarrow> JString s)"

fun ser_user_identifier :: "user_identifier \<Rightarrow> json" where
  "ser_user_identifier (MatrixId user) = JObject [(''type'', JString ''m.id.user''), (''user'', JString user)]"
| "ser_user_identifier (ThirdPartyId address medium) =
     JObject [(''type'', JString ''m.id.thirdparty''), (''medium'', JString medium), (''address'', JString address)]"
| "ser_user_identifier (PhoneNumber country phone) =
     JObject [(''type'', JString ''m.id.phone''), (''country'', JString country), (''phone'', JString phone)]"

definition ser_credentials :: "third_party_credentials \<Rightarrow> json" where
  "ser_credentials c = JObject [(''sid'', JString (tpc_sid c)), (''client_secret'', JString (tpc_client_secret c)),
     (''id_server'', JString (tpc_id_server c)), (''id_access_token'', JString (tpc_id_access_token c))]"

text \<open>The derived \<open>Serialize\<close>: \<open>#[serde(tag = "type")]\<close> writes the type first, and \<open>session\<close> is written as null when absent.\<close>

fun ser_auth_data :: "auth_data \<Rightarrow> content" where
  "ser_auth_data (Password x) =
     [(''type'', JString ''m.login.password''), (''identifier'', ser_user_identifier (pw_identifier x)),
      (''password'', JString (pw_password x)), (''session'', ser_option (pw_session x))]"
| "ser_auth_data (ReCaptcha x) =
     [(''type'', JString ''m.login.recaptcha''), (''response'', JString (rc_response x)),
      (''session'', ser_option (rc_session x))]"
| "ser_auth_data (Token x) =
     [(''type'', JString ''m.login.token''), (''token'', JString (tk_token x)), (''txn_id'', JString (tk_txn_id x)),
      (''session'', ser_option (tk_session x))]"
| "ser_auth_data (OAuth2 x) =
     [(''type'', JString ''m.login.oauth2''), (''uri'', JString (oa_uri x)), (''session'', ser_option (oa_session x))]"
| "ser_auth_data (EmailIdentity x) =
     [(''type'', JString ''m.login.email.identity''), (''threepidCreds'', JArray (map ser_credentials (cr_creds x))),
      (''session'', ser_option (cr_session x))]"
| "ser_auth_data (Msisdn x) =
     [(''type'', JString ''m.login.msisdn''), (''threepidCreds'', JArray (map ser_credentials (cr_creds x))),
      (''session'', ser_option (cr_session x))]"
| "ser_auth_data (Dummy x) = [(''type'', JString ''m.login.dummy''), (''session'', ser_option (du_session x))]"
| "ser_auth_data (FallbackAcknowledgement s) = [(''session'', JString s)]"
| "ser_auth_data (CustomAuth x) =
     [(''type'', JString (cu_auth_type x)), (''session'', ser_option (cu_session x))] @ cu_extra x"

text \<open>\<open>data()\<close> serializes a copy without a session into a sorted map.\<close>

fun auth_data_data :: "auth_data \<Rightarrow> content" where
  "auth_data_data (Password x) = bt_of_list (ser_auth_data (Password (x\<lparr>pw_session := None\<rparr>)))"
| "auth_data_data (ReCaptcha x) = bt_of_list (ser_auth_data (ReCaptcha (x\<lparr>rc_session := None\<rparr>)))"
| "auth_data_data (Token x) = bt_of_list (ser_auth_data (Token (x\<lparr>tk_session := None\<rparr>)))"
| "auth_data_data (OAuth2 x) = bt_of_list (ser_auth_data (OAuth2 (x\<lparr>oa_session := None\<rparr>)))"
| "auth_data_data (EmailIdentity x) = bt_of_list (ser_auth_data (EmailIdentity (x\<lparr>cr_session := None\<rparr>)))"
| "auth_data_data (Msisdn x) = bt_of_list (ser_auth_data (Msisdn (x\<lparr>cr_session := None\<rparr>)))"
| "auth_data_data (Dummy x) = []"
| "auth_data_data (FallbackAcknowledgement s) = []"
| "auth_data_data (CustomAuth x) = cu_extra x"

text \<open>The derived \<open>Deserialize\<close> of the variants.  An internally tagged enum is read from an object with a \<open>type\<close>, or from an
  array that starts with it.\<close>

fun de_tagged :: "json \<Rightarrow> (string \<times> json) option" where
  "de_tagged (JObject m) = map_option (\<lambda>t. (t, JObject (filter (\<lambda>(k, v). k \<noteq> ''type'') m))) (de_req de_string m ''type'')"
| "de_tagged (JArray (t # xs)) = map_option (\<lambda>t. (t, JArray xs)) (de_string t)"
| "de_tagged _ = None"

definition de_user_identifier :: "json \<Rightarrow> user_identifier option" where
  "de_user_identifier v = Option.bind (de_tagged v) (\<lambda>(t, body).
     if t = ''m.id.user'' then
       Option.bind (de_struct [''user''] body) (\<lambda>m. map_option MatrixId (de_req de_string m ''user''))
     else if t = ''m.id.thirdparty'' then
       Option.bind (de_struct [''medium'', ''address''] body) (\<lambda>m.
       Option.bind (de_req de_string m ''medium'') (\<lambda>medium.
       map_option (\<lambda>a. ThirdPartyId a medium) (de_req de_string m ''address'')))
     else if t = ''m.id.phone'' then
       Option.bind (de_struct [''country'', ''phone''] body) (\<lambda>m.
       Option.bind (de_req de_string m ''country'') (\<lambda>c. map_option (PhoneNumber c) (de_req de_string m ''phone'')))
     else None)"

definition de_validated :: "(string \<Rightarrow> (unit, id_error) result) \<Rightarrow> json \<Rightarrow> string option" where
  "de_validated validate v = Option.bind (de_string v) (de_id validate)"

definition de_credentials :: "(nat \<Rightarrow> bool) \<Rightarrow> json \<Rightarrow> third_party_credentials option" where
  "de_credentials uni v =
     Option.bind (de_struct [''sid'', ''client_secret'', ''id_server'', ''id_access_token''] v) (\<lambda>m.
     Option.bind (de_req (de_validated (session_id_validate uni)) m ''sid'') (\<lambda>sid.
     Option.bind (de_req (de_validated (client_secret_validate uni)) m ''client_secret'') (\<lambda>secret.
     Option.bind (de_req de_string m ''id_server'') (\<lambda>server.
     map_option (\<lambda>token. \<lparr>tpc_sid = sid, tpc_client_secret = secret, tpc_id_server = server, tpc_id_access_token = token\<rparr>)
       (de_req de_string m ''id_access_token'')))))"

definition de_password :: "json \<Rightarrow> auth_data option" where
  "de_password v = Option.bind (de_struct [''identifier'', ''password'', ''session''] v) (\<lambda>m.
     Option.bind (de_req de_user_identifier m ''identifier'') (\<lambda>i.
     Option.bind (de_req de_string m ''password'') (\<lambda>p.
     map_option (\<lambda>s. Password \<lparr>pw_identifier = i, pw_password = p, pw_session = s\<rparr>) (de_opt de_string m ''session''))))"

definition de_recaptcha :: "json \<Rightarrow> auth_data option" where
  "de_recaptcha v = Option.bind (de_struct [''response'', ''session''] v) (\<lambda>m.
     Option.bind (de_req de_string m ''response'') (\<lambda>r.
     map_option (\<lambda>s. ReCaptcha \<lparr>rc_response = r, rc_session = s\<rparr>) (de_opt de_string m ''session'')))"

definition de_token :: "json \<Rightarrow> auth_data option" where
  "de_token v = Option.bind (de_struct [''token'', ''txn_id'', ''session''] v) (\<lambda>m.
     Option.bind (de_req de_string m ''token'') (\<lambda>t. Option.bind (de_req de_string m ''txn_id'') (\<lambda>i.
     map_option (\<lambda>s. Token \<lparr>tk_token = t, tk_txn_id = i, tk_session = s\<rparr>) (de_opt de_string m ''session''))))"

definition de_oauth2 :: "json \<Rightarrow> auth_data option" where
  "de_oauth2 v = Option.bind (de_struct [''uri'', ''session''] v) (\<lambda>m.
     Option.bind (de_req de_string m ''uri'') (\<lambda>u.
     map_option (\<lambda>s. OAuth2 \<lparr>oa_uri = u, oa_session = s\<rparr>) (de_opt de_string m ''session'')))"

definition de_auth_credentials :: "(nat \<Rightarrow> bool) \<Rightarrow> json \<Rightarrow> auth_credentials option" where
  "de_auth_credentials uni v = Option.bind (de_struct [''threepidCreds'', ''session''] v) (\<lambda>m.
     Option.bind (de_req (de_vec (de_credentials uni)) m ''threepidCreds'') (\<lambda>cs.
     map_option (\<lambda>s. \<lparr>cr_creds = cs, cr_session = s\<rparr>) (de_opt de_string m ''session'')))"

definition de_dummy :: "json \<Rightarrow> auth_data option" where
  "de_dummy v = Option.bind (de_struct [''session''] v) (\<lambda>m.
     map_option (\<lambda>s. Dummy \<lparr>du_session = s\<rparr>) (de_opt de_string m ''session''))"

definition de_fallback :: "json \<Rightarrow> auth_data option" where
  "de_fallback v = Option.bind (de_struct [''session''] v) (\<lambda>m.
     map_option FallbackAcknowledgement (de_req de_string m ''session''))"

text \<open>A struct with a flattened field is only read from an object.\<close>

fun de_custom_auth :: "json \<Rightarrow> auth_data option" where
  "de_custom_auth (JObject m) =
     Option.bind (de_req de_string m ''type'') (\<lambda>t.
     map_option (\<lambda>s. CustomAuth \<lparr>cu_auth_type = t, cu_session = s,
         cu_extra = bt_of_list (filter (\<lambda>(k, v). k \<noteq> ''type'' \<and> k \<noteq> ''session'') m)\<rparr>)
       (de_opt de_string m ''session''))"
| "de_custom_auth _ = None"

text \<open>\<open>IncomingAuthData::new\<close> inserts the session into the data of a known type.\<close>

definition with_session :: "string option \<Rightarrow> content \<Rightarrow> json" where
  "with_session session obj = JObject (case session of None \<Rightarrow> obj | Some s \<Rightarrow> bt_insert ''session'' (JString s) obj)"

definition auth_data_new :: "(nat \<Rightarrow> bool) \<Rightarrow> string \<Rightarrow> string option \<Rightarrow> content \<Rightarrow> auth_data option" where
  "auth_data_new uni t session data =
     (if t = ''m.login.password'' then de_password (with_session session data)
      else if t = ''m.login.recaptcha'' then de_recaptcha (with_session session data)
      else if t = ''m.login.token'' then de_token (with_session session data)
      else if t = ''m.login.oauth2'' then de_oauth2 (with_session session data)
      else if t = ''m.login.email.identity'' then map_option EmailIdentity (de_auth_credentials uni (with_session session data))
      else if t = ''m.login.msisdn'' then map_option Msisdn (de_auth_credentials uni (with_session session data))
      else if t = ''m.login.dummy'' then de_dummy (with_session session data)
      else Some (CustomAuth \<lparr>cu_auth_type = t, cu_session = session, cu_extra = data\<rparr>))"

definition de_auth_data :: "(nat \<Rightarrow> bool) \<Rightarrow> json \<Rightarrow> auth_data option" where
  "de_auth_data uni v =
     Option.bind (Option.bind (de_struct [''type''] v) (\<lambda>m. de_opt de_string m ''type'')) (\<lambda>auth_type.
     case auth_type of
       None \<Rightarrow> de_fallback v
     | Some t \<Rightarrow>
         if t = ''m.login.password'' then de_password v
         else if t = ''m.login.recaptcha'' then de_recaptcha v
         else if t = ''m.login.token'' then de_token v
         else if t = ''m.login.oauth2'' then de_oauth2 v
         else if t = ''m.login.email.identity'' then map_option EmailIdentity (de_auth_credentials uni v)
         else if t = ''m.login.msisdn'' then map_option Msisdn (de_auth_credentials uni v)
         else if t = ''m.login.dummy'' then de_dummy v
         else de_custom_auth v)"

section \<open>Authentication data round trips\<close>

definition known_auth_types :: "string list" where
  "known_auth_types = [''m.login.password'', ''m.login.recaptcha'', ''m.login.token'', ''m.login.oauth2'',
     ''m.login.email.identity'', ''m.login.msisdn'', ''m.login.dummy'']"

definition credentials_ok :: "(nat \<Rightarrow> bool) \<Rightarrow> third_party_credentials \<Rightarrow> bool" where
  "credentials_ok uni c \<longleftrightarrow> session_id_validate uni (tpc_sid c) = Ok () \<and> client_secret_validate uni (tpc_client_secret c) = Ok ()"

text \<open>Values of the types: validated identifiers, and a custom type that is not a known one.\<close>

fun auth_data_ok :: "(nat \<Rightarrow> bool) \<Rightarrow> auth_data \<Rightarrow> bool" where
  "auth_data_ok uni (EmailIdentity x) \<longleftrightarrow> list_all (credentials_ok uni) (cr_creds x)"
| "auth_data_ok uni (Msisdn x) \<longleftrightarrow> list_all (credentials_ok uni) (cr_creds x)"
| "auth_data_ok uni (CustomAuth x) \<longleftrightarrow> cu_auth_type x \<notin> set known_auth_types \<and> bt_ok (cu_extra x)
     \<and> list_all (\<lambda>(k, v). k \<noteq> ''type'' \<and> k \<noteq> ''session'') (cu_extra x)"
| "auth_data_ok uni a \<longleftrightarrow> True"

lemma de_user_identifier_ser [simp]: "de_user_identifier (ser_user_identifier i) = Some i"
  by (cases i) (simp_all add: de_user_identifier_def de_req_def)

lemma de_credentials_ser:
  assumes "credentials_ok uni c"
  shows "de_credentials uni (ser_credentials c) = Some c"
  using assms
  by (simp add: credentials_ok_def de_credentials_def ser_credentials_def de_req_def de_validated_def de_id_def parse_validated_def)

lemma de_creds_ser: "list_all (credentials_ok uni) cs \<Longrightarrow> de_vec (de_credentials uni) (JArray (map ser_credentials cs)) = Some cs"
  by (induction cs) (auto simp: de_credentials_ser)

lemma de_opt_ser_option [simp]: "map_of m k = Some (ser_option s) \<Longrightarrow> de_opt de_string m k = Some s"
  by (cases s) (simp_all add: de_opt_def ser_option_def)

lemma with_session_lookup:
  "\<exists>m. with_session session obj = JObject m
    \<and> map_of m = (case session of None \<Rightarrow> map_of obj | Some s \<Rightarrow> (map_of obj)(''session'' \<mapsto> JString s))"
  by (auto simp: with_session_def fun_eq_iff split: option.splits)

lemma auth_type_enum_eq:
  "auth_type_enum = Some \<lparr>se_as_ref = [(''Password'', ArmStr ''m.login.password''), (''ReCaptcha'', ArmStr ''m.login.recaptcha''),
       (''Token'', ArmStr ''m.login.token''), (''OAuth2'', ArmStr ''m.login.oauth2''),
       (''EmailIdentity'', ArmStr ''m.login.email.identity''), (''Msisdn'', ArmStr ''m.login.msisdn''),
       (''Sso'', ArmStr ''m.login.sso''), (''Dummy'', ArmStr ''m.login.dummy''), (''_Custom'', ArmInner)],
     se_branches = [(''m.login.password'', ''Password''), (''m.login.recaptcha'', ''ReCaptcha''),
       (''m.login.token'', ''Token''), (''m.login.oauth2'', ''OAuth2''), (''m.login.email.identity'', ''EmailIdentity''),
       (''m.login.msisdn'', ''Msisdn''), (''m.login.sso'', ''Sso''), (''m.login.dummy'', ''Dummy'')],
     se_fallback = ''_Custom''\<rparr>"
  by code_simp

lemma auth_type_printed:
  "auth_type a = Some t \<Longrightarrow> auth_type_as_ref t = (case ser_auth_data a of (k, JString u) # es \<Rightarrow> Some u)"
  by (cases a) (auto simp: auth_type_as_ref_def auth_type_enum_eq)

lemma auth_data_new_data:
  assumes "auth_data_ok uni a" "auth_type a = Some t" "auth_type_as_ref t = Some s"
  shows "auth_data_new uni s (auth_session a) (auth_data_data a) = Some a"
proof -
  let ?m = "auth_data_data a"
  have s: "s = (case ser_auth_data a of (k, JString u) # es \<Rightarrow> u)"
    using assms(3) auth_type_printed[OF assms(2)] by (cases a) simp_all
  obtain m where m: "with_session (auth_session a) ?m = JObject m"
      "map_of m = (case auth_session a of None \<Rightarrow> map_of ?m | Some s \<Rightarrow> (map_of ?m)(''session'' \<mapsto> JString s))"
    using with_session_lookup by blast
  show ?thesis
  proof (cases a)
    case (EmailIdentity x)
    then show ?thesis using assms(1) m de_creds_ser[of uni "cr_creds x"]
      by (auto simp: auth_data_new_def s de_auth_credentials_def de_req_def de_opt_def ser_option_def bt_get_of_list
          split: option.splits)
  next
    case (Msisdn x)
    then show ?thesis using assms(1) m de_creds_ser[of uni "cr_creds x"]
      by (auto simp: auth_data_new_def s de_auth_credentials_def de_req_def de_opt_def ser_option_def bt_get_of_list
          split: option.splits)
  next
    case (CustomAuth x)
    then show ?thesis using assms(1) by (simp add: auth_data_new_def s known_auth_types_def)
  qed (use m assms(2) in \<open>auto simp: auth_data_new_def s de_password_def de_recaptcha_def de_token_def de_oauth2_def
         de_dummy_def de_req_def de_opt_def ser_option_def bt_get_of_list split: option.splits\<close>)
qed

text \<open>Reading back the JSON of authentication data.\<close>

lemma auth_data_reads_back:
  assumes "auth_data_ok uni a"
  shows "de_auth_data uni (JObject (ser_auth_data a)) = Some a"
proof (cases a)
  case (EmailIdentity x)
  then show ?thesis using assms de_creds_ser[of uni "cr_creds x"]
    by (simp add: de_auth_data_def de_auth_credentials_def de_req_def de_opt_def[of _ _ "''type''"])
next
  case (Msisdn x)
  then show ?thesis using assms de_creds_ser[of uni "cr_creds x"]
    by (simp add: de_auth_data_def de_auth_credentials_def de_req_def de_opt_def[of _ _ "''type''"])
next
  case (CustomAuth x)
  then have "filter (\<lambda>(k, v). k \<noteq> ''type'' \<and> k \<noteq> ''session'') (cu_extra x) = cu_extra x"
    using assms by (auto simp: list_all_iff intro!: filter_True)
  then show ?thesis using CustomAuth assms
    by (simp add: de_auth_data_def de_opt_def[of _ _ "''type''"] known_auth_types_def de_req_def bt_of_list_ok)
qed (simp_all add: de_auth_data_def de_password_def de_recaptcha_def de_token_def de_oauth2_def de_dummy_def de_fallback_def
      de_req_def de_opt_def[of _ _ "''type''"])

text \<open>C33. Authentication data survives both ways of taking it apart: its JSON is read back as the same data, and the
  constructor for custom types gives it back from its type, its session and its data (only a fallback acknowledgement
  has no type).\<close>

theorem auth_data_roundtrip:
  assumes "auth_data_ok uni a"
  shows "de_auth_data uni (JObject (ser_auth_data a)) = Some a
    \<and> (case auth_type a of
         Some t \<Rightarrow> \<exists>s. auth_type_as_ref t = Some s \<and> auth_data_new uni s (auth_session a) (auth_data_data a) = Some a
       | None \<Rightarrow> \<exists>s. a = FallbackAcknowledgement s)"
proof
  show "de_auth_data uni (JObject (ser_auth_data a)) = Some a" using assms by (rule auth_data_reads_back)
  show "case auth_type a of
         Some t \<Rightarrow> \<exists>s. auth_type_as_ref t = Some s \<and> auth_data_new uni s (auth_session a) (auth_data_data a) = Some a
       | None \<Rightarrow> \<exists>s. a = FallbackAcknowledgement s"
  proof (cases "auth_type a")
    case (Some t)
    have "\<exists>s. auth_type_as_ref t = Some s" using auth_type_printed[OF Some] Some by (cases a) simp_all
    then show ?thesis using auth_data_new_data[OF assms Some] Some by auto
  qed (cases a; simp)
qed

lemma auth_data_roundtrip_witness:
  "de_auth_data (\<lambda>_. False) (JObject (ser_auth_data (Msisdn \<lparr>cr_creds = [\<lparr>tpc_sid = ''s1'', tpc_client_secret = ''c_1'',
       tpc_id_server = ''id.example'', tpc_id_access_token = ''t''\<rparr>], cr_session = Some ''xyz''\<rparr>)))
     = Some (Msisdn \<lparr>cr_creds = [\<lparr>tpc_sid = ''s1'', tpc_client_secret = ''c_1'', tpc_id_server = ''id.example'',
       tpc_id_access_token = ''t''\<rparr>], cr_session = Some ''xyz''\<rparr>)"
proof -
  have "auth_data_ok (\<lambda>_. False) (Msisdn \<lparr>cr_creds = [\<lparr>tpc_sid = ''s1'', tpc_client_secret = ''c_1'',
       tpc_id_server = ''id.example'', tpc_id_access_token = ''t''\<rparr>], cr_session = Some ''xyz''\<rparr>)"
    by code_simp
  from auth_data_roundtrip[OF this] show ?thesis ..
qed

text \<open>The data of a known type still has its \<open>type\<close> entry and an empty session, and the type of custom data is never one of the
  other variants, even if it has their string.\<close>

lemma data_has_type: "auth_data_data (Password x) = d \<Longrightarrow> map_of d ''type'' = Some (JString ''m.login.password'') \<and> map_of d ''session'' = Some JNull"
  by (auto simp: bt_get_of_list ser_option_def)

lemma sso_auth_type:
  "map_option auth_type (de_auth_data uni (JObject [(''type'', JString ''m.login.sso'')])) = Some (Some (DataValue ''_Custom'' ''m.login.sso''))
   \<and> auth_type_from ''m.login.sso'' = Some (UnitValue ''Sso'')"
  by (simp add: de_auth_data_def de_opt_def de_req_def auth_type_from_def auth_type_enum_eq enum_from_def)

section \<open>The state of an authentication\<close>

record auth_flow =
  af_stages :: "enum_value list"

definition auth_flow_new :: "enum_value list \<Rightarrow> auth_flow" where
  "auth_flow_new stages = \<lparr>af_stages = stages\<rparr>"

record uiaa_info =
  ui_flows :: "auth_flow list"
  ui_completed :: "enum_value list"
  ui_params :: json
  ui_session :: "string option"
  ui_auth_error :: "error_body option"

definition uiaa_info_new :: "auth_flow list \<Rightarrow> json \<Rightarrow> uiaa_info" where
  "uiaa_info_new flows params =
     \<lparr>ui_flows = flows, ui_completed = [], ui_params = params, ui_session = None, ui_auth_error = None\<rparr>"

definition ser_stage :: "enum_value \<Rightarrow> json" where
  "ser_stage t = (case auth_type_as_ref t of Some s \<Rightarrow> JString s | None \<Rightarrow> JNull)"

definition de_stage :: "json \<Rightarrow> enum_value option" where
  "de_stage v = Option.bind (de_string v) auth_type_from"

definition ser_stages :: "string \<Rightarrow> enum_value list \<Rightarrow> content" where
  "ser_stages k ts = (if ts = [] then [] else [(k, JArray (map ser_stage ts))])"

definition ser_auth_flow :: "auth_flow \<Rightarrow> json" where
  "ser_auth_flow f = JObject (ser_stages ''stages'' (af_stages f))"

definition de_auth_flow :: "json \<Rightarrow> auth_flow option" where
  "de_auth_flow v = Option.bind (case v of JArray [] \<Rightarrow> Some [] | _ \<Rightarrow> de_struct [''stages''] v) (\<lambda>m.
     map_option auth_flow_new (de_default [] (de_vec de_stage) m ''stages''))"

definition ser_uiaa_info :: "uiaa_info \<Rightarrow> (json, into_http_error) result" where
  "ser_uiaa_info i =
     and_then (case ui_auth_error i of
         None \<Rightarrow> Ok []
       | Some b \<Rightarrow> and_then (ser_error_body b) (\<lambda>v. case v of JObject es \<Rightarrow> Ok es | _ \<Rightarrow> Err IntoJson)) (\<lambda>es.
     Ok (JObject ([(''flows'', JArray (map ser_auth_flow (ui_flows i)))] @ ser_stages ''completed'' (ui_completed i)
       @ [(''params'', ui_params i)]
       @ (case ui_session i of None \<Rightarrow> [] | Some s \<Rightarrow> [(''session'', JString s)]) @ es)))"

text \<open>The derived \<open>Deserialize\<close> with the flattened \<open>Option<ErrorBody>\<close>: the entries that are not fields go to the error body,
  and an error body that cannot be read is absent.\<close>

definition uiaa_fields :: "string list" where
  "uiaa_fields = [''flows'', ''completed'', ''params'', ''session'']"

fun de_uiaa_info :: "json \<Rightarrow> uiaa_info option" where
  "de_uiaa_info (JObject m) =
     Option.bind (de_req (de_vec de_auth_flow) m ''flows'') (\<lambda>flows.
     Option.bind (de_default [] (de_vec de_stage) m ''completed'') (\<lambda>completed.
     Option.bind (map_of m ''params'') (\<lambda>params.
     map_option (\<lambda>session. \<lparr>ui_flows = flows, ui_completed = completed, ui_params = params, ui_session = session,
         ui_auth_error = (case de_error_body (JObject (filter (\<lambda>(k, v). k \<notin> set uiaa_fields) m)) of
            Ok b \<Rightarrow> Some b | Err e \<Rightarrow> None | Panic \<Rightarrow> None)\<rparr>)
       (de_opt de_string m ''session''))))"
| "de_uiaa_info _ = None"

datatype uiaa_response = AuthResponse uiaa_info | MatrixError client_error

definition uiaa_display :: "uiaa_response \<Rightarrow> string" where
  "uiaa_display r = (case r of
     AuthResponse i \<Rightarrow> ''User-Interactive Authentication required.'' | MatrixError e \<Rightarrow> client_error_display e)"

definition UNAUTHORIZED :: nat where "UNAUTHORIZED = 401"

definition uiaa_from :: "json_io \<Rightarrow> http_response \<Rightarrow> (uiaa_response, deserialization_error) result" where
  "uiaa_from IO r =
     (if rs_status r = UNAUTHORIZED
      then and_then (from_json_slice IO (\<lambda>v. ok_or InvalidValue (de_uiaa_info v)) (rs_body r)) (\<lambda>i. Ok (AuthResponse i))
      else and_then (client_error_from IO r) (\<lambda>e. Ok (MatrixError e)))"

fun uiaa_into :: "json_io \<Rightarrow> uiaa_response \<Rightarrow> (http_response, into_http_error) result" where
  "uiaa_into IO (AuthResponse i) = and_then (ser_uiaa_info i) (\<lambda>v. Ok (json_response UNAUTHORIZED (to_text IO v)))"
| "uiaa_into IO (MatrixError e) = client_error_into IO e"

section \<open>The contract of a UIAA response\<close>

definition stage_ok :: "enum_value \<Rightarrow> bool" where
  "stage_ok t \<longleftrightarrow> (case auth_type_as_ref t of Some s \<Rightarrow> auth_type_from s = Some t | None \<Rightarrow> False)"

fun kind_without_keys :: "string list \<Rightarrow> error_kind \<Rightarrow> bool" where
  "kind_without_keys ks (CustomKind c extra) \<longleftrightarrow> list_all (\<lambda>(k, v). k \<notin> set ks) extra"
| "kind_without_keys ks k \<longleftrightarrow> True"

definition auth_error_ok :: "error_body \<Rightarrow> bool" where
  "auth_error_ok b \<longleftrightarrow> kind_readable (eb_kind b) \<and> kind_without_message (eb_kind b) \<and> kind_without_keys uiaa_fields (eb_kind b)"

definition uiaa_info_ok :: "uiaa_info \<Rightarrow> bool" where
  "uiaa_info_ok i \<longleftrightarrow> list_all stage_ok (ui_completed i) \<and> list_all (\<lambda>f. list_all stage_ok (af_stages f)) (ui_flows i)
     \<and> pred_option auth_error_ok (ui_auth_error i)"

definition uiaa_info_wire :: "uiaa_info \<Rightarrow> uiaa_info" where
  "uiaa_info_wire i = i\<lparr>ui_auth_error := map_option (\<lambda>b. b\<lparr>eb_kind := on_the_wire (eb_kind b)\<rparr>) (ui_auth_error i)\<rparr>"

lemma stages_read: "list_all stage_ok ts \<Longrightarrow> de_vec de_stage (JArray (map ser_stage ts)) = Some ts"
  by (induction ts) (auto simp: stage_ok_def ser_stage_def de_stage_def split: option.splits)

lemma flows_read:
  "list_all (\<lambda>f. list_all stage_ok (af_stages f)) fs \<Longrightarrow> de_vec de_auth_flow (JArray (map ser_auth_flow fs)) = Some fs"
proof (induction fs)
  case (Cons f fs)
  have "de_auth_flow (ser_auth_flow f) = Some f"
    using Cons.prems stages_read[of "af_stages f"]
    by (cases "af_stages f = []") (simp_all add: de_auth_flow_def ser_auth_flow_def ser_stages_def de_default_def auth_flow_new_def)
  then show ?case using Cons by simp
qed simp

lemma ser_error_body_object:
  assumes "ser_error_body b = Ok v"
  obtains es where "v = JObject es"
  using assms by (auto simp: ser_error_body_def and_then_eq_Ok)

lemma ser_error_body_keys:
  assumes "ser_error_body b = Ok (JObject es)" "kind_without_keys ks (eb_kind b)"
    "set ks \<inter> {''errcode'', ''soft_logout'', ''retry_after_ms'', ''room_version'', ''admin_contact'', ''error''} = {}"
  shows "list_all (\<lambda>(k, v). k \<notin> set ks) es"
proof -
  obtain es' where es: "ser_error_kind (eb_kind b) = Ok es'" "es = es' @ [(''error'', JString (eb_message b))]"
    using assms(1) by (auto simp: ser_error_body_def and_then_eq_Ok)
  have "list_all (\<lambda>(k, v). k \<notin> set ks) es'"
    using es(1) assms(2,3) by (cases "eb_kind b") (auto simp: ser_error_kind_def and_then_eq_Ok split: option.splits if_splits)
  then show ?thesis using assms(3) by (auto simp: es(2))
qed

lemma uiaa_info_reads_back:
  assumes "uiaa_info_ok i" "ser_uiaa_info i = Ok v"
  shows "de_uiaa_info v = Some (uiaa_info_wire i)"
proof -
  let ?head = "[(''flows'', JArray (map ser_auth_flow (ui_flows i)))] @ ser_stages ''completed'' (ui_completed i)
       @ [(''params'', ui_params i)] @ (case ui_session i of None \<Rightarrow> [] | Some s \<Rightarrow> [(''session'', JString s)])"
  obtain es where v: "v = JObject (?head @ es)" and es: "list_all (\<lambda>(k, v). k \<notin> set uiaa_fields) es"
    and err: "(case de_error_body (JObject es) of Ok b \<Rightarrow> Some b | Err e \<Rightarrow> None | Panic \<Rightarrow> None)
        = map_option (\<lambda>b. b\<lparr>eb_kind := on_the_wire (eb_kind b)\<rparr>) (ui_auth_error i)"
  proof (cases "ui_auth_error i")
    case None
    then show thesis using that[of "[]"] assms(2) by (simp add: ser_uiaa_info_def)
  next
    case (Some b)
    then have ok: "kind_readable (eb_kind b)" "kind_without_message (eb_kind b)" "kind_without_keys uiaa_fields (eb_kind b)"
      using assms(1) by (simp_all add: uiaa_info_ok_def auth_error_ok_def)
    obtain w where w: "ser_error_body b = Ok w" using assms(2) Some by (auto simp: ser_uiaa_info_def and_then_eq_Ok)
    obtain es where "w = JObject es" using ser_error_body_object[OF w] .
    then have es: "ser_error_body b = Ok (JObject es)" "v = JObject (?head @ es)"
      using assms(2) Some w by (auto simp: ser_uiaa_info_def)
    show thesis
      using that[OF es(2)] ser_error_body_keys[OF es(1) ok(3)] error_body_roundtrip[OF ok(1,2) es(1)] Some
      by (simp add: uiaa_fields_def)
  qed
  have others: "filter (\<lambda>(k, v). k \<notin> set uiaa_fields) (?head @ es) = es"
    using es by (auto simp: uiaa_fields_def ser_stages_def list_all_iff filter_empty_conv split: option.splits intro!: filter_True)
  have es': "map_of es ''completed'' = None" "map_of es ''session'' = None"
    using es by (auto simp: uiaa_fields_def list_all_iff map_of_eq_None_iff)
  have "de_default [] (de_vec de_stage) (?head @ es) ''completed'' = Some (ui_completed i)"
    using stages_read[of "ui_completed i"] assms(1) es'
    by (auto simp: uiaa_info_ok_def de_default_def ser_stages_def split: option.splits)
  moreover have "de_opt de_string (?head @ es) ''session'' = Some (ui_session i)"
    using es' by (auto simp: de_opt_def ser_stages_def split: option.splits)
  moreover have "map_of (?head @ es) ''params'' = Some (ui_params i)"
    "map_of (?head @ es) ''flows'' = Some (JArray (map ser_auth_flow (ui_flows i)))"
    by (auto simp: ser_stages_def)
  ultimately show ?thesis using flows_read[of "ui_flows i"] assms(1) unfolding v de_uiaa_info.simps others err
    by (simp add: de_req_def uiaa_info_ok_def uiaa_info_wire_def)
qed

fun uiaa_status :: "uiaa_response \<Rightarrow> nat" where
  "uiaa_status (AuthResponse i) = UNAUTHORIZED"
| "uiaa_status (MatrixError e) = ce_status e"

fun uiaa_readable :: "json_io \<Rightarrow> uiaa_response \<Rightarrow> bool" where
  "uiaa_readable IO (AuthResponse i) \<longleftrightarrow>
     uiaa_info_ok i \<and> (case ser_uiaa_info i of Ok v \<Rightarrow> reads_back IO v | _ \<Rightarrow> True)"
| "uiaa_readable IO (MatrixError e) \<longleftrightarrow> ce_status e \<noteq> UNAUTHORIZED \<and> client_error_readable IO e"

fun uiaa_wire :: "uiaa_response \<Rightarrow> uiaa_response" where
  "uiaa_wire (AuthResponse i) = AuthResponse (uiaa_info_wire i)"
| "uiaa_wire (MatrixError e) = MatrixError (client_error_wire e)"

interpretation uiaa: endpoint_error "uiaa_into IO" "uiaa_from IO" uiaa_status "uiaa_readable IO" uiaa_wire for IO
proof
  fix e r
  assume into: "uiaa_into IO e = Ok r"
  show status: "rs_status r = uiaa_status e"
    using into client.into_status by (cases e) (auto simp: and_then_eq_Ok)
  assume ok: "uiaa_readable IO e"
  show "uiaa_from IO r = Ok (uiaa_wire e)"
  proof (cases e)
    case (AuthResponse i)
    then obtain v where "ser_uiaa_info i = Ok v" "r = json_response UNAUTHORIZED (to_text IO v)"
      using into by (auto simp: and_then_eq_Ok)
    then show ?thesis using ok uiaa_info_reads_back[of i v] AuthResponse
      by (simp add: uiaa_from_def from_json_slice_def reads_back_def)
  next
    case (MatrixError c)
    then show ?thesis using ok into status client.from_into[of IO c r] by (simp add: uiaa_from_def)
  qed
qed

text \<open>C31. When a server answers a request with a UIAA response, or with a Matrix error whose status is an error status other
  than 401, the generated code of the client reports it as the known error that was sent, durations cut to milliseconds
  (\<open>uiaa_wire\<close>), provided that the parser reads back the JSON text that was printed and that custom names do not clash
  with known ones (\<open>uiaa_readable\<close>).  Matrix errors with status 401 do not arrive.\<close>

theorem uiaa_error_arrives:
  assumes "uiaa_readable IO e" "400 \<le> uiaa_status e" "uiaa_into IO e = Ok r"
  shows "response_from_http init_fields (uiaa_from IO) r = Err (Http (Known (uiaa_wire e)))"
  using assms by (rule uiaa.known_error)

definition sample_info :: uiaa_info where
  "sample_info = \<lparr>ui_flows = [\<lparr>af_stages = [UnitValue ''Dummy'', UnitValue ''Sso'']\<rparr>], ui_completed = [UnitValue ''Dummy''],
     ui_params = JObject [], ui_session = Some ''xyz'', ui_auth_error = Some \<lparr>eb_kind = Forbidden, eb_message = ''no''\<rparr>\<rparr>"

lemma uiaa_error_arrives_witness:
  "\<exists>IO r. uiaa_into IO (AuthResponse sample_info) = Ok r
     \<and> response_from_http (\<lambda>_. Ok ()) (uiaa_from IO) r = Err (Http (Known (uiaa_wire (AuthResponse sample_info))))"
proof -
  have stages: "stage_ok (UnitValue ''Dummy'')" "stage_ok (UnitValue ''Sso'')"
    by (simp_all add: stage_ok_def auth_type_as_ref_def auth_type_from_def auth_type_enum_eq enum_from_def)
  obtain v where v: "ser_uiaa_info sample_info = Ok v"
    by (simp add: sample_info_def ser_uiaa_info_def ser_error_body_def ser_error_kind_def)
  let ?IO = "\<lparr>to_text = \<lambda>_. ''x'', from_text = \<lambda>_. Some v\<rparr>"
  have "uiaa_readable ?IO (AuthResponse sample_info)"
    using stages v by (simp add: reads_back_def) (simp add: uiaa_info_ok_def sample_info_def auth_error_ok_def)
  moreover have "uiaa_into ?IO (AuthResponse sample_info) = Ok (json_response UNAUTHORIZED ''x'')" using v by simp
  moreover have "400 \<le> uiaa_status (AuthResponse sample_info)" by (simp add: UNAUTHORIZED_def)
  ultimately show ?thesis using uiaa_error_arrives[of ?IO "AuthResponse sample_info"] by blast
qed

text \<open>C32. A Matrix error with status 401, for example \<^verbatim>\<open>M_UNKNOWN_TOKEN\<close>, is never reported as such by an endpoint with
  user-interactive authentication: its body is read as information about flows, which it is not, so that the client sees
  an unknown error.\<close>

theorem matrix_error_401_lost:
  assumes "ce_status e = UNAUTHORIZED" "client_error_readable IO e" "kind_without_keys [''flows''] (eb_kind e)"
    and "uiaa_into IO (MatrixError e) = Ok r"
  shows "response_from_http init_fields (uiaa_from IO) r = Err (Http (UnknownError DeJson))"
proof -
  obtain v where v: "ser_error_body (error_body_from e) = Ok v" "r = json_response (ce_status e) (to_text IO v)"
    using assms(4) by (auto simp: client_error_into_def and_then_eq_Ok)
  obtain es where es: "v = JObject es" using ser_error_body_object[OF v(1)] .
  have "map_of es ''flows'' = None"
    using ser_error_body_keys[OF v(1)[unfolded es], of "[''flows'']"] assms(3)
    by (auto simp: error_body_from_def list_all_iff map_of_eq_None_iff)
  then have "de_uiaa_info v = None" by (simp add: es de_req_def)
  moreover have "from_text IO (to_text IO v) = Some v"
    using assms(2) v(1) by (simp add: client_error_readable_def reads_back_def)
  ultimately show ?thesis
    using assms(1) by (simp add: response_from_http_def uiaa_from_def from_json_slice_def v(2) UNAUTHORIZED_def)
qed

lemma matrix_error_401_lost_witness:
  "\<exists>IO r. uiaa_into IO (MatrixError \<lparr>eb_kind = UnknownToken True, eb_message = ''bye'', ce_status = 401\<rparr>) = Ok r
     \<and> response_from_http (\<lambda>_. Ok ()) (uiaa_from IO) r = Err (Http (UnknownError DeJson))"
proof -
  let ?e = "\<lparr>eb_kind = UnknownToken True, eb_message = ''bye'', ce_status = 401\<rparr>"
  obtain v where v: "ser_error_body (error_body_from ?e) = Ok v"
    by (simp add: error_body_from_def ser_error_body_def ser_error_kind_def)
  let ?IO = "\<lparr>to_text = \<lambda>_. ''x'', from_text = \<lambda>_. Some v\<rparr>"
  have "client_error_readable ?IO ?e" using v by (simp add: client_error_readable_def reads_back_def)
  moreover have "uiaa_into ?IO (MatrixError ?e) = Ok (json_response 401 ''x'')" using v by (simp add: client_error_into_def)
  moreover have "ce_status ?e = UNAUTHORIZED" "kind_without_keys [''flows''] (eb_kind ?e)" by (simp_all add: UNAUTHORIZED_def)
  ultimately show ?thesis using matrix_error_401_lost[of ?e ?IO] by blast
qed

end
