(* ===== verification/Http_Client.thy ===== *)
theory Http_Client
  imports Http_Roundtrip Client_Endpoints Uiaa
begin

text \<open>The client of \<^verbatim>\<open>ruma-client\<close>: sending typed requests over an HTTP client, the session with its access token,
  logging in and registering, and the stream of sync responses; and the hand-written serialization of login information.
  The HTTP client (\<^verbatim>\<open>hyper\<close>, \<^verbatim>\<open>isahc\<close>, \<^verbatim>\<open>reqwest\<close>) and the server behind it are a function on a
  state \<open>'w\<close> of the world, which may answer every request in its own way.\<close>

section \<open>Errors\<close>

datatype ('n, 'f) client_failure =
    AuthenticationRequired | RequestFailed into_http_error | UrlInvalid | ResponseFailed 'n
  | ResponseUnreadable "'f from_http_response_error"

fun client_failure_display ::
    "(into_http_error \<Rightarrow> string) \<Rightarrow> ('n \<Rightarrow> string) \<Rightarrow> ('f from_http_response_error \<Rightarrow> string) \<Rightarrow> string
      \<Rightarrow> ('n, 'f) client_failure \<Rightarrow> string" where
  "client_failure_display i n f u AuthenticationRequired =
     ''The queried endpoint requires authentication but was called with an anonymous client.''"
| "client_failure_display i n f u (RequestFailed err) = ''HTTP request construction failed: '' @ i err"
| "client_failure_display i n f u UrlInvalid = ''Invalid URL: '' @ u"
| "client_failure_display i n f u (ResponseFailed err) = ''Couldn't obtain a response: '' @ n err"
| "client_failure_display i n f u (ResponseUnreadable err) = ''HTTP response conversion failed: '' @ f err"

section \<open>Sending requests\<close>

type_synonym ('w, 'n) http_sender = "http_request \<Rightarrow> 'w \<Rightarrow> (http_response, 'n) result \<times> 'w"

definition send_customized_request ::
    "api_io \<Rightarrow> ('w, 'n) http_sender \<Rightarrow> string \<Rightarrow> send_access_token \<Rightarrow> endpoint
      \<Rightarrow> (http_response \<Rightarrow> ('f, deserialization_error) result) \<Rightarrow> val list
      \<Rightarrow> (http_request \<Rightarrow> (http_request, ('n, 'f) client_failure) result) \<Rightarrow> 'w
      \<Rightarrow> (val list, ('n, 'f) client_failure) result \<times> 'w" where
  "send_customized_request IO http homeserver_url access_token ep error_from request customize w =
     (case and_then (map_err RequestFailed (try_into_http_request IO ep request homeserver_url access_token)) customize of
        Err e \<Rightarrow> (Err e, w)
      | Panic \<Rightarrow> (Panic, w)
      | Ok http_req \<Rightarrow> (case http http_req w of
          (Ok http_res, w') \<Rightarrow> (map_err ResponseUnreadable (try_from_http_response IO ep error_from http_res), w')
        | (Err e, w') \<Rightarrow> (Err (ResponseFailed e), w')
        | (Panic, w') \<Rightarrow> (Panic, w')))"

text \<open>The query of the request gets a further parameter; both ways of failing are errors of the URL.\<close>

definition add_user_id_to_query :: "api_io \<Rightarrow> string \<Rightarrow> http_request \<Rightarrow> (http_request, ('n, 'f) client_failure) result" where
  "add_user_id_to_query IO user_id http_request =
     (case to_string (io_form IO) (STuple [STuple [SStr ''user_id'', SStr user_id]]) of
        Ok extra_params \<Rightarrow>
          (let (path, query) = (case uri_parts IO (hq_uri http_request) of Some pq \<Rightarrow> pq | None \<Rightarrow> ([], None));
               new_path_and_query = (case query of
                 Some params \<Rightarrow> path @ ''?'' @ params @ ''&'' @ extra_params | None \<Rightarrow> path @ ''?'' @ extra_params) in
           and_then (ok_or UrlInvalid (uri_with_path_and_query IO (hq_uri http_request) new_path_and_query)) (\<lambda>uri.
           Ok (http_request\<lparr>hq_uri := uri\<rparr>)))
      | _ \<Rightarrow> Panic)"

text \<open>The convenience functions of \<open>HttpClientExt\<close>.\<close>

definition send_matrix_request ::
    "api_io \<Rightarrow> ('w, 'n) http_sender \<Rightarrow> string \<Rightarrow> send_access_token \<Rightarrow> endpoint
      \<Rightarrow> (http_response \<Rightarrow> ('f, deserialization_error) result) \<Rightarrow> val list \<Rightarrow> 'w
      \<Rightarrow> (val list, ('n, 'f) client_failure) result \<times> 'w" where
  "send_matrix_request IO http homeserver_url access_token ep error_from request =
     send_customized_request IO http homeserver_url access_token ep error_from request Ok"

definition send_matrix_request_as ::
    "api_io \<Rightarrow> ('w, 'n) http_sender \<Rightarrow> string \<Rightarrow> send_access_token \<Rightarrow> string \<Rightarrow> endpoint
      \<Rightarrow> (http_response \<Rightarrow> ('f, deserialization_error) result) \<Rightarrow> val list \<Rightarrow> 'w
      \<Rightarrow> (val list, ('n, 'f) client_failure) result \<times> 'w" where
  "send_matrix_request_as IO http homeserver_url access_token user_id ep error_from request =
     send_customized_request IO http homeserver_url access_token ep error_from request (add_user_id_to_query IO user_id)"

text \<open>The HTTP client of the documentation tests.\<close>

definition dummy_send_http_request :: "('w, unit) http_sender" where
  "dummy_send_http_request req w = (Panic, w)"

section \<open>The session\<close>

record client =
  cl_homeserver_url :: string
  cl_access_token :: "string option"

definition with_http_client :: "string \<Rightarrow> string option \<Rightarrow> client" where
  "with_http_client homeserver_url access_token = \<lparr>cl_homeserver_url = homeserver_url, cl_access_token = access_token\<rparr>"

definition send_token :: "client \<Rightarrow> send_access_token" where
  "send_token c = (case cl_access_token c of Some at \<Rightarrow> IfRequired at | None \<Rightarrow> NoToken)"

definition client_send_customized_request ::
    "api_io \<Rightarrow> ('w, 'n) http_sender \<Rightarrow> client \<Rightarrow> endpoint \<Rightarrow> (http_response \<Rightarrow> ('f, deserialization_error) result) \<Rightarrow> val list
      \<Rightarrow> (http_request \<Rightarrow> (http_request, ('n, 'f) client_failure) result) \<Rightarrow> 'w
      \<Rightarrow> (val list, ('n, 'f) client_failure) result \<times> 'w" where
  "client_send_customized_request IO http c ep error_from request customize =
     send_customized_request IO http (cl_homeserver_url c) (send_token c) ep error_from request customize"

definition client_send_request ::
    "api_io \<Rightarrow> ('w, 'n) http_sender \<Rightarrow> client \<Rightarrow> endpoint \<Rightarrow> (http_response \<Rightarrow> ('f, deserialization_error) result) \<Rightarrow> val list
      \<Rightarrow> 'w \<Rightarrow> (val list, ('n, 'f) client_failure) result \<times> 'w" where
  "client_send_request IO http c ep error_from request = client_send_customized_request IO http c ep error_from request Ok"

definition client_send_request_as ::
    "api_io \<Rightarrow> ('w, 'n) http_sender \<Rightarrow> client \<Rightarrow> string \<Rightarrow> endpoint \<Rightarrow> (http_response \<Rightarrow> ('f, deserialization_error) result)
      \<Rightarrow> val list \<Rightarrow> 'w \<Rightarrow> (val list, ('n, 'f) client_failure) result \<times> 'w" where
  "client_send_request_as IO http c user_id ep error_from request =
     client_send_customized_request IO http c ep error_from request (add_user_id_to_query IO user_id)"

section \<open>Login information\<close>

datatype login_info = PasswordLogin user_identifier string | TokenLogin string | CustomLogin string content

fun ser_login_info :: "login_info \<Rightarrow> content" where
  "ser_login_info (PasswordLogin identifier password) =
     [(''type'', JString ''m.login.password''), (''identifier'', ser_user_identifier identifier), (''password'', JString password)]"
| "ser_login_info (TokenLogin t) = [(''type'', JString ''m.login.token''), (''token'', JString t)]"
| "ser_login_info (CustomLogin login_type extra) = (''type'', JString login_type) # extra"

definition de_password_login :: "json \<Rightarrow> login_info option" where
  "de_password_login v = Option.bind (de_struct [''identifier'', ''password''] v) (\<lambda>m.
     Option.bind (de_req de_user_identifier m ''identifier'') (\<lambda>i. map_option (PasswordLogin i) (de_req de_string m ''password'')))"

definition de_token_login :: "json \<Rightarrow> login_info option" where
  "de_token_login v = Option.bind (de_struct [''token''] v) (\<lambda>m. map_option TokenLogin (de_req de_string m ''token''))"

fun de_custom_login :: "json \<Rightarrow> login_info option" where
  "de_custom_login (JObject m) =
     map_option (\<lambda>t. CustomLogin t (bt_of_list (filter (\<lambda>(k, v). k \<noteq> ''type'') m))) (de_req de_string m ''type'')"
| "de_custom_login _ = None"

definition login_info_new :: "string \<Rightarrow> content \<Rightarrow> login_info option" where
  "login_info_new login_type data =
     (if login_type = ''m.login.password'' then de_password_login (JObject data)
      else if login_type = ''m.login.token'' then de_token_login (JObject data)
      else Some (CustomLogin login_type data))"

text \<open>\<open>json["type"]\<close> of anything but an object is null.\<close>

definition de_login_info :: "json \<Rightarrow> login_info option" where
  "de_login_info v = (case v of
     JObject m \<Rightarrow> (case map_of m ''type'' of
       Some (JString t) \<Rightarrow>
         if t = ''m.login.password'' then de_password_login v
         else if t = ''m.login.token'' then de_token_login v
         else de_custom_login v
     | _ \<Rightarrow> None)
   | _ \<Rightarrow> None)"

fun login_info_ok :: "login_info \<Rightarrow> bool" where
  "login_info_ok (CustomLogin t extra) \<longleftrightarrow> t \<notin> {''m.login.password'', ''m.login.token''} \<and> bt_ok extra \<and> ''type'' \<notin> fst ` set extra"
| "login_info_ok l \<longleftrightarrow> True"

lemma login_info_roundtrip: "login_info_ok l \<Longrightarrow> de_login_info (JObject (ser_login_info l)) = Some l"
proof (cases l)
  case (CustomLogin t extra)
  assume ok: "login_info_ok l"
  have "filter (\<lambda>(k, v). k \<noteq> ''type'') extra = extra" using ok CustomLogin by (force simp: filter_id_conv)
  moreover have "bt_of_list extra = extra" using ok by (simp add: CustomLogin bt_of_list_ok)
  ultimately show ?thesis using ok by (simp add: CustomLogin de_login_info_def de_req_def)
qed (simp_all add: de_login_info_def de_password_login_def de_token_login_def de_req_def)

section \<open>Logging in and registering\<close>

text \<open>A field of a response.\<close>

definition response_field_value :: "endpoint \<Rightarrow> string \<Rightarrow> val list \<Rightarrow> val" where
  "response_field_value ep ident response =
     (case map_of (to_ident_map (ep_response ep) response) ident of Some v \<Rightarrow> v | None \<Rightarrow> VNone)"

fun text_option :: "val \<Rightarrow> string option" where
  "text_option (VSome v) = Some (text_of v)"
| "text_option _ = None"

definition option_text :: "string option \<Rightarrow> val" where
  "option_text s = (case s of Some s' \<Rightarrow> VSome (VText s') | None \<Rightarrow> VNone)"

definition login_request :: "string \<Rightarrow> string \<Rightarrow> string option \<Rightarrow> string option \<Rightarrow> val list" where
  "login_request user password device_id initial_device_display_name =
     [VJson (JObject (ser_login_info (PasswordLogin (MatrixId user) password))), option_text device_id,
      option_text initial_device_display_name]"

text \<open>\<open>register::Request::new\<close>: every field has its default.\<close>

definition register_request :: "string option \<Rightarrow> string option \<Rightarrow> string \<Rightarrow> val list" where
  "register_request username password kind =
     [option_text password, option_text username, VNone, VNone, VNone, VUnit kind, VBool False, VNone]"

text \<open>The access token is replaced when a response has arrived, by what the response holds.\<close>

definition store_token ::
    "client \<Rightarrow> (val list \<Rightarrow> string option) \<Rightarrow> (val list, 'e) result \<times> 'w \<Rightarrow> (val list, 'e) result \<times> client \<times> 'w" where
  "store_token c token_in = (\<lambda>(r, w). case r of
     Ok response \<Rightarrow> (Ok response, c\<lparr>cl_access_token := token_in response\<rparr>, w) | _ \<Rightarrow> (r, c, w))"

definition login_token :: "val list \<Rightarrow> string option" where
  "login_token response = Some (text_of (response_field_value (expanded_api login_api) ''access_token'' response))"

definition register_token :: "val list \<Rightarrow> string option" where
  "register_token response = text_option (response_field_value (expanded_api register_api) ''access_token'' response)"

definition log_in ::
    "api_io \<Rightarrow> ('w, 'n) http_sender \<Rightarrow> client \<Rightarrow> string \<Rightarrow> string \<Rightarrow> string option \<Rightarrow> string option \<Rightarrow> 'w
      \<Rightarrow> (val list, ('n, client_error) client_failure) result \<times> client \<times> 'w" where
  "log_in IO http c user password device_id initial_device_display_name w =
     store_token c login_token (client_send_request IO http c (expanded_api login_api) (client_error_from (io_json IO))
       (login_request user password device_id initial_device_display_name) w)"

definition register_guest ::
    "api_io \<Rightarrow> ('w, 'n) http_sender \<Rightarrow> client \<Rightarrow> 'w \<Rightarrow> (val list, ('n, uiaa_response) client_failure) result \<times> client \<times> 'w" where
  "register_guest IO http c w =
     store_token c register_token (client_send_request IO http c (expanded_api register_api) (uiaa_from (io_json IO))
       (register_request None None ''guest'') w)"

definition register_user ::
    "api_io \<Rightarrow> ('w, 'n) http_sender \<Rightarrow> client \<Rightarrow> string option \<Rightarrow> string \<Rightarrow> 'w
      \<Rightarrow> (val list, ('n, uiaa_response) client_failure) result \<times> client \<times> 'w" where
  "register_user IO http c username password w =
     store_token c register_token (client_send_request IO http c (expanded_api register_api) (uiaa_from (io_json IO))
       (register_request username (Some password) ''user'') w)"

section \<open>The stream of sync responses\<close>

definition sync_request :: "json option \<Rightarrow> string \<Rightarrow> string \<Rightarrow> int option \<Rightarrow> val list" where
  "sync_request sync_filter since set_presence timeout =
     [(case sync_filter of Some f \<Rightarrow> VSome (VJson f) | None \<Rightarrow> VNone), VSome (VText since), VBool False, VText set_presence,
      (case timeout of Some nanos \<Rightarrow> VSome (VInt nanos) | None \<Rightarrow> VNone)]"

definition next_batch :: "val list \<Rightarrow> string" where
  "next_batch response = text_of (response_field_value (expanded_api sync_events_api) ''next_batch'' response)"

text \<open>The state of the stream between two items: the loop with its variable \<open>since\<close>, or ended by an error.\<close>

datatype sync_stream = Syncing string | SyncEnded

text \<open>A poll runs the loop up to the next item; \<open>?\<close> yields the error and ends the stream.\<close>

fun sync_next ::
    "api_io \<Rightarrow> ('w, 'n) http_sender \<Rightarrow> client \<Rightarrow> json option \<Rightarrow> string \<Rightarrow> int option \<Rightarrow> sync_stream \<Rightarrow> 'w
      \<Rightarrow> (val list, ('n, client_error) client_failure) result option \<times> sync_stream \<times> 'w" where
  "sync_next IO http c sync_filter set_presence timeout SyncEnded w = (None, SyncEnded, w)"
| "sync_next IO http c sync_filter set_presence timeout (Syncing since) w =
     (case client_send_request IO http c (expanded_api sync_events_api) (client_error_from (io_json IO))
         (sync_request sync_filter since set_presence timeout) w of
        (Ok response, w') \<Rightarrow> (Some (Ok response), Syncing (next_batch response), w')
      | (r, w') \<Rightarrow> (Some r, SyncEnded, w'))"

text \<open>What a consumer gets that polls \<open>n\<close> times.\<close>

fun sync_take ::
    "nat \<Rightarrow> api_io \<Rightarrow> ('w, 'n) http_sender \<Rightarrow> client \<Rightarrow> json option \<Rightarrow> string \<Rightarrow> int option \<Rightarrow> sync_stream \<Rightarrow> 'w
      \<Rightarrow> (val list, ('n, client_error) client_failure) result list \<times> sync_stream \<times> 'w" where
  "sync_take 0 IO http c sync_filter set_presence timeout st w = ([], st, w)"
| "sync_take (Suc n) IO http c sync_filter set_presence timeout st w =
     (case sync_next IO http c sync_filter set_presence timeout st w of
        (None, st', w') \<Rightarrow> ([], st', w')
      | (Some r, st', w') \<Rightarrow> (case sync_take n IO http c sync_filter set_presence timeout st' w' of (rs, out) \<Rightarrow> (r # rs, out)))"

section \<open>What is sent\<close>

text \<open>An HTTP client that remembers its messages.\<close>

definition traced :: "('w, 'n) http_sender \<Rightarrow> ('w \<times> (http_request \<times> (http_response, 'n) result) list, 'n) http_sender" where
  "traced http req = (\<lambda>(w, tr). case http req w of (r, w') \<Rightarrow> (r, w', tr @ [(req, r)]))"

text \<open>A request of the client is the HTTP request of its typed request, and the only message.\<close>

lemma send_traced:
  "client_send_request IO (traced http) c ep error_from request (w, tr) =
     (case try_into_http_request IO ep request (cl_homeserver_url c) (send_token c) of
        Err e \<Rightarrow> (Err (RequestFailed e), w, tr)
      | Panic \<Rightarrow> (Panic, w, tr)
      | Ok req \<Rightarrow> (case http req w of
          (Ok res, w') \<Rightarrow> (map_err ResponseUnreadable (try_from_http_response IO ep error_from res), w', tr @ [(req, Ok res)])
        | (Err e, w') \<Rightarrow> (Err (ResponseFailed e), w', tr @ [(req, Err e)])
        | (Panic, w') \<Rightarrow> (Panic, w', tr @ [(req, Panic)])))"
  by (auto simp: client_send_request_def client_send_customized_request_def send_customized_request_def traced_def
      split: result.splits prod.splits)

lemma send_step:
  assumes "client_send_request IO (traced http) c ep error_from request (w, tr) = (r, w', tr')"
  shows "(tr' = tr \<and> \<not> is_ok r) \<or> (\<exists>req res. tr' = tr @ [(req, res)]
     \<and> try_into_http_request IO ep request (cl_homeserver_url c) (send_token c) = Ok req
     \<and> (\<forall>response. r = Ok response \<longrightarrow> (\<exists>hr. res = Ok hr \<and> try_from_http_response IO ep error_from hr = Ok response)))"
  using assms unfolding send_traced by (auto simp: res_simps split: result.splits prod.splits)

section \<open>Sessions\<close>

text \<open>What a program does with a client, one call after the other; the results are not looked at.\<close>

datatype client_op =
    Send endpoint "val list"
  | LogIn string string "string option" "string option"
  | RegisterGuest
  | RegisterUser "string option" string
  | SyncPoll "json option" string "int option" string

fun run_op :: "api_io \<Rightarrow> ('w, 'n) http_sender \<Rightarrow> client_op \<Rightarrow> client \<times> 'w \<Rightarrow> client \<times> 'w" where
  "run_op IO http (Send ep request) (c, w) =
     (c, snd (client_send_request IO http c ep (client_error_from (io_json IO)) request w))"
| "run_op IO http (LogIn user password device_id name) (c, w) = snd (log_in IO http c user password device_id name w)"
| "run_op IO http RegisterGuest (c, w) = snd (register_guest IO http c w)"
| "run_op IO http (RegisterUser username password) (c, w) = snd (register_user IO http c username password w)"
| "run_op IO http (SyncPoll sync_filter set_presence timeout since) (c, w) =
     (c, snd (snd (sync_next IO http c sync_filter set_presence timeout (Syncing since) w)))"

definition run_ops :: "api_io \<Rightarrow> ('w, 'n) http_sender \<Rightarrow> client_op list \<Rightarrow> client \<times> 'w \<Rightarrow> client \<times> 'w" where
  "run_ops IO http = fold (run_op IO http)"

fun op_ok :: "client_op \<Rightarrow> bool" where
  "op_ok (Send ep request) \<longleftrightarrow> headers_ok request_header (ep_request ep)"
| "op_ok _ \<longleftrightarrow> True"

text \<open>A message of the trace is a login (a registration) that granted a token: its request is the HTTP request of a login (a
  registration) to the home server, and its response is the readable one that holds the token.\<close>

definition login_sent :: "api_io \<Rightarrow> string \<Rightarrow> http_request \<Rightarrow> bool" where
  "login_sent IO url req \<longleftrightarrow> (\<exists>user password device_id name access_token.
     try_into_http_request IO (expanded_api login_api) (login_request user password device_id name) url access_token = Ok req)"

definition registration_sent :: "api_io \<Rightarrow> string \<Rightarrow> http_request \<Rightarrow> bool" where
  "registration_sent IO url req \<longleftrightarrow> (\<exists>username password kind access_token.
     try_into_http_request IO (expanded_api register_api) (register_request username password kind) url access_token = Ok req)"

definition grants :: "api_io \<Rightarrow> string \<Rightarrow> http_request \<times> (http_response, 'n) result \<Rightarrow> string \<Rightarrow> bool" where
  "grants IO url m t \<longleftrightarrow> (\<exists>r response. snd m = Ok r \<and>
     (login_sent IO url (fst m) \<and> login_token response = Some t
        \<and> try_from_http_response IO (expanded_api login_api) (client_error_from (io_json IO)) r = Ok response
    \<or> registration_sent IO url (fst m) \<and> register_token response = Some t
        \<and> try_from_http_response IO (expanded_api register_api) (uiaa_from (io_json IO)) r = Ok response))"

definition token_known :: "api_io \<Rightarrow> string \<Rightarrow> string option \<Rightarrow> (http_request \<times> (http_response, 'n) result) list \<Rightarrow> string \<Rightarrow> bool" where
  "token_known IO url t0 tr t \<longleftrightarrow> t0 = Some t \<or> (\<exists>m\<in>set tr. grants IO url m t)"

text \<open>The invariant: the token of the session is known, and so was the token of each request when it was sent.\<close>

definition tokens_ok :: "api_io \<Rightarrow> string \<Rightarrow> string option \<Rightarrow> client \<Rightarrow> (http_request \<times> (http_response, 'n) result) list \<Rightarrow> bool" where
  "tokens_ok IO url t0 c tr \<longleftrightarrow> cl_homeserver_url c = url
     \<and> (\<forall>t. cl_access_token c = Some t \<longrightarrow> token_known IO url t0 tr t)
     \<and> (\<forall>before req res after h. tr = before @ (req, res) # after \<longrightarrow> map_of (hq_headers req) ''authorization'' = Some h \<longrightarrow>
          (\<exists>t. header_from_str IO (''Bearer '' @ t) = Some h \<and> token_known IO url t0 before t))"

lemma token_known_append: "token_known IO url t0 tr t \<Longrightarrow> token_known IO url t0 (tr @ xs) t"
  by (auto simp: token_known_def)

lemma tokens_ok_snoc:
  assumes "tokens_ok IO url t0 c tr"
    and "\<And>h. map_of (hq_headers (fst m)) ''authorization'' = Some h \<Longrightarrow>
      \<exists>t. header_from_str IO (''Bearer '' @ t) = Some h \<and> cl_access_token c = Some t"
  shows "tokens_ok IO url t0 c (tr @ [m])"
  unfolding tokens_ok_def
proof (intro conjI allI impI)
  fix before req res after h
  assume s: "tr @ [m] = before @ (req, res) # after" and h: "map_of (hq_headers req) ''authorization'' = Some h"
  show "\<exists>t. header_from_str IO (''Bearer '' @ t) = Some h \<and> token_known IO url t0 before t"
  proof (cases after rule: rev_cases)
    case Nil
    then have "before = tr" "m = (req, res)" using s by simp_all
    then show ?thesis using assms h by (fastforce simp: tokens_ok_def)
  next
    case (snoc after' x)
    have "tr @ [m] = (before @ (req, res) # after') @ [x]" using s snoc by simp
    then have "tr = before @ (req, res) # after'" by (metis butlast_snoc)
    then show ?thesis using assms(1) h by (auto simp: tokens_ok_def)
  qed
qed (use assms(1) token_known_append in \<open>auto simp: tokens_ok_def\<close>)

lemma token_for_send: "token_for auth (send_token c) = Some t \<Longrightarrow> cl_access_token c = Some t"
  by (cases auth) (auto simp: send_token_def split: option.splits)

lemma send_keeps_tokens:
  assumes "client_send_request IO (traced http) c ep error_from request (w, tr) = (r, w', tr')"
    and "tokens_ok IO url t0 c tr" "headers_ok request_header (ep_request ep)"
  shows "tokens_ok IO url t0 c tr'"
proof -
  consider "tr' = tr" | req res where "tr' = tr @ [(req, res)]" "try_into_http_request IO ep request (cl_homeserver_url c) (send_token c) = Ok req"
    using send_step[OF assms(1)] by blast
  then show ?thesis
  proof cases
    case 2
    have "\<exists>t. header_from_str IO (''Bearer '' @ t) = Some h \<and> cl_access_token c = Some t"
      if "map_of (hq_headers req) ''authorization'' = Some h" for h
      using request_authorization[OF 2(2) assms(3)] that token_for_send by (fastforce split: option.splits)
    then show ?thesis unfolding 2(1) by (intro tokens_ok_snoc[OF assms(2)]) simp
  qed (use assms(2) in simp)
qed

lemma store_keeps_tokens:
  fixes http :: "('w, 'n) http_sender"
  assumes s: "client_send_request IO (traced http) c ep error_from request (w, tr) = (r, w', tr')"
    and inv: "tokens_ok IO url t0 c tr" "headers_ok request_header (ep_request ep)"
    and g: "\<And>req hr response t. try_into_http_request IO ep request url (send_token c) = Ok req \<Longrightarrow>
      try_from_http_response IO ep error_from hr = Ok response \<Longrightarrow> token_in response = Some t \<Longrightarrow>
      grants IO url (req, Ok hr :: (http_response, 'n) result) t"
  shows "case store_token c token_in (r, w', tr') of (r', c', w'', tr'') \<Rightarrow> tokens_ok IO url t0 c' tr''"
proof (cases r)
  case (Ok response)
  have "tokens_ok IO url t0 c tr'" by (rule send_keeps_tokens[OF s inv])
  moreover obtain req hr where m: "tr' = tr @ [(req, Ok hr)]" "try_from_http_response IO ep error_from hr = Ok response"
      "try_into_http_request IO ep request (cl_homeserver_url c) (send_token c) = Ok req"
    using send_step[OF s] by (auto simp: Ok res_simps)
  moreover have "cl_homeserver_url c = url" using inv(1) by (simp add: tokens_ok_def)
  then have "token_known IO url t0 tr' t" if "token_in response = Some t" for t
    using g[OF _ m(2) that] m(1,3) by (simp add: token_known_def)
  ultimately show ?thesis by (simp add: store_token_def Ok tokens_ok_def)
qed (use send_keeps_tokens[OF s inv] in \<open>simp_all add: store_token_def\<close>)

lemma login_grants:
  "try_into_http_request IO (expanded_api login_api) (login_request user password device_id name) url access_token = Ok req \<Longrightarrow>
   try_from_http_response IO (expanded_api login_api) (client_error_from (io_json IO)) hr = Ok response \<Longrightarrow>
   login_token response = Some t \<Longrightarrow> grants IO url (req, Ok hr) t"
  unfolding grants_def login_sent_def fst_conv snd_conv by blast

lemma registration_grants:
  "try_into_http_request IO (expanded_api register_api) (register_request username password kind) url access_token = Ok req \<Longrightarrow>
   try_from_http_response IO (expanded_api register_api) (uiaa_from (io_json IO)) hr = Ok response \<Longrightarrow>
   register_token response = Some t \<Longrightarrow> grants IO url (req, Ok hr) t"
  unfolding grants_def registration_sent_def fst_conv snd_conv by blast

lemma client_endpoints_headers:
  "headers_ok request_header (ep_request (expanded_api login_api))" "headers_ok request_header (ep_request (expanded_api register_api))"
  "headers_ok request_header (ep_request (expanded_api sync_events_api))"
  by code_simp+

lemma run_op_keeps_tokens:
  assumes "op_ok op" "tokens_ok IO url t0 c tr" "run_op IO (traced http) op (c, w, tr) = (c', w', tr')"
  shows "tokens_ok IO url t0 c' tr'"
proof (cases op)
  case (Send ep request)
  obtain r w1 tr1 where s: "client_send_request IO (traced http) c ep (client_error_from (io_json IO)) request (w, tr) = (r, w1, tr1)"
    by (metis surj_pair)
  show ?thesis using send_keeps_tokens[OF s assms(2)] assms(1,3) by (simp add: Send s)
next
  case (LogIn user password device_id name)
  obtain r w1 tr1 where s: "client_send_request IO (traced http) c (expanded_api login_api) (client_error_from (io_json IO))
      (login_request user password device_id name) (w, tr) = (r, w1, tr1)" by (metis surj_pair)
  have "case store_token c login_token (r, w1, tr1) of (r', c', w'', tr'') \<Rightarrow> tokens_ok IO url t0 c' tr''"
    by (rule store_keeps_tokens[OF s assms(2) client_endpoints_headers(1)]) (rule login_grants)
  then show ?thesis using assms(3) by (auto simp: LogIn log_in_def s split: prod.splits)
next
  case RegisterGuest
  obtain r w1 tr1 where s: "client_send_request IO (traced http) c (expanded_api register_api) (uiaa_from (io_json IO))
      (register_request None None ''guest'') (w, tr) = (r, w1, tr1)" by (metis surj_pair)
  have "case store_token c register_token (r, w1, tr1) of (r', c', w'', tr'') \<Rightarrow> tokens_ok IO url t0 c' tr''"
    by (rule store_keeps_tokens[OF s assms(2) client_endpoints_headers(2)]) (rule registration_grants)
  then show ?thesis using assms(3) by (auto simp: RegisterGuest register_guest_def s split: prod.splits)
next
  case (RegisterUser username password)
  obtain r w1 tr1 where s: "client_send_request IO (traced http) c (expanded_api register_api) (uiaa_from (io_json IO))
      (register_request username (Some password) ''user'') (w, tr) = (r, w1, tr1)" by (metis surj_pair)
  have "case store_token c register_token (r, w1, tr1) of (r', c', w'', tr'') \<Rightarrow> tokens_ok IO url t0 c' tr''"
    by (rule store_keeps_tokens[OF s assms(2) client_endpoints_headers(2)]) (rule registration_grants)
  then show ?thesis using assms(3) by (auto simp: RegisterUser register_user_def s split: prod.splits)
next
  case (SyncPoll sync_filter set_presence timeout since)
  obtain r w1 tr1 where s: "client_send_request IO (traced http) c (expanded_api sync_events_api) (client_error_from (io_json IO))
      (sync_request sync_filter since set_presence timeout) (w, tr) = (r, w1, tr1)" by (metis surj_pair)
  show ?thesis using send_keeps_tokens[OF s assms(2) client_endpoints_headers(3)] assms(3)
    by (auto simp: SyncPoll s split: result.splits)
qed

lemma run_ops_keep_tokens:
  assumes "list_all op_ok ops" "tokens_ok IO url t0 c tr" "run_ops IO (traced http) ops (c, w, tr) = (c', w', tr')"
  shows "tokens_ok IO url t0 c' tr'"
  using assms
proof (induction ops arbitrary: c w tr)
  case (Cons op ops)
  obtain c1 w1 tr1 where s: "run_op IO (traced http) op (c, w, tr) = (c1, w1, tr1)" by (metis surj_pair)
  have "tokens_ok IO url t0 c1 tr1" using run_op_keeps_tokens[OF _ Cons.prems(2) s] Cons.prems(1) by simp
  then show ?case using Cons.IH Cons.prems(1,3) by (simp add: run_ops_def s)
qed (simp add: run_ops_def)

section \<open>A sample server\<close>

text \<open>It answers every request with the same object.\<close>

definition sample_answer :: json where
  "sample_answer = JObject [(''access_token'', JString ''tok''), (''device_id'', JString ''D''), (''next_batch'', JString ''s1''),
     (''user_id'', JString ''@u:h.org'')]"

definition sample_client_io :: api_io where
  "sample_client_io = sample_io sample_answer ''{}'' [(''since'', ''s1'')] ''since=s1''"

definition sample_server :: "(unit, unit) http_sender" where
  "sample_server req w = (Ok \<lparr>rs_status = 200, rs_headers = [], rs_body = ''{}''\<rparr>, w)"

definition sample_client :: client where
  "sample_client = with_http_client ''https://h.org'' None"

text \<open>C7. Over a whole session, whatever the server answers, every access token that a request carries is the one the client
  was made with, or it was granted before: an earlier message of the session is a login or a registration sent to the home
  server together with a response that holds this token.  Tokens in the answers to other requests are never sent.\<close>

theorem session_tokens_known:
  assumes "list_all op_ok ops" "run_ops IO (traced http) ops (c, w, []) = (c', w', tr)"
    and "tr = before @ (req, res) # after" "map_of (hq_headers req) ''authorization'' = Some h"
  shows "\<exists>t. header_from_str IO (''Bearer '' @ t) = Some h
    \<and> (cl_access_token c = Some t \<or> (\<exists>m\<in>set before. grants IO (cl_homeserver_url c) m t))"
proof -
  have "tokens_ok IO (cl_homeserver_url c) (cl_access_token c) c []" by (simp add: tokens_ok_def token_known_def)
  then have "tokens_ok IO (cl_homeserver_url c) (cl_access_token c) c' tr" using run_ops_keep_tokens[OF assms(1) _ assms(2)] by blast
  then show ?thesis using assms(3,4) by (auto simp: tokens_ok_def token_known_def)
qed

text \<open>A client without a token logs in and then logs out: the second request carries the token that the first message granted.\<close>

lemma session_tokens_known_witness:
  "\<exists>login logout. snd (snd (run_ops sample_client_io (traced sample_server)
       [LogIn ''u'' ''p'' None None, Send (expanded_api logout_api) []] (sample_client, (), []))) = [login, logout]
     \<and> map_of (hq_headers (fst logout)) ''authorization'' = Some ''Bearer tok''
     \<and> (\<exists>t. header_from_str sample_client_io (''Bearer '' @ t) = Some ''Bearer tok'' \<and> grants sample_client_io ''https://h.org'' login t)"
proof -
  let ?ops = "[LogIn ''u'' ''p'' None None, Send (expanded_api logout_api) []]"
  let ?out = "run_ops sample_client_io (traced sample_server) ?ops (sample_client, (), [])"
  have o: "?out = (fst ?out, fst (snd ?out), snd (snd ?out))" by (simp only: prod.collapse)
  have ok: "list_all op_ok ?ops" by code_simp
  have "case snd (snd ?out) of [login, logout] \<Rightarrow> map_of (hq_headers (fst logout)) ''authorization'' = Some ''Bearer tok'' | _ \<Rightarrow> False"
    by code_simp
  then obtain login req res where m: "snd (snd ?out) = [login] @ (req, res) # []"
      "map_of (hq_headers req) ''authorization'' = Some ''Bearer tok''"
    by (auto split: list.splits)
  show ?thesis using session_tokens_known[OF ok o m] m by (auto simp: sample_client_def with_http_client_def)
qed

text \<open>After a login has succeeded, every request to an endpoint that needs a token carries the token of the login
  response; a login that fails leaves the session as it was.\<close>

lemma logged_in_requests_authorized:
  assumes "log_in IO http c user password device_id name w = (r, c', w')"
  shows "case r of
      Ok response \<Rightarrow> \<forall>ep vals base_url req. md_authentication (ep_meta ep) = AccessToken \<and> headers_ok request_header (ep_request ep)
        \<and> try_into_http_request IO ep vals base_url (send_token c') = Ok req
        \<longrightarrow> (\<exists>h. header_from_str IO (''Bearer '' @ text_of (response_field_value (expanded_api login_api) ''access_token'' response)) = Some h
              \<and> map_of (hq_headers req) ''authorization'' = Some h)
    | _ \<Rightarrow> c' = c"
proof (cases r)
  case (Ok response)
  have "send_token c' = IfRequired (text_of (response_field_value (expanded_api login_api) ''access_token'' response))"
    using assms by (auto simp: log_in_def store_token_def Ok send_token_def login_token_def split: result.splits prod.splits)
  then show ?thesis using request_authorization by (fastforce simp: Ok)
qed (use assms in \<open>auto simp: log_in_def store_token_def split: result.splits prod.splits\<close>)

lemma logged_in_requests_authorized_witness:
  "\<exists>req. try_into_http_request sample_client_io (expanded_api logout_api) [] ''https://h.org''
       (send_token (fst (snd (log_in sample_client_io sample_server sample_client ''u'' ''p'' None None ())))) = Ok req
     \<and> map_of (hq_headers req) ''authorization'' = Some ''Bearer tok''"
proof -
  let ?out = "log_in sample_client_io sample_server sample_client ''u'' ''p'' None None ()"
  have o: "?out = (fst ?out, fst (snd ?out), snd (snd ?out))" by (simp only: prod.collapse)
  have "case fst ?out of
      Ok response \<Rightarrow> text_of (response_field_value (expanded_api login_api) ''access_token'' response) = ''tok'' | _ \<Rightarrow> False" by code_simp
  then obtain response where r: "fst ?out = Ok response"
      "text_of (response_field_value (expanded_api login_api) ''access_token'' response) = ''tok''" by (cases "fst ?out") auto
  have "is_ok (try_into_http_request sample_client_io (expanded_api logout_api) [] ''https://h.org'' (send_token (fst (snd ?out))))"
    by code_simp
  then obtain req where req: "try_into_http_request sample_client_io (expanded_api logout_api) [] ''https://h.org''
      (send_token (fst (snd ?out))) = Ok req" by (auto simp: res_simps)
  have "md_authentication (ep_meta (expanded_api logout_api)) = AccessToken" "headers_ok request_header (ep_request (expanded_api logout_api))"
    by code_simp+
  then have "\<exists>h. header_from_str sample_client_io ''Bearer tok'' = Some h \<and> map_of (hq_headers req) ''authorization'' = Some h"
    using logged_in_requests_authorized[OF o] req r by (fastforce simp: r(1))
  then show ?thesis using req by (simp add: sample_client_io_def sample_io_def)
qed

section \<open>Progress of the sync stream\<close>

text \<open>C14. As long as the server answers each sync request with a readable response, the stream never ends: for every
  number of polls there are that many responses, and the stream goes on from the last one.\<close>

theorem sync_stream_live:
  assumes good: "\<And>since w. good since w \<Longrightarrow> \<exists>response w'.
      client_send_request IO http c (expanded_api sync_events_api) (client_error_from (io_json IO))
        (sync_request sync_filter since set_presence timeout) w = (Ok response, w') \<and> good (next_batch response) w'"
    and start: "good since w"
  shows "\<exists>responses w'. length responses = n
     \<and> sync_take n IO http c sync_filter set_presence timeout (Syncing since) w
         = (map Ok responses, Syncing (last (since # map next_batch responses)), w')"
  using start
proof (induction n arbitrary: since w)
  case (Suc n)
  obtain response w1 where r: "client_send_request IO http c (expanded_api sync_events_api) (client_error_from (io_json IO))
      (sync_request sync_filter since set_presence timeout) w = (Ok response, w1)" "good (next_batch response) w1"
    using good[OF Suc.prems] by blast
  obtain responses w2 where rs: "length responses = n"
      "sync_take n IO http c sync_filter set_presence timeout (Syncing (next_batch response)) w1
        = (map Ok responses, Syncing (last (next_batch response # map next_batch responses)), w2)"
    using Suc.IH[OF r(2)] by blast
  show ?case using rs by (intro exI[of _ "response # responses"] exI[of _ w2]) (simp add: r(1))
qed simp

lemma sync_stream_live_witness:
  "\<exists>responses w'. length responses = 3
     \<and> sync_take 3 sample_client_io sample_server (with_http_client ''https://h.org'' (Some ''tok'')) None ''online'' None (Syncing ''s1'') ()
         = (map Ok responses, Syncing (last (''s1'' # map next_batch responses)), w')"
proof (rule sync_stream_live[where good = "\<lambda>since w. since = ''s1''"])
  let ?send = "client_send_request sample_client_io sample_server (with_http_client ''https://h.org'' (Some ''tok''))
      (expanded_api sync_events_api) (client_error_from (io_json sample_client_io)) (sync_request None ''s1'' ''online'' None)"
  have "case fst (?send ()) of Ok response \<Rightarrow> next_batch response = ''s1'' | _ \<Rightarrow> False" by code_simp
  then have *: "\<exists>response w'. ?send () = (Ok response, w') \<and> next_batch response = ''s1''"
    by (cases "?send ()") (auto split: result.splits)
  show "\<exists>response w'. client_send_request sample_client_io sample_server (with_http_client ''https://h.org'' (Some ''tok''))
      (expanded_api sync_events_api) (client_error_from (io_json sample_client_io)) (sync_request None since ''online'' None) w
      = (Ok response, w') \<and> next_batch response = ''s1''" if "since = ''s1''" for since and w :: unit
    using * that by simp
qed simp

text \<open>The batch that the \<open>i\<close>-th poll asks for.\<close>

definition batch_before :: "string \<Rightarrow> (val list, 'e) result list \<Rightarrow> nat \<Rightarrow> string" where
  "batch_before since rs i = (case i of 0 \<Rightarrow> since | Suc j \<Rightarrow> (case rs ! j of Ok response \<Rightarrow> next_batch response | _ \<Rightarrow> since))"

text \<open>C13. The stream misses no batch and repeats none: its first request continues from the token it was given, each further
  one from the response that was yielded before it; only the last item can be an error, and nothing is sent after it.\<close>

theorem sync_requests_chained:
  assumes "sync_take n IO (traced http) c sync_filter set_presence timeout (Syncing since) (w, tr) = (rs, st, w', tr')"
  shows "\<exists>sent. tr' = tr @ sent \<and> length sent \<le> length rs
     \<and> (\<forall>i<length sent. try_into_http_request IO (expanded_api sync_events_api)
           (sync_request sync_filter (batch_before since rs i) set_presence timeout) (cl_homeserver_url c) (send_token c) = Ok (fst (sent ! i)))
     \<and> (\<forall>i. Suc i < length rs \<longrightarrow> is_ok (rs ! i))"
  using assms
proof (induction n arbitrary: since w tr rs)
  case (Suc n)
  let ?send = "client_send_request IO (traced http) c (expanded_api sync_events_api) (client_error_from (io_json IO))
      (sync_request sync_filter since set_presence timeout) (w, tr)"
  obtain r w1 tr1 where s: "?send = (r, w1, tr1)" by (metis surj_pair)
  note step = send_step[OF s]
  show ?case
  proof (cases r)
    case (Ok response)
    obtain req res where t1: "tr1 = tr @ [(req, res)]" "try_into_http_request IO (expanded_api sync_events_api)
        (sync_request sync_filter since set_presence timeout) (cl_homeserver_url c) (send_token c) = Ok req"
      using step by (auto simp: Ok res_simps)
    obtain rs' where rs: "rs = Ok response # rs'"
        "sync_take n IO (traced http) c sync_filter set_presence timeout (Syncing (next_batch response)) (w1, tr1) = (rs', st, w', tr')"
      using Suc.prems s by (auto simp: Ok split: prod.splits)
    obtain sent where sent: "tr' = tr1 @ sent" "length sent \<le> length rs'"
        "\<And>i. i < length sent \<Longrightarrow> try_into_http_request IO (expanded_api sync_events_api)
           (sync_request sync_filter (batch_before (next_batch response) rs' i) set_presence timeout) (cl_homeserver_url c) (send_token c)
           = Ok (fst (sent ! i))"
        "\<And>i. Suc i < length rs' \<Longrightarrow> is_ok (rs' ! i)"
      using Suc.IH[OF rs(2)] by blast
    have batch: "batch_before since rs (Suc i) = batch_before (next_batch response) rs' i" if "i < length sent" for i
    proof (cases i)
      case (Suc j)
      have "is_ok (rs' ! j)" using sent(2) that Suc by (intro sent(4)) simp
      then show ?thesis by (auto simp: batch_before_def rs(1) Suc res_simps)
    qed (simp add: batch_before_def rs(1))
    show ?thesis
    proof (intro exI[of _ "(req, res) # sent"] conjI allI impI)
      fix i assume "i < length ((req, res) # sent)"
      then show "try_into_http_request IO (expanded_api sync_events_api)
           (sync_request sync_filter (batch_before since rs i) set_presence timeout) (cl_homeserver_url c) (send_token c)
           = Ok (fst (((req, res) # sent) ! i))"
        using batch sent(3) t1(2) by (cases i) (simp_all add: batch_before_def)
    next
      fix i assume "Suc i < length rs"
      then show "is_ok (rs ! i)" using sent(4) by (cases i) (simp_all add: rs(1))
    qed (use sent(1,2) t1(1) rs(1) in simp_all)
  next
    case (Err e)
    have "rs = [Err e]" "tr' = tr1" using Suc.prems s by (cases n; auto simp: Err split: prod.splits)+
    then show ?thesis using step by (auto simp: Err batch_before_def)
  next
    case Panic
    have "rs = [Panic]" "tr' = tr1" using Suc.prems s by (cases n; auto simp: Panic split: prod.splits)+
    then show ?thesis using step by (auto simp: Panic batch_before_def)
  qed
qed simp

lemma sync_requests_chained_witness:
  "\<exists>sent. snd (snd (snd (sync_take 2 sample_client_io (traced sample_server) (with_http_client ''https://h.org'' (Some ''tok''))
       None ''online'' None (Syncing ''s1'') ((), [])))) = [] @ sent \<and> length sent \<le> 2"
proof -
  let ?out = "sync_take 2 sample_client_io (traced sample_server) (with_http_client ''https://h.org'' (Some ''tok''))
       None ''online'' None (Syncing ''s1'') ((), [])"
  have o: "?out = (fst ?out, fst (snd ?out), fst (snd (snd ?out)), snd (snd (snd ?out)))" by (simp only: prod.collapse)
  have "length (fst ?out) = 2" by code_simp
  then show ?thesis using sync_requests_chained[OF o] by metis
qed

end
