(* ===== verification/Room_Messages.thy ===== *)
theory Room_Messages
  imports Serde_Roundtrip Common_Types
begin

text \<open>Room messages of \<^verbatim>\<open>ruma-events\<close>: the message types with their data, their hand-written deserialization, relations
  to other messages, and replies, which quote the original message as text and as HTML.  The data of a message type is a value
  of its described struct (\<open>Common_Types\<close>).\<close>

section \<open>Message types\<close>

datatype message_kind = Audio | Emote | File | Image | Location | Notice | ServerNotice | Text | Video

definition message_kinds :: "message_kind list" where
  "message_kinds = [Audio, Emote, File, Image, Location, Notice, ServerNotice, Text, Video]"

datatype message_type = Message message_kind val | CustomMessage string string "(string \<times> json) list"

fun kind_name :: "message_kind \<Rightarrow> string" where
  "kind_name Audio = ''m.audio''"
| "kind_name Emote = ''m.emote''"
| "kind_name File = ''m.file''"
| "kind_name Image = ''m.image''"
| "kind_name Location = ''m.location''"
| "kind_name Notice = ''m.notice''"
| "kind_name ServerNotice = ''m.server_notice''"
| "kind_name Text = ''m.text''"
| "kind_name Video = ''m.video''"

fun kind_ty :: "message_kind \<Rightarrow> ty" where
  "kind_ty Audio = message_AudioMessageEventContent"
| "kind_ty Emote = message_EmoteMessageEventContent"
| "kind_ty File = message_FileMessageEventContent"
| "kind_ty Image = message_ImageMessageEventContent"
| "kind_ty Location = message_LocationMessageEventContent"
| "kind_ty Notice = message_NoticeMessageEventContent"
| "kind_ty ServerNotice = message_ServerNoticeMessageEventContent"
| "kind_ty Text = message_TextMessageEventContent"
| "kind_ty Video = message_VideoMessageEventContent"

definition kind_named :: "string \<Rightarrow> message_kind option" where
  "kind_named name = find (\<lambda>k. kind_name k = name) message_kinds"

text \<open>Every struct has its body first; text, notices and emotes then have the formatted body.\<close>

definition struct_body :: "val \<Rightarrow> string" where
  "struct_body v = (case v of VStruct (b # fs) \<Rightarrow> text_of b | _ \<Rightarrow> [])"

definition struct_formatted :: "val \<Rightarrow> string option" where
  "struct_formatted v = (case v of VStruct [b, VSome (VStruct [format, html])] \<Rightarrow> Some (text_of html) | _ \<Rightarrow> None)"

definition message_msgtype :: "message_type \<Rightarrow> string" where
  "message_msgtype m = (case m of Message k v \<Rightarrow> kind_name k | CustomMessage t b d \<Rightarrow> t)"

definition message_body :: "message_type \<Rightarrow> string" where
  "message_body m = (case m of Message k v \<Rightarrow> struct_body v | CustomMessage t b d \<Rightarrow> b)"

text \<open>\<open>data()\<close>; both panics are kept.\<close>

definition message_data :: "message_type \<Rightarrow> ((string \<times> json) list, unit) result" where
  "message_data m = (case m of
     Message k v \<Rightarrow> (case ser (kind_ty k) v of Ok (JObject obj) \<Rightarrow> Ok (bt_remove ''body'' obj) | _ \<Rightarrow> Panic)
   | CustomMessage t b d \<Rightarrow> Ok d)"

definition message_type_new ::
    "serde_env \<Rightarrow> string \<Rightarrow> string \<Rightarrow> (string \<times> json) list \<Rightarrow> (message_type, serde_error) result" where
  "message_type_new E msgtype txt data = (case kind_named msgtype of
     Some k \<Rightarrow> and_then (de E (kind_ty k) (JObject (bt_insert ''body'' (JString txt) data))) (\<lambda>v. Ok (Message k v))
   | None \<Rightarrow> Ok (CustomMessage msgtype txt data))"

section \<open>Constructors of the data\<close>

definition formatted_html :: "string \<Rightarrow> val" where
  "formatted_html txt = VStruct [VText ''org.matrix.custom.html'', VText txt]"

text \<open>The structs of text, notices and emotes have the same shape.\<close>

definition plain_struct :: "string \<Rightarrow> val" where
  "plain_struct txt = VStruct [VText txt, VNone]"

definition html_struct :: "string \<Rightarrow> string \<Rightarrow> val" where
  "html_struct txt html_body = VStruct [VText txt, VSome (formatted_html html_body)]"

text \<open>Those of audio, images and videos too; the optional \<open>info\<close> and the file are values of their structs.\<close>

definition media_plain :: "string \<Rightarrow> string \<Rightarrow> val \<Rightarrow> val" where
  "media_plain txt url info = VStruct [VText txt, VSome (VText url), VNone, info]"

definition media_encrypted :: "string \<Rightarrow> val \<Rightarrow> val" where
  "media_encrypted txt file = VStruct [VText txt, VNone, VSome file, VNone]"

definition file_plain :: "string \<Rightarrow> string \<Rightarrow> val \<Rightarrow> val" where
  "file_plain txt url info = VStruct [VText txt, VNone, VSome (VText url), VNone, info]"

definition file_encrypted :: "string \<Rightarrow> val \<Rightarrow> val" where
  "file_encrypted txt file = VStruct [VText txt, VNone, VNone, VSome file, VNone]"

definition location_new :: "string \<Rightarrow> string \<Rightarrow> val" where
  "location_new txt geo_uri = VStruct [VText txt, VText geo_uri, VNone]"

definition server_notice_new :: "string \<Rightarrow> string \<Rightarrow> val" where
  "server_notice_new txt server_notice_type = VStruct [VText txt, VText server_notice_type, VNone, VNone]"

section \<open>JSON of message types\<close>

definition ser_message_type :: "message_type \<Rightarrow> (json, ser_error) result" where
  "ser_message_type m = (case m of
     Message k v \<Rightarrow> ser (kind_ty k) v
   | CustomMessage t b d \<Rightarrow> ser message_CustomEventContent (VStruct [VText t, VText b, VMap (map (\<lambda>(k, j). (k, VJson j)) d)]))"

definition message_type_de_helper :: ty where
  "message_type_de_helper = FStruct None [Field ''msgtype'' (FText AnyText) NeverSkip None False]"

definition custom_of :: "val \<Rightarrow> message_type" where
  "custom_of v = (case v of
     VStruct [t, b, VMap d] \<Rightarrow> CustomMessage (text_of t) (text_of b) (map (\<lambda>(k, w). (k, case w of VJson j \<Rightarrow> j | _ \<Rightarrow> JNull)) d)
   | _ \<Rightarrow> CustomMessage [] [] [])"

definition de_message_type :: "serde_env \<Rightarrow> json \<Rightarrow> (message_type, serde_error) result" where
  "de_message_type E j = and_then (de E message_type_de_helper j) (\<lambda>h.
     let msgtype = (case h of VStruct [t] \<Rightarrow> text_of t | _ \<Rightarrow> []) in
     case kind_named msgtype of
       Some k \<Rightarrow> and_then (de E (kind_ty k) j) (\<lambda>v. Ok (Message k v))
     | None \<Rightarrow> and_then (de E message_CustomEventContent j) (\<lambda>v. Ok (custom_of v)))"

section \<open>Relations\<close>

datatype relation = Reply string | CustomRelation

definition relates_to_json_repr :: ty where
  "relates_to_json_repr = FStruct None [Field ''m.in_reply_to'' (FOpt message_InReplyTo) SkipNone None False]"

definition event_with_relates_to_json_repr :: ty where
  "event_with_relates_to_json_repr =
     FStruct None [Field ''m.relates_to'' relates_to_json_repr (SkipAll [Some SkipNone]) (Some (VStruct [VNone])) False]"

definition ser_relation :: "relation \<Rightarrow> (json, ser_error) result" where
  "ser_relation r = ser event_with_relates_to_json_repr
     (VStruct [VStruct [(case r of Reply event_id \<Rightarrow> VSome (VStruct [VText event_id]) | CustomRelation \<Rightarrow> VNone)]])"

definition de_relation :: "serde_env \<Rightarrow> json \<Rightarrow> (relation, serde_error) result" where
  "de_relation E j = and_then (de E event_with_relates_to_json_repr j) (\<lambda>ev. Ok (case ev of
     VStruct [VStruct [VSome (VStruct [event_id])]] \<Rightarrow> Reply (text_of event_id) | _ \<Rightarrow> CustomRelation))"

section \<open>Contents of room messages\<close>

record room_message =
  rm_msgtype :: message_type
  rm_relates_to :: "relation option"

definition room_message_new :: "message_type \<Rightarrow> room_message" where
  "room_message_new m = \<lparr>rm_msgtype = m, rm_relates_to = None\<rparr>"

definition text_plain :: "string \<Rightarrow> room_message" where
  "text_plain txt = room_message_new (Message Text (plain_struct txt))"

definition text_html :: "string \<Rightarrow> string \<Rightarrow> room_message" where
  "text_html txt html_body = room_message_new (Message Text (html_struct txt html_body))"

definition notice_plain :: "string \<Rightarrow> room_message" where
  "notice_plain txt = room_message_new (Message Notice (plain_struct txt))"

definition notice_html :: "string \<Rightarrow> string \<Rightarrow> room_message" where
  "notice_html txt html_body = room_message_new (Message Notice (html_struct txt html_body))"

text \<open>Both parts are flattened into one object.\<close>

definition ser_room_message :: "room_message \<Rightarrow> (json, ser_error) result" where
  "ser_room_message c =
     and_then (ser_message_type (rm_msgtype c)) (\<lambda>j.
     and_then (flatten_into j []) (\<lambda>m.
     case rm_relates_to c of
       None \<Rightarrow> Ok (JObject m)
     | Some r \<Rightarrow> and_then (ser_relation r) (\<lambda>k. and_then (flatten_into k m) (\<lambda>m'. Ok (JObject m')))))"

definition de_room_message :: "serde_env \<Rightarrow> json \<Rightarrow> (room_message, serde_error) result" where
  "de_room_message E j =
     and_then (if j = JNull then Ok None else and_then (de_relation E j) (\<lambda>r. Ok (Some r))) (\<lambda>relates_to.
     and_then (de_message_type E j) (\<lambda>m. Ok \<lparr>rm_msgtype = m, rm_relates_to = relates_to\<rparr>))"

section \<open>Replies\<close>

record room_message_event =
  re_content :: room_message
  re_event_id :: string
  re_sender :: string
  re_room_id :: string

text \<open>\<open>str::replace\<close> of a character.\<close>

definition replace_with :: "char \<Rightarrow> string \<Rightarrow> string \<Rightarrow> string" where
  "replace_with c t s = concat (map (\<lambda>x. if x = c then t else [x]) s)"

definition newline :: char where "newline = CHR 10"

text \<open>The body of the quotation before its lines are marked; the first mark is part of it.\<close>

definition plain_quote_text :: "string \<Rightarrow> message_type \<Rightarrow> string" where
  "plain_quote_text sender m = (case m of
     Message Audio v \<Rightarrow> ''> <'' @ sender @ ''> sent an audio file.''
   | Message Emote v \<Rightarrow> ''> * <'' @ sender @ ''> '' @ struct_body v
   | Message File v \<Rightarrow> ''> <'' @ sender @ ''> sent a file.''
   | Message Image v \<Rightarrow> ''> <'' @ sender @ ''> sent an image.''
   | Message Location v \<Rightarrow> ''> <'' @ sender @ ''> '' @ struct_body v
   | Message Notice v \<Rightarrow> ''> <'' @ sender @ ''> '' @ struct_body v
   | Message ServerNotice v \<Rightarrow> ''> <'' @ sender @ ''> '' @ struct_body v
   | Message Text v \<Rightarrow> ''> <'' @ sender @ ''> '' @ struct_body v
   | Message Video v \<Rightarrow> ''> <'' @ sender @ ''> sent a video.''
   | CustomMessage t b d \<Rightarrow> ''> <'' @ sender @ ''> '' @ b)"

definition get_plain_quote_fallback :: "room_message_event \<Rightarrow> string" where
  "get_plain_quote_fallback e =
     replace_with newline (newline # ''> '') (plain_quote_text (re_sender e) (rm_msgtype (re_content e)))"

definition formatted_or_plain_body :: "val \<Rightarrow> string" where
  "formatted_or_plain_body v = (case struct_formatted v of Some html \<Rightarrow> html | None \<Rightarrow> struct_body v)"

text \<open>\<open>formatdoc!\<close> ends every line with a newline and keeps the relative indentation.\<close>

definition unlines :: "string list \<Rightarrow> string" where
  "unlines ls = concat (map (\<lambda>l. l @ [newline]) ls)"

definition html_quote :: "room_message_event \<Rightarrow> string \<Rightarrow> string \<Rightarrow> string" where
  "html_quote e star txt = unlines
     [''<mx-reply>'',
      ''    <blockquote>'',
      ''        <a href=\"https://matrix.to/#/'' @ re_room_id e @ ''/'' @ re_event_id e @ ''\">In reply to</a>'',
      ''        '' @ star @ ''<a href=\"https://matrix.to/#/'' @ re_sender e @ ''\">'' @ re_sender e @ ''</a>'',
      ''        <br />'',
      ''        '' @ txt,
      ''    </blockquote>'',
      ''</mx-reply>'']"

definition get_html_quote_fallback :: "room_message_event \<Rightarrow> string" where
  "get_html_quote_fallback e = (case rm_msgtype (re_content e) of
     Message Audio v \<Rightarrow> html_quote e [] ''sent an audio file.''
   | Message Emote v \<Rightarrow> html_quote e ''* '' (formatted_or_plain_body v)
   | Message File v \<Rightarrow> html_quote e [] ''sent a file.''
   | Message Image v \<Rightarrow> html_quote e [] ''sent an image.''
   | Message Location v \<Rightarrow> html_quote e [] ''sent a location.''
   | Message Notice v \<Rightarrow> html_quote e [] (formatted_or_plain_body v)
   | Message ServerNotice v \<Rightarrow> html_quote e [] (struct_body v)
   | Message Text v \<Rightarrow> html_quote e [] (formatted_or_plain_body v)
   | Message Video v \<Rightarrow> html_quote e [] ''sent a video.''
   | CustomMessage t b d \<Rightarrow> html_quote e [] b)"

definition quoted_body :: "string \<Rightarrow> string \<Rightarrow> string" where
  "quoted_body quoted reply = quoted @ [newline, newline] @ reply"

definition in_reply :: "room_message_event \<Rightarrow> room_message \<Rightarrow> room_message" where
  "in_reply e c = c\<lparr>rm_relates_to := Some (Reply (re_event_id e))\<rparr>"

definition text_reply_plain :: "string \<Rightarrow> room_message_event \<Rightarrow> room_message" where
  "text_reply_plain reply e = in_reply e (text_plain (quoted_body (get_plain_quote_fallback e) reply))"

definition text_reply_html :: "string \<Rightarrow> string \<Rightarrow> room_message_event \<Rightarrow> room_message" where
  "text_reply_html reply html_reply e = in_reply e
     (text_html (quoted_body (get_plain_quote_fallback e) reply) (quoted_body (get_html_quote_fallback e) html_reply))"

definition notice_reply_plain :: "string \<Rightarrow> room_message_event \<Rightarrow> room_message" where
  "notice_reply_plain reply e = in_reply e (notice_plain (quoted_body (get_plain_quote_fallback e) reply))"

definition notice_reply_html :: "string \<Rightarrow> string \<Rightarrow> room_message_event \<Rightarrow> room_message" where
  "notice_reply_html reply html_reply e = in_reply e
     (notice_html (quoted_body (get_plain_quote_fallback e) reply) (quoted_body (get_html_quote_fallback e) html_reply))"

section \<open>The structs of the message types\<close>

lemma kind_named_name [simp]: "kind_named (kind_name k) = Some k"
  by (cases k) (simp_all add: kind_named_def message_kinds_def)

lemma kind_ty_ok: "ty_ok (kind_ty k)" "closed (kind_ty k)" "''m.relates_to'' \<notin> set (ty_keys (kind_ty k))"
  by (cases k; simp only: kind_ty.simps; code_simp)+

lemma kind_ty_shape:
  "\<exists>fs. kind_ty k = FStruct (Some (''msgtype'', kind_name k)) (Field ''body'' (FText AnyText) NeverSkip None False # fs)"
  by (cases k) (simp_all add: message_AudioMessageEventContent_def message_EmoteMessageEventContent_def
    message_FileMessageEventContent_def message_ImageMessageEventContent_def message_LocationMessageEventContent_def
    message_NoticeMessageEventContent_def message_ServerNoticeMessageEventContent_def message_TextMessageEventContent_def
    message_VideoMessageEventContent_def)

text \<open>What a message type writes: an object with its type and its body that is read back, whatever other keys are in it.\<close>

lemma message_written:
  assumes "has_type E (kind_ty k) v"
  shows "\<exists>m. ser (kind_ty k) v = Ok (JObject m) \<and> bt_ok m \<and> bt_get m ''msgtype'' = Some (JString (kind_name k))
    \<and> bt_get m ''body'' = Some (JString (struct_body v)) \<and> bt_get m ''m.relates_to'' = None
    \<and> (\<forall>m'. agree_on (ty_keys (kind_ty k)) m m' \<longrightarrow> de E (kind_ty k) (JObject m') = Ok v)"
proof -
  obtain j where j: "ser (kind_ty k) v = Ok j" "de E (kind_ty k) j = Ok v"
    using ty_ok_sound[OF kind_ty_ok(1), of E k] assms unfolding ty_sound_def by blast
  obtain m where m: "j = JObject m" "bt_ok m" "keys_in m (set (ty_keys (kind_ty k)))" using ser_keys[OF kind_ty_ok(2) j(1)] by blast
  obtain fs where fs: "kind_ty k = FStruct (Some (''msgtype'', kind_name k)) (Field ''body'' (FText AnyText) NeverSkip None False # fs)"
    using kind_ty_shape by blast
  have "bt_get m ''msgtype'' = Some (JString (kind_name k))"
    using j(1) m(1,2) by (auto simp: fs res_simps split: val.splits)
  moreover have "bt_get m ''body'' = Some (JString (struct_body v))"
    using j(2) by (auto simp: fs m(1) res_simps de_text_def struct_body_def split: option.splits json.splits)
  moreover have "bt_get m ''m.relates_to'' = None" using m(3) kind_ty_ok(3) by blast
  moreover have "de E (kind_ty k) (JObject m') = Ok v" if "agree_on (ty_keys (kind_ty k)) m m'" for m'
    using de_frame[OF kind_ty_ok(2) that] j(2) m(1) by metis
  ultimately show ?thesis using j(1) m(1,2) by blast
qed

lemma relation_written:
  "ser_relation (Reply event_id) =
     Ok (JObject [(''m.relates_to'', JObject [(''m.in_reply_to'', JObject [(''event_id'', JString event_id)])])])"
  "ser_relation CustomRelation = Ok (JObject [])"
  by (simp_all add: ser_relation_def event_with_relates_to_json_repr_def relates_to_json_repr_def message_InReplyTo_def)

lemma relation_read:
  "bt_get m ''m.relates_to'' = Some (JObject [(''m.in_reply_to'', JObject [(''event_id'', JString event_id)])]) \<Longrightarrow>
     text_ok E EventIdText event_id \<Longrightarrow> de_relation E (JObject m) = Ok (Reply event_id)"
  "bt_get m ''m.relates_to'' = None \<Longrightarrow> de_relation E (JObject m) = Ok CustomRelation"
  by (simp_all add: de_relation_def event_with_relates_to_json_repr_def relates_to_json_repr_def message_InReplyTo_def)

section \<open>Messages are read back\<close>

fun relation_ok :: "serde_env \<Rightarrow> relation \<Rightarrow> bool" where
  "relation_ok E (Reply event_id) \<longleftrightarrow> text_ok E EventIdText event_id"
| "relation_ok E CustomRelation \<longleftrightarrow> True"

definition relation_json :: "relation option \<Rightarrow> json option" where
  "relation_json r = (case r of
     Some (Reply event_id) \<Rightarrow> Some (JObject [(''m.in_reply_to'', JObject [(''event_id'', JString event_id)])]) | _ \<Rightarrow> None)"

definition read_relation :: "relation option \<Rightarrow> relation" where
  "read_relation r = (case r of Some r' \<Rightarrow> r' | None \<Rightarrow> CustomRelation)"

lemma message_type_read:
  assumes "has_type E (kind_ty k) v" "ser (kind_ty k) v = Ok (JObject m)" "agree_on (''msgtype'' # ty_keys (kind_ty k)) m m'"
  shows "de_message_type E (JObject m') = Ok (Message k v)"
proof -
  have w: "bt_get m ''msgtype'' = Some (JString (kind_name k))" "de E (kind_ty k) (JObject m') = Ok v"
    using message_written[OF assms(1)] assms(2,3) by auto
  have "bt_get m' ''msgtype'' = Some (JString (kind_name k))" using w(1) assms(3) by simp
  then have "de E message_type_de_helper (JObject m') = Ok (VStruct [VText (kind_name k)])"
    by (simp add: message_type_de_helper_def de_text_def)
  then show ?thesis using w(2) by (simp add: de_message_type_def)
qed

text \<open>C39. A message of a known type is read back from its JSON with its data and its reply relation; a message without a
  relation comes back with the relation \<open>_Custom\<close>.\<close>

theorem message_roundtrip:
  assumes v: "has_type E (kind_ty k) v" and r: "\<And>r'. r = Some r' \<Longrightarrow> relation_ok E r'"
  shows "\<exists>j. ser_room_message \<lparr>rm_msgtype = Message k v, rm_relates_to = r\<rparr> = Ok j
    \<and> de_room_message E j = Ok \<lparr>rm_msgtype = Message k v, rm_relates_to = Some (read_relation r)\<rparr>"
proof -
  obtain m where m: "ser (kind_ty k) v = Ok (JObject m)" "bt_ok m" "bt_get m ''m.relates_to'' = None"
    using message_written[OF v] by blast
  have "\<exists>m'. ser_room_message \<lparr>rm_msgtype = Message k v, rm_relates_to = r\<rparr> = Ok (JObject m') \<and> bt_ok m'
    \<and> (\<forall>x. bt_get m' x = (if x = ''m.relates_to'' then relation_json r else bt_get m x))"
  proof (cases r)
    case None
    then show ?thesis using m
      by (auto simp: ser_room_message_def ser_message_type_def flatten_into_def get_extend_object relation_json_def split: option.splits)
  next
    case (Some r')
    have "bt_ok [(''m.relates_to'', w)]" for w :: json by (simp add: bt_ok_def)
    then show ?thesis using m
      by (cases r') (auto simp: Some ser_room_message_def ser_message_type_def flatten_into_def get_extend_object relation_json_def
        relation_written split: option.splits)
  qed
  then obtain m' where m': "ser_room_message \<lparr>rm_msgtype = Message k v, rm_relates_to = r\<rparr> = Ok (JObject m')"
      "\<And>x. bt_get m' x = (if x = ''m.relates_to'' then relation_json r else bt_get m x)" by blast
  have "agree_on (''msgtype'' # ty_keys (kind_ty k)) m m'" using m'(2) kind_ty_ok(3)[of k] by auto
  then have "de_message_type E (JObject m') = Ok (Message k v)" by (rule message_type_read[OF v m(1)])
  moreover have "de_relation E (JObject m') = Ok (read_relation r)"
    using r relation_read m'(2)
    by (cases r; cases "the r") (auto simp: relation_json_def read_relation_def)
  ultimately show ?thesis using m'(1) by (intro exI[of _ "JObject m'"]) (simp add: de_room_message_def)
qed

lemma message_roundtrip_witness:
  "\<exists>j. ser_room_message \<lparr>rm_msgtype = Message Text (html_struct ''hi'' ''<b>hi</b>''), rm_relates_to = Some (Reply ''$e:h.org'')\<rparr> = Ok j
    \<and> de_room_message \<lparr>se_alnum = (\<lambda>c. True), opaque_ok = (\<lambda>name j. True)\<rparr> j
      = Ok \<lparr>rm_msgtype = Message Text (html_struct ''hi'' ''<b>hi</b>''), rm_relates_to = Some (read_relation (Some (Reply ''$e:h.org'')))\<rparr>"
proof (rule message_roundtrip)
  show "has_type \<lparr>se_alnum = (\<lambda>c. True), opaque_ok = (\<lambda>name j. True)\<rparr> (kind_ty Text) (html_struct ''hi'' ''<b>hi</b>'')"
    by code_simp
  have "relation_ok \<lparr>se_alnum = (\<lambda>c. True), opaque_ok = (\<lambda>name j. True)\<rparr> (Reply ''$e:h.org'')" by code_simp
  then show "relation_ok \<lparr>se_alnum = (\<lambda>c. True), opaque_ok = (\<lambda>name j. True)\<rparr> r'" if "Some (Reply ''$e:h.org'') = Some r'" for r'
    using that by auto
qed

text \<open>A message type is rebuilt from its type, body and data, and \<open>data()\<close> never panics; the data still holds the
  type, although the documentation says otherwise.\<close>

lemma message_parts_roundtrip:
  assumes "has_type E (kind_ty k) v"
  shows "\<exists>d. message_data (Message k v) = Ok d \<and> bt_get d ''body'' = None \<and> bt_get d ''msgtype'' = Some (JString (kind_name k))
    \<and> message_type_new E (message_msgtype (Message k v)) (message_body (Message k v)) d = Ok (Message k v)"
proof -
  obtain m where m: "ser (kind_ty k) v = Ok (JObject m)" "bt_ok m" "bt_get m ''msgtype'' = Some (JString (kind_name k))"
      "bt_get m ''body'' = Some (JString (struct_body v))"
      "\<And>m'. agree_on (ty_keys (kind_ty k)) m m' \<Longrightarrow> de E (kind_ty k) (JObject m') = Ok v"
    using message_written[OF assms] by blast
  have "de E (kind_ty k) (JObject (bt_insert ''body'' (JString (struct_body v)) (bt_remove ''body'' m))) = Ok v"
    using m(2,4) by (intro m(5)) simp
  then show ?thesis using m
    by (intro exI[of _ "bt_remove ''body'' m"]) (simp add: message_data_def message_type_new_def message_msgtype_def message_body_def)
qed

lemma message_parts_roundtrip_witness:
  "\<exists>d. message_data (Message Image (media_plain ''pic'' ''mxc://h.org/a'' VNone)) = Ok d
    \<and> bt_get d ''body'' = None \<and> bt_get d ''msgtype'' = Some (JString (kind_name Image))
    \<and> message_type_new \<lparr>se_alnum = (\<lambda>c. True), opaque_ok = (\<lambda>name j. True)\<rparr> (message_msgtype (Message Image (media_plain ''pic'' ''mxc://h.org/a'' VNone)))
        (message_body (Message Image (media_plain ''pic'' ''mxc://h.org/a'' VNone))) d
      = Ok (Message Image (media_plain ''pic'' ''mxc://h.org/a'' VNone))"
  by (rule message_parts_roundtrip) code_simp

text \<open>The data of a message of another type swallows the relation too, which is then written twice.\<close>

lemma custom_message_keeps_relation:
  "de_room_message \<lparr>se_alnum = (\<lambda>c. True), opaque_ok = (\<lambda>name j. True)\<rparr>
     (JObject [(''body'', JString ''b''),
       (''m.relates_to'', JObject [(''m.in_reply_to'', JObject [(''event_id'', JString ''$e:h.org'')])]), (''msgtype'', JString ''x'')])
   = Ok \<lparr>rm_msgtype = CustomMessage ''x'' ''b''
         [(''m.relates_to'', JObject [(''m.in_reply_to'', JObject [(''event_id'', JString ''$e:h.org'')])])],
       rm_relates_to = Some (Reply ''$e:h.org'')\<rparr>"
  by code_simp

section \<open>Quotations\<close>

lemma str_split_replace:
  assumes "c \<notin> set p"
  shows "str_split c (replace_with c (c # p) s) = (case str_split c s of l # ls \<Rightarrow> l # map ((@) p) ls)"
proof (induction s)
  case (Cons x s)
  obtain l ls where l: "str_split c s = l # ls" by (cases "str_split c s") simp_all
  have pre: "str_split c (p @ t) = (p @ hd (str_split c t)) # tl (str_split c t)" for t
    using assms by (induction p) (auto split: list.splits)
  show ?case using Cons l pre by (cases "x = c") (simp_all add: replace_with_def)
qed (simp add: replace_with_def)

lemma plain_quote_marked: "plain_quote_text sender m = ''> '' @ drop 2 (plain_quote_text sender m)"
  by (auto simp: plain_quote_text_def split: message_type.splits message_kind.splits)

lemma plain_quote_lines:
  "str_split newline (get_plain_quote_fallback e)
     = map ((@) ''> '') (str_split newline (drop 2 (plain_quote_text (re_sender e) (rm_msgtype (re_content e)))))"
proof -
  let ?t = "drop 2 (plain_quote_text (re_sender e) (rm_msgtype (re_content e)))"
  obtain l ls where l: "str_split newline ?t = l # ls" by (cases "str_split newline ?t") simp_all
  have "str_split newline (''> '' @ ?t) = (''> '' @ l) # ls" using l by (simp add: newline_def)
  then have "str_split newline (plain_quote_text (re_sender e) (rm_msgtype (re_content e))) = (''> '' @ l) # ls"
    using plain_quote_marked by metis
  moreover have "newline \<notin> set ''> ''" by (simp add: newline_def)
  ultimately show ?thesis by (simp add: get_plain_quote_fallback_def str_split_replace l)
qed

lemma quoted_body_lines:
  "dropWhile (starts_with ''> '') (str_split newline (quoted_body (get_plain_quote_fallback e) reply)) = [] # str_split newline reply"
proof -
  have "str_split newline (quoted_body q reply) = str_split newline q @ [] # str_split newline reply" for q
    unfolding quoted_body_def append_Cons append_Nil str_split_concat by simp
  moreover have "dropWhile (starts_with ''> '') (map ((@) ''> '') ls @ [] # rest) = [] # rest" for ls rest by (induction ls) auto
  ultimately show ?thesis by (simp add: plain_quote_lines)
qed

text \<open>C40. A reply quotes the original message in lines marked with \<open>>\<close>, so that dropping the marked lines and the empty
  line after them leaves exactly the reply, whatever either text is; the reply relation names the original event.\<close>

theorem reply_fallback_strippable:
  assumes "c \<in> {text_reply_plain reply e, text_reply_html reply html e, notice_reply_plain reply e, notice_reply_html reply html e}"
  shows "dropWhile (starts_with ''> '') (str_split newline (message_body (rm_msgtype c))) = [] # str_split newline reply
    \<and> rm_relates_to c = Some (Reply (re_event_id e))"
  using assms
  by (auto simp: text_reply_plain_def text_reply_html_def notice_reply_plain_def notice_reply_html_def in_reply_def text_plain_def
    text_html_def notice_plain_def notice_html_def room_message_new_def message_body_def plain_struct_def html_struct_def
    struct_body_def quoted_body_lines)

lemma reply_fallback_strippable_witness:
  "dropWhile (starts_with ''> '') (str_split newline (message_body (rm_msgtype (text_reply_plain ''ok''
      \<lparr>re_content = text_plain (''a'' @ [newline] @ ''b''), re_event_id = ''$e:h.org'', re_sender = ''@u:h.org'', re_room_id = ''!r:h.org''\<rparr>))))
    = [[], ''ok'']"
  using reply_fallback_strippable[of "text_reply_plain ''ok''
      \<lparr>re_content = text_plain (''a'' @ [newline] @ ''b''), re_event_id = ''$e:h.org'', re_sender = ''@u:h.org'', re_room_id = ''!r:h.org''\<rparr>" "''ok''" "\<lparr>re_content = text_plain (''a'' @ [newline] @ ''b''), re_event_id = ''$e:h.org'', re_sender = ''@u:h.org'', re_room_id = ''!r:h.org''\<rparr>" "[]"]
  by (simp add: newline_def)

text \<open>The HTML quotation holds a plain body as it is: nothing escapes the markup in it.\<close>

lemma html_quote_not_escaped:
  assumes "rm_msgtype (re_content e) = Message Text (plain_struct b)"
  shows "\<exists>before after. get_html_quote_fallback e = before @ b @ after"
proof -
  have "\<exists>before after. html_quote e [] b = before @ b @ after"
    by (rule exI[of _ "unlines [''<mx-reply>'', ''    <blockquote>'',
        ''        <a href=\"https://matrix.to/#/'' @ re_room_id e @ ''/'' @ re_event_id e @ ''\">In reply to</a>'',
        ''        '' @ ''<a href=\"https://matrix.to/#/'' @ re_sender e @ ''\">'' @ re_sender e @ ''</a>'', ''        <br />''] @ ''        ''"],
      rule exI[of _ "newline # unlines [''    </blockquote>'', ''</mx-reply>'']"]) (simp add: html_quote_def unlines_def)
  then show ?thesis
    by (simp add: get_html_quote_fallback_def assms formatted_or_plain_body_def struct_formatted_def plain_struct_def struct_body_def)
qed

end
